(* ===== verification/Prelude.thy ===== *)
theory Prelude
  imports Main "HOL-Library.Word"
begin

text \<open>
  What every component of the development shares: the machine integers of the source as words,
  Rust's \<open>Result\<close> as a sum type with its \<open>?\<close> operator, slices and in-place writes of byte
  buffers, and the byte orders of the formats (little endian for kernel images, big endian for
  device trees) with their round trips.
  \<open>usize\<close> is \<open>nat\<close>; where the code uses checked arithmetic the bound \<open>2 ^ 64\<close> is written out.
\<close>

unbundle bit_operations_syntax

section \<open>Types\<close>

type_synonym byte = "8 word"
type_synonym u16 = "16 word"
type_synonym u32 = "32 word"
type_synonym u64 = "64 word"

section \<open>Results\<close>

text \<open>\<open>Inl\<close> is Rust's \<open>Err\<close> (or a panic, where the error type has one), \<open>Inr\<close> is \<open>Ok\<close>.\<close>

named_theorems result_simps \<open>unfolding of the result combinators\<close>

definition bind_r :: "'e + 'a \<Rightarrow> ('a \<Rightarrow> 'e + 'b) \<Rightarrow> 'e + 'b" where
  "bind_r m f = (case m of Inl e \<Rightarrow> Inl e | Inr x \<Rightarrow> f x)"

definition ok_or :: "'a option \<Rightarrow> 'e \<Rightarrow> 'e + 'a" where
  "ok_or m e = (case m of None \<Rightarrow> Inl e | Some x \<Rightarrow> Inr x)"

definition ensure :: "bool \<Rightarrow> 'e \<Rightarrow> 'e + unit" where
  "ensure b e = (if b then Inr () else Inl e)"

lemma bind_r_simps [simp, result_simps]:
  "bind_r (Inl e) f = Inl e"
  "bind_r (Inr x) f = f x"
  by (simp_all add: bind_r_def)

lemma bind_r_Inr_iff: "bind_r m f = Inr y \<longleftrightarrow> (\<exists>x. m = Inr x \<and> f x = Inr y)"
  by (cases m) auto

lemma bind_r_Inl_iff:
  "bind_r m f = Inl e \<longleftrightarrow> m = Inl e \<or> (\<exists>x. m = Inr x \<and> f x = Inl e)"
  by (cases m) auto

lemma bind_r_InrE:
  assumes "bind_r m f = Inr y"
  obtains x where "m = Inr x" "f x = Inr y"
  using assms by (auto simp: bind_r_Inr_iff)

lemma bind_r_Inr_pairE:
  assumes "bind_r m (case_prod f) = Inr y"
  obtains a b where "m = Inr (a, b)" "f a b = Inr y"
  using assms by (auto simp: bind_r_Inr_iff)

lemma ok_or_simps [simp, result_simps]:
  "ok_or None e = Inl e"
  "ok_or (Some x) e = Inr x"
  by (simp_all add: ok_or_def)

lemma ok_or_Inr_iff: "ok_or m e = Inr x \<longleftrightarrow> m = Some x"
  by (cases m) auto

lemma ensure_simps [simp, result_simps]:
  "ensure True e = Inr ()"
  "ensure False e = Inl e"
  by (simp_all add: ensure_def)

lemma ensure_Inr_iff: "ensure b e = Inr u \<longleftrightarrow> b"
  by (cases b) auto

lemma ensure_Inl_iff: "ensure b e = Inl e' \<longleftrightarrow> \<not> b \<and> e' = e"
  by (cases b) auto

section \<open>Fallible traversals\<close>

text \<open>\<open>collect::<Result<Vec<_>>>()\<close> over a fallible \<open>map\<close>: the first error wins.\<close>

fun try_map :: "('a \<Rightarrow> 'e + 'b) \<Rightarrow> 'a list \<Rightarrow> 'e + 'b list" where
  "try_map f [] = Inr []"
| "try_map f (x # xs) = bind_r (f x) (\<lambda>y. bind_r (try_map f xs) (\<lambda>ys. Inr (y # ys)))"

lemma try_map_Inr_iff: "try_map f xs = Inr ys \<longleftrightarrow> list_all2 (\<lambda>x y. f x = Inr y) xs ys"
  by (induction xs arbitrary: ys) (auto simp: bind_r_Inr_iff list_all2_Cons1)

lemma try_map_Inl: "try_map f xs = Inl e \<Longrightarrow> \<exists>x \<in> set xs. f x = Inl e"
  by (induction xs) (auto simp: bind_r_Inl_iff)

lemma try_map_length: "try_map f xs = Inr ys \<Longrightarrow> length ys = length xs"
  by (auto simp: try_map_Inr_iff dest: list_all2_lengthD)

lemma try_map_nth: "try_map f xs = Inr ys \<Longrightarrow> i < length xs \<Longrightarrow> f (xs ! i) = Inr (ys ! i)"
  by (auto simp: try_map_Inr_iff list_all2_conv_all_nth)

section \<open>Buffers\<close>

text \<open>Rust's \<open>get(a..b)\<close>: the slice, or nothing when the range is not inside the buffer.\<close>

definition slice :: "'a list \<Rightarrow> nat \<Rightarrow> nat \<Rightarrow> 'a list option" where
  "slice xs a b = (if a \<le> b \<and> b \<le> length xs then Some (take (b - a) (drop a xs)) else None)"

text \<open>The bytes of a range that is known to be inside the buffer (\<open>&xs[a..b]\<close>).\<close>

definition window :: "'a list \<Rightarrow> nat \<Rightarrow> nat \<Rightarrow> 'a list" where
  "window xs a b = take (b - a) (drop a xs)"

text \<open>\<open>xs[p..p+n].copy_from_slice(ys)\<close> with \<open>n = ys.len()\<close>.\<close>

definition write_at :: "'a list \<Rightarrow> nat \<Rightarrow> 'a list \<Rightarrow> 'a list" where
  "write_at xs p ys = take p xs @ ys @ drop (p + length ys) xs"

lemma slice_Some_iff:
  "slice xs a b = Some ys \<longleftrightarrow> a \<le> b \<and> b \<le> length xs \<and> ys = window xs a b"
  by (auto simp: slice_def window_def)

lemma length_window [simp]: "b \<le> length xs \<Longrightarrow> length (window xs a b) = b - a"
  by (simp add: window_def)

lemma nth_window: "i < b - a \<Longrightarrow> b \<le> length xs \<Longrightarrow> window xs a b ! i = xs ! (a + i)"
  by (simp add: window_def)

lemma window_append_left: "b \<le> length xs \<Longrightarrow> window (xs @ ys) a b = window xs a b"
  by (cases "a \<le> b") (simp_all add: window_def)

lemma window_append_right:
  "window (xs @ ys) (length xs + a) (length xs + b) = window ys a b"
  by (simp add: window_def)

lemma slice_append_right:
  "slice (xs @ ys) (length xs + a) (length xs + b) = slice ys a b"
  by (simp add: slice_def)

lemma window_append:
  "a \<le> b \<Longrightarrow> b \<le> c \<Longrightarrow> window xs a b @ window xs b c = window xs a c"
proof -
  assume ab: "a \<le> b" and bc: "b \<le> c"
  then have "take (c - a) (drop a xs) = take (b - a) (drop a xs) @ take (c - b) (drop (b - a) (drop a xs))"
    by (metis add_diff_cancel_left' diff_add_inverse2 le_add_diff_inverse ab bc take_add add_diff_assoc2)
  then show ?thesis using ab by (simp add: window_def)
qed

lemma length_write_at [simp]:
  "p + length ys \<le> length xs \<Longrightarrow> length (write_at xs p ys) = length xs"
  by (simp add: write_at_def)

lemma nth_write_at:
  assumes "p + length ys \<le> length xs" and "i < length xs"
  shows "write_at xs p ys ! i = (if p \<le> i \<and> i < p + length ys then ys ! (i - p) else xs ! i)"
  using assms by (auto simp: write_at_def nth_append)

lemma window_write_at_same:
  "p + length ys \<le> length xs \<Longrightarrow> window (write_at xs p ys) p (p + length ys) = ys"
  by (simp add: window_def write_at_def)

lemma window_write_at_other:
  assumes "p + length ys \<le> length xs" and "b \<le> length xs" and "b \<le> p \<or> p + length ys \<le> a"
  shows "window (write_at xs p ys) a b = window xs a b"
proof (rule nth_equalityI)
  show "length (window (write_at xs p ys) a b) = length (window xs a b)"
    using assms by simp
  fix i assume "i < length (window (write_at xs p ys) a b)"
  then have "i < b - a" using assms by simp
  then show "window (write_at xs p ys) a b ! i = window xs a b ! i"
    using assms by (auto simp: nth_window nth_write_at)
qed

section \<open>Byte order\<close>

named_theorems byte_simps \<open>unfolding of the byte conversions\<close>

definition u16_of_le :: "byte \<Rightarrow> byte \<Rightarrow> u16" where
  "u16_of_le a b = ucast a OR push_bit 8 (ucast b)"

definition u32_of_le :: "byte \<Rightarrow> byte \<Rightarrow> byte \<Rightarrow> byte \<Rightarrow> u32" where
  "u32_of_le a b c d =
     ucast a OR push_bit 8 (ucast b) OR push_bit 16 (ucast c) OR push_bit 24 (ucast d)"

definition u32_of_be :: "byte \<Rightarrow> byte \<Rightarrow> byte \<Rightarrow> byte \<Rightarrow> u32" where
  "u32_of_be a b c d = u32_of_le d c b a"

definition u32_le :: "u32 \<Rightarrow> byte list" where
  "u32_le w = [ucast w, ucast (drop_bit 8 w), ucast (drop_bit 16 w), ucast (drop_bit 24 w)]"

definition u32_be :: "u32 \<Rightarrow> byte list" where
  "u32_be w = [ucast (drop_bit 24 w), ucast (drop_bit 16 w), ucast (drop_bit 8 w), ucast w]"

definition u64_of_le :: "byte list \<Rightarrow> u64" where
  "u64_of_le bs = foldr (\<lambda>b acc. push_bit 8 acc OR ucast b) bs 0"

lemmas byte_bits = bit_simps bit_ucast_iff

lemma length_u32_le [simp]: "length (u32_le w) = 4"
  by (simp add: u32_le_def)

lemma length_u32_be [simp]: "length (u32_be w) = 4"
  by (simp add: u32_be_def)

lemma u32_of_le_bytes:
  "u32_of_le (ucast w) (ucast (drop_bit 8 w)) (ucast (drop_bit 16 w)) (ucast (drop_bit 24 w)) = w"
proof (rule bit_word_eqI)
  fix n assume "n < LENGTH(32)"
  then have "n < 8 \<or> (8 \<le> n \<and> n < 16) \<or> (16 \<le> n \<and> n < 24) \<or> (24 \<le> n \<and> n < 32)"
    by auto
  then show "bit (u32_of_le (ucast w) (ucast (drop_bit 8 w)) (ucast (drop_bit 16 w))
      (ucast (drop_bit 24 w))) n = bit w n"
    by (auto simp: u32_of_le_def byte_bits)
qed

lemma u32_of_be_bytes:
  "u32_of_be (ucast (drop_bit 24 w)) (ucast (drop_bit 16 w)) (ucast (drop_bit 8 w)) (ucast w) = w"
  by (simp add: u32_of_be_def u32_of_le_bytes)

lemma ucast_u32_of_le:
  "(ucast (u32_of_le a b c d) :: byte) = a"
  "(ucast (drop_bit 8 (u32_of_le a b c d)) :: byte) = b"
  "(ucast (drop_bit 16 (u32_of_le a b c d)) :: byte) = c"
  "(ucast (drop_bit 24 (u32_of_le a b c d)) :: byte) = d"
  by (rule bit_word_eqI; auto simp: u32_of_le_def byte_bits dest: bit_imp_le_length)+

lemma u32_le_u32_of_le: "u32_le (u32_of_le a b c d) = [a, b, c, d]"
  by (simp add: u32_le_def ucast_u32_of_le)

lemma u32_be_u32_of_be: "u32_be (u32_of_be a b c d) = [a, b, c, d]"
  by (simp add: u32_be_def u32_of_be_def ucast_u32_of_le)

text \<open>Addition on \<open>usize\<close>, 64 bits wide: it wraps in the release build.\<close>

definition usize_add :: "nat \<Rightarrow> nat \<Rightarrow> nat" where
  "usize_add a b = (a + b) mod 2 ^ 64"

lemma usize_add_small [simp]: "a + b < 2 ^ 64 \<Longrightarrow> usize_add a b = a + b"
  by (simp add: usize_add_def)

text \<open>Reading four bytes of a buffer at an offset.\<close>

definition rd32_le :: "byte list \<Rightarrow> nat \<Rightarrow> u32" where
  "rd32_le bs p = u32_of_le (bs ! p) (bs ! (p + 1)) (bs ! (p + 2)) (bs ! (p + 3))"

text \<open>The same with the indexing of the source, which panics (\<open>None\<close>) outside the buffer.\<close>

definition rd32_at :: "byte list \<Rightarrow> nat \<Rightarrow> u32 option" where
  "rd32_at bs p = (if p + 4 \<le> length bs then Some (rd32_le bs p) else None)"

lemma rd32_at_Some [simp]: "p + 4 \<le> length bs \<Longrightarrow> rd32_at bs p = Some (rd32_le bs p)"
  by (simp add: rd32_at_def)

definition rd32_be :: "byte list \<Rightarrow> nat \<Rightarrow> u32" where
  "rd32_be bs p = u32_of_be (bs ! p) (bs ! (p + 1)) (bs ! (p + 2)) (bs ! (p + 3))"

lemma rd32_le_u32_le [simp]: "rd32_le (u32_le w) 0 = w"
  by (simp add: rd32_le_def u32_le_def u32_of_le_bytes)

lemma rd32_be_u32_be [simp]: "rd32_be (u32_be w) 0 = w"
  by (simp add: rd32_be_def u32_be_def u32_of_be_bytes)

lemma rd32_le_window: "p + 4 \<le> length bs \<Longrightarrow> rd32_le bs p = rd32_le (window bs p (p + 4)) 0"
  by (simp add: rd32_le_def nth_window)

lemma rd32_be_window: "p + 4 \<le> length bs \<Longrightarrow> rd32_be bs p = rd32_be (window bs p (p + 4)) 0"
  by (simp add: rd32_be_def nth_window)

end
