(* ===== verification/Insn.thy ===== *)
theory Insn
  imports Prelude
begin

text \<open>
  The AArch64 instruction predicates of \<open>skroot/insn.rs\<close>: every \<open>insn_is!\<close> line of the source is
  one definition here, a mask and a value for \<open>insn_is\<close>, in the order of the file; then the field
  extractors and the branch displacements. The lemmas show how a class is decided by its masked
  bits, which classes exclude each other, and that every displacement is in the range of its field.
\<close>

unbundle bit_operations_syntax

named_theorems insn_defs \<open>masks and values of the instruction classes\<close>

section \<open>The mask and value table\<close>

definition insn_is :: "u32 \<Rightarrow> u32 \<Rightarrow> u32 \<Rightarrow> bool" where
  "insn_is msk val insn \<longleftrightarrow> insn AND msk = val"

definition is_class_branch_sys :: "u32 \<Rightarrow> bool" where
  [insn_defs]: "is_class_branch_sys = insn_is 0x1c000000 0x14000000"

definition is_adr :: "u32 \<Rightarrow> bool" where
  [insn_defs]: "is_adr = insn_is 0x9F000000 0x10000000"

definition is_adrp :: "u32 \<Rightarrow> bool" where
  [insn_defs]: "is_adrp = insn_is 0x9F000000 0x90000000"

definition is_prfm :: "u32 \<Rightarrow> bool" where
  [insn_defs]: "is_prfm = insn_is 0x3FC00000 0x39800000"

definition is_prfm_lit :: "u32 \<Rightarrow> bool" where
  [insn_defs]: "is_prfm_lit = insn_is 0xFF000000 0xD8000000"

definition is_store_imm :: "u32 \<Rightarrow> bool" where
  [insn_defs]: "is_store_imm = insn_is 0x3FC00000 0x39000000"

definition is_load_imm :: "u32 \<Rightarrow> bool" where
  [insn_defs]: "is_load_imm = insn_is 0x3FC00000 0x39400000"

definition is_signed_load_imm :: "u32 \<Rightarrow> bool" where
  [insn_defs]: "is_signed_load_imm = insn_is 0x3FC00000 0x39800000"

definition is_store_pre :: "u32 \<Rightarrow> bool" where
  [insn_defs]: "is_store_pre = insn_is 0x3FE00C00 0x38000C00"

definition is_load_pre :: "u32 \<Rightarrow> bool" where
  [insn_defs]: "is_load_pre = insn_is 0x3FE00C00 0x38400C00"

definition is_store_post :: "u32 \<Rightarrow> bool" where
  [insn_defs]: "is_store_post = insn_is 0x3FE00C00 0x38000400"

definition is_load_post :: "u32 \<Rightarrow> bool" where
  [insn_defs]: "is_load_post = insn_is 0x3FE00C00 0x38400400"

definition is_str_reg :: "u32 \<Rightarrow> bool" where
  [insn_defs]: "is_str_reg = insn_is 0x3FE0EC00 0x38206800"

definition is_str_imm :: "u32 \<Rightarrow> bool" where
  [insn_defs]: "is_str_imm = insn_is 0x3FC00000 0x39000000"

definition is_ldadd :: "u32 \<Rightarrow> bool" where
  [insn_defs]: "is_ldadd = insn_is 0x3F20FC00 0x38200000"

definition is_ldclr :: "u32 \<Rightarrow> bool" where
  [insn_defs]: "is_ldclr = insn_is 0x3F20FC00 0x38201000"

definition is_ldeor :: "u32 \<Rightarrow> bool" where
  [insn_defs]: "is_ldeor = insn_is 0x3F20FC00 0x38202000"

definition is_ldset :: "u32 \<Rightarrow> bool" where
  [insn_defs]: "is_ldset = insn_is 0x3F20FC00 0x38203000"

definition is_swp :: "u32 \<Rightarrow> bool" where
  [insn_defs]: "is_swp = insn_is 0x3F20FC00 0x38208000"

definition is_cas :: "u32 \<Rightarrow> bool" where
  [insn_defs]: "is_cas = insn_is 0x3FA07C00 0x08A07C00"

definition is_ldr_reg :: "u32 \<Rightarrow> bool" where
  [insn_defs]: "is_ldr_reg = insn_is 0x3FE0EC00 0x38606800"

definition is_signed_ldr_reg :: "u32 \<Rightarrow> bool" where
  [insn_defs]: "is_signed_ldr_reg = insn_is 0x3FE0FC00 0x38A0E800"

definition is_ldr_imm :: "u32 \<Rightarrow> bool" where
  [insn_defs]: "is_ldr_imm = insn_is 0x3FC00000 0x39400000"

definition is_ldr_lit :: "u32 \<Rightarrow> bool" where
  [insn_defs]: "is_ldr_lit = insn_is 0xBF000000 0x18000000"

definition is_ldrsw_lit :: "u32 \<Rightarrow> bool" where
  [insn_defs]: "is_ldrsw_lit = insn_is 0xFF000000 0x98000000"

definition is_exclusive :: "u32 \<Rightarrow> bool" where
  [insn_defs]: "is_exclusive = insn_is 0x3F800000 0x08000000"

definition is_load_ex :: "u32 \<Rightarrow> bool" where
  [insn_defs]: "is_load_ex = insn_is 0x3F400000 0x08400000"

definition is_store_ex :: "u32 \<Rightarrow> bool" where
  [insn_defs]: "is_store_ex = insn_is 0x3F400000 0x08000000"

definition is_stp :: "u32 \<Rightarrow> bool" where
  [insn_defs]: "is_stp = insn_is 0x7FC00000 0x29000000"

definition is_ldp :: "u32 \<Rightarrow> bool" where
  [insn_defs]: "is_ldp = insn_is 0x7FC00000 0x29400000"

definition is_stp_post :: "u32 \<Rightarrow> bool" where
  [insn_defs]: "is_stp_post = insn_is 0x7FC00000 0x28800000"

definition is_ldp_post :: "u32 \<Rightarrow> bool" where
  [insn_defs]: "is_ldp_post = insn_is 0x7FC00000 0x28C00000"

definition is_stp_pre :: "u32 \<Rightarrow> bool" where
  [insn_defs]: "is_stp_pre = insn_is 0x7FC00000 0x29800000"

definition is_ldp_pre :: "u32 \<Rightarrow> bool" where
  [insn_defs]: "is_ldp_pre = insn_is 0x7FC00000 0x29C00000"

definition is_add_imm :: "u32 \<Rightarrow> bool" where
  [insn_defs]: "is_add_imm = insn_is 0x7F000000 0x11000000"

definition is_adds_imm :: "u32 \<Rightarrow> bool" where
  [insn_defs]: "is_adds_imm = insn_is 0x7F000000 0x31000000"

definition is_sub_imm :: "u32 \<Rightarrow> bool" where
  [insn_defs]: "is_sub_imm = insn_is 0x7F000000 0x51000000"

definition is_subs_imm :: "u32 \<Rightarrow> bool" where
  [insn_defs]: "is_subs_imm = insn_is 0x7F000000 0x71000000"

definition is_movn :: "u32 \<Rightarrow> bool" where
  [insn_defs]: "is_movn = insn_is 0x7F800000 0x12800000"

definition is_sbfm :: "u32 \<Rightarrow> bool" where
  [insn_defs]: "is_sbfm = insn_is 0x7F800000 0x13000000"

definition is_bfm :: "u32 \<Rightarrow> bool" where
  [insn_defs]: "is_bfm = insn_is 0x7F800000 0x33000000"

definition is_movz :: "u32 \<Rightarrow> bool" where
  [insn_defs]: "is_movz = insn_is 0x7F800000 0x52800000"

definition is_ubfm :: "u32 \<Rightarrow> bool" where
  [insn_defs]: "is_ubfm = insn_is 0x7F800000 0x53000000"

definition is_movk :: "u32 \<Rightarrow> bool" where
  [insn_defs]: "is_movk = insn_is 0x7F800000 0x72800000"

definition is_add :: "u32 \<Rightarrow> bool" where
  [insn_defs]: "is_add = insn_is 0x7F200000 0x0B000000"

definition is_adds :: "u32 \<Rightarrow> bool" where
  [insn_defs]: "is_adds = insn_is 0x7F200000 0x2B000000"

definition is_sub :: "u32 \<Rightarrow> bool" where
  [insn_defs]: "is_sub = insn_is 0x7F200000 0x4B000000"

definition is_subs :: "u32 \<Rightarrow> bool" where
  [insn_defs]: "is_subs = insn_is 0x7F200000 0x6B000000"

definition is_madd :: "u32 \<Rightarrow> bool" where
  [insn_defs]: "is_madd = insn_is 0x7FE08000 0x1B000000"

definition is_msub :: "u32 \<Rightarrow> bool" where
  [insn_defs]: "is_msub = insn_is 0x7FE08000 0x1B008000"

definition is_udiv :: "u32 \<Rightarrow> bool" where
  [insn_defs]: "is_udiv = insn_is 0x7FE0FC00 0x1AC00800"

definition is_sdiv :: "u32 \<Rightarrow> bool" where
  [insn_defs]: "is_sdiv = insn_is 0x7FE0FC00 0x1AC00C00"

definition is_lslv :: "u32 \<Rightarrow> bool" where
  [insn_defs]: "is_lslv = insn_is 0x7FE0FC00 0x1AC02000"

definition is_lsrv :: "u32 \<Rightarrow> bool" where
  [insn_defs]: "is_lsrv = insn_is 0x7FE0FC00 0x1AC02400"

definition is_asrv :: "u32 \<Rightarrow> bool" where
  [insn_defs]: "is_asrv = insn_is 0x7FE0FC00 0x1AC02800"

definition is_rorv :: "u32 \<Rightarrow> bool" where
  [insn_defs]: "is_rorv = insn_is 0x7FE0FC00 0x1AC02C00"

definition is_rev16 :: "u32 \<Rightarrow> bool" where
  [insn_defs]: "is_rev16 = insn_is 0x7FFFFC00 0x5AC00400"

definition is_rev32 :: "u32 \<Rightarrow> bool" where
  [insn_defs]: "is_rev32 = insn_is 0x7FFFFC00 0x5AC00800"

definition is_rev64 :: "u32 \<Rightarrow> bool" where
  [insn_defs]: "is_rev64 = insn_is 0x7FFFFC00 0x5AC00C00"

definition is_and :: "u32 \<Rightarrow> bool" where
  [insn_defs]: "is_and = insn_is 0x7F200000 0x0A000000"

definition is_bic :: "u32 \<Rightarrow> bool" where
  [insn_defs]: "is_bic = insn_is 0x7F200000 0x0A200000"

definition is_orr :: "u32 \<Rightarrow> bool" where
  [insn_defs]: "is_orr = insn_is 0x7F200000 0x2A000000"

definition is_mov_reg :: "u32 \<Rightarrow> bool" where
  [insn_defs]: "is_mov_reg = insn_is 0x7FE0FFE0 0x2A0003E0"

definition is_orn :: "u32 \<Rightarrow> bool" where
  [insn_defs]: "is_orn = insn_is 0x7F200000 0x2A200000"

definition is_eor :: "u32 \<Rightarrow> bool" where
  [insn_defs]: "is_eor = insn_is 0x7F200000 0x4A000000"

definition is_eon :: "u32 \<Rightarrow> bool" where
  [insn_defs]: "is_eon = insn_is 0x7F200000 0x4A200000"

definition is_ands :: "u32 \<Rightarrow> bool" where
  [insn_defs]: "is_ands = insn_is 0x7F200000 0x6A000000"

definition is_bics :: "u32 \<Rightarrow> bool" where
  [insn_defs]: "is_bics = insn_is 0x7F200000 0x6A200000"

definition is_and_imm :: "u32 \<Rightarrow> bool" where
  [insn_defs]: "is_and_imm = insn_is 0x7F800000 0x12000000"

definition is_orr_imm :: "u32 \<Rightarrow> bool" where
  [insn_defs]: "is_orr_imm = insn_is 0x7F800000 0x32000000"

definition is_eor_imm :: "u32 \<Rightarrow> bool" where
  [insn_defs]: "is_eor_imm = insn_is 0x7F800000 0x52000000"

definition is_ands_imm :: "u32 \<Rightarrow> bool" where
  [insn_defs]: "is_ands_imm = insn_is 0x7F800000 0x72000000"

definition is_extr :: "u32 \<Rightarrow> bool" where
  [insn_defs]: "is_extr = insn_is 0x7FA00000 0x13800000"

definition is_b :: "u32 \<Rightarrow> bool" where
  [insn_defs]: "is_b = insn_is 0xFC000000 0x14000000"

definition is_bl :: "u32 \<Rightarrow> bool" where
  [insn_defs]: "is_bl = insn_is 0xFC000000 0x94000000"

definition is_cbz :: "u32 \<Rightarrow> bool" where
  [insn_defs]: "is_cbz = insn_is 0x7F000000 0x34000000"

definition is_cbnz :: "u32 \<Rightarrow> bool" where
  [insn_defs]: "is_cbnz = insn_is 0x7F000000 0x35000000"

definition is_tbz :: "u32 \<Rightarrow> bool" where
  [insn_defs]: "is_tbz = insn_is 0x7F000000 0x36000000"

definition is_tbnz :: "u32 \<Rightarrow> bool" where
  [insn_defs]: "is_tbnz = insn_is 0x7F000000 0x37000000"

definition is_bcond :: "u32 \<Rightarrow> bool" where
  [insn_defs]: "is_bcond = insn_is 0xFF000010 0x54000000"

definition is_svc :: "u32 \<Rightarrow> bool" where
  [insn_defs]: "is_svc = insn_is 0xFFE0001F 0xD4000001"

definition is_hvc :: "u32 \<Rightarrow> bool" where
  [insn_defs]: "is_hvc = insn_is 0xFFE0001F 0xD4000002"

definition is_smc :: "u32 \<Rightarrow> bool" where
  [insn_defs]: "is_smc = insn_is 0xFFE0001F 0xD4000003"

definition is_brk :: "u32 \<Rightarrow> bool" where
  [insn_defs]: "is_brk = insn_is 0xFFE0001F 0xD4200000"

definition is_exception :: "u32 \<Rightarrow> bool" where
  [insn_defs]: "is_exception = insn_is 0xFF000000 0xD4000000"

definition is_hint :: "u32 \<Rightarrow> bool" where
  [insn_defs]: "is_hint = insn_is 0xFFFFF01F 0xD503201F"

definition is_paciaz :: "u32 \<Rightarrow> bool" where
  [insn_defs]: "is_paciaz = insn_is 0xFFFFFFFF 0xD503231F"

definition is_paciasp :: "u32 \<Rightarrow> bool" where
  [insn_defs]: "is_paciasp = insn_is 0xFFFFFFFF 0xD503233F"

definition is_pacibz :: "u32 \<Rightarrow> bool" where
  [insn_defs]: "is_pacibz = insn_is 0xFFFFFFFF 0xD503235F"

definition is_pacibsp :: "u32 \<Rightarrow> bool" where
  [insn_defs]: "is_pacibsp = insn_is 0xFFFFFFFF 0xD503237F"

definition is_autiaz :: "u32 \<Rightarrow> bool" where
  [insn_defs]: "is_autiaz = insn_is 0xFFFFFFFF 0xD503239F"

definition is_autiasp :: "u32 \<Rightarrow> bool" where
  [insn_defs]: "is_autiasp = insn_is 0xFFFFFFFF 0xD50323BF"

definition is_autibz :: "u32 \<Rightarrow> bool" where
  [insn_defs]: "is_autibz = insn_is 0xFFFFFFFF 0xD50323DF"

definition is_autibsp :: "u32 \<Rightarrow> bool" where
  [insn_defs]: "is_autibsp = insn_is 0xFFFFFFFF 0xD50323FF"

definition is_br :: "u32 \<Rightarrow> bool" where
  [insn_defs]: "is_br = insn_is 0xFFFFFC1F 0xD61F0000"

definition is_br_auth :: "u32 \<Rightarrow> bool" where
  [insn_defs]: "is_br_auth = insn_is 0xFEFFF800 0xD61F0800"

definition is_blr :: "u32 \<Rightarrow> bool" where
  [insn_defs]: "is_blr = insn_is 0xFFFFFC1F 0xD63F0000"

definition is_blr_auth :: "u32 \<Rightarrow> bool" where
  [insn_defs]: "is_blr_auth = insn_is 0xFEFFF800 0xD63F0800"

definition is_ret :: "u32 \<Rightarrow> bool" where
  [insn_defs]: "is_ret = insn_is 0xFFFFFC1F 0xD65F0000"

definition is_retaa :: "u32 \<Rightarrow> bool" where
  [insn_defs]: "is_retaa = insn_is 0xFFFFFFFF 0xD65F0BFF"

definition is_retab :: "u32 \<Rightarrow> bool" where
  [insn_defs]: "is_retab = insn_is 0xFFFFFFFF 0xD65F0FFF"

definition is_ret_auth :: "u32 \<Rightarrow> bool" where
  [insn_defs]: "is_ret_auth = insn_is 0xFFFFFBFF 0xD65F0BFF"

definition is_eret :: "u32 \<Rightarrow> bool" where
  [insn_defs]: "is_eret = insn_is 0xFFFFFFFF 0xD69F03E0"

definition is_eret_auth :: "u32 \<Rightarrow> bool" where
  [insn_defs]: "is_eret_auth = insn_is 0xFFFFFBFF 0xD69F0BFF"

definition is_mrs :: "u32 \<Rightarrow> bool" where
  [insn_defs]: "is_mrs = insn_is 0xFFF00000 0xD5300000"

definition is_msr_imm :: "u32 \<Rightarrow> bool" where
  [insn_defs]: "is_msr_imm = insn_is 0xFFF8F01F 0xD500401F"

definition is_msr_reg :: "u32 \<Rightarrow> bool" where
  [insn_defs]: "is_msr_reg = insn_is 0xFFF00000 0xD5100000"

definition is_mrs_sp_el0 :: "u32 \<Rightarrow> bool" where
  [insn_defs]: "is_mrs_sp_el0 = insn_is 0xFFFFFFE0 0xD5384100"

definition is_dmb :: "u32 \<Rightarrow> bool" where
  [insn_defs]: "is_dmb = insn_is 0xFFFFF0FF 0xD50330BF"

definition is_dsb_base :: "u32 \<Rightarrow> bool" where
  [insn_defs]: "is_dsb_base = insn_is 0xFFFFF0FF 0xD503309F"

definition is_dsb_nxs :: "u32 \<Rightarrow> bool" where
  [insn_defs]: "is_dsb_nxs = insn_is 0xFFFFF3FF 0xD503323F"

definition is_isb :: "u32 \<Rightarrow> bool" where
  [insn_defs]: "is_isb = insn_is 0xFFFFF0FF 0xD50330DF"

definition is_sb :: "u32 \<Rightarrow> bool" where
  [insn_defs]: "is_sb = insn_is 0xFFFFFFFF 0xD50330FF"

definition is_clrex :: "u32 \<Rightarrow> bool" where
  [insn_defs]: "is_clrex = insn_is 0xFFFFF0FF 0xD503305F"

definition is_ssbb :: "u32 \<Rightarrow> bool" where
  [insn_defs]: "is_ssbb = insn_is 0xFFFFFFFF 0xD503309F"

definition is_pssbb :: "u32 \<Rightarrow> bool" where
  [insn_defs]: "is_pssbb = insn_is 0xFFFFFFFF 0xD503349F"

definition is_bti :: "u32 \<Rightarrow> bool" where
  [insn_defs]: "is_bti = insn_is 0xFFFFFF3F 0xD503241F"

definition HINT_NOP :: "u32" where
  [insn_defs]: "HINT_NOP = push_bit 5 0x0"

definition HINT_XPACLRI :: "u32" where
  [insn_defs]: "HINT_XPACLRI = push_bit 5 0x07"

definition HINT_PACIA_1716 :: "u32" where
  [insn_defs]: "HINT_PACIA_1716 = push_bit 5 0x08"

definition HINT_PACIB_1716 :: "u32" where
  [insn_defs]: "HINT_PACIB_1716 = push_bit 5 0x0A"

definition HINT_PACIAZ :: "u32" where
  [insn_defs]: "HINT_PACIAZ = push_bit 5 0x18"

definition HINT_PACIASP :: "u32" where
  [insn_defs]: "HINT_PACIASP = push_bit 5 0x19"

definition HINT_PACIBZ :: "u32" where
  [insn_defs]: "HINT_PACIBZ = push_bit 5 0x1A"

definition HINT_PACIBSP :: "u32" where
  [insn_defs]: "HINT_PACIBSP = push_bit 5 0x1B"

definition HINT_BTI :: "u32" where
  [insn_defs]: "HINT_BTI = push_bit 5 0x20"

definition HINT_BTIC :: "u32" where
  [insn_defs]: "HINT_BTIC = push_bit 5 0x22"

definition HINT_BTIJ :: "u32" where
  [insn_defs]: "HINT_BTIJ = push_bit 5 0x24"

definition HINT_BTIJC :: "u32" where
  [insn_defs]: "HINT_BTIJC = push_bit 5 0x26"
section \<open>Derived classes and field extractors\<close>

definition is_steppable_hint :: "u32 \<Rightarrow> bool" where
  "is_steppable_hint insn \<longleftrightarrow>
     (if \<not> is_hint insn then False
      else insn AND 0xFE0 \<in>
        {HINT_XPACLRI, HINT_PACIA_1716, HINT_PACIB_1716, HINT_PACIAZ, HINT_PACIASP, HINT_PACIBZ,
         HINT_PACIBSP, HINT_BTI, HINT_BTIC, HINT_BTIJ, HINT_BTIJC, HINT_NOP})"

definition is_branch :: "u32 \<Rightarrow> bool" where
  "is_branch insn \<longleftrightarrow>
     is_b insn \<or> is_bl insn \<or> is_cbz insn \<or> is_cbnz insn \<or> is_tbz insn \<or> is_tbnz insn \<or>
     is_ret insn \<or> is_ret_auth insn \<or> is_br insn \<or> is_br_auth insn \<or> is_blr insn \<or>
     is_blr_auth insn \<or> is_bcond insn"

definition is_adr_adrp :: "u32 \<Rightarrow> bool" where
  "is_adr_adrp insn \<longleftrightarrow> is_adr insn \<or> is_adrp insn"

definition uses_literal :: "u32 \<Rightarrow> bool" where
  "uses_literal insn \<longleftrightarrow>
     is_ldr_lit insn \<or> is_ldrsw_lit insn \<or> is_adr_adrp insn \<or> is_prfm_lit insn"

definition extract_system_reg :: "u32 \<Rightarrow> u32" where
  "extract_system_reg insn = drop_bit 5 (insn AND 0x1FFFE0)"

definition extract_brk_imm :: "u32 \<Rightarrow> u32" where
  "extract_brk_imm insn = drop_bit 5 insn AND 0xFFFF"

definition is_brk_imm :: "u32 \<Rightarrow> u16 \<Rightarrow> bool" where
  "is_brk_imm insn imm \<longleftrightarrow> is_brk insn \<and> extract_brk_imm insn = ucast imm"

definition is_pac_or_bti :: "u32 \<Rightarrow> bool" where
  "is_pac_or_bti insn \<longleftrightarrow>
     is_paciaz insn \<or> is_paciasp insn \<or> is_pacibz insn \<or> is_pacibsp insn \<or> is_bti insn"

text \<open>
  \<open>((value << shift) as i32) >> shift\<close>: the shift left drops the high bits, the shift right is
  arithmetic. The result is an \<open>i32\<close>, here its signed reading as an \<open>int\<close>.
\<close>

definition sign_extend32 :: "u32 \<Rightarrow> nat \<Rightarrow> int" where
  "sign_extend32 value bits =
     (let shift = 32 - bits in sint (signed_drop_bit shift (push_bit shift value)))"

definition branch_b_displacement :: "u32 \<Rightarrow> int" where
  "branch_b_displacement insn = sign_extend32 (push_bit 2 (insn AND 0x03FFFFFF)) 28"

definition branch_cond_displacement :: "u32 \<Rightarrow> int" where
  "branch_cond_displacement insn =
     sign_extend32 (push_bit 2 (drop_bit 5 insn AND 0x7FFFF)) 21"

definition branch_tbz_displacement :: "u32 \<Rightarrow> int" where
  "branch_tbz_displacement insn =
     sign_extend32 (push_bit 2 (drop_bit 5 insn AND 0x3FFF)) 16"

section \<open>Sign extension\<close>

text \<open>The two shifts keep the low \<open>bits\<close> bits and replicate the highest of them.\<close>

lemma sign_extend32_eq:
  assumes "k < 32"
  shows "sign_extend32 value (Suc k) = signed_take_bit k (uint value)"
proof (rule bit_eqI)
  fix n :: nat
  consider "n < k" | "n = k" "k < 31" | "n = k" "k = 31" | "k < n" "k < 31" | "k < n" "k = 31"
    using assms by linarith
  then show "bit (sign_extend32 value (Suc k)) n = bit (signed_take_bit k (uint value)) n"
    using assms
    by cases (auto simp: sign_extend32_def Let_def bit_simps bit_sint_iff bit_signed_drop_bit_iff
        min_def not_less bit_uint_iff not_le)
qed

lemma signed_take_bit_bounds:
  "- (2 ^ k) \<le> signed_take_bit k (i :: int)" "signed_take_bit k (i :: int) < 2 ^ k"
  by (simp_all add: signed_take_bit_int_greater_eq_minus_exp signed_take_bit_int_less_exp)

lemma sign_extend32_bounds:
  assumes "k < 32"
  shows "- (2 ^ k) \<le> sign_extend32 value (Suc k)" and "sign_extend32 value (Suc k) < 2 ^ k"
  using assms by (simp_all add: sign_extend32_eq signed_take_bit_bounds)

text \<open>
  A displacement field: \<open>imm\<close> in the low \<open>w\<close> bits of the (shifted) instruction word stands for
  \<open>4 * imm\<close> bytes, read as a signed number of \<open>w + 2\<close> bits.
\<close>

lemma push_bit2_uint:
  assumes "w \<le> 30"
  shows "uint (push_bit 2 (x AND mask w :: u32)) = push_bit 2 (take_bit w (uint x))"
proof (rule bit_eqI)
  fix n :: nat
  show "bit (uint (push_bit 2 (x AND mask w :: u32))) n = bit (push_bit 2 (take_bit w (uint x))) n"
    using assms by (auto simp: bit_simps bit_uint_iff)
qed

lemma displacement_eq:
  assumes "0 < w" and "w \<le> 30"
  shows "sign_extend32 (push_bit 2 (x AND mask w)) (Suc (w + 1)) =
    4 * signed_take_bit (w - 1) (uint x)"
proof -
  have "signed_take_bit (w + 1) (push_bit 2 (take_bit w (uint x))) =
      push_bit 2 (signed_take_bit (w - 1) (uint x))"
  proof (rule bit_eqI)
    fix n :: nat
    show "bit (signed_take_bit (w + 1) (push_bit 2 (take_bit w (uint x)))) n =
        bit (push_bit 2 (signed_take_bit (w - 1) (uint x))) n"
      using assms by (auto simp: bit_simps min_def)
  qed
  moreover have "sign_extend32 (push_bit 2 (x AND mask w)) (Suc (w + 1)) =
      signed_take_bit (w + 1) (push_bit 2 (take_bit w (uint x)))"
    using assms by (simp only: sign_extend32_eq push_bit2_uint)
  ultimately show ?thesis by (simp add: push_bit_eq_mult)
qed

lemma mask_numerals:
  "(0x03FFFFFF :: u32) = mask 26" "(0x7FFFF :: u32) = mask 19" "(0x3FFF :: u32) = mask 14"
  by (simp_all add: mask_eq_exp_minus_1)

lemma branch_b_displacement_eq:
  "branch_b_displacement insn = 4 * signed_take_bit 25 (uint insn)"
  using displacement_eq [of 26 insn] by (simp add: branch_b_displacement_def mask_numerals)

lemma branch_cond_displacement_eq:
  "branch_cond_displacement insn = 4 * signed_take_bit 18 (uint (drop_bit 5 insn))"
  using displacement_eq [of 19 "drop_bit 5 insn"]
  by (simp add: branch_cond_displacement_def mask_numerals)

lemma branch_tbz_displacement_eq:
  "branch_tbz_displacement insn = 4 * signed_take_bit 13 (uint (drop_bit 5 insn))"
  using displacement_eq [of 14 "drop_bit 5 insn"]
  by (simp add: branch_tbz_displacement_def mask_numerals)

section \<open>Deciding a class by its fields\<close>

text \<open>
  An instruction built as \<open>base OR fields\<close> with the fields outside the mask of a class belongs to
  that class exactly when its base does.
\<close>

lemma insn_is_fields:
  assumes "fields AND msk = 0"
  shows "insn_is msk val (base OR fields) \<longleftrightarrow> base AND msk = val"
  using assms by (simp add: insn_is_def bit.conj_disj_distrib2)

lemma insn_is_disjoint:
  assumes "insn_is m1 v1 i" and "insn_is m2 v2 i"
  shows "v1 AND m2 = v2 AND m1"
  using assms by (auto simp: insn_is_def ac_simps)

end
