(* ===== verification/Asm.thy ===== *)
theory Asm
  imports Insn "HOL-Library.Signed_Division"
begin

text \<open>
  The AArch64 encoder of \<open>skroot/asm.rs\<close>: the builder \<open>Asm\<close> as a record (code bytes, label table,
  pending label branches, first recorded error), one definition per emitter, and \<open>to_bytes\<close>, which
  resolves the label branches. Panics of the source (an unknown or unbound label, a branch word
  outside the buffer) are values. An \<open>i32\<close> argument is an \<open>int\<close>; where the source casts it to
  \<open>u32\<close> the model takes \<open>word_of_int\<close>.
\<close>

unbundle bit_operations_syntax

named_theorems asm_defs \<open>the one-word emitters\<close>

section \<open>State\<close>

definition ZR :: u32 where "ZR = 31"
definition SP :: u32 where "SP = 31"

datatype cond = CEq | CNe | CCs | CCc | CMi | CPl | CVs | CVc | CHi | CLs | CGe | CLt | CGt | CLe | CAl

fun cond_code :: "cond \<Rightarrow> u32" where
  "cond_code CEq = 0x0" | "cond_code CNe = 0x1" | "cond_code CCs = 0x2" | "cond_code CCc = 0x3"
| "cond_code CMi = 0x4" | "cond_code CPl = 0x5" | "cond_code CVs = 0x6" | "cond_code CVc = 0x7"
| "cond_code CHi = 0x8" | "cond_code CLs = 0x9" | "cond_code CGe = 0xA" | "cond_code CLt = 0xB"
| "cond_code CGt = 0xC" | "cond_code CLe = 0xD" | "cond_code CAl = 0xE"

datatype fix_kind =
    FixB
  | FixBl
  | FixBcond cond
  | FixCb (cb_is_x: bool) (cb_set: bool) (cb_rt: u32)

record fixup =
  fx_pos :: nat
  fx_label :: nat
  fx_kind :: fix_kind

datatype asm_error =
    BranchOutOfRange
  | CondBranchOutOfRange
  | BranchMisaligned
  | AdrOutOfRange
  | AdrpOutOfRange

text \<open>How \<open>to_bytes\<close> can fail: with a recorded error, or by a panic.\<close>

datatype asm_fault = AsmErr asm_error | AsmPanic

record asm =
  asm_buf :: "byte list"
  asm_labels :: "nat option list"
  asm_fixups :: "fixup list"
  asm_err :: "asm_error option"

section \<open>The builder\<close>

definition asm_new :: asm where
  "asm_new = \<lparr>asm_buf = [], asm_labels = [], asm_fixups = [], asm_err = None\<rparr>"

definition asm_offset :: "asm \<Rightarrow> nat" where
  "asm_offset a = length (asm_buf a)"

definition asm_word :: "asm \<Rightarrow> u32 \<Rightarrow> asm" where
  "asm_word a w = a\<lparr>asm_buf := asm_buf a @ u32_le w\<rparr>"

definition asm_embed :: "asm \<Rightarrow> byte list \<Rightarrow> asm" where
  "asm_embed a bs = a\<lparr>asm_buf := asm_buf a @ bs\<rparr>"

definition new_label :: "asm \<Rightarrow> nat \<times> asm" where
  "new_label a = (length (asm_labels a), a\<lparr>asm_labels := asm_labels a @ [None]\<rparr>)"

text \<open>\<open>None\<close>: the index panic of a label that is not of this builder.\<close>

definition asm_bind :: "asm \<Rightarrow> nat \<Rightarrow> asm option" where
  "asm_bind a l =
     (if l < length (asm_labels a)
      then Some (a\<lparr>asm_labels := (asm_labels a)[l := Some (length (asm_buf a))]\<rparr>)
      else None)"

definition asm_error :: "asm \<Rightarrow> asm_error option" where
  "asm_error a = asm_err a"

definition set_err :: "asm \<Rightarrow> asm_error \<Rightarrow> asm" where
  "set_err a e = (if asm_err a = None then a\<lparr>asm_err := Some e\<rparr> else a)"

section \<open>Immediate fields\<close>

definition encode_branch26_rel :: "int \<Rightarrow> asm_error + u32" where
  "encode_branch26_rel rel =
     (if rel mod 4 \<noteq> 0 then Inl BranchMisaligned
      else let imm = rel div 4 in
        if \<not> (- (2 ^ 25) \<le> imm \<and> imm < 2 ^ 25) then Inl BranchOutOfRange
        else Inr (word_of_int imm AND 0x03FFFFFF))"

definition encode_branch26 :: "int \<Rightarrow> asm_error + u32" where
  "encode_branch26 byte_off = encode_branch26_rel byte_off"

definition encode_branch19_rel :: "int \<Rightarrow> asm_error + u32" where
  "encode_branch19_rel rel =
     (if rel mod 4 \<noteq> 0 then Inl BranchMisaligned
      else let imm = rel div 4 in
        if \<not> (- (2 ^ 18) \<le> imm \<and> imm < 2 ^ 18) then Inl CondBranchOutOfRange
        else Inr (push_bit 5 (word_of_int imm AND 0x7FFFF)))"

definition u32_imm9 :: "int \<Rightarrow> u32" where
  "u32_imm9 imm = word_of_int imm AND 0x1FF"

text \<open>The division of \<open>i32\<close> values truncates.\<close>

definition u32_imm7_scaled8 :: "int \<Rightarrow> u32" where
  "u32_imm7_scaled8 imm = word_of_int (imm sdiv 8) AND 0x7F"

section \<open>One-word emitters\<close>

definition movz_x :: "asm \<Rightarrow> u32 \<Rightarrow> u16 \<Rightarrow> u32 \<Rightarrow> asm" where
  [asm_defs]: "movz_x a rd imm16 sh =
     asm_word a (0xD2800000 OR push_bit 21 (sh div 16) OR push_bit 5 (ucast imm16) OR rd)"

definition movk_x :: "asm \<Rightarrow> u32 \<Rightarrow> u16 \<Rightarrow> u32 \<Rightarrow> asm" where
  [asm_defs]: "movk_x a rd imm16 sh =
     asm_word a (0xF2800000 OR push_bit 21 (sh div 16) OR push_bit 5 (ucast imm16) OR rd)"

definition movn_x :: "asm \<Rightarrow> u32 \<Rightarrow> u16 \<Rightarrow> u32 \<Rightarrow> asm" where
  [asm_defs]: "movn_x a rd imm16 sh =
     asm_word a (0x92800000 OR push_bit 21 (sh div 16) OR push_bit 5 (ucast imm16) OR rd)"

definition movz_w :: "asm \<Rightarrow> u32 \<Rightarrow> u16 \<Rightarrow> u32 \<Rightarrow> asm" where
  [asm_defs]: "movz_w a rd imm16 sh =
     asm_word a (0x52800000 OR push_bit 21 (sh div 16) OR push_bit 5 (ucast imm16) OR rd)"

definition movk_w :: "asm \<Rightarrow> u32 \<Rightarrow> u16 \<Rightarrow> u32 \<Rightarrow> asm" where
  [asm_defs]: "movk_w a rd imm16 sh =
     asm_word a (0x72800000 OR push_bit 21 (sh div 16) OR push_bit 5 (ucast imm16) OR rd)"

definition movn_w :: "asm \<Rightarrow> u32 \<Rightarrow> u16 \<Rightarrow> u32 \<Rightarrow> asm" where
  [asm_defs]: "movn_w a rd imm16 sh =
     asm_word a (0x12800000 OR push_bit 21 (sh div 16) OR push_bit 5 (ucast imm16) OR rd)"

definition mov_reg_x :: "asm \<Rightarrow> u32 \<Rightarrow> u32 \<Rightarrow> asm" where
  [asm_defs]: "mov_reg_x a rd rm =
     asm_word a (0xAA0003E0 OR push_bit 16 rm OR rd)"

definition mov_reg_w :: "asm \<Rightarrow> u32 \<Rightarrow> u32 \<Rightarrow> asm" where
  [asm_defs]: "mov_reg_w a rd rm =
     asm_word a (0x2A0003E0 OR push_bit 16 rm OR rd)"

definition mov_x_sp :: "asm \<Rightarrow> u32 \<Rightarrow> asm" where
  [asm_defs]: "mov_x_sp a rd =
     asm_word a (0x91000000 OR push_bit 5 SP OR rd)"

definition mrs_sp_el0 :: "asm \<Rightarrow> u32 \<Rightarrow> asm" where
  [asm_defs]: "mrs_sp_el0 a rt =
     asm_word a (0xD5384100 OR rt)"

definition add_imm_x :: "asm \<Rightarrow> u32 \<Rightarrow> u32 \<Rightarrow> u32 \<Rightarrow> asm" where
  [asm_defs]: "add_imm_x a rd rn imm12 =
     asm_word a (0x91000000 OR push_bit 10 (imm12 AND 0xFFF) OR push_bit 5 rn OR rd)"

definition sub_imm_x :: "asm \<Rightarrow> u32 \<Rightarrow> u32 \<Rightarrow> u32 \<Rightarrow> asm" where
  [asm_defs]: "sub_imm_x a rd rn imm12 =
     asm_word a (0xD1000000 OR push_bit 10 (imm12 AND 0xFFF) OR push_bit 5 rn OR rd)"

definition subs_imm_x :: "asm \<Rightarrow> u32 \<Rightarrow> u32 \<Rightarrow> u32 \<Rightarrow> asm" where
  [asm_defs]: "subs_imm_x a rd rn imm12 =
     asm_word a (0xF1000000 OR push_bit 10 (imm12 AND 0xFFF) OR push_bit 5 rn OR rd)"

definition add_reg_x :: "asm \<Rightarrow> u32 \<Rightarrow> u32 \<Rightarrow> u32 \<Rightarrow> asm" where
  [asm_defs]: "add_reg_x a rd rn rm =
     asm_word a (0x8B000000 OR push_bit 16 rm OR push_bit 5 rn OR rd)"

definition bic_reg_x :: "asm \<Rightarrow> u32 \<Rightarrow> u32 \<Rightarrow> u32 \<Rightarrow> asm" where
  [asm_defs]: "bic_reg_x a rd rn rm =
     asm_word a (0x8A200000 OR push_bit 16 rm OR push_bit 5 rn OR rd)"

definition cmp_reg_x :: "asm \<Rightarrow> u32 \<Rightarrow> u32 \<Rightarrow> asm" where
  [asm_defs]: "cmp_reg_x a rn rm =
     asm_word a (0xEB000000 OR push_bit 16 rm OR push_bit 5 rn OR ZR)"

definition cmp_reg_w :: "asm \<Rightarrow> u32 \<Rightarrow> u32 \<Rightarrow> asm" where
  [asm_defs]: "cmp_reg_w a rn rm =
     asm_word a (0x6B000000 OR push_bit 16 rm OR push_bit 5 rn OR ZR)"

definition cmp_imm_x :: "asm \<Rightarrow> u32 \<Rightarrow> u32 \<Rightarrow> asm" where
  [asm_defs]: "cmp_imm_x a rn imm12 =
     asm_word a (0xF1000000 OR push_bit 10 (imm12 AND 0xFFF) OR push_bit 5 rn OR ZR)"

definition cmp_imm_w :: "asm \<Rightarrow> u32 \<Rightarrow> u32 \<Rightarrow> asm" where
  [asm_defs]: "cmp_imm_w a rn imm12 =
     asm_word a (0x71000000 OR push_bit 10 (imm12 AND 0xFFF) OR push_bit 5 rn OR ZR)"

definition ldr_x_uoff :: "asm \<Rightarrow> u32 \<Rightarrow> u32 \<Rightarrow> u32 \<Rightarrow> asm" where
  [asm_defs]: "ldr_x_uoff a rt rn imm =
     asm_word a (0xF9400000 OR push_bit 10 ((imm div 8) AND 0xFFF) OR push_bit 5 rn OR rt)"

definition ldr_w_uoff :: "asm \<Rightarrow> u32 \<Rightarrow> u32 \<Rightarrow> u32 \<Rightarrow> asm" where
  [asm_defs]: "ldr_w_uoff a rt rn imm =
     asm_word a (0xB9400000 OR push_bit 10 ((imm div 4) AND 0xFFF) OR push_bit 5 rn OR rt)"

definition str_x_uoff :: "asm \<Rightarrow> u32 \<Rightarrow> u32 \<Rightarrow> u32 \<Rightarrow> asm" where
  [asm_defs]: "str_x_uoff a rt rn imm =
     asm_word a (0xF9000000 OR push_bit 10 ((imm div 8) AND 0xFFF) OR push_bit 5 rn OR rt)"

definition str_w_uoff :: "asm \<Rightarrow> u32 \<Rightarrow> u32 \<Rightarrow> u32 \<Rightarrow> asm" where
  [asm_defs]: "str_w_uoff a rt rn imm =
     asm_word a (0xB9000000 OR push_bit 10 ((imm div 4) AND 0xFFF) OR push_bit 5 rn OR rt)"

definition str_x_post :: "asm \<Rightarrow> u32 \<Rightarrow> u32 \<Rightarrow> int \<Rightarrow> asm" where
  [asm_defs]: "str_x_post a rt rn imm =
     asm_word a (0xF8000400 OR push_bit 12 (u32_imm9 imm) OR push_bit 5 rn OR rt)"

definition ldr_x_post :: "asm \<Rightarrow> u32 \<Rightarrow> u32 \<Rightarrow> int \<Rightarrow> asm" where
  [asm_defs]: "ldr_x_post a rt rn imm =
     asm_word a (0xF8400400 OR push_bit 12 (u32_imm9 imm) OR push_bit 5 rn OR rt)"

definition str_w_post :: "asm \<Rightarrow> u32 \<Rightarrow> u32 \<Rightarrow> int \<Rightarrow> asm" where
  [asm_defs]: "str_w_post a rt rn imm =
     asm_word a (0xB8000400 OR push_bit 12 (u32_imm9 imm) OR push_bit 5 rn OR rt)"

definition ldr_w_post :: "asm \<Rightarrow> u32 \<Rightarrow> u32 \<Rightarrow> int \<Rightarrow> asm" where
  [asm_defs]: "ldr_w_post a rt rn imm =
     asm_word a (0xB8400400 OR push_bit 12 (u32_imm9 imm) OR push_bit 5 rn OR rt)"

definition ldrb_w_post :: "asm \<Rightarrow> u32 \<Rightarrow> u32 \<Rightarrow> int \<Rightarrow> asm" where
  [asm_defs]: "ldrb_w_post a rt rn imm =
     asm_word a (0x38400400 OR push_bit 12 (u32_imm9 imm) OR push_bit 5 rn OR rt)"

definition ldrb_w_reg :: "asm \<Rightarrow> u32 \<Rightarrow> u32 \<Rightarrow> u32 \<Rightarrow> asm" where
  [asm_defs]: "ldrb_w_reg a rt rn rm =
     asm_word a (0x38606800 OR push_bit 16 rm OR push_bit 5 rn OR rt)"

definition stp_x_pre :: "asm \<Rightarrow> u32 \<Rightarrow> u32 \<Rightarrow> u32 \<Rightarrow> int \<Rightarrow> asm" where
  [asm_defs]: "stp_x_pre a rt rt2 rn imm =
     asm_word a (0xA9800000 OR push_bit 15 (u32_imm7_scaled8 imm) OR push_bit 10 rt2 OR push_bit 5 rn OR rt)"

definition stp_x_post :: "asm \<Rightarrow> u32 \<Rightarrow> u32 \<Rightarrow> u32 \<Rightarrow> int \<Rightarrow> asm" where
  [asm_defs]: "stp_x_post a rt rt2 rn imm =
     asm_word a (0xA8800000 OR push_bit 15 (u32_imm7_scaled8 imm) OR push_bit 10 rt2 OR push_bit 5 rn OR rt)"

definition ldp_x_post :: "asm \<Rightarrow> u32 \<Rightarrow> u32 \<Rightarrow> u32 \<Rightarrow> int \<Rightarrow> asm" where
  [asm_defs]: "ldp_x_post a rt rt2 rn imm =
     asm_word a (0xA8C00000 OR push_bit 15 (u32_imm7_scaled8 imm) OR push_bit 10 rt2 OR push_bit 5 rn OR rt)"

definition ldaxr_x :: "asm \<Rightarrow> u32 \<Rightarrow> u32 \<Rightarrow> asm" where
  [asm_defs]: "ldaxr_x a rt rn =
     asm_word a (0xC85FFC00 OR push_bit 5 rn OR rt)"

definition stlxr_w_x :: "asm \<Rightarrow> u32 \<Rightarrow> u32 \<Rightarrow> u32 \<Rightarrow> asm" where
  [asm_defs]: "stlxr_w_x a rs rt rn =
     asm_word a (0xC800FC00 OR push_bit 16 rs OR push_bit 5 rn OR rt)"

definition ret_x30 :: "asm \<Rightarrow> asm" where
  [asm_defs]: "ret_x30 a =
     asm_word a (0xD65F03C0)"

definition autiaz :: "asm \<Rightarrow> asm" where
  [asm_defs]: "autiaz a =
     asm_word a (0xD503239F)"

definition autiasp :: "asm \<Rightarrow> asm" where
  [asm_defs]: "autiasp a =
     asm_word a (0xD50323BF)"

definition autibz :: "asm \<Rightarrow> asm" where
  [asm_defs]: "autibz a =
     asm_word a (0xD50323DF)"

definition autibsp :: "asm \<Rightarrow> asm" where
  [asm_defs]: "autibsp a =
     asm_word a (0xD50323FF)"

section \<open>Moves of immediates\<close>

text \<open>The loop of \<open>mov_imm_x\<close> over the half words, with its flag \<open>inited\<close>.\<close>

fun mov_imm_x_loop :: "u32 \<Rightarrow> u64 \<Rightarrow> nat list \<Rightarrow> asm \<times> bool \<Rightarrow> asm \<times> bool" where
  "mov_imm_x_loop rd val [] st = st"
| "mov_imm_x_loop rd val (idx # idxs) (a, inited) =
     (let imm16 = ucast (drop_bit (idx * 16) val AND 0xFFFF) :: u16 in
      if imm16 = 0 then mov_imm_x_loop rd val idxs (a, inited)
      else if \<not> inited
        then mov_imm_x_loop rd val idxs (movz_x a rd imm16 (of_nat (idx * 16)), True)
        else mov_imm_x_loop rd val idxs (movk_x a rd imm16 (of_nat (idx * 16)), inited))"

definition mov_imm_x :: "asm \<Rightarrow> u32 \<Rightarrow> u64 \<Rightarrow> asm" where
  "mov_imm_x a rd val =
     (case mov_imm_x_loop rd val [0, 1, 2, 3] (a, False) of
        (a', inited) \<Rightarrow> if \<not> inited then movz_x a' rd 0 0 else a')"

fun mov_imm_w_loop :: "u32 \<Rightarrow> u32 \<Rightarrow> nat list \<Rightarrow> asm \<times> bool \<Rightarrow> asm \<times> bool" where
  "mov_imm_w_loop rd val [] st = st"
| "mov_imm_w_loop rd val (idx # idxs) (a, inited) =
     (let imm16 = ucast (drop_bit (idx * 16) val AND 0xFFFF) :: u16 in
      if imm16 = 0 then mov_imm_w_loop rd val idxs (a, inited)
      else if \<not> inited
        then mov_imm_w_loop rd val idxs (movz_w a rd imm16 (of_nat (idx * 16)), True)
        else mov_imm_w_loop rd val idxs (movk_w a rd imm16 (of_nat (idx * 16)), inited))"

definition mov_imm_w :: "asm \<Rightarrow> u32 \<Rightarrow> u32 \<Rightarrow> asm" where
  "mov_imm_w a rd val =
     (case mov_imm_w_loop rd val [0, 1] (a, False) of
        (a', inited) \<Rightarrow> if \<not> inited then movz_w a' rd 0 0 else a')"

definition count_zero_half_words64 :: "u64 \<Rightarrow> nat" where
  "count_zero_half_words64 imm =
     of_bool (imm AND 0x000000000000FFFF = 0) + of_bool (imm AND 0x00000000FFFF0000 = 0) +
     of_bool (imm AND 0x0000FFFF00000000 = 0) + of_bool (imm AND 0xFFFF000000000000 = 0)"

definition encode_mov_sequence32 :: "u32 \<Rightarrow> u32 \<Rightarrow> bool \<Rightarrow> u32 list" where
  "encode_mov_sequence32 imm rd x =
     (let k_movz = 0x52800000 OR push_bit 31 (of_bool x);
          k_movn = 0x12800000;
          k_movk = 0x72800000 in
      if imm AND 0xFFFF0000 = 0 then
        [k_movz OR push_bit 5 (imm AND 0xFFFF) OR rd]
      else if imm AND 0xFFFF0000 = 0xFFFF0000 then
        [k_movn OR push_bit 5 (NOT imm AND 0xFFFF) OR rd]
      else if imm AND 0x0000FFFF = 0 then
        [k_movz OR push_bit 21 1 OR push_bit 5 (drop_bit 16 imm) OR rd]
      else if imm AND 0x0000FFFF = 0x0000FFFF then
        [k_movn OR push_bit 21 1 OR push_bit 5 (drop_bit 16 (NOT imm) AND 0xFFFF) OR rd]
      else
        [k_movz OR push_bit 5 (imm AND 0xFFFF) OR rd,
         k_movk OR push_bit 21 1 OR push_bit 5 (drop_bit 16 imm) OR rd])"

text \<open>The two loops of \<open>encode_mov_sequence64\<close>: the words they push from half word \<open>hw_index\<close> on.\<close>

fun movz_sequence64 :: "nat list \<Rightarrow> u32 \<Rightarrow> u64 \<Rightarrow> u32 \<Rightarrow> u32 list" where
  "movz_sequence64 [] k imm rd = []"
| "movz_sequence64 (hw_index # hws) k imm rd =
     (let hw_imm = ucast (imm AND 0xFFFF) :: u32 in
      if hw_imm \<noteq> 0 then
        (k OR push_bit 21 (of_nat hw_index) OR push_bit 5 hw_imm OR rd)
          # movz_sequence64 hws 0xF2800000 (drop_bit 16 imm) rd
      else movz_sequence64 hws k (drop_bit 16 imm) rd)"

fun movn_sequence64 :: "nat list \<Rightarrow> u32 \<Rightarrow> u32 \<Rightarrow> u64 \<Rightarrow> u32 \<Rightarrow> u32 list" where
  "movn_sequence64 [] k neg_mask imm rd = []"
| "movn_sequence64 (hw_index # hws) k neg_mask imm rd =
     (let hw_imm = ucast (imm AND 0xFFFF) :: u32 in
      if hw_imm \<noteq> 0xFFFF then
        (k OR push_bit 21 (of_nat hw_index) OR push_bit 5 (hw_imm XOR neg_mask) OR rd)
          # movn_sequence64 hws 0xF2800000 0 (drop_bit 16 imm) rd
      else movn_sequence64 hws k neg_mask (drop_bit 16 imm) rd)"

text \<open>The mask is still \<open>0xFFFF\<close> when the second loop pushes nothing.\<close>

definition encode_mov_sequence64 :: "u64 \<Rightarrow> u32 \<Rightarrow> bool \<Rightarrow> u32 list" where
  "encode_mov_sequence64 imm rd x =
     (if imm \<le> 0xFFFFFFFF then encode_mov_sequence32 (ucast imm) rd x
      else let zhw = count_zero_half_words64 imm; ohw = count_zero_half_words64 (NOT imm) in
        if zhw \<ge> ohw then movz_sequence64 [0, 1, 2, 3] 0xD2800000 imm rd
        else let out = movn_sequence64 [0, 1, 2, 3] 0x92800000 0xFFFF imm rd in
          if out = [] then [0x92800000 OR push_bit 5 (0xFFFF XOR 0xFFFF) OR rd] else out)"

section \<open>Logical immediates\<close>

definition rotate_right_in_size :: "u64 \<Rightarrow> nat \<Rightarrow> nat \<Rightarrow> u64" where
  "rotate_right_in_size v r sz =
     (if r = 0 then v
      else (drop_bit r v OR push_bit (sz - r) v) AND
        (if sz = 64 then - 1 else push_bit sz 1 - 1))"

text \<open>The loop that halves the element sz while both halves agree.\<close>

fun element_size :: "u64 \<Rightarrow> nat \<Rightarrow> nat" where
  "element_size imm sz =
     (if sz > 2 then
        let half = sz div 2;
            msk = (if half = 64 then - 1 else push_bit half 1 - 1);
            lo = imm AND msk;
            hi = drop_bit half imm AND msk
        in if lo \<noteq> hi then sz else element_size imm half
      else sz)"

declare element_size.simps [simp del]

definition count_ones :: "u64 \<Rightarrow> nat" where
  "count_ones v = length (filter (bit v) [0..<64])"

definition encode_logical_imm64 :: "u64 \<Rightarrow> (u32 \<times> u32 \<times> u32) option" where
  "encode_logical_imm64 imm =
     (if imm = 0 \<or> imm = - 1 then None
      else
        let sz = element_size imm 64;
            msk = (if sz = 64 then - 1 else push_bit sz 1 - 1);
            elem = imm AND msk;
            ones = count_ones elem in
        if ones = 0 \<or> ones = sz then None
        else case List.find (\<lambda>r. rotate_right_in_size elem r sz = push_bit ones 1 - 1) [0..<sz] of
            None \<Rightarrow> None
          | Some rot \<Rightarrow>
              let immr = (sz - rot) mod sz;
                  imms = (NOT (of_nat (sz * 2 - 1)) AND 0x3F) OR of_nat (ones - 1);
                  n = (if sz = 64 then 1 else 0)
              in Some (n, of_nat immr, imms))"

definition and_imm_x :: "asm \<Rightarrow> u32 \<Rightarrow> u32 \<Rightarrow> u64 \<Rightarrow> bool \<times> asm" where
  "and_imm_x a rd rn imm =
     (case encode_logical_imm64 imm of
        Some (n, immr, imms) \<Rightarrow>
          (True, asm_word a (0x92000000 OR push_bit 22 n OR push_bit 16 immr OR push_bit 10 imms OR
             push_bit 5 rn OR rd))
      | None \<Rightarrow> (False, a))"

definition orr_imm_x :: "asm \<Rightarrow> u32 \<Rightarrow> u32 \<Rightarrow> u64 \<Rightarrow> bool \<times> asm" where
  "orr_imm_x a rd rn imm =
     (case encode_logical_imm64 imm of
        Some (n, immr, imms) \<Rightarrow>
          (True, asm_word a (0xB2000000 OR push_bit 22 n OR push_bit 16 immr OR push_bit 10 imms OR
             push_bit 5 rn OR rd))
      | None \<Rightarrow> (False, a))"

definition mov_imm_x_asmjit :: "asm \<Rightarrow> u32 \<Rightarrow> u64 \<Rightarrow> asm" where
  "mov_imm_x_asmjit a rd val =
     (let seq = encode_mov_sequence64 val rd True in
      if length seq = 1 \<and> rd \<noteq> SP then asm_word a (seq ! 0)
      else if rd \<noteq> ZR \<and> fst (orr_imm_x a rd ZR val) then snd (orr_imm_x a rd ZR val)
      else foldl asm_word a seq)"

section \<open>PC-relative addresses\<close>

definition adr :: "asm \<Rightarrow> u32 \<Rightarrow> int \<Rightarrow> asm" where
  "adr a rd byte_off =
     (if \<not> (- (2 ^ 20) \<le> byte_off \<and> byte_off < 2 ^ 20)
      then asm_word (set_err a AdrOutOfRange) 0
      else
        let imm = word_of_int byte_off AND 0x1FFFFF;
            immlo = imm AND 0x3;
            immhi = drop_bit 2 imm AND 0x7FFFF
        in asm_word a (0x10000000 OR push_bit 29 immlo OR push_bit 5 immhi OR rd))"

text \<open>
  The difference of the two page addresses is an \<open>i64\<close> subtraction, which wraps in the release
  build.
\<close>

definition adrp :: "asm \<Rightarrow> u32 \<Rightarrow> u64 \<Rightarrow> u64 \<Rightarrow> bool \<times> asm" where
  "adrp a rd cur_abs target_abs =
     (let page_delta = (target_abs AND NOT 0xFFF) - (cur_abs AND NOT 0xFFF);
          imm_pages = sint page_delta div 2 ^ 12
      in if \<not> (- (2 ^ 20) \<le> imm_pages \<and> imm_pages < 2 ^ 20)
         then (False, asm_word (set_err a AdrpOutOfRange) 0)
         else
           let imm21 = ucast ((word_of_int imm_pages :: u64) AND 0x1FFFFF) :: u32;
               immlo = imm21 AND 0x3;
               immhi = drop_bit 2 imm21 AND 0x7FFFF
           in (True, asm_word a (0x90000000 OR push_bit 29 immlo OR push_bit 5 immhi OR rd)))"

section \<open>Branches\<close>

definition b_off :: "asm \<Rightarrow> int \<Rightarrow> asm" where
  "b_off a byte_off =
     (case encode_branch26 byte_off of
        Inr imm \<Rightarrow> asm_word a (0x14000000 OR imm)
      | Inl e \<Rightarrow> asm_word (set_err a e) 0)"

definition bl_off :: "asm \<Rightarrow> int \<Rightarrow> asm" where
  "bl_off a byte_off =
     (case encode_branch26 byte_off of
        Inr imm \<Rightarrow> asm_word a (0x94000000 OR imm)
      | Inl e \<Rightarrow> asm_word (set_err a e) 0)"

definition push_fixup :: "asm \<Rightarrow> nat \<Rightarrow> fix_kind \<Rightarrow> asm" where
  "push_fixup a l k =
     asm_word (a\<lparr>asm_fixups := asm_fixups a @
       [\<lparr>fx_pos = length (asm_buf a), fx_label = l, fx_kind = k\<rparr>]\<rparr>) 0"

definition b_label :: "asm \<Rightarrow> nat \<Rightarrow> asm" where
  "b_label a l = push_fixup a l FixB"

definition bl_label :: "asm \<Rightarrow> nat \<Rightarrow> asm" where
  "bl_label a l = push_fixup a l FixBl"

definition b_cond :: "asm \<Rightarrow> cond \<Rightarrow> nat \<Rightarrow> asm" where
  "b_cond a c l = push_fixup a l (FixBcond c)"

definition cbz_w :: "asm \<Rightarrow> u32 \<Rightarrow> nat \<Rightarrow> asm" where
  "cbz_w a rt l = push_fixup a l (FixCb False False rt)"

definition cbnz_w :: "asm \<Rightarrow> u32 \<Rightarrow> nat \<Rightarrow> asm" where
  "cbnz_w a rt l = push_fixup a l (FixCb False True rt)"

definition cbz_x :: "asm \<Rightarrow> u32 \<Rightarrow> nat \<Rightarrow> asm" where
  "cbz_x a rt l = push_fixup a l (FixCb True False rt)"

definition cbnz_x :: "asm \<Rightarrow> u32 \<Rightarrow> nat \<Rightarrow> asm" where
  "cbnz_x a rt l = push_fixup a l (FixCb True True rt)"

section \<open>Finalisation\<close>

fun cb_base :: "bool \<Rightarrow> bool \<Rightarrow> u32" where
  "cb_base False False = 0x34000000"
| "cb_base False True = 0x35000000"
| "cb_base True False = 0xB4000000"
| "cb_base True True = 0xB5000000"

fun fixup_word :: "fix_kind \<Rightarrow> int \<Rightarrow> asm_error + u32" where
  "fixup_word FixB rel = bind_r (encode_branch26_rel rel) (\<lambda>i. Inr (0x14000000 OR i))"
| "fixup_word FixBl rel = bind_r (encode_branch26_rel rel) (\<lambda>i. Inr (0x94000000 OR i))"
| "fixup_word (FixBcond c) rel =
     bind_r (encode_branch19_rel rel) (\<lambda>i. Inr (0x54000000 OR i OR cond_code c))"
| "fixup_word (FixCb is_x st rt) rel =
     bind_r (encode_branch19_rel rel) (\<lambda>i. Inr (cb_base is_x st OR i OR rt))"

text \<open>One round of the loop over the pending branches.\<close>

definition resolve_fixup :: "nat option list \<Rightarrow> fixup \<Rightarrow> byte list \<Rightarrow> asm_fault + byte list" where
  "resolve_fixup labels fx bs =
     (if fx_label fx < length labels
      then case labels ! fx_label fx of
          None \<Rightarrow> Inl AsmPanic
        | Some target \<Rightarrow>
            (case fixup_word (fx_kind fx) (int target - int (fx_pos fx)) of
               Inl e \<Rightarrow> Inl (AsmErr e)
             | Inr w \<Rightarrow>
                 if fx_pos fx + 4 \<le> length bs then Inr (write_at bs (fx_pos fx) (u32_le w))
                 else Inl AsmPanic)
      else Inl AsmPanic)"

fun resolve_fixups :: "nat option list \<Rightarrow> fixup list \<Rightarrow> byte list \<Rightarrow> asm_fault + byte list" where
  "resolve_fixups labels [] bs = Inr bs"
| "resolve_fixups labels (fx # fxs) bs =
     bind_r (resolve_fixup labels fx bs) (resolve_fixups labels fxs)"

definition to_bytes :: "asm \<Rightarrow> asm_fault + byte list" where
  "to_bytes a =
     (case asm_err a of
        Some e \<Rightarrow> Inl (AsmErr e)
      | None \<Rightarrow> resolve_fixups (asm_labels a) (asm_fixups a) (asm_buf a))"

end
