(* ===== verification/Asm_Branch.thy ===== *)
theory Asm_Branch
  imports Asm
begin

text \<open>
  The branches of the encoder: the immediate fields of \<open>encode_branch26_rel\<close> and
  \<open>encode_branch19_rel\<close> against the displacement decoders of \<open>insn.rs\<close>, the invariant of the
  builder (every pending branch owns four bytes of the buffer), its preservation by the emitters,
  and the correctness of \<open>to_bytes\<close>.
\<close>

unbundle bit_operations_syntax

section \<open>Immediate fields\<close>

lemma int_mod_div_4: "rel mod 4 = 0 \<Longrightarrow> 4 * (rel div 4) = (rel :: int)"
  by auto

lemma signed_take_bit_field:
  assumes "take_bit (Suc k) (uint w) = take_bit (Suc k) imm" and "- (2 ^ k) \<le> imm" and "imm < 2 ^ k"
  shows "signed_take_bit k (uint (w :: u32)) = (imm :: int)"
proof -
  have "signed_take_bit k (uint w) = signed_take_bit k (take_bit (Suc k) (uint w))"
    by (simp add: signed_take_bit_take_bit)
  also have "\<dots> = signed_take_bit k imm"
    by (simp add: assms(1) signed_take_bit_take_bit)
  also have "\<dots> = imm"
    using assms by (simp add: signed_take_bit_int_eq_self)
  finally show ?thesis .
qed

lemma encode_branch26_rel_Inr:
  assumes "encode_branch26_rel rel = Inr i"
  shows "i = word_of_int (rel div 4) AND mask 26" and "4 * (rel div 4) = rel"
    and "- (2 ^ 25) \<le> rel div 4" and "rel div 4 < 2 ^ 25"
  using assms by (auto simp: encode_branch26_rel_def Let_def mask_numerals split: if_splits)

lemma encode_branch19_rel_Inr:
  assumes "encode_branch19_rel rel = Inr i"
  shows "i = push_bit 5 (word_of_int (rel div 4) AND mask 19)" and "4 * (rel div 4) = rel"
    and "- (2 ^ 18) \<le> rel div 4" and "rel div 4 < 2 ^ 18"
  using assms by (auto simp: encode_branch19_rel_def Let_def mask_numerals split: if_splits)

lemma encode_branch26_rel_total:
  "encode_branch26_rel rel =
    (if \<not> 4 dvd rel then Inl BranchMisaligned
     else if rel < - (2 ^ 27) \<or> 2 ^ 27 \<le> rel then Inl BranchOutOfRange
     else Inr (word_of_int (rel div 4) AND mask 26))"
  by (auto simp: encode_branch26_rel_def Let_def mask_numerals dvd_eq_mod_eq_0)

lemma encode_branch19_rel_total:
  "encode_branch19_rel rel =
    (if \<not> 4 dvd rel then Inl BranchMisaligned
     else if rel < - (2 ^ 20) \<or> 2 ^ 20 \<le> rel then Inl CondBranchOutOfRange
     else Inr (push_bit 5 (word_of_int (rel div 4) AND mask 19)))"
  by (auto simp: encode_branch19_rel_def Let_def mask_numerals dvd_eq_mod_eq_0)

lemma branch26_displacement:
  assumes enc: "encode_branch26_rel rel = Inr i" and base: "base AND mask 26 = 0"
  shows "branch_b_displacement (base OR i) = rel"
proof -
  have "take_bit 26 (uint (base OR i)) = take_bit 26 (rel div 4)"
  proof (rule bit_eqI)
    fix n :: nat
    have "\<not> bit (base AND mask 26) n" using base by simp
    then show "bit (take_bit 26 (uint (base OR i))) n = bit (take_bit 26 (rel div 4)) n"
      using encode_branch26_rel_Inr(1) [OF enc] by (auto simp: bit_simps bit_uint_iff)
  qed
  then have "signed_take_bit 25 (uint (base OR i)) = rel div 4"
    using encode_branch26_rel_Inr(3,4) [OF enc] by (intro signed_take_bit_field) simp_all
  then show ?thesis
    using encode_branch26_rel_Inr(2) [OF enc] by (simp add: branch_b_displacement_eq)
qed

lemma branch19_displacement:
  assumes enc: "encode_branch19_rel rel = Inr i"
    and base: "base AND push_bit 5 (mask 19) = 0" and low: "low AND push_bit 5 (mask 19) = 0"
  shows "branch_cond_displacement (base OR i OR low) = rel"
proof -
  have "take_bit 19 (uint (drop_bit 5 (base OR i OR low))) = take_bit 19 (rel div 4)"
  proof (rule bit_eqI)
    fix n :: nat
    have "\<not> bit (base AND push_bit 5 (mask 19)) (n + 5)"
      and "\<not> bit (low AND push_bit 5 (mask 19)) (n + 5)" using base low by simp_all
    then show "bit (take_bit 19 (uint (drop_bit 5 (base OR i OR low)))) n =
        bit (take_bit 19 (rel div 4)) n"
      using encode_branch19_rel_Inr(1) [OF enc]
      by (auto simp: bit_simps bit_uint_iff add.commute)
  qed
  then have "signed_take_bit 18 (uint (drop_bit 5 (base OR i OR low))) = rel div 4"
    using encode_branch19_rel_Inr(3,4) [OF enc] by (intro signed_take_bit_field) simp_all
  then show ?thesis
    using encode_branch19_rel_Inr(2) [OF enc] by (simp add: branch_cond_displacement_eq)
qed

lemma branch26_disjoint:
  assumes "encode_branch26_rel rel = Inr i"
  shows "i AND 0xFC000000 = 0"
proof -
  have "mask 26 AND (0xFC000000 :: u32) = 0" by (simp add: mask_eq_exp_minus_1)
  with encode_branch26_rel_Inr(1) [OF assms] show ?thesis
    by (simp add: and.assoc)
qed

lemma branch19_disjoint:
  assumes "encode_branch19_rel rel = Inr i" and "msk AND push_bit 5 (mask 19) = 0"
  shows "i AND msk = 0"
proof -
  have "i = push_bit 5 (word_of_int (rel div 4)) AND push_bit 5 (mask 19)"
    by (simp only: encode_branch19_rel_Inr(1) [OF assms(1)] push_bit_and)
  then have "i AND msk = push_bit 5 (word_of_int (rel div 4)) AND (msk AND push_bit 5 (mask 19))"
    by (simp only: ac_simps)
  then show ?thesis by (simp only: assms(2) and_zero_eq)
qed

section \<open>What a resolved branch word must say\<close>

text \<open>The branch of a fixup, decoded with the predicates and displacements of \<open>insn.rs\<close>.\<close>

fun branch_goes_to :: "fix_kind \<Rightarrow> u32 \<Rightarrow> int \<Rightarrow> bool" where
  "branch_goes_to FixB w rel \<longleftrightarrow> is_b w \<and> branch_b_displacement w = rel"
| "branch_goes_to FixBl w rel \<longleftrightarrow> is_bl w \<and> branch_b_displacement w = rel"
| "branch_goes_to (FixBcond c) w rel \<longleftrightarrow>
     is_bcond w \<and> branch_cond_displacement w = rel \<and> w AND 0xF = cond_code c"
| "branch_goes_to (FixCb is_x st rt) w rel \<longleftrightarrow>
     (if st then is_cbnz w else is_cbz w) \<and> branch_cond_displacement w = rel \<and>
     (bit w 31 \<longleftrightarrow> is_x) \<and> w AND 0x1F = rt"

text \<open>The register of a \<open>cbz\<close> or \<open>cbnz\<close> is a register number.\<close>

fun fix_kind_ok :: "fix_kind \<Rightarrow> bool" where
  "fix_kind_ok (FixCb is_x st rt) \<longleftrightarrow> rt \<le> 31"
| "fix_kind_ok _ \<longleftrightarrow> True"

lemma le31_and: "rt \<le> (31 :: u32) \<Longrightarrow> rt AND 31 = rt"
proof -
  assume "rt \<le> (31 :: u32)"
  then have "rt < 2 ^ 5" by (simp add: word_le_nat_alt word_less_nat_alt)
  then have "rt AND mask 5 = rt" by (rule less_mask_eq)
  then show ?thesis by (simp add: mask_eq_exp_minus_1)
qed

lemma register_high_bits:
  assumes "rt \<le> (31 :: u32)" and "31 AND msk = 0"
  shows "rt AND msk = 0"
proof -
  have "rt AND msk = (rt AND 31) AND msk" by (simp only: le31_and [OF assms(1)])
  also have "\<dots> = 0" by (simp only: and.assoc assms(2) and_zero_eq)
  finally show ?thesis .
qed

lemma mask19_field: "(push_bit 5 (mask 19) :: u32) = 0xFFFFE0"
  by (simp add: mask_eq_exp_minus_1)

text \<open>The word the code writes for a pending branch is that branch, to that distance.\<close>

lemma fixup_word_correct:
  assumes ok: "fix_kind_ok k" and w: "fixup_word k rel = Inr w"
  shows "branch_goes_to k w rel"
proof (cases k)
  case FixB
  with w obtain i where i: "encode_branch26_rel rel = Inr i" and w': "w = 0x14000000 OR i"
    by (auto elim: bind_r_InrE)
  have "is_b w" by (simp add: w' is_b_def insn_is_fields branch26_disjoint [OF i])
  moreover have "branch_b_displacement w = rel"
    unfolding w' by (rule branch26_displacement [OF i]) (simp add: mask_eq_exp_minus_1)
  ultimately show ?thesis by (simp add: FixB)
next
  case FixBl
  with w obtain i where i: "encode_branch26_rel rel = Inr i" and w': "w = 0x94000000 OR i"
    by (auto elim: bind_r_InrE)
  have "is_bl w" by (simp add: w' is_bl_def insn_is_fields branch26_disjoint [OF i])
  moreover have "branch_b_displacement w = rel"
    unfolding w' by (rule branch26_displacement [OF i]) (simp add: mask_eq_exp_minus_1)
  ultimately show ?thesis by (simp add: FixBl)
next
  case (FixBcond c)
  with w obtain i where i: "encode_branch19_rel rel = Inr i"
    and w': "w = 0x54000000 OR i OR cond_code c"
    by (auto elim: bind_r_InrE)
  have c: "cond_code c AND 0xFF000010 = 0" "cond_code c AND 0xF = cond_code c"
    "cond_code c AND 0xFFFFE0 = 0"
    by (cases c; simp)+
  have i0: "i AND 0xFF000010 = 0" "i AND 0xF = 0"
    by (rule branch19_disjoint [OF i], simp add: mask19_field)+
  have "is_bcond w"
    by (simp add: w' is_bcond_def insn_is_fields bit.conj_disj_distrib2 c i0)
  moreover have "branch_cond_displacement w = rel"
    unfolding w' by (rule branch19_displacement [OF i]) (simp_all add: c mask19_field)
  moreover have "w AND 0xF = cond_code c"
    by (simp add: w' bit.conj_disj_distrib2 c i0)
  ultimately show ?thesis by (simp add: FixBcond)
next
  case (FixCb is_x st rt)
  with w obtain i where i: "encode_branch19_rel rel = Inr i"
    and w': "w = cb_base is_x st OR i OR rt"
    by (auto elim: bind_r_InrE)
  have rt: "rt \<le> 31" using ok FixCb by simp
  note r = register_high_bits [OF rt]
  have i0: "i AND 0x7F000000 = 0" "i AND 0x1F = 0" "i AND 0x80000000 = 0"
    by (rule branch19_disjoint [OF i], simp add: mask19_field)+
  have cls: "if st then is_cbnz w else is_cbz w"
    by (cases is_x; cases st; simp add: w' is_cbnz_def is_cbz_def insn_is_fields
        bit.conj_disj_distrib2 i0 r)
  have disp: "branch_cond_displacement w = rel"
    unfolding w'
    by (rule branch19_displacement [OF i]; cases is_x; cases st; simp add: r mask19_field)
  have "w AND 0x80000000 = (if is_x then 0x80000000 else 0)"
    by (cases is_x; cases st; simp add: w' bit.conj_disj_distrib2 i0 r)
  moreover have "bit w 31 \<longleftrightarrow> w AND 2 ^ 31 \<noteq> 0"
    by (simp only: and_exp_eq_0_iff_not_bit not_not)
  ultimately have "bit w 31 \<longleftrightarrow> is_x" by (cases is_x) simp_all
  moreover have "w AND 0x1F = rt"
    by (cases is_x; cases st; simp add: w' bit.conj_disj_distrib2 i0 le31_and [OF rt])
  ultimately show ?thesis using cls disp by (simp add: FixCb)
qed

section \<open>The invariant of the builder\<close>

text \<open>
  Every pending branch owns four bytes of the buffer, in order and without overlap, and names a
  label of the builder; a bound label is a position of the buffer.
\<close>

definition asm_wf :: "asm \<Rightarrow> bool" where
  "asm_wf a \<longleftrightarrow>
     sorted_wrt (\<lambda>f g. fx_pos f + 4 \<le> fx_pos g) (asm_fixups a) \<and>
     (\<forall>f \<in> set (asm_fixups a). fx_pos f + 4 \<le> length (asm_buf a) \<and>
        fx_label f < length (asm_labels a) \<and> fix_kind_ok (fx_kind f)) \<and>
     (\<forall>p. Some p \<in> set (asm_labels a) \<longrightarrow> p \<le> length (asm_buf a))"

text \<open>An operation that only appends code (and may record an error).\<close>

locale appender =
  fixes op :: "asm \<Rightarrow> asm"
  assumes appends: "\<exists>bs. asm_buf (op a) = asm_buf a @ bs"
    and keeps_labels: "asm_labels (op a) = asm_labels a"
    and keeps_fixups: "asm_fixups (op a) = asm_fixups a"
begin

lemma length_mono: "length (asm_buf a) \<le> length (asm_buf (op a))"
  using appends [of a] by auto

lemma keeps_code: "i < length (asm_buf a) \<Longrightarrow> asm_buf (op a) ! i = asm_buf a ! i"
  using appends [of a] by (auto simp: nth_append)

lemma wf: "asm_wf a \<Longrightarrow> asm_wf (op a)"
  using length_mono [of a] by (auto simp: asm_wf_def keeps_labels keeps_fixups)

lemma wf_funpow: "asm_wf a \<Longrightarrow> asm_wf ((op ^^ n) a)"
  by (induction n) (simp_all add: wf)

end

lemma asm_word_fields [simp]:
  "asm_buf (asm_word a w) = asm_buf a @ u32_le w"
  "asm_labels (asm_word a w) = asm_labels a"
  "asm_fixups (asm_word a w) = asm_fixups a"
  "asm_err (asm_word a w) = asm_err a"
  by (simp_all add: asm_word_def)

lemma set_err_fields [simp]:
  "asm_buf (set_err a e) = asm_buf a"
  "asm_labels (set_err a e) = asm_labels a"
  "asm_fixups (set_err a e) = asm_fixups a"
  "asm_err (set_err a e) = (case asm_err a of None \<Rightarrow> Some e | Some e' \<Rightarrow> Some e')"
  by (simp_all add: set_err_def split: option.splits)

interpretation word: appender "\<lambda>a. asm_word a w" for w
  by unfold_locales simp_all

interpretation embed: appender "\<lambda>a. asm_embed a bs" for bs
  by unfold_locales (simp_all add: asm_embed_def)

interpretation b_off: appender "\<lambda>a. b_off a off" for off
  by unfold_locales (simp_all add: b_off_def split: sum.splits)

interpretation bl_off: appender "\<lambda>a. bl_off a off" for off
  by unfold_locales (simp_all add: bl_off_def split: sum.splits)

interpretation adr: appender "\<lambda>a. adr a rd off" for rd off
  by unfold_locales (simp_all add: adr_def Let_def)

interpretation adrp: appender "\<lambda>a. snd (adrp a rd cur tgt)" for rd cur tgt
  by unfold_locales (simp_all add: adrp_def Let_def)

interpretation and_imm_x: appender "\<lambda>a. snd (and_imm_x a rd rn imm)" for rd rn imm
  by unfold_locales (simp_all add: and_imm_x_def split: option.splits)

interpretation orr_imm_x: appender "\<lambda>a. snd (orr_imm_x a rd rn imm)" for rd rn imm
  by unfold_locales (simp_all add: orr_imm_x_def split: option.splits)

lemma foldl_asm_word:
  "foldl asm_word a ws = a\<lparr>asm_buf := asm_buf a @ concat (map u32_le ws)\<rparr>"
  by (induction ws arbitrary: a) (simp_all add: asm_word_def)

lemma asm_wf_new: "asm_wf asm_new"
  by (simp add: asm_wf_def asm_new_def)

lemma asm_wf_new_label: "asm_wf a \<Longrightarrow> asm_wf (snd (new_label a))"
  by (auto simp: asm_wf_def new_label_def)

lemma asm_wf_bind: "asm_wf a \<Longrightarrow> asm_bind a l = Some a' \<Longrightarrow> asm_wf a'"
  using set_update_subset_insert [of "asm_labels a" l "Some (length (asm_buf a))"]
  by (auto simp: asm_wf_def asm_bind_def split: if_splits)

lemma asm_wf_push_fixup:
  assumes "asm_wf a" and "l < length (asm_labels a)" and "fix_kind_ok k"
  shows "asm_wf (push_fixup a l k)"
  using assms by (auto simp: asm_wf_def push_fixup_def sorted_wrt_append)

section \<open>Finalisation\<close>

lemma resolve_fixup_Inr:
  assumes "resolve_fixup lbls fx bs = Inr bs'"
  obtains t w where "fx_label fx < length lbls" "lbls ! fx_label fx = Some t"
    "fixup_word (fx_kind fx) (int t - int (fx_pos fx)) = Inr w"
    "fx_pos fx + 4 \<le> length bs" "bs' = write_at bs (fx_pos fx) (u32_le w)"
  using assms by (auto simp: resolve_fixup_def split: if_splits option.splits sum.splits)

lemma rd32_le_write_at_same:
  "p + 4 \<le> length bs \<Longrightarrow> rd32_le (write_at bs p (u32_le w)) p = w"
  using window_write_at_same [of p "u32_le w" bs] rd32_le_window [of p "write_at bs p (u32_le w)"]
  by simp

text \<open>A position the remaining branches do not own keeps its byte.\<close>

lemma resolve_fixups_frame:
  assumes "resolve_fixups lbls fxs bs = Inr bs'"
  shows "length bs' = length bs"
    and "i < length bs \<Longrightarrow> \<forall>f \<in> set fxs. i < fx_pos f \<or> fx_pos f + 4 \<le> i \<Longrightarrow> bs' ! i = bs ! i"
  using assms
proof (induction fxs arbitrary: bs)
  case (Cons f fxs)
  {
    case 1
    then obtain bs1 where "resolve_fixup lbls f bs = Inr bs1"
      and "resolve_fixups lbls fxs bs1 = Inr bs'" by (auto elim: bind_r_InrE)
    with Cons.IH(1) show ?case by (auto elim!: resolve_fixup_Inr)
  next
    case 2
    then obtain bs1 where f: "resolve_fixup lbls f bs = Inr bs1"
      and r: "resolve_fixups lbls fxs bs1 = Inr bs'" by (auto elim: bind_r_InrE)
    from f have l: "length bs1 = length bs" by (auto elim!: resolve_fixup_Inr)
    from f 2 have "bs1 ! i = bs ! i" by (auto elim!: resolve_fixup_Inr simp: nth_write_at)
    with Cons.IH(2) [OF _ _ r] 2 l show ?case by simp
  }
qed simp_all

lemma resolve_fixups_correct:
  assumes "resolve_fixups lbls fxs bs = Inr bs'"
    and "sorted_wrt (\<lambda>f g. fx_pos f + 4 \<le> fx_pos g) fxs"
    and "\<forall>f \<in> set fxs. fix_kind_ok (fx_kind f)" and "f \<in> set fxs"
  shows "\<exists>t. fx_label f < length lbls \<and> lbls ! fx_label f = Some t \<and>
    branch_goes_to (fx_kind f) (rd32_le bs' (fx_pos f)) (int t - int (fx_pos f))"
  using assms
proof (induction fxs arbitrary: bs)
  case (Cons g fxs)
  from Cons.prems(1) obtain bs1 where g: "resolve_fixup lbls g bs = Inr bs1"
    and r: "resolve_fixups lbls fxs bs1 = Inr bs'" by (auto elim: bind_r_InrE)
  show ?case
  proof (cases "f \<in> set fxs")
    case True
    with Cons.IH [OF r] Cons.prems show ?thesis by simp
  next
    case False
    with Cons.prems(4) have fg: "f = g" by simp
    from g obtain t w where t: "fx_label g < length lbls" "lbls ! fx_label g = Some t"
      and w: "fixup_word (fx_kind g) (int t - int (fx_pos g)) = Inr w"
      and p: "fx_pos g + 4 \<le> length bs" and bs1: "bs1 = write_at bs (fx_pos g) (u32_le w)"
      by (rule resolve_fixup_Inr)
    have "bs' ! i = bs1 ! i" if "fx_pos g \<le> i" "i < fx_pos g + 4" for i
      by (rule resolve_fixups_frame(2) [OF r]) (use that p bs1 Cons.prems(2) in auto)
    then have "rd32_le bs' (fx_pos g) = rd32_le bs1 (fx_pos g)"
      by (simp add: rd32_le_def)
    also have "\<dots> = w" by (simp add: bs1 rd32_le_write_at_same p)
    finally show ?thesis
      using t w fg Cons.prems(3) fixup_word_correct [of "fx_kind g"] by simp
  qed
qed simp

lemma resolve_fixups_no_panic:
  assumes "\<forall>f \<in> set fxs. fx_pos f + 4 \<le> length bs \<and> fx_label f < length lbls \<and>
      lbls ! fx_label f \<noteq> None"
  shows "resolve_fixups lbls fxs bs \<noteq> Inl AsmPanic"
  using assms
proof (induction fxs arbitrary: bs)
  case (Cons f fxs)
  show ?case
  proof (cases "resolve_fixup lbls f bs")
    case (Inl e)
    with Cons.prems show ?thesis
      by (auto simp: resolve_fixup_def split: if_splits option.splits sum.splits)
  next
    case (Inr bs1)
    then have "length bs1 = length bs" by (auto elim!: resolve_fixup_Inr)
    with Inr Cons show ?thesis by auto
  qed
qed simp

text \<open>The distances a branch of each kind can encode.\<close>

fun encodable :: "fix_kind \<Rightarrow> int \<Rightarrow> bool" where
  "encodable FixB rel \<longleftrightarrow> 4 dvd rel \<and> - (2 ^ 27) \<le> rel \<and> rel < 2 ^ 27"
| "encodable FixBl rel \<longleftrightarrow> 4 dvd rel \<and> - (2 ^ 27) \<le> rel \<and> rel < 2 ^ 27"
| "encodable (FixBcond c) rel \<longleftrightarrow> 4 dvd rel \<and> - (2 ^ 20) \<le> rel \<and> rel < 2 ^ 20"
| "encodable (FixCb is_x st rt) rel \<longleftrightarrow> 4 dvd rel \<and> - (2 ^ 20) \<le> rel \<and> rel < 2 ^ 20"

lemma fixup_word_encodable: "(\<exists>w. fixup_word k rel = Inr w) \<longleftrightarrow> encodable k rel"
  by (cases k)
    (auto simp: encode_branch26_rel_total encode_branch19_rel_total bind_r_Inr_iff not_le not_less)

lemma resolve_fixups_total:
  assumes "\<forall>f \<in> set fxs. fx_pos f + 4 \<le> length bs \<and> fx_label f < length lbls \<and>
      lbls ! fx_label f \<noteq> None"
  shows "(\<exists>bs'. resolve_fixups lbls fxs bs = Inr bs') \<longleftrightarrow>
    (\<forall>f \<in> set fxs. encodable (fx_kind f) (int (the (lbls ! fx_label f)) - int (fx_pos f)))"
  using assms
proof (induction fxs arbitrary: bs)
  case (Cons f fxs)
  from Cons.prems obtain t where t: "lbls ! fx_label f = Some t" by auto
  show ?case
  proof (cases "fixup_word (fx_kind f) (int t - int (fx_pos f))")
    case (Inl e)
    then have "\<not> encodable (fx_kind f) (int t - int (fx_pos f))"
      by (simp flip: fixup_word_encodable)
    with Inl t Cons.prems show ?thesis by (auto simp: resolve_fixup_def)
  next
    case (Inr w)
    then have "encodable (fx_kind f) (int t - int (fx_pos f))"
      by (auto simp flip: fixup_word_encodable)
    moreover have "resolve_fixup lbls f bs = Inr (write_at bs (fx_pos f) (u32_le w))"
      using Inr t Cons.prems by (simp add: resolve_fixup_def)
    ultimately show ?thesis using t Cons by simp
  qed
qed simp

section \<open>Properties\<close>

text \<open>
  (C26) finalisation. When \<open>to_bytes\<close> succeeds on a well formed builder, the code has the
  size of the buffer; at every pending branch stands an instruction of the requested kind (with
  its condition or its register) whose displacement, as \<open>insn.rs\<close> decodes it, leads to the bound
  position of its label; and every byte no branch owns is what was emitted.
\<close>

theorem to_bytes_correct:
  assumes "asm_wf a" and "to_bytes a = Inr bs"
  shows "length bs = length (asm_buf a) \<and>
    (\<forall>f \<in> set (asm_fixups a). \<exists>t. asm_labels a ! fx_label f = Some t \<and>
      branch_goes_to (fx_kind f) (rd32_le bs (fx_pos f)) (int t - int (fx_pos f))) \<and>
    (\<forall>i < length bs. (\<forall>f \<in> set (asm_fixups a). i < fx_pos f \<or> fx_pos f + 4 \<le> i) \<longrightarrow>
      bs ! i = asm_buf a ! i)"
proof (intro conjI)
  from assms(2) have r: "resolve_fixups (asm_labels a) (asm_fixups a) (asm_buf a) = Inr bs"
    by (simp add: to_bytes_def split: option.splits)
  show len: "length bs = length (asm_buf a)" by (rule resolve_fixups_frame(1) [OF r])
  show "\<forall>f \<in> set (asm_fixups a). \<exists>t. asm_labels a ! fx_label f = Some t \<and>
      branch_goes_to (fx_kind f) (rd32_le bs (fx_pos f)) (int t - int (fx_pos f))"
    using resolve_fixups_correct [OF r] assms(1) by (fastforce simp: asm_wf_def)
  show "\<forall>i < length bs. (\<forall>f \<in> set (asm_fixups a). i < fx_pos f \<or> fx_pos f + 4 \<le> i) \<longrightarrow>
      bs ! i = asm_buf a ! i"
    using resolve_fixups_frame(2) [OF r] len by simp
qed

text \<open>A conditional branch forward over an unconditional branch back, as a builder run.\<close>

definition sample_asm :: asm where
  "sample_asm =
     (let (top, a1) = new_label asm_new; (end_l, a2) = new_label a1;
          a3 = the (asm_bind a2 top);
          a4 = b_label (b_cond (cmp_imm_w a3 2 0) CNe end_l) top
      in ret_x30 (the (asm_bind a4 end_l)))"

lemma sample_asm_eq:
  "sample_asm = \<lparr>asm_buf = u32_le 0x7100005F @ u32_le 0 @ u32_le 0 @ u32_le 0xD65F03C0,
     asm_labels = [Some 0, Some 12],
     asm_fixups = [\<lparr>fx_pos = 4, fx_label = 1, fx_kind = FixBcond CNe\<rparr>,
       \<lparr>fx_pos = 8, fx_label = 0, fx_kind = FixB\<rparr>], asm_err = None\<rparr>"
  by (simp add: sample_asm_def asm_new_def new_label_def asm_bind_def b_label_def b_cond_def
      push_fixup_def cmp_imm_w_def ret_x30_def asm_word_def ZR_def)

lemma sample_asm_wf: "asm_wf sample_asm"
  by (auto simp: asm_wf_def sample_asm_eq)

lemma sample_asm_bytes:
  "to_bytes sample_asm =
     Inr (u32_le 0x7100005F @ u32_le 0x54000041 @ u32_le 0x17FFFFFE @ u32_le 0xD65F03C0)"
  by (simp add: to_bytes_def sample_asm_eq resolve_fixup_def encode_branch19_rel_def
      encode_branch26_rel_def write_at_def u32_le_def)

theorem to_bytes_correct_witness:
  "\<exists>t. asm_labels sample_asm ! 1 = Some t \<and>
     branch_goes_to (FixBcond CNe)
       (rd32_le (u32_le 0x7100005F @ u32_le 0x54000041 @ u32_le 0x17FFFFFE @ u32_le 0xD65F03C0) 4)
       (int t - 4)"
  using to_bytes_correct [OF sample_asm_wf sample_asm_bytes] by (simp add: sample_asm_eq)

text \<open>
  when finalisation succeeds. On a well formed builder with every label of a pending
  branch bound, \<open>to_bytes\<close> never panics, and it returns code exactly when no error was recorded
  while emitting and every pending branch has a distance its kind can encode (a multiple of four
  within 128 MiB for \<open>b\<close> and \<open>bl\<close>, within 1 MiB for the others).
\<close>

theorem to_bytes_total:
  assumes "asm_wf a" and "\<forall>f \<in> set (asm_fixups a). asm_labels a ! fx_label f \<noteq> None"
  shows "to_bytes a \<noteq> Inl AsmPanic \<and>
    ((\<exists>bs. to_bytes a = Inr bs) \<longleftrightarrow> asm_err a = None \<and>
      (\<forall>f \<in> set (asm_fixups a).
        encodable (fx_kind f) (int (the (asm_labels a ! fx_label f)) - int (fx_pos f))))"
  using assms resolve_fixups_no_panic [of "asm_fixups a" "asm_buf a" "asm_labels a"]
    resolve_fixups_total [of "asm_fixups a" "asm_buf a" "asm_labels a"]
  by (auto simp: to_bytes_def asm_wf_def split: option.splits)

theorem to_bytes_total_witness: "to_bytes sample_asm \<noteq> Inl AsmPanic \<and> (\<exists>bs. to_bytes sample_asm = Inr bs)"
  using to_bytes_total [OF sample_asm_wf] by (auto simp: sample_asm_eq)

end
