(* ===== verification/Asm_Mov.thy ===== *)
theory Asm_Mov
  imports Asm_Branch
begin

text \<open>
  Moves of immediates. The reference is a small executable semantics of the four instructions the
  encoder uses (\<open>movz\<close>, \<open>movn\<close>, \<open>movk\<close> and \<open>orr\<close> with a logical immediate) on a register file,
  written from their architectural definition; \<open>DecodeBitMasks\<close> is the inverse the source's own
  test uses. The theorems show that running the emitted words leaves the requested value in the
  requested register, for every value.
\<close>

unbundle bit_operations_syntax

type_synonym regs = "u32 \<Rightarrow> u64"

section \<open>Reference semantics\<close>

text \<open>A write of a 32-bit register clears the upper half; register 31 discards the write.\<close>

definition write_reg :: "regs \<Rightarrow> u32 \<Rightarrow> bool \<Rightarrow> u64 \<Rightarrow> regs" where
  "write_reg r rd is_x v = (if rd = 31 then r else r(rd := if is_x then v else take_bit 32 v))"

definition move_wide_value :: "u32 \<Rightarrow> u64 \<Rightarrow> nat \<Rightarrow> u64 \<Rightarrow> u64" where
  "move_wide_value w old sh imm =
     (if is_movz w then push_bit sh imm
      else if is_movn w then NOT (push_bit sh imm)
      else (old AND NOT (push_bit sh 0xFFFF)) OR push_bit sh imm)"

definition exec_move_wide :: "u32 \<Rightarrow> regs \<Rightarrow> regs option" where
  "exec_move_wide w r =
     (let is_x = bit w 31; hw = unat (drop_bit 21 w AND 3); rd = w AND 31 in
      if (is_movz w \<or> is_movn w \<or> is_movk w) \<and> (is_x \<or> hw < 2)
      then Some (write_reg r rd is_x
        (move_wide_value w (r rd) (16 * hw) (ucast (drop_bit 5 w AND 0xFFFF))))
      else None)"

text \<open>
  The element size of a logical immediate is \<open>2 ^ len\<close>, with \<open>len\<close> the highest set bit of
  \<open>n : NOT imms\<close>; an element is a run of ones, rotated; the value repeats it.
\<close>

definition ror_element :: "nat \<Rightarrow> nat \<Rightarrow> u64 \<Rightarrow> u64" where
  "ror_element sz r e = take_bit sz (drop_bit r e OR push_bit (sz - r) e)"

definition highest_bit :: "u32 \<Rightarrow> nat option" where
  "highest_bit v = List.find (bit v) (rev [0..<7])"

definition replicate_element :: "nat \<Rightarrow> u64 \<Rightarrow> u64" where
  "replicate_element sz e = foldr (\<lambda>k acc. push_bit (sz * k) e OR acc) [0..<64 div sz] 0"

definition decode_logical_imm64 :: "u32 \<Rightarrow> u32 \<Rightarrow> u32 \<Rightarrow> u64 option" where
  "decode_logical_imm64 n immr imms =
     (case highest_bit (push_bit 6 n OR (NOT imms AND 0x3F)) of
        None \<Rightarrow> None
      | Some len \<Rightarrow>
          let sz = 2 ^ len; ones = unat (imms AND of_nat (sz - 1)) + 1 in
          if ones \<ge> sz then None
          else Some (replicate_element sz
            (ror_element sz (unat (immr AND of_nat (sz - 1))) (mask ones))))"

definition exec_orr_imm :: "u32 \<Rightarrow> regs \<Rightarrow> regs option" where
  "exec_orr_imm w r =
     (let rn = drop_bit 5 w AND 31; rd = w AND 31 in
      if is_orr_imm w \<and> bit w 31 \<and> rd \<noteq> 31
      then map_option (\<lambda>v. r(rd := (if rn = 31 then 0 else r rn) OR v))
        (decode_logical_imm64 (drop_bit 22 w AND 1) (drop_bit 16 w AND 0x3F)
           (drop_bit 10 w AND 0x3F))
      else None)"

definition exec_insn :: "u32 \<Rightarrow> regs \<Rightarrow> regs option" where
  "exec_insn w r = (if is_orr_imm w then exec_orr_imm w r else exec_move_wide w r)"

fun exec_insns :: "u32 list \<Rightarrow> regs \<Rightarrow> regs option" where
  "exec_insns [] r = Some r"
| "exec_insns (w # ws) r = Option.bind (exec_insn w r) (exec_insns ws)"

section \<open>Fields of a move\<close>

lemma bit_le31: "rd \<le> (31 :: u32) \<Longrightarrow> bit rd n \<Longrightarrow> n < 5"
proof -
  assume "rd \<le> 31" and b: "bit rd n"
  then have "rd AND mask 5 = rd" using le31_and by (simp add: mask_eq_exp_minus_1)
  with b have "bit (rd AND mask 5) n" by simp
  then show "n < 5" by (simp add: bit_simps)
qed

text \<open>The three fields below the opcode: half word, immediate, register.\<close>

definition move_word :: "u32 \<Rightarrow> nat \<Rightarrow> u16 \<Rightarrow> u32 \<Rightarrow> u32" where
  "move_word base hw imm rd = base OR push_bit 21 (of_nat hw) OR push_bit 5 (ucast imm) OR rd"

lemma bit_of_nat_small: "hw < 4 \<Longrightarrow> bit (of_nat hw :: u32) n \<Longrightarrow> n < 2"
proof (rule ccontr)
  assume hw: "hw < 4" and b: "bit (of_nat hw :: u32) n" and "\<not> n < 2"
  then have "hw div 2 ^ n = 0" using power_increasing [of 2 n "2 :: nat"] by simp
  then have "\<not> bit hw n" by (simp add: bit_iff_odd)
  with b show False by (simp add: bit_simps)
qed

lemma move_word_bits:
  assumes "base AND mask 23 = 0" and "hw < 4" and "rd \<le> 31"
  shows "bit (move_word base hw imm rd) n \<longleftrightarrow>
    n < 32 \<and> (if n < 5 then bit rd n
     else if n < 21 then bit imm (n - 5)
     else if n < 23 then bit (of_nat hw :: u32) (n - 21)
     else bit base n)"
proof -
  have base: "bit base n \<Longrightarrow> 23 \<le> n"
    using assms(1) by (metis bit_and_iff bit_mask_iff bit_0_eq bot_apply not_le bit_imp_le_length
        possible_bit_word bot_bool_def)
  show ?thesis
    using base bit_le31 [OF assms(3), of n] bit_of_nat_small [OF assms(2), of "n - 21"]
    by (auto simp: move_word_def bit_simps dest: bit_imp_le_length)
qed

lemma move_word_fields:
  assumes "base AND mask 23 = 0" and "hw < 4" and "rd \<le> 31"
  shows "move_word base hw imm rd AND 31 = rd"
    and "unat (drop_bit 21 (move_word base hw imm rd) AND 3) = hw"
    and "ucast (drop_bit 5 (move_word base hw imm rd) AND 0xFFFF) = (ucast imm :: u64)"
    and "move_word base hw imm rd AND 0x7F800000 = base AND 0x7F800000"
    and "bit (move_word base hw imm rd) 31 \<longleftrightarrow> bit base 31"
proof -
  note bits = move_word_bits [OF assms, of imm]
  have m: "(31 :: u32) = mask 5" "(3 :: u32) = mask 2" "(0xFFFF :: u32) = mask 16"
    "(0x7F800000 :: u32) = push_bit 23 (mask 8)"
    by (simp_all add: mask_eq_exp_minus_1)
  show "move_word base hw imm rd AND 31 = rd"
    unfolding m by (rule bit_word_eqI) (use bit_le31 [OF assms(3)] in \<open>auto simp: bits bit_simps\<close>)
  have "drop_bit 21 (move_word base hw imm rd) AND 3 = of_nat hw"
    unfolding m
    by (rule bit_word_eqI) (use bit_of_nat_small [OF assms(2)] in \<open>auto simp: bits bit_simps\<close>)
  then show "unat (drop_bit 21 (move_word base hw imm rd) AND 3) = hw"
    using assms(2) by (simp add: unsigned_of_nat take_bit_nat_eq_self_iff)
  show "ucast (drop_bit 5 (move_word base hw imm rd) AND 0xFFFF) = (ucast imm :: u64)"
    unfolding m by (rule bit_word_eqI) (auto simp: bits bit_simps dest: bit_imp_le_length)
  show "move_word base hw imm rd AND 0x7F800000 = base AND 0x7F800000"
    unfolding m by (rule bit_word_eqI) (auto simp: bits bit_simps)
  show "bit (move_word base hw imm rd) 31 \<longleftrightarrow> bit base 31"
    by (simp add: bits)
qed

lemma exec_move_word:
  assumes "base AND mask 23 = 0" and "hw < 4" and "rd < 31"
    and "base AND 0x7F800000 \<in> {0x52800000, 0x12800000, 0x72800000}"
    and "bit base 31 \<or> hw < 2"
  shows "exec_insn (move_word base hw imm rd) r = Some (r(rd :=
    (let v = (if base AND 0x7F800000 = 0x52800000 then push_bit (16 * hw) (ucast imm)
       else if base AND 0x7F800000 = 0x12800000 then NOT (push_bit (16 * hw) (ucast imm))
       else (r rd AND NOT (push_bit (16 * hw) 0xFFFF)) OR push_bit (16 * hw) (ucast imm))
     in if bit base 31 then v else take_bit 32 v)))"
proof -
  have rd: "rd \<le> 31" and rd31: "rd \<noteq> 31" using assms(3) by auto
  note f = move_word_fields [OF assms(1,2) rd, of imm]
  show ?thesis
    using assms(4,5) rd31
    by (auto simp: exec_insn_def exec_move_wide_def Let_def is_orr_imm_def is_movz_def is_movn_def
        is_movk_def insn_is_def f write_reg_def move_wide_value_def)
qed

text \<open>The words of the 64-bit and of the 32-bit moves.\<close>

lemma exec_move_words:
  assumes "hw < 4" and "rd < 31"
  shows
    "exec_insn (move_word 0xD2800000 hw imm rd) r = Some (r(rd := push_bit (16 * hw) (ucast imm)))"
    "exec_insn (move_word 0x92800000 hw imm rd) r =
       Some (r(rd := NOT (push_bit (16 * hw) (ucast imm))))"
    "exec_insn (move_word 0xF2800000 hw imm rd) r =
       Some (r(rd := (r rd AND NOT (push_bit (16 * hw) 0xFFFF)) OR push_bit (16 * hw) (ucast imm)))"
  by (subst exec_move_word; use assms in \<open>simp add: mask_eq_exp_minus_1 bit_numeral_rec\<close>)+

lemma exec_move_words32:
  assumes "hw < 2" and "rd < 31"
  shows
    "exec_insn (move_word 0x52800000 hw imm rd) r =
       Some (r(rd := take_bit 32 (push_bit (16 * hw) (ucast imm))))"
    "exec_insn (move_word 0x12800000 hw imm rd) r =
       Some (r(rd := take_bit 32 (NOT (push_bit (16 * hw) (ucast imm)))))"
    "exec_insn (move_word 0x72800000 hw imm rd) r =
       Some (r(rd := take_bit 32 ((r rd AND NOT (push_bit (16 * hw) 0xFFFF)) OR
         push_bit (16 * hw) (ucast imm))))"
  by (subst exec_move_word; use assms in \<open>simp add: mask_eq_exp_minus_1 bit_numeral_rec\<close>)+

lemma exec_insns_append:
  "exec_insns (xs @ ys) r = Option.bind (exec_insns xs r) (exec_insns ys)"
  by (induction xs arbitrary: r) (auto split: bind_splits)

section \<open>Half words\<close>

definition half_word :: "nat \<Rightarrow> u64 \<Rightarrow> u16" where
  "half_word k v = ucast (drop_bit (16 * k) v)"

lemma take_bit_split16:
  "take_bit (p + 16) v = take_bit p v OR push_bit p (ucast (ucast (drop_bit p v) :: u16) :: u64)"
proof (rule bit_word_eqI)
  fix n assume "n < LENGTH(64)"
  then have n: "n < 64" by simp
  then have "n - p < 64" by simp
  consider "n < p" | "p \<le> n" "n - p < 16" "n < p + 16"
    | "p + 16 \<le> n" "\<not> n - p < 16" "\<not> n < p" by linarith
  then show "bit (take_bit (p + 16) v) n = bit (take_bit p v OR
      push_bit p (ucast (ucast (drop_bit p v) :: u16) :: u64)) n"
    using n \<open>n - p < 64\<close> by cases (simp_all add: bit_simps)
qed

lemma insert_split16:
  "(take_bit p v AND NOT (push_bit p (mask 16))) OR
     push_bit p (ucast (ucast (drop_bit p v) :: u16) :: u64) = take_bit (p + 16) v"
proof (rule bit_word_eqI)
  fix n assume "n < LENGTH(64)"
  then have n: "n < 64" by simp
  then have "n - p < 64" by simp
  consider "n < p" | "p \<le> n" "n - p < 16" "n < p + 16"
    | "p + 16 \<le> n" "\<not> n - p < 16" "\<not> n < p" by linarith
  then show "bit ((take_bit p v AND NOT (push_bit p (mask 16))) OR
      push_bit p (ucast (ucast (drop_bit p v) :: u16) :: u64)) n = bit (take_bit (p + 16) v) n"
    using n \<open>n - p < 64\<close> by cases (simp_all add: bit_simps)
qed

lemma take_bit_half_word:
  "take_bit (16 * Suc k) v = take_bit (16 * k) v OR push_bit (16 * k) (ucast (half_word k v))"
  using take_bit_split16 [of "16 * k" v] by (simp add: half_word_def add.commute)

lemma take_bit_half_word_0:
  "half_word k v = 0 \<Longrightarrow> take_bit (16 * Suc k) v = take_bit (16 * k) v"
  by (simp only: take_bit_half_word) simp

lemma movk_half_word:
  "(take_bit (16 * k) v AND NOT (push_bit (16 * k) 0xFFFF)) OR
     push_bit (16 * k) (ucast (half_word k v)) = take_bit (16 * Suc k) v"
proof -
  have m: "(0xFFFF :: u64) = mask 16" by (simp add: mask_eq_exp_minus_1)
  show ?thesis
    unfolding m using insert_split16 [of "16 * k" v] by (simp add: half_word_def add.commute)
qed

lemma take_bit_all64: "take_bit (16 * 4) (v :: u64) = v"
  by (rule bit_word_eqI) (simp add: bit_simps)

lemma half_word_source:
  "ucast (drop_bit (k * 16) v AND 0xFFFF) = half_word k v"
proof -
  have m: "(0xFFFF :: u64) = mask 16" by (simp add: mask_eq_exp_minus_1)
  show ?thesis
    unfolding m by (rule bit_word_eqI) (auto simp: half_word_def bit_simps mult.commute)
qed

lemma half_word_source32:
  "ucast (drop_bit (k * 16) (v :: u32) AND 0xFFFF) = half_word k (ucast v)"
proof -
  have m: "(0xFFFF :: u32) = mask 16" by (simp add: mask_eq_exp_minus_1)
  show ?thesis
    unfolding m
    by (rule bit_word_eqI)
      (auto simp: half_word_def bit_simps mult.commute dest: bit_imp_le_length)
qed

lemma less4_cases: "k < 4 \<Longrightarrow> k = 0 \<or> k = 1 \<or> k = 2 \<or> k = (3 :: nat)"
  by auto

lemma move_emitters:
  assumes "k < 4"
  shows "movz_x a rd imm (of_nat (k * 16)) = asm_word a (move_word 0xD2800000 k imm rd)"
    and "movk_x a rd imm (of_nat (k * 16)) = asm_word a (move_word 0xF2800000 k imm rd)"
    and "movz_w a rd imm (of_nat (k * 16)) = asm_word a (move_word 0x52800000 k imm rd)"
    and "movk_w a rd imm (of_nat (k * 16)) = asm_word a (move_word 0x72800000 k imm rd)"
  using less4_cases [OF assms]
  by (auto simp: asm_defs move_word_def)

section \<open>\<open>mov_imm_x\<close> and \<open>mov_imm_w\<close>\<close>

lemma mov_imm_x_loop_exec:
  assumes "rd < 31" and "k \<le> 4"
    and "if inited then r rd = take_bit (16 * k) v else take_bit (16 * k) v = 0"
  shows "\<exists>ws v'. fst (mov_imm_x_loop rd v [k..<4] (a, inited)) = foldl asm_word a ws \<and>
    exec_insns ws r = Some (r(rd := v')) \<and>
    (if snd (mov_imm_x_loop rd v [k..<4] (a, inited)) then v' = v else v = 0 \<and> ws = [])"
  using assms(2,3)
proof (induction "4 - k" arbitrary: k a inited r)
  case 0
  then have "k = 4" by simp
  with "0.prems" show ?case
    by (cases inited)
      (auto simp: take_bit_all64 [simplified] fun_eq_iff intro!: exI [of _ "[]"] exI [of _ "r rd"])
next
  case (Suc n)
  then have k: "k < 4" by simp
  then have upt: "[k..<4] = k # [Suc k..<4]" by (simp add: upt_rec)
  have IH: "\<And>a inited r.
      (if inited then r rd = take_bit (16 * Suc k) v else take_bit (16 * Suc k) v = 0) \<Longrightarrow>
      \<exists>ws v'. fst (mov_imm_x_loop rd v [Suc k..<4] (a, inited)) = foldl asm_word a ws \<and>
        exec_insns ws r = Some (r(rd := v')) \<and>
        (if snd (mov_imm_x_loop rd v [Suc k..<4] (a, inited)) then v' = v else v = 0 \<and> ws = [])"
    using Suc.hyps(1) [of "Suc k"] Suc.hyps(2) k by simp
  show ?case
  proof (cases "half_word k v = 0")
    case True
    then have "if inited then r rd = take_bit (16 * Suc k) v else take_bit (16 * Suc k) v = 0"
      using Suc.prems(2) take_bit_half_word_0 [of k v] by (simp only: split: if_splits)
    from IH [where a = a and inited = inited and r = r] this True show ?thesis
      by (simp add: upt half_word_source)
  next
    case False
    define w where "w = move_word (if inited then 0xF2800000 else 0xD2800000) k (half_word k v) rd"
    define r1 where "r1 = r(rd := take_bit (16 * Suc k) v)"
    have exec: "exec_insn w r = Some r1"
      using Suc.prems(2) exec_move_words [OF k assms(1)] movk_half_word [of k v]
        take_bit_half_word [of k v]
      by (cases inited) (simp_all only: w_def r1_def if_True if_False or.left_neutral)
    from IH [where a = "asm_word a w" and inited = True and r = r1] obtain ws v' where
      ws: "fst (mov_imm_x_loop rd v [Suc k..<4] (asm_word a w, True)) =
          foldl asm_word (asm_word a w) ws"
        "exec_insns ws r1 = Some (r1(rd := v'))"
        "if snd (mov_imm_x_loop rd v [Suc k..<4] (asm_word a w, True)) then v' = v
         else v = 0 \<and> ws = []" by (auto simp: r1_def)
    have step: "mov_imm_x_loop rd v [k..<4] (a, inited) =
        mov_imm_x_loop rd v [Suc k..<4] (asm_word a w, True)"
      using False move_emitters(1,2) [OF k]
      by (simp add: upt half_word_source w_def)
    have "v \<noteq> 0" using False by (auto simp: half_word_def)
    then show ?thesis
      unfolding step using ws exec
      by (intro exI [of _ "w # ws"] exI [of _ v']) (auto simp: r1_def split: if_splits)
  qed
qed


text \<open>A 32-bit value as two half words.\<close>

lemma ucast_half_words:
  "(ucast (v :: u32) :: u64) = ucast (half_word 0 (ucast v)) OR push_bit 16 (ucast (half_word 1 (ucast v)))"
  by (rule bit_word_eqI) (auto simp: half_word_def bit_simps dest: bit_imp_le_length)

lemma mov_imm_w_exec_cases:
  assumes "rd < 31"
  shows "exec_insns [move_word 0x52800000 0 h0 rd] r = Some (r(rd := ucast h0))"
    and "exec_insns [move_word 0x52800000 1 h1 rd] r = Some (r(rd := push_bit 16 (ucast h1)))"
    and "exec_insns [move_word 0x52800000 0 h0 rd, move_word 0x72800000 1 h1 rd] r =
      Some (r(rd := ucast h0 OR push_bit 16 (ucast h1)))"
    and "exec_insns [move_word 0xD2800000 0 h0 rd, move_word 0x72800000 1 h1 rd] r =
      Some (r(rd := ucast h0 OR push_bit 16 (ucast h1)))"
proof -
  have e0: "take_bit 32 (ucast (h0 :: u16) :: u64) = ucast h0"
    by (rule bit_word_eqI) (auto simp: bit_simps dest: bit_imp_le_length)
  have e1: "take_bit 32 (push_bit 16 (ucast (h1 :: u16)) :: u64) = push_bit 16 (ucast h1)"
    by (rule bit_word_eqI) (auto simp: bit_simps dest: bit_imp_le_length)
  have m: "(0xFFFF :: u64) = mask 16" by (simp add: mask_eq_exp_minus_1)
  have e2: "take_bit 32 (ucast h0 AND NOT (push_bit 16 0xFFFF) OR push_bit 16 (ucast h1)) =
      (ucast h0 OR push_bit 16 (ucast h1) :: u64)"
    unfolding m by (rule bit_word_eqI) (auto simp: bit_simps dest: bit_imp_le_length)
  note ex = exec_move_words32 [of 0, OF _ assms, simplified] exec_move_words32 [of 1, OF _ assms, simplified]
    exec_move_words [of 0, OF _ assms, simplified]
  show "exec_insns [move_word 0x52800000 0 h0 rd] r = Some (r(rd := ucast h0))"
    by (simp add: ex e0)
  show "exec_insns [move_word 0x52800000 1 h1 rd] r = Some (r(rd := push_bit 16 (ucast h1)))"
    using e1 by (simp add: ex)
  show "exec_insns [move_word 0x52800000 0 h0 rd, move_word 0x72800000 1 h1 rd] r =
      Some (r(rd := ucast h0 OR push_bit 16 (ucast h1)))"
    using e2 by (simp add: ex e0)
  show "exec_insns [move_word 0xD2800000 0 h0 rd, move_word 0x72800000 1 h1 rd] r =
      Some (r(rd := ucast h0 OR push_bit 16 (ucast h1)))"
    using e2 by (simp add: ex e0)
qed

lemma mov_imm_w_words:
  "\<exists>ws. mov_imm_w a rd v = foldl asm_word a ws \<and>
     (rd < 31 \<longrightarrow> exec_insns ws r = Some (r(rd := ucast v)))"
proof -
  define h0 where "h0 = half_word 0 (ucast v)"
  define h1 where "h1 = half_word 1 (ucast v)"
  have v: "(ucast v :: u64) = ucast h0 OR push_bit 16 (ucast h1)"
    unfolding h0_def h1_def by (rule ucast_half_words)
  have src: "ucast (drop_bit (0 * 16) v AND 0xFFFF) = h0" "ucast (drop_bit (1 * 16) v AND 0xFFFF) = h1"
    by (simp_all only: half_word_source32 h0_def h1_def)
  note emit = move_emitters(3,4) [of 0, simplified] move_emitters(3,4) [of 1, simplified]
  define ws where "ws =
    (if h0 = 0 then if h1 = 0 then [move_word 0x52800000 0 0 rd] else [move_word 0x52800000 1 h1 rd]
     else if h1 = 0 then [move_word 0x52800000 0 h0 rd]
     else [move_word 0x52800000 0 h0 rd, move_word 0x72800000 1 h1 rd])"
  have "mov_imm_w a rd v = foldl asm_word a ws"
    using src emit by (simp add: mov_imm_w_def ws_def Let_def)
  moreover have "rd < 31 \<longrightarrow> exec_insns ws r = Some (r(rd := ucast v))"
    by (simp add: v ws_def mov_imm_w_exec_cases mov_imm_w_exec_cases(1) [of _ 0, simplified]
        del: exec_insns.simps One_nat_def)
  ultimately show ?thesis by blast
qed

section \<open>\<open>mov_imm_x_asmjit\<close>\<close>

lemma field_half_words:
  "(v :: u32) AND 0xFFFF = ucast (half_word 0 (ucast v))"
  "drop_bit 16 v = ucast (half_word 1 (ucast v))"
  "NOT v AND 0xFFFF = ucast (NOT (half_word 0 (ucast v)))"
  "drop_bit 16 (NOT v) AND 0xFFFF = ucast (NOT (half_word 1 (ucast v)))"
proof -
  have m: "(0xFFFF :: u32) = mask 16" by (simp add: mask_eq_exp_minus_1)
  show "v AND 0xFFFF = ucast (half_word 0 (ucast v))"
    unfolding m by (rule bit_word_eqI) (auto simp: half_word_def bit_simps dest: bit_imp_le_length)
  show "drop_bit 16 v = ucast (half_word 1 (ucast v))"
    by (rule bit_word_eqI) (auto simp: half_word_def bit_simps dest: bit_imp_le_length)
  show "NOT v AND 0xFFFF = ucast (NOT (half_word 0 (ucast v)))"
    unfolding m by (rule bit_word_eqI) (auto simp: half_word_def bit_simps dest: bit_imp_le_length)
  show "drop_bit 16 (NOT v) AND 0xFFFF = ucast (NOT (half_word 1 (ucast v)))"
    unfolding m by (rule bit_word_eqI) (auto simp: half_word_def bit_simps dest: bit_imp_le_length)
qed

lemma ucast_half_inject:
  "ucast (h :: u16) = (ucast h' :: u32) \<longleftrightarrow> h = h'"
  "push_bit 16 (ucast h :: u32) = push_bit 16 (ucast h') \<longleftrightarrow> h = h'"
proof -
  have a: "(ucast (ucast x :: u32) :: u16) = x" for x :: u16
    by (rule bit_word_eqI) (auto simp: bit_simps dest: bit_imp_le_length)
  have b: "(ucast (drop_bit 16 (push_bit 16 (ucast x :: u32))) :: u16) = x" for x :: u16
    by (rule bit_word_eqI) (auto simp: bit_simps dest: bit_imp_le_length)
  show "ucast h = (ucast h' :: u32) \<longleftrightarrow> h = h'"
  proof
    assume "ucast h = (ucast h' :: u32)"
    then have "(ucast (ucast h :: u32) :: u16) = ucast (ucast h' :: u32)" by (rule arg_cong)
    then show "h = h'" by (simp only: a)
  qed simp
  show "push_bit 16 (ucast h :: u32) = push_bit 16 (ucast h') \<longleftrightarrow> h = h'"
  proof
    assume "push_bit 16 (ucast h :: u32) = push_bit 16 (ucast h')"
    then have "(ucast (drop_bit 16 (push_bit 16 (ucast h :: u32))) :: u16) =
        ucast (drop_bit 16 (push_bit 16 (ucast h' :: u32)))" by (rule arg_cong)
    then show "h = h'" by (simp only: b)
  qed simp
qed

lemma half_word_tests:
  "(v :: u32) AND 0xFFFF0000 = 0 \<longleftrightarrow> half_word 1 (ucast v) = 0"
  "v AND 0xFFFF0000 = 0xFFFF0000 \<longleftrightarrow> half_word 1 (ucast v) = 0xFFFF"
  "v AND 0x0000FFFF = 0 \<longleftrightarrow> half_word 0 (ucast v) = 0"
  "v AND 0x0000FFFF = 0x0000FFFF \<longleftrightarrow> half_word 0 (ucast v) = 0xFFFF"
proof -
  have m: "(0xFFFF0000 :: u32) = push_bit 16 (mask 16)"
    by (simp add: mask_eq_exp_minus_1)
  have hi: "v AND 0xFFFF0000 = push_bit 16 (ucast (half_word 1 (ucast v)))"
    unfolding m by (rule bit_word_eqI) (auto simp: half_word_def bit_simps dest: bit_imp_le_length)
  show "v AND 0xFFFF0000 = 0 \<longleftrightarrow> half_word 1 (ucast v) = 0"
    using ucast_half_inject(2) [where h = "half_word 1 (ucast v)" and h' = 0] by (simp add: hi)
  show "v AND 0xFFFF0000 = 0xFFFF0000 \<longleftrightarrow> half_word 1 (ucast v) = 0xFFFF"
    using ucast_half_inject(2) [where h = "half_word 1 (ucast v)" and h' = "0xFFFF"] by (simp add: hi)
  show "v AND 0x0000FFFF = 0 \<longleftrightarrow> half_word 0 (ucast v) = 0"
    using ucast_half_inject(1) [where h = "half_word 0 (ucast v)" and h' = 0] by (simp add: field_half_words)
  show "v AND 0x0000FFFF = 0x0000FFFF \<longleftrightarrow> half_word 0 (ucast v) = 0xFFFF"
    using ucast_half_inject(1) [where h = "half_word 0 (ucast v)" and h' = "0xFFFF"] by (simp add: field_half_words)
qed

lemma encode_mov_sequence32_exec:
  assumes "rd < 31"
  shows "exec_insns (encode_mov_sequence32 v rd True) r = Some (r(rd := ucast v))"
proof -
  define h0 where "h0 = half_word 0 (ucast v)"
  define h1 where "h1 = half_word 1 (ucast v)"
  have v: "(ucast v :: u64) = ucast h0 OR push_bit 16 (ucast h1)"
    unfolding h0_def h1_def by (rule ucast_half_words)
  note ex = exec_move_words32 [of 0, OF _ assms, simplified]
    exec_move_words32 [of 1, OF _ assms, simplified]
    exec_move_words [of 0, OF _ assms, simplified] exec_move_words [of 1, OF _ assms, simplified]
  have m: "(0xFFFF :: u16) = - 1" by simp
  have n1: "take_bit 32 (NOT (ucast (NOT (h0 :: u16)))) =
      (ucast h0 OR push_bit 16 (ucast (- 1 :: u16)) :: u64)"
    by (rule bit_word_eqI) (auto simp: bit_simps dest: bit_imp_le_length)
  have n2: "take_bit 32 (NOT (push_bit 16 (ucast (NOT (h1 :: u16))))) =
      (ucast (- 1 :: u16) OR push_bit 16 (ucast h1) :: u64)"
    by (rule bit_word_eqI) (auto simp: bit_simps dest: bit_imp_le_length)
  have seq: "encode_mov_sequence32 v rd True =
    (if h1 = 0 then [move_word 0xD2800000 0 h0 rd]
     else if h1 = - 1 then [move_word 0x12800000 0 (NOT h0) rd]
     else if h0 = 0 then [move_word 0xD2800000 1 h1 rd]
     else if h0 = - 1 then [move_word 0x12800000 1 (NOT h1) rd]
     else [move_word 0xD2800000 0 h0 rd, move_word 0x72800000 1 h1 rd])"
    unfolding h0_def h1_def encode_mov_sequence32_def Let_def half_word_tests m
    unfolding field_half_words [of v]
    by (simp add: move_word_def)
  have "exec_insns (encode_mov_sequence32 v rd True) r =
      Some (r(rd := ucast h0 OR push_bit 16 (ucast h1)))"
  proof (cases "h1 = 0 \<or> h1 = - 1 \<or> h0 = 0 \<or> h0 = - 1")
    case True
    with n1 n2 show ?thesis by (auto simp: seq ex)
  next
    case False
    then show ?thesis using mov_imm_w_exec_cases(4) [OF assms] by (simp only: seq) simp
  qed
  then show ?thesis by (simp only: v)
qed


text \<open>The half word the two loops of \<open>encode_mov_sequence64\<close> look at in round \<open>k\<close>.\<close>

lemma half_word_source64:
  "ucast (drop_bit (16 * k) v AND 0xFFFF) = (ucast (half_word k v) :: u32)"
proof -
  have m: "(0xFFFF :: u64) = mask 16" by (simp add: mask_eq_exp_minus_1)
  show ?thesis
    unfolding m by (rule bit_word_eqI) (auto simp: half_word_def bit_simps dest: bit_imp_le_length)
qed

lemma drop_half_word: "drop_bit 16 (drop_bit (16 * k) v) = drop_bit (16 * Suc k) v"
  by simp

lemma ucast_half_word_eq:
  "(ucast (h :: u16) :: u32) = 0 \<longleftrightarrow> h = 0" "(ucast (h :: u16) :: u32) = 0xFFFF \<longleftrightarrow> h = 0xFFFF"
  using ucast_half_inject(1) [where h = h and h' = 0] ucast_half_inject(1) [where h = h and h' = "0xFFFF"]
  by simp_all

lemma movz_sequence64_exec:
  assumes "rd < 31" and "k \<le> 4"
    and "if inited then r rd = take_bit (16 * k) v else take_bit (16 * k) v = 0"
    and "inited \<or> v \<noteq> 0"
  shows "exec_insns (movz_sequence64 [k..<4] (if inited then 0xF2800000 else 0xD2800000)
      (drop_bit (16 * k) v) rd) r = Some (r(rd := v))"
  using assms(2-4)
proof (induction "4 - k" arbitrary: k inited r)
  case 0
  then have "k = 4" by simp
  with "0.prems" show ?case
    by (cases inited) (auto simp: take_bit_all64 [simplified] fun_eq_iff)
next
  case (Suc n)
  then have k: "k < 4" by simp
  then have upt: "[k..<4] = k # [Suc k..<4]" by (simp add: upt_rec)
  note IH = Suc.hyps(1) [of "Suc k"]
  show ?case
  proof (cases "half_word k v = 0")
    case True
    then have "if inited then r rd = take_bit (16 * Suc k) v else take_bit (16 * Suc k) v = 0"
      using Suc.prems(2) take_bit_half_word_0 [of k v] by (simp only: split: if_splits)
    with IH [of inited r] Suc.hyps(2) Suc.prems(3) k True show ?thesis
      by (simp add: upt half_word_source64 Let_def drop_half_word ucast_half_word_eq del: drop_bit_drop_bit)
  next
    case False
    define w where "w = move_word (if inited then 0xF2800000 else 0xD2800000) k (half_word k v) rd"
    define r1 where "r1 = r(rd := take_bit (16 * Suc k) v)"
    have exec: "exec_insn w r = Some r1"
      using Suc.prems(2) exec_move_words [OF k assms(1)] movk_half_word [of k v]
        take_bit_half_word [of k v]
      by (cases inited) (simp_all only: w_def r1_def if_True if_False or.left_neutral)
    have step: "movz_sequence64 [k..<4] (if inited then 0xF2800000 else 0xD2800000)
        (drop_bit (16 * k) v) rd =
        w # movz_sequence64 [Suc k..<4] 0xF2800000 (drop_bit (16 * Suc k) v) rd"
      using False
      by (simp add: upt half_word_source64 Let_def ucast_half_word_eq w_def move_word_def
          drop_half_word del: drop_bit_drop_bit)
    have "exec_insns (movz_sequence64 [Suc k..<4] 0xF2800000 (drop_bit (16 * Suc k) v) rd) r1 =
        Some (r1(rd := v))"
      using IH [of True r1] Suc.hyps(2) k by (simp add: r1_def)
    then show ?thesis
      unfolding step using exec by (simp add: r1_def del: movz_sequence64.simps)
  qed
qed

text \<open>The \<open>movn\<close> loop keeps ones above the half words it has seen.\<close>

definition ones_above :: "nat \<Rightarrow> u64 \<Rightarrow> u64" where
  "ones_above p v = take_bit p v OR NOT (mask p)"

lemma ones_above_movn:
  assumes "take_bit (16 * k) v = mask (16 * k)"
  shows "NOT (push_bit (16 * k) (ucast (NOT (half_word k v)))) = ones_above (16 * Suc k) v"
proof (rule bit_word_eqI)
  fix n assume "n < LENGTH(64)"
  then have n: "n < 64" by simp
  have low: "n < 16 * k \<Longrightarrow> bit v n"
  proof -
    assume "n < 16 * k"
    moreover have "bit (take_bit (16 * k) v) n = bit (mask (16 * k) :: u64) n" by (simp only: assms)
    ultimately show ?thesis using n by (simp add: bit_simps)
  qed
  consider "n < 16 * k" | "16 * k \<le> n" "n - 16 * k < 16" "n < 16 * k + 16"
    | "16 * k + 16 \<le> n" "\<not> n - 16 * k < 16" "\<not> n < 16 * k" by linarith
  then show "bit (NOT (push_bit (16 * k) (ucast (NOT (half_word k v))) :: u64)) n =
      bit (ones_above (16 * Suc k) v) n"
    using n low by cases (auto simp: ones_above_def half_word_def bit_simps)
qed

lemma ones_above_movk:
  "(ones_above (16 * k) v AND NOT (push_bit (16 * k) 0xFFFF)) OR
     push_bit (16 * k) (ucast (half_word k v)) = ones_above (16 * Suc k) v"
proof -
  have m: "(0xFFFF :: u64) = mask 16" by (simp add: mask_eq_exp_minus_1)
  show ?thesis
    unfolding m
  proof (rule bit_word_eqI)
    fix n assume "n < LENGTH(64)"
    then have n: "n < 64" by simp
    consider "n < 16 * k" | "16 * k \<le> n" "n - 16 * k < 16" "n < 16 * k + 16"
      | "16 * k + 16 \<le> n" "\<not> n - 16 * k < 16" "\<not> n < 16 * k" by linarith
    then show "bit ((ones_above (16 * k) v AND NOT (push_bit (16 * k) (mask 16))) OR
        push_bit (16 * k) (ucast (half_word k v))) n = bit (ones_above (16 * Suc k) v) n"
      using n by cases (auto simp: ones_above_def half_word_def bit_simps)
  qed
qed

lemma half_word_ones:
  assumes "half_word k v = 0xFFFF"
  shows "ones_above (16 * Suc k) v = ones_above (16 * k) v"
    and "take_bit (16 * k) v = mask (16 * k) \<Longrightarrow> take_bit (16 * Suc k) v = mask (16 * Suc k)"
proof -
  have m: "(0xFFFF :: u16) = - 1" by simp
  have b: "bit v (16 * k + i)" if "i < 16" "16 * k + i < 64" for i
  proof -
    have "bit (half_word k v) i" using that by (simp only: assms m) simp
    then show ?thesis by (simp add: half_word_def bit_simps)
  qed
  have b': "bit v n" if "16 * k \<le> n" "n < 16 * k + 16" "n < 64" for n
    using b [of "n - 16 * k"] that by simp
  show "ones_above (16 * Suc k) v = ones_above (16 * k) v"
    by (rule bit_word_eqI) (auto simp: ones_above_def bit_simps intro: b')
  assume "take_bit (16 * k) v = mask (16 * k)"
  then have "bit v n" if "n < 16 * k" "n < 64" for n
    using that by (auto simp: bit_eq_iff bit_simps)
  with b' show "take_bit (16 * Suc k) v = mask (16 * Suc k)"
    by (intro bit_word_eqI) (auto simp: bit_simps, metis add.commute not_less)
qed

lemma movn_word_field: "(ucast h :: u32) XOR 0xFFFF = ucast (NOT (h :: u16))"
proof -
  have m: "(0xFFFF :: u32) = mask 16" by (simp add: mask_eq_exp_minus_1)
  show ?thesis
    unfolding m by (rule bit_word_eqI) (auto simp: bit_simps dest: bit_imp_le_length)
qed

lemma movn_sequence64_exec:
  assumes "rd < 31" and "k \<le> 4"
    and "if inited then r rd = ones_above (16 * k) v else take_bit (16 * k) v = mask (16 * k)"
    and "inited \<or> v \<noteq> - 1"
  shows "exec_insns (movn_sequence64 [k..<4] (if inited then 0xF2800000 else 0x92800000)
      (if inited then 0 else 0xFFFF) (drop_bit (16 * k) v) rd) r = Some (r(rd := v))"
  using assms(2-4)
proof (induction "4 - k" arbitrary: k inited r)
  case 0
  then have k: "k = 4" by simp
  have "(mask 64 :: u64) = - 1" by (rule bit_word_eqI) (simp add: bit_simps)
  with k "0.prems" show ?case
    by (cases inited) (auto simp: take_bit_all64 [simplified] ones_above_def fun_eq_iff)
next
  case (Suc n)
  then have k: "k < 4" by simp
  then have upt: "[k..<4] = k # [Suc k..<4]" by (simp add: upt_rec)
  note IH = Suc.hyps(1) [of "Suc k"]
  show ?case
  proof (cases "half_word k v = 0xFFFF")
    case True
    then have "if inited then r rd = ones_above (16 * Suc k) v
        else take_bit (16 * Suc k) v = mask (16 * Suc k)"
      using Suc.prems(2) half_word_ones [OF True] by (cases inited) simp_all
    with IH [of inited r] Suc.hyps(2) Suc.prems(3) k True show ?thesis
      by (simp add: upt half_word_source64 Let_def drop_half_word ucast_half_word_eq del: drop_bit_drop_bit)
  next
    case False
    define h where "h = (if inited then half_word k v else NOT (half_word k v))"
    define w where "w = move_word (if inited then 0xF2800000 else 0x92800000) k h rd"
    define r1 where "r1 = r(rd := ones_above (16 * Suc k) v)"
    have exec: "exec_insn w r = Some r1"
      using Suc.prems(2) exec_move_words [OF k assms(1)] ones_above_movk [of k v]
        ones_above_movn [of k v]
      by (cases inited) (simp_all only: w_def h_def r1_def if_True if_False)
    have step: "movn_sequence64 [k..<4] (if inited then 0xF2800000 else 0x92800000)
        (if inited then 0 else 0xFFFF) (drop_bit (16 * k) v) rd =
        w # movn_sequence64 [Suc k..<4] 0xF2800000 0 (drop_bit (16 * Suc k) v) rd"
      using False
      by (cases inited)
        (simp_all add: upt half_word_source64 Let_def ucast_half_word_eq w_def h_def move_word_def
          drop_half_word movn_word_field del: drop_bit_drop_bit)
    have "exec_insns (movn_sequence64 [Suc k..<4] 0xF2800000 0 (drop_bit (16 * Suc k) v) rd) r1 =
        Some (r1(rd := v))"
      using IH [of True r1] Suc.hyps(2) k by (simp add: r1_def)
    then show ?thesis
      unfolding step using exec by (simp add: r1_def del: movn_sequence64.simps)
  qed
qed

lemma movn_sequence64_nonempty:
  assumes "k \<le> 4" and "take_bit (16 * k) v = mask (16 * k)" and "v \<noteq> - 1"
  shows "movn_sequence64 [k..<4] c m (drop_bit (16 * k) v) rd \<noteq> []"
  using assms
proof (induction "4 - k" arbitrary: k)
  case 0
  have "(mask 64 :: u64) = - 1" by (rule bit_word_eqI) (simp add: bit_simps)
  with 0 show ?case by (simp add: take_bit_all64 [simplified])
next
  case (Suc n)
  then have "[k..<4] = k # [Suc k..<4]" by (simp add: upt_rec)
  with Suc.prems Suc.hyps(2) Suc.hyps(1) [of "Suc k"] half_word_ones(2) [of k v] show ?case
    by (simp add: half_word_source64 Let_def ucast_half_word_eq drop_half_word
        del: drop_bit_drop_bit mult_Suc_right)
qed

lemma movn_sequence64_ones:
  assumes "\<And>i. i < 4 \<Longrightarrow> half_word i v = 0xFFFF"
  shows "movn_sequence64 [k..<4] c m (drop_bit (16 * k) v) rd = []"
proof (induction "4 - k" arbitrary: k)
  case 0
  then show ?case by simp
next
  case (Suc n)
  then have k: "k < 4" by simp
  then have "[k..<4] = k # [Suc k..<4]" by (simp add: upt_rec)
  moreover have "(ucast (half_word k v) :: u32) = 0xFFFF" by (simp add: assms [OF k])
  ultimately show ?case using Suc.hyps(1) [of "Suc k"] Suc.hyps(2)
    by (simp add: half_word_source64 Let_def drop_half_word del: drop_bit_drop_bit mult_Suc_right)
qed

lemma half_word_minus_one: "i < 4 \<Longrightarrow> half_word i (- 1) = 0xFFFF"
proof -
  assume "i < 4"
  then have "half_word i (- 1) = - 1"
    by (intro bit_word_eqI) (auto simp: half_word_def bit_simps)
  then show ?thesis by simp
qed

lemma upt4: "[0, 1, 2, 3] = [0..<4 :: nat]"
  by (simp add: upt_rec)

lemma encode_mov_sequence64_exec:
  assumes "rd < 31"
  shows "exec_insns (encode_mov_sequence64 v rd True) r = Some (r(rd := v))"
proof (cases "v \<le> 0xFFFFFFFF")
  case True
  then have "v < 2 ^ 32" by (simp add: word_less_nat_alt word_le_nat_alt)
  then have v: "v AND mask 32 = v" by (rule less_mask_eq)
  have "ucast (ucast v :: u32) = v AND mask 32"
    by (rule bit_word_eqI) (auto simp: bit_simps)
  with True v encode_mov_sequence32_exec [OF assms, of "ucast v" r] show ?thesis
    by (simp add: encode_mov_sequence64_def)
next
  case False
  then have nz: "v \<noteq> 0" by auto
  have z: "exec_insns (movz_sequence64 [0, 1, 2, 3] 0xD2800000 v rd) r = Some (r(rd := v))"
    using movz_sequence64_exec [OF assms, of 0 False r v] nz unfolding upt4 by simp
  show ?thesis
  proof (cases "v = - 1")
    case True
    have "movn_sequence64 [0, 1, 2, 3] 0x92800000 0xFFFF v rd = []"
      using movn_sequence64_ones [of v 0] half_word_minus_one True unfolding upt4 by simp
    moreover have "exec_insns [0x92800000 OR push_bit 5 (0xFFFF XOR 0xFFFF) OR rd] r = Some (r(rd := v))"
      using exec_move_words(2) [where hw = 0 and imm = 0 and rd = rd and r = r] assms True by (simp add: move_word_def)
    ultimately show ?thesis using z False
      unfolding encode_mov_sequence64_def Let_def by (simp only: if_False split: if_splits) simp
  next
    case ones: False
    have n: "exec_insns (movn_sequence64 [0, 1, 2, 3] 0x92800000 0xFFFF v rd) r = Some (r(rd := v))"
      using movn_sequence64_exec [OF assms, of 0 False r v] ones unfolding upt4 by simp
    have "movn_sequence64 [0, 1, 2, 3] 0x92800000 0xFFFF v rd \<noteq> []"
      using movn_sequence64_nonempty [of 0 v] ones unfolding upt4 by simp
    with n z False show ?thesis
      unfolding encode_mov_sequence64_def Let_def by (simp only: if_False split: if_splits) simp
  qed
qed


section \<open>Logical immediates\<close>

lemma push_bit_mask: "push_bit n 1 - 1 = (mask n :: u64)" "2 ^ n - 1 = (mask n :: u64)"
  by (simp_all add: mask_eq_exp_minus_1 push_bit_eq_mult)

text \<open>A value that repeats its lowest \<open>sz\<close> bits.\<close>

definition repeats :: "nat \<Rightarrow> u64 \<Rightarrow> bool" where
  "repeats sz v \<longleftrightarrow> (\<forall>i < 64. bit v i \<longleftrightarrow> bit v (i mod sz))"

definition element_sizes :: "nat set" where
  "element_sizes = {2, 4, 8, 16, 32, 64}"

lemma repeats_half:
  assumes "repeats (2 * h) v" and "0 < h" and "2 * h \<le> 64"
    and "v AND mask h = drop_bit h v AND mask h"
  shows "repeats h v"
proof -
  have halves: "bit v j \<longleftrightarrow> bit v (h + j)" if "j < h" for j
  proof -
    have "bit (v AND mask h) j \<longleftrightarrow> bit (drop_bit h v AND mask h) j" by (simp only: assms(4))
    then show ?thesis using that assms(3) by (simp add: bit_simps)
  qed
  show ?thesis
    unfolding repeats_def
  proof (intro allI impI)
    fix i :: nat assume "i < 64"
    define j where "j = i mod (2 * h)"
    have j: "j < 2 * h" using assms(2) by (simp add: j_def)
    have "i mod h = j mod h" by (simp add: j_def mod_mod_cancel)
    moreover have "bit v i \<longleftrightarrow> bit v j" using assms(1) \<open>i < 64\<close> by (simp add: repeats_def j_def)
    moreover have "bit v j \<longleftrightarrow> bit v (j mod h)"
    proof (cases "j < h")
      case False
      then have "j mod h = j - h" using j by (simp add: le_mod_geq)
      with halves [of "j - h"] False j show ?thesis by simp
    qed simp
    ultimately show "bit v i \<longleftrightarrow> bit v (i mod h)" by simp
  qed
qed

lemma element_size_repeats:
  assumes "sz \<in> element_sizes" and "repeats sz v"
  shows "element_size v sz \<in> element_sizes \<and> repeats (element_size v sz) v"
  using assms
proof (induction v sz rule: element_size.induct)
  case (1 imm sz)
  have sz: "sz = 2 \<or> sz = 4 \<or> sz = 8 \<or> sz = 16 \<or> sz = 32 \<or> sz = 64"
    using "1.prems"(1) by (auto simp: element_sizes_def)
  define h where "h = sz div 2"
  have h: "2 * h = sz" "h \<noteq> 64" "0 < h" using sz by (auto simp: h_def)
  show ?case
  proof (cases "sz > 2 \<and> imm AND mask h = drop_bit h imm AND mask h")
    case True
    then have "element_size imm sz = element_size imm h"
      using h by (subst element_size.simps) (simp add: Let_def push_bit_mask flip: h_def)
    moreover have "h \<in> element_sizes" using sz True by (auto simp: element_sizes_def h_def)
    moreover have "repeats h imm"
      by (rule repeats_half) (use "1.prems"(2) h sz True in auto)
    ultimately show ?thesis
      using "1.IH" [of h "mask h"] True h
      by (simp add: h_def push_bit_mask)
  next
    case False
    then have "element_size imm sz = sz"
      using h by (subst element_size.simps) (auto simp: Let_def push_bit_mask simp flip: h_def)
    with "1.prems" show ?thesis by simp
  qed
qed

lemma repeats_64: "repeats 64 v"
  by (simp add: repeats_def)

lemma bit_ror_element:
  assumes "take_bit sz e = e" and "r < sz" and "sz \<le> 64"
  shows "bit (ror_element sz r e) i \<longleftrightarrow> i < sz \<and> bit e ((i + r) mod sz)"
proof (cases "i < sz")
  case True
  have small: "bit e n \<Longrightarrow> n < sz" for n
    using assms(1) by (metis bit_take_bit_iff)
  show ?thesis
  proof (cases "i + r < sz")
    case True
    with \<open>i < sz\<close> assms small show ?thesis
      by (auto simp: ror_element_def bit_simps add.commute)
  next
    case False
    then have "(i + r) mod sz = i + r - sz" using \<open>i < sz\<close> assms by (simp add: mod_if)
    with False \<open>i < sz\<close> assms small [of "i + r"] show ?thesis
      by (auto simp: ror_element_def bit_simps add.commute)
  qed
qed (simp add: ror_element_def bit_simps)

lemma rotate_right_in_size_eq:
  assumes "take_bit sz e = e" and "r < sz" and "sz \<le> 64"
  shows "rotate_right_in_size e r sz = ror_element sz r e"
proof -
  have m: "(- 1 :: u64) = mask 64" by (rule bit_word_eqI) (simp add: bit_simps)
  show ?thesis
  proof (cases "r = 0")
    case True
    have "ror_element sz 0 e = e"
      using assms by (intro bit_word_eqI) (auto simp: bit_ror_element mod_if, metis bit_take_bit_iff)
    with True show ?thesis by (simp add: rotate_right_in_size_def)
  next
    case False
    then show ?thesis
      using m by (simp add: rotate_right_in_size_def ror_element_def push_bit_mask take_bit_eq_mask)
  qed
qed

text \<open>Rotating the run of ones back gives the element.\<close>

lemma ror_element_inverse:
  assumes "take_bit sz e = e" and "rot < sz" and "sz \<le> 64"
    and "ror_element sz rot e = mask ones" and "ones \<le> sz"
  shows "ror_element sz ((sz - rot) mod sz) (mask ones) = e"
proof (rule bit_word_eqI)
  fix i assume "i < LENGTH(64)"
  have m: "take_bit sz (mask ones :: u64) = mask ones"
    using assms(5) by (intro bit_word_eqI) (auto simp: bit_simps)
  have lt: "(sz - rot) mod sz < sz" using assms(2) by simp
  have idx: "((i + (sz - rot) mod sz) mod sz + rot) mod sz = i" if "i < sz"
  proof -
    have "((i + (sz - rot) mod sz) mod sz + rot) mod sz = (i + (sz - rot) + rot) mod sz"
      by (simp add: mod_simps)
    also have "\<dots> = i" using that assms(2) by simp
    finally show ?thesis .
  qed
  show "bit (ror_element sz ((sz - rot) mod sz) (mask ones)) i = bit e i"
  proof (cases "i < sz")
    case True
    let ?j = "(i + (sz - rot) mod sz) mod sz"
    have "?j < sz" using assms(2) by simp
    have "bit (ror_element sz ((sz - rot) mod sz) (mask ones)) i \<longleftrightarrow> bit (mask ones :: u64) ?j"
      using True by (simp only: bit_ror_element [OF m lt assms(3)] simp_thms)
    also have "\<dots> \<longleftrightarrow> bit (ror_element sz rot e) ?j" by (simp only: assms(4))
    also have "\<dots> \<longleftrightarrow> bit e i"
      using \<open>?j < sz\<close> idx [OF True] by (simp only: bit_ror_element [OF assms(1-3)] simp_thms)
    finally show ?thesis .
  next
    case False
    then have "\<not> bit e i" using assms(1) by (metis bit_take_bit_iff)
    with False show ?thesis by (simp only: bit_ror_element [OF m lt assms(3)] simp_thms)
  qed
qed

lemma bit_replicate_aux:
  "bit (foldr (\<lambda>k acc. push_bit (sz * k) e OR acc) ks (0 :: u64)) i \<longleftrightarrow>
    i < 64 \<and> (\<exists>k \<in> set ks. sz * k \<le> i \<and> bit e (i - sz * k))"
  by (induction ks) (auto simp: bit_simps)

lemma bit_replicate_element:
  assumes "take_bit sz e = e" and "sz \<in> element_sizes"
  shows "bit (replicate_element sz e) i \<longleftrightarrow> i < 64 \<and> bit e (i mod sz)"
proof -
  have sz: "0 < sz" "sz * (64 div sz) = 64" using assms(2) by (auto simp: element_sizes_def)
  have small: "bit e n \<Longrightarrow> n < sz" for n using assms(1) by (metis bit_take_bit_iff)
  have "(\<exists>k \<in> set [0..<64 div sz]. sz * k \<le> i \<and> bit e (i - sz * k)) \<longleftrightarrow> bit e (i mod sz)"
    if "i < 64"
  proof
    assume "\<exists>k \<in> set [0..<64 div sz]. sz * k \<le> i \<and> bit e (i - sz * k)"
    then obtain k where k: "sz * k \<le> i" "bit e (i - sz * k)" by blast
    have "i mod sz = (i - sz * k + sz * k) mod sz" using k(1) by simp
    also have "\<dots> = (i - sz * k) mod sz" by (simp only: mod_mult_self2)
    also have "\<dots> = i - sz * k" using small [OF k(2)] by simp
    finally show "bit e (i mod sz)" using k by simp
  next
    assume "bit e (i mod sz)"
    moreover have "i div sz < 64 div sz"
      using that sz by (metis div_less_iff_less_mult mult.commute)
    moreover have "i - sz * (i div sz) = i mod sz" by (simp add: minus_mult_div_eq_mod)
    ultimately show "\<exists>k \<in> set [0..<64 div sz]. sz * k \<le> i \<and> bit e (i - sz * k)"
      by (intro bexI [of _ "i div sz"]) simp_all
  qed
  then show ?thesis by (auto simp: replicate_element_def bit_replicate_aux)
qed

text \<open>The size and the length of the run, as \<open>n\<close> and \<open>imms\<close> say them: every case is evaluated.\<close>

definition imms_field :: "nat \<Rightarrow> nat \<Rightarrow> u32" where
  "imms_field sz ones = (NOT (of_nat (sz * 2 - 1)) AND 0x3F) OR of_nat (ones - 1)"

definition size_fields_ok :: "nat \<Rightarrow> nat \<Rightarrow> bool" where
  "size_fields_ok len ones \<longleftrightarrow>
     (let sz = 2 ^ len; n = (if sz = 64 then 1 else 0) :: u32; imms = imms_field sz ones in
      highest_bit (push_bit 6 n OR (NOT imms AND 0x3F)) = Some len \<and>
      unat (imms AND of_nat (sz - 1)) + 1 = ones \<and> imms AND 0x3F = imms)"

lemma size_fields_all: "\<forall>len \<in> set [1..<7]. \<forall>ones \<in> set [1..<2 ^ len]. size_fields_ok len ones"
  by code_simp

lemma count_ones_le: "take_bit sz e = e \<Longrightarrow> sz \<le> 64 \<Longrightarrow> count_ones e \<le> sz"
proof -
  assume e: "take_bit sz e = e" and sz: "sz \<le> 64"
  have "count_ones e = card {i. i < 64 \<and> bit e i}"
    by (simp add: count_ones_def length_filter_conv_card) (rule arg_cong [of _ _ card], auto)
  also have "\<dots> \<le> card {..<sz}"
    by (rule card_mono) (use e in \<open>auto simp: bit_take_bit_iff dest!: arg_cong [of _ _ "\<lambda>x. bit x _"], metis bit_take_bit_iff\<close>)
  finally show ?thesis by simp
qed


lemma element_mask: "(if sz = 64 then - 1 else push_bit sz 1 - 1) = (mask sz :: u64)"
proof -
  have "(- 1 :: u64) = mask 64" by (rule bit_word_eqI) (simp add: bit_simps)
  then show ?thesis by (simp add: push_bit_mask)
qed

lemma encode_logical_imm64_eq:
  "encode_logical_imm64 v =
    (if v = 0 \<or> v = - 1 then None
     else let sz = element_size v 64; elem = take_bit sz v; ones = count_ones elem in
       if ones = 0 \<or> ones = sz then None
       else map_option
         (\<lambda>rot. (if sz = 64 then 1 else 0, of_nat ((sz - rot) mod sz), imms_field sz ones))
         (List.find (\<lambda>r. rotate_right_in_size elem r sz = mask ones) [0..<sz]))"
  unfolding encode_logical_imm64_def Let_def element_mask
  unfolding push_bit_mask imms_field_def
  by (auto simp: take_bit_eq_mask split: option.splits)

lemma encode_logical_imm64_Some:
  assumes "encode_logical_imm64 v = Some (n, immr, imms)"
  obtains sz rot ones where "sz = element_size v 64" "rot < sz" "ones = count_ones (take_bit sz v)"
    "ones \<noteq> 0" "ones \<noteq> sz" "rotate_right_in_size (take_bit sz v) rot sz = mask ones"
    "n = (if sz = 64 then 1 else 0)" "immr = of_nat ((sz - rot) mod sz)" "imms = imms_field sz ones"
  using assms
  by (auto simp: encode_logical_imm64_eq Let_def find_Some_iff split: if_splits)

lemma element_size_cases:
  obtains len where "len \<in> {1..<7}" "element_size v 64 = 2 ^ len" "repeats (element_size v 64) v"
proof -
  have "element_size v 64 \<in> element_sizes \<and> repeats (element_size v 64) v"
    by (rule element_size_repeats) (simp_all add: element_sizes_def repeats_64)
  moreover have "\<exists>len \<in> {1..<7}. sz = 2 ^ len" if "sz \<in> element_sizes" for sz
    using that by (auto simp: element_sizes_def intro: bexI [of _ 1] bexI [of _ 2] bexI [of _ 3]
        bexI [of _ 4] bexI [of _ 5] bexI [of _ 6])
  ultimately show thesis using that by blast
qed

lemma of_nat_and_size:
  assumes "m < 2 ^ len" and "len < 7"
  shows "unat ((of_nat m :: u32) AND of_nat (2 ^ len - 1)) = m"
proof -
  have "(2 :: nat) ^ len \<le> 2 ^ 6" using assms(2) by (intro power_increasing) auto
  then have m: "m < 64" using assms(1) by simp
  have "(of_nat (2 ^ len - 1) :: u32) = mask len"
    by (simp add: mask_eq_exp_minus_1 of_nat_diff)
  moreover have "len = 0 \<or> len = 1 \<or> len = 2 \<or> len = 3 \<or> len = 4 \<or> len = 5 \<or> len = 6"
    using assms(2) by auto
  then have "(of_nat m :: u32) < 2 ^ len"
    using assms(1) take_bit_nat_eq_self [of m 32] m
    by (auto simp: word_less_nat_alt unsigned_of_nat)
  ultimately have "(of_nat m :: u32) AND of_nat (2 ^ len - 1) = of_nat m"
    by (simp add: less_mask_eq)
  with m show ?thesis by (simp add: unsigned_of_nat take_bit_nat_eq_self_iff)
qed

lemma encode_logical_imm64_sound:
  assumes "encode_logical_imm64 v = Some (n, immr, imms)"
  shows "decode_logical_imm64 n immr imms = Some v"
    and "n \<le> 1" "immr AND 0x3F = immr" "imms AND 0x3F = imms"
proof -
  from assms obtain sz rot ones where sz: "sz = element_size v 64" and rot: "rot < sz"
    and ones: "ones = count_ones (take_bit sz v)" "ones \<noteq> 0" "ones \<noteq> sz"
    and run: "rotate_right_in_size (take_bit sz v) rot sz = mask ones"
    and n: "n = (if sz = 64 then 1 else 0)" and immr: "immr = of_nat ((sz - rot) mod sz)"
    and imms: "imms = imms_field sz ones"
    by (rule encode_logical_imm64_Some)
  obtain len where len: "len \<in> {1..<7}" "sz = 2 ^ len" and rep: "repeats sz v"
    using element_size_cases [of v] sz by metis
  have "sz \<le> 2 ^ 6" using len power_increasing [of len 6 "2 :: nat"] by simp
  then have sz64: "sz \<le> 64" by simp
  have sizes: "sz \<in> element_sizes"
    using element_size_repeats [of 64 v] repeats_64 sz by (simp add: element_sizes_def)
  let ?e = "take_bit sz v"
  have e: "take_bit sz ?e = ?e" by simp
  have le: "ones < sz" using count_ones_le [OF e sz64] ones by simp
  have fields: "size_fields_ok len ones"
    using size_fields_all len ones(2) le by simp
  have "ror_element sz rot ?e = mask ones"
    using run by (simp only: rotate_right_in_size_eq [OF e rot sz64])
  then have ror_back: "ror_element sz ((sz - rot) mod sz) (mask ones) = ?e"
    using ror_element_inverse [OF e rot sz64] le by simp
  have "replicate_element sz ?e = v"
    by (rule bit_word_eqI)
      (use rep sz64 rot in \<open>auto simp: bit_replicate_element [OF e sizes] repeats_def bit_simps\<close>)
  moreover have "unat (immr AND of_nat (sz - 1)) = (sz - rot) mod sz"
    unfolding immr len(2) using len by (intro of_nat_and_size) simp_all
  ultimately show "decode_logical_imm64 n immr imms = Some v"
    using fields ror_back le len(2)
    by (simp add: decode_logical_imm64_def size_fields_ok_def Let_def n imms)
  show "n \<le> 1" by (simp add: n)
  show "imms AND 0x3F = imms"
    using fields len(2) by (simp add: size_fields_ok_def Let_def imms)
  have "(sz - rot) mod sz < sz" using rot by (intro mod_less_divisor) simp
  then have "(sz - rot) mod sz < 64" using sz64 by simp
  then have "immr < 2 ^ 6"
    unfolding immr
    using take_bit_nat_eq_self [of "(sz - rot) mod sz" 32]
    by (simp add: word_less_nat_alt unsigned_of_nat)
  then have "immr AND mask 6 = immr" by (rule less_mask_eq)
  then show "immr AND 0x3F = immr" by (simp add: mask_eq_exp_minus_1)
qed

section \<open>The logical-immediate move\<close>

definition logical_word :: "u32 \<Rightarrow> u32 \<Rightarrow> u32 \<Rightarrow> u32 \<Rightarrow> u32 \<Rightarrow> u32 \<Rightarrow> u32" where
  "logical_word base n immr imms rn rd =
     base OR push_bit 22 n OR push_bit 16 immr OR push_bit 10 imms OR push_bit 5 rn OR rd"

lemma and_mask_bit: "x AND m = x \<Longrightarrow> bit x i \<Longrightarrow> bit (m :: u32) i"
  by (metis bit_and_iff)

lemma logical_word_bits:
  assumes "base AND mask 23 = 0" and "n AND mask 1 = n" and "immr AND mask 6 = immr"
    and "imms AND mask 6 = imms" and "rn AND mask 5 = rn" and "rd AND mask 5 = rd"
  shows "bit (logical_word base n immr imms rn rd) i \<longleftrightarrow>
    i < 32 \<and> (if i < 5 then bit rd i
     else if i < 10 then bit rn (i - 5)
     else if i < 16 then bit imms (i - 10)
     else if i < 22 then bit immr (i - 16)
     else if i < 23 then bit n (i - 22)
     else bit base i)"
proof -
  have b: "bit base i \<Longrightarrow> 23 \<le> i"
    using assms(1) by (metis bit_and_iff bit_mask_iff bit_0_eq bot_apply not_le bit_imp_le_length
        possible_bit_word bot_bool_def)
  have f: "bit n j \<Longrightarrow> j < 1" "bit immr j \<Longrightarrow> j < 6" "bit imms j \<Longrightarrow> j < 6"
    "bit rn j \<Longrightarrow> j < 5" "bit rd j \<Longrightarrow> j < 5" for j
    using and_mask_bit [OF assms(2), of j] and_mask_bit [OF assms(3), of j]
      and_mask_bit [OF assms(4), of j] and_mask_bit [OF assms(5), of j]
      and_mask_bit [OF assms(6), of j] by (simp_all add: bit_simps)
  show ?thesis
    using b f(1) [of "i - 22"] f(2) [of "i - 16"] f(3) [of "i - 10"] f(4) [of "i - 5"] f(5) [of i]
    by (auto simp: logical_word_def bit_simps dest: bit_imp_le_length)
qed

lemma logical_word_fields:
  assumes "base AND mask 23 = 0" and "n AND mask 1 = n" and "immr AND mask 6 = immr"
    and "imms AND mask 6 = imms" and "rn AND mask 5 = rn" and "rd AND mask 5 = rd"
  shows "logical_word base n immr imms rn rd AND mask 5 = rd"
    and "drop_bit 5 (logical_word base n immr imms rn rd) AND mask 5 = rn"
    and "drop_bit 10 (logical_word base n immr imms rn rd) AND mask 6 = imms"
    and "drop_bit 16 (logical_word base n immr imms rn rd) AND mask 6 = immr"
    and "drop_bit 22 (logical_word base n immr imms rn rd) AND mask 1 = n"
    and "logical_word base n immr imms rn rd AND push_bit 23 (mask 8) = base AND push_bit 23 (mask 8)"
    and "bit (logical_word base n immr imms rn rd) 31 \<longleftrightarrow> bit base 31"
proof -
  note bits = logical_word_bits [OF assms]
  have f: "bit n j \<Longrightarrow> j < 1" "bit immr j \<Longrightarrow> j < 6" "bit imms j \<Longrightarrow> j < 6"
    "bit rn j \<Longrightarrow> j < 5" "bit rd j \<Longrightarrow> j < 5" for j
    using and_mask_bit [OF assms(2), of j] and_mask_bit [OF assms(3), of j]
      and_mask_bit [OF assms(4), of j] and_mask_bit [OF assms(5), of j]
      and_mask_bit [OF assms(6), of j] by (simp_all add: bit_simps)
  show "logical_word base n immr imms rn rd AND mask 5 = rd"
    by (rule bit_word_eqI) (use f in \<open>auto simp: bits bit_simps\<close>)
  show "drop_bit 5 (logical_word base n immr imms rn rd) AND mask 5 = rn"
    by (rule bit_word_eqI) (use f in \<open>auto simp: bits bit_simps\<close>)
  show "drop_bit 10 (logical_word base n immr imms rn rd) AND mask 6 = imms"
    by (rule bit_word_eqI) (use f in \<open>auto simp: bits bit_simps\<close>)
  show "drop_bit 16 (logical_word base n immr imms rn rd) AND mask 6 = immr"
    by (rule bit_word_eqI) (use f in \<open>auto simp: bits bit_simps\<close>)
  show "drop_bit 22 (logical_word base n immr imms rn rd) AND mask 1 = n"
    by (rule bit_word_eqI) (use f in \<open>auto simp: bits bit_simps\<close>)
  show "logical_word base n immr imms rn rd AND push_bit 23 (mask 8) = base AND push_bit 23 (mask 8)"
    by (rule bit_word_eqI) (auto simp: bits bit_simps)
  show "bit (logical_word base n immr imms rn rd) 31 \<longleftrightarrow> bit base 31"
    by (simp add: bits)
qed

lemma le1_and: "n \<le> (1 :: u32) \<Longrightarrow> n AND mask 1 = n"
proof -
  assume "n \<le> (1 :: u32)"
  then have "n < 2 ^ 1" by (simp add: word_le_nat_alt word_less_nat_alt)
  then show ?thesis by (rule less_mask_eq)
qed

lemma orr_imm_exec:
  assumes enc: "encode_logical_imm64 v = Some (n, immr, imms)" and rd: "rd < 31" and rn: "rn \<le> 31"
  shows "exec_insn (logical_word 0xB2000000 n immr imms rn rd) r =
    Some (r(rd := (if rn = 31 then 0 else r rn) OR v))"
proof -
  note s = encode_logical_imm64_sound [OF enc]
  have m: "(31 :: u32) = mask 5" "(0x3F :: u32) = mask 6" "(1 :: u32) = mask 1"
    "(0x7F800000 :: u32) = push_bit 23 (mask 8)"
    by (simp_all add: mask_eq_exp_minus_1)
  have rd31: "rd AND 31 = rd" "rn AND 31 = rn" "rd \<noteq> 31"
    using rd rn by (auto intro: le31_and)
  have base: "(0xB2000000 :: u32) AND mask 23 = 0" by (simp add: mask_eq_exp_minus_1)
  note f = logical_word_fields [OF base le1_and [OF s(2)] s(3,4) [unfolded m(2)] rd31(2,1) [unfolded m(1)]]
  show ?thesis
    using f rd31(3) s(1)
    unfolding exec_insn_def exec_orr_imm_def is_orr_imm_def insn_is_def Let_def m
    by (simp add: mask_eq_exp_minus_1)
qed

lemma mov_imm_x_asmjit_words:
  assumes "rd < 31"
  shows "\<exists>ws. mov_imm_x_asmjit a rd v = foldl asm_word a ws \<and> exec_insns ws r = Some (r(rd := v))"
proof -
  let ?seq = "encode_mov_sequence64 v rd True"
  have seq: "exec_insns ?seq r = Some (r(rd := v))" by (rule encode_mov_sequence64_exec [OF assms])
  consider "length ?seq = 1" | "length ?seq \<noteq> 1" "encode_logical_imm64 v = None"
    | n immr imms where "length ?seq \<noteq> 1" "encode_logical_imm64 v = Some (n, immr, imms)"
    by (cases "encode_logical_imm64 v") auto
  then show ?thesis
  proof cases
    case 1
    then obtain w where "?seq = [w]" by (auto simp: length_Suc_conv)
    with seq assms show ?thesis
      by (intro exI [of _ "[w]"]) (auto simp: mov_imm_x_asmjit_def SP_def Let_def)
  next
    case 2
    with seq show ?thesis
      by (intro exI [of _ ?seq]) (simp add: mov_imm_x_asmjit_def orr_imm_x_def)
  next
    case 3
    with orr_imm_exec [OF 3(2) assms, of 31 r] assms show ?thesis
      by (intro exI [of _ "[logical_word 0xB2000000 n immr imms 31 rd]"])
        (auto simp: mov_imm_x_asmjit_def orr_imm_x_def logical_word_def ZR_def)
  qed
qed


section \<open>PC-relative addresses\<close>

text \<open>The signed 21-bit immediate of \<open>adr\<close> and \<open>adrp\<close>.\<close>

definition adr_imm :: "u32 \<Rightarrow> int" where
  "adr_imm w = signed_take_bit 20
     (uint (push_bit 2 (drop_bit 5 w AND mask 19) OR (drop_bit 29 w AND mask 2)))"

definition adr_word :: "u32 \<Rightarrow> u32 \<Rightarrow> u32 \<Rightarrow> u32" where
  "adr_word base imm rd = base OR push_bit 29 (imm AND mask 2) OR
     push_bit 5 (drop_bit 2 imm AND mask 19) OR rd"

lemma adr_word_fields:
  assumes "rd AND mask 5 = rd" and "base AND 0x60FFFFFF = 0"
  shows "adr_word base imm rd AND mask 5 = rd"
    and "push_bit 2 (drop_bit 5 (adr_word base imm rd) AND mask 19) OR
      (drop_bit 29 (adr_word base imm rd) AND mask 2) = imm AND mask 21"
    and "adr_word base imm rd AND 0x9F000000 = base AND 0x9F000000"
proof -
  have m: "(0x60FFFFFF :: u32) = mask 24 OR push_bit 29 (mask 2)"
    by (simp_all add: mask_eq_exp_minus_1)
  have m9: "(0x9F000000 :: u32) = push_bit 24 (mask 5) OR push_bit 31 (mask 1)"
    by (simp_all add: mask_eq_exp_minus_1)
  have b9: "bit (0x9F000000 :: u32) i \<longleftrightarrow> 24 \<le> i \<and> i < 29 \<or> i = 31" for i
    unfolding m9 by (simp only: bit_or_iff bit_push_bit_iff bit_mask_iff possible_bit_word) auto
  have b: "bit base i \<Longrightarrow> 24 \<le> i \<and> i \<noteq> 29 \<and> i \<noteq> 30" for i
  proof -
    assume i: "bit base i"
    have "\<not> bit (base AND (mask 24 OR push_bit 29 (mask 2))) i"
      using assms(2) unfolding m by simp
    then show ?thesis using i bit_imp_le_length [OF i] by (auto simp: bit_simps)
  qed
  have f: "bit rd i \<Longrightarrow> i < 5" for i
    using and_mask_bit [OF assms(1), of i] by (simp add: bit_simps)
  have le2: "i < 2 \<longleftrightarrow> i = 0 \<or> i = 1" for i :: nat by auto
  show "adr_word base imm rd AND mask 5 = rd"
    by (rule bit_word_eqI) (use b f in \<open>force simp: adr_word_def bit_simps\<close>)
  show "push_bit 2 (drop_bit 5 (adr_word base imm rd) AND mask 19) OR
      (drop_bit 29 (adr_word base imm rd) AND mask 2) = imm AND mask 21"
  proof (rule bit_word_eqI)
    fix i assume "i < LENGTH(32)"
    then have i: "i < 32" by simp
    consider "i = 0" | "i = 1" | "2 \<le> i" by linarith
    then show "bit (push_bit 2 (drop_bit 5 (adr_word base imm rd) AND mask 19) OR
        (drop_bit 29 (adr_word base imm rd) AND mask 2)) i = bit (imm AND mask 21) i"
    proof cases
      case 3
      then have "Suc (Suc (i - 2)) = i" by simp
      with i 3 show ?thesis by (auto simp: adr_word_def bit_simps dest: b f)
    qed (use i b [of 29] b [of 30] f [of 29] f [of 30] in \<open>auto simp: adr_word_def bit_simps\<close>)
  qed
  show "adr_word base imm rd AND 0x9F000000 = base AND 0x9F000000"
  proof (rule bit_word_eqI)
    fix i :: nat assume "i < LENGTH(32)"
    have "bit (adr_word base imm rd) i \<longleftrightarrow> bit base i" if "24 \<le> i \<and> i < 29 \<or> i = 31"
      using that f [of i] by (auto simp: adr_word_def bit_simps)
    then show "bit (adr_word base imm rd AND 0x9F000000) i = bit (base AND 0x9F000000) i"
      by (auto simp only: bit_and_iff b9)
  qed
qed

lemma adr_word_imm:
  assumes "rd AND mask 5 = rd" and "base AND 0x60FFFFFF = 0"
    and "- (2 ^ 20) \<le> p" and "p < 2 ^ 20" and "imm AND mask 21 = word_of_int p AND mask 21"
  shows "adr_imm (adr_word base imm rd) = p"
proof -
  have "take_bit (Suc 20) (uint (imm AND mask 21)) = take_bit (Suc 20) p"
    unfolding assms(5) by (rule bit_eqI) (auto simp: bit_simps bit_uint_iff)
  then have "signed_take_bit 20 (uint (imm AND mask 21)) = p"
    using assms(3,4) by (rule signed_take_bit_field)
  then show ?thesis by (simp only: adr_imm_def adr_word_fields [OF assms(1,2)])
qed

text \<open>A page difference is a multiple of the page size, also when the subtraction wraps.\<close>

lemma page_delta_pages:
  fixes cur tgt :: u64
  defines "d \<equiv> (tgt AND NOT 0xFFF) - (cur AND NOT 0xFFF)"
  shows "word_of_int (4096 * (sint d div 2 ^ 12)) = d"
proof -
  have m: "(0xFFF :: u64) = mask 12" by (simp add: mask_eq_exp_minus_1)
  have page: "\<exists>k. x AND NOT 0xFFF = 4096 * k" for x :: u64
  proof -
    have "x AND NOT 0xFFF = push_bit 12 (drop_bit 12 x)"
      unfolding m by (rule bit_word_eqI) (auto simp: bit_simps)
    then have "x AND NOT 0xFFF = 4096 * drop_bit 12 x" by (simp add: push_bit_eq_mult)
    then show ?thesis by blast
  qed
  from page [of tgt] page [of cur] obtain k l where "d = 4096 * (k - l)"
    unfolding d_def by (metis right_diff_distrib)
  then have "d = push_bit 12 (k - l)" by (simp add: push_bit_eq_mult)
  then have "take_bit 12 (sint d) = 0"
    by (intro bit_eqI) (auto simp: bit_simps bit_sint_iff min_def)
  then have "4096 dvd sint d" by (simp add: take_bit_eq_0_iff)
  then have "4096 * (sint d div 2 ^ 12) = sint d" by simp
  then show ?thesis by simp
qed


section \<open>Properties\<close>

text \<open>
  \<open>mov_imm_x\<close>. For every 64-bit value and every register but 31, the builder grows by
  a sequence of words that, executed, puts exactly that value in the register and changes no other.
\<close>

theorem mov_imm_x_correct:
  assumes "rd < 31"
  shows "\<exists>ws. mov_imm_x a rd v = a\<lparr>asm_buf := asm_buf a @ concat (map u32_le ws)\<rparr> \<and>
    exec_insns ws r = Some (r(rd := v))"
proof -
  obtain ws v' where loop: "fst (mov_imm_x_loop rd v [0..<4] (a, False)) = foldl asm_word a ws"
    "exec_insns ws r = Some (r(rd := v'))"
    "if snd (mov_imm_x_loop rd v [0..<4] (a, False)) then v' = v else v = 0 \<and> ws = []"
    using mov_imm_x_loop_exec [OF assms, where k = 0 and inited = False and r = r and v = v and a = a]
    by auto
  define ws' where "ws' = (if snd (mov_imm_x_loop rd v [0..<4] (a, False)) then ws
    else [move_word 0xD2800000 0 0 rd])"
  have "mov_imm_x a rd v = foldl asm_word a ws'"
    using loop(1,3) move_emitters(1) [of 0 a rd 0]
    unfolding mov_imm_x_def upt4 ws'_def
    by (auto simp: case_prod_unfold simp del: mov_imm_x_loop.simps split: if_splits)
  moreover have "exec_insns ws' r = Some (r(rd := v))"
    using loop(2,3) exec_move_words(1) [where hw = 0 and imm = 0 and rd = rd and r = r] assms
    by (auto simp: ws'_def split: if_splits)
  ultimately show ?thesis by (auto simp: foldl_asm_word)
qed

theorem mov_imm_x_correct_witness:
  "\<exists>ws. mov_imm_x asm_new 9 0x123400005678 =
     asm_new\<lparr>asm_buf := asm_buf asm_new @ concat (map u32_le ws)\<rparr> \<and>
     exec_insns ws (\<lambda>_. 7) = Some ((\<lambda>_. 7)(9 := 0x123400005678))"
  by (rule mov_imm_x_correct) simp

text \<open>
  \<open>mov_imm_w\<close>. The same for the 32-bit move, which leaves the zero extended value.
\<close>

theorem mov_imm_w_correct:
  assumes "rd < 31"
  shows "\<exists>ws. mov_imm_w a rd v = a\<lparr>asm_buf := asm_buf a @ concat (map u32_le ws)\<rparr> \<and>
    exec_insns ws r = Some (r(rd := ucast v))"
  using mov_imm_w_words [of a rd v r] assms by (auto simp: foldl_asm_word)

theorem mov_imm_w_correct_witness:
  "\<exists>ws. mov_imm_w asm_new 3 0xDEADBEEF =
     asm_new\<lparr>asm_buf := asm_buf asm_new @ concat (map u32_le ws)\<rparr> \<and>
     exec_insns ws (\<lambda>_. 0) = Some ((\<lambda>_. 0)(3 := ucast (0xDEADBEEF :: u32)))"
  by (rule mov_imm_w_correct) simp

text \<open>
  (C27) \<open>mov_imm_x_asmjit\<close>, the optimised move. Whatever form it chooses (one \<open>movz\<close> or
  \<open>movn\<close>, an \<open>orr\<close> of a logical immediate, or the long sequence), the executed words leave exactly
  the value, so it agrees with \<open>mov_imm_x\<close>.
\<close>

theorem mov_imm_x_asmjit_correct:
  assumes "rd < 31"
  shows "\<exists>ws. mov_imm_x_asmjit a rd v = a\<lparr>asm_buf := asm_buf a @ concat (map u32_le ws)\<rparr> \<and>
    exec_insns ws r = Some (r(rd := v))"
  using mov_imm_x_asmjit_words [OF assms, of a v r] by (auto simp: foldl_asm_word)

theorem mov_imm_x_asmjit_correct_witness:
  "\<exists>ws. mov_imm_x_asmjit asm_new 13 0x1FFFFFFFFFF =
     asm_new\<lparr>asm_buf := asm_buf asm_new @ concat (map u32_le ws)\<rparr> \<and>
     exec_insns ws (\<lambda>_. 1) = Some ((\<lambda>_. 1)(13 := 0x1FFFFFFFFFF))"
  by (rule mov_imm_x_asmjit_correct) simp

text \<open>
  (C28) the fields of a logical immediate. What \<open>encode_logical_imm64\<close> returns decodes, by
  the architecture's \<open>DecodeBitMasks\<close>, to the value it was given, and each field fits its place in
  the instruction.
\<close>

theorem encode_logical_imm64_roundtrip:
  assumes "encode_logical_imm64 v = Some (n, immr, imms)"
  shows "decode_logical_imm64 n immr imms = Some v \<and> n \<le> 1 \<and> immr AND 0x3F = immr \<and>
    imms AND 0x3F = imms"
  using encode_logical_imm64_sound [OF assms] by simp

lemma sample_logical_imm: "encode_logical_imm64 0xFFFFFFFFFFFFC000 = Some (1, 50, 49)"
  by code_simp

theorem encode_logical_imm64_roundtrip_witness:
  "decode_logical_imm64 1 50 49 = Some 0xFFFFFFFFFFFFC000"
  using encode_logical_imm64_roundtrip [OF sample_logical_imm] by simp

text \<open>
  \<open>adrp\<close>. When it reports success, the emitted word is an \<open>adrp\<close> of the requested
  register whose immediate, added to the page of the instruction, gives the page of the target, for
  all 64-bit addresses and with the wrap-around of the subtraction.
\<close>

theorem adrp_correct:
  assumes "rd \<le> 31" and "adrp a rd cur tgt = (True, a')"
  shows "\<exists>w. a' = asm_word a w \<and> is_adrp w \<and> w AND 31 = rd \<and>
    (cur AND NOT 0xFFF) + word_of_int (4096 * adr_imm w) = tgt AND NOT 0xFFF"
proof -
  define d where "d = (tgt AND NOT 0xFFF) - (cur AND NOT 0xFFF)"
  define p where "p = sint d div 2 ^ 12"
  define imm21 where "imm21 = (ucast ((word_of_int p :: u64) AND 0x1FFFFF) :: u32)"
  have m: "(0x1FFFFF :: u64) = mask 21" "(3 :: u32) = mask 2" "(0x7FFFF :: u32) = mask 19"
    "(31 :: u32) = mask 5"
    by (simp_all add: mask_eq_exp_minus_1)
  have range: "- (2 ^ 20) \<le> p" "p < 2 ^ 20"
    and a': "a' = asm_word a (adr_word 0x90000000 imm21 rd)"
    using assms(2)
    by (auto simp: adrp_def Let_def adr_word_def imm21_def p_def d_def m split: if_splits)
  have rd: "rd AND mask 5 = rd" using le31_and [OF assms(1)] by (simp add: m)
  have base: "(0x90000000 :: u32) AND 0x60FFFFFF = 0" by simp
  have "imm21 AND mask 21 = word_of_int p AND mask 21"
    unfolding imm21_def m by (rule bit_word_eqI) (auto simp: bit_simps)
  then have "adr_imm (adr_word 0x90000000 imm21 rd) = p"
    by (rule adr_word_imm [OF rd base range])
  moreover have "word_of_int (4096 * p) = d" unfolding p_def d_def by (rule page_delta_pages)
  moreover have "is_adrp (adr_word 0x90000000 imm21 rd)"
    using adr_word_fields(3) [OF rd base, of imm21] by (simp add: is_adrp_def insn_is_def)
  moreover have "adr_word 0x90000000 imm21 rd AND 31 = rd"
    using adr_word_fields(1) [OF rd base, of imm21] by (simp only: m)
  ultimately show ?thesis
    by (intro exI [of _ "adr_word 0x90000000 imm21 rd"]) (simp add: a' d_def)
qed

theorem adrp_correct_witness:
  "\<exists>w. snd (adrp asm_new 3 0xFFFFFFC000080010 0xFFFFFFC000001234) = asm_word asm_new w \<and> is_adrp w \<and>
     w AND 31 = 3 \<and> (0xFFFFFFC000080010 AND NOT 0xFFF) + word_of_int (4096 * adr_imm w) =
       0xFFFFFFC000001234 AND (NOT 0xFFF :: u64)"
  by (rule adrp_correct) (simp_all add: adrp_def Let_def)

end
