(* ===== verification/Rust_Str.thy ===== *)
theory Rust_Str
  imports Prelude "HOL-Library.Char_ord" "HOL-Library.Sublist"
begin

text \<open>
  The string operations of Rust's standard library that the source uses. A \<open>String\<close> is the list of
  its UTF-8 bytes (\<open>char\<close> is a byte), so that \<open>as_bytes\<close> is a change of type and \<open>from_utf8\<close> a
  check; white space is recognised in its UTF-8 encoding.
\<close>

section \<open>Bytes and UTF-8\<close>

definition as_bytes :: "string \<Rightarrow> byte list" where
  "as_bytes s = map (\<lambda>c. of_char c) s"

definition of_bytes :: "byte list \<Rightarrow> string" where
  "of_bytes bs = map (\<lambda>b. char_of (unat b)) bs"

definition cont_byte :: "nat \<Rightarrow> bool" where
  "cont_byte b \<longleftrightarrow> 0x80 \<le> b \<and> b \<le> 0xBF"

text \<open>The table of well formed UTF-8 byte sequences, which \<open>core::str::from_utf8\<close> checks.\<close>

fun utf8_valid_codes :: "nat list \<Rightarrow> bool" where
  "utf8_valid_codes [] = True"
| "utf8_valid_codes (a # as) =
     (if a < 0x80 then utf8_valid_codes as
      else case as of [] \<Rightarrow> False | b # bs \<Rightarrow>
        if 0xC2 \<le> a \<and> a \<le> 0xDF then cont_byte b \<and> utf8_valid_codes bs
        else case bs of [] \<Rightarrow> False | c # cs \<Rightarrow>
          if 0xE0 \<le> a \<and> a \<le> 0xEF then
            (if a = 0xE0 then 0xA0 \<le> b \<and> b \<le> 0xBF
             else if a = 0xED then 0x80 \<le> b \<and> b \<le> 0x9F else cont_byte b) \<and>
            cont_byte c \<and> utf8_valid_codes cs
          else case cs of [] \<Rightarrow> False | d # ds \<Rightarrow>
            0xF0 \<le> a \<and> a \<le> 0xF4 \<and>
            (if a = 0xF0 then 0x90 \<le> b \<and> b \<le> 0xBF
             else if a = 0xF4 then 0x80 \<le> b \<and> b \<le> 0x8F else cont_byte b) \<and>
            cont_byte c \<and> cont_byte d \<and> utf8_valid_codes ds)"

definition utf8_valid :: "byte list \<Rightarrow> bool" where
  "utf8_valid bs = utf8_valid_codes (map unat bs)"

definition from_utf8 :: "byte list \<Rightarrow> string option" where
  "from_utf8 bs = (if utf8_valid bs then Some (of_bytes bs) else None)"

lemma length_as_bytes [simp]: "length (as_bytes s) = length s"
  by (simp add: as_bytes_def)

lemma as_bytes_append [simp]: "as_bytes (s @ t) = as_bytes s @ as_bytes t"
  by (simp add: as_bytes_def)

lemma as_bytes_Nil [simp]: "as_bytes [] = []"
  by (simp add: as_bytes_def)

lemma unat_of_char: "unat (of_char c :: byte) = of_char c"
proof -
  have "(of_char c :: byte) = of_nat (of_char c)" by (simp only: of_nat_of_char)
  moreover have "(of_char c :: nat) < 256" by simp
  ultimately show ?thesis
    using unsigned_of_nat [where 'a = nat and 'b = 8 and n = "of_char c"]
    by (simp add: take_bit_nat_eq_self)
qed

lemma of_bytes_as_bytes [simp]: "of_bytes (as_bytes s) = s"
proof -
  have "of_bytes (as_bytes s) = map (\<lambda>c. c) s"
    unfolding of_bytes_def as_bytes_def map_map
    by (rule map_cong) (simp_all only: comp_def unat_of_char char_of_char)
  then show ?thesis by simp
qed

lemma as_bytes_of_bytes [simp]: "as_bytes (of_bytes bs) = bs"
proof -
  have "of_char (char_of (unat b)) = b" for b :: byte
  proof -
    have "unat b < 256" using unsigned_less [of b] by simp
    then have "(of_char (char_of (unat b)) :: nat) = unat b" by simp
    then have "unat (of_char (char_of (unat b)) :: byte) = unat b" by (simp only: unat_of_char)
    then show ?thesis by (simp only: word_unat_eq_iff)
  qed
  then show ?thesis by (simp add: as_bytes_def of_bytes_def comp_def)
qed

lemma as_bytes_inject [simp]: "as_bytes s = as_bytes t \<longleftrightarrow> s = t"
  by (metis of_bytes_as_bytes)

lemma from_utf8_Some_iff: "from_utf8 bs = Some s \<longleftrightarrow> utf8_valid bs \<and> bs = as_bytes s"
  by (auto simp: from_utf8_def)

text \<open>ASCII text is valid.\<close>

lemma utf8_valid_ascii: "\<forall>b \<in> set bs. unat b < 0x80 \<Longrightarrow> utf8_valid bs"
  by (induction bs) (simp_all add: utf8_valid_def)

section \<open>Decimal numbers\<close>

text \<open>\<open>format!("{n}")\<close> of an unsigned number.\<close>

fun dec :: "nat \<Rightarrow> string" where
  "dec n = (if n < 10 then [char_of (48 + n)] else dec (n div 10) @ [char_of (48 + n mod 10)])"

declare dec.simps [simp del]

definition is_ascii_digit :: "char \<Rightarrow> bool" where
  "is_ascii_digit c \<longleftrightarrow> (48 :: nat) \<le> of_char c \<and> of_char c \<le> (57 :: nat)"

text \<open>\<open>char::to_digit\<close> for a radix of at most 16.\<close>

definition to_digit :: "nat \<Rightarrow> char \<Rightarrow> nat option" where
  "to_digit radix c =
     (let n = of_char c :: nat;
          d = (if 48 \<le> n \<and> n \<le> 57 then Some (n - 48)
               else if 97 \<le> n \<and> n \<le> 102 then Some (n - 87)
               else if 65 \<le> n \<and> n \<le> 70 then Some (n - 55) else None)
      in case d of Some v \<Rightarrow> if v < radix then Some v else None | None \<Rightarrow> None)"

fun parse_digits :: "nat \<Rightarrow> nat \<Rightarrow> string \<Rightarrow> nat option" where
  "parse_digits radix acc [] = Some acc"
| "parse_digits radix acc (c # cs) =
     (case to_digit radix c of
        None \<Rightarrow> None
      | Some d \<Rightarrow>
          if acc * radix + d < 2 ^ 32 then parse_digits radix (acc * radix + d) cs else None)"

text \<open>
  \<open>u32::from_str_radix\<close> (and \<open>parse\<close>, with radix 10): empty input and a sign alone are errors, one
  leading \<open>+\<close> is accepted, then every character must be a digit and the value must fit.
\<close>

definition u32_from_str_radix :: "string \<Rightarrow> nat \<Rightarrow> u32 option" where
  "u32_from_str_radix s radix =
     (if s = [] \<or> s = ''+'' \<or> s = ''-'' then None
      else map_option of_nat (parse_digits radix 0 (if hd s = CHR ''+'' then tl s else s)))"

lemma of_char_digit [simp]: "d < 10 \<Longrightarrow> (of_char (char_of (48 + d :: nat)) :: nat) = 48 + d"
  by simp

lemma to_digit_dec [simp]: "d < 10 \<Longrightarrow> to_digit 10 (char_of (48 + d)) = Some d"
  by (simp add: to_digit_def Let_def)

lemma dec_digits: "c \<in> set (dec n) \<Longrightarrow> is_ascii_digit c"
proof (induction n rule: dec.induct)
  case (1 n)
  then show ?case
    by (subst (asm) (2) dec.simps) (auto simp: is_ascii_digit_def split: if_splits)
qed

lemma dec_nonempty [simp]: "dec n \<noteq> []"
  by (subst dec.simps) simp

lemma dec_no_plus: "hd (dec n) \<noteq> CHR ''+''"
proof -
  have "is_ascii_digit (hd (dec n))" using dec_digits [of "hd (dec n)" n] by simp
  then show ?thesis by (auto simp: is_ascii_digit_def)
qed

lemma parse_digits_append:
  "parse_digits r a (s @ t) = Option.bind (parse_digits r a s) (\<lambda>b. parse_digits r b t)"
  by (induction s arbitrary: a) (auto split: option.splits)

lemma parse_digits_dec: "n < 2 ^ 32 \<Longrightarrow> parse_digits 10 0 (dec n) = Some n"
proof (induction n rule: dec.induct)
  case (1 n)
  show ?case
  proof (cases "n < 10")
    case True
    then show ?thesis using "1.prems" by (subst dec.simps) simp
  next
    case False
    then have "parse_digits 10 0 (dec (n div 10)) = Some (n div 10)"
      using "1.IH" "1.prems" by simp
    with False "1.prems" show ?thesis
      by (subst dec.simps) (simp add: parse_digits_append)
  qed
qed

text \<open>Printing a \<open>u32\<close> and parsing it back.\<close>

lemma u32_parse_dec: "u32_from_str_radix (dec (unat (w :: u32))) 10 = Some w"
proof -
  have "unat w < 2 ^ 32" using unsigned_less [of w] by simp
  then have p: "parse_digits 10 0 (dec (unat w)) = Some (unat w)" by (rule parse_digits_dec)
  have "dec (unat w) \<noteq> ''+''" "dec (unat w) \<noteq> ''-''"
    using dec_digits [of "hd (dec (unat w))" "unat w"] by (auto simp: is_ascii_digit_def)
  then show ?thesis using p dec_no_plus [of "unat w"] by (simp add: u32_from_str_radix_def)
qed

lemma dec_ascii: "b \<in> set (as_bytes (dec n)) \<Longrightarrow> 48 \<le> unat b \<and> unat b \<le> 57"
proof -
  assume "b \<in> set (as_bytes (dec n))"
  then obtain c where "c \<in> set (dec n)" "b = of_char c" by (auto simp: as_bytes_def)
  with dec_digits [of c n] show ?thesis by (simp add: unat_of_char is_ascii_digit_def)
qed

section \<open>Prefixes, suffixes, splitting\<close>

definition strip_prefix :: "string \<Rightarrow> string \<Rightarrow> string option" where
  "strip_prefix p s = (if prefix p s then Some (drop (length p) s) else None)"

definition strip_suffix :: "string \<Rightarrow> string \<Rightarrow> string option" where
  "strip_suffix p s = (if suffix p s then Some (take (length s - length p) s) else None)"

lemma strip_prefix_append [simp]: "strip_prefix p (p @ s) = Some s"
  by (simp add: strip_prefix_def)

lemma strip_prefix_Some_iff: "strip_prefix p s = Some r \<longleftrightarrow> s = p @ r"
  by (auto simp: strip_prefix_def prefix_def)

lemma strip_suffix_append [simp]: "strip_suffix p (s @ p) = Some s"
  by (simp add: strip_suffix_def suffix_def)

lemma strip_suffix_Some_iff: "strip_suffix p s = Some r \<longleftrightarrow> s = r @ p"
  by (auto simp: strip_suffix_def suffix_def)

text \<open>\<open>split_once\<close> at the first occurrence of a non-empty separator.\<close>

fun split_once :: "string \<Rightarrow> string \<Rightarrow> (string \<times> string) option" where
  "split_once sep [] = (if sep = [] then Some ([], []) else None)"
| "split_once sep (c # cs) =
     (if prefix sep (c # cs) then Some ([], drop (length sep) (c # cs))
      else map_option (\<lambda>(a, b). (c # a, b)) (split_once sep cs))"

lemma split_once_Some: "split_once sep s = Some (a, b) \<Longrightarrow> s = a @ sep @ b"
  by (induction sep s arbitrary: a rule: split_once.induct) (auto simp: prefix_def split: if_splits)

definition ascii_whitespace :: "char \<Rightarrow> bool" where
  "ascii_whitespace c \<longleftrightarrow> (of_char c :: nat) \<in> {9, 10, 12, 13, 32}"

text \<open>\<open>split_ascii_whitespace\<close>: the maximal runs of other characters.\<close>

fun words_from :: "string \<Rightarrow> string \<Rightarrow> string list" where
  "words_from w [] = (if w = [] then [] else [w])"
| "words_from w (c # cs) =
     (if ascii_whitespace c then (if w = [] then words_from [] cs else w # words_from [] cs)
      else words_from (w @ [c]) cs)"

definition split_ascii_whitespace :: "string \<Rightarrow> string list" where
  "split_ascii_whitespace s = words_from [] s"

text \<open>
  The length of a leading white space character, from the codes of its UTF-8 bytes, or 0; and of a
  trailing one, from the codes in reverse. These are the code points with the \<open>White_Space\<close> property.
\<close>

fun ws3 :: "nat \<Rightarrow> nat \<Rightarrow> nat \<Rightarrow> bool" where
  "ws3 a b c \<longleftrightarrow>
     a = 0xE1 \<and> b = 0x9A \<and> c = 0x80 \<or>
     a = 0xE2 \<and> b = 0x80 \<and> (0x80 \<le> c \<and> c \<le> 0x8A \<or> c = 0xA8 \<or> c = 0xA9 \<or> c = 0xAF) \<or>
     a = 0xE2 \<and> b = 0x81 \<and> c = 0x9F \<or>
     a = 0xE3 \<and> b = 0x80 \<and> c = 0x80"

definition ws1 :: "nat \<Rightarrow> bool" where
  "ws1 a \<longleftrightarrow> 9 \<le> a \<and> a \<le> 13 \<or> a = 32"

definition ws2 :: "nat \<Rightarrow> nat \<Rightarrow> bool" where
  "ws2 a b \<longleftrightarrow> a = 0xC2 \<and> (b = 0x85 \<or> b = 0xA0)"

definition ws_front :: "nat list \<Rightarrow> nat" where
  "ws_front cs =
     (case cs of [] \<Rightarrow> 0 | a # as \<Rightarrow> if ws1 a then 1
      else case as of [] \<Rightarrow> 0 | b # bs \<Rightarrow> if ws2 a b then 2
      else case bs of [] \<Rightarrow> 0 | c # _ \<Rightarrow> if ws3 a b c then 3 else 0)"

definition ws_back :: "nat list \<Rightarrow> nat" where
  "ws_back cs =
     (case cs of [] \<Rightarrow> 0 | a # as \<Rightarrow> if ws1 a then 1
      else case as of [] \<Rightarrow> 0 | b # bs \<Rightarrow> if ws2 b a then 2
      else case bs of [] \<Rightarrow> 0 | c # _ \<Rightarrow> if ws3 c b a then 3 else 0)"

lemma ws_le: "ws_front cs \<le> length cs" "ws_back cs \<le> length cs"
  by (auto simp: ws_front_def ws_back_def split: list.splits)

function trim_front :: "string \<Rightarrow> string" where
  "trim_front s =
     (let n = ws_front (map of_char s) in if n = 0 then s else trim_front (drop n s))"
  by pat_completeness auto
termination
  using ws_le(1) [where cs = "map of_char _"]
  by (relation "measure length") (auto simp: Suc_le_eq, metis diff_less le_zero_eq length_greater_0_conv length_map list.size(3) not_gr_zero)

function trim_back_rev :: "string \<Rightarrow> string" where
  "trim_back_rev s =
     (let n = ws_back (map of_char s) in if n = 0 then s else trim_back_rev (drop n s))"
  by pat_completeness auto
termination
  using ws_le(2) [where cs = "map of_char _"]
  by (relation "measure length") (auto simp: Suc_le_eq, metis diff_less le_zero_eq length_greater_0_conv length_map list.size(3) not_gr_zero)

declare trim_front.simps [simp del] trim_back_rev.simps [simp del]

text \<open>\<open>str::trim\<close>.\<close>

definition trim_ws :: "string \<Rightarrow> string" where
  "trim_ws s = rev (trim_back_rev (rev (trim_front s)))"

text \<open>\<open>str::lines\<close>: pieces between line feeds, each without one trailing carriage return; no last
  empty piece.\<close>

fun lines_from :: "string \<Rightarrow> string \<Rightarrow> string list" where
  "lines_from l [] = (if l = [] then [] else [l])"
| "lines_from l (c # cs) =
     (if c = CHR 0x0A
      then (if l \<noteq> [] \<and> last l = CHR 0x0D then butlast l else l) # lines_from [] cs
      else lines_from (l @ [c]) cs)"

definition str_lines :: "string \<Rightarrow> string list" where
  "str_lines s = lines_from [] s"

end
