(* ===== verification/Gpu_Table.thy ===== *)
theory Gpu_Table
  imports Rust_Str
begin

text \<open>
  The GPU power-level table of \<open>konabess/export.rs\<close>: its types, the editor's validation
  (\<open>validate_gpu_table\<close>), the constructor of a new level, the parser of one cell, and
  \<open>normalize_edited_gpu_table\<close> of \<open>konabess/fdt.rs\<close>, which renumbers the rows of an edited table and
  retargets its initial-level indices. A \<open>panic\<close> of the normalisation is a value of its error type;
  the properties show that validation excludes it.
\<close>

section \<open>The table\<close>

record gpu_property =
  prop_name :: string
  prop_cells :: "u32 list"

record gpu_level =
  level_id :: u32
  level_properties :: "gpu_property list"

record gpu_group =
  group_id :: u32
  header_properties :: "gpu_property list"
  group_levels :: "gpu_level list"

record gpu_table =
  table_groups :: "gpu_group list"

record konabess_export =
  export_chip :: string
  export_description :: string
  export_table :: gpu_table

record gpu_issue =
  issue_path :: string
  issue_message :: string

record gpu_validation =
  hard_errors :: "gpu_issue list"
  warnings :: "gpu_issue list"

definition no_issues :: gpu_validation where
  "no_issues = \<lparr>hard_errors = [], warnings = []\<rparr>"

definition has_hard_errors :: "gpu_validation \<Rightarrow> bool" where
  "has_hard_errors v \<longleftrightarrow> hard_errors v \<noteq> []"

definition issue :: "string \<Rightarrow> string \<Rightarrow> gpu_issue" where
  "issue p m = \<lparr>issue_path = p, issue_message = m\<rparr>"

definition hard :: "gpu_issue list \<Rightarrow> gpu_validation \<Rightarrow> gpu_validation" where
  "hard is v = v\<lparr>hard_errors := hard_errors v @ is\<rparr>"

definition warn :: "gpu_issue list \<Rightarrow> gpu_validation \<Rightarrow> gpu_validation" where
  "warn is v = v\<lparr>warnings := warnings v @ is\<rparr>"

definition dec32 :: "u32 \<Rightarrow> string" where
  "dec32 w = dec (unat w)"

definition find_property :: "gpu_property list \<Rightarrow> string \<Rightarrow> gpu_property option" where
  "find_property ps name = List.find (\<lambda>p. prop_name p = name) ps"

definition scalar_property :: "gpu_property list \<Rightarrow> string \<Rightarrow> u32 option" where
  "scalar_property ps name =
     (case find_property ps name of
        None \<Rightarrow> None
      | Some p \<Rightarrow> if length (prop_cells p) = 1 then Some (prop_cells p ! 0) else None)"

definition level_frequency :: "gpu_level \<Rightarrow> u32 option" where
  "level_frequency l = scalar_property (level_properties l) ''qcom,gpu-freq''"

section \<open>A new level from a template\<close>

text \<open>The callback of the source is a function of the property here.\<close>

definition build_gpu_level_from_template ::
    "gpu_group \<Rightarrow> u32 \<Rightarrow> u32 \<Rightarrow> (gpu_property \<Rightarrow> u32 list) \<Rightarrow> string + gpu_level" where
  "build_gpu_level_from_template grp template_level_id new_level_id cells_for_property =
     (case List.find (\<lambda>l. level_id l = template_level_id) (group_levels grp) of
        None \<Rightarrow> Inl (''GPU group '' @ dec32 (group_id grp) @ '' has no template level '' @
          dec32 template_level_id)
      | Some template \<Rightarrow> Inr
          \<lparr>level_id = new_level_id,
           level_properties = map (\<lambda>p. \<lparr>prop_name = prop_name p, prop_cells = cells_for_property p\<rparr>)
             (level_properties template)\<rparr>)"

section \<open>Validation\<close>

datatype property_location = GroupHeader | Level

definition must_be_scalar :: "property_location \<Rightarrow> string \<Rightarrow> bool" where
  "must_be_scalar loc name \<longleftrightarrow>
     (case loc of
        GroupHeader \<Rightarrow> name \<in> {''qcom,initial-pwrlevel'', ''qcom,initial-min-pwrlevel''}
      | Level \<Rightarrow> True)"

text \<open>The issues of one property, with the properties before it.\<close>

definition property_issues ::
    "gpu_property list \<Rightarrow> string \<Rightarrow> property_location \<Rightarrow> gpu_property \<Rightarrow> gpu_issue list" where
  "property_issues prior parent_path loc p =
     (let path = parent_path @ '' / '' @ prop_name p in
      (if prop_name p = [] \<or> CHR 0x00 \<in> set (prop_name p)
       then [issue path ''property name is empty or contains NUL''] else []) @
      (if prop_cells p = [] then [issue path ''property must contain at least one u32 cell''] else []) @
      (if \<exists>q \<in> set prior. prop_name q = prop_name p
       then [issue path ''duplicate property name''] else []) @
      (if must_be_scalar loc (prop_name p) \<and> length (prop_cells p) \<noteq> 1
       then [issue path ''property must contain exactly one u32 cell''] else []))"

fun properties_issues ::
    "gpu_property list \<Rightarrow> gpu_property list \<Rightarrow> string \<Rightarrow> property_location \<Rightarrow> gpu_issue list" where
  "properties_issues prior [] parent_path loc = []"
| "properties_issues prior (p # ps) parent_path loc =
     property_issues prior parent_path loc p @ properties_issues (prior @ [p]) ps parent_path loc"

definition validate_properties ::
    "gpu_property list \<Rightarrow> string \<Rightarrow> property_location \<Rightarrow> gpu_validation \<Rightarrow> gpu_validation" where
  "validate_properties ps parent_path loc v =
     hard (properties_issues [] ps parent_path loc @
       (if loc = Level \<and> scalar_property ps ''reg'' = None
        then [issue (parent_path @ '' / reg'') ''required property must contain exactly one u32 cell'']
        else [])) v"

definition STOCK_MIN_FREQUENCY :: u32 where "STOCK_MIN_FREQUENCY = 125000000"
definition STOCK_MAX_FREQUENCY :: u32 where "STOCK_MAX_FREQUENCY = 1300000000"
definition STOCK_MIN_LEVEL_VOTE :: u32 where "STOCK_MIN_LEVEL_VOTE = 50"
definition STOCK_MAX_LEVEL_VOTE :: u32 where "STOCK_MAX_LEVEL_VOTE = 452"

definition validate_frequency :: "string \<Rightarrow> gpu_level \<Rightarrow> gpu_validation \<Rightarrow> gpu_validation" where
  "validate_frequency level_path level v =
     (case scalar_property (level_properties level) ''qcom,gpu-freq'' of
        Some f \<Rightarrow>
          if \<not> (STOCK_MIN_FREQUENCY \<le> f \<and> f \<le> STOCK_MAX_FREQUENCY)
          then warn [issue (level_path @ '' / qcom,gpu-freq'')
            (''frequency '' @ dec32 f @ '' Hz is outside the observed stock range '' @
             dec32 STOCK_MIN_FREQUENCY @ ''..='' @ dec32 STOCK_MAX_FREQUENCY @ '' Hz'')] v
          else v
      | None \<Rightarrow> hard [issue (level_path @ '' / qcom,gpu-freq'')
          ''required property must contain exactly one u32 cell''] v)"

definition validate_vote :: "string \<Rightarrow> gpu_level \<Rightarrow> gpu_validation \<Rightarrow> gpu_validation" where
  "validate_vote level_path level v =
     (case scalar_property (level_properties level) ''qcom,level'' of
        Some n \<Rightarrow>
          if \<not> (STOCK_MIN_LEVEL_VOTE \<le> n \<and> n \<le> STOCK_MAX_LEVEL_VOTE)
          then warn [issue (level_path @ '' / qcom,level'')
            (''encoded regulator vote '' @ dec32 n @ '' is outside the observed stock range '' @
             dec32 STOCK_MIN_LEVEL_VOTE @ ''..='' @ dec32 STOCK_MAX_LEVEL_VOTE)] v
          else v
      | None \<Rightarrow> hard [issue (level_path @ '' / qcom,level'')
          ''required property must contain exactly one u32 cell''] v)"

text \<open>One round of the loop over the levels.\<close>

definition validate_level_row ::
    "string \<Rightarrow> gpu_level list \<Rightarrow> gpu_level \<Rightarrow> gpu_validation \<Rightarrow> gpu_validation" where
  "validate_level_row group_path prior level v =
     (let level_path = group_path @ '' / level '' @ dec32 (level_id level);
          v1 = (if \<exists>q \<in> set prior. level_id q = level_id level
                then hard [issue level_path ''duplicate GPU level id''] v else v);
          v2 = validate_properties (level_properties level) level_path Level v1;
          v3 = validate_frequency level_path level v2
      in validate_vote level_path level v3)"

fun validate_level_rows ::
    "string \<Rightarrow> gpu_level list \<Rightarrow> gpu_level list \<Rightarrow> gpu_validation \<Rightarrow> gpu_validation" where
  "validate_level_rows group_path prior [] v = v"
| "validate_level_rows group_path prior (l # ls) v =
     validate_level_rows group_path (prior @ [l]) ls (validate_level_row group_path prior l v)"

text \<open>The warnings about neighbours in the list of the frequencies that are present.\<close>

fun descending_issues :: "string \<Rightarrow> u32 list \<Rightarrow> gpu_issue list" where
  "descending_issues group_path (a # b # fs) =
     (if a \<le> b
      then [issue group_path (''frequencies are not strictly descending at '' @ dec32 a @
        '' Hz then '' @ dec32 b @ '' Hz'')] else []) @ descending_issues group_path (b # fs)"
| "descending_issues group_path fs = []"

definition validate_group_row :: "gpu_group list \<Rightarrow> gpu_group \<Rightarrow> gpu_validation \<Rightarrow> gpu_validation" where
  "validate_group_row prior grp v =
     (let group_path = ''group '' @ dec32 (group_id grp);
          v1 = (if \<exists>q \<in> set prior. group_id q = group_id grp
                then hard [issue group_path ''duplicate GPU group id''] v else v);
          v2 = validate_properties (header_properties grp) group_path GroupHeader v1
      in if group_levels grp = []
         then hard [issue group_path ''GPU group must contain at least one level''] v2
         else warn (descending_issues group_path (List.map_filter level_frequency (group_levels grp)))
           (validate_level_rows group_path [] (group_levels grp) v2))"

fun validate_group_rows :: "gpu_group list \<Rightarrow> gpu_group list \<Rightarrow> gpu_validation \<Rightarrow> gpu_validation" where
  "validate_group_rows prior [] v = v"
| "validate_group_rows prior (g # gs) v =
     validate_group_rows (prior @ [g]) gs (validate_group_row prior g v)"

definition validate_gpu_table :: "gpu_table \<Rightarrow> gpu_validation" where
  "validate_gpu_table t =
     (if table_groups t = []
      then hard [issue ''table'' ''GPU table must contain at least one group''] no_issues
      else validate_group_rows [] (table_groups t) no_issues)"

section \<open>What a table without hard errors is\<close>

text \<open>The abstract contract of the validation, without paths, messages or accumulators.\<close>

definition property_ok :: "property_location \<Rightarrow> gpu_property \<Rightarrow> bool" where
  "property_ok loc p \<longleftrightarrow> prop_name p \<noteq> [] \<and> CHR 0x00 \<notin> set (prop_name p) \<and> prop_cells p \<noteq> [] \<and>
     (must_be_scalar loc (prop_name p) \<longrightarrow> length (prop_cells p) = 1)"

definition properties_ok :: "property_location \<Rightarrow> gpu_property list \<Rightarrow> bool" where
  "properties_ok loc ps \<longleftrightarrow> (\<forall>p \<in> set ps. property_ok loc p) \<and> distinct (map prop_name ps)"

definition level_ok :: "gpu_level \<Rightarrow> bool" where
  "level_ok l \<longleftrightarrow> properties_ok Level (level_properties l) \<and>
     (\<forall>n \<in> {''reg'', ''qcom,gpu-freq'', ''qcom,level''}. scalar_property (level_properties l) n \<noteq> None)"

definition group_ok :: "gpu_group \<Rightarrow> bool" where
  "group_ok g \<longleftrightarrow> properties_ok GroupHeader (header_properties g) \<and> group_levels g \<noteq> [] \<and>
     distinct (map level_id (group_levels g)) \<and> (\<forall>l \<in> set (group_levels g). level_ok l)"

definition table_ok :: "gpu_table \<Rightarrow> bool" where
  "table_ok t \<longleftrightarrow> table_groups t \<noteq> [] \<and> distinct (map group_id (table_groups t)) \<and>
     (\<forall>g \<in> set (table_groups t). group_ok g)"

lemma hard_errors_simps [simp]:
  "hard_errors (hard is v) = hard_errors v @ is"
  "hard_errors (warn is v) = hard_errors v"
  "warnings (hard is v) = warnings v"
  "warnings (warn is v) = warnings v @ is"
  by (simp_all add: hard_def warn_def)

lemma if_single_Nil: "(if b then [x] else []) = [] \<longleftrightarrow> \<not> b"
  by simp

lemma bex_same_iff: "(\<exists>q \<in> A. f q = f x) \<longleftrightarrow> f x \<in> f ` A"
  by (metis image_iff)

lemma property_issues_Nil_iff:
  "property_issues prior parent loc p = [] \<longleftrightarrow>
    property_ok loc p \<and> prop_name p \<notin> prop_name ` set prior"
  by (simp only: property_issues_def Let_def append_is_Nil_conv bex_same_iff if_single_Nil)
    (auto simp: property_ok_def)

lemma properties_issues_Nil_iff:
  "properties_issues prior ps parent loc = [] \<longleftrightarrow>
    (\<forall>p \<in> set ps. property_ok loc p) \<and> distinct (map prop_name ps) \<and>
    prop_name ` set prior \<inter> prop_name ` set ps = {}"
  by (induction prior ps parent loc rule: properties_issues.induct)
    (auto simp: property_issues_Nil_iff)

lemma validate_properties_hard:
  "hard_errors (validate_properties ps path loc v) = [] \<longleftrightarrow> hard_errors v = [] \<and>
    properties_ok loc ps \<and> (loc = Level \<longrightarrow> scalar_property ps ''reg'' \<noteq> None)"
  by (auto simp: validate_properties_def properties_issues_Nil_iff properties_ok_def)

lemma validate_frequency_hard:
  "hard_errors (validate_frequency path l v) = [] \<longleftrightarrow>
    hard_errors v = [] \<and> scalar_property (level_properties l) ''qcom,gpu-freq'' \<noteq> None"
  by (auto simp: validate_frequency_def split: option.splits)

lemma validate_vote_hard:
  "hard_errors (validate_vote path l v) = [] \<longleftrightarrow>
    hard_errors v = [] \<and> scalar_property (level_properties l) ''qcom,level'' \<noteq> None"
  by (auto simp: validate_vote_def split: option.splits)

lemma validate_level_row_hard:
  "hard_errors (validate_level_row path prior l v) = [] \<longleftrightarrow>
    hard_errors v = [] \<and> level_id l \<notin> level_id ` set prior \<and> level_ok l"
  by (simp only: validate_level_row_def Let_def bex_same_iff validate_frequency_hard
      validate_vote_hard validate_properties_hard)
    (auto simp: level_ok_def)

lemma validate_level_rows_hard:
  "hard_errors (validate_level_rows path prior ls v) = [] \<longleftrightarrow>
    hard_errors v = [] \<and> distinct (map level_id ls) \<and>
    level_id ` set prior \<inter> level_id ` set ls = {} \<and> (\<forall>l \<in> set ls. level_ok l)"
  by (induction path prior ls v rule: validate_level_rows.induct)
    (auto simp: validate_level_row_hard)

lemma validate_group_row_hard:
  "hard_errors (validate_group_row prior g v) = [] \<longleftrightarrow>
    hard_errors v = [] \<and> group_id g \<notin> group_id ` set prior \<and> group_ok g"
  by (simp only: validate_group_row_def Let_def bex_same_iff)
    (auto simp: validate_properties_hard validate_level_rows_hard group_ok_def)

lemma validate_group_rows_hard:
  "hard_errors (validate_group_rows prior gs v) = [] \<longleftrightarrow>
    hard_errors v = [] \<and> distinct (map group_id gs) \<and>
    group_id ` set prior \<inter> group_id ` set gs = {} \<and> (\<forall>g \<in> set gs. group_ok g)"
  by (induction prior gs v rule: validate_group_rows.induct)
    (auto simp: validate_group_row_hard)

section \<open>One editor cell\<close>

text \<open>\<open>parse_gpu_cell\<close>, with its three errors.\<close>

datatype cell_error = CellEmpty | CellHexEmpty | CellNotU32 string

definition parse_gpu_cell :: "string \<Rightarrow> cell_error + u32" where
  "parse_gpu_cell input =
     (let cell = trim_ws input in
      if cell = [] then Inl CellEmpty
      else
        case (case strip_prefix ''0x'' cell of Some h \<Rightarrow> Some h | None \<Rightarrow> strip_prefix ''0X'' cell) of
          Some hex \<Rightarrow>
            if hex = [] then Inl CellHexEmpty
            else ok_or (u32_from_str_radix hex 16) (CellNotU32 cell)
        | None \<Rightarrow> ok_or (u32_from_str_radix cell 10) (CellNotU32 cell))"

section \<open>Normalisation of an edited table\<close>

datatype normalize_error =
    HardValidation nat gpu_issue
  | TooManyLevels
  | NormalizePanic

text \<open>\<open>property.cells[0] = v\<close>; the write panics on an empty list.\<close>

definition set_first_cell :: "u32 \<Rightarrow> gpu_property \<Rightarrow> normalize_error + gpu_property" where
  "set_first_cell v p =
     (if prop_cells p = [] then Inl NormalizePanic
      else Inr (p\<lparr>prop_cells := (prop_cells p)[0 := v]\<rparr>))"

fun find_index :: "('a \<Rightarrow> bool) \<Rightarrow> 'a list \<Rightarrow> nat option" where
  "find_index P [] = None"
| "find_index P (x # xs) = (if P x then Some 0 else map_option Suc (find_index P xs))"

definition matching_indices :: "u32 \<Rightarrow> gpu_level list \<Rightarrow> nat list" where
  "matching_indices f ls = filter (\<lambda>i. level_frequency (ls ! i) = Some f) [0..<length ls]"

text \<open>The advisory of a retargeted index: deleted, or ambiguous.\<close>

definition retarget_advisories ::
    "gpu_group \<Rightarrow> string \<Rightarrow> u32 option \<Rightarrow> nat list \<Rightarrow> u32 \<Rightarrow> nat \<Rightarrow> gpu_issue list" where
  "retarget_advisories g name old_frequency matching new_frequency retargeted =
     (case old_frequency of
        None \<Rightarrow> []
      | Some f \<Rightarrow>
          let path = ''group '' @ dec32 (group_id g) @ '' / '' @ name in
          if matching = [] then
            [issue path (''group '' @ dec32 (group_id g) @ '' target frequency '' @ dec32 f @
              '' Hz was deleted; retargeted to '' @ dec32 new_frequency @ '' Hz at level '' @
              dec retargeted)]
          else if length matching > 1 then
            [issue path (''group '' @ dec32 (group_id g) @ '' target frequency '' @ dec32 f @
              '' Hz matches '' @ dec (length matching) @
              '' levels; first match wins and retargets to '' @ dec32 new_frequency @
              '' Hz at level '' @ dec retargeted)]
          else [])"

text \<open>One round of the loop over the two property names.\<close>

definition retarget_index :: "gpu_group option \<Rightarrow> u32 \<Rightarrow> string \<Rightarrow> u32" where
  "retarget_index source_group own name =
     (case Option.bind source_group (\<lambda>sg. scalar_property (header_properties sg) name) of
        Some i \<Rightarrow> i
      | None \<Rightarrow> own)"

definition source_frequency :: "gpu_group option \<Rightarrow> u32 \<Rightarrow> u32 option" where
  "source_frequency source_group old_index =
     Option.bind source_group (\<lambda>sg.
       if unat old_index < length (group_levels sg)
       then level_frequency (group_levels sg ! unat old_index) else None)"

definition retarget_position :: "u32 \<Rightarrow> u32 option \<Rightarrow> gpu_level list \<Rightarrow> nat" where
  "retarget_position old_index old_frequency ls =
     (case (case old_frequency of None \<Rightarrow> [] | Some f \<Rightarrow> matching_indices f ls) of
        i # _ \<Rightarrow> i
      | [] \<Rightarrow> min (unat old_index) (length ls - 1))"

definition retarget_property ::
    "gpu_group option \<Rightarrow> gpu_group \<Rightarrow> string \<Rightarrow> normalize_error + gpu_group \<times> gpu_issue list" where
  "retarget_property source_group g name =
     (case find_index (\<lambda>p. prop_name p = name) (header_properties g) of
        None \<Rightarrow> Inr (g, [])
      | Some pos \<Rightarrow>
          let p = header_properties g ! pos in
          if prop_cells p = [] \<or> group_levels g = [] then Inl NormalizePanic
          else
            let old_index = retarget_index source_group (prop_cells p ! 0) name;
                old_frequency = source_frequency source_group old_index;
                matching = (case old_frequency of None \<Rightarrow> []
                  | Some f \<Rightarrow> matching_indices f (group_levels g));
                retargeted = retarget_position old_index old_frequency (group_levels g)
            in case level_frequency (group_levels g ! retargeted) of
                 None \<Rightarrow> Inl NormalizePanic
               | Some new_frequency \<Rightarrow>
                   bind_r (set_first_cell (of_nat retargeted) p) (\<lambda>p'.
                     Inr (g\<lparr>header_properties := (header_properties g)[pos := p']\<rparr>,
                       retarget_advisories g name old_frequency matching new_frequency retargeted)))"

text \<open>One round of the loop over the levels: the row takes its position as id and as \<open>reg\<close>.\<close>

definition renumber_level :: "nat \<Rightarrow> gpu_level \<Rightarrow> normalize_error + gpu_level" where
  "renumber_level pos l =
     (if \<not> pos < 2 ^ 32 then Inl TooManyLevels
      else case find_index (\<lambda>p. prop_name p = ''reg'') (level_properties l) of
          None \<Rightarrow> Inl NormalizePanic
        | Some i \<Rightarrow> bind_r (set_first_cell (of_nat pos) (level_properties l ! i)) (\<lambda>p'.
            Inr (l\<lparr>level_id := of_nat pos, level_properties := (level_properties l)[i := p']\<rparr>)))"

fun renumber_levels :: "nat \<Rightarrow> gpu_level list \<Rightarrow> normalize_error + gpu_level list" where
  "renumber_levels pos [] = Inr []"
| "renumber_levels pos (l # ls) =
     bind_r (renumber_level pos l) (\<lambda>l'.
       bind_r (renumber_levels (Suc pos) ls) (\<lambda>ls'. Inr (l' # ls')))"

definition normalize_group :: "gpu_table \<Rightarrow> gpu_group \<Rightarrow> normalize_error + gpu_group \<times> gpu_issue list" where
  "normalize_group source g =
     (let sg = List.find (\<lambda>c. group_id c = group_id g) (table_groups source) in
      bind_r (retarget_property sg g ''qcom,initial-pwrlevel'') (\<lambda>(g1, adv1).
        bind_r (retarget_property sg g1 ''qcom,initial-min-pwrlevel'') (\<lambda>(g2, adv2).
          bind_r (renumber_levels 0 (group_levels g2)) (\<lambda>ls.
            Inr (g2\<lparr>group_levels := ls\<rparr>, adv1 @ adv2)))))"

fun normalize_groups ::
    "gpu_table \<Rightarrow> gpu_group list \<Rightarrow> normalize_error + gpu_group list \<times> gpu_issue list" where
  "normalize_groups source [] = Inr ([], [])"
| "normalize_groups source (g # gs) =
     bind_r (normalize_group source g) (\<lambda>(g', adv).
       bind_r (normalize_groups source gs) (\<lambda>(gs', advs). Inr (g' # gs', adv @ advs)))"

definition normalize_edited_gpu_table ::
    "gpu_table \<Rightarrow> gpu_table \<Rightarrow> normalize_error + gpu_table \<times> gpu_issue list" where
  "normalize_edited_gpu_table source edited =
     (let v = validate_gpu_table edited in
      case hard_errors v of
        first # _ \<Rightarrow> Inl (HardValidation (length (hard_errors v)) first)
      | [] \<Rightarrow>
          bind_r (normalize_groups source (table_groups edited)) (\<lambda>(gs, advs).
            Inr (edited\<lparr>table_groups := gs\<rparr>, warnings v @ advs)))"

end
