(* ===== verification/Export_Parse.thy ===== *)
theory Export_Parse
  imports Gpu_Table
begin

text \<open>
  The parser of a \<open>konabess://\<close> export (\<open>konabess/export.rs\<close>): strict base64, the framing of a gzip
  stream as a ZIP local entry, and the frequency table in device-tree syntax, line by line. The ZIP
  reader and the JSON deserialiser are third-party code and are arguments of \<open>parse_export\<close>.
\<close>

section \<open>Errors\<close>

datatype line_problem =
    NestedGroup | LevelOutsideGroup | UnmatchedTerminator | LevelPropertyCells | HeaderPropertyCells
  | PropertyOutsideGroup | MalformedNodeHeader | NodeIdNotDecimal | NodeIdTooBig
  | ExpectedProperty | InvalidPropertyName | ValueNotCells | InvalidCell string | NoCells
  | LevelEmpty | LevelWithoutReg | LevelRegMismatch u32 u32 | GroupWithoutLevels | GroupWithoutSelector

datatype export_error =
    NoUriPrefix | EmptyPayload | Base64Length | Base64Padding | Base64PaddingNotLast
  | Base64PaddingBits | Base64Character byte
  | GzipNotStream | GzipReservedFlags | GzipTruncatedExtra | GzipUnterminated string
  | GzipTruncatedHeader | GzipTooBig | GzipCompressedTooBig | GzipInflate | GzipSizeMismatch nat nat
  | InvalidJson | VoltageUnsupported | EmptyChip
  | LineError nat line_problem | EndsInsideNode | NoGroups
  | DuplicateName string string | DuplicateId string u32
  | ExportPanic

section \<open>Base64\<close>

definition base64_value :: "byte \<Rightarrow> export_error + byte" where
  "base64_value b =
     (if 65 \<le> b \<and> b \<le> 90 then Inr (b - 65)
      else if 97 \<le> b \<and> b \<le> 122 then Inr (b - 97 + 26)
      else if 48 \<le> b \<and> b \<le> 57 then Inr (b - 48 + 52)
      else if b = 43 then Inr 62
      else if b = 47 then Inr 63
      else Inl (Base64Character b))"

text \<open>\<open>=\<close> is 61. The count of padding characters of a block.\<close>

definition base64_padding :: "byte \<Rightarrow> byte \<Rightarrow> export_error + nat" where
  "base64_padding x y =
     (if x = 61 \<and> y = 61 then Inr 2
      else if y = 61 then Inr 1
      else if x = 61 then Inl Base64Padding
      else Inr 0)"

definition decode_base64_block ::
    "bool \<Rightarrow> byte \<Rightarrow> byte \<Rightarrow> byte \<Rightarrow> byte \<Rightarrow> export_error + byte list" where
  "decode_base64_block is_last b0 b1 b2 b3 =
     bind_r (base64_padding b2 b3) (\<lambda>padding.
     bind_r (ensure (padding = 0 \<or> is_last) Base64PaddingNotLast) (\<lambda>_.
     bind_r (base64_value b0) (\<lambda>a.
     bind_r (base64_value b1) (\<lambda>b.
     bind_r (if padding = 2 then Inr 0 else base64_value b2) (\<lambda>c.
     bind_r (if padding = 0 then base64_value b3 else Inr 0) (\<lambda>d.
     bind_r (ensure (\<not> (padding = 2 \<and> b AND 0x0F \<noteq> 0 \<or> padding = 1 \<and> c AND 0x03 \<noteq> 0))
       Base64PaddingBits) (\<lambda>_.
     Inr ([push_bit 2 a OR drop_bit 4 b] @
       (if padding < 2 then [push_bit 4 b OR drop_bit 2 c] else []) @
       (if padding = 0 then [push_bit 6 c OR d] else [])))))))))"

fun decode_base64_blocks :: "byte list \<Rightarrow> export_error + byte list" where
  "decode_base64_blocks (b0 # b1 # b2 # b3 # rest) =
     bind_r (decode_base64_block (rest = []) b0 b1 b2 b3) (\<lambda>out.
       bind_r (decode_base64_blocks rest) (\<lambda>more. Inr (out @ more)))"
| "decode_base64_blocks _ = Inr []"

definition decode_base64 :: "byte list \<Rightarrow> export_error + byte list" where
  "decode_base64 input =
     (if length input mod 4 \<noteq> 0 then Inl Base64Length else decode_base64_blocks input)"

section \<open>Gzip framing\<close>

definition MAX_EXPORT_JSON_SIZE :: nat where
  "MAX_EXPORT_JSON_SIZE = 4 * 1024 * 1024"

fun position_of :: "'a \<Rightarrow> 'a list \<Rightarrow> nat option" where
  "position_of a [] = None"
| "position_of a (x # xs) = (if x = a then Some 0 else map_option Suc (position_of a xs))"

definition skip_gzip_c_string :: "byte list \<Rightarrow> nat \<Rightarrow> nat \<Rightarrow> string \<Rightarrow> export_error + nat" where
  "skip_gzip_c_string input start limit field =
     (case Option.bind (slice input start limit) (position_of 0) of
        None \<Rightarrow> Inl (GzipUnterminated field)
      | Some relative \<Rightarrow> Inr (start + relative + 1))"

text \<open>The end of the optional header fields.\<close>

definition gzip_payload_start :: "byte list \<Rightarrow> nat \<Rightarrow> export_error + nat" where
  "gzip_payload_start input footer_start =
     (let flags = input ! 3 in
      bind_r (if flags AND 0x04 \<noteq> 0
              then (case slice input 10 12 of
                  None \<Rightarrow> Inl GzipTruncatedExtra
                | Some l \<Rightarrow> Inr (10 + (2 + unat (u16_of_le (l ! 0) (l ! 1)))))
              else Inr 10) (\<lambda>p1.
      bind_r (if flags AND 0x08 \<noteq> 0 then skip_gzip_c_string input p1 footer_start ''file name''
              else Inr p1) (\<lambda>p2.
      bind_r (if flags AND 0x10 \<noteq> 0 then skip_gzip_c_string input p2 footer_start ''comment''
              else Inr p2) (\<lambda>p3.
      Inr (if flags AND 0x02 \<noteq> 0 then p3 + 2 else p3)))))"

definition u16_le :: "u16 \<Rightarrow> byte list" where
  "u16_le w = [ucast w, ucast (drop_bit 8 w)]"

text \<open>The synthetic ZIP local entry around the DEFLATE stream.\<close>

definition zip_local_entry :: "byte list \<Rightarrow> byte list \<Rightarrow> u32 \<Rightarrow> byte list" where
  "zip_local_entry compressed crc expected_size =
     u32_le 0x04034B50 @ u16_le 20 @ u16_le 0 @ u16_le 8 @ u16_le 0 @ u16_le 0 @ crc @
     u32_le (of_nat (length compressed)) @ u32_le expected_size @ u16_le 1 @ u16_le 0 @
     [120] @ compressed"

text \<open>
  \<open>unzip\<close> stands for \<open>zip::read::read_zipfile_from_stream\<close> and \<open>read_to_end\<close> on the entry: the
  decompressed bytes, or nothing when either fails or the stream holds no entry.
\<close>

definition decode_gzip :: "(byte list \<Rightarrow> byte list option) \<Rightarrow> byte list \<Rightarrow> export_error + byte list" where
  "decode_gzip unzip input =
     bind_r (ensure (\<not> (length input < 18 \<or> take 3 input \<noteq> [0x1F, 0x8B, 8])) GzipNotStream) (\<lambda>_.
     bind_r (ensure (input ! 3 AND 0xE0 = 0) GzipReservedFlags) (\<lambda>_.
     let footer_start = length input - 8 in
     bind_r (gzip_payload_start input footer_start) (\<lambda>position.
     bind_r (ensure (\<not> position > footer_start) GzipTruncatedHeader) (\<lambda>_.
     let compressed = window input position footer_start;
         crc = window input footer_start (footer_start + 4);
         expected_size = rd32_le input (footer_start + 4)
     in
     bind_r (ensure (\<not> unat expected_size > MAX_EXPORT_JSON_SIZE) GzipTooBig) (\<lambda>_.
     bind_r (ensure (length compressed < 2 ^ 32) GzipCompressedTooBig) (\<lambda>_.
     bind_r (ok_or (unzip (zip_local_entry compressed crc expected_size)) GzipInflate) (\<lambda>output.
     bind_r (ensure (length output = unat expected_size)
       (GzipSizeMismatch (unat expected_size) (length output))) (\<lambda>_.
     Inr output))))))))"

section \<open>One line of the table\<close>

definition parse_node_header :: "string \<Rightarrow> string \<Rightarrow> nat \<Rightarrow> export_error + u32 option" where
  "parse_node_header line pre line_number =
     (case strip_prefix pre line of
        None \<Rightarrow> Inr None
      | Some rest \<Rightarrow>
          bind_r (ok_or (strip_suffix '' {'' rest) (LineError line_number MalformedNodeHeader)) (\<lambda>id_text.
          if id_text = [] \<or> \<not> (\<forall>c \<in> set id_text. is_ascii_digit c)
          then Inl (LineError line_number NodeIdNotDecimal)
          else bind_r (ok_or (u32_from_str_radix id_text 10) (LineError line_number NodeIdTooBig))
            (\<lambda>i. Inr (Some i))))"

definition parse_cell :: "string \<Rightarrow> nat \<Rightarrow> export_error + u32" where
  "parse_cell cell line_number =
     (case parse_gpu_cell cell of
        Inl _ \<Rightarrow> Inl (LineError line_number (InvalidCell cell))
      | Inr v \<Rightarrow> Inr v)"

fun parse_cells :: "string list \<Rightarrow> nat \<Rightarrow> export_error + u32 list" where
  "parse_cells [] line_number = Inr []"
| "parse_cells (c # cs) line_number =
     bind_r (parse_cell c line_number) (\<lambda>v.
       bind_r (parse_cells cs line_number) (\<lambda>vs. Inr (v # vs)))"

definition property_name_char :: "char \<Rightarrow> bool" where
  "property_name_char c \<longleftrightarrow> is_ascii_digit c \<or>
     (CHR ''A'' \<le> c \<and> c \<le> CHR ''Z'') \<or> (CHR ''a'' \<le> c \<and> c \<le> CHR ''z'') \<or>
     c \<in> {CHR ''#'', CHR '','', CHR ''-'', CHR ''_'', CHR ''.''}"

definition parse_property :: "string \<Rightarrow> nat \<Rightarrow> export_error + gpu_property" where
  "parse_property line line_number =
     bind_r (ok_or (Option.bind (strip_suffix '';'' line) (split_once '' = ''))
       (LineError line_number ExpectedProperty)) (\<lambda>(name, value).
     bind_r (ensure (\<not> (name = [] \<or> \<not> (\<forall>c \<in> set name. property_name_char c)))
       (LineError line_number InvalidPropertyName)) (\<lambda>_.
     bind_r (ok_or (Option.bind (strip_prefix ''<'' value) (strip_suffix ''>''))
       (LineError line_number ValueNotCells)) (\<lambda>cells_text.
     bind_r (parse_cells (split_ascii_whitespace cells_text) line_number) (\<lambda>cells.
     bind_r (ensure (cells \<noteq> []) (LineError line_number NoCells)) (\<lambda>_.
     Inr \<lparr>prop_name = name, prop_cells = cells\<rparr>)))))"

section \<open>Closing a node\<close>

fun ensure_unique_names :: "gpu_property list \<Rightarrow> gpu_property list \<Rightarrow> string \<Rightarrow> export_error + unit" where
  "ensure_unique_names prior [] kind = Inr ()"
| "ensure_unique_names prior (p # ps) kind =
     (if \<exists>q \<in> set prior. prop_name q = prop_name p then Inl (DuplicateName kind (prop_name p))
      else ensure_unique_names (prior @ [p]) ps kind)"

fun ensure_unique_ids :: "u32 list \<Rightarrow> u32 list \<Rightarrow> string \<Rightarrow> export_error + unit" where
  "ensure_unique_ids seen [] kind = Inr ()"
| "ensure_unique_ids seen (i # is) kind =
     (if i \<in> set seen then Inl (DuplicateId kind i) else ensure_unique_ids (seen @ [i]) is kind)"

definition validate_level :: "gpu_level \<Rightarrow> nat \<Rightarrow> export_error + unit" where
  "validate_level level line_number =
     bind_r (ensure (level_properties level \<noteq> []) (LineError line_number LevelEmpty)) (\<lambda>_.
     bind_r (ensure_unique_names [] (level_properties level) ''power-level property'') (\<lambda>_.
     bind_r (ok_or (find_property (level_properties level) ''reg'')
       (LineError line_number LevelWithoutReg)) (\<lambda>reg.
     if prop_cells reg = [] then Inl ExportPanic
     else ensure (prop_cells reg ! 0 = level_id level)
       (LineError line_number (LevelRegMismatch (level_id level) (prop_cells reg ! 0))))))"

definition is_selector :: "gpu_property \<Rightarrow> bool" where
  "is_selector p \<longleftrightarrow> prop_name p \<in> {''qcom,speed-bin'', ''qcom,sku-codes''}"

definition validate_group :: "gpu_group \<Rightarrow> nat \<Rightarrow> export_error + unit" where
  "validate_group grp line_number =
     bind_r (ensure (group_levels grp \<noteq> []) (LineError line_number GroupWithoutLevels)) (\<lambda>_.
     bind_r (ensure_unique_names [] (header_properties grp) ''group header property'') (\<lambda>_.
     bind_r (ensure (length (filter is_selector (header_properties grp)) \<noteq> 0)
       (LineError line_number GroupWithoutSelector)) (\<lambda>_.
     ensure_unique_ids [] (map level_id (group_levels grp)) ''power level'')))"

section \<open>The table\<close>

record table_parser =
  tp_groups :: "gpu_group list"
  tp_group :: "gpu_group option"
  tp_level :: "gpu_level option"

definition close_node :: "nat \<Rightarrow> table_parser \<Rightarrow> export_error + table_parser" where
  "close_node line_number st =
     (case tp_level st of
        Some level \<Rightarrow>
          bind_r (validate_level level line_number) (\<lambda>_.
            case tp_group st of
              None \<Rightarrow> Inl ExportPanic
            | Some grp \<Rightarrow>
                Inr (st\<lparr>tp_level := None,
                  tp_group := Some (grp\<lparr>group_levels := group_levels grp @ [level]\<rparr>)\<rparr>))
      | None \<Rightarrow>
          (case tp_group st of
             Some grp \<Rightarrow>
               bind_r (validate_group grp line_number) (\<lambda>_.
                 Inr (st\<lparr>tp_group := None, tp_groups := tp_groups st @ [grp]\<rparr>))
           | None \<Rightarrow> Inl (LineError line_number UnmatchedTerminator)))"

definition add_property :: "nat \<Rightarrow> gpu_property \<Rightarrow> table_parser \<Rightarrow> export_error + table_parser" where
  "add_property line_number p st =
     (case tp_level st of
        Some level \<Rightarrow>
          if length (prop_cells p) \<noteq> 1 then Inl (LineError line_number LevelPropertyCells)
          else Inr (st\<lparr>tp_level := Some (level\<lparr>level_properties := level_properties level @ [p]\<rparr>)\<rparr>)
      | None \<Rightarrow>
          (case tp_group st of
             Some grp \<Rightarrow>
               if length (prop_cells p) \<noteq> 1 \<and> prop_name p \<noteq> ''qcom,sku-codes''
               then Inl (LineError line_number HeaderPropertyCells)
               else Inr (st\<lparr>tp_group := Some
                 (grp\<lparr>header_properties := header_properties grp @ [p]\<rparr>)\<rparr>)
           | None \<Rightarrow> Inl (LineError line_number PropertyOutsideGroup)))"

text \<open>One round of the loop over the lines.\<close>

definition parse_table_line :: "nat \<Rightarrow> string \<Rightarrow> table_parser \<Rightarrow> export_error + table_parser" where
  "parse_table_line line_number raw_line st =
     (let line = trim_ws raw_line in
      if line = [] then Inr st
      else
        bind_r (parse_node_header line ''qcom,gpu-pwrlevels-'' line_number) (\<lambda>h.
        case h of
          Some i \<Rightarrow>
            if tp_group st \<noteq> None \<or> tp_level st \<noteq> None then Inl (LineError line_number NestedGroup)
            else Inr (st\<lparr>tp_group := Some \<lparr>group_id = i, header_properties = [], group_levels = []\<rparr>\<rparr>)
        | None \<Rightarrow>
        bind_r (parse_node_header line ''qcom,gpu-pwrlevel@'' line_number) (\<lambda>h.
        case h of
          Some i \<Rightarrow>
            if tp_group st = None \<or> tp_level st \<noteq> None then Inl (LineError line_number LevelOutsideGroup)
            else Inr (st\<lparr>tp_level := Some \<lparr>level_id = i, level_properties = []\<rparr>\<rparr>)
        | None \<Rightarrow>
            if line = ''};'' then close_node line_number st
            else bind_r (parse_property line line_number) (\<lambda>p. add_property line_number p st))))"

fun parse_table_lines :: "nat \<Rightarrow> string list \<Rightarrow> table_parser \<Rightarrow> export_error + table_parser" where
  "parse_table_lines line_number [] st = Inr st"
| "parse_table_lines line_number (l # ls) st =
     bind_r (parse_table_line line_number l st) (parse_table_lines (Suc line_number) ls)"

definition parse_frequency_table :: "string \<Rightarrow> export_error + gpu_table" where
  "parse_frequency_table input =
     bind_r (parse_table_lines 1 (str_lines input)
       \<lparr>tp_groups = [], tp_group = None, tp_level = None\<rparr>) (\<lambda>st.
     bind_r (ensure (\<not> (tp_level st \<noteq> None \<or> tp_group st \<noteq> None)) EndsInsideNode) (\<lambda>_.
     bind_r (ensure (tp_groups st \<noteq> []) NoGroups) (\<lambda>_.
     bind_r (ensure_unique_ids [] (map group_id (tp_groups st)) ''GPU group'') (\<lambda>_.
     Inr \<lparr>table_groups = tp_groups st\<rparr>))))"

section \<open>The export\<close>

text \<open>\<open>ExportJson\<close>; of the voltage table only its presence matters.\<close>

record export_json =
  json_chip :: string
  json_desc :: string
  json_freq :: string
  json_volt_present :: bool

definition URI_PREFIX :: string where
  "URI_PREFIX = ''konabess://''"

definition parse_export ::
    "(byte list \<Rightarrow> byte list option) \<Rightarrow> (byte list \<Rightarrow> export_json option) \<Rightarrow> string \<Rightarrow>
     export_error + konabess_export" where
  "parse_export unzip from_json input0 =
     (let input = trim_ws input0 in
     bind_r (ok_or (strip_prefix URI_PREFIX input) NoUriPrefix) (\<lambda>payload.
     bind_r (ensure (payload \<noteq> []) EmptyPayload) (\<lambda>_.
     bind_r (decode_base64 (as_bytes payload)) (\<lambda>compressed.
     bind_r (decode_gzip unzip compressed) (\<lambda>json_bytes.
     bind_r (ok_or (from_json json_bytes) InvalidJson) (\<lambda>raw.
     bind_r (ensure (\<not> json_volt_present raw) VoltageUnsupported) (\<lambda>_.
     bind_r (ensure (trim_ws (json_chip raw) \<noteq> []) EmptyChip) (\<lambda>_.
     bind_r (parse_frequency_table (json_freq raw)) (\<lambda>t.
     Inr \<lparr>export_chip = json_chip raw, export_description = json_desc raw,
       export_table = t\<rparr>)))))))))"

end
