(* ===== verification/Export_Table.thy ===== *)
theory Export_Table
  imports Export_Parse
begin

text \<open>
  The frequency-table parser of an export: every table it returns satisfies the rules of the format,
  no \<open>expect\<close> or index expression in it can panic, and it reads back every such table from the
  canonical text of the format.
\<close>

section \<open>The rules of the format\<close>

definition name_ok :: "string \<Rightarrow> bool" where
  "name_ok n \<longleftrightarrow> n \<noteq> [] \<and> (\<forall>c \<in> set n. property_name_char c) \<and> \<not> prefix ''qcom,gpu-pwrlevels-'' n"

definition header_ok :: "gpu_property \<Rightarrow> bool" where
  "header_ok p \<longleftrightarrow> name_ok (prop_name p) \<and> prop_cells p \<noteq> [] \<and>
     (prop_name p \<noteq> ''qcom,sku-codes'' \<longrightarrow> length (prop_cells p) = 1)"

definition cell_ok :: "gpu_property \<Rightarrow> bool" where
  "cell_ok p \<longleftrightarrow> name_ok (prop_name p) \<and> length (prop_cells p) = 1"

definition export_level_ok :: "gpu_level \<Rightarrow> bool" where
  "export_level_ok l \<longleftrightarrow> (\<forall>p \<in> set (level_properties l). cell_ok p) \<and>
     distinct (map prop_name (level_properties l)) \<and>
     scalar_property (level_properties l) ''reg'' = Some (level_id l)"

definition export_group_ok :: "gpu_group \<Rightarrow> bool" where
  "export_group_ok g \<longleftrightarrow> (\<forall>p \<in> set (header_properties g). header_ok p) \<and>
     distinct (map prop_name (header_properties g)) \<and>
     (\<exists>p \<in> set (header_properties g). is_selector p) \<and> group_levels g \<noteq> [] \<and>
     (\<forall>l \<in> set (group_levels g). export_level_ok l) \<and> distinct (map level_id (group_levels g))"

definition export_table_ok :: "gpu_table \<Rightarrow> bool" where
  "export_table_ok t \<longleftrightarrow> table_groups t \<noteq> [] \<and> (\<forall>g \<in> set (table_groups t). export_group_ok g) \<and>
     distinct (map group_id (table_groups t))"

lemma ensure_unique_names_iff:
  "ensure_unique_names prior ps kind = Inr u \<longleftrightarrow>
    distinct (map prop_name ps) \<and> prop_name ` set prior \<inter> prop_name ` set ps = {}"
  by (induction prior ps kind rule: ensure_unique_names.induct)
    (simp_all only: ensure_unique_names.simps bex_same_iff, auto)

lemma ensure_unique_ids_iff:
  "ensure_unique_ids seen is kind = Inr u \<longleftrightarrow> distinct is \<and> set seen \<inter> set is = {}"
  by (induction seen "is" kind rule: ensure_unique_ids.induct) auto

lemma unique_names_not_panic: "ensure_unique_names prior ps kind \<noteq> Inl ExportPanic"
  by (induction prior ps kind rule: ensure_unique_names.induct) auto

lemma unique_ids_not_panic: "ensure_unique_ids seen is kind \<noteq> Inl ExportPanic"
  by (induction seen "is" kind rule: ensure_unique_ids.induct) auto

section \<open>Soundness\<close>

text \<open>The invariant of the loop over the lines.\<close>

definition open_group_ok :: "gpu_group \<Rightarrow> bool" where
  "open_group_ok g \<longleftrightarrow> (\<forall>p \<in> set (header_properties g). header_ok p) \<and>
     (\<forall>l \<in> set (group_levels g). export_level_ok l)"

definition parser_ok :: "table_parser \<Rightarrow> bool" where
  "parser_ok st \<longleftrightarrow> (\<forall>g \<in> set (tp_groups st). export_group_ok g) \<and>
     (\<forall>g. tp_group st = Some g \<longrightarrow> open_group_ok g) \<and>
     (\<forall>l. tp_level st = Some l \<longrightarrow> tp_group st \<noteq> None \<and> (\<forall>p \<in> set (level_properties l). cell_ok p))"

lemma parse_cells_not_panic: "parse_cells cs n \<noteq> Inl ExportPanic"
  by (induction cs) (auto simp: parse_cell_def bind_r_Inl_iff split: sum.splits)

lemma parse_property_not_panic: "parse_property line n \<noteq> Inl ExportPanic"
  by (auto simp: parse_property_def bind_r_Inl_iff ensure_Inl_iff parse_cells_not_panic ok_or_def
      split: option.splits prod.splits)

lemma parse_node_header_not_panic: "parse_node_header line pre n \<noteq> Inl ExportPanic"
  by (auto simp: parse_node_header_def bind_r_Inl_iff ok_or_def split: option.splits)

lemma parse_property_sound:
  assumes "parse_property line n = Inr p"
    and "strip_prefix ''qcom,gpu-pwrlevels-'' line = None"
  shows "name_ok (prop_name p) \<and> prop_cells p \<noteq> []"
proof -
  from assms(1) obtain body name val where split: "strip_suffix '';'' line = Some body"
    "split_once '' = '' body = Some (name, val)" and p: "prop_name p = name" "prop_cells p \<noteq> []"
    "name \<noteq> []" "\<forall>c \<in> set name. property_name_char c"
    by (auto simp: parse_property_def bind_r_Inr_iff ok_or_Inr_iff ensure_Inr_iff bind_eq_Some_conv)
  have "line = name @ '' = '' @ val @ '';''"
    using split by (auto simp: strip_suffix_Some_iff dest: split_once_Some)
  then have "\<not> prefix ''qcom,gpu-pwrlevels-'' name"
    using assms(2) by (auto simp: strip_prefix_def prefix_def split: if_splits)
  with p show ?thesis by (simp add: name_ok_def)
qed

lemma scalar_reg:
  assumes "find_property ps ''reg'' = Some r" and "\<forall>p \<in> set ps. cell_ok p"
  shows "prop_cells r \<noteq> [] \<and> (prop_cells r ! 0 = i \<longrightarrow> scalar_property ps ''reg'' = Some i)"
proof -
  have "r \<in> set ps" using assms(1) by (auto simp: find_property_def find_Some_iff)
  then have "length (prop_cells r) = 1" using assms(2) by (simp add: cell_ok_def)
  with assms(1) show ?thesis by (auto simp: scalar_property_def)
qed

lemma validate_level_sound:
  assumes "validate_level l n = Inr u" and "\<forall>p \<in> set (level_properties l). cell_ok p"
  shows "export_level_ok l"
  using assms scalar_reg [OF _ assms(2), of _ "level_id l"]
  by (auto simp: validate_level_def bind_r_Inr_iff ensure_Inr_iff ok_or_Inr_iff
      ensure_unique_names_iff export_level_ok_def split: if_splits)

lemma validate_level_not_panic:
  assumes "\<forall>p \<in> set (level_properties l). cell_ok p"
  shows "validate_level l n \<noteq> Inl ExportPanic"
  using scalar_reg [OF _ assms]
  by (auto simp: validate_level_def bind_r_Inl_iff ensure_Inl_iff ok_or_def
      unique_names_not_panic split: option.splits if_splits)

lemma validate_group_sound:
  assumes "validate_group g n = Inr u" and "open_group_ok g"
  shows "export_group_ok g"
  using assms
  by (auto simp: validate_group_def bind_r_Inr_iff ensure_Inr_iff ensure_unique_names_iff
      ensure_unique_ids_iff export_group_ok_def open_group_ok_def filter_empty_conv)

lemma validate_group_not_panic: "validate_group g n \<noteq> Inl ExportPanic"
  by (auto simp: validate_group_def bind_r_Inl_iff ensure_Inl_iff unique_names_not_panic
      unique_ids_not_panic)

lemma close_node_ok:
  assumes "parser_ok st"
  shows "close_node n st \<noteq> Inl ExportPanic" and "close_node n st = Inr st' \<Longrightarrow> parser_ok st'"
  using assms validate_level_not_panic validate_group_not_panic validate_level_sound
    validate_group_sound
  by (fastforce simp: close_node_def parser_ok_def open_group_ok_def bind_r_Inl_iff bind_r_Inr_iff
      split: option.splits)+

lemma add_property_ok:
  assumes "parser_ok st" and "name_ok (prop_name p)" and "prop_cells p \<noteq> []"
  shows "add_property n p st \<noteq> Inl ExportPanic" and "add_property n p st = Inr st' \<Longrightarrow> parser_ok st'"
  using assms
  by (auto simp: add_property_def parser_ok_def open_group_ok_def cell_ok_def header_ok_def
      split: option.splits if_splits)

lemma parse_table_line_ok:
  assumes "parser_ok st"
  shows "parse_table_line n l st \<noteq> Inl ExportPanic"
    and "parse_table_line n l st = Inr st' \<Longrightarrow> parser_ok st'"
proof -
  let ?l = "trim_ws l"
  have h: "strip_prefix ''qcom,gpu-pwrlevels-'' ?l = None"
    if "parse_node_header ?l ''qcom,gpu-pwrlevels-'' n = Inr None"
    using that by (auto simp: parse_node_header_def bind_r_Inr_iff split: option.splits if_splits)
  show "parse_table_line n l st \<noteq> Inl ExportPanic"
    using close_node_ok(1) [OF assms] add_property_ok(1) [OF assms] parse_property_sound [of ?l n]
      parse_property_not_panic parse_node_header_not_panic h
    by (auto simp: parse_table_line_def Let_def bind_r_Inl_iff split: if_splits option.splits)
  assume st': "parse_table_line n l st = Inr st'"
  show "parser_ok st'"
  proof (cases "?l = []")
    case True
    then show ?thesis using st' assms by (simp add: parse_table_line_def)
  next
    case False
    then obtain h1 where h1: "parse_node_header ?l ''qcom,gpu-pwrlevels-'' n = Inr h1"
      using st' by (auto simp: parse_table_line_def Let_def bind_r_Inr_iff)
    show ?thesis
    proof (cases h1)
      case (Some i)
      then show ?thesis
        using st' False h1 assms
        by (simp add: parse_table_line_def parser_ok_def open_group_ok_def split: if_splits)
          (elim conjE; hypsubst; simp add: parser_ok_def)
    next
      case None
      then obtain h2 where h2: "parse_node_header ?l ''qcom,gpu-pwrlevel@'' n = Inr h2"
        using st' False h1 by (auto simp: parse_table_line_def Let_def bind_r_Inr_iff)
      show ?thesis
      proof (cases h2)
        case (Some i)
        then show ?thesis
          using st' False h1 h2 None assms
          by (simp add: parse_table_line_def parser_ok_def open_group_ok_def split: if_splits)
            (elim conjE; hypsubst; simp add: parser_ok_def)
      next
        case None2: None
        show ?thesis
        proof (cases "?l = ''};''")
          case True
          then show ?thesis
            using st' h1 h2 None None2 close_node_ok(2) [OF assms] by (simp add: parse_table_line_def)
        next
          case neq: False
          then obtain p where p: "parse_property ?l n = Inr p" "add_property n p st = Inr st'"
            using st' False h1 h2 None None2
            by (auto simp: parse_table_line_def Let_def bind_r_Inr_iff)
          have "name_ok (prop_name p) \<and> prop_cells p \<noteq> []"
            using parse_property_sound [OF p(1)] h h1 None by simp
          then show ?thesis using add_property_ok(2) [OF assms _ _ p(2)] by blast
        qed
      qed
    qed
  qed
qed

lemma parse_table_lines_ok:
  assumes "parser_ok st"
  shows "parse_table_lines n ls st \<noteq> Inl ExportPanic"
    and "parse_table_lines n ls st = Inr st' \<Longrightarrow> parser_ok st'"
proof -
  have "parse_table_lines n ls st \<noteq> Inl ExportPanic \<and>
      (\<forall>st'. parse_table_lines n ls st = Inr st' \<longrightarrow> parser_ok st')"
    using assms
    by (induction n ls st rule: parse_table_lines.induct)
      (auto simp: bind_r_Inl_iff bind_r_Inr_iff dest: parse_table_line_ok)
  then show "parse_table_lines n ls st \<noteq> Inl ExportPanic"
    and "parse_table_lines n ls st = Inr st' \<Longrightarrow> parser_ok st'" by blast+
qed

lemma parser_start_ok: "parser_ok \<lparr>tp_groups = [], tp_group = None, tp_level = None\<rparr>"
  by (simp add: parser_ok_def)

text \<open>
  (C30) Every table that \<open>parse_frequency_table\<close> returns satisfies the rules of the format: at least one
  group, unique group ids, each group with at least one level, a selector property and uniquely named
  header properties (scalar except the SKU codes), each level with a unique id equal to its scalar
  \<open>reg\<close> and uniquely named scalar properties. And the parser never panics on any text.
\<close>

theorem parse_frequency_table_sound:
  "case parse_frequency_table input of Inr t \<Rightarrow> export_table_ok t | Inl e \<Rightarrow> e \<noteq> ExportPanic"
proof -
  note start = parse_table_lines_ok [OF parser_start_ok, of 1 "str_lines input"]
  have "export_table_ok t" if "parse_frequency_table input = Inr t" for t
    using that start(2)
    by (auto simp: parse_frequency_table_def bind_r_Inr_iff ensure_Inr_iff ensure_unique_ids_iff
        export_table_ok_def parser_ok_def)
  moreover have "parse_frequency_table input \<noteq> Inl ExportPanic"
    using start(1)
    by (auto simp: parse_frequency_table_def bind_r_Inl_iff ensure_Inl_iff unique_ids_not_panic)
  ultimately show ?thesis by (auto split: sum.splits)
qed

section \<open>Completeness\<close>

text \<open>The canonical text of a table: one node header, property or terminator on each line.\<close>

fun join_words :: "string list \<Rightarrow> string" where
  "join_words [] = []"
| "join_words [w] = w"
| "join_words (w # v # ws) = w @ '' '' @ join_words (v # ws)"

definition property_line :: "gpu_property \<Rightarrow> string" where
  "property_line p = prop_name p @ '' = <'' @ join_words (map dec32 (prop_cells p)) @ ''>;''"

definition level_lines :: "gpu_level \<Rightarrow> string list" where
  "level_lines l = (''qcom,gpu-pwrlevel@'' @ dec32 (level_id l) @ '' {'') #
     map property_line (level_properties l) @ [''};'']"

definition group_lines :: "gpu_group \<Rightarrow> string list" where
  "group_lines g = (''qcom,gpu-pwrlevels-'' @ dec32 (group_id g) @ '' {'') #
     map property_line (header_properties g) @ concat (map level_lines (group_levels g)) @ [''};'']"

definition table_text :: "gpu_table \<Rightarrow> string" where
  "table_text t = concat (map (\<lambda>l. l @ [CHR 0x0A]) (concat (map group_lines (table_groups t))))"

text \<open>A line without white space at its ends and without a line feed in it.\<close>

definition solid :: "char \<Rightarrow> bool" where
  "solid c \<longleftrightarrow> (33 :: nat) \<le> of_char c \<and> of_char c < (127 :: nat)"

definition clean_line :: "string \<Rightarrow> bool" where
  "clean_line l \<longleftrightarrow> l \<noteq> [] \<and> solid (hd l) \<and> solid (last l) \<and> CHR 0x0A \<notin> set l"

lemma trim_front_solid: "l \<noteq> [] \<Longrightarrow> solid (hd l) \<Longrightarrow> trim_front l = l"
  by (subst trim_front.simps)
    (cases l; auto simp: ws_front_def ws1_def ws2_def solid_def Let_def split: list.splits)

lemma trim_back_rev_solid: "l \<noteq> [] \<Longrightarrow> solid (hd l) \<Longrightarrow> trim_back_rev l = l"
  by (subst trim_back_rev.simps)
    (cases l; auto simp: ws_back_def ws1_def ws2_def solid_def Let_def split: list.splits)

lemma trim_clean: "clean_line l \<Longrightarrow> trim_ws l = l"
  using trim_front_solid [of l] trim_back_rev_solid [of "rev l"]
  by (simp add: trim_ws_def clean_line_def hd_rev)

lemma lines_from_clean:
  "CHR 0x0A \<notin> set l \<Longrightarrow> acc @ l \<noteq> [] \<Longrightarrow> last (acc @ l) \<noteq> CHR 0x0D \<Longrightarrow>
    lines_from acc (l @ CHR 0x0A # rest) = (acc @ l) # lines_from [] rest"
  by (induction l arbitrary: acc) auto

lemma str_lines_clean:
  "\<forall>l \<in> set ls. clean_line l \<Longrightarrow> str_lines (concat (map (\<lambda>l. l @ [CHR 0x0A]) ls)) = ls"
proof (induction ls)
  case (Cons l ls)
  then have "CHR 0x0A \<notin> set l" "l \<noteq> []" "last l \<noteq> CHR 0x0D"
    by (auto simp: clean_line_def solid_def)
  then show ?case using Cons by (simp add: str_lines_def lines_from_clean)
qed (simp add: str_lines_def)

lemma words_from_word:
  "\<forall>c \<in> set w. \<not> ascii_whitespace c \<Longrightarrow> words_from a (w @ s) = words_from (a @ w) s"
  by (induction w arbitrary: a) auto

lemma split_join_words:
  "\<forall>w \<in> set ws. w \<noteq> [] \<and> (\<forall>c \<in> set w. \<not> ascii_whitespace c) \<Longrightarrow>
    split_ascii_whitespace (join_words ws) = ws"
proof (induction ws rule: join_words.induct)
  case (2 w)
  then show ?case using words_from_word [of w "[]" "[]"] by (simp add: split_ascii_whitespace_def)
next
  case (3 w v ws)
  then show ?case
    using words_from_word [of w "[]" "'' '' @ join_words (v # ws)"]
    by (simp add: split_ascii_whitespace_def ascii_whitespace_def)
qed (simp add: split_ascii_whitespace_def)

lemma dec32_digits: "c \<in> set (dec32 w) \<Longrightarrow> is_ascii_digit c"
  by (auto simp: dec32_def dec_digits)

lemma dec32_nonempty [simp]: "dec32 w \<noteq> []"
  by (simp add: dec32_def)

lemma parse_dec32: "u32_from_str_radix (dec32 w) 10 = Some w"
  by (simp add: dec32_def u32_parse_dec)

lemma digit_solid: "is_ascii_digit c \<Longrightarrow> solid c"
  by (simp add: is_ascii_digit_def solid_def)

lemma digits_clean: "l \<noteq> [] \<Longrightarrow> \<forall>c \<in> set l. solid c \<Longrightarrow> clean_line l"
  by (auto simp: clean_line_def solid_def)

lemma dec32_not_hex: "\<not> prefix ''0x'' (dec32 w)" "\<not> prefix ''0X'' (dec32 w)"
  using dec32_digits [of "CHR ''x''" w] dec32_digits [of "CHR ''X''" w]
  by (auto simp: prefix_def is_ascii_digit_def)

lemma parse_cell_dec32: "parse_cell (dec32 w) n = Inr w"
proof -
  have "trim_ws (dec32 w) = dec32 w"
    by (intro trim_clean digits_clean) (auto dest: dec32_digits intro: digit_solid)
  then show ?thesis
    by (simp add: parse_cell_def parse_gpu_cell_def strip_prefix_def dec32_not_hex parse_dec32)
qed

lemma parse_cells_dec32: "parse_cells (map dec32 cs) n = Inr cs"
  by (induction cs) (simp_all add: parse_cell_dec32)

lemma name_char_solid: "property_name_char c \<Longrightarrow> solid c \<and> c \<noteq> CHR ''@'' \<and> c \<noteq> CHR ''}''"
  by (auto simp: property_name_char_def solid_def is_ascii_digit_def less_eq_char_def)

lemma name_ok_chars:
  assumes "name_ok n"
  shows "CHR '' '' \<notin> set n" and "CHR ''@'' \<notin> set n" and "CHR ''}'' \<notin> set n"
    and "CHR 0x0A \<notin> set n"
proof -
  have "\<not> property_name_char (CHR '' '')" "\<not> property_name_char (CHR ''@'')"
    "\<not> property_name_char (CHR ''}'')" "\<not> property_name_char (CHR 0x0A)"
    using name_char_solid [of "CHR '' ''"] name_char_solid [of "CHR 0x0A"]
      name_char_solid [of "CHR ''@''"] name_char_solid [of "CHR ''}''"]
    by (auto simp: solid_def)
  then show "CHR '' '' \<notin> set n" "CHR ''@'' \<notin> set n" "CHR ''}'' \<notin> set n" "CHR 0x0A \<notin> set n"
    using assms unfolding name_ok_def by metis+
qed

lemma split_once_first:
  "CHR '' '' \<notin> set a \<Longrightarrow> split_once '' = '' (a @ '' = '' @ b) = Some (a, b)"
  by (induction a) auto

lemma parse_property_line:
  assumes "name_ok (prop_name p)" and "prop_cells p \<noteq> []"
  shows "parse_property (property_line p) n = Inr p"
proof -
  have sp: "CHR '' '' \<notin> set (prop_name p)"
    using assms(1) by (rule name_ok_chars)
  let ?v = "''<'' @ join_words (map dec32 (prop_cells p)) @ ''>''"
  have line: "property_line p = (prop_name p @ '' = '' @ ?v) @ '';''" by (simp add: property_line_def)
  have ws: "\<forall>w \<in> set (map dec32 (prop_cells p)). w \<noteq> [] \<and> (\<forall>c \<in> set w. \<not> ascii_whitespace c)"
    by (auto simp: ascii_whitespace_def is_ascii_digit_def dest: dec32_digits)
  have "strip_suffix '';'' (property_line p) = Some (prop_name p @ '' = '' @ ?v)"
    by (simp only: line strip_suffix_append)
  moreover have "split_once '' = '' (prop_name p @ '' = '' @ ?v) = Some (prop_name p, ?v)"
    by (rule split_once_first [OF sp])
  moreover have "strip_prefix ''<'' ?v = Some (join_words (map dec32 (prop_cells p)) @ ''>'')"
    by (rule strip_prefix_append)
  ultimately show ?thesis
    using assms by (simp add: parse_property_def split_join_words [OF ws] parse_cells_dec32 name_ok_def)
qed

lemma property_line_clean: "name_ok (prop_name p) \<Longrightarrow> clean_line (property_line p)"
proof -
  assume n: "name_ok (prop_name p)"
  then have solid: "solid c" if "c \<in> set (prop_name p)" for c
    using that by (auto simp: name_ok_def dest: name_char_solid)
  have "CHR 0x0A \<notin> set (join_words (map dec32 cs))" for cs
    by (induction cs rule: induct_list012) (auto dest: dec32_digits simp: is_ascii_digit_def)
  then have cells: "CHR 0x0A \<notin> set (join_words (map dec32 (prop_cells p)))" .
  have ne: "prop_name p \<noteq> []" using n by (simp add: name_ok_def)
  have name: "CHR 0x0A \<notin> set (prop_name p)" using solid [of "CHR 0x0A"] by (auto simp: solid_def)
  have "solid (hd (property_line p))" using solid [of "hd (prop_name p)"] ne
    by (simp add: property_line_def)
  moreover have "solid (last (property_line p))" by (simp add: property_line_def solid_def)
  moreover have "CHR 0x0A \<notin> set (property_line p)" using cells name by (simp add: property_line_def)
  ultimately show ?thesis using ne by (simp add: clean_line_def property_line_def)
qed

lemma property_line_no_header:
  assumes "name_ok (prop_name p)"
  shows "parse_node_header (property_line p) ''qcom,gpu-pwrlevels-'' n = Inr None"
    and "parse_node_header (property_line p) ''qcom,gpu-pwrlevel@'' n = Inr None"
    and "property_line p \<noteq> ''};''" and "property_line p \<noteq> []"
proof -
  have no: "\<not> prefix q (name @ CHR '' '' # r)" if "\<not> prefix q name" "CHR '' '' \<notin> set q" for q name r
    using that by (auto simp: prefix_append prefix_Cons)
  have at: "\<not> prefix ''qcom,gpu-pwrlevel@'' (prop_name p)"
    using name_ok_chars(2) [OF assms] by (auto simp: prefix_def)
  show "parse_node_header (property_line p) ''qcom,gpu-pwrlevels-'' n = Inr None"
    using no [of "''qcom,gpu-pwrlevels-''" "prop_name p"] assms
    by (simp add: parse_node_header_def strip_prefix_def property_line_def name_ok_def)
  show "parse_node_header (property_line p) ''qcom,gpu-pwrlevel@'' n = Inr None"
    using no [of "''qcom,gpu-pwrlevel@''" "prop_name p"] at
    by (simp add: parse_node_header_def strip_prefix_def property_line_def)
  obtain c cs where "prop_name p = c # cs" "c \<noteq> CHR ''}''"
    using assms name_ok_chars(3) [OF assms] by (cases "prop_name p") (auto simp: name_ok_def)
  then show "property_line p \<noteq> ''};''" "property_line p \<noteq> []"
    by (simp_all add: property_line_def)
qed

lemma parse_header_line:
  "parse_node_header (pre @ dec32 i @ '' {'') pre n = Inr (Some i)"
proof -
  have "\<forall>c \<in> set (dec32 i). is_ascii_digit c" by (auto dest: dec32_digits)
  moreover have "strip_suffix '' {'' (dec32 i @ '' {'') = Some (dec32 i)" by (rule strip_suffix_append)
  ultimately show ?thesis by (simp add: parse_node_header_def parse_dec32)
qed

lemma header_line_clean:
  "solid (hd pre) \<Longrightarrow> pre \<noteq> [] \<Longrightarrow> CHR 0x0A \<notin> set pre \<Longrightarrow> clean_line (pre @ dec32 i @ '' {'')"
  using dec32_digits [of "CHR 0x0A" i] by (auto simp: clean_line_def is_ascii_digit_def solid_def)

text \<open>One line of each kind, in the state the kind needs.\<close>

lemma parse_line_property:
  assumes "name_ok (prop_name p)" and "prop_cells p \<noteq> []"
  shows "parse_table_line n (property_line p) st = add_property n p st"
  using property_line_no_header [OF assms(1)] parse_property_line [OF assms]
  by (simp add: parse_table_line_def trim_clean [OF property_line_clean [OF assms(1)]])

lemma parse_line_close: "parse_table_line n ''};'' st = close_node n st"
proof -
  have "trim_ws ''};'' = ''};''" by (rule trim_clean) (simp add: clean_line_def solid_def)
  then show ?thesis by (simp add: parse_table_line_def parse_node_header_def strip_prefix_def)
qed

lemma parse_line_level:
  assumes "tp_group st \<noteq> None" and "tp_level st = None"
  shows "parse_table_line n (''qcom,gpu-pwrlevel@'' @ dec32 i @ '' {'') st =
    Inr (st\<lparr>tp_level := Some \<lparr>level_id = i, level_properties = []\<rparr>\<rparr>)"
proof -
  let ?l = "''qcom,gpu-pwrlevel@'' @ dec32 i @ '' {''"
  have "trim_ws ?l = ?l" by (intro trim_clean header_line_clean) (simp_all add: solid_def)
  moreover have "parse_node_header ?l ''qcom,gpu-pwrlevels-'' n = Inr None"
    by (simp add: parse_node_header_def strip_prefix_def)
  ultimately show ?thesis
    using assms parse_header_line [of "''qcom,gpu-pwrlevel@''" i n]
    by (simp only: parse_table_line_def Let_def) simp
qed

lemma parse_line_group:
  assumes "tp_group st = None" and "tp_level st = None"
  shows "parse_table_line n (''qcom,gpu-pwrlevels-'' @ dec32 i @ '' {'') st =
    Inr (st\<lparr>tp_group := Some \<lparr>group_id = i, header_properties = [], group_levels = []\<rparr>\<rparr>)"
proof -
  let ?l = "''qcom,gpu-pwrlevels-'' @ dec32 i @ '' {''"
  have "trim_ws ?l = ?l" by (intro trim_clean header_line_clean) (simp_all add: solid_def)
  then show ?thesis
    using assms parse_header_line [of "''qcom,gpu-pwrlevels-''" i n]
    by (simp only: parse_table_line_def Let_def) simp
qed

text \<open>Sequences of lines.\<close>

lemma parse_table_lines_append:
  "parse_table_lines n (as @ bs) st =
    bind_r (parse_table_lines n as st) (parse_table_lines (n + length as) bs)"
  by (induction n as st rule: parse_table_lines.induct) (auto simp: bind_r_def split: sum.splits)

lemma parse_level_properties:
  assumes "\<forall>p \<in> set ps. cell_ok p"
  shows "parse_table_lines n (map property_line ps) (st\<lparr>tp_level := Some l\<rparr>) =
    Inr (st\<lparr>tp_level := Some (l\<lparr>level_properties := level_properties l @ ps\<rparr>)\<rparr>)"
  using assms
proof (induction ps arbitrary: l n)
  case (Cons p ps)
  then have "prop_cells p \<noteq> []" "name_ok (prop_name p)" "length (prop_cells p) = 1"
    by (auto simp: cell_ok_def)
  then show ?case
    using Cons.IH [of _ "l\<lparr>level_properties := level_properties l @ [p]\<rparr>"] Cons.prems
    by (simp add: parse_line_property add_property_def)
qed simp

lemma parse_header_properties:
  assumes "\<forall>p \<in> set ps. header_ok p" and "tp_level st = None"
  shows "parse_table_lines n (map property_line ps) (st\<lparr>tp_group := Some g\<rparr>) =
    Inr (st\<lparr>tp_group := Some (g\<lparr>header_properties := header_properties g @ ps\<rparr>)\<rparr>)"
  using assms(1)
proof (induction ps arbitrary: g n)
  case (Cons p ps)
  then have "prop_cells p \<noteq> []" "name_ok (prop_name p)"
    "length (prop_cells p) \<noteq> 1 \<longrightarrow> prop_name p = ''qcom,sku-codes''"
    by (auto simp: header_ok_def)
  then show ?case
    using Cons.IH [of _ "g\<lparr>header_properties := header_properties g @ [p]\<rparr>"] Cons.prems assms(2)
    by (auto simp: parse_line_property add_property_def)
qed simp

lemma validate_level_complete:
  assumes "export_level_ok l"
  shows "validate_level l n = Inr ()"
proof -
  have "scalar_property (level_properties l) ''reg'' = Some (level_id l)"
    using assms by (simp add: export_level_ok_def)
  then obtain r where r: "find_property (level_properties l) ''reg'' = Some r"
    "length (prop_cells r) = 1" "prop_cells r ! 0 = level_id l"
    by (auto simp: scalar_property_def split: option.splits if_splits)
  then have "level_properties l \<noteq> []" by (auto simp: find_property_def)
  moreover have "ensure_unique_names [] (level_properties l) ''power-level property'' = Inr ()"
    using assms by (simp add: ensure_unique_names_iff export_level_ok_def)
  ultimately show ?thesis using r by (auto simp: validate_level_def)
qed

lemma validate_group_complete:
  assumes "export_group_ok g"
  shows "validate_group g n = Inr ()"
proof -
  have "ensure_unique_names [] (header_properties g) ''group header property'' = Inr ()"
    "ensure_unique_ids [] (map level_id (group_levels g)) ''power level'' = Inr ()"
    using assms by (simp_all add: ensure_unique_names_iff ensure_unique_ids_iff export_group_ok_def)
  moreover have "filter is_selector (header_properties g) \<noteq> []"
    using assms by (auto simp: export_group_ok_def filter_empty_conv)
  ultimately show ?thesis using assms by (simp add: validate_group_def export_group_ok_def)
qed

lemma parse_level_lines:
  assumes "export_level_ok l" and "tp_group st = Some g" and "tp_level st = None"
  shows "parse_table_lines n (level_lines l) st =
    Inr (st\<lparr>tp_group := Some (g\<lparr>group_levels := group_levels g @ [l]\<rparr>)\<rparr>)"
proof -
  have "\<forall>p \<in> set (level_properties l). cell_ok p" using assms(1) by (simp add: export_level_ok_def)
  from parse_level_properties [OF this, where n = "Suc n" and st = st and l = "\<lparr>level_id = level_id l, level_properties = []\<rparr>"]
  moreover have "\<lparr>level_id = level_id l, level_properties = level_properties l\<rparr> = l" by simp
  moreover have "st\<lparr>tp_level := None, tp_group := x\<rparr> = st\<lparr>tp_group := x\<rparr>" for x
    using assms(3) by (cases st) simp
  ultimately show ?thesis
    using assms validate_level_complete [OF assms(1)]
    by (simp add: level_lines_def parse_table_lines_append parse_line_level parse_line_close
        close_node_def del: append.simps(2))
qed

lemma parse_levels_lines:
  assumes "\<forall>l \<in> set ls. export_level_ok l" and "tp_level st = None"
  shows "parse_table_lines n (concat (map level_lines ls)) (st\<lparr>tp_group := Some g\<rparr>) =
    Inr (st\<lparr>tp_group := Some (g\<lparr>group_levels := group_levels g @ ls\<rparr>)\<rparr>)"
  using assms(1)
proof (induction ls arbitrary: g n)
  case (Cons l ls)
  then show ?case
    using parse_level_lines [of l "st\<lparr>tp_group := Some g\<rparr>" g n]
      Cons.IH [of _ "g\<lparr>group_levels := group_levels g @ [l]\<rparr>"] assms(2)
    by (simp add: parse_table_lines_append)
qed simp

lemma parse_group_lines:
  assumes "export_group_ok g" and "tp_group st = None" and "tp_level st = None"
  shows "parse_table_lines n (group_lines g) st = Inr (st\<lparr>tp_groups := tp_groups st @ [g]\<rparr>)"
proof -
  let ?g0 = "\<lparr>group_id = group_id g, header_properties = [], group_levels = []\<rparr>"
  let ?g1 = "\<lparr>group_id = group_id g, header_properties = header_properties g, group_levels = []\<rparr>"
  have ok: "\<forall>p \<in> set (header_properties g). header_ok p" "\<forall>l \<in> set (group_levels g). export_level_ok l"
    using assms(1) by (simp_all add: export_group_ok_def)
  have "parse_table_lines k (map property_line (header_properties g)) (st\<lparr>tp_group := Some ?g0\<rparr>) =
      Inr (st\<lparr>tp_group := Some ?g1\<rparr>)" for k
    using parse_header_properties [OF ok(1) assms(3), where g = ?g0] by simp
  moreover have "parse_table_lines k (concat (map level_lines (group_levels g)))
      (st\<lparr>tp_group := Some ?g1\<rparr>) = Inr (st\<lparr>tp_group := Some g\<rparr>)" for k
    using parse_levels_lines [OF ok(2) assms(3), where g = ?g1] by simp
  moreover have "st\<lparr>tp_group := None, tp_groups := x\<rparr> = st\<lparr>tp_groups := x\<rparr>" for x
    using assms(2) by (cases st) simp
  ultimately show ?thesis
    using assms validate_group_complete [OF assms(1)]
    by (simp add: group_lines_def parse_table_lines_append parse_line_group parse_line_close
        close_node_def del: append.simps(2))
qed

lemma parse_groups_lines:
  assumes "\<forall>g \<in> set gs. export_group_ok g" and "tp_group st = None" and "tp_level st = None"
  shows "parse_table_lines n (concat (map group_lines gs)) st =
    Inr (st\<lparr>tp_groups := tp_groups st @ gs\<rparr>)"
  using assms
proof (induction gs arbitrary: st n)
  case (Cons g gs)
  then show ?case by (simp add: parse_table_lines_append parse_group_lines)
qed simp

lemma group_lines_clean:
  assumes "export_group_ok g" and "l \<in> set (group_lines g)"
  shows "clean_line l"
proof -
  have close: "clean_line ''};''" by (simp add: clean_line_def solid_def)
  have group: "clean_line (''qcom,gpu-pwrlevels-'' @ dec32 i @ '' {'')" for i
    by (rule header_line_clean) (simp_all add: solid_def)
  have level: "clean_line (''qcom,gpu-pwrlevel@'' @ dec32 i @ '' {'')" for i
    by (rule header_line_clean) (simp_all add: solid_def)
  have names: "name_ok (prop_name p)" if "p \<in> set (header_properties g) \<or>
      (\<exists>l \<in> set (group_levels g). p \<in> set (level_properties l))" for p
    using that assms(1) by (auto simp: export_group_ok_def header_ok_def export_level_ok_def cell_ok_def)
  show ?thesis
    using assms(2) close group level names property_line_clean
    unfolding group_lines_def level_lines_def by (auto simp del: append.simps)
qed

text \<open>
  (C31) The frequency-table parser is complete on the format: the canonical text of any table that
  satisfies the rules parses back to that table, with every group, level, property and cell in its
  place.
\<close>

theorem parse_table_text:
  assumes "export_table_ok t"
  shows "parse_frequency_table (table_text t) = Inr t"
proof -
  have groups: "\<forall>g \<in> set (table_groups t). export_group_ok g"
    using assms by (simp add: export_table_ok_def)
  have "\<forall>l \<in> set (concat (map group_lines (table_groups t))). clean_line l"
    using groups by (auto intro: group_lines_clean)
  then have "str_lines (table_text t) = concat (map group_lines (table_groups t))"
    unfolding table_text_def by (rule str_lines_clean)
  moreover have "ensure_unique_ids [] (map group_id (table_groups t)) ''GPU group'' = Inr ()"
    using assms by (simp add: ensure_unique_ids_iff export_table_ok_def)
  ultimately show ?thesis
    using assms groups by (simp add: parse_frequency_table_def parse_groups_lines export_table_ok_def)
qed

definition sample_export :: gpu_table where
  "sample_export = \<lparr>table_groups = [\<lparr>group_id = 0,
     header_properties = [\<lparr>prop_name = ''qcom,speed-bin'', prop_cells = [3]\<rparr>],
     group_levels = [\<lparr>level_id = 0, level_properties =
       [\<lparr>prop_name = ''reg'', prop_cells = [0]\<rparr>, \<lparr>prop_name = ''qcom,gpu-freq'', prop_cells = [600000000]\<rparr>]\<rparr>]\<rparr>]\<rparr>"

theorem parse_table_text_witness: "parse_frequency_table (table_text sample_export) = Inr sample_export"
proof (rule parse_table_text)
  have chars: "\<forall>c \<in> set ''qcom,speed-bin''. property_name_char c"
    "\<forall>c \<in> set ''reg''. property_name_char c" "\<forall>c \<in> set ''qcom,gpu-freq''. property_name_char c"
    by (simp_all add: property_name_char_def is_ascii_digit_def less_eq_char_def)
  then show "export_table_ok sample_export"
    by (simp add: sample_export_def export_table_ok_def export_group_ok_def export_level_ok_def
        header_ok_def cell_ok_def name_ok_def is_selector_def scalar_property_def find_property_def)
qed

section \<open>A signed cell\<close>

text \<open>
  (C34) An editor cell with an explicit plus sign is accepted: \<open>+\<close> followed by the decimal text of any
  32-bit value parses to that value, because \<open>u32::from_str\<close> takes the sign. The documentation of
  \<open>parse_gpu_cell\<close> says that signed input is a hard error.
\<close>

theorem parse_gpu_cell_plus: "parse_gpu_cell (''+'' @ dec32 w) = Inr w"
proof -
  have "trim_ws (''+'' @ dec32 w) = ''+'' @ dec32 w"
    by (intro trim_clean digits_clean) (auto dest!: dec32_digits digit_solid simp: solid_def)
  moreover obtain z where "parse_digits 10 0 (dec32 w) = Some z" "of_nat z = w"
    using parse_dec32 [of w] dec_no_plus [of "unat w"]
    by (auto simp: u32_from_str_radix_def dec32_def split: if_splits)
  ultimately show ?thesis
    by (simp add: parse_gpu_cell_def strip_prefix_def u32_from_str_radix_def)
qed

end
