(* ===== verification/Fdt.thy ===== *)
theory Fdt
  imports Gpu_Table
begin

text \<open>
  The flattened-device-tree reader and splice serialiser of \<open>konabess/fdt.rs\<close>: the header layout,
  the token loop as a step function on an explicit state, the string table, the encoder of a GPU
  table and the rebuilding of the blob around it. Buffers are byte lists, node and property names
  UTF-8 strings.
\<close>

section \<open>Constants and errors\<close>

definition FDT_MAGIC :: u32 where "FDT_MAGIC = 0xD00DFEED"
definition FDT_BEGIN_NODE :: u32 where "FDT_BEGIN_NODE = 1"
definition FDT_END_NODE :: u32 where "FDT_END_NODE = 2"
definition FDT_PROP :: u32 where "FDT_PROP = 3"
definition FDT_NOP :: u32 where "FDT_NOP = 4"
definition FDT_END :: u32 where "FDT_END = 9"
definition FDT_HEADER_SIZE :: nat where "FDT_HEADER_SIZE = 40"

lemmas fdt_consts = FDT_MAGIC_def FDT_BEGIN_NODE_def FDT_END_NODE_def FDT_PROP_def FDT_NOP_def
  FDT_END_def FDT_HEADER_SIZE_def

datatype fdt_error =
    FdtTruncated string | FdtInvalidMagic | FdtTotalSize | FdtRangeOverflow string | FdtLayout
  | FdtInvalidAlignment | FdtAlignmentOverflow | FdtUnterminatedName | FdtNotUtf8 string
  | FdtNamePadding | FdtNestedGroup | FdtGroupParents | FdtLevelNesting | FdtUnexpectedNode string u32
  | FdtUnmatchedEnd | FdtUnexpectedChildEnd | FdtUnterminatedLevel | FdtGroupEmpty u32
  | FdtParentChanged | FdtPropertyOverflow | FdtTruncatedValue | FdtTruncatedPadding
  | FdtPropertyOutsideRoot | FdtPropertyDepth | FdtEarlyEnd | FdtDataAfterEnd | FdtUnknownToken u32
  | FdtNoEnd | FdtNotContiguous | FdtNotCells string | FdtNodeId string | FdtNodeIdTooBig string
  | FdtStringOffset string | FdtUnterminatedString string | FdtUnterminatedExisting
  | FdtFieldTooBig string | FdtSizeDelta | FdtOffsetOverflow | FdtNoGroups | FdtNoCells string
  | FdtPropertySize | FdtSizeMismatch | FdtHeaderWrite | FdtChipUnknown | FdtChipMismatch string string
  | FdtNoTable | FdtNormalize normalize_error | FdtPanic

section \<open>Fields and arithmetic\<close>

text \<open>\<open>&bytes[a..b]\<close>, which panics out of range.\<close>

definition fdt_slice :: "byte list \<Rightarrow> nat \<Rightarrow> nat \<Rightarrow> fdt_error + byte list" where
  "fdt_slice bytes a b = ok_or (slice bytes a b) FdtPanic"

lemma fdt_slice_Inr: "fdt_slice bs a b = Inr xs \<longleftrightarrow> a \<le> b \<and> b \<le> length bs \<and> xs = window bs a b"
  by (auto simp: fdt_slice_def ok_or_Inr_iff slice_Some_iff)

lemma fdt_slice_in: "a \<le> b \<Longrightarrow> b \<le> length bs \<Longrightarrow> fdt_slice bs a b = Inr (window bs a b)"
  by (simp add: fdt_slice_Inr)

definition read_be_u32 :: "byte list \<Rightarrow> nat \<Rightarrow> string \<Rightarrow> fdt_error + u32" where
  "read_be_u32 bytes offset name =
     (case slice bytes offset (offset + 4) of
        None \<Rightarrow> Inl (FdtTruncated name)
      | Some v \<Rightarrow> Inr (u32_of_be (v ! 0) (v ! 1) (v ! 2) (v ! 3)))"

definition write_be_u32 :: "byte list \<Rightarrow> nat \<Rightarrow> u32 \<Rightarrow> fdt_error + byte list" where
  "write_be_u32 bytes offset value =
     (if offset + 4 \<le> length bytes then Inr (write_at bytes offset (u32_be value))
      else Inl FdtHeaderWrite)"

definition usize_field :: "byte list \<Rightarrow> nat \<Rightarrow> string \<Rightarrow> fdt_error + nat" where
  "usize_field bytes offset name = bind_r (read_be_u32 bytes offset name) (\<lambda>v. Inr (unat v))"

definition u32_field :: "nat \<Rightarrow> string \<Rightarrow> fdt_error + u32" where
  "u32_field value name = (if value < 2 ^ 32 then Inr (of_nat value) else Inl (FdtFieldTooBig name))"

definition power_of_two :: "nat \<Rightarrow> bool" where
  "power_of_two n \<longleftrightarrow> n \<in> set (map (\<lambda>k. 2 ^ k) [0..<64])"

text \<open>For a power of two, clearing the low bits (\<open>& !(alignment - 1)\<close>) is rounding down.\<close>

definition align_up :: "nat \<Rightarrow> nat \<Rightarrow> fdt_error + nat" where
  "align_up value alignment =
     (if alignment = 0 \<or> \<not> power_of_two alignment then Inl FdtInvalidAlignment
      else if 2 ^ 64 \<le> value + (alignment - 1) then Inl FdtAlignmentOverflow
      else Inr ((value + (alignment - 1)) div alignment * alignment))"

definition signed_delta :: "nat \<Rightarrow> nat \<Rightarrow> fdt_error + int" where
  "signed_delta new old =
     (if new \<ge> old
      then (if new - old < 2 ^ 63 then Inr (int (new - old)) else Inl FdtSizeDelta)
      else (if old - new < 2 ^ 63 then Inr (- int (old - new)) else Inl FdtSizeDelta))"

definition add_signed :: "nat \<Rightarrow> int \<Rightarrow> fdt_error + nat" where
  "add_signed value delta =
     (if 0 \<le> int value + delta \<and> int value + delta < 2 ^ 64 then Inr (nat (int value + delta))
      else Inl FdtOffsetOverflow)"

definition checked_add :: "nat \<Rightarrow> nat \<Rightarrow> 'e \<Rightarrow> 'e + nat" where
  "checked_add a b e = (if a + b < 2 ^ 64 then Inr (a + b) else Inl e)"

section \<open>The header\<close>

record fdt_layout =
  total_size :: nat
  structure_start :: nat
  structure_end :: nat
  strings_start :: nat
  strings_end :: nat

definition parse_layout :: "byte list \<Rightarrow> fdt_error + fdt_layout" where
  "parse_layout fdt =
     bind_r (if length fdt < FDT_HEADER_SIZE then Inl FdtInvalidMagic
             else bind_r (read_be_u32 fdt 0 ''FDT magic'') (\<lambda>m. ensure (m = FDT_MAGIC) FdtInvalidMagic)) (\<lambda>_.
     bind_r (usize_field fdt 4 ''FDT total size'') (\<lambda>total.
     bind_r (usize_field fdt 8 ''FDT structure offset'') (\<lambda>st.
     bind_r (usize_field fdt 12 ''FDT strings offset'') (\<lambda>ss.
     bind_r (usize_field fdt 32 ''FDT strings size'') (\<lambda>slen.
     bind_r (usize_field fdt 36 ''FDT structure size'') (\<lambda>tlen.
     bind_r (ensure (\<not> (total > length fdt \<or> total < FDT_HEADER_SIZE)) FdtTotalSize) (\<lambda>_.
     bind_r (checked_add st tlen (FdtRangeOverflow ''structure'')) (\<lambda>te.
     bind_r (checked_add ss slen (FdtRangeOverflow ''strings'')) (\<lambda>se.
     bind_r (ensure (\<not> (st < FDT_HEADER_SIZE \<or> te > total \<or> ss < te \<or> se > total)) FdtLayout) (\<lambda>_.
     Inr \<lparr>total_size = total, structure_start = st, structure_end = te, strings_start = ss,
       strings_end = se\<rparr>))))))))))"

section \<open>Names and values\<close>

fun position_of_byte :: "byte \<Rightarrow> byte list \<Rightarrow> nat option" where
  "position_of_byte a [] = None"
| "position_of_byte a (x # xs) = (if x = a then Some 0 else map_option Suc (position_of_byte a xs))"

definition read_node_name :: "byte list \<Rightarrow> nat \<Rightarrow> fdt_error + string \<times> nat" where
  "read_node_name bytes start =
     bind_r (ok_or (Option.bind (slice bytes start (length bytes)) (position_of_byte 0))
       FdtUnterminatedName) (\<lambda>relative_end.
     let end = start + relative_end in
     bind_r (fdt_slice bytes start end) (\<lambda>name_bytes.
     bind_r (ok_or (from_utf8 name_bytes) (FdtNotUtf8 ''node name'')) (\<lambda>name.
     bind_r (align_up (end + 1) 4) (\<lambda>next_pos.
     if next_pos > length bytes then Inl FdtNamePadding else Inr (name, next_pos)))))"

lemma position_of_byte_length: "position_of_byte a xs = Some n \<Longrightarrow> n < length xs"
  by (induction a xs arbitrary: n rule: position_of_byte.induct) (auto split: if_splits)

text \<open>The bytes of the name are always inside.\<close>

lemma read_node_name_eq:
  "read_node_name bytes start =
     bind_r (ok_or (Option.bind (slice bytes start (length bytes)) (position_of_byte 0))
       FdtUnterminatedName) (\<lambda>relative_end.
     let end = start + relative_end in
     bind_r (ok_or (from_utf8 (window bytes start end)) (FdtNotUtf8 ''node name'')) (\<lambda>name.
     bind_r (align_up (end + 1) 4) (\<lambda>next_pos.
     if next_pos > length bytes then Inl FdtNamePadding else Inr (name, next_pos))))"
proof (cases "Option.bind (slice bytes start (length bytes)) (position_of_byte 0)")
  case (Some n)
  then have "start + n \<le> length bytes"
    by (auto simp: bind_eq_Some_conv slice_Some_iff dest!: position_of_byte_length)
  then show ?thesis
    by (simp add: read_node_name_def Some ok_or_def fdt_slice_in Let_def)
qed (simp add: read_node_name_def ok_or_def)

definition read_string :: "byte list \<Rightarrow> nat \<Rightarrow> string \<Rightarrow> fdt_error + string" where
  "read_string strings offset kind =
     bind_r (ok_or (slice strings offset (length strings)) (FdtStringOffset kind)) (\<lambda>tail.
     bind_r (ok_or (position_of_byte 0 tail) (FdtUnterminatedString kind)) (\<lambda>end.
     ok_or (from_utf8 (take end tail)) (FdtNotUtf8 kind)))"

fun split_on :: "byte \<Rightarrow> byte list \<Rightarrow> byte list list" where
  "split_on a [] = [[]]"
| "split_on a (x # xs) =
     (if x = a then [] # split_on a xs
      else case split_on a xs of [] \<Rightarrow> [[x]] | y # ys \<Rightarrow> (x # y) # ys)"

definition string_list :: "byte list \<Rightarrow> string list" where
  "string_list value = List.map_filter from_utf8 (filter (\<lambda>item. item \<noteq> []) (split_on 0 value))"

definition first_string :: "byte list \<Rightarrow> string option" where
  "first_string value = (case string_list value of [] \<Rightarrow> None | s # _ \<Rightarrow> Some s)"

fun chunks4 :: "byte list \<Rightarrow> byte list list" where
  "chunks4 (a # b # c # d # r) = [a, b, c, d] # chunks4 r"
| "chunks4 _ = []"

definition parse_cell_property :: "string \<Rightarrow> byte list \<Rightarrow> fdt_error + gpu_property" where
  "parse_cell_property name value =
     (if value = [] \<or> length value mod 4 \<noteq> 0 then Inl (FdtNotCells name)
      else Inr \<lparr>prop_name = name,
        prop_cells = map (\<lambda>w. u32_of_be (w ! 0) (w ! 1) (w ! 2) (w ! 3)) (chunks4 value)\<rparr>)"

definition decimal_suffix :: "string \<Rightarrow> string \<Rightarrow> fdt_error + u32 option" where
  "decimal_suffix name pre =
     (case strip_prefix pre name of
        None \<Rightarrow> Inr None
      | Some sfx \<Rightarrow>
          if sfx = [] \<or> \<not> (\<forall>c \<in> set sfx. is_ascii_digit c) then Inl (FdtNodeId name)
          else bind_r (ok_or (u32_from_str_radix sfx 10) (FdtNodeIdTooBig name)) (\<lambda>i. Inr (Some i)))"

definition chip_values :: "(string \<times> string list) list" where
  "chip_values =
     [(''pineapple'', [''qcom,pineapple'', ''qcom,pineapplep'', ''qcom,volcano'', ''qcom,volcanop'']),
      (''sun'', [''qcom,sun'', ''qcom,sunp'', ''qcom,tuna'', ''qcom,tunap'']),
      (''diwali'', [''qcom,diwali'', ''qcom,diwali-lte'', ''qcom,diwalip'']),
      (''canoe'', [''qcom,canoe'', ''qcom,canoep''])]"

definition infer_chip :: "string list \<Rightarrow> string option" where
  "infer_chip compatible =
     map_option fst (List.find (\<lambda>(chip, vals). \<exists>c \<in> set compatible. c \<in> set vals) chip_values)"

section \<open>The token loop\<close>

record open_group =
  og_group :: gpu_group
  og_start :: nat
  og_depth :: nat
  og_parent :: "string list"
  og_level :: "gpu_level option"

record fdt_state =
  fs_pos :: nat
  fs_path :: "string list"
  fs_model :: "string option"
  fs_compatible :: "string list"
  fs_groups :: "gpu_group list"
  fs_ranges :: "(nat \<times> nat) list"
  fs_parent :: "string list option"
  fs_open :: "open_group option"

definition fdt_start :: fdt_state where
  "fdt_start = \<lparr>fs_pos = 0, fs_path = [], fs_model = None, fs_compatible = [], fs_groups = [],
     fs_ranges = [], fs_parent = None, fs_open = None\<rparr>"

text \<open>\<open>FDT_BEGIN_NODE\<close>, with the position behind the token.\<close>

definition begin_group :: "nat \<Rightarrow> u32 \<Rightarrow> fdt_state \<Rightarrow> fdt_error + fdt_state" where
  "begin_group token_start i st =
     (if fs_open st \<noteq> None then Inl FdtNestedGroup
      else
        let this_parent = butlast (fs_path st) in
        bind_r (case fs_parent st of
            Some expected \<Rightarrow> ensure (expected = this_parent) FdtGroupParents
          | None \<Rightarrow> Inr ()) (\<lambda>_.
        Inr (st\<lparr>fs_parent := Some this_parent,
          fs_open := Some \<lparr>og_group = \<lparr>group_id = i, header_properties = [], group_levels = []\<rparr>,
            og_start = token_start, og_depth = length (fs_path st) - 1, og_parent = this_parent,
            og_level = None\<rparr>\<rparr>)))"

definition begin_level :: "u32 \<Rightarrow> fdt_state \<Rightarrow> fdt_error + fdt_state" where
  "begin_level i st =
     (case fs_open st of
        None \<Rightarrow> Inr st
      | Some og \<Rightarrow>
          if length (fs_path st) - 1 \<noteq> og_depth og + 1 \<or> og_level og \<noteq> None then Inl FdtLevelNesting
          else Inr (st\<lparr>fs_open := Some (og\<lparr>og_level := Some \<lparr>level_id = i, level_properties = []\<rparr>\<rparr>)\<rparr>))"

definition begin_node :: "byte list \<Rightarrow> nat \<Rightarrow> fdt_state \<Rightarrow> fdt_error + fdt_state" where
  "begin_node structure token_start st0 =
     bind_r (read_node_name structure (token_start + 4)) (\<lambda>(name, next_pos).
     let st = st0\<lparr>fs_pos := next_pos, fs_path := fs_path st0 @ [name]\<rparr> in
     bind_r (decimal_suffix name ''qcom,gpu-pwrlevels-'') (\<lambda>gid.
     case gid of
       Some i \<Rightarrow> begin_group token_start i st
     | None \<Rightarrow>
         bind_r (decimal_suffix name ''qcom,gpu-pwrlevel@'') (\<lambda>lid.
         case lid of
           Some i \<Rightarrow> begin_level i st
         | None \<Rightarrow>
             (case fs_open st of
                Some og \<Rightarrow>
                  if length (fs_path st) - 1 > og_depth og
                  then Inl (FdtUnexpectedNode name (group_id (og_group og))) else Inr st
              | None \<Rightarrow> Inr st))))"

text \<open>\<open>FDT_END_NODE\<close>.\<close>

definition end_node :: "nat \<Rightarrow> fdt_state \<Rightarrow> fdt_error + fdt_state" where
  "end_node token_start st0 =
     (let st = st0\<lparr>fs_pos := token_start + 4\<rparr> in
      if fs_path st = [] then Inl FdtUnmatchedEnd
      else
        let depth = length (fs_path st) - 1 in
        bind_r (case fs_open st of
            None \<Rightarrow> Inr st
          | Some og \<Rightarrow>
              if depth = og_depth og + 1 then
                (case og_level og of
                   None \<Rightarrow> Inl FdtUnexpectedChildEnd
                 | Some level \<Rightarrow> Inr (st\<lparr>fs_open := Some (og\<lparr>og_level := None,
                     og_group := (og_group og)\<lparr>group_levels := group_levels (og_group og) @ [level]\<rparr>\<rparr>)\<rparr>))
              else if depth = og_depth og then
                (if og_level og \<noteq> None then Inl FdtUnterminatedLevel
                 else if group_levels (og_group og) = [] then Inl (FdtGroupEmpty (group_id (og_group og)))
                 else if og_parent og \<noteq> butlast (fs_path st) then Inl FdtParentChanged
                 else Inr (st\<lparr>fs_open := None, fs_groups := fs_groups st @ [og_group og],
                   fs_ranges := fs_ranges st @ [(og_start og, token_start + 4)]\<rparr>))
              else Inr st) (\<lambda>st1.
        Inr (st1\<lparr>fs_path := butlast (fs_path st1)\<rparr>)))"

text \<open>\<open>FDT_PROP\<close>.\<close>

definition root_property :: "string \<Rightarrow> byte list \<Rightarrow> fdt_state \<Rightarrow> fdt_state" where
  "root_property name value st =
     (if length (fs_path st) - 1 = 0 then
        (if name = ''model'' then st\<lparr>fs_model := first_string value\<rparr>
         else if name = ''compatible'' then st\<lparr>fs_compatible := string_list value\<rparr> else st)
      else st)"

definition group_property :: "string \<Rightarrow> byte list \<Rightarrow> fdt_state \<Rightarrow> fdt_error + fdt_state" where
  "group_property name value st =
     (case fs_open st of
        None \<Rightarrow> Inr st
      | Some og \<Rightarrow>
          bind_r (parse_cell_property name value) (\<lambda>p.
          let depth = length (fs_path st) - 1 in
          if depth = og_depth og then
            Inr (st\<lparr>fs_open := Some (og\<lparr>og_group := (og_group og)\<lparr>header_properties :=
              header_properties (og_group og) @ [p]\<rparr>\<rparr>)\<rparr>)
          else
            (case og_level og of
               Some level \<Rightarrow>
                 if depth = og_depth og + 1 then
                   Inr (st\<lparr>fs_open := Some (og\<lparr>og_level :=
                     Some (level\<lparr>level_properties := level_properties level @ [p]\<rparr>)\<rparr>)\<rparr>)
                 else Inl FdtPropertyDepth
             | None \<Rightarrow> Inl FdtPropertyDepth)))"

definition prop_token :: "byte list \<Rightarrow> byte list \<Rightarrow> nat \<Rightarrow> fdt_state \<Rightarrow> fdt_error + fdt_state" where
  "prop_token structure strings token_start st0 =
     (let pos = token_start + 4 in
     bind_r (usize_field structure pos ''property length'') (\<lambda>len.
     bind_r (usize_field structure (pos + 4) ''property name offset'') (\<lambda>name_offset.
     let value_start = pos + 8 in
     bind_r (checked_add value_start len FdtPropertyOverflow) (\<lambda>value_end.
     bind_r (ok_or (slice structure value_start value_end) FdtTruncatedValue) (\<lambda>value.
     bind_r (align_up value_end 4) (\<lambda>next_pos.
     bind_r (ensure (\<not> next_pos > length structure) FdtTruncatedPadding) (\<lambda>_.
     bind_r (read_string strings name_offset ''property name'') (\<lambda>name.
     bind_r (ensure (fs_path st0 \<noteq> []) FdtPropertyOutsideRoot) (\<lambda>_.
     group_property name value (root_property name value (st0\<lparr>fs_pos := next_pos\<rparr>)))))))))))"

text \<open>\<open>FDT_END\<close>.\<close>

definition end_token :: "byte list \<Rightarrow> nat \<Rightarrow> fdt_state \<Rightarrow> fdt_error + fdt_state" where
  "end_token structure token_start st =
     (if fs_path st \<noteq> [] \<or> fs_open st \<noteq> None then Inl FdtEarlyEnd
      else
        bind_r (fdt_slice structure (token_start + 4) (length structure)) (\<lambda>rest.
        if \<exists>w \<in> set (chunks4 rest). w \<noteq> [0, 0, 0, 0] then Inl FdtDataAfterEnd
        else Inr (st\<lparr>fs_pos := token_start + 4\<rparr>)))"

text \<open>One round of the loop; the flag says that it was the last one (\<open>break\<close> at \<open>FDT_END\<close>).\<close>

definition fdt_step :: "byte list \<Rightarrow> byte list \<Rightarrow> fdt_state \<Rightarrow> fdt_error + fdt_state \<times> bool" where
  "fdt_step structure strings st =
     (let token_start = fs_pos st in
     bind_r (read_be_u32 structure token_start ''FDT structure token'') (\<lambda>token.
     if token = FDT_BEGIN_NODE then bind_r (begin_node structure token_start st) (\<lambda>s. Inr (s, False))
     else if token = FDT_END_NODE then bind_r (end_node token_start st) (\<lambda>s. Inr (s, False))
     else if token = FDT_PROP then bind_r (prop_token structure strings token_start st) (\<lambda>s. Inr (s, False))
     else if token = FDT_NOP then Inr (st\<lparr>fs_pos := token_start + 4\<rparr>, False)
     else if token = FDT_END then bind_r (end_token structure token_start st) (\<lambda>s. Inr (s, True))
     else Inl (FdtUnknownToken token)))"

text \<open>Every token advances the position, so the loop ends.\<close>

lemma align_up_Inr:
  "align_up v 4 = Inr n \<longleftrightarrow> v + 3 < 2 ^ 64 \<and> n = (v + 3) div 4 * 4"
  by (auto simp: align_up_def power_of_two_def upt_rec)

lemma align_up_ge: "align_up v 4 = Inr n \<Longrightarrow> v \<le> n \<and> n mod 4 = 0 \<and> n < v + 4"
  by (auto simp: align_up_Inr)

lemma read_node_name_next: "read_node_name bs p = Inr (name, n) \<Longrightarrow> p < n \<and> n \<le> length bs \<and> n mod 4 = 0"
  by (auto simp: read_node_name_eq Let_def bind_r_Inr_iff ok_or_Inr_iff split: if_splits dest!: align_up_ge)

lemma begin_group_pos: "begin_group t i st = Inr st' \<Longrightarrow> fs_pos st' = fs_pos st"
  by (auto simp: begin_group_def Let_def bind_r_Inr_iff split: if_splits)

lemma begin_level_pos: "begin_level i st = Inr st' \<Longrightarrow> fs_pos st' = fs_pos st"
  by (auto simp: begin_level_def split: if_splits option.splits)

lemma begin_node_pos:
  "begin_node S t st = Inr st' \<Longrightarrow> t + 4 < fs_pos st' \<and> fs_pos st' \<le> length S \<and> fs_pos st' mod 4 = 0"
  by (auto simp: begin_node_def Let_def bind_r_Inr_iff split: option.splits prod.splits if_splits
      dest!: begin_group_pos begin_level_pos read_node_name_next)

lemma end_node_pos: "end_node t st = Inr st' \<Longrightarrow> fs_pos st' = t + 4"
  by (auto simp: end_node_def Let_def bind_r_Inr_iff split: option.splits if_splits)

lemma group_property_pos: "group_property n v st = Inr st' \<Longrightarrow> fs_pos st' = fs_pos st"
  by (auto simp: group_property_def Let_def bind_r_Inr_iff split: option.splits if_splits)

lemma root_property_pos [simp]: "fs_pos (root_property n v st) = fs_pos st"
  by (simp add: root_property_def)

lemma prop_token_pos:
  "prop_token S T t st = Inr st' \<Longrightarrow> t + 4 < fs_pos st' \<and> fs_pos st' \<le> length S \<and> fs_pos st' mod 4 = 0"
  by (auto simp: prop_token_def Let_def bind_r_Inr_iff checked_add_def ensure_Inr_iff
      split: if_splits dest!: group_property_pos align_up_ge)

lemma end_token_pos: "end_token S t st = Inr st' \<Longrightarrow> fs_pos st' = t + 4"
  by (auto simp: end_token_def bind_r_Inr_iff split: if_splits)

lemma end_token_inside:
  "t + 4 \<le> length S \<Longrightarrow> end_token S t st =
     (if fs_path st \<noteq> [] \<or> fs_open st \<noteq> None then Inl FdtEarlyEnd
      else if \<exists>w \<in> set (chunks4 (drop (t + 4) S)). w \<noteq> [0, 0, 0, 0] then Inl FdtDataAfterEnd
      else Inr (st\<lparr>fs_pos := t + 4\<rparr>))"
  by (simp add: end_token_def fdt_slice_in window_def)

lemma read_be_u32_Inr:
  "read_be_u32 bs p name = Inr v \<longleftrightarrow> p + 4 \<le> length bs \<and> v = rd32_be bs p"
  by (auto simp: read_be_u32_def slice_def rd32_be_def)

lemma fdt_step_pos:
  assumes "fdt_step S T st = Inr (st', fin)"
  shows "fs_pos st + 4 \<le> fs_pos st' \<and> fs_pos st' \<le> length S"
  using assms
  by (auto simp: fdt_step_def Let_def bind_r_Inr_iff read_be_u32_Inr split: if_splits
      dest!: begin_node_pos end_node_pos prop_token_pos end_token_pos)

function fdt_loop :: "byte list \<Rightarrow> byte list \<Rightarrow> fdt_state \<Rightarrow> fdt_error + fdt_state" where
  "fdt_loop structure strings st =
     (if fs_pos st < length structure then
        (case fdt_step structure strings st of
           Inl e \<Rightarrow> Inl e
         | Inr (st', fin) \<Rightarrow> if fin then Inr st' else fdt_loop structure strings st')
      else Inl FdtNoEnd)"
  by pat_completeness auto
termination
  by (relation "measure (\<lambda>(S, T, st). length S - fs_pos st)") (auto dest: fdt_step_pos)

declare fdt_loop.simps [simp del]

section \<open>The parsed blob\<close>

record fdt_gpu_info =
  info_model :: "string option"
  info_chip :: "string option"
  info_table :: "gpu_table option"

record parsed_fdt =
  pf_layout :: fdt_layout
  pf_info :: fdt_gpu_info
  pf_range :: "(nat \<times> nat) option"

text \<open>The gap between neighbouring groups holds \<open>FDT_NOP\<close> tokens only.\<close>

definition gap_ok :: "byte list \<Rightarrow> bool" where
  "gap_ok gap \<longleftrightarrow> (\<forall>w \<in> set (chunks4 gap). w = u32_be FDT_NOP) \<and> length gap mod 4 = 0"

fun check_gaps :: "byte list \<Rightarrow> (nat \<times> nat) list \<Rightarrow> fdt_error + unit" where
  "check_gaps structure (r0 # r1 # rs) =
     bind_r (fdt_slice structure (snd r0) (fst r1)) (\<lambda>gap.
     if \<not> gap_ok gap then Inl FdtNotContiguous else check_gaps structure (r1 # rs))"
| "check_gaps structure _ = Inr ()"

definition parse_fdt :: "byte list \<Rightarrow> fdt_error + parsed_fdt" where
  "parse_fdt fdt =
     bind_r (parse_layout fdt) (\<lambda>layout.
     bind_r (fdt_slice fdt (structure_start layout) (structure_end layout)) (\<lambda>structure.
     bind_r (fdt_slice fdt (strings_start layout) (strings_end layout)) (\<lambda>strings.
     bind_r (fdt_loop structure strings fdt_start) (\<lambda>st.
     bind_r (check_gaps structure (fs_ranges st)) (\<lambda>_.
     Inr \<lparr>pf_layout = layout,
       pf_info = \<lparr>info_model = fs_model st, info_chip = infer_chip (fs_compatible st),
         info_table = (if fs_groups st = [] then None else Some \<lparr>table_groups = fs_groups st\<rparr>)\<rparr>,
       pf_range = (if fs_ranges st = [] then None
         else Some (fst (hd (fs_ranges st)), snd (last (fs_ranges st))))\<rparr>)))))"

definition parse_fdt_gpu_info :: "byte list \<Rightarrow> fdt_error + fdt_gpu_info" where
  "parse_fdt_gpu_info fdt = bind_r (parse_fdt fdt) (\<lambda>p. Inr (pf_info p))"

section \<open>The string table\<close>

text \<open>
  The search visits the starts of the strings; the loop's suffix is the argument \<open>rest\<close> and
  \<open>position\<close> its offset. A name that is not found is appended.
\<close>

function find_string :: "string \<Rightarrow> nat \<Rightarrow> byte list \<Rightarrow> fdt_error + nat option" where
  "find_string name position rest =
     (if rest = [] then Inr None
      else case position_of_byte 0 rest of
          None \<Rightarrow> Inl FdtUnterminatedExisting
        | Some relative \<Rightarrow>
            if take relative rest = as_bytes name then Inr (Some position)
            else find_string name (position + relative + 1) (drop (relative + 1) rest))"
  by pat_completeness auto
termination
  by (relation "measure (\<lambda>(name, position, rest). length rest)") auto

declare find_string.simps [simp del]

definition string_offset :: "byte list \<Rightarrow> string \<Rightarrow> fdt_error + u32 \<times> byte list" where
  "string_offset strings name =
     bind_r (find_string name 0 strings) (\<lambda>found.
     case found of
       Some position \<Rightarrow>
         bind_r (u32_field position ''property name offset'') (\<lambda>o'. Inr (o', strings))
     | None \<Rightarrow>
         bind_r (u32_field (length strings) ''property name offset'') (\<lambda>o'.
           Inr (o', strings @ as_bytes name @ [0])))"

section \<open>Encoding a table\<close>

definition pad4 :: "byte list \<Rightarrow> byte list" where
  "pad4 xs = xs @ replicate ((4 - length xs mod 4) mod 4) 0"

definition encode_begin_node :: "byte list \<Rightarrow> string \<Rightarrow> byte list" where
  "encode_begin_node output name = pad4 (output @ u32_be FDT_BEGIN_NODE @ as_bytes name @ [0])"

definition encode_property ::
    "gpu_property \<Rightarrow> byte list \<times> byte list \<Rightarrow> fdt_error + byte list \<times> byte list" where
  "encode_property p = (\<lambda>(output, strings).
     bind_r (ensure (prop_cells p \<noteq> []) (FdtNoCells (prop_name p))) (\<lambda>_.
     let value_size = length (prop_cells p) * 4 in
     bind_r (ensure (value_size < 2 ^ 64) FdtPropertySize) (\<lambda>_.
     bind_r (u32_field value_size ''property size'') (\<lambda>sz.
     bind_r (string_offset strings (prop_name p)) (\<lambda>(off, strings').
     Inr (output @ u32_be FDT_PROP @ u32_be sz @ u32_be off @ concat (map u32_be (prop_cells p)),
       strings'))))))"

text \<open>A \<open>for\<close> loop whose body threads the output and may fail.\<close>

fun try_fold :: "('a \<Rightarrow> 's \<Rightarrow> 'e + 's) \<Rightarrow> 'a list \<Rightarrow> 's \<Rightarrow> 'e + 's" where
  "try_fold f [] s = Inr s"
| "try_fold f (x # xs) s = bind_r (f x s) (try_fold f xs)"

definition encode_level ::
    "gpu_level \<Rightarrow> byte list \<times> byte list \<Rightarrow> fdt_error + byte list \<times> byte list" where
  "encode_level l = (\<lambda>(output, strings).
     bind_r (try_fold encode_property (level_properties l)
       (encode_begin_node output (''qcom,gpu-pwrlevel@'' @ dec32 (level_id l)), strings)) (\<lambda>(output', strings').
     Inr (output' @ u32_be FDT_END_NODE, strings')))"

definition encode_group ::
    "gpu_group \<Rightarrow> byte list \<times> byte list \<Rightarrow> fdt_error + byte list \<times> byte list" where
  "encode_group g = (\<lambda>(output, strings).
     bind_r (try_fold encode_property (header_properties g)
       (encode_begin_node output (''qcom,gpu-pwrlevels-'' @ dec32 (group_id g)), strings)) (\<lambda>s1.
     bind_r (try_fold encode_level (group_levels g) s1) (\<lambda>(output', strings').
     Inr (output' @ u32_be FDT_END_NODE, strings'))))"

definition encode_table :: "gpu_table \<Rightarrow> byte list \<Rightarrow> fdt_error + byte list \<times> byte list" where
  "encode_table t strings =
     (if table_groups t = [] then Inl FdtNoGroups
      else try_fold encode_group (table_groups t) ([], strings))"

section \<open>Rebuilding the blob\<close>

text \<open>
  Every index expression is a slice that may panic, and so is the subtraction for the capacity of the
  structure block. The limits of the allocator are not modelled.
\<close>

definition rebuild_fdt ::
    "byte list \<Rightarrow> fdt_layout \<Rightarrow> nat \<times> nat \<Rightarrow> gpu_table \<Rightarrow> fdt_error + byte list" where
  "rebuild_fdt fdt layout table_range t =
     bind_r (fdt_slice fdt (structure_start layout) (structure_end layout)) (\<lambda>old_structure.
     bind_r (fdt_slice fdt (strings_start layout) (strings_end layout)) (\<lambda>old_strings.
     bind_r (encode_table t old_strings) (\<lambda>(replacement, strings).
     bind_r (ensure (snd table_range - fst table_range \<le> length old_structure) FdtPanic) (\<lambda>_.
     bind_r (fdt_slice old_structure 0 (fst table_range)) (\<lambda>before.
     bind_r (fdt_slice old_structure (snd table_range) (length old_structure)) (\<lambda>after.
     let structure = before @ replacement @ after in
     bind_r (signed_delta (length structure) (length old_structure)) (\<lambda>structure_delta.
     bind_r (signed_delta (length strings) (length old_strings)) (\<lambda>strings_delta.
     bind_r (add_signed (strings_start layout) structure_delta) (\<lambda>new_strings_start.
     bind_r (add_signed (total_size layout) structure_delta) (\<lambda>total1.
     bind_r (add_signed total1 strings_delta) (\<lambda>new_total_size.
     bind_r (fdt_slice fdt 0 (structure_start layout)) (\<lambda>head.
     bind_r (fdt_slice fdt (structure_end layout) (strings_start layout)) (\<lambda>gap.
     bind_r (fdt_slice fdt (strings_end layout) (total_size layout)) (\<lambda>tail.
     let output = head @ structure @ gap @ strings @ tail in
     bind_r (ensure (length output = new_total_size) FdtSizeMismatch) (\<lambda>_.
     bind_r (bind_r (u32_field new_total_size ''FDT total size'') (write_be_u32 output 4)) (\<lambda>o1.
     bind_r (bind_r (u32_field new_strings_start ''FDT strings offset'') (write_be_u32 o1 12)) (\<lambda>o2.
     bind_r (bind_r (u32_field (length strings) ''FDT strings size'') (write_be_u32 o2 32)) (\<lambda>o3.
     bind_r (u32_field (length structure) ''FDT structure size'') (write_be_u32 o3 36)))))))))))))))))))"

text \<open>\<open>?\<close> on the normalisation's error.\<close>

definition map_err :: "('e \<Rightarrow> 'f) \<Rightarrow> 'e + 'a \<Rightarrow> 'f + 'a" where
  "map_err f r = (case r of Inl e \<Rightarrow> Inl (f e) | Inr x \<Rightarrow> Inr x)"

definition replace_fdt_gpu_table_with_chip ::
    "byte list \<Rightarrow> konabess_export \<Rightarrow> string option \<Rightarrow> fdt_error + byte list" where
  "replace_fdt_gpu_table_with_chip fdt export section_chip =
     bind_r (parse_fdt fdt) (\<lambda>parsed.
     bind_r (ok_or (case info_chip (pf_info parsed) of Some c \<Rightarrow> Some c | None \<Rightarrow> section_chip)
       FdtChipUnknown) (\<lambda>chip.
     bind_r (ensure (chip = export_chip export) (FdtChipMismatch (export_chip export) chip)) (\<lambda>_.
     bind_r (ok_or (pf_range parsed) FdtNoTable) (\<lambda>table_range.
     bind_r (ok_or (info_table (pf_info parsed)) FdtNoTable) (\<lambda>source_table.
     bind_r (map_err FdtNormalize (normalize_edited_gpu_table source_table (export_table export)))
       (\<lambda>(normalized, advisories).
     rebuild_fdt fdt (pf_layout parsed) table_range normalized))))))"

definition replace_fdt_gpu_table :: "byte list \<Rightarrow> konabess_export \<Rightarrow> fdt_error + byte list" where
  "replace_fdt_gpu_table fdt export = replace_fdt_gpu_table_with_chip fdt export None"

definition replace_fdt_gpu_table_from_table ::
    "byte list \<Rightarrow> string \<Rightarrow> gpu_table \<Rightarrow> fdt_error + byte list" where
  "replace_fdt_gpu_table_from_table fdt chip t =
     replace_fdt_gpu_table fdt \<lparr>export_chip = chip, export_description = [], export_table = t\<rparr>"

end
