(* ===== verification/Fdt_Run.thy ===== *)
theory Fdt_Run
  imports Fdt_Encode
begin

text \<open>
  Runs of the token loop, and the run over an encoded table: what \<open>encode_table\<close> writes is described
  by a relation between a table and its bytes, and the loop started at such bytes ends behind them
  with exactly that table read.
\<close>

section \<open>Runs\<close>

inductive fdt_runs :: "byte list \<Rightarrow> byte list \<Rightarrow> fdt_state \<Rightarrow> fdt_state \<Rightarrow> bool" for S T where
  fdt_runs_refl: "fdt_runs S T st st"
| fdt_runs_step: "fs_pos st < length S \<Longrightarrow> fdt_step S T st = Inr (st1, False) \<Longrightarrow>
    fdt_runs S T st1 st2 \<Longrightarrow> fdt_runs S T st st2"

lemma fdt_runs_trans: "fdt_runs S T a b \<Longrightarrow> fdt_runs S T b c \<Longrightarrow> fdt_runs S T a c"
  by (induction rule: fdt_runs.induct) (auto intro: fdt_runs.intros)

lemma fdt_runs_one:
  "fs_pos st < length S \<Longrightarrow> fdt_step S T st = Inr (st1, False) \<Longrightarrow> fdt_runs S T st st1"
  by (blast intro: fdt_runs.intros)

lemma fdt_loop_runs: "fdt_runs S T a b \<Longrightarrow> fdt_loop S T a = fdt_loop S T b"
  by (induction rule: fdt_runs.induct) (simp, subst fdt_loop.simps, simp)

lemma fdt_loop_ends:
  "fdt_loop S T a = Inr fin \<Longrightarrow>
    \<exists>b. fdt_runs S T a b \<and> fs_pos b < length S \<and> fdt_step S T b = Inr (fin, True)"
proof (induction S T a rule: fdt_loop.induct)
  case (1 S T st)
  from "1.prems" obtain st1 last where step: "fs_pos st < length S" "fdt_step S T st = Inr (st1, last)"
    and rest: "if last then st1 = fin else fdt_loop S T st1 = Inr fin"
    by (subst (asm) fdt_loop.simps) (auto split: if_splits sum.splits)
  show ?case
  proof (cases last)
    case True
    with step rest show ?thesis using fdt_runs_refl by auto
  next
    case False
    with "1.IH" [OF step(1,2) refl] step rest show ?thesis by (auto intro: fdt_runs_step)
  qed
qed

section \<open>Bytes at a position\<close>

lemma rd32_be_at: "rd32_be (pre @ u32_be w @ post) (length pre) = w"
  by (simp add: rd32_be_def u32_be_def u32_of_be_bytes nth_append)

lemma read_be_u32_at: "S = pre @ u32_be w @ post \<Longrightarrow> p = length pre \<Longrightarrow> read_be_u32 S p name = Inr w"
  by (simp add: read_be_u32_Inr rd32_be_at)

definition node_bytes :: "string \<Rightarrow> byte list" where
  "node_bytes name = pad4 (u32_be FDT_BEGIN_NODE @ as_bytes name @ [0])"

definition prop_bytes :: "gpu_property \<Rightarrow> u32 \<Rightarrow> byte list" where
  "prop_bytes p off = u32_be FDT_PROP @ u32_be (of_nat (length (prop_cells p) * 4)) @ u32_be off @
     concat (map u32_be (prop_cells p))"

lemma length_pad4: "length (pad4 xs) = (length xs + 3) div 4 * 4"
proof -
  have "\<exists>q r. length xs = 4 * q + r \<and> r < 4" by (metis mod_less_divisor mult_div_mod_eq zero_less_numeral)
  then obtain q r where "length xs = 4 * q + r" "r < 4" by blast
  moreover from this have "length xs mod 4 = r" by simp
  moreover have "(4 * q + r + 3) div 4 * 4 = 4 * q + r + (4 - r) mod 4" if "r < 4"
    using that by (cases r; simp; rename_tac s; case_tac s; simp; rename_tac u; case_tac u; simp)
  ultimately show ?thesis by (simp only: pad4_def length_append length_replicate)
qed

lemma length_pad4_mod: "length (pad4 xs) mod 4 = 0"
  by (simp add: length_pad4)

lemma pad4_append: "length xs mod 4 = 0 \<Longrightarrow> pad4 (xs @ ys) = xs @ pad4 ys"
  by (simp add: pad4_def mod_add_eq [symmetric])

lemma length_node_bytes: "length (node_bytes name) = (length name + 8) div 4 * 4"
  by (simp add: node_bytes_def length_pad4)

lemma length_cells [simp]: "length (concat (map u32_be cs)) = 4 * length cs"
  by (induction cs) simp_all

lemma length_prop_bytes: "length (prop_bytes p off) = 12 + 4 * length (prop_cells p)"
  by (simp add: prop_bytes_def)

lemma chunks4_cells: "chunks4 (concat (map u32_be cs)) = map u32_be cs"
  by (induction cs) (simp_all add: u32_be_def)

lemma parse_cell_property_cells:
  assumes "cs \<noteq> []"
  shows "parse_cell_property name (concat (map u32_be cs)) = Inr \<lparr>prop_name = name, prop_cells = cs\<rparr>"
proof -
  have "concat (map u32_be cs) \<noteq> []" using assms by (cases cs) (simp_all add: u32_be_def)
  moreover have "map (\<lambda>w. u32_of_be (w ! 0) (w ! 1) (w ! 2) (w ! 3)) (map u32_be cs) = cs"
    by (induction cs) (simp_all add: u32_be_def u32_of_be_bytes)
  ultimately show ?thesis by (simp only: parse_cell_property_def chunks4_cells) simp
qed

lemma read_node_name_at:
  assumes "S = pre @ node_bytes name @ post" and "length pre mod 4 = 0" and "storable_name name"
    and "length S < 2 ^ 63"
  shows "read_node_name S (length pre + 4) = Inr (name, length pre + length (node_bytes name))"
proof -
  obtain pad where nb: "node_bytes name = u32_be FDT_BEGIN_NODE @ as_bytes name @ 0 # pad"
    by (simp add: node_bytes_def pad4_def)
  then have S: "S = pre @ u32_be FDT_BEGIN_NODE @ as_bytes name @ 0 # pad @ post"
    by (simp add: assms(1))
  have sl: "slice S (length pre + 4) (length S) = Some (as_bytes name @ 0 # pad @ post)"
    by (simp add: slice_def S)
  have "position_of_byte 0 (as_bytes name @ 0 # pad @ post) = Some (length (as_bytes name))"
    using assms(3) by (intro position_of_byte_here) (simp add: storable_name_def)
  moreover have "window S (length pre + 4) (length pre + 4 + length name) = as_bytes name"
    by (simp add: window_def S)
  moreover have "from_utf8 (as_bytes name) = Some name"
    using assms(3) by (simp add: storable_name_def from_utf8_def)
  moreover have "align_up (length pre + 4 + length name + 1) 4 =
      Inr (length pre + length (node_bytes name))"
  proof -
    have "length pre + 8 + length name < 2 ^ 64"
      using assms(4) by (simp add: S)
    moreover have "(length pre + 4 + length name + 1 + 3) div 4 * 4 = length pre + length (node_bytes name)"
      using assms(2) unfolding length_node_bytes by presburger
    ultimately show ?thesis by (simp add: align_up_Inr)
  qed
  moreover have "length pre + length (node_bytes name) \<le> length S" by (simp add: assms(1))
  ultimately show ?thesis by (simp add: read_node_name_eq sl Let_def)
qed

lemma dec32_storable:
  assumes "storable_name pre" and "\<forall>b \<in> set (as_bytes pre). unat b < 128"
  shows "storable_name (pre @ dec32 i)"
proof -
  have d: "48 \<le> unat b \<and> unat b \<le> 57" if "b \<in> set (as_bytes (dec32 i))" for b
    using that dec_ascii by (simp add: dec32_def)
  then have "\<forall>b \<in> set (as_bytes (pre @ dec32 i)). unat b < 128" using assms(2) by fastforce
  moreover have "0 \<notin> set (as_bytes (pre @ dec32 i))"
    using d [of 0] assms(1) by (auto simp: storable_name_def)
  ultimately show ?thesis by (simp add: storable_name_def utf8_valid_ascii)
qed

definition group_node :: "u32 \<Rightarrow> string" where "group_node i = ''qcom,gpu-pwrlevels-'' @ dec32 i"
definition level_node :: "u32 \<Rightarrow> string" where "level_node i = ''qcom,gpu-pwrlevel@'' @ dec32 i"

lemma node_storable: "storable_name (group_node i)" "storable_name (level_node i)"
  unfolding group_node_def level_node_def
  by (rule dec32_storable; simp add: storable_name_def as_bytes_def utf8_valid_def)+

lemma decimal_suffix_dec: "decimal_suffix (pre @ dec32 i) pre = Inr (Some i)"
proof -
  have "\<forall>c \<in> set (dec32 i). is_ascii_digit c" by (simp add: dec32_def dec_digits)
  moreover have "dec32 i \<noteq> []" by (simp add: dec32_def)
  moreover have "u32_from_str_radix (dec32 i) 10 = Some i" by (simp add: dec32_def u32_parse_dec)
  ultimately show ?thesis by (simp add: decimal_suffix_def)
qed

lemma node_suffix:
  "decimal_suffix (group_node i) ''qcom,gpu-pwrlevels-'' = Inr (Some i)"
  "decimal_suffix (level_node i) ''qcom,gpu-pwrlevels-'' = Inr None"
  "decimal_suffix (level_node i) ''qcom,gpu-pwrlevel@'' = Inr (Some i)"
  unfolding group_node_def level_node_def
  by (rule decimal_suffix_dec, simp add: decimal_suffix_def strip_prefix_def, rule decimal_suffix_dec)

section \<open>One token\<close>

lemma step_begin:
  assumes "S = pre @ node_bytes name @ post" and "length pre mod 4 = 0" and "storable_name name"
    and "length S < 2 ^ 63" and "fs_pos st = length pre"
  shows "fdt_step S T st = bind_r (begin_node S (length pre) st) (\<lambda>s. Inr (s, False))"
    and "read_node_name S (length pre + 4) = Inr (name, length pre + length (node_bytes name))"
proof -
  have "\<exists>r. S = pre @ u32_be FDT_BEGIN_NODE @ r" by (simp add: assms(1) node_bytes_def pad4_def)
  then obtain r where "S = pre @ u32_be FDT_BEGIN_NODE @ r" ..
  then have "read_be_u32 S (length pre) ''FDT structure token'' = Inr FDT_BEGIN_NODE"
    by (rule read_be_u32_at) simp
  then show "fdt_step S T st = bind_r (begin_node S (length pre) st) (\<lambda>s. Inr (s, False))"
    by (simp add: fdt_step_def assms(5))
  show "read_node_name S (length pre + 4) = Inr (name, length pre + length (node_bytes name))"
    by (rule read_node_name_at [OF assms(1-4)])
qed

lemma step_end:
  assumes "S = pre @ u32_be FDT_END_NODE @ post" and "fs_pos st = length pre"
  shows "fdt_step S T st = bind_r (end_node (length pre) st) (\<lambda>s. Inr (s, False))"
proof -
  have "read_be_u32 S (length pre) ''FDT structure token'' = Inr FDT_END_NODE"
    using assms(1) by (rule read_be_u32_at) simp
  then show ?thesis by (simp add: fdt_step_def assms(2) fdt_consts)
qed

lemma step_prop:
  assumes "S = pre @ prop_bytes p off @ post" and "length pre mod 4 = 0" and "length S < 2 ^ 63"
    and "fs_pos st = length pre" and "fs_path st \<noteq> []" and "prop_cells p \<noteq> []"
    and "length (prop_cells p) * 4 < 2 ^ 32" and "lookup_string T off = Some (prop_name p)"
  shows "fdt_step S T st = bind_r (group_property (prop_name p) (concat (map u32_be (prop_cells p)))
    (root_property (prop_name p) (concat (map u32_be (prop_cells p)))
      (st\<lparr>fs_pos := length pre + length (prop_bytes p off)\<rparr>))) (\<lambda>s. Inr (s, False))"
proof -
  let ?v = "concat (map u32_be (prop_cells p))" and ?n = "length (prop_cells p) * 4"
  have S: "S = pre @ u32_be FDT_PROP @ u32_be (of_nat ?n) @ u32_be off @ ?v @ post"
    by (simp add: assms(1) prop_bytes_def)
  have tok: "read_be_u32 S (length pre) ''FDT structure token'' = Inr FDT_PROP"
    using S by (rule read_be_u32_at) simp
  have len: "read_be_u32 S (length pre + 4) ''property length'' = Inr (of_nat ?n)"
    by (rule read_be_u32_at [of _ "pre @ u32_be FDT_PROP" _ "u32_be off @ ?v @ post"]) (simp_all add: S)
  have off: "read_be_u32 S (length pre + 4 + 4) ''property name offset'' = Inr off"
    by (rule read_be_u32_at [of _ "pre @ u32_be FDT_PROP @ u32_be (of_nat ?n)" _ "?v @ post"])
      (simp_all add: S)
  have n: "unat (of_nat ?n :: u32) = ?n"
    using assms(7) unfolding unat_of_nat by (intro mod_less) simp
  have val: "slice S (length pre + 4 + 8) (length pre + 4 + 8 + ?n) = Some ?v"
    by (simp add: slice_def S)
  have "length pre + length (prop_bytes p off) = length pre + 4 + 8 + ?n"
    by (simp add: length_prop_bytes)
  moreover have "length pre + 4 + 8 + ?n < 2 ^ 63" "length pre + 4 + 8 + ?n \<le> length S"
    using assms(3) by (simp_all add: S)
  moreover from this(1) have "align_up (length pre + 4 + 8 + ?n) 4 = Inr (length pre + 4 + 8 + ?n)"
    unfolding align_up_Inr using assms(2) by (simp; presburger)
  moreover have "read_string T (unat off) ''property name'' = Inr (prop_name p)"
    using assms(8) by (simp add: lookup_string_Some)
  ultimately show ?thesis
    using tok len off n val assms(5)
    by (simp add: fdt_step_def assms(4) fdt_consts prop_token_def usize_field_def checked_add_def Let_def
        add_ac)
qed

section \<open>Encodings of a table\<close>

fun enc_props :: "byte list \<Rightarrow> gpu_property list \<Rightarrow> byte list \<Rightarrow> bool" where
  "enc_props T [] bs \<longleftrightarrow> bs = []"
| "enc_props T (p # ps) bs \<longleftrightarrow> (\<exists>off r. bs = prop_bytes p off @ r \<and>
     lookup_string T off = Some (prop_name p) \<and> prop_cells p \<noteq> [] \<and>
     length (prop_cells p) * 4 < 2 ^ 32 \<and> enc_props T ps r)"

definition enc_level :: "byte list \<Rightarrow> gpu_level \<Rightarrow> byte list \<Rightarrow> bool" where
  "enc_level T l bs \<longleftrightarrow> (\<exists>ps. enc_props T (level_properties l) ps \<and>
     bs = node_bytes (level_node (level_id l)) @ ps @ u32_be FDT_END_NODE)"

fun enc_list :: "('a \<Rightarrow> byte list \<Rightarrow> bool) \<Rightarrow> 'a list \<Rightarrow> byte list \<Rightarrow> bool" where
  "enc_list f [] bs \<longleftrightarrow> bs = []"
| "enc_list f (x # xs) bs \<longleftrightarrow> (\<exists>b r. bs = b @ r \<and> f x b \<and> enc_list f xs r)"

definition enc_group :: "byte list \<Rightarrow> gpu_group \<Rightarrow> byte list \<Rightarrow> bool" where
  "enc_group T g bs \<longleftrightarrow> (\<exists>ps ls. enc_props T (header_properties g) ps \<and>
     enc_list (enc_level T) (group_levels g) ls \<and>
     bs = node_bytes (group_node (group_id g)) @ ps @ ls @ u32_be FDT_END_NODE)"

lemma enc_props_length: "enc_props T ps bs \<Longrightarrow> length bs mod 4 = 0"
  by (induction T ps bs rule: enc_props.induct)
    (auto simp: length_prop_bytes mod_add_right_eq [symmetric])

lemma enc_level_length:
  assumes "enc_level T l bs"
  shows "length bs mod 4 = 0"
proof -
  obtain ps where "enc_props T (level_properties l) ps"
    "bs = node_bytes (level_node (level_id l)) @ ps @ u32_be FDT_END_NODE"
    using assms by (auto simp: enc_level_def)
  moreover from this(1) have "4 dvd length ps" using enc_props_length by blast
  moreover have "4 dvd length (node_bytes n)" for n by (simp add: length_node_bytes)
  ultimately have "4 dvd length bs" by simp
  then show ?thesis by simp
qed

lemma enc_list_length:
  "(\<And>x b. f x b \<Longrightarrow> length b mod 4 = 0) \<Longrightarrow> enc_list f xs bs \<Longrightarrow> length bs mod 4 = 0"
  by (induction f xs bs rule: enc_list.induct) (auto simp: mod_add_eq [symmetric])

lemma enc_group_length: "enc_group T g bs \<Longrightarrow> length bs mod 4 = 0"
proof -
  assume "enc_group T g bs"
  then obtain ps ls where enc: "enc_props T (header_properties g) ps"
      "enc_list (enc_level T) (group_levels g) ls"
    and bs: "bs = node_bytes (group_node (group_id g)) @ ps @ ls @ u32_be FDT_END_NODE"
    by (auto simp: enc_group_def)
  have "length ps mod 4 = 0" "length ls mod 4 = 0"
    by (rule enc_props_length [OF enc(1)], rule enc_list_length [OF enc_level_length enc(2)])
  then have "4 dvd length ps" "4 dvd length ls" "4 dvd length (node_bytes (group_node (group_id g)))"
    by (auto simp: length_node_bytes)
  then have "4 dvd length bs" by (simp add: bs)
  then show ?thesis by simp
qed

text \<open>An encoding stays one when the string table is extended.\<close>

lemma enc_props_mono: "enc_props T ps bs \<Longrightarrow> pool_extends lookup_string T U \<Longrightarrow> enc_props U ps bs"
  by (induction T ps bs rule: enc_props.induct) (simp_all add: pool_extends_def, blast)

lemma enc_list_mono:
  "enc_list f xs bs \<Longrightarrow> (\<And>x b. f x b \<Longrightarrow> g x b) \<Longrightarrow> enc_list g xs bs"
  by (induction f xs bs rule: enc_list.induct) (simp_all, blast)

lemma enc_level_mono: "enc_level T l bs \<Longrightarrow> pool_extends lookup_string T U \<Longrightarrow> enc_level U l bs"
  by (auto simp: enc_level_def dest: enc_props_mono)

lemma enc_group_mono:
  assumes "enc_group T g bs" and "pool_extends lookup_string T U"
  shows "enc_group U g bs"
proof -
  from assms(1) obtain ps ls where "enc_props T (header_properties g) ps"
    "enc_list (enc_level T) (group_levels g) ls"
    "bs = node_bytes (group_node (group_id g)) @ ps @ ls @ u32_be FDT_END_NODE"
    by (auto simp: enc_group_def)
  then show ?thesis
    using enc_props_mono [OF _ assms(2)] enc_list_mono [of "enc_level T" _ ls "enc_level U"]
      enc_level_mono [OF _ assms(2)] unfolding enc_group_def by blast
qed

text \<open>What the encoder writes is an encoding, in the string table it returns.\<close>

definition props_storable :: "gpu_property list \<Rightarrow> bool" where
  "props_storable ps \<longleftrightarrow> (\<forall>p \<in> set ps. storable_name (prop_name p))"

definition level_storable :: "gpu_level \<Rightarrow> bool" where
  "level_storable l \<longleftrightarrow> props_storable (level_properties l)"

definition group_storable :: "gpu_group \<Rightarrow> bool" where
  "group_storable g \<longleftrightarrow> props_storable (header_properties g) \<and> (\<forall>l \<in> set (group_levels g). level_storable l)"

definition table_storable :: "gpu_table \<Rightarrow> bool" where
  "table_storable t \<longleftrightarrow> (\<forall>g \<in> set (table_groups t). group_storable g)"

text \<open>A step of the encoder that appends an encoding and extends the string table.\<close>

definition appends ::
    "(byte list \<Rightarrow> byte list \<Rightarrow> bool) \<Rightarrow> byte list \<times> byte list \<Rightarrow> byte list \<times> byte list \<Rightarrow> bool" where
  "appends enc s s' \<longleftrightarrow> (\<exists>bs E. fst s' = fst s @ bs \<and> snd s' = snd s @ E \<and> enc (snd s') bs)"

lemma encode_property_appends:
  assumes "encode_property p s = Inr s'" and "storable_name (prop_name p)"
  shows "appends (\<lambda>T. enc_props T [p]) s s'"
proof -
  obtain out0 strings where s: "s = (out0, strings)" by (cases s)
  from assms(1) obtain off strings' where off: "string_offset strings (prop_name p) = Inr (off, strings')"
    and s': "s' = (out0 @ prop_bytes p off, strings')" and cells: "prop_cells p \<noteq> []"
    "length (prop_cells p) * 4 < 2 ^ 32"
    by (auto simp: encode_property_def s Let_def bind_r_Inr_iff ensure_Inr_iff u32_field_def
        prop_bytes_def split: if_splits)
  show ?thesis
    using string_offset_append [OF off] pool.intern_lookup [OF off assms(2)] cells
    by (auto simp: appends_def s s')
qed

lemma try_fold_appends:
  assumes "\<And>x s s'. x \<in> set xs \<Longrightarrow> f x s = Inr s' \<Longrightarrow> length (fst s) mod 4 = 0 \<Longrightarrow>
      appends (\<lambda>T. enc T x) s s'"
    and "\<And>T x bs. enc T x bs \<Longrightarrow> length bs mod 4 = 0"
    and "\<And>T U x bs. enc T x bs \<Longrightarrow> pool_extends lookup_string T U \<Longrightarrow> enc U x bs"
    and "try_fold f xs s = Inr s'" and "length (fst s) mod 4 = 0"
  shows "appends (\<lambda>T. enc_list (enc T) xs) s s'"
  using assms(1,4,5)
proof (induction xs arbitrary: s)
  case Nil
  then show ?case by (simp add: appends_def)
next
  case (Cons x xs)
  from Cons.prems(2) obtain s1 where s1: "f x s = Inr s1" "try_fold f xs s1 = Inr s'"
    by (auto simp: bind_r_Inr_iff)
  obtain b E where b: "fst s1 = fst s @ b" "snd s1 = snd s @ E" "enc (snd s1) x b"
    using Cons.prems(1) [OF _ s1(1) Cons.prems(3)] by (auto simp: appends_def)
  have "length (fst s1) mod 4 = 0"
    using Cons.prems(3) assms(2) [OF b(3)] by (auto simp: b(1))
  then have "appends (\<lambda>T. enc_list (enc T) xs) s1 s'"
    using Cons.IH [of s1] Cons.prems(1) s1(2) by auto
  then obtain r F where r: "fst s' = fst s1 @ r" "snd s' = snd s1 @ F" "enc_list (enc (snd s')) xs r"
    by (auto simp: appends_def)
  have "enc (snd s') x b" using assms(3) [OF b(3)] lookup_append by (simp add: r(2))
  then show ?case using b r by (auto simp: appends_def)
qed

lemma enc_list_props: "enc_list (\<lambda>p. enc_props T [p]) ps = enc_props T ps"
proof
  show "enc_list (\<lambda>p. enc_props T [p]) ps bs = enc_props T ps bs" for bs
    by (induction ps arbitrary: bs) auto
qed

lemma encode_properties_appends:
  assumes "try_fold encode_property ps s = Inr s'" and "props_storable ps" and "length (fst s) mod 4 = 0"
  shows "appends (\<lambda>T. enc_props T ps) s s'"
proof -
  have "appends (\<lambda>T. enc_list (\<lambda>p. enc_props T [p]) ps) s s'"
    using assms encode_property_appends enc_props_length enc_props_mono
    by (intro try_fold_appends [of ps encode_property "\<lambda>T p. enc_props T [p]"])
      (auto simp: props_storable_def simp del: enc_props.simps)
  then show ?thesis by (simp only: enc_list_props)
qed

lemma encode_begin_node_bytes:
  "length output mod 4 = 0 \<Longrightarrow> encode_begin_node output name = output @ node_bytes name"
  by (simp add: encode_begin_node_def node_bytes_def pad4_append)

lemma encode_level_appends:
  assumes "encode_level l s = Inr s'" and "level_storable l" and "length (fst s) mod 4 = 0"
  shows "appends (\<lambda>T. enc_level T l) s s'"
proof -
  obtain out0 strings where s: "s = (out0, strings)" by (cases s)
  let ?s1 = "(out0 @ node_bytes (level_node (level_id l)), strings)"
  from assms(1,3) obtain s2 where s2: "try_fold encode_property (level_properties l) ?s1 = Inr s2"
    and s': "s' = (fst s2 @ u32_be FDT_END_NODE, snd s2)"
    by (auto simp: encode_level_def s bind_r_Inr_iff encode_begin_node_bytes level_node_def)
  have "length (fst ?s1) mod 4 = 0" using assms(3) by (auto simp: s length_node_bytes)
  with encode_properties_appends [OF s2] assms(2) show ?thesis
    by (auto simp: appends_def enc_level_def s' s level_storable_def)
qed

lemma encode_group_appends:
  assumes "encode_group g s = Inr s'" and "group_storable g" and "length (fst s) mod 4 = 0"
  shows "appends (\<lambda>T. enc_group T g) s s'"
proof -
  obtain out0 strings where s: "s = (out0, strings)" by (cases s)
  let ?s1 = "(out0 @ node_bytes (group_node (group_id g)), strings)"
  from assms(1,3) obtain s2 s3 where s2: "try_fold encode_property (header_properties g) ?s1 = Inr s2"
    and s3: "try_fold encode_level (group_levels g) s2 = Inr s3"
    and s': "s' = (fst s3 @ u32_be FDT_END_NODE, snd s3)"
    by (auto simp: encode_group_def s bind_r_Inr_iff encode_begin_node_bytes group_node_def)
  have l1: "length (fst ?s1) mod 4 = 0" using assms(3) by (auto simp: s length_node_bytes)
  have "appends (\<lambda>T. enc_props T (header_properties g)) ?s1 s2"
    using encode_properties_appends [OF s2 _ l1] assms(2) by (simp add: group_storable_def)
  then obtain ps E where ps: "fst s2 = fst ?s1 @ ps" "snd s2 = snd ?s1 @ E"
    "enc_props (snd s2) (header_properties g) ps" by (auto simp: appends_def)
  have l2: "length (fst s2) mod 4 = 0"
    using dvd_add [of 4 "length (fst ?s1)" "length ps"] l1 enc_props_length [OF ps(3)]
    unfolding ps(1) length_append dvd_eq_mod_eq_0 by blast
  have "appends (\<lambda>T. enc_list (enc_level T) (group_levels g)) s2 s3"
    using assms(2) encode_level_appends
    by (intro try_fold_appends [OF _ enc_level_length enc_level_mono s3 l2])
      (auto simp: group_storable_def)
  then obtain ls F where ls: "fst s3 = fst s2 @ ls" "snd s3 = snd s2 @ F"
    "enc_list (enc_level (snd s3)) (group_levels g) ls" by (auto simp: appends_def)
  have "enc_props (snd s3) (header_properties g) ps"
    using enc_props_mono [OF ps(3)] lookup_append by (simp add: ls(2))
  then show ?thesis
    using ps ls unfolding appends_def enc_group_def s s' by fastforce
qed

lemma encode_table_enc:
  assumes "encode_table t strings = Inr (bs, strings')" and "table_storable t"
  shows "enc_list (enc_group strings') (table_groups t) bs \<and> table_groups t \<noteq> [] \<and> (\<exists>E. strings' = strings @ E)"
proof -
  from assms(1) have f: "try_fold encode_group (table_groups t) ([], strings) = Inr (bs, strings')"
    and ne: "table_groups t \<noteq> []"
    by (auto simp: encode_table_def split: if_splits)
  have "appends (\<lambda>T. enc_list (enc_group T) (table_groups t)) ([], strings) (bs, strings')"
    using assms(2) encode_group_appends
    by (intro try_fold_appends [OF _ enc_group_length enc_group_mono f]) (auto simp: table_storable_def)
  with ne show ?thesis by (auto simp: appends_def)
qed

end
