(* ===== verification/Fdt_Read.thy ===== *)
theory Fdt_Read
  imports Fdt_Run
begin

text \<open>
  The token loop over an encoding: started where an encoded table begins, it ends behind it with the
  table's groups appended to its own, one range for each of them, and nothing else changed.
\<close>

lemma concat_cells_Nil: "cs \<noteq> [] \<Longrightarrow> concat (map u32_be cs) \<noteq> []"
  by (cases cs) (simp_all add: u32_be_def)

lemma prop_bytes_less: "length pre < length (pre @ prop_bytes p off @ r)"
  by (simp add: length_prop_bytes)

lemma mod4_add: "a mod 4 = 0 \<Longrightarrow> b mod 4 = 0 \<Longrightarrow> (a + b) mod 4 = (0 :: nat)"
  by (metis dvd_add dvd_eq_mod_eq_0)

lemma prop_bytes_mod4: "length (prop_bytes p off) mod 4 = 0"
  by (simp add: length_prop_bytes mod_add_right_eq [symmetric])

lemma run_level_props:
  assumes "enc_props T ps bs" and "S = pre @ bs @ post" and "length pre mod 4 = 0"
    and "length S < 2 ^ 63" and "fs_pos st = length pre" and "fs_open st = Some og"
    and "og_level og = Some l" and "length (fs_path st) = og_depth og + 2"
  shows "fdt_runs S T st (st\<lparr>fs_pos := length pre + length bs, fs_open := Some (og\<lparr>og_level :=
    Some (l\<lparr>level_properties := level_properties l @ ps\<rparr>)\<rparr>)\<rparr>)"
  using assms
proof (induction ps arbitrary: pre bs st og l)
  case Nil
  then have "st\<lparr>fs_pos := length pre + length bs, fs_open := Some (og\<lparr>og_level :=
    Some (l\<lparr>level_properties := level_properties l @ []\<rparr>)\<rparr>)\<rparr> = st"
    by (cases st; cases og) simp
  then show ?case by (simp add: fdt_runs_refl)
next
  case (Cons p ps)
  from Cons.prems(1) obtain off r where bs: "bs = prop_bytes p off @ r"
    and p: "lookup_string T off = Some (prop_name p)" "prop_cells p \<noteq> []"
      "length (prop_cells p) * 4 < 2 ^ 32" and r: "enc_props T ps r" by auto
  let ?og = "og\<lparr>og_level := Some (l\<lparr>level_properties := level_properties l @ [p]\<rparr>)\<rparr>"
  let ?st = "st\<lparr>fs_pos := length pre + length (prop_bytes p off), fs_open := Some ?og\<rparr>"
  have S: "S = pre @ prop_bytes p off @ (r @ post)" using Cons.prems(2) by (simp add: bs)
  have path: "fs_path st \<noteq> []" "length (fs_path st) - 1 \<noteq> 0" using Cons.prems(8) by auto
  have "fdt_step S T st = Inr (?st, False)"
    using step_prop [OF S Cons.prems(3,4,5) path(1) p(2,3,1)] Cons.prems(6,7,8) path
    by (simp add: root_property_def group_property_def parse_cell_property_cells p(2))
  moreover have "fs_pos st < length S" using S Cons.prems(5) prop_bytes_less by metis
  moreover have "fdt_runs S T ?st (?st\<lparr>fs_pos := length (pre @ prop_bytes p off) + length r,
      fs_open := Some (?og\<lparr>og_level := Some ((l\<lparr>level_properties := level_properties l @ [p]\<rparr>)
        \<lparr>level_properties := level_properties (l\<lparr>level_properties := level_properties l @ [p]\<rparr>) @ ps\<rparr>)\<rparr>)\<rparr>)"
    by (rule Cons.IH [OF r]) (use S Cons.prems mod4_add [OF _ prop_bytes_mod4] in simp_all)
  ultimately show ?case by (auto intro: fdt_runs_step simp: bs add.assoc)
qed

lemma run_header_props:
  assumes "enc_props T ps bs" and "S = pre @ bs @ post" and "length pre mod 4 = 0"
    and "length S < 2 ^ 63" and "fs_pos st = length pre" and "fs_open st = Some og"
    and "length (fs_path st) = og_depth og + 1"
  shows "\<exists>m c. fdt_runs S T st (st\<lparr>fs_pos := length pre + length bs, fs_model := m, fs_compatible := c,
      fs_open := Some (og\<lparr>og_group := (og_group og)\<lparr>header_properties :=
        header_properties (og_group og) @ ps\<rparr>\<rparr>)\<rparr>) \<and>
    (og_depth og \<noteq> 0 \<longrightarrow> m = fs_model st \<and> c = fs_compatible st)"
  using assms
proof (induction ps arbitrary: pre bs st og)
  case Nil
  then have "st\<lparr>fs_pos := length pre + length bs, fs_model := fs_model st, fs_compatible := fs_compatible st,
      fs_open := Some (og\<lparr>og_group := (og_group og)\<lparr>header_properties :=
        header_properties (og_group og) @ []\<rparr>\<rparr>)\<rparr> = st"
    by (cases st; cases og) simp
  then show ?case using fdt_runs_refl by metis
next
  case (Cons p ps)
  from Cons.prems(1) obtain off r where bs: "bs = prop_bytes p off @ r"
    and p: "lookup_string T off = Some (prop_name p)" "prop_cells p \<noteq> []"
      "length (prop_cells p) * 4 < 2 ^ 32" and r: "enc_props T ps r" by auto
  let ?og = "og\<lparr>og_group := (og_group og)\<lparr>header_properties := header_properties (og_group og) @ [p]\<rparr>\<rparr>"
  let ?v = "concat (map u32_be (prop_cells p))"
  define st0 where "st0 = root_property (prop_name p) ?v
    (st\<lparr>fs_pos := length pre + length (prop_bytes p off)\<rparr>)"
  define st1 where "st1 = st0\<lparr>fs_open := Some ?og\<rparr>"
  have S: "S = pre @ prop_bytes p off @ (r @ post)" using Cons.prems(2) by (simp add: bs)
  have path: "fs_path st \<noteq> []" using Cons.prems(7) by auto
  have st0: "fs_open st0 = Some og" "fs_path st0 = fs_path st" "fs_groups st0 = fs_groups st"
    "fs_ranges st0 = fs_ranges st" "fs_parent st0 = fs_parent st"
    "fs_pos st0 = length pre + length (prop_bytes p off)"
    "og_depth og \<noteq> 0 \<longrightarrow> fs_model st0 = fs_model st \<and> fs_compatible st0 = fs_compatible st"
    using Cons.prems(6,7) by (simp_all add: st0_def root_property_def)
  have step: "fdt_step S T st = Inr (st1, False)"
    using step_prop [OF S Cons.prems(3,4,5) path p(2,3,1)] Cons.prems(6,7) st0
    by (simp add: st1_def group_property_def parse_cell_property_cells p(2) flip: st0_def)
  have pos: "fs_pos st < length S" using S Cons.prems(5) prop_bytes_less by metis
  have "\<exists>m c. fdt_runs S T st1 (st1\<lparr>fs_pos := length (pre @ prop_bytes p off) + length r, fs_model := m,
      fs_compatible := c, fs_open := Some (?og\<lparr>og_group := (og_group ?og)\<lparr>header_properties :=
        header_properties (og_group ?og) @ ps\<rparr>\<rparr>)\<rparr>) \<and>
    (og_depth ?og \<noteq> 0 \<longrightarrow> m = fs_model st1 \<and> c = fs_compatible st1)"
    by (rule Cons.IH [OF r])
      (use S Cons.prems st0 mod4_add [OF _ prop_bytes_mod4] in \<open>simp_all add: st1_def\<close>)
  then obtain m c where mc: "fdt_runs S T st1 (st1\<lparr>fs_pos := length pre + length bs, fs_model := m,
      fs_compatible := c, fs_open := Some (og\<lparr>og_group := (og_group og)\<lparr>header_properties :=
        header_properties (og_group og) @ p # ps\<rparr>\<rparr>)\<rparr>)"
    "og_depth og \<noteq> 0 \<longrightarrow> m = fs_model st0 \<and> c = fs_compatible st0"
    by (auto simp: bs add.assoc st1_def)
  have "st1\<lparr>fs_pos := length pre + length bs, fs_model := m, fs_compatible := c, fs_open := x\<rparr> =
      st\<lparr>fs_pos := length pre + length bs, fs_model := m, fs_compatible := c, fs_open := x\<rparr>" for x
    using st0 by (cases st; cases st0) (simp add: st1_def)
  with mc st0 have "fdt_runs S T st (st\<lparr>fs_pos := length pre + length bs, fs_model := m,
      fs_compatible := c, fs_open := Some (og\<lparr>og_group := (og_group og)\<lparr>header_properties :=
        header_properties (og_group og) @ p # ps\<rparr>\<rparr>)\<rparr>)"
    using fdt_runs_step [OF pos step] by metis
  then show ?case using mc(2) st0 by metis
qed

lemma run_level:
  assumes "enc_level T l bs" and "S = pre @ bs @ post" and "length pre mod 4 = 0"
    and "length S < 2 ^ 63" and "fs_pos st = length pre" and "fs_open st = Some og"
    and "og_level og = None" and "length (fs_path st) = og_depth og + 1"
  shows "fdt_runs S T st (st\<lparr>fs_pos := length pre + length bs, fs_open := Some (og\<lparr>og_group :=
    (og_group og)\<lparr>group_levels := group_levels (og_group og) @ [l]\<rparr>\<rparr>)\<rparr>)"
proof -
  let ?node = "level_node (level_id l)"
  from assms(1) obtain ps where ps: "enc_props T (level_properties l) ps"
    and bs: "bs = node_bytes ?node @ ps @ u32_be FDT_END_NODE" by (auto simp: enc_level_def)
  let ?l0 = "\<lparr>level_id = level_id l, level_properties = []\<rparr>"
  let ?st1 = "st\<lparr>fs_pos := length pre + length (node_bytes ?node), fs_path := fs_path st @ [?node],
    fs_open := Some (og\<lparr>og_level := Some ?l0\<rparr>)\<rparr>"
  let ?st2 = "st\<lparr>fs_pos := length pre + length (node_bytes ?node) + length ps,
    fs_path := fs_path st @ [?node], fs_open := Some (og\<lparr>og_level := Some l\<rparr>)\<rparr>"
  have S1: "S = pre @ node_bytes ?node @ (ps @ u32_be FDT_END_NODE @ post)"
    using assms(2) by (simp add: bs)
  have m1: "length (pre @ node_bytes ?node) mod 4 = 0"
    using assms(3) by (simp add: length_node_bytes mod4_add)
  have "fdt_step S T st = Inr (?st1, False)"
    using step_begin [OF S1 assms(3) node_storable(2) assms(4,5)] assms(6,7,8)
    by (simp add: begin_node_def node_suffix begin_level_def)
  moreover have "fs_pos st < length S" using assms(5) by (simp add: S1)
  ultimately have r1: "fdt_runs S T st ?st1" by (rule fdt_runs_one [rotated])
  have a1: "fdt_runs S T ?st1 (?st1\<lparr>fs_pos := length (pre @ node_bytes ?node) + length ps,
      fs_open := Some ((og\<lparr>og_level := Some ?l0\<rparr>)\<lparr>og_level := Some (?l0\<lparr>level_properties :=
        level_properties ?l0 @ level_properties l\<rparr>)\<rparr>)\<rparr>)"
    by (rule run_level_props [OF ps, where post = "u32_be FDT_END_NODE @ post"])
      (use S1 m1 assms in simp_all)
  have a2: "?st1\<lparr>fs_pos := length (pre @ node_bytes ?node) + length ps,
      fs_open := Some ((og\<lparr>og_level := Some ?l0\<rparr>)\<lparr>og_level := Some (?l0\<lparr>level_properties :=
        level_properties ?l0 @ level_properties l\<rparr>)\<rparr>)\<rparr> = ?st2"
    by (cases st; cases l) simp
  have r2: "fdt_runs S T ?st1 ?st2" using a1 unfolding a2 .
  have S3: "S = (pre @ node_bytes ?node @ ps) @ u32_be FDT_END_NODE @ post" by (simp add: S1)
  have "fdt_step S T ?st2 = Inr (st\<lparr>fs_pos := length pre + length bs, fs_open := Some (og\<lparr>og_group :=
    (og_group og)\<lparr>group_levels := group_levels (og_group og) @ [l]\<rparr>\<rparr>)\<rparr>, False)"
    using step_end [OF S3, of ?st2] assms(6,7,8)
    by (simp add: end_node_def bs add.assoc)
  moreover have "fs_pos ?st2 < length S" by (simp add: S3)
  ultimately have r3: "fdt_runs S T ?st2 (st\<lparr>fs_pos := length pre + length bs,
      fs_open := Some (og\<lparr>og_group :=
        (og_group og)\<lparr>group_levels := group_levels (og_group og) @ [l]\<rparr>\<rparr>)\<rparr>)"
    by (rule fdt_runs_one [rotated])
  show ?thesis by (rule fdt_runs_trans [OF r1 fdt_runs_trans [OF r2 r3]])
qed

lemma run_levels:
  assumes "enc_list (enc_level T) ls bs" and "S = pre @ bs @ post" and "length pre mod 4 = 0"
    and "length S < 2 ^ 63" and "fs_pos st = length pre" and "fs_open st = Some og"
    and "og_level og = None" and "length (fs_path st) = og_depth og + 1"
  shows "fdt_runs S T st (st\<lparr>fs_pos := length pre + length bs, fs_open := Some (og\<lparr>og_group :=
    (og_group og)\<lparr>group_levels := group_levels (og_group og) @ ls\<rparr>\<rparr>)\<rparr>)"
  using assms
proof (induction ls arbitrary: pre bs st og)
  case Nil
  then have "st\<lparr>fs_pos := length pre + length bs, fs_open := Some (og\<lparr>og_group :=
    (og_group og)\<lparr>group_levels := group_levels (og_group og) @ []\<rparr>\<rparr>)\<rparr> = st"
    by (cases st; cases og) simp
  then show ?case by (simp add: fdt_runs_refl)
next
  case (Cons l ls)
  from Cons.prems(1) obtain b r where bs: "bs = b @ r" and b: "enc_level T l b"
    and r: "enc_list (enc_level T) ls r" by auto
  let ?og = "og\<lparr>og_group := (og_group og)\<lparr>group_levels := group_levels (og_group og) @ [l]\<rparr>\<rparr>"
  let ?st = "st\<lparr>fs_pos := length pre + length b, fs_open := Some ?og\<rparr>"
  have S: "S = pre @ b @ (r @ post)" using Cons.prems(2) by (simp add: bs)
  have "fdt_runs S T st ?st" by (rule run_level [OF b S Cons.prems(3-)])
  moreover have "fdt_runs S T ?st (?st\<lparr>fs_pos := length (pre @ b) + length r,
      fs_open := Some (?og\<lparr>og_group :=
    (og_group ?og)\<lparr>group_levels := group_levels (og_group ?og) @ ls\<rparr>\<rparr>)\<rparr>)"
    by (rule Cons.IH [OF r]) (use S Cons.prems mod4_add [OF _ enc_level_length [OF b]] in simp_all)
  ultimately show ?case by (auto dest: fdt_runs_trans simp: bs add.assoc)
qed

lemma run_group:
  assumes "enc_group T g bs" and "S = pre @ bs @ post" and "length pre mod 4 = 0"
    and "length S < 2 ^ 63" and "fs_pos st = length pre" and "fs_open st = None"
    and "fs_parent st = None \<or> fs_parent st = Some (fs_path st)" and "group_levels g \<noteq> []"
  shows "\<exists>m c. fdt_runs S T st (st\<lparr>fs_pos := length pre + length bs, fs_model := m, fs_compatible := c,
      fs_groups := fs_groups st @ [g], fs_ranges := fs_ranges st @ [(length pre, length pre + length bs)],
      fs_parent := Some (fs_path st)\<rparr>) \<and>
    (fs_path st \<noteq> [] \<longrightarrow> m = fs_model st \<and> c = fs_compatible st)"
proof -
  let ?node = "group_node (group_id g)"
  from assms(1) obtain ps ls where ps: "enc_props T (header_properties g) ps"
    and ls: "enc_list (enc_level T) (group_levels g) ls"
    and bs: "bs = node_bytes ?node @ ps @ ls @ u32_be FDT_END_NODE" by (auto simp: enc_group_def)
  let ?og = "\<lambda>hs ls. \<lparr>og_group = \<lparr>group_id = group_id g, header_properties = hs, group_levels = ls\<rparr>,
    og_start = length pre, og_depth = length (fs_path st), og_parent = fs_path st, og_level = None\<rparr>"
  define p1 where "p1 = length pre + length (node_bytes ?node)"
  let ?st1 = "st\<lparr>fs_pos := p1, fs_path := fs_path st @ [?node], fs_parent := Some (fs_path st),
    fs_open := Some (?og [] [])\<rparr>"
  have S1: "S = pre @ node_bytes ?node @ (ps @ ls @ u32_be FDT_END_NODE @ post)"
    using assms(2) by (simp add: bs)
  have S2: "S = (pre @ node_bytes ?node) @ ps @ (ls @ u32_be FDT_END_NODE @ post)" by (simp add: S1)
  have S3: "S = (pre @ node_bytes ?node @ ps) @ ls @ (u32_be FDT_END_NODE @ post)" by (simp add: S1)
  have S4: "S = (pre @ node_bytes ?node @ ps @ ls) @ u32_be FDT_END_NODE @ post" by (simp add: S1)
  have m1: "length (pre @ node_bytes ?node) mod 4 = 0"
    using assms(3) by (simp add: length_node_bytes mod4_add)
  have m2: "length (pre @ node_bytes ?node @ ps) mod 4 = 0"
    using mod4_add [OF m1 enc_props_length [OF ps]] by (simp add: add.assoc)
  have "fdt_step S T st = Inr (?st1, False)"
    using step_begin [OF S1 assms(3) node_storable(1) assms(4,5)] assms(6,7)
    by (auto simp: begin_node_def node_suffix begin_group_def p1_def Let_def)
  moreover have "fs_pos st < length S" using assms(5) by (simp add: S1)
  ultimately have r1: "fdt_runs S T st ?st1" by (rule fdt_runs_one [rotated])
  have "\<exists>m c. fdt_runs S T ?st1 (?st1\<lparr>fs_pos := length (pre @ node_bytes ?node) + length ps,
      fs_model := m, fs_compatible := c, fs_open := Some ((?og [] [])\<lparr>og_group :=
        (og_group (?og [] []))\<lparr>header_properties :=
          header_properties (og_group (?og [] [])) @ header_properties g\<rparr>\<rparr>)\<rparr>) \<and>
    (og_depth (?og [] []) \<noteq> 0 \<longrightarrow> m = fs_model ?st1 \<and> c = fs_compatible ?st1)"
    by (rule run_header_props [OF ps S2 m1 assms(4)]) (simp_all add: p1_def)
  then obtain m c where r2': "fdt_runs S T ?st1 (?st1\<lparr>fs_pos := length (pre @ node_bytes ?node) + length ps,
      fs_model := m, fs_compatible := c, fs_open := Some (?og (header_properties g) [])\<rparr>)"
    and mc: "fs_path st \<noteq> [] \<longrightarrow> m = fs_model st \<and> c = fs_compatible st" by auto
  define st0 where "st0 = st\<lparr>fs_path := fs_path st @ [?node], fs_parent := Some (fs_path st),
    fs_model := m, fs_compatible := c\<rparr>"
  define st2 where "st2 = st0\<lparr>fs_pos := length (pre @ node_bytes ?node @ ps),
    fs_open := Some (?og (header_properties g) [])\<rparr>"
  define st3 where "st3 = st0\<lparr>fs_pos := length (pre @ node_bytes ?node @ ps @ ls),
    fs_open := Some (?og (header_properties g) (group_levels g))\<rparr>"
  have "?st1\<lparr>fs_pos := length (pre @ node_bytes ?node) + length ps,
      fs_model := m, fs_compatible := c, fs_open := Some (?og (header_properties g) [])\<rparr> = st2"
    by (cases st) (simp add: st2_def st0_def add.assoc)
  with r2' have r2: "fdt_runs S T ?st1 st2" by simp
  have "fdt_runs S T st2 (st2\<lparr>fs_pos := length (pre @ node_bytes ?node @ ps) + length ls,
      fs_open := Some ((?og (header_properties g) [])\<lparr>og_group :=
        (og_group (?og (header_properties g) []))\<lparr>group_levels :=
          group_levels (og_group (?og (header_properties g) [])) @ group_levels g\<rparr>\<rparr>)\<rparr>)"
    by (rule run_levels [OF ls S3 m2 assms(4)]) (simp_all add: st2_def st0_def)
  then have r3: "fdt_runs S T st2 st3" by (simp add: st2_def st3_def add.assoc)
  let ?fin = "st\<lparr>fs_pos := length pre + length bs, fs_model := m, fs_compatible := c,
      fs_groups := fs_groups st @ [g], fs_ranges := fs_ranges st @ [(length pre, length pre + length bs)],
      fs_parent := Some (fs_path st)\<rparr>"
  have g: "\<lparr>group_id = group_id g, header_properties = header_properties g,
    group_levels = group_levels g\<rparr> = g" by simp
  have "fdt_step S T st3 = Inr (?fin, False)"
    using step_end [OF S4, of st3] assms(6,8)
    by (cases st) (simp add: st3_def st0_def end_node_def bs add.assoc g)
  moreover have "fs_pos st3 < length S" by (simp add: st3_def S4)
  ultimately have "fdt_runs S T st3 ?fin" by (rule fdt_runs_one [rotated])
  then have "fdt_runs S T st ?fin" using r1 r2 r3 fdt_runs_trans by blast
  with mc show ?thesis by blast
qed

fun enc_ranges :: "nat \<Rightarrow> nat list \<Rightarrow> (nat \<times> nat) list" where
  "enc_ranges p [] = []"
| "enc_ranges p (n # ns) = (p, p + n) # enc_ranges (p + n) ns"

text \<open>The lengths of the encoded groups are some lengths that add up.\<close>

lemma run_groups:
  assumes "enc_list (enc_group T) gs bs" and "S = pre @ bs @ post" and "length pre mod 4 = 0"
    and "length S < 2 ^ 63" and "fs_pos st = length pre" and "fs_open st = None"
    and "fs_parent st = Some (fs_path st)" and "\<forall>g \<in> set gs. group_levels g \<noteq> []"
  shows "\<exists>m c ns. fdt_runs S T st (st\<lparr>fs_pos := length pre + length bs, fs_model := m, fs_compatible := c,
      fs_groups := fs_groups st @ gs, fs_ranges := fs_ranges st @ enc_ranges (length pre) ns\<rparr>) \<and>
    (fs_path st \<noteq> [] \<longrightarrow> m = fs_model st \<and> c = fs_compatible st) \<and>
    length ns = length gs \<and> sum_list ns = length bs"
  using assms
proof (induction gs arbitrary: pre bs st)
  case Nil
  then have "st\<lparr>fs_pos := length pre + length bs, fs_model := fs_model st, fs_compatible := fs_compatible st,
      fs_groups := fs_groups st @ [], fs_ranges := fs_ranges st @ enc_ranges (length pre) []\<rparr> = st"
    by (cases st) simp
  with Nil.prems(1) show ?case using fdt_runs_refl by (metis enc_list.simps(1) list.size(3) sum_list.Nil)
next
  case (Cons g gs)
  from Cons.prems(1) obtain b r where bs: "bs = b @ r" and b: "enc_group T g b"
    and r: "enc_list (enc_group T) gs r" by auto
  have S: "S = pre @ b @ (r @ post)" using Cons.prems(2) by (simp add: bs)
  obtain m c where run: "fdt_runs S T st (st\<lparr>fs_pos := length pre + length b, fs_model := m, fs_compatible := c,
      fs_groups := fs_groups st @ [g], fs_ranges := fs_ranges st @ [(length pre, length pre + length b)],
      fs_parent := Some (fs_path st)\<rparr>)" (is "fdt_runs S T st ?st")
    and mc: "fs_path st \<noteq> [] \<longrightarrow> m = fs_model st \<and> c = fs_compatible st"
    using run_group [OF b S Cons.prems(3-6)] Cons.prems(7,8) by auto
  have "\<exists>m c ns. fdt_runs S T ?st (?st\<lparr>fs_pos := length (pre @ b) + length r, fs_model := m, fs_compatible := c,
      fs_groups := fs_groups ?st @ gs, fs_ranges := fs_ranges ?st @ enc_ranges (length (pre @ b)) ns\<rparr>) \<and>
    (fs_path ?st \<noteq> [] \<longrightarrow> m = fs_model ?st \<and> c = fs_compatible ?st) \<and>
    length ns = length gs \<and> sum_list ns = length r"
    by (rule Cons.IH [OF r]) (use S Cons.prems mod4_add [OF _ enc_group_length [OF b]] in simp_all)
  then obtain m' c' ns where run2: "fdt_runs S T ?st (?st\<lparr>fs_pos := length (pre @ b) + length r,
      fs_model := m', fs_compatible := c', fs_groups := fs_groups ?st @ gs,
      fs_ranges := fs_ranges ?st @ enc_ranges (length (pre @ b)) ns\<rparr>)" (is "fdt_runs S T ?st ?st2")
    and mc2: "fs_path st \<noteq> [] \<longrightarrow> m' = m \<and> c' = c" "length ns = length gs" "sum_list ns = length r"
    by auto
  have "?st2 = st\<lparr>fs_pos := length pre + length bs, fs_model := m', fs_compatible := c',
      fs_groups := fs_groups st @ g # gs,
      fs_ranges := fs_ranges st @ enc_ranges (length pre) (length b # ns)\<rparr>"
    using Cons.prems(7) by (cases st) (simp add: bs add.assoc)
  with fdt_runs_trans [OF run run2] have "fdt_runs S T st (st\<lparr>fs_pos := length pre + length bs,
      fs_model := m', fs_compatible := c', fs_groups := fs_groups st @ g # gs,
      fs_ranges := fs_ranges st @ enc_ranges (length pre) (length b # ns)\<rparr>)" by simp
  moreover have "fs_path st \<noteq> [] \<longrightarrow> m' = fs_model st \<and> c' = fs_compatible st" using mc mc2 by auto
  moreover have "length (length b # ns) = length (g # gs)" "sum_list (length b # ns) = length bs"
    using mc2 by (simp_all add: bs)
  ultimately show ?case by blast
qed

end
