(* ===== verification/Fdt_Locality.thy ===== *)
theory Fdt_Locality
  imports Fdt_Run
begin

text \<open>
  Where the token loop looks: a step reads only the bytes of its own token, so a run up to a position
  is the same on every structure block with the same bytes before it, and a run outside the GPU
  groups is the same, shifted, on every block with the same bytes after it. Both hold when the string
  table is extended.
\<close>

lemma slice_prefix: "b \<le> length P \<Longrightarrow> slice (P @ A) a b = slice (P @ B) a b"
  by (simp add: slice_def)

lemma position_of_byte_prefix:
  "position_of_byte a (xs @ ys) = Some n \<Longrightarrow> n < length xs \<Longrightarrow> position_of_byte a (xs @ zs) = Some n"
  by (auto simp: position_of_byte_Some nth_append)

lemma read_node_name_Inr:
  "read_node_name bs p = Inr (n, nx) \<longleftrightarrow> (\<exists>e. p \<le> length bs \<and> position_of_byte 0 (drop p bs) = Some e \<and>
    from_utf8 (window bs p (p + e)) = Some n \<and> align_up (p + e + 1) 4 = Inr nx \<and> nx \<le> length bs)"
  by (auto simp: read_node_name_eq Let_def bind_r_Inr_iff ok_or_Inr_iff slice_def bind_eq_Some_conv
      split: if_splits) (rule exI [of _ nx], simp)

lemma read_node_name_prefix:
  assumes "read_node_name (P @ A) p = Inr (n, nx)" and "nx \<le> length P"
  shows "read_node_name (P @ B) p = Inr (n, nx)"
proof -
  from assms(1) obtain e where e: "position_of_byte 0 (drop p (P @ A)) = Some e"
    "from_utf8 (window (P @ A) p (p + e)) = Some n" "align_up (p + e + 1) 4 = Inr nx"
    by (auto simp: read_node_name_Inr)
  have le: "p + e + 1 \<le> length P" using align_up_ge [OF e(3)] assms(2) by simp
  then have "position_of_byte 0 (drop p P @ A) = Some e" "e < length (drop p P)" using e(1) by simp_all
  then have "position_of_byte 0 (drop p P @ B) = Some e" by (rule position_of_byte_prefix)
  moreover have "window (P @ B) p (p + e) = window (P @ A) p (p + e)"
    using le by (simp add: window_append_left)
  ultimately show ?thesis using e le assms(2) by (auto simp: read_node_name_Inr)
qed

lemma align_up_shift:
  assumes "k mod 4 = 0" and "k + v + 3 < 2 ^ 64"
  shows "align_up (k + v) 4 = Inr n \<longleftrightarrow> (\<exists>m. align_up v 4 = Inr m \<and> n = k + m)"
proof -
  from assms(1) obtain j where k: "k = 4 * j" by auto
  have "(k + v + 3) div 4 * 4 = k + (v + 3) div 4 * 4"
    unfolding k by (simp add: add.assoc)
  then show ?thesis using assms(2) by (auto simp: align_up_Inr)
qed

lemma read_node_name_shift:
  assumes "length X mod 4 = 0" and "length X + length R < 2 ^ 63"
  shows "read_node_name (X @ R) (length X + p) = Inr (n, nx) \<longleftrightarrow>
    (\<exists>m. read_node_name R p = Inr (n, m) \<and> nx = length X + m)"
proof -
  have al: "align_up (length X + p + e + 1) 4 = Inr nx \<longleftrightarrow>
      (\<exists>m. align_up (p + e + 1) 4 = Inr m \<and> nx = length X + m)"
    if "position_of_byte 0 (drop p R) = Some e" for e nx
    using align_up_shift [OF assms(1), of "p + e + 1" nx] position_of_byte_length [OF that] assms(2)
    by (simp add: add.assoc)
  have w: "window (X @ R) (length X + p) (length X + p + e) = window R p (p + e)" for e
    using window_append_right [of X R p "p + e"] by (simp add: add.assoc)
  show ?thesis using al by (auto simp: read_node_name_Inr w)
qed

lemma read_be_u32_shift: "read_be_u32 (X @ R) (length X + p) name = read_be_u32 R p name"
  using slice_append_right [of X R p "p + 4"] by (simp add: read_be_u32_def add.assoc)

lemma read_be_u32_prefix:
  "p + 4 \<le> length P \<Longrightarrow> read_be_u32 (P @ A) p name = read_be_u32 (P @ B) p name"
  using slice_prefix [of "p + 4" P A p B] by (simp add: read_be_u32_def)

section \<open>Steps before a position\<close>

lemma begin_node_prefix:
  assumes "begin_node (P @ A) t st = Inr st1" and "fs_pos st1 \<le> length P"
  shows "begin_node (P @ B) t st = Inr st1"
proof -
  from assms(1) obtain n nx where r: "read_node_name (P @ A) (t + 4) = Inr (n, nx)"
    by (auto simp: begin_node_def bind_r_Inr_iff)
  have "fs_pos st1 = nx"
    using assms(1) r
    by (auto simp: begin_node_def bind_r_Inr_iff Let_def split: option.splits if_splits
        dest!: begin_group_pos begin_level_pos)
  then have "read_node_name (P @ B) (t + 4) = Inr (n, nx)"
    using read_node_name_prefix [OF r] assms(2) by simp
  with assms(1) r show ?thesis by (simp add: begin_node_def)
qed

text \<open>The parts of a property token.\<close>

definition prop_parts ::
    "byte list \<Rightarrow> byte list \<Rightarrow> nat \<Rightarrow> string \<Rightarrow> byte list \<Rightarrow> nat \<Rightarrow> bool" where
  "prop_parts S T t name val nx \<longleftrightarrow> (\<exists>len off.
     read_be_u32 S (t + 4) ''property length'' = Inr len \<and>
     read_be_u32 S (t + 8) ''property name offset'' = Inr off \<and>
     t + 12 + unat len < 2 ^ 64 \<and> slice S (t + 12) (t + 12 + unat len) = Some val \<and>
     align_up (t + 12 + unat len) 4 = Inr nx \<and> nx \<le> length S \<and>
     read_string T (unat off) ''property name'' = Inr name)"

lemma prop_token_parts:
  "prop_token S T t st = Inr st1 \<longleftrightarrow> fs_path st \<noteq> [] \<and> (\<exists>name val nx. prop_parts S T t name val nx \<and>
    group_property name val (root_property name val (st\<lparr>fs_pos := nx\<rparr>)) = Inr st1)"
proof -
  have "t + 4 + 4 = t + 8" "t + 4 + 8 = t + 12" by simp_all
  then show ?thesis
    unfolding prop_token_def prop_parts_def usize_field_def checked_add_def Let_def
    by (simp only:) (auto simp: bind_r_Inr_iff ok_or_Inr_iff ensure_Inr_iff not_less split: if_splits)
qed

lemma slice_length: "slice S a b = Some v \<Longrightarrow> b \<le> length S"
  by (simp add: slice_def split: if_splits)

lemma prop_parts_prefix:
  assumes "prop_parts (P @ A) T t name val nx" and "nx \<le> length P"
  shows "prop_parts (P @ B) (T @ E) t name val nx"
proof -
  from assms(1) obtain len off where p: "read_be_u32 (P @ A) (t + 4) ''property length'' = Inr len"
    "read_be_u32 (P @ A) (t + 8) ''property name offset'' = Inr off"
    "t + 12 + unat len < 2 ^ 64" "slice (P @ A) (t + 12) (t + 12 + unat len) = Some val"
    "align_up (t + 12 + unat len) 4 = Inr nx" "read_string T (unat off) ''property name'' = Inr name"
    by (auto simp: prop_parts_def)
  have le: "t + 12 + unat len \<le> length P" using align_up_ge [OF p(5)] assms(2) by simp
  have "read_be_u32 (P @ B) (t + 4) ''property length'' = Inr len"
    "read_be_u32 (P @ B) (t + 8) ''property name offset'' = Inr off"
    "slice (P @ B) (t + 12) (t + 12 + unat len) = Some val"
    using p(1,2,4) le read_be_u32_prefix [of "t + 4" P A _ B] read_be_u32_prefix [of "t + 8" P A _ B]
      slice_prefix [OF le, of A "t + 12" B] by simp_all
  then show ?thesis
    using p(3,5) read_string_append [OF p(6)] assms(2) unfolding prop_parts_def by auto
qed

lemma prop_parts_shift:
  assumes "prop_parts (X @ R) T (length X + t) name val nx" and "length X mod 4 = 0" and "length Y mod 4 = 0"
    and "length X + length R < 2 ^ 63" and "length Y + length R < 2 ^ 63"
  shows "\<exists>m. nx = length X + m \<and> prop_parts (Y @ R) (T @ E) (length Y + t) name val (length Y + m)"
proof -
  from assms(1) obtain len off where p: "read_be_u32 (X @ R) (length X + (t + 4)) ''property length'' = Inr len"
    "read_be_u32 (X @ R) (length X + (t + 8)) ''property name offset'' = Inr off"
    "slice (X @ R) (length X + (t + 12)) (length X + (t + 12 + unat len)) = Some val"
    "align_up (length X + (t + 12 + unat len)) 4 = Inr nx" "nx \<le> length (X @ R)"
    "read_string T (unat off) ''property name'' = Inr name"
    by (auto simp: prop_parts_def add.assoc)
  have R: "read_be_u32 R (t + 4) ''property length'' = Inr len"
    "read_be_u32 R (t + 8) ''property name offset'' = Inr off"
    "slice R (t + 12) (t + 12 + unat len) = Some val"
    using p(1-3) by (simp_all only: read_be_u32_shift slice_append_right)
  have le: "t + 12 + unat len \<le> length R" using slice_length [OF R(3)] .
  obtain m where m: "align_up (t + 12 + unat len) 4 = Inr m" "nx = length X + m"
    using align_up_shift [OF assms(2), of "t + 12 + unat len" nx] p(4) le assms(4) by auto
  have "align_up (length Y + (t + 12 + unat len)) 4 = Inr (length Y + m)"
    using align_up_shift [OF assms(3), of "t + 12 + unat len" "length Y + m"] m(1) le assms(5) by auto
  moreover have "read_be_u32 (Y @ R) (length Y + (t + 4)) ''property length'' = Inr len"
    "read_be_u32 (Y @ R) (length Y + (t + 8)) ''property name offset'' = Inr off"
    "slice (Y @ R) (length Y + (t + 12)) (length Y + (t + 12 + unat len)) = Some val"
    using R by (simp_all only: read_be_u32_shift slice_append_right)
  moreover have "length Y + (t + 12 + unat len) < 2 ^ 64" "m \<le> length R"
    using le assms(5) p(5) m(2) by simp_all
  ultimately have "prop_parts (Y @ R) (T @ E) (length Y + t) name val (length Y + m)"
    using read_string_append [OF p(6)] unfolding prop_parts_def by (simp add: add.assoc)
  with m(2) show ?thesis by blast
qed

lemma fdt_step_prefix:
  assumes "fdt_step (P @ A) T st = Inr (st1, False)" and "fs_pos st1 \<le> length P"
  shows "fdt_step (P @ B) (T @ E) st = Inr (st1, False)"
proof -
  let ?t = "fs_pos st"
  have le: "?t + 4 \<le> length P" using fdt_step_pos [OF assms(1)] assms(2) by simp
  have "prop_token (P @ B) (T @ E) ?t st = Inr st1" if h: "prop_token (P @ A) T ?t st = Inr st1"
  proof -
    from h obtain name val nx where parts: "prop_parts (P @ A) T ?t name val nx"
      "group_property name val (root_property name val (st\<lparr>fs_pos := nx\<rparr>)) = Inr st1" "fs_path st \<noteq> []"
      by (auto simp: prop_token_parts)
    then have "nx \<le> length P" using group_property_pos [OF parts(2)] assms(2) by simp
    with prop_parts_prefix [OF parts(1)] parts(2,3) show ?thesis unfolding prop_token_parts by blast
  qed
  moreover have "begin_node (P @ B) ?t st = Inr st1" if "begin_node (P @ A) ?t st = Inr st1"
    by (rule begin_node_prefix [OF that assms(2)])
  moreover obtain tok where "read_be_u32 (P @ A) ?t ''FDT structure token'' = Inr tok"
    using assms(1) unfolding fdt_step_def Let_def bind_r_Inr_iff by blast
  moreover from this have "read_be_u32 (P @ B) ?t ''FDT structure token'' = Inr tok"
    using read_be_u32_prefix [OF le, of A _ B] by simp
  ultimately show ?thesis
    using assms(1) unfolding fdt_step_def Let_def
    by (simp add: bind_r_Inr_iff fdt_consts split: if_splits)
qed

lemma fdt_runs_pos: "fdt_runs S T a b \<Longrightarrow> fs_pos a \<le> fs_pos b"
  by (induction rule: fdt_runs.induct) (auto dest: fdt_step_pos)

lemma fdt_runs_prefix:
  assumes "fdt_runs (P @ A) T a b" and "fs_pos b \<le> length P"
  shows "fdt_runs (P @ B) (T @ E) a b"
  using assms
proof (induction rule: fdt_runs.induct)
  case (fdt_runs_step st st1 st2)
  have le: "fs_pos st1 \<le> length P"
    using fdt_runs_pos [OF fdt_runs_step.hyps(3)] fdt_runs_step.prems by simp
  have "fs_pos st < length (P @ B)" using fdt_step_pos [OF fdt_runs_step.hyps(2)] le by simp
  with fdt_step_prefix [OF fdt_runs_step.hyps(2) le] fdt_runs_step show ?case
    by (blast intro: fdt_runs.fdt_runs_step)
qed (rule fdt_runs_refl)

section \<open>What a step does to the groups\<close>

definition same_groups :: "fdt_state \<Rightarrow> fdt_state \<Rightarrow> bool" where
  "same_groups a b \<longleftrightarrow> fs_groups b = fs_groups a \<and> fs_ranges b = fs_ranges a"

text \<open>The four kinds of steps: outside a group, opening one, inside one, closing one.\<close>

definition outside_step :: "fdt_state \<Rightarrow> fdt_state \<Rightarrow> bool" where
  "outside_step a b \<longleftrightarrow> same_groups a b \<and> fs_parent b = fs_parent a \<and> fs_open a = None \<and> fs_open b = None"

definition opening_step :: "fdt_state \<Rightarrow> fdt_state \<Rightarrow> bool" where
  "opening_step a b \<longleftrightarrow> same_groups a b \<and> fs_open a = None \<and> fs_parent b = Some (fs_path a) \<and>
     (fs_parent a = None \<or> fs_parent a = Some (fs_path a)) \<and>
     (\<exists>og. fs_open b = Some og \<and> og_start og = fs_pos a \<and> og_parent og = fs_path a)"

definition inside_step :: "fdt_state \<Rightarrow> fdt_state \<Rightarrow> bool" where
  "inside_step a b \<longleftrightarrow> same_groups a b \<and> fs_parent b = fs_parent a \<and>
     (\<exists>og og'. fs_open a = Some og \<and> fs_open b = Some og' \<and> og_start og' = og_start og \<and>
        og_parent og' = og_parent og)"

definition closing_step :: "fdt_state \<Rightarrow> fdt_state \<Rightarrow> bool" where
  "closing_step a b \<longleftrightarrow> fs_open b = None \<and> fs_parent b = fs_parent a \<and>
     (\<exists>og. fs_open a = Some og \<and> fs_groups b = fs_groups a @ [og_group og] \<and>
        fs_ranges b = fs_ranges a @ [(og_start og, fs_pos b)] \<and> fs_path b = og_parent og)"

lemmas step_kinds = outside_step_def opening_step_def inside_step_def closing_step_def same_groups_def

lemma begin_node_kind:
  assumes "begin_node S (fs_pos a) a = Inr b"
  shows "outside_step a b \<or> opening_step a b \<or> inside_step a b"
proof -
  from assms obtain n nx where r: "read_node_name S (fs_pos a + 4) = Inr (n, nx)"
    by (auto simp: begin_node_def bind_r_Inr_iff)
  let ?a = "a\<lparr>fs_pos := nx, fs_path := fs_path a @ [n]\<rparr>"
  from assms r obtain gid where gid: "decimal_suffix n ''qcom,gpu-pwrlevels-'' = Inr gid"
    by (auto simp: begin_node_def bind_r_Inr_iff Let_def)
  show ?thesis
  proof (cases gid)
    case (Some i)
    then have "begin_group (fs_pos a) i ?a = Inr b" using assms r gid by (simp add: begin_node_def)
    then show ?thesis
      by (auto simp: begin_group_def Let_def bind_r_Inr_iff ensure_Inr_iff step_kinds
          split: if_splits option.splits)
  next
    case None
    from assms r gid None obtain lid where lid: "decimal_suffix n ''qcom,gpu-pwrlevel@'' = Inr lid"
      by (auto simp: begin_node_def bind_r_Inr_iff Let_def)
    show ?thesis
    proof (cases lid)
      case (Some i)
      then have "begin_level i ?a = Inr b" using assms r gid None lid by (simp add: begin_node_def)
      then show ?thesis
        by (cases "fs_open a") (auto simp: begin_level_def step_kinds split: if_splits)
    next
      case None2: None
      then have "case fs_open a of None \<Rightarrow> b = ?a | Some og \<Rightarrow> b = ?a"
        using assms r gid None lid
        by (cases "fs_open a") (auto simp: begin_node_def split: if_splits)
      then show ?thesis by (cases "fs_open a") (auto simp: step_kinds)
    qed
  qed
qed

lemma end_node_kind:
  assumes "end_node t a = Inr b"
  shows "outside_step a b \<or> inside_step a b \<or> closing_step a b"
proof (cases "fs_open a")
  case None
  with assms show ?thesis by (auto simp: end_node_def Let_def step_kinds split: if_splits)
next
  case (Some og)
  with assms show ?thesis
    by (cases "og_level og") (auto simp: end_node_def Let_def step_kinds split: if_splits)
qed

lemma prop_token_kind:
  assumes "prop_token S T t a = Inr b"
  shows "outside_step a b \<or> inside_step a b"
proof -
  from assms obtain name val nx where
    g: "group_property name val (root_property name val (a\<lparr>fs_pos := nx\<rparr>)) = Inr b"
    by (auto simp: prop_token_parts)
  define c where "c = root_property name val (a\<lparr>fs_pos := nx\<rparr>)"
  have c: "fs_open c = fs_open a" "fs_parent c = fs_parent a" "fs_groups c = fs_groups a"
    "fs_ranges c = fs_ranges a" by (simp_all add: c_def root_property_def)
  show ?thesis
  proof (cases "fs_open a")
    case None
    with g c show ?thesis by (auto simp: group_property_def step_kinds simp flip: c_def)
  next
    case (Some og)
    with g c show ?thesis
      by (cases "og_level og")
        (auto simp: group_property_def step_kinds Let_def bind_r_Inr_iff simp flip: c_def split: if_splits)
  qed
qed

lemma fdt_step_kind:
  assumes "fdt_step S T a = Inr (b, fin)"
  shows "outside_step a b \<or> opening_step a b \<or> inside_step a b \<or> closing_step a b"
proof -
  have nop: "outside_step a (a\<lparr>fs_pos := p\<rparr>) \<or> inside_step a (a\<lparr>fs_pos := p\<rparr>)" for p
    by (cases "fs_open a") (auto simp: step_kinds)
  have fin: "outside_step a b" if "end_token S (fs_pos a) a = Inr b"
    using that by (auto simp: end_token_def bind_r_Inr_iff step_kinds split: if_splits)
  from assms consider "begin_node S (fs_pos a) a = Inr b" | "end_node (fs_pos a) a = Inr b"
    | "prop_token S T (fs_pos a) a = Inr b" | "b = a\<lparr>fs_pos := fs_pos a + 4\<rparr>"
    | "end_token S (fs_pos a) a = Inr b"
    unfolding fdt_step_def Let_def bind_r_Inr_iff by (auto split: if_splits simp: bind_r_Inr_iff)
  then show ?thesis
    by cases (use begin_node_kind end_node_kind prop_token_kind nop fin in blast)+
qed

lemma last_step_outside:
  assumes "fdt_step S T a = Inr (b, True)"
  shows "outside_step a b \<and> fs_path a = []"
  using assms
  by (auto simp: fdt_step_def Let_def bind_r_Inr_iff end_token_def step_kinds split: if_splits)

end
