(* ===== verification/Gpu_Normalize.thy ===== *)
theory Gpu_Normalize
  imports Gpu_Table
begin

text \<open>
  The contracts of the table editor: what a table without hard errors is, that normalising such a
  table never panics, and what the normalised table guarantees to the serialiser (rows numbered by
  position, initial indices in range and on the frequency they pointed at).
\<close>

section \<open>Lookup by name\<close>

lemma find_index_Some:
  "find_index P xs = Some i \<longleftrightarrow> i < length xs \<and> P (xs ! i) \<and> (\<forall>j < i. \<not> P (xs ! j))"
proof (induction xs arbitrary: i)
  case (Cons x xs)
  show ?case
  proof (cases i)
    case 0
    then show ?thesis by auto
  next
    case (Suc k)
    show ?thesis
      by (auto simp: Suc Cons.IH nth_Cons split: nat.splits)
  qed
qed simp

lemma find_index_None: "find_index P xs = None \<longleftrightarrow> (\<forall>x \<in> set xs. \<not> P x)"
  by (induction xs) auto

lemma find_via_index: "List.find P xs = map_option (\<lambda>i. xs ! i) (find_index P xs)"
  by (induction xs) (auto simp: option.map_comp comp_def)

lemma find_index_list_update:
  assumes "find_index P xs = Some i" and "P y"
  shows "find_index P (xs[i := y]) = Some i"
  using assms by (auto simp: find_index_Some nth_list_update)

lemma find_index_list_update_other:
  assumes "i < length xs" and "\<not> Q y" and "\<not> Q (xs ! i)"
  shows "map_option (\<lambda>k. (xs[i := y]) ! k) (find_index Q (xs[i := y])) =
    map_option (\<lambda>k. xs ! k) (find_index Q xs)"
  using assms
proof (induction xs arbitrary: i)
  case (Cons x xs)
  show ?case
  proof (cases i)
    case 0
    with Cons.prems show ?thesis by (auto simp: option.map_comp comp_def)
  next
    case (Suc k)
    with Cons.IH [of k] Cons.prems show ?thesis by (auto simp: option.map_comp comp_def)
  qed
qed simp

lemma find_property_update_same:
  assumes "find_index (\<lambda>p. prop_name p = n) ps = Some i" and "prop_name p' = n"
  shows "find_property (ps[i := p']) n = Some p'"
  using find_index_list_update [OF assms(1), of p'] assms
  by (auto simp: find_property_def find_via_index find_index_Some)

lemma find_property_update_other:
  assumes "find_index (\<lambda>p. prop_name p = n) ps = Some i" and "prop_name p' = n" and "m \<noteq> n"
  shows "find_property (ps[i := p']) m = find_property ps m"
  using find_index_list_update_other [of i ps "\<lambda>p. prop_name p = m" p'] assms
  by (auto simp: find_property_def find_via_index find_index_Some)

lemma scalar_property_find:
  "scalar_property ps n = Some c \<longleftrightarrow> (\<exists>p. find_property ps n = Some p \<and> prop_cells p = [c])"
  by (auto simp: scalar_property_def length_Suc_conv split: option.splits)

lemma properties_ok_update:
  assumes "properties_ok loc ps" and "i < length ps" and "property_ok loc p'"
    and "prop_name p' = prop_name (ps ! i)"
  shows "properties_ok loc (ps[i := p'])"
proof -
  have names: "map prop_name (ps[i := p']) = map prop_name ps"
    using assms(2,4) by (simp add: map_update list_update_same_conv)
  have "\<forall>p \<in> set (ps[i := p']). property_ok loc p"
    using assms(1,3) set_update_subset_insert [of ps i p'] by (auto simp: properties_ok_def)
  with names assms(1) show ?thesis by (simp add: properties_ok_def)
qed

section \<open>Renumbering\<close>

text \<open>Two levels that differ at most in their id and their \<open>reg\<close> cell.\<close>

definition same_but_reg :: "gpu_level \<Rightarrow> gpu_level \<Rightarrow> bool" where
  "same_but_reg l l' \<longleftrightarrow> map prop_name (level_properties l') = map prop_name (level_properties l) \<and>
     (\<forall>n. n \<noteq> ''reg'' \<longrightarrow> find_property (level_properties l') n = find_property (level_properties l) n)"

definition level_numbered :: "nat \<Rightarrow> gpu_level \<Rightarrow> bool" where
  "level_numbered i l \<longleftrightarrow> level_id l = of_nat i \<and>
     scalar_property (level_properties l) ''reg'' = Some (of_nat i)"

lemma same_but_reg_frequency: "same_but_reg l l' \<Longrightarrow> level_frequency l' = level_frequency l"
  by (simp add: same_but_reg_def level_frequency_def scalar_property_def)

lemma renumber_level_ok:
  assumes "level_ok l" and "pos < 2 ^ 32"
  obtains l' where "renumber_level pos l = Inr l'" "level_ok l'" "level_numbered pos l'"
    "same_but_reg l l'"
proof -
  let ?ps = "level_properties l"
  obtain c where "scalar_property ?ps ''reg'' = Some c" using assms(1) by (auto simp: level_ok_def)
  then obtain p where p: "find_property ?ps ''reg'' = Some p" "prop_cells p = [c]"
    by (auto simp: scalar_property_find)
  then obtain i where i: "find_index (\<lambda>p. prop_name p = ''reg'') ?ps = Some i" "?ps ! i = p"
    by (auto simp: find_property_def find_via_index)
  define p' where "p' = p\<lparr>prop_cells := [of_nat pos :: u32]\<rparr>"
  define l' where "l' = l\<lparr>level_id := of_nat pos, level_properties := ?ps[i := p']\<rparr>"
  have len: "i < length ?ps" and name: "prop_name p = ''reg''"
    using i by (auto simp: find_index_Some)
  then have name': "prop_name p' = ''reg''" by (simp add: p'_def)
  have r: "renumber_level pos l = Inr l'"
    using i p assms(2) by (simp add: renumber_level_def set_first_cell_def p'_def l'_def)
  have same: "same_but_reg l l'"
    using find_property_update_other [OF i(1) name'] len i(2) name name'
    by (simp add: same_but_reg_def l'_def map_update list_update_same_conv)
  have reg: "level_numbered pos l'"
    using find_property_update_same [OF i(1) name']
    by (simp add: level_numbered_def l'_def scalar_property_find p'_def)
  have "property_ok Level p"
    using assms(1) len i(2) nth_mem [OF len] by (auto simp: level_ok_def properties_ok_def)
  then have "property_ok Level p'" by (simp add: property_ok_def p'_def)
  then have "properties_ok Level (level_properties l')"
    using assms(1) len i(2) name name' by (auto simp: l'_def level_ok_def intro: properties_ok_update)
  moreover have "scalar_property (level_properties l') n \<noteq> None"
    if "n \<in> {''reg'', ''qcom,gpu-freq'', ''qcom,level''}" for n
    using that reg same assms(1)
    by (cases "n = ''reg''")
      (auto simp: level_ok_def level_numbered_def same_but_reg_def scalar_property_def)
  ultimately have "level_ok l'" by (simp add: level_ok_def)
  show thesis by (rule that [OF r \<open>level_ok l'\<close> reg same])
qed

lemma renumber_levels_ok:
  assumes "\<forall>l \<in> set ls. level_ok l" and "pos + length ls \<le> 2 ^ 32"
  shows "\<exists>ls'. renumber_levels pos ls = Inr ls' \<and> length ls' = length ls \<and>
    (\<forall>i < length ls. level_ok (ls' ! i) \<and> level_numbered (pos + i) (ls' ! i) \<and>
       same_but_reg (ls ! i) (ls' ! i))"
  using assms
proof (induction ls arbitrary: pos)
  case (Cons l ls)
  then obtain l' where l': "renumber_level pos l = Inr l'" "level_ok l'" "level_numbered pos l'"
    "same_but_reg l l'"
    using renumber_level_ok [of l pos] by auto
  from Cons obtain ls' where "renumber_levels (Suc pos) ls = Inr ls'" "length ls' = length ls"
    "\<forall>i < length ls. level_ok (ls' ! i) \<and> level_numbered (Suc pos + i) (ls' ! i) \<and>
       same_but_reg (ls ! i) (ls' ! i)"
    using Cons.IH [of "Suc pos"] by auto
  with l' show ?case
    by (intro exI [of _ "l' # ls'"]) (auto simp: nth_Cons split: nat.splits)
qed simp

lemma renumber_levels_too_many:
  assumes "\<forall>l \<in> set ls. level_ok l" and "2 ^ 32 < pos + length ls" and "pos \<le> 2 ^ 32"
  shows "renumber_levels pos ls = Inl TooManyLevels"
  using assms
proof (induction ls arbitrary: pos)
  case (Cons l ls)
  show ?case
  proof (cases "pos < 2 ^ 32")
    case True
    then obtain l' where "renumber_level pos l = Inr l'"
      using renumber_level_ok [of l pos] Cons.prems by auto
    with Cons True show ?thesis by simp
  next
    case False
    then show ?thesis by (simp add: renumber_level_def)
  qed
qed simp

section \<open>Retargeting\<close>

lemma matching_indices_mem:
  "i \<in> set (matching_indices f ls) \<longleftrightarrow> i < length ls \<and> level_frequency (ls ! i) = Some f"
  by (auto simp: matching_indices_def)

lemma retarget_position_less:
  assumes "ls \<noteq> []"
  shows "retarget_position i f ls < length ls"
proof (cases "case f of None \<Rightarrow> [] | Some g \<Rightarrow> matching_indices g ls")
  case Nil
  then show ?thesis using assms by (simp add: retarget_position_def min_less_iff_disj)
next
  case (Cons x xs)
  then have "x \<in> set (case f of None \<Rightarrow> [] | Some g \<Rightarrow> matching_indices g ls)" by simp
  then have "x < length ls" by (auto simp: matching_indices_mem split: option.splits)
  with Cons show ?thesis by (simp add: retarget_position_def)
qed

text \<open>The first row with the old frequency, when there is one.\<close>

lemma retarget_position_first:
  assumes "i < length ls" and "level_frequency (ls ! i) = Some f"
  shows "level_frequency (ls ! retarget_position k (Some f) ls) = Some f"
    and "retarget_position k (Some f) ls \<le> i"
proof -
  let ?m = "matching_indices f ls"
  have "i \<in> set ?m" using assms by (simp add: matching_indices_mem)
  then obtain x xs where m: "?m = x # xs" by (cases ?m) auto
  then have x: "retarget_position k (Some f) ls = x" by (simp add: retarget_position_def)
  have "x \<in> set ?m" using m by simp
  then show "level_frequency (ls ! retarget_position k (Some f) ls) = Some f"
    by (simp add: x matching_indices_mem)
  have "sorted ?m" by (simp add: matching_indices_def sorted_filter [of id, simplified])
  with m \<open>i \<in> set ?m\<close> show "retarget_position k (Some f) ls \<le> i" by (auto simp: x)
qed

definition initial_names :: "string set" where
  "initial_names = {''qcom,initial-pwrlevel'', ''qcom,initial-min-pwrlevel''}"

text \<open>
  What the retargeting guarantees for one index property: it is in range, and it is on the first
  row with the frequency it was on in the source group, when that frequency still exists.
\<close>

definition index_retargeted ::
    "gpu_group option \<Rightarrow> gpu_property list \<Rightarrow> string \<Rightarrow> gpu_level list \<Rightarrow> u32 option \<Rightarrow> bool" where
  "index_retargeted sg old_header name ls c \<longleftrightarrow>
     (case find_property old_header name of
        None \<Rightarrow> c = None
      | Some p \<Rightarrow> \<exists>k < length ls. c = Some (of_nat k) \<and>
          (\<forall>f i. source_frequency sg (retarget_index sg (prop_cells p ! 0) name) = Some f \<longrightarrow>
             i < length ls \<longrightarrow> level_frequency (ls ! i) = Some f \<longrightarrow>
             level_frequency (ls ! k) = Some f \<and> k \<le> i))"

lemma index_retargeted_header:
  "find_property h n = find_property h' n \<Longrightarrow>
    index_retargeted sg h n ls c = index_retargeted sg h' n ls c"
  by (simp add: index_retargeted_def)

lemma retarget_property_ok:
  assumes g: "group_ok g" and name: "name \<in> initial_names"
  obtains h adv where "retarget_property sg g name = Inr (g\<lparr>header_properties := h\<rparr>, adv)"
    "group_ok (g\<lparr>header_properties := h\<rparr>)"
    "index_retargeted sg (header_properties g) name (group_levels g) (scalar_property h name)"
    "\<forall>m. m \<noteq> name \<longrightarrow> find_property h m = find_property (header_properties g) m"
    "map prop_name h = map prop_name (header_properties g)"
proof (cases "find_index (\<lambda>p. prop_name p = name) (header_properties g)")
  case None
  then have "find_property (header_properties g) name = None"
    by (simp add: find_property_def find_via_index)
  with None g that [of "header_properties g" "[]"] show thesis
    by (simp add: retarget_property_def index_retargeted_def scalar_property_def)
next
  case (Some pos)
  let ?ps = "header_properties g" and ?ls = "group_levels g"
  define p where "p = ?ps ! pos"
  have pos: "pos < length ?ps" "prop_name p = name" using Some by (auto simp: find_index_Some p_def)
  have pok: "property_ok GroupHeader p"
    using g pos(1) nth_mem [OF pos(1)] by (auto simp: group_ok_def properties_ok_def p_def)
  then obtain c where c: "prop_cells p = [c]"
    using name pos(2)
    by (auto simp: property_ok_def must_be_scalar_def initial_names_def length_Suc_conv)
  have ls: "?ls \<noteq> []" using g by (simp add: group_ok_def)
  define old where "old = retarget_index sg c name"
  define f where "f = source_frequency sg old"
  define k where "k = retarget_position old f ?ls"
  have k: "k < length ?ls" unfolding k_def by (rule retarget_position_less [OF ls])
  then have "level_ok (?ls ! k)" using g nth_mem [OF k] by (simp add: group_ok_def)
  then obtain nf where nf: "level_frequency (?ls ! k) = Some nf"
    by (auto simp: level_ok_def level_frequency_def)
  define p' where "p' = p\<lparr>prop_cells := [of_nat k :: u32]\<rparr>"
  define h where "h = ?ps[pos := p']"
  have p': "prop_name p' = name" "property_ok GroupHeader p'"
    using pok pos by (simp_all add: p'_def property_ok_def)
  define adv where "adv = retarget_advisories g name f
    (case f of None \<Rightarrow> [] | Some fr \<Rightarrow> matching_indices fr ?ls) nf k"
  have "retarget_property sg g name = Inr (g\<lparr>header_properties := h\<rparr>, adv)"
    using Some c ls nf
    by (simp add: retarget_property_def set_first_cell_def Let_def p'_def h_def adv_def
        flip: p_def old_def f_def k_def)
  moreover have "group_ok (g\<lparr>header_properties := h\<rparr>)"
    using g pos p' by (auto simp: group_ok_def h_def p_def intro: properties_ok_update)
  moreover have "find_property ?ps name = Some p"
    using Some by (simp add: find_property_def find_via_index p_def)
  then have "index_retargeted sg ?ps name ?ls (scalar_property h name)"
    using k find_property_update_same [OF Some p'(1)]
      retarget_position_first [of _ ?ls _ old]
    by (auto simp: index_retargeted_def scalar_property_def h_def p'_def c k_def f_def old_def
        intro!: exI [of _ k])
  moreover have "\<forall>m. m \<noteq> name \<longrightarrow> find_property h m = find_property ?ps m"
    using find_property_update_other [OF Some p'(1)] by (simp add: h_def)
  moreover have "map prop_name h = map prop_name ?ps"
    using pos p'(1) by (simp add: h_def p_def map_update list_update_same_conv)
  ultimately show thesis by (rule that)
qed

lemma group_ok_levels_cong:
  assumes "group_ok g" and "ls \<noteq> []" and "distinct (map level_id ls)" and "\<forall>l \<in> set ls. level_ok l"
  shows "group_ok (g\<lparr>group_levels := ls\<rparr>)"
  using assms by (simp add: group_ok_def)

lemma numbered_distinct:
  assumes "\<forall>i < length ls. level_numbered i (ls ! i)" and "length ls \<le> 2 ^ 32"
  shows "distinct (map level_id ls)"
proof (rule distinct_conv_nth [THEN iffD2], intro allI impI)
  fix i j assume "i < length (map level_id ls)" "j < length (map level_id ls)" "i \<noteq> j"
  then have ij: "i < length ls" "j < length ls" by simp_all
  have "unat (of_nat i :: u32) = i" "unat (of_nat j :: u32) = j"
    using ij assms(2) by (simp_all add: unat_of_nat)
  with \<open>i \<noteq> j\<close> have "(of_nat i :: u32) \<noteq> of_nat j" by metis
  then show "map level_id ls ! i \<noteq> map level_id ls ! j"
    using ij assms(1) by (simp add: level_numbered_def)
qed

text \<open>What normalising guarantees for one group.\<close>

definition group_normalized :: "gpu_table \<Rightarrow> gpu_group \<Rightarrow> gpu_group \<Rightarrow> bool" where
  "group_normalized source g g' \<longleftrightarrow> group_id g' = group_id g \<and> group_ok g' \<and>
     map prop_name (header_properties g') = map prop_name (header_properties g) \<and>
     length (group_levels g') = length (group_levels g) \<and>
     (\<forall>i < length (group_levels g). level_numbered i (group_levels g' ! i) \<and>
        same_but_reg (group_levels g ! i) (group_levels g' ! i)) \<and>
     (\<forall>n \<in> initial_names. index_retargeted
        (List.find (\<lambda>c. group_id c = group_id g) (table_groups source))
        (header_properties g) n (group_levels g) (scalar_property (header_properties g') n)) \<and>
     (\<forall>n. n \<notin> initial_names \<longrightarrow>
        find_property (header_properties g') n = find_property (header_properties g) n)"

lemma normalize_group_split:
  assumes g: "group_ok g"
  obtains h adv where
    "normalize_group source g =
       bind_r (renumber_levels 0 (group_levels g)) (\<lambda>ls.
         Inr (g\<lparr>header_properties := h, group_levels := ls\<rparr>, adv))"
    "group_ok (g\<lparr>header_properties := h\<rparr>)"
    "\<forall>n \<in> initial_names. index_retargeted
        (List.find (\<lambda>c. group_id c = group_id g) (table_groups source))
        (header_properties g) n (group_levels g) (scalar_property h n)"
    "\<forall>n. n \<notin> initial_names \<longrightarrow> find_property h n = find_property (header_properties g) n"
    "map prop_name h = map prop_name (header_properties g)"
proof -
  let ?sg = "List.find (\<lambda>c. group_id c = group_id g) (table_groups source)"
  let ?a = "''qcom,initial-pwrlevel''" and ?b = "''qcom,initial-min-pwrlevel''"
  have mem: "?a \<in> initial_names" "?b \<in> initial_names" by (simp_all add: initial_names_def)
  obtain h1 adv1 where 1: "retarget_property ?sg g ?a = Inr (g\<lparr>header_properties := h1\<rparr>, adv1)"
    "group_ok (g\<lparr>header_properties := h1\<rparr>)"
    "index_retargeted ?sg (header_properties g) ?a (group_levels g) (scalar_property h1 ?a)"
    "\<forall>m. m \<noteq> ?a \<longrightarrow> find_property h1 m = find_property (header_properties g) m"
    "map prop_name h1 = map prop_name (header_properties g)"
    by (rule retarget_property_ok [OF g mem(1)])
  obtain h2 adv2 where 2: "retarget_property ?sg (g\<lparr>header_properties := h1\<rparr>) ?b =
      Inr (g\<lparr>header_properties := h1\<rparr>\<lparr>header_properties := h2\<rparr>, adv2)"
    "group_ok (g\<lparr>header_properties := h1\<rparr>\<lparr>header_properties := h2\<rparr>)"
    "index_retargeted ?sg (header_properties (g\<lparr>header_properties := h1\<rparr>)) ?b
       (group_levels (g\<lparr>header_properties := h1\<rparr>)) (scalar_property h2 ?b)"
    "\<forall>m. m \<noteq> ?b \<longrightarrow> find_property h2 m =
       find_property (header_properties (g\<lparr>header_properties := h1\<rparr>)) m"
    "map prop_name h2 = map prop_name (header_properties (g\<lparr>header_properties := h1\<rparr>))"
    by (rule retarget_property_ok [OF 1(2) mem(2)])
  show thesis
  proof (rule that [of h2 "adv1 @ adv2"])
    show "normalize_group source g =
       bind_r (renumber_levels 0 (group_levels g)) (\<lambda>ls.
         Inr (g\<lparr>header_properties := h2, group_levels := ls\<rparr>, adv1 @ adv2))"
      using 1(1) 2(1) by (simp add: normalize_group_def)
    show "group_ok (g\<lparr>header_properties := h2\<rparr>)" using 2(2) by simp
    show "map prop_name h2 = map prop_name (header_properties g)" using 1(5) 2(5) by simp
    show "\<forall>n. n \<notin> initial_names \<longrightarrow> find_property h2 n = find_property (header_properties g) n"
      using 1(4) 2(4) by (simp add: initial_names_def)
    have "find_property h2 ?a = find_property h1 ?a" using 2(4) by simp
    then have "scalar_property h2 ?a = scalar_property h1 ?a" by (simp add: scalar_property_def)
    with 1(3) have "index_retargeted ?sg (header_properties g) ?a (group_levels g)
      (scalar_property h2 ?a)" by simp
    moreover have "find_property h1 ?b = find_property (header_properties g) ?b" using 1(4) by simp
    from index_retargeted_header [OF this] 2(3)
    have "index_retargeted ?sg (header_properties g) ?b (group_levels g)
      (scalar_property h2 ?b)" by simp
    ultimately show "\<forall>n \<in> initial_names. index_retargeted ?sg (header_properties g) n
        (group_levels g) (scalar_property h2 n)"
      unfolding initial_names_def by blast
  qed
qed

lemma normalize_group_ok:
  assumes g: "group_ok g" and len: "length (group_levels g) \<le> 2 ^ 32"
  shows "\<exists>g' adv. normalize_group source g = Inr (g', adv) \<and> group_normalized source g g'"
proof -
  obtain h adv where h: "normalize_group source g =
       bind_r (renumber_levels 0 (group_levels g)) (\<lambda>ls.
         Inr (g\<lparr>header_properties := h, group_levels := ls\<rparr>, adv))"
    "group_ok (g\<lparr>header_properties := h\<rparr>)"
    "\<forall>n \<in> initial_names. index_retargeted
        (List.find (\<lambda>c. group_id c = group_id g) (table_groups source))
        (header_properties g) n (group_levels g) (scalar_property h n)"
    "\<forall>n. n \<notin> initial_names \<longrightarrow> find_property h n = find_property (header_properties g) n"
    "map prop_name h = map prop_name (header_properties g)"
    by (rule normalize_group_split [OF g])
  have levels: "\<forall>l \<in> set (group_levels g). level_ok l" "group_levels g \<noteq> []"
    using g by (simp_all add: group_ok_def)
  obtain ls where ls: "renumber_levels 0 (group_levels g) = Inr ls"
    "length ls = length (group_levels g)"
    "\<forall>i < length (group_levels g). level_ok (ls ! i) \<and> level_numbered i (ls ! i) \<and>
       same_but_reg (group_levels g ! i) (ls ! i)"
    using renumber_levels_ok [OF levels(1), of 0] len by auto
  let ?g = "g\<lparr>header_properties := h, group_levels := ls\<rparr>"
  have "distinct (map level_id ls)" using ls(2,3) len by (auto intro: numbered_distinct)
  moreover have "\<forall>l \<in> set ls. level_ok l" using ls(2,3) by (auto simp: in_set_conv_nth)
  moreover have "ls \<noteq> []" using ls(2) levels(2) by auto
  ultimately have "group_ok (g\<lparr>header_properties := h\<rparr>\<lparr>group_levels := ls\<rparr>)"
    by (intro group_ok_levels_cong h(2))
  then have "group_normalized source g ?g"
    using ls h(3-5) by (simp add: group_normalized_def)
  with h(1) ls(1) show ?thesis by simp
qed

lemma normalize_group_too_many:
  assumes g: "group_ok g" and len: "2 ^ 32 < length (group_levels g)"
  shows "normalize_group source g = Inl TooManyLevels"
proof -
  obtain h adv where h: "normalize_group source g =
       bind_r (renumber_levels 0 (group_levels g)) (\<lambda>ls.
         Inr (g\<lparr>header_properties := h, group_levels := ls\<rparr>, adv))"
    by (rule normalize_group_split [OF g])
  have "renumber_levels 0 (group_levels g) = Inl TooManyLevels"
    using g len by (intro renumber_levels_too_many) (simp_all add: group_ok_def)
  with h show ?thesis by simp
qed

lemma normalize_groups_ok:
  assumes "\<forall>g \<in> set gs. group_ok g \<and> length (group_levels g) \<le> 2 ^ 32"
  shows "\<exists>gs' adv. normalize_groups source gs = Inr (gs', adv) \<and>
    list_all2 (group_normalized source) gs gs'"
  using assms
proof (induction gs)
  case (Cons g gs)
  then obtain gs' advs where "normalize_groups source gs = Inr (gs', advs)"
    "list_all2 (group_normalized source) gs gs'" by auto
  moreover obtain g' adv where "normalize_group source g = Inr (g', adv)"
    "group_normalized source g g'"
    using normalize_group_ok [of g source] Cons.prems by auto
  ultimately show ?case by simp
qed simp

lemma normalize_groups_no_panic:
  assumes "\<forall>g \<in> set gs. group_ok g" and "normalize_groups source gs = Inl e"
  shows "e = TooManyLevels \<and> (\<exists>g \<in> set gs. 2 ^ 32 < length (group_levels g))"
  using assms
proof (induction gs)
  case (Cons g gs)
  show ?case
  proof (cases "length (group_levels g) \<le> 2 ^ 32")
    case True
    then obtain g' adv where "normalize_group source g = Inr (g', adv)"
      using normalize_group_ok [of g source] Cons.prems by auto
    with Cons show ?thesis by (auto simp: bind_r_Inl_iff split: prod.splits)
  next
    case False
    with normalize_group_too_many [of g source] Cons.prems show ?thesis by auto
  qed
qed simp

lemma normalize_groups_bound:
  assumes "\<forall>g \<in> set gs. group_ok g" and "normalize_groups source gs = Inr r"
  shows "\<forall>g \<in> set gs. length (group_levels g) \<le> 2 ^ 32"
  using assms
proof (induction gs arbitrary: r)
  case (Cons g gs)
  then have "length (group_levels g) \<le> 2 ^ 32"
    using normalize_group_too_many [of g source] by (cases "length (group_levels g) \<le> 2 ^ 32") auto
  moreover from Cons.prems(2) obtain r' where "normalize_groups source gs = Inr r'"
    by (auto simp: bind_r_Inr_iff split: prod.splits)
  ultimately show ?case using Cons by auto
qed simp

section \<open>The properties\<close>

text \<open>
  (C32) The editor's validation is exactly the table contract: it reports no hard error if and only
  if there is a group, group ids and level ids are unique, every group has a level, every property
  has a NUL-free non-empty name that is unique in its list and at least one cell, level properties
  and initial indices are scalar, and every level has \<open>reg\<close>, frequency and vote. Warnings never
  count.
\<close>

theorem validate_gpu_table_iff: "\<not> has_hard_errors (validate_gpu_table t) \<longleftrightarrow> table_ok t"
  by (auto simp: has_hard_errors_def validate_gpu_table_def validate_group_rows_hard table_ok_def
      no_issues_def)

lemma validate_hard_Nil: "hard_errors (validate_gpu_table t) = [] \<longleftrightarrow> table_ok t"
  by (auto simp: validate_gpu_table_def validate_group_rows_hard table_ok_def no_issues_def)

text \<open>
  Normalising an edited table never panics: none of its \<open>expect\<close> calls and index expressions
  can fail, because it validates first. Its only errors are the first hard error of the validation,
  on a table that breaks the contract, and the overflow of the row number, on a group with more than
  2^32 levels.
\<close>

theorem normalize_never_panics: "normalize_edited_gpu_table source edited \<noteq> Inl NormalizePanic"
proof (cases "hard_errors (validate_gpu_table edited)")
  case Nil
  then have "\<forall>g \<in> set (table_groups edited). group_ok g"
    by (simp add: validate_hard_Nil table_ok_def)
  with Nil show ?thesis
    using normalize_groups_no_panic [of "table_groups edited" source NormalizePanic]
    by (auto simp: normalize_edited_gpu_table_def bind_r_Inl_iff split: prod.splits)
qed (simp add: normalize_edited_gpu_table_def)

lemma normalize_edited_Inr:
  assumes "normalize_edited_gpu_table source edited = Inr (t, adv)"
  shows "table_ok edited \<and> table_ok t \<and>
    list_all2 (group_normalized source) (table_groups edited) (table_groups t)"
proof -
  have v: "hard_errors (validate_gpu_table edited) = []"
    using assms by (auto simp: normalize_edited_gpu_table_def Let_def split: list.splits)
  then have ok: "table_ok edited" by (simp add: validate_hard_Nil)
  then have g: "\<forall>g \<in> set (table_groups edited). group_ok g" by (simp add: table_ok_def)
  from assms v obtain gs advs where gs: "normalize_groups source (table_groups edited) = Inr (gs, advs)"
    and t: "t = edited\<lparr>table_groups := gs\<rparr>"
    by (auto simp: normalize_edited_gpu_table_def Let_def bind_r_Inr_iff)
  have "\<forall>g \<in> set (table_groups edited). group_ok g \<and> length (group_levels g) \<le> 2 ^ 32"
    using g normalize_groups_bound [OF g gs] by blast
  with normalize_groups_ok [OF this, of source] gs
  have all: "list_all2 (group_normalized source) (table_groups edited) gs" by simp
  then have "map group_id gs = map group_id (table_groups edited)"
    by induction (simp_all add: group_normalized_def)
  moreover from all have "\<forall>g \<in> set gs. group_ok g" by induction (simp_all add: group_normalized_def)
  moreover have "gs \<noteq> []" using all ok by (auto simp: table_ok_def)
  ultimately have "table_ok t" using ok by (simp add: t table_ok_def)
  with ok all show ?thesis by (simp add: t)
qed

text \<open>
  (C33) Normalising a table that satisfies the contract (with at most 2^32 levels in each group)
  succeeds, and every group of the result satisfies the serialiser's needs: row \<open>i\<close> has level id
  \<open>i\<close> and \<open>reg = <i>\<close>, all other level properties are untouched, and each initial index property is
  in range and points at the first row with the frequency it pointed at in the source table, when
  the edited group still has that frequency.
\<close>

theorem normalize_edited_correct:
  assumes "table_ok edited"
    and "\<forall>g \<in> set (table_groups edited). length (group_levels g) \<le> 2 ^ 32"
  shows "\<exists>t adv. normalize_edited_gpu_table source edited = Inr (t, adv) \<and> table_ok t \<and>
    list_all2 (group_normalized source) (table_groups edited) (table_groups t)"
proof -
  have ok: "\<forall>g \<in> set (table_groups edited). group_ok g \<and> length (group_levels g) \<le> 2 ^ 32"
    using assms by (simp add: table_ok_def)
  obtain gs adv where gs: "normalize_groups source (table_groups edited) = Inr (gs, adv)"
    using normalize_groups_ok [OF ok] by blast
  moreover have "hard_errors (validate_gpu_table edited) = []"
    using assms(1) by (simp add: validate_hard_Nil)
  ultimately have n: "normalize_edited_gpu_table source edited =
      Inr (edited\<lparr>table_groups := gs\<rparr>, warnings (validate_gpu_table edited) @ adv)"
    by (simp add: normalize_edited_gpu_table_def Let_def)
  with normalize_edited_Inr [OF n] show ?thesis by blast
qed

text \<open>A one-group table whose middle row is deleted; the index follows the frequency.\<close>

definition sample_level :: "u32 \<Rightarrow> u32 \<Rightarrow> gpu_level" where
  "sample_level i f = \<lparr>level_id = i, level_properties =
     [\<lparr>prop_name = ''reg'', prop_cells = [i]\<rparr>, \<lparr>prop_name = ''qcom,gpu-freq'', prop_cells = [f]\<rparr>,
      \<lparr>prop_name = ''qcom,level'', prop_cells = [100]\<rparr>]\<rparr>"

definition sample_table :: "gpu_level list \<Rightarrow> gpu_table" where
  "sample_table ls = \<lparr>table_groups = [\<lparr>group_id = 0,
     header_properties = [\<lparr>prop_name = ''qcom,initial-pwrlevel'', prop_cells = [2]\<rparr>],
     group_levels = ls\<rparr>]\<rparr>"

lemmas sample_defs = sample_level_def sample_table_def table_ok_def group_ok_def level_ok_def
  properties_ok_def property_ok_def scalar_property_def find_property_def must_be_scalar_def

lemma sample_table_ok:
  "table_ok (sample_table [sample_level 0 600000000, sample_level 2 300000000])"
  by (simp add: sample_defs)

theorem normalize_edited_correct_witness:
  "\<exists>t adv. normalize_edited_gpu_table
      (sample_table [sample_level 0 600000000, sample_level 1 500000000, sample_level 2 300000000])
      (sample_table [sample_level 0 600000000, sample_level 2 300000000]) = Inr (t, adv) \<and>
    table_ok t"
proof -
  have "\<forall>g \<in> set (table_groups (sample_table [sample_level 0 600000000, sample_level 2 300000000])).
      length (group_levels g) \<le> 2 ^ 32"
    by (simp add: sample_table_def)
  from normalize_edited_correct [OF sample_table_ok this] show ?thesis by blast
qed

end
