(* ===== verification/Fdt_Splice.thy ===== *)
theory Fdt_Splice
  imports Fdt_Read Fdt_Locality Gpu_Normalize
begin

text \<open>
  Replacing a GPU table in a blob: the run of the source blob is cut at the first and behind the last
  GPU group, the part before is replayed on the new blob, the new table is read from its encoding, and
  the part behind is replayed shifted. So parsing the rebuilt blob returns the new table.
\<close>

section \<open>Cutting the run\<close>

lemma fdt_runs_ranges: "fdt_runs S T a b \<Longrightarrow> \<exists>R. fs_ranges b = fs_ranges a @ R"
proof (induction rule: fdt_runs.induct)
  case (fdt_runs_step st st1 st2)
  then obtain R where "fs_ranges st2 = fs_ranges st1 @ R" by blast
  with fdt_step_kind [OF fdt_runs_step.hyps(2)] show ?case by (auto simp: step_kinds)
qed simp

lemma fdt_runs_parent:
  "fdt_runs S T a b \<Longrightarrow> fs_parent a = Some P \<Longrightarrow> fs_parent b = Some P"
proof (induction rule: fdt_runs.induct)
  case (fdt_runs_step st st1 st2)
  have "fs_parent st1 = Some P"
    using fdt_step_kind [OF fdt_runs_step.hyps(2)] fdt_runs_step.prems by (auto simp: step_kinds)
  with fdt_runs_step show ?case by blast
qed simp

lemma open_group_range:
  assumes "fdt_runs S T a b" and "fs_open a = Some og" and "fs_open b = None"
  shows "\<exists>r R. fs_ranges b = fs_ranges a @ (og_start og, r) # R"
  using assms
proof (induction arbitrary: og rule: fdt_runs.induct)
  case (fdt_runs_step st st1 st2)
  from fdt_step_kind [OF fdt_runs_step.hyps(2)] fdt_runs_step.prems(1)
  consider "inside_step st st1" | "closing_step st st1" by (auto simp: step_kinds)
  then show ?case
  proof cases
    case 1
    then obtain og' where "fs_open st1 = Some og'" "og_start og' = og_start og" "fs_ranges st1 = fs_ranges st"
      using fdt_runs_step.prems(1) by (auto simp: step_kinds)
    with fdt_runs_step.IH [of og'] fdt_runs_step.prems show ?thesis by simp
  next
    case 2
    then have "fs_ranges st1 = fs_ranges st @ [(og_start og, fs_pos st1)]"
      using fdt_runs_step.prems(1) by (auto simp: step_kinds)
    with fdt_runs_ranges [OF fdt_runs_step.hyps(3)] show ?thesis by auto
  qed
qed simp

text \<open>The state in which the first group is opened.\<close>

lemma cut_first:
  assumes "fdt_runs S T a z" and "fs_open a = None" and "fs_ranges a = []" and "fs_groups a = []"
    and "fs_parent a = None" and "fs_open z = None" and "fs_ranges z \<noteq> []"
  shows "\<exists>b b1. fdt_runs S T a b \<and> fs_open b = None \<and> fs_ranges b = [] \<and> fs_groups b = [] \<and>
    fs_parent b = None \<and> fdt_step S T b = Inr (b1, False) \<and> fdt_runs S T b1 z \<and> opening_step b b1 \<and>
    fs_pos b < length S \<and> fst (hd (fs_ranges z)) = fs_pos b"
  using assms
proof (induction rule: fdt_runs.induct)
  case (fdt_runs_step st st1 st2)
  from fdt_step_kind [OF fdt_runs_step.hyps(2)] fdt_runs_step.prems(1)
  consider "outside_step st st1" | "opening_step st st1" by (auto simp: step_kinds)
  then show ?case
  proof cases
    case 1
    then have "fs_open st1 = None" "fs_ranges st1 = []" "fs_groups st1 = []" "fs_parent st1 = None"
      using fdt_runs_step.prems by (auto simp: step_kinds)
    from fdt_runs_step.IH [OF this fdt_runs_step.prems(5,6)] fdt_runs.fdt_runs_step [OF fdt_runs_step.hyps(1,2)]
    show ?thesis by blast
  next
    case 2
    then obtain og where og: "fs_open st1 = Some og" "og_start og = fs_pos st" "fs_ranges st1 = []"
      using fdt_runs_step.prems by (auto simp: step_kinds)
    from open_group_range [OF fdt_runs_step.hyps(3) og(1) fdt_runs_step.prems(5)] og
    have "fst (hd (fs_ranges st2)) = fs_pos st" by auto
    with 2 fdt_runs_step show ?thesis using fdt_runs_refl by blast
  qed
qed simp

text \<open>The state behind the last group.\<close>

lemma cut_last:
  assumes "fdt_runs S T a z" and "fs_ranges a \<noteq> fs_ranges z"
    and "\<forall>og. fs_open a = Some og \<longrightarrow> fs_parent a = Some (og_parent og)"
  shows "\<exists>b. fdt_runs S T a b \<and> fdt_runs S T b z \<and> fs_ranges b = fs_ranges z \<and> fs_open b = None \<and>
    fs_parent b = Some (fs_path b) \<and> fs_pos b = snd (last (fs_ranges z))"
  using assms
proof (induction rule: fdt_runs.induct)
  case (fdt_runs_step st st1 st2)
  have inv: "\<forall>og. fs_open st1 = Some og \<longrightarrow> fs_parent st1 = Some (og_parent og)"
    using fdt_step_kind [OF fdt_runs_step.hyps(2)] fdt_runs_step.prems(2) by (auto simp: step_kinds)
  have one: "fdt_runs S T st st1" by (rule fdt_runs_one [OF fdt_runs_step.hyps(1,2)])
  show ?case
  proof (cases "fs_ranges st1 = fs_ranges st2")
    case False
    from fdt_runs_step.IH [OF this inv] show ?thesis using fdt_runs_trans [OF one] by blast
  next
    case True
    then have "fs_ranges st1 \<noteq> fs_ranges st" using fdt_runs_step.prems(1) by simp
    then have "closing_step st st1"
      using fdt_step_kind [OF fdt_runs_step.hyps(2)] by (auto simp: step_kinds)
    then have "fs_open st1 = None" "fs_parent st1 = Some (fs_path st1)"
      "fs_pos st1 = snd (last (fs_ranges st1))"
      using fdt_runs_step.prems(2) by (auto simp: step_kinds)
    with True one fdt_runs_step.hyps(3) show ?thesis by metis
  qed
qed simp

section \<open>Positions are multiples of four\<close>

lemma fdt_step_pos_mod:
  assumes "fdt_step S T a = Inr (b, fin)" and "fs_pos a mod 4 = 0"
  shows "fs_pos b mod 4 = 0"
proof -
  have four: "(fs_pos a + 4) mod 4 = 0" using assms(2) by simp
  from assms(1) consider "begin_node S (fs_pos a) a = Inr b" | "end_node (fs_pos a) a = Inr b"
    | "prop_token S T (fs_pos a) a = Inr b" | "b = a\<lparr>fs_pos := fs_pos a + 4\<rparr>"
    | "end_token S (fs_pos a) a = Inr b"
    unfolding fdt_step_def Let_def bind_r_Inr_iff by (auto split: if_splits simp: bind_r_Inr_iff)
  then show ?thesis
    by cases (use four in \<open>auto dest!: begin_node_pos end_node_pos prop_token_pos end_token_pos\<close>)
qed

lemma fdt_runs_pos_mod: "fdt_runs S T a b \<Longrightarrow> fs_pos a mod 4 = 0 \<Longrightarrow> fs_pos b mod 4 = 0"
  by (induction rule: fdt_runs.induct) (auto dest: fdt_step_pos_mod)

lemma fdt_runs_pos_le: "fdt_runs S T a b \<Longrightarrow> fs_pos a \<le> length S \<Longrightarrow> fs_pos b \<le> length S"
  by (induction rule: fdt_runs.induct) (auto dest: fdt_step_pos)

section \<open>Replaying the run behind the groups\<close>

text \<open>Two states at the same place behind two different beginnings.\<close>

definition aligned :: "byte list \<Rightarrow> byte list \<Rightarrow> fdt_state \<Rightarrow> fdt_state \<Rightarrow> bool" where
  "aligned X Y a b \<longleftrightarrow> fs_open a = None \<and> fs_open b = None \<and> fs_path b = fs_path a \<and>
     (\<exists>q. fs_pos a = length X + q \<and> fs_pos b = length Y + q)"

definition same_identity :: "fdt_state \<Rightarrow> fdt_state \<Rightarrow> bool" where
  "same_identity a b \<longleftrightarrow> fs_model b = fs_model a \<and> fs_compatible b = fs_compatible a"

lemma aligned_pos:
  assumes "aligned X Y a b"
  obtains q where "fs_pos a = length X + q" "fs_pos b = length Y + q" "fs_open a = None" "fs_open b = None"
    "fs_path b = fs_path a"
  using assms by (auto simp: aligned_def)

lemma begin_node_shift:
  assumes "begin_node (X @ R) (length X + q) a = Inr a1" and "aligned X Y a b" and "fs_open a1 = None"
    and "length X mod 4 = 0" and "length Y mod 4 = 0"
    and "length X + length R < 2 ^ 63" and "length Y + length R < 2 ^ 63"
  shows "\<exists>b1. begin_node (Y @ R) (length Y + q) b = Inr b1 \<and> aligned X Y a1 b1 \<and> same_groups b b1 \<and>
    (same_identity a b \<longrightarrow> same_identity a1 b1)"
proof -
  from assms(1) obtain n nx where r: "read_node_name (X @ R) (length X + (q + 4)) = Inr (n, nx)"
    by (auto simp: begin_node_def bind_r_Inr_iff add.assoc)
  then obtain m where m: "nx = length X + m" "read_node_name R (q + 4) = Inr (n, m)"
    using read_node_name_shift [OF assms(4,6)] by auto
  then have r': "read_node_name (Y @ R) (length Y + (q + 4)) = Inr (n, length Y + m)"
    using read_node_name_shift [OF assms(5,7)] by auto
  from assms(2) have ab: "fs_open a = None" "fs_open b = None" "fs_path b = fs_path a"
    by (auto simp: aligned_def)
  have "decimal_suffix n ''qcom,gpu-pwrlevels-'' = Inr None"
  proof -
    obtain gid where gid: "decimal_suffix n ''qcom,gpu-pwrlevels-'' = Inr gid"
      using assms(1) r by (auto simp: begin_node_def bind_r_Inr_iff Let_def add.assoc)
    have "gid = None"
    proof (rule ccontr)
      assume "gid \<noteq> None"
      then obtain i where "gid = Some i" by auto
      with gid assms(1,3) r show False
        by (auto simp: begin_node_def begin_group_def Let_def bind_r_Inr_iff add.assoc split: if_splits)
    qed
    with gid show ?thesis by simp
  qed
  moreover from this assms(1) r obtain lid where "decimal_suffix n ''qcom,gpu-pwrlevel@'' = Inr lid"
    by (auto simp: begin_node_def bind_r_Inr_iff Let_def add.assoc)
  ultimately have
    "a1 = a\<lparr>fs_pos := nx, fs_path := fs_path a @ [n]\<rparr>"
    "begin_node (Y @ R) (length Y + q) b = Inr (b\<lparr>fs_pos := length Y + m, fs_path := fs_path a @ [n]\<rparr>)"
    using assms(1) r r' ab
    by (cases lid; simp add: begin_node_def begin_level_def add.assoc)+
  then show ?thesis
    using ab by (auto simp: aligned_def same_identity_def same_groups_def m(1))
qed

lemma end_node_shift:
  assumes "end_node (length X + q) a = Inr a1" and "aligned X Y a b"
  shows "\<exists>b1. end_node (length Y + q) b = Inr b1 \<and> aligned X Y a1 b1 \<and> same_groups b b1 \<and>
    (same_identity a b \<longrightarrow> same_identity a1 b1)"
  using assms
  by (auto simp: end_node_def aligned_def same_identity_def same_groups_def Let_def split: if_splits
      intro!: exI [of _ "q + 4"])

lemma root_property_open [simp]: "fs_open (root_property name val st) = fs_open st"
  by (simp add: root_property_def)

lemma prop_token_shift:
  assumes "prop_token (X @ R) T (length X + q) a = Inr a1" and "aligned X Y a b"
    and "length X mod 4 = 0" and "length Y mod 4 = 0"
    and "length X + length R < 2 ^ 63" and "length Y + length R < 2 ^ 63"
  shows "\<exists>b1. prop_token (Y @ R) (T @ E) (length Y + q) b = Inr b1 \<and> aligned X Y a1 b1 \<and>
    same_groups b b1 \<and> (same_identity a b \<longrightarrow> same_identity a1 b1)"
proof -
  from assms(1) obtain name val nx where p: "prop_parts (X @ R) T (length X + q) name val nx"
    and g: "group_property name val (root_property name val (a\<lparr>fs_pos := nx\<rparr>)) = Inr a1"
    and path: "fs_path a \<noteq> []" by (auto simp: prop_token_parts)
  from prop_parts_shift [OF p assms(3-6)] obtain m where m: "nx = length X + m"
    "prop_parts (Y @ R) (T @ E) (length Y + q) name val (length Y + m)" by blast
  from assms(2) have ab: "fs_open a = None" "fs_open b = None" "fs_path b = fs_path a"
    by (auto simp: aligned_def)
  let ?b1 = "root_property name val (b\<lparr>fs_pos := length Y + m\<rparr>)"
  have a1: "a1 = root_property name val (a\<lparr>fs_pos := nx\<rparr>)"
    using g ab by (simp add: group_property_def)
  have "group_property name val ?b1 = Inr ?b1"
    using ab by (simp add: group_property_def)
  then have "prop_token (Y @ R) (T @ E) (length Y + q) b = Inr ?b1"
    using m(2) path ab by (auto simp: prop_token_parts)
  moreover have "aligned X Y a1 ?b1 \<and> same_groups b ?b1 \<and> (same_identity a b \<longrightarrow> same_identity a1 ?b1)"
    using ab by (auto simp: a1 m(1) aligned_def same_groups_def same_identity_def root_property_def)
  ultimately show ?thesis by blast
qed

lemma fdt_step_shift:
  assumes "fdt_step (X @ R) T a = Inr (a1, fin)" and "aligned X Y a b" and "fs_open a1 = None"
    and "length X mod 4 = 0" and "length Y mod 4 = 0"
    and "length X + length R < 2 ^ 63" and "length Y + length R < 2 ^ 63"
  shows "\<exists>b1. fdt_step (Y @ R) (T @ E) b = Inr (b1, fin) \<and> aligned X Y a1 b1 \<and> same_groups b b1 \<and>
    (same_identity a b \<longrightarrow> same_identity a1 b1)"
proof -
  from assms(2) obtain q where q: "fs_pos a = length X + q" "fs_pos b = length Y + q"
    "fs_open a = None" "fs_open b = None" "fs_path b = fs_path a" by (rule aligned_pos)
  obtain tok where tok: "read_be_u32 R q ''FDT structure token'' = Inr tok"
    using assms(1) unfolding fdt_step_def Let_def bind_r_Inr_iff q(1) read_be_u32_shift by blast
  note steps = fdt_step_def Let_def q(1,2) read_be_u32_shift tok bind_r_simps
  have nop: "aligned X Y (a\<lparr>fs_pos := length X + q + 4\<rparr>) (b\<lparr>fs_pos := length Y + q + 4\<rparr>) \<and>
      same_groups b (b\<lparr>fs_pos := length Y + q + 4\<rparr>) \<and>
      (same_identity a b \<longrightarrow>
        same_identity (a\<lparr>fs_pos := length X + q + 4\<rparr>) (b\<lparr>fs_pos := length Y + q + 4\<rparr>))"
    using q by (auto simp: aligned_def same_groups_def same_identity_def intro!: exI [of _ "q + 4"])
  consider (b) "tok = FDT_BEGIN_NODE" | (e) "tok = FDT_END_NODE" | (p) "tok = FDT_PROP"
    | (n) "tok = FDT_NOP" | (f) "tok = FDT_END"
    using assms(1) by (auto simp: steps split: if_splits)
  then show ?thesis
  proof cases
    case b
    then have h: "begin_node (X @ R) (length X + q) a = Inr a1" "fin = False"
      using assms(1) by (auto simp: steps fdt_consts bind_r_Inr_iff)
    from begin_node_shift [OF h(1) assms(2-7)] b h(2) show ?thesis by (auto simp: steps fdt_consts)
  next
    case e
    then have h: "end_node (length X + q) a = Inr a1" "fin = False"
      using assms(1) by (auto simp: steps fdt_consts bind_r_Inr_iff)
    from end_node_shift [OF h(1) assms(2)] e h(2) show ?thesis by (auto simp: steps fdt_consts)
  next
    case p
    then have h: "prop_token (X @ R) T (length X + q) a = Inr a1" "fin = False"
      using assms(1) by (auto simp: steps fdt_consts bind_r_Inr_iff)
    from prop_token_shift [OF h(1) assms(2,4-7), of E] p h(2) show ?thesis by (auto simp: steps fdt_consts)
  next
    case n
    then have "a1 = a\<lparr>fs_pos := length X + q + 4\<rparr>" "fin = False"
      using assms(1) by (auto simp: steps fdt_consts)
    with n nop show ?thesis by (auto simp: steps fdt_consts)
  next
    case f
    then have h: "end_token (X @ R) (length X + q) a = Inr a1" "fin = True"
      using assms(1) by (auto simp: steps fdt_consts bind_r_Inr_iff)
    then have "a1 = a\<lparr>fs_pos := length X + q + 4\<rparr>"
      "end_token (Y @ R) (length Y + q) b = Inr (b\<lparr>fs_pos := length Y + q + 4\<rparr>)"
      using q by (auto simp: end_token_inside end_token_def bind_r_Inr_iff fdt_slice_Inr window_def split: if_splits)
    with f h(2) nop show ?thesis by (auto simp: steps fdt_consts)
  qed
qed

lemma fdt_runs_shift:
  assumes "fdt_runs (X @ R) T a z" and "fdt_step (X @ R) T z = Inr (z1, True)" and "fs_pos z < length (X @ R)"
    and "fs_ranges a = fs_ranges z" and "aligned X Y a b"
    and "length X mod 4 = 0" and "length Y mod 4 = 0"
    and "length X + length R < 2 ^ 63" and "length Y + length R < 2 ^ 63"
  shows "\<exists>b1. fdt_loop (Y @ R) (T @ E) b = Inr b1 \<and> same_groups b b1 \<and>
    (same_identity a b \<longrightarrow> same_identity z1 b1)"
  using assms
proof (induction arbitrary: b rule: fdt_runs.induct)
  case (fdt_runs_refl st)
  have "fs_open z1 = None" using last_step_outside [OF fdt_runs_refl.prems(1)] by (simp add: step_kinds)
  from fdt_step_shift [OF fdt_runs_refl.prems(1,4) this fdt_runs_refl.prems(5-8)]
  obtain b1 where b1: "fdt_step (Y @ R) (T @ E) b = Inr (b1, True)" "same_groups b b1"
    "same_identity st b \<longrightarrow> same_identity z1 b1" by blast
  have "fs_pos b < length (Y @ R)" using fdt_runs_refl.prems(2,4) by (auto simp: aligned_def)
  with b1 show ?case by (subst fdt_loop.simps) simp
next
  case (fdt_runs_step st st1 st2)
  have open2: "fs_open st2 = None"
    using last_step_outside [OF fdt_runs_step.prems(1)] by (simp add: step_kinds)
  have mono: "\<exists>R'. fs_ranges st2 = fs_ranges st1 @ R'" by (rule fdt_runs_ranges [OF fdt_runs_step.hyps(3)])
  have open0: "fs_open st = None" using fdt_runs_step.prems(4) by (simp add: aligned_def)
  have out: "outside_step st st1"
  proof (rule ccontr)
    assume "\<not> outside_step st st1"
    then have "opening_step st st1"
      using fdt_step_kind [OF fdt_runs_step.hyps(2)] open0 by (auto simp: step_kinds)
    then obtain og where "fs_open st1 = Some og" "fs_ranges st1 = fs_ranges st" by (auto simp: step_kinds)
    with open_group_range [OF fdt_runs_step.hyps(3) _ open2] fdt_runs_step.prems(3) show False by auto
  qed
  then have st1: "fs_open st1 = None" "fs_ranges st1 = fs_ranges st2"
    using fdt_runs_step.prems(3) by (auto simp: step_kinds)
  from fdt_step_shift [OF fdt_runs_step.hyps(2) fdt_runs_step.prems(4) st1(1) fdt_runs_step.prems(5-8)]
  obtain b1 where b1: "fdt_step (Y @ R) (T @ E) b = Inr (b1, False)" "aligned X Y st1 b1" "same_groups b b1"
    "same_identity st b \<longrightarrow> same_identity st1 b1" by blast
  have "fs_pos b < length (Y @ R)"
    using fdt_runs_step.hyps(1) fdt_runs_step.prems(4) by (auto simp: aligned_def)
  then have loop: "fdt_loop (Y @ R) (T @ E) b = fdt_loop (Y @ R) (T @ E) b1"
    using b1(1) by (subst fdt_loop.simps) simp
  from fdt_runs_step.IH [OF fdt_runs_step.prems(1,2) st1(2) b1(2) fdt_runs_step.prems(5-8)]
  show ?case using b1(3,4) loop by (auto simp: same_groups_def)
qed

end
