(* ===== verification/Fdt_Safe.thy ===== *)
theory Fdt_Safe
  imports Fdt Gpu_Normalize
begin

text \<open>
  Every index expression of the device tree reader and of the splice stays in range: the ranges of the
  layout are nested, the recorded group ranges follow each other inside the structure block, so that the
  slices of \<open>konabess/fdt.rs\<close> never panic. The equations of this theory say so, with the slices replaced
  by the bytes they give.
\<close>

section \<open>The layout\<close>

definition layout_fits :: "byte list \<Rightarrow> fdt_layout \<Rightarrow> bool" where
  "layout_fits fdt L \<longleftrightarrow> structure_start L \<le> structure_end L \<and> structure_end L \<le> strings_start L \<and>
     strings_start L \<le> strings_end L \<and> strings_end L \<le> total_size L \<and> total_size L \<le> length fdt"

lemma parse_layout_fits: "parse_layout fdt = Inr L \<Longrightarrow> layout_fits fdt L"
  by (auto simp: parse_layout_def bind_r_Inr_iff ensure_Inr_iff checked_add_def layout_fits_def split: if_splits)

section \<open>The ranges of the groups\<close>

text \<open>Ranges that follow each other between two positions.\<close>

fun range_chain :: "nat \<Rightarrow> (nat \<times> nat) list \<Rightarrow> nat \<Rightarrow> bool" where
  "range_chain lo [] hi \<longleftrightarrow> lo \<le> hi"
| "range_chain lo ((a, b) # rs) hi \<longleftrightarrow> lo \<le> a \<and> a \<le> b \<and> range_chain b rs hi"

lemma range_chain_append: "range_chain lo (rs @ [(a, b)]) hi \<longleftrightarrow> range_chain lo rs a \<and> a \<le> b \<and> b \<le> hi"
  by (induction lo rs a rule: range_chain.induct) auto

lemma range_chain_mono: "range_chain lo rs hi \<Longrightarrow> hi \<le> hi' \<Longrightarrow> range_chain lo rs hi'"
  by (induction lo rs hi rule: range_chain.induct) auto

lemma range_chain_ends:
  "range_chain lo rs hi \<Longrightarrow> rs \<noteq> [] \<Longrightarrow> lo \<le> fst (hd rs) \<and> fst (hd rs) \<le> snd (last rs) \<and> snd (last rs) \<le> hi"
proof (induction lo rs hi rule: range_chain.induct)
  case (2 lo a b rs hi)
  have "b \<le> hi" if "range_chain b rs hi" for b
    using that by (induction b rs hi rule: range_chain.induct) auto
  then show ?case using 2 by (cases rs) auto
qed simp

text \<open>The invariant of the token loop: the open group starts behind the recorded ones.\<close>

definition ranges_follow :: "fdt_state \<Rightarrow> bool" where
  "ranges_follow st \<longleftrightarrow>
     (case fs_open st of
        None \<Rightarrow> range_chain 0 (fs_ranges st) (fs_pos st)
      | Some og \<Rightarrow> range_chain 0 (fs_ranges st) (og_start og) \<and> og_start og \<le> fs_pos st)"

lemma ranges_follow_pos:
  "ranges_follow st \<Longrightarrow> fs_pos st \<le> p \<Longrightarrow> ranges_follow (st\<lparr>fs_pos := p\<rparr>)"
  by (auto simp: ranges_follow_def split: option.splits intro: range_chain_mono)

text \<open>A step that keeps the ranges and the start of the open group.\<close>

lemma ranges_follow_same:
  assumes "ranges_follow st" and "fs_ranges st' = fs_ranges st" and "fs_pos st \<le> fs_pos st'"
    and "map_option og_start (fs_open st') = map_option og_start (fs_open st)"
  shows "ranges_follow st'"
proof (cases "fs_open st")
  case None
  then show ?thesis using assms by (auto simp: ranges_follow_def intro: range_chain_mono)
next
  case (Some og)
  then obtain og' where "fs_open st' = Some og'" "og_start og' = og_start og"
    using assms(4) by (cases "fs_open st'") auto
  then show ?thesis using assms Some by (auto simp: ranges_follow_def)
qed

lemma begin_node_follow:
  assumes "begin_node S (fs_pos st) st = Inr st'" and "ranges_follow st"
  shows "ranges_follow st'"
proof -
  obtain name n where n: "read_node_name S (fs_pos st + 4) = Inr (name, n)"
    using assms(1) by (auto simp: begin_node_def bind_r_Inr_iff)
  define s where "s = st\<lparr>fs_pos := n, fs_path := fs_path st @ [name]\<rparr>"
  have p: "fs_pos st \<le> fs_pos s" using read_node_name_next [OF n] by (simp add: s_def)
  have s: "ranges_follow s"
    by (rule ranges_follow_same [OF assms(2) _ p]) (simp_all add: s_def)
  have g: "ranges_follow st'" if "begin_group (fs_pos st) i s = Inr st'" for i
    using that assms(2) p
    by (auto simp: begin_group_def Let_def bind_r_Inr_iff ranges_follow_def s_def split: if_splits)
  have l: "ranges_follow st'" if "begin_level i s = Inr st'" for i
    using that by (intro ranges_follow_same [OF s])
      (auto simp: begin_level_def split: option.splits if_splits)
  show ?thesis
    using assms(1) g l s
    by (auto simp: begin_node_def n Let_def bind_r_Inr_iff simp flip: s_def split: option.splits if_splits)
qed

lemma end_node_follow:
  assumes "end_node (fs_pos st) st = Inr st'" and "ranges_follow st"
  shows "ranges_follow st'"
  using assms
  by (auto simp: end_node_def Let_def bind_r_Inr_iff ranges_follow_def range_chain_append
      split: option.splits if_splits intro: range_chain_mono)

lemma prop_token_follow:
  assumes "prop_token S T (fs_pos st) st = Inr st'" and "ranges_follow st"
  shows "ranges_follow st'"
proof (rule ranges_follow_same [OF assms(2)])
  show "fs_pos st \<le> fs_pos st'" using prop_token_pos [OF assms(1)] by simp
  have g: "fs_ranges st' = fs_ranges a \<and> map_option og_start (fs_open st') = map_option og_start (fs_open a)"
    if "group_property n v a = Inr st'" for n v a
    using that by (auto simp: group_property_def Let_def bind_r_Inr_iff split: option.splits if_splits)
  have r: "fs_ranges (root_property n v a) = fs_ranges a" "fs_open (root_property n v a) = fs_open a" for n v a
    by (simp_all add: root_property_def)
  obtain n v a where "group_property n v (root_property n v (st\<lparr>fs_pos := a\<rparr>)) = Inr st'"
    using assms(1) by (auto simp: prop_token_def Let_def bind_r_Inr_iff)
  then show "fs_ranges st' = fs_ranges st" "map_option og_start (fs_open st') = map_option og_start (fs_open st)"
    using g [of n v "root_property n v (st\<lparr>fs_pos := a\<rparr>)"] by (simp_all add: r)
qed

lemma fdt_step_follow:
  assumes "fdt_step S T st = Inr (st', fin)" and "ranges_follow st"
  shows "ranges_follow st'"
  using assms
  by (auto simp: fdt_step_def Let_def bind_r_Inr_iff end_token_def split: if_splits
      intro: begin_node_follow end_node_follow prop_token_follow ranges_follow_pos)

lemma fdt_loop_follow:
  "fdt_loop S T st = Inr st' \<Longrightarrow> ranges_follow st \<Longrightarrow> ranges_follow st' \<and> fs_pos st' \<le> length S"
proof (induction S T st rule: fdt_loop.induct)
  case (1 S T st)
  obtain a fin where a: "fs_pos st < length S" "fdt_step S T st = Inr (a, fin)"
    "if fin then a = st' else fdt_loop S T a = Inr st'"
    using 1(2) by (subst (asm) fdt_loop.simps) (auto split: if_splits sum.splits)
  have "ranges_follow a" "fs_pos a \<le> length S"
    using fdt_step_follow [OF a(2) 1(3)] fdt_step_pos [OF a(2)] by simp_all
  then show ?case using 1(1) [OF a(1,2) refl] a(3) by (auto split: if_splits)
qed

text \<open>All the recorded ranges lie in the structure block, in order.\<close>

lemma loop_ranges:
  assumes "fdt_loop S T fdt_start = Inr st"
  shows "range_chain 0 (fs_ranges st) (length S)"
proof -
  have "ranges_follow fdt_start" by (simp add: fdt_start_def ranges_follow_def)
  from fdt_loop_follow [OF assms this] show ?thesis
    by (auto simp: ranges_follow_def split: option.splits intro: range_chain_mono)
qed

section \<open>Reading\<close>

text \<open>The gaps between the groups, as a property.\<close>

fun gaps_ok :: "byte list \<Rightarrow> (nat \<times> nat) list \<Rightarrow> bool" where
  "gaps_ok structure (r0 # r1 # rs) \<longleftrightarrow>
     gap_ok (window structure (snd r0) (fst r1)) \<and> gaps_ok structure (r1 # rs)"
| "gaps_ok structure _ \<longleftrightarrow> True"

lemma check_gaps_eq:
  "range_chain lo rs (length S) \<Longrightarrow> check_gaps S rs = ensure (gaps_ok S rs) FdtNotContiguous"
proof (induction rs arbitrary: lo rule: induct_list012)
  case (3 r0 r1 rs)
  obtain a b c d where r: "r0 = (a, b)" "r1 = (c, d)" by (cases r0, cases r1)
  have "c \<le> length S" using 3(3) range_chain_ends [of b "r1 # rs" "length S"] by (auto simp: r)
  moreover have "b \<le> c" using 3(3) by (simp add: r)
  moreover have "check_gaps S (r1 # rs) = ensure (gaps_ok S (r1 # rs)) FdtNotContiguous"
    using 3(3) by (intro 3(2) [of b]) (simp add: r)
  ultimately show ?case by (simp add: r fdt_slice_in ensure_def)
qed (simp_all add: ensure_def)

lemma parse_fdt_eq:
  "parse_fdt fdt =
     bind_r (parse_layout fdt) (\<lambda>layout.
     let structure = window fdt (structure_start layout) (structure_end layout);
         strings = window fdt (strings_start layout) (strings_end layout) in
     bind_r (fdt_loop structure strings fdt_start) (\<lambda>st.
     bind_r (ensure (gaps_ok structure (fs_ranges st)) FdtNotContiguous) (\<lambda>_.
     Inr \<lparr>pf_layout = layout,
       pf_info = \<lparr>info_model = fs_model st, info_chip = infer_chip (fs_compatible st),
         info_table = (if fs_groups st = [] then None else Some \<lparr>table_groups = fs_groups st\<rparr>)\<rparr>,
       pf_range = (if fs_ranges st = [] then None
         else Some (fst (hd (fs_ranges st)), snd (last (fs_ranges st))))\<rparr>)))"
proof (cases "parse_layout fdt")
  case (Inr L)
  let ?S = "window fdt (structure_start L) (structure_end L)" and ?T = "window fdt (strings_start L) (strings_end L)"
  have s: "fdt_slice fdt (structure_start L) (structure_end L) = Inr ?S"
    "fdt_slice fdt (strings_start L) (strings_end L) = Inr ?T"
    using parse_layout_fits [OF Inr] by (auto simp: layout_fits_def intro!: fdt_slice_in)
  show ?thesis
  proof (cases "fdt_loop ?S ?T fdt_start")
    case (Inr st)
    then show ?thesis
      by (simp add: parse_fdt_def \<open>parse_layout fdt = Inr L\<close> s check_gaps_eq [OF loop_ranges [OF Inr]])
  qed (simp add: parse_fdt_def Inr s)
qed (simp add: parse_fdt_def)

text \<open>The table range is inside the structure block.\<close>

lemma parse_fdt_range:
  assumes "parse_fdt fdt = Inr p" and "pf_range p = Some rng"
  shows "layout_fits fdt (pf_layout p) \<and> fst rng \<le> snd rng \<and>
    snd rng \<le> structure_end (pf_layout p) - structure_start (pf_layout p)"
proof -
  from assms(1) obtain L st where L: "parse_layout fdt = Inr L" "pf_layout p = L"
    and st: "fdt_loop (window fdt (structure_start L) (structure_end L))
      (window fdt (strings_start L) (strings_end L)) fdt_start = Inr st"
    and r: "pf_range p = (if fs_ranges st = [] then None
      else Some (fst (hd (fs_ranges st)), snd (last (fs_ranges st))))"
    by (auto simp: parse_fdt_eq Let_def bind_r_Inr_iff)
  have "length (window fdt (structure_start L) (structure_end L)) = structure_end L - structure_start L"
    using parse_layout_fits [OF L(1)] by (simp add: layout_fits_def)
  then show ?thesis
    using range_chain_ends [OF loop_ranges [OF st]] assms(2) parse_layout_fits [OF L(1)] r
    by (auto simp: L(2) split: if_splits)
qed

section \<open>Rebuilding\<close>

lemma rebuild_fdt_eq:
  assumes "layout_fits fdt layout"
    and "fst table_range \<le> structure_end layout - structure_start layout"
    and "snd table_range \<le> structure_end layout - structure_start layout"
  shows "rebuild_fdt fdt layout table_range t =
     (let old_structure = window fdt (structure_start layout) (structure_end layout);
          old_strings = window fdt (strings_start layout) (strings_end layout) in
     bind_r (encode_table t old_strings) (\<lambda>(replacement, strings).
     let structure = take (fst table_range) old_structure @ replacement @
           drop (snd table_range) old_structure in
     bind_r (signed_delta (length structure) (length old_structure)) (\<lambda>structure_delta.
     bind_r (signed_delta (length strings) (length old_strings)) (\<lambda>strings_delta.
     bind_r (add_signed (strings_start layout) structure_delta) (\<lambda>new_strings_start.
     bind_r (add_signed (total_size layout) structure_delta) (\<lambda>total1.
     bind_r (add_signed total1 strings_delta) (\<lambda>new_total_size.
     let output = take (structure_start layout) fdt @ structure @
           window fdt (structure_end layout) (strings_start layout) @ strings @
           window fdt (strings_end layout) (total_size layout) in
     bind_r (ensure (length output = new_total_size) FdtSizeMismatch) (\<lambda>_.
     bind_r (bind_r (u32_field new_total_size ''FDT total size'') (write_be_u32 output 4)) (\<lambda>o1.
     bind_r (bind_r (u32_field new_strings_start ''FDT strings offset'') (write_be_u32 o1 12)) (\<lambda>o2.
     bind_r (bind_r (u32_field (length strings) ''FDT strings size'') (write_be_u32 o2 32)) (\<lambda>o3.
     bind_r (u32_field (length structure) ''FDT structure size'') (write_be_u32 o3 36))))))))))))"
proof -
  let ?S = "window fdt (structure_start layout) (structure_end layout)"
  have len: "length ?S = structure_end layout - structure_start layout"
    using assms(1) by (simp add: layout_fits_def)
  have outer: "fdt_slice fdt (structure_start layout) (structure_end layout) = Inr ?S"
    "fdt_slice fdt (strings_start layout) (strings_end layout) = Inr (window fdt (strings_start layout) (strings_end layout))"
    "fdt_slice fdt 0 (structure_start layout) = Inr (take (structure_start layout) fdt)"
    "fdt_slice fdt (structure_end layout) (strings_start layout) =
      Inr (window fdt (structure_end layout) (strings_start layout))"
    "fdt_slice fdt (strings_end layout) (total_size layout) = Inr (window fdt (strings_end layout) (total_size layout))"
    using assms(1) by (simp_all add: layout_fits_def fdt_slice_Inr) (simp add: window_def)
  have inner: "fdt_slice ?S 0 (fst table_range) = Inr (take (fst table_range) ?S)"
    "fdt_slice ?S (snd table_range) (length ?S) = Inr (drop (snd table_range) ?S)"
    "ensure (snd table_range - fst table_range \<le> length ?S) FdtPanic = Inr ()"
    using assms(2,3) by (auto simp: fdt_slice_Inr len ensure_def) (auto simp: window_def)
  show ?thesis
    unfolding rebuild_fdt_def outer bind_r_simps inner Let_def ..
qed

text \<open>A rebuild that succeeds had its range inside the structure block.\<close>

lemma rebuild_fdt_range:
  assumes "rebuild_fdt fdt L rng t = Inr out" and "layout_fits fdt L"
  shows "fst rng \<le> structure_end L - structure_start L \<and> snd rng \<le> structure_end L - structure_start L"
proof -
  have "length (window fdt (structure_start L) (structure_end L)) = structure_end L - structure_start L"
    using assms(2) by (simp add: layout_fits_def)
  then show ?thesis
    using assms(1) by (auto simp: rebuild_fdt_def bind_r_Inr_iff fdt_slice_Inr)
qed

section \<open>No panic\<close>

text \<open>A result that is no panic: neither of a slice nor of the normalisation.\<close>

definition fdt_safe :: "fdt_error + 'a \<Rightarrow> bool" where
  "fdt_safe r \<longleftrightarrow> r \<noteq> Inl FdtPanic \<and> r \<noteq> Inl (FdtNormalize NormalizePanic)"

named_theorems safe_intros

lemma fdt_safe_Inr [safe_intros]: "fdt_safe (Inr x)"
  by (simp add: fdt_safe_def)

lemma fdt_safe_bind [safe_intros]:
  "fdt_safe m \<Longrightarrow> (\<And>x. m = Inr x \<Longrightarrow> fdt_safe (f x)) \<Longrightarrow> fdt_safe (bind_r m f)"
  by (cases m) (auto simp: fdt_safe_def)

lemma fdt_safe_if [safe_intros]: "(b \<Longrightarrow> fdt_safe x) \<Longrightarrow> (\<not> b \<Longrightarrow> fdt_safe y) \<Longrightarrow> fdt_safe (if b then x else y)"
  by simp

lemma fdt_safe_ok_or: "fdt_safe (Inl e :: fdt_error + unit) \<Longrightarrow> fdt_safe (ok_or x e)"
  by (cases x) (simp_all add: fdt_safe_def ok_or_def)

lemma fdt_safe_ensure: "fdt_safe (Inl e :: fdt_error + unit) \<Longrightarrow> fdt_safe (ensure b e)"
  by (simp add: fdt_safe_def ensure_def)

lemma fdt_safe_checked_add: "fdt_safe (Inl e :: fdt_error + unit) \<Longrightarrow> fdt_safe (checked_add a b e)"
  by (simp add: fdt_safe_def checked_add_def)

lemma fdt_safe_fields [safe_intros]:
  "fdt_safe (read_be_u32 bs p n)" "fdt_safe (usize_field bs p n)" "fdt_safe (u32_field v n)"
  "fdt_safe (write_be_u32 bs p w)" "fdt_safe (align_up a b)" "fdt_safe (signed_delta a b)" "fdt_safe (add_signed a d)"
  by (auto simp: fdt_safe_def read_be_u32_def usize_field_def u32_field_def write_be_u32_def align_up_def
      signed_delta_def add_signed_def bind_r_Inl_iff split: option.splits)

lemma fdt_safe_strings [safe_intros]: "fdt_safe (read_string T o' k)" "fdt_safe (parse_cell_property n v)"
  "fdt_safe (decimal_suffix n p)"
  by (auto simp: fdt_safe_def read_string_def parse_cell_property_def decimal_suffix_def ok_or_def bind_r_Inl_iff
      split: option.splits if_splits)

lemma fdt_safe_read_node_name [safe_intros]: "fdt_safe (read_node_name bs p)"
  unfolding read_node_name_eq Let_def
  by (intro safe_intros fdt_safe_ok_or) (simp_all add: fdt_safe_def)

lemma fdt_safe_begin_node [safe_intros]: "fdt_safe (begin_node S t st)"
proof -
  have "fdt_safe (begin_group t i a)" "fdt_safe (begin_level i a)" for i a
    by (auto simp: fdt_safe_def begin_group_def begin_level_def Let_def bind_r_Inl_iff ensure_def split: option.splits)
  then show ?thesis
    unfolding begin_node_def Let_def case_prod_unfold
    by (intro safe_intros) (auto simp: fdt_safe_Inr fdt_safe_bind fdt_safe_strings split: option.splits
        intro!: safe_intros, simp add: fdt_safe_def)
qed

lemma fdt_safe_end_node [safe_intros]: "fdt_safe (end_node t st)"
  by (auto simp: fdt_safe_def end_node_def Let_def bind_r_Inl_iff split: option.splits if_splits)

lemma fdt_safe_prop_token [safe_intros]: "fdt_safe (prop_token S T t st)"
proof -
  have "fdt_safe (group_property n v a)" for n v a
    unfolding group_property_def Let_def
    by (cases "fs_open a") (auto intro!: safe_intros split: option.splits, simp_all add: fdt_safe_def)
  then show ?thesis
    unfolding prop_token_def Let_def
    by (intro safe_intros fdt_safe_ok_or fdt_safe_ensure fdt_safe_checked_add) (simp_all add: fdt_safe_def)
qed

lemma fdt_safe_step: "fdt_safe (fdt_step S T st)"
proof -
  have e: "fdt_safe (end_token S (fs_pos st) st)" if "read_be_u32 S (fs_pos st) n = Inr w" for n w
    using that by (simp add: read_be_u32_Inr end_token_inside fdt_safe_def)
  show ?thesis
    unfolding fdt_step_def Let_def
    by (intro safe_intros e) (assumption | simp add: fdt_safe_def)+
qed

lemma fdt_safe_loop: "fdt_safe (fdt_loop S T st)"
proof (induction S T st rule: fdt_loop.induct)
  case (1 S T st)
  show ?case
  proof (cases "fs_pos st < length S")
    case True
    then show ?thesis
      using 1 [OF True] fdt_safe_step [of S T st]
      by (subst fdt_loop.simps) (auto simp: fdt_safe_def split: sum.splits)
  qed (simp add: fdt_loop.simps fdt_safe_def)
qed

text \<open>Reading a blob never panics.\<close>

lemma fdt_safe_parse: "fdt_safe (parse_fdt fdt)"
proof -
  have "fdt_safe (parse_layout fdt)"
    unfolding parse_layout_def
    by (intro safe_intros fdt_safe_ensure fdt_safe_checked_add) (simp_all add: fdt_safe_def)
  then show ?thesis
    unfolding parse_fdt_eq Let_def
    by (intro safe_intros fdt_safe_loop fdt_safe_ensure) (simp_all add: fdt_safe_def)
qed

lemma fdt_safe_parse_info: "fdt_safe (parse_fdt_gpu_info fdt)"
  unfolding parse_fdt_gpu_info_def by (intro safe_intros fdt_safe_parse)

lemma fdt_safe_try_fold: "(\<And>x s. fdt_safe (f x s)) \<Longrightarrow> fdt_safe (try_fold f xs s)"
  by (induction xs arbitrary: s) (simp_all add: fdt_safe_Inr fdt_safe_bind)

lemma fdt_safe_encode_table: "fdt_safe (encode_table t strings)"
proof -
  have "fdt_safe (find_string n p r)" for n p r
    by (induction n p r rule: find_string.induct)
      (subst find_string.simps, auto simp: fdt_safe_def split: option.splits)
  then have "fdt_safe (string_offset T n)" for T n
    unfolding string_offset_def
    by (auto intro!: safe_intros split: option.splits)
  then have p: "fdt_safe (encode_property q s)" for q s
    unfolding encode_property_def case_prod_unfold Let_def
    by (intro safe_intros fdt_safe_ensure) (simp_all add: fdt_safe_def)
  then have l: "fdt_safe (encode_level q s)" for q s
    unfolding encode_level_def case_prod_unfold by (intro safe_intros fdt_safe_try_fold)
  with p have "fdt_safe (encode_group q s)" for q s
    unfolding encode_group_def case_prod_unfold by (intro safe_intros fdt_safe_try_fold)
  then show ?thesis
    unfolding encode_table_def by (intro safe_intros fdt_safe_try_fold) (simp_all add: fdt_safe_def)
qed

lemma fdt_safe_rebuild:
  assumes "layout_fits fdt L" and "fst rng \<le> snd rng" and "snd rng \<le> structure_end L - structure_start L"
  shows "fdt_safe (rebuild_fdt fdt L rng t)"
proof -
  have "fst rng \<le> structure_end L - structure_start L" using assms(2,3) by simp
  note eq = rebuild_fdt_eq [OF assms(1) this assms(3)]
  show ?thesis
    unfolding eq Let_def case_prod_unfold
    by (intro safe_intros fdt_safe_encode_table fdt_safe_ensure) (simp_all add: fdt_safe_def)
qed

text \<open>Neither does the replacement.\<close>

lemma fdt_safe_replace: "fdt_safe (replace_fdt_gpu_table_with_chip fdt export section_chip)"
proof -
  have n: "fdt_safe (map_err FdtNormalize (normalize_edited_gpu_table a b))" for a b
    using normalize_never_panics [of a b] by (auto simp: fdt_safe_def map_err_def split: sum.splits)
  have r: "fdt_safe (rebuild_fdt fdt (pf_layout p) rng t)" if "parse_fdt fdt = Inr p" "ok_or (pf_range p) e = Inr rng"
    for p rng t and e :: fdt_error
    using parse_fdt_range [OF that(1)] that(2) by (auto simp: ok_or_Inr_iff intro: fdt_safe_rebuild)
  show ?thesis
    unfolding replace_fdt_gpu_table_with_chip_def case_prod_unfold
    by (intro safe_intros fdt_safe_parse fdt_safe_ok_or fdt_safe_ensure n r) (assumption | simp add: fdt_safe_def)+
qed

end
