(* ===== verification/Fdt_Replace.thy ===== *)
theory Fdt_Replace
  imports Fdt_Splice Fdt_Safe
begin

text \<open>
  The rebuilt blob: its header, its blocks, and the theorem that parsing it returns the normalised new
  table.
\<close>

section \<open>The header after the four writes\<close>

lemma rd32_be_write_same: "p + 4 \<le> length xs \<Longrightarrow> rd32_be (write_at xs p (u32_be w)) p = w"
  using window_write_at_same [of p "u32_be w" xs]
  by (subst rd32_be_window) simp_all

lemma rd32_be_write_other:
  assumes "p + 4 \<le> length xs" and "q + 4 \<le> length xs" and "q + 4 \<le> p \<or> p + 4 \<le> q"
  shows "rd32_be (write_at xs p (u32_be w)) q = rd32_be xs q"
  using window_write_at_other [of p "u32_be w" xs "q + 4" q] assms
  by (subst (1 2) rd32_be_window) simp_all

lemma write_at_append: "p + length v \<le> length xs \<Longrightarrow> write_at (xs @ ys) p v = write_at xs p v @ ys"
  by (simp add: write_at_def)

definition header_writes :: "byte list \<Rightarrow> u32 \<Rightarrow> u32 \<Rightarrow> u32 \<Rightarrow> u32 \<Rightarrow> byte list" where
  "header_writes hdr tsz soff ssz stsz =
     write_at (write_at (write_at (write_at hdr 4 (u32_be tsz)) 12 (u32_be soff)) 32 (u32_be ssz)) 36 (u32_be stsz)"

lemma header_writes_length: "40 \<le> length hdr \<Longrightarrow> length (header_writes hdr a b c d) = length hdr"
  by (simp add: header_writes_def)

lemma header_writes_fields:
  assumes "40 \<le> length hdr"
  shows "rd32_be (header_writes hdr a b c d) 0 = rd32_be hdr 0"
    and "rd32_be (header_writes hdr a b c d) 4 = a"
    and "rd32_be (header_writes hdr a b c d) 8 = rd32_be hdr 8"
    and "rd32_be (header_writes hdr a b c d) 12 = b"
    and "rd32_be (header_writes hdr a b c d) 32 = c"
    and "rd32_be (header_writes hdr a b c d) 36 = d"
  using assms by (simp_all add: header_writes_def rd32_be_write_same rd32_be_write_other)

text \<open>Only the bytes of the four fields change.\<close>

lemma header_writes_other:
  assumes "40 \<le> length hdr" and "i < length hdr"
    and "i \<notin> {4..<8} \<union> {12..<16} \<union> {32..<40}"
  shows "header_writes hdr a b c d ! i = hdr ! i"
  using assms by (auto simp: header_writes_def nth_write_at)

lemma parse_layout_Inr:
  "parse_layout fdt = Inr L \<longleftrightarrow> 40 \<le> length fdt \<and> rd32_be fdt 0 = FDT_MAGIC \<and>
    total_size L = unat (rd32_be fdt 4) \<and> structure_start L = unat (rd32_be fdt 8) \<and>
    strings_start L = unat (rd32_be fdt 12) \<and>
    structure_end L = unat (rd32_be fdt 8) + unat (rd32_be fdt 36) \<and>
    strings_end L = unat (rd32_be fdt 12) + unat (rd32_be fdt 32) \<and>
    total_size L \<le> length fdt \<and> 40 \<le> total_size L \<and> 40 \<le> structure_start L \<and>
    structure_end L \<le> strings_start L \<and> strings_end L \<le> total_size L"
    (is "_ \<longleftrightarrow> ?rhs")
proof -
  have lt: "unat (x :: u32) < 2 ^ 32" for x using unsigned_less [of x] by simp
  have small: "unat (x :: u32) + unat (y :: u32) < 2 ^ 64" for x y using lt [of x] lt [of y] by simp
  show ?thesis
  proof
    assume "parse_layout fdt = Inr L"
    then show ?rhs
      by (auto simp: parse_layout_def usize_field_def bind_r_Inr_iff read_be_u32_Inr ensure_Inr_iff
          checked_add_def FDT_HEADER_SIZE_def split: if_splits)
  next
    assume ?rhs
    then show "parse_layout fdt = Inr L"
      using small
      by (cases L) (auto simp: parse_layout_def usize_field_def bind_r_Inr_iff read_be_u32_Inr ensure_Inr_iff
          checked_add_def FDT_HEADER_SIZE_def)
  qed
qed

section \<open>The blocks of the rebuilt blob\<close>

lemma u32_field_Inr: "u32_field n name = Inr w \<longleftrightarrow> n < 2 ^ 32 \<and> w = of_nat n"
  by (auto simp: u32_field_def)

lemma signed_delta_Inr: "signed_delta a b = Inr d \<Longrightarrow> d = int a - int b"
  by (auto simp: signed_delta_def split: if_splits)

lemma add_signed_Inr: "add_signed v d = Inr n \<Longrightarrow> int n = int v + d"
  by (auto simp: add_signed_def split: if_splits)

lemma write_be_u32_Inr:
  "write_be_u32 xs p w = Inr ys \<longleftrightarrow> p + 4 \<le> length xs \<and> ys = write_at xs p (u32_be w)"
  by (auto simp: write_be_u32_def)

text \<open>The blob around its blocks: what a rebuilt blob is made of.\<close>

definition rebuilt_from ::
    "byte list \<Rightarrow> fdt_layout \<Rightarrow> byte list \<Rightarrow> byte list \<Rightarrow> byte list \<Rightarrow> bool" where
  "rebuilt_from fdt L S T out \<longleftrightarrow> (\<exists>a b c d. out =
     header_writes (take (structure_start L) fdt) a b c d @ S @
     window fdt (structure_end L) (strings_start L) @ T @ window fdt (strings_end L) (total_size L))"

lemma rebuild_fdt_layout:
  assumes L: "parse_layout fdt = Inr L" and r: "rebuild_fdt fdt L rng t = Inr out"
    and enc: "encode_table t (window fdt (strings_start L) (strings_end L)) = Inr (repl, T)"
    and S: "S = take (fst rng) (window fdt (structure_start L) (structure_end L)) @ repl @
      drop (snd rng) (window fdt (structure_start L) (structure_end L))"
  shows "rebuilt_from fdt L S T out" and "length out < 2 ^ 32"
    and "parse_layout out = Inr \<lparr>total_size = length out, structure_start = structure_start L,
      structure_end = structure_start L + length S,
      strings_start = structure_start L + length S + (strings_start L - structure_end L),
      strings_end = structure_start L + length S + (strings_start L - structure_end L) + length T\<rparr>"
    and "window out (structure_start L) (structure_start L + length S) = S"
    and "window out (structure_start L + length S + (strings_start L - structure_end L))
      (structure_start L + length S + (strings_start L - structure_end L) + length T) = T"
proof -
  define hdr where "hdr = take (structure_start L) fdt"
  define gap where "gap = window fdt (structure_end L) (strings_start L)"
  define tail where "tail = window fdt (strings_end L) (total_size L)"
  note bounds = L [unfolded parse_layout_Inr]
  have ord: "structure_start L \<le> structure_end L" "strings_start L \<le> strings_end L"
    "40 \<le> structure_start L" "structure_end L \<le> strings_start L" "strings_end L \<le> total_size L"
    "total_size L \<le> length fdt"
    using bounds by linarith+
  have hdr: "length hdr = structure_start L" "40 \<le> length hdr" using ord by (simp_all add: hdr_def)
  have gap: "length gap = strings_start L - structure_end L" using ord by (simp add: gap_def)
  have tail: "length tail = total_size L - strings_end L" using bounds by (simp add: tail_def)
  let ?out0 = "hdr @ S @ gap @ T @ tail"
  note fits = parse_layout_fits [OF L]
  note r' = r [unfolded rebuild_fdt_eq [OF fits rebuild_fdt_range [OF r fits, THEN conjunct1] rebuild_fdt_range [OF r fits, THEN conjunct2]] Let_def enc bind_r_simps prod.case S [symmetric]
      hdr_def [symmetric] gap_def [symmetric] tail_def [symmetric] bind_r_Inr_iff ensure_Inr_iff
      u32_field_Inr write_be_u32_Inr]
  from r' obtain sd td nss t1 nt o1 o2 o3 where d: "signed_delta (length S)
      (length (window fdt (structure_start L) (structure_end L))) = Inr sd"
    "signed_delta (length T) (length (window fdt (strings_start L) (strings_end L))) = Inr td"
    "add_signed (strings_start L) sd = Inr nss" "add_signed (total_size L) sd = Inr t1"
    "add_signed t1 td = Inr nt" "length ?out0 = nt"
    and f: "nt < 2 ^ 32" "nss < 2 ^ 32" "length T < 2 ^ 32" "length S < 2 ^ 32"
    and o: "o1 = write_at ?out0 4 (u32_be (of_nat nt))" "o2 = write_at o1 12 (u32_be (of_nat nss))"
      "o3 = write_at o2 32 (u32_be (of_nat (length T)))" "out = write_at o3 36 (u32_be (of_nat (length S)))"
    by blast
  have w: "out = header_writes ?out0 (of_nat nt) (of_nat nss) (of_nat (length T)) (of_nat (length S))"
    unfolding header_writes_def o ..
  define hdr' where "hdr' = header_writes hdr (of_nat nt) (of_nat nss) (of_nat (length T)) (of_nat (length S))"
  have out: "out = hdr' @ S @ gap @ T @ tail"
    using w hdr(2) by (simp add: hdr'_def header_writes_def write_at_append)
  then show "rebuilt_from fdt L S T out"
    unfolding rebuilt_from_def hdr'_def hdr_def gap_def tail_def by blast
  have hdr': "length hdr' = structure_start L" using hdr by (simp add: hdr'_def header_writes_length)
  have len: "length out = nt" using d(6) hdr hdr' by (simp add: out)
  show "length out < 2 ^ 32" using f(1) by (simp add: len)
  have "int nss = int (strings_start L) + int (length S) - int (structure_end L - structure_start L)"
    using add_signed_Inr [OF d(3)] signed_delta_Inr [OF d(1)] ord by simp
  then have nss: "nss = structure_start L + length S + (strings_start L - structure_end L)"
    using ord by linarith
  have fields: "rd32_be out q = rd32_be hdr' q" if "q + 4 \<le> 40" for q
    using that hdr hdr' by (simp add: out rd32_be_def nth_append)
  have u: "unat (of_nat n :: u32) = n" if "n < 2 ^ 32" for n
    using that by (simp add: unat_of_nat take_bit_nat_eq_self)
  have h0: "rd32_be hdr 0 = FDT_MAGIC" "rd32_be hdr 8 = rd32_be fdt 8"
    using bounds hdr by (simp_all add: hdr_def rd32_be_def)
  note hw = header_writes_fields [OF hdr(2), of "of_nat nt" "of_nat nss" "of_nat (length T)"
      "of_nat (length S)", folded hdr'_def]
  have F: "rd32_be out 0 = FDT_MAGIC" "unat (rd32_be out 4) = nt"
    "unat (rd32_be out 8) = structure_start L" "unat (rd32_be out 12) = nss"
    "unat (rd32_be out 32) = length T" "unat (rd32_be out 36) = length S"
    using fields [of 0] fields [of 4] fields [of 8] fields [of 12] fields [of 32] fields [of 36]
      bounds u [OF f(1)] u [OF f(2)] u [OF f(3)] u [OF f(4)]
    by (simp_all only: hw h0)
  have nt: "nt = length hdr' + length S + length gap + length T + length tail"
    using d(6) hdr hdr' by simp
  show "parse_layout out = Inr \<lparr>total_size = length out, structure_start = structure_start L,
      structure_end = structure_start L + length S,
      strings_start = structure_start L + length S + (strings_start L - structure_end L),
      strings_end = structure_start L + length S + (strings_start L - structure_end L) + length T\<rparr>"
    unfolding parse_layout_Inr F using hdr' len nss nt f gap ord(3) by (simp add: out)
  show "window out (structure_start L) (structure_start L + length S) = S"
    by (simp add: out window_def flip: hdr')
  show "window out (structure_start L + length S + (strings_start L - structure_end L))
      (structure_start L + length S + (strings_start L - structure_end L) + length T) = T"
    using gap ord by (simp add: out window_def flip: hdr')
qed

lemma length_window_le: "length (window xs a b) \<le> length xs"
  by (simp add: window_def)

section \<open>Reading the new structure block\<close>

lemma run_table:
  assumes "enc_list (enc_group T) gs bs" and "S = pre @ bs @ post" and "length pre mod 4 = 0"
    and "length S < 2 ^ 63" and "fs_pos st = length pre" and "fs_open st = None"
    and "fs_parent st = None" and "\<forall>g \<in> set gs. group_levels g \<noteq> []" and "gs \<noteq> []"
    and "fs_groups st = []" and "fs_ranges st = []"
  shows "\<exists>st' ns. fdt_runs S T st st' \<and> fs_pos st' = length pre + length bs \<and> fs_open st' = None \<and>
    fs_path st' = fs_path st \<and> fs_groups st' = gs \<and> fs_ranges st' = enc_ranges (length pre) ns \<and>
    ns \<noteq> [] \<and> sum_list ns = length bs \<and> (fs_path st \<noteq> [] \<longrightarrow> same_identity st st')"
proof -
  from assms(9) obtain g gs' where gs: "gs = g # gs'" by (cases gs) auto
  from assms(1) obtain b r where bs: "bs = b @ r" and b: "enc_group T g b"
    and r: "enc_list (enc_group T) gs' r" by (auto simp: gs)
  have S: "S = pre @ b @ (r @ post)" using assms(2) by (simp add: bs)
  obtain m c where run: "fdt_runs S T st (st\<lparr>fs_pos := length pre + length b, fs_model := m, fs_compatible := c,
      fs_groups := fs_groups st @ [g], fs_ranges := fs_ranges st @ [(length pre, length pre + length b)],
      fs_parent := Some (fs_path st)\<rparr>)" (is "fdt_runs S T st ?st")
    and mc: "fs_path st \<noteq> [] \<longrightarrow> m = fs_model st \<and> c = fs_compatible st"
    using run_group [OF b S assms(3-6)] assms(7,8) by (auto simp: gs)
  have "\<exists>m c ns. fdt_runs S T ?st (?st\<lparr>fs_pos := length (pre @ b) + length r, fs_model := m, fs_compatible := c,
      fs_groups := fs_groups ?st @ gs', fs_ranges := fs_ranges ?st @ enc_ranges (length (pre @ b)) ns\<rparr>) \<and>
    (fs_path ?st \<noteq> [] \<longrightarrow> m = fs_model ?st \<and> c = fs_compatible ?st) \<and>
    length ns = length gs' \<and> sum_list ns = length r"
    by (rule run_groups [OF r, where post = post])
      (use S assms gs mod4_add [OF assms(3) enc_group_length [OF b]] in simp_all)
  then obtain m' c' ns where run2: "fdt_runs S T ?st (?st\<lparr>fs_pos := length (pre @ b) + length r,
      fs_model := m', fs_compatible := c', fs_groups := fs_groups ?st @ gs',
      fs_ranges := fs_ranges ?st @ enc_ranges (length (pre @ b)) ns\<rparr>)" (is "fdt_runs S T ?st ?st2")
    and mc2: "fs_path st \<noteq> [] \<longrightarrow> m' = m \<and> c' = c" "sum_list ns = length r"
    by auto
  have "fs_ranges ?st2 = enc_ranges (length pre) (length b # ns)" using assms(11) by simp
  moreover have "fs_pos ?st2 = length pre + length bs" "fs_open ?st2 = None" "fs_path ?st2 = fs_path st"
    "fs_groups ?st2 = gs" using assms(6,10) by (simp_all add: bs gs)
  moreover have "fs_path st \<noteq> [] \<longrightarrow> same_identity st ?st2"
    using mc mc2 by (simp add: same_identity_def)
  moreover have "length b # ns \<noteq> []" "sum_list (length b # ns) = length bs" using mc2 by (simp_all add: bs)
  ultimately show ?thesis using fdt_runs_trans [OF run run2] by blast
qed

lemma gaps_ok_enc_ranges: "gaps_ok S (enc_ranges p ns)"
  by (induction ns arbitrary: p rule: induct_list012) (auto simp: gap_ok_def window_def)

text \<open>Cutting the source run at its groups and putting an encoding in their place.\<close>

lemma loop_replace:
  assumes loop: "fdt_loop S T fdt_start = Inr fin" and ne: "fs_ranges fin \<noteq> []"
    and enc: "enc_list (enc_group (T @ E)) gs bs" and gs: "gs \<noteq> []" "\<forall>g \<in> set gs. group_levels g \<noteq> []"
    and S': "S' = take (fst (hd (fs_ranges fin))) S @ bs @ drop (snd (last (fs_ranges fin))) S"
    and len: "length S < 2 ^ 63" "length S' < 2 ^ 63"
  shows "\<exists>fin' ns. fdt_loop S' (T @ E) fdt_start = Inr fin' \<and> fs_groups fin' = gs \<and>
    fs_ranges fin' = enc_ranges (fst (hd (fs_ranges fin))) ns"
    and "fst (hd (fs_ranges fin)) \<le> snd (last (fs_ranges fin))"
    and "snd (last (fs_ranges fin)) \<le> length S"
proof -
  from fdt_loop_ends [OF loop] obtain z where z: "fdt_runs S T fdt_start z" "fs_pos z < length S"
    "fdt_step S T z = Inr (fin, True)" by blast
  have fin: "fs_open z = None" "fs_ranges fin = fs_ranges z"
    using last_step_outside [OF z(3)] by (auto simp: step_kinds)
  obtain b b1 where b: "fdt_runs S T fdt_start b" "fs_open b = None" "fs_ranges b = []" "fs_groups b = []"
    "fs_parent b = None" "fdt_step S T b = Inr (b1, False)" "fdt_runs S T b1 z" "opening_step b b1"
    "fs_pos b < length S" "fst (hd (fs_ranges z)) = fs_pos b"
    using cut_first [OF z(1)] fin ne by (auto simp: fdt_start_def)
  have b1: "fs_ranges b1 = []" "fs_parent b1 = Some (fs_path b)"
    "\<forall>og. fs_open b1 = Some og \<longrightarrow> fs_parent b1 = Some (og_parent og)"
    using b(3,8) by (auto simp: step_kinds)
  obtain c where c: "fdt_runs S T b1 c" "fdt_runs S T c z" "fs_ranges c = fs_ranges z" "fs_open c = None"
    "fs_parent c = Some (fs_path c)" "fs_pos c = snd (last (fs_ranges z))"
    using cut_last [OF b(7) _ b1(3)] b1(1) ne fin(2) by auto
  have path: "fs_path c = fs_path b" using fdt_runs_parent [OF c(1) b1(2)] c(5) by simp
  define p where "p = fs_pos b"
  define q where "q = fs_pos c"
  have pq: "p \<le> q" using fdt_step_pos [OF b(6)] fdt_runs_pos [OF c(1)] by (simp add: p_def q_def)
  have qS: "q \<le> length S" using fdt_runs_pos_le [OF c(1)] fdt_step_pos [OF b(6)] by (simp add: q_def)
  have mod: "p mod 4 = 0" "q mod 4 = 0"
    using fdt_runs_pos_mod [OF b(1)] fdt_step_pos_mod [OF b(6)] fdt_runs_pos_mod [OF c(1)]
    by (auto simp: p_def q_def fdt_start_def)
  have S'_eq: "S' = take p S @ bs @ drop q S" using S' b(10) c(6) fin(2) by (simp add: p_def q_def)
  have "fdt_runs (take p S @ drop p S) T fdt_start b" using b(1) by simp
  then have "fdt_runs (take p S @ (bs @ drop q S)) (T @ E) fdt_start b"
    by (rule fdt_runs_prefix) (use pq qS in \<open>simp add: p_def\<close>)
  then have r1: "fdt_runs S' (T @ E) fdt_start b" by (simp add: S'_eq)
  have lp: "length (take p S) = p" using pq qS by simp
  have "\<exists>st' ns. fdt_runs S' (T @ E) b st' \<and> fs_pos st' = length (take p S) + length bs \<and>
    fs_open st' = None \<and> fs_path st' = fs_path b \<and> fs_groups st' = gs \<and>
    fs_ranges st' = enc_ranges (length (take p S)) ns \<and> ns \<noteq> [] \<and> sum_list ns = length bs \<and>
    (fs_path b \<noteq> [] \<longrightarrow> same_identity b st')"
    by (rule run_table [OF enc S'_eq]) (use lp mod len b gs in \<open>simp_all add: p_def\<close>)
  then obtain d ns where d: "fdt_runs S' (T @ E) b d" "fs_pos d = p + length bs" "fs_open d = None"
    "fs_path d = fs_path b" "fs_groups d = gs" "fs_ranges d = enc_ranges p ns"
    unfolding lp by blast
  have al: "aligned (take q S) (take p S @ bs) c d"
    using c(4) d(2,3,4) path lp qS by (simp add: aligned_def q_def)
  have "4 dvd length bs" using enc_list_length [OF _ enc] enc_group_length by blast
  then have m2: "length (take p S @ bs) mod 4 = 0" using mod(1) lp by auto
  have "\<exists>e. fdt_loop ((take p S @ bs) @ drop q S) (T @ E) d = Inr e \<and> same_groups d e \<and>
      (same_identity c d \<longrightarrow> same_identity fin e)"
    by (rule fdt_runs_shift [where X = "take q S" and T = T and a = c and z = z])
      (use c(2,3) z(2,3) al m2 mod qS len in \<open>simp_all add: S'_eq\<close>)
  then obtain e where e: "fdt_loop S' (T @ E) d = Inr e" "same_groups d e" by (auto simp: S'_eq)
  have "fdt_loop S' (T @ E) fdt_start = Inr e"
    using fdt_loop_runs [OF r1] fdt_loop_runs [OF d(1)] e(1) by simp
  then show "\<exists>fin' ns. fdt_loop S' (T @ E) fdt_start = Inr fin' \<and> fs_groups fin' = gs \<and>
    fs_ranges fin' = enc_ranges (fst (hd (fs_ranges fin))) ns"
    using e(2) d(5,6) b(10) fin(2) by (auto simp: same_groups_def p_def)
  show "fst (hd (fs_ranges fin)) \<le> snd (last (fs_ranges fin))" "snd (last (fs_ranges fin)) \<le> length S"
    using pq qS b(10) c(6) fin(2) by (simp_all add: p_def q_def)
qed

section \<open>The properties\<close>

lemma parse_fdt_Inr:
  assumes "parse_fdt fdt = Inr p"
  obtains st where "parse_layout fdt = Inr (pf_layout p)"
    "fdt_loop (window fdt (structure_start (pf_layout p)) (structure_end (pf_layout p)))
       (window fdt (strings_start (pf_layout p)) (strings_end (pf_layout p))) fdt_start = Inr st"
    "pf_info p = \<lparr>info_model = fs_model st, info_chip = infer_chip (fs_compatible st),
       info_table = (if fs_groups st = [] then None else Some \<lparr>table_groups = fs_groups st\<rparr>)\<rparr>"
    "pf_range p = (if fs_ranges st = [] then None
       else Some (fst (hd (fs_ranges st)), snd (last (fs_ranges st))))"
proof -
  from assms obtain L st where "parse_layout fdt = Inr L"
    "fdt_loop (window fdt (structure_start L) (structure_end L))
       (window fdt (strings_start L) (strings_end L)) fdt_start = Inr st"
    "p = \<lparr>pf_layout = L, pf_info = \<lparr>info_model = fs_model st, info_chip = infer_chip (fs_compatible st),
       info_table = (if fs_groups st = [] then None else Some \<lparr>table_groups = fs_groups st\<rparr>)\<rparr>,
     pf_range = (if fs_ranges st = [] then None
       else Some (fst (hd (fs_ranges st)), snd (last (fs_ranges st))))\<rparr>"
    unfolding parse_fdt_eq Let_def bind_r_Inr_iff by blast
  with that show thesis by simp
qed

text \<open>Names are Rust strings, so their bytes are UTF-8.\<close>

definition names_utf8 :: "gpu_table \<Rightarrow> bool" where
  "names_utf8 t \<longleftrightarrow> (\<forall>g \<in> set (table_groups t).
     (\<forall>p \<in> set (header_properties g). utf8_valid (as_bytes (prop_name p))) \<and>
     (\<forall>l \<in> set (group_levels g). \<forall>p \<in> set (level_properties l). utf8_valid (as_bytes (prop_name p))))"

lemma zero_byte_iff: "0 \<in> set (as_bytes s) \<longleftrightarrow> CHR 0x00 \<in> set s"
proof
  assume "CHR 0x00 \<in> set s"
  then have "of_char (CHR 0x00) \<in> set (as_bytes s)" unfolding as_bytes_def by (simp add: rev_image_eqI)
  then show "0 \<in> set (as_bytes s)" by simp
next
  assume "0 \<in> set (as_bytes s)"
  then obtain c where c: "c \<in> set s" "(0 :: byte) = of_char c" by (auto simp: as_bytes_def)
  then have "(of_char c :: nat) = 0" by (metis unat_of_char unsigned_0)
  then have "c = char_of (0 :: nat)" by (metis char_of_char)
  also have "\<dots> = CHR 0x00" by (simp add: char_of_def)
  finally have "c = CHR 0x00" .
  with c show "CHR 0x00 \<in> set s" by simp
qed

lemma storable_from_ok:
  assumes "properties_ok loc ps" and "\<forall>p \<in> set ps. utf8_valid (as_bytes (prop_name p))"
  shows "props_storable ps"
  using assms by (auto simp: props_storable_def properties_ok_def property_ok_def storable_name_def zero_byte_iff)

lemma props_utf8_names:
  "map prop_name ps' = map prop_name ps \<Longrightarrow> \<forall>p \<in> set ps. utf8_valid (as_bytes (prop_name p)) \<Longrightarrow>
    \<forall>p \<in> set ps'. utf8_valid (as_bytes (prop_name p))"
  by (metis (mono_tags, lifting) imageE image_eqI list.set_map)

lemma normalized_storable:
  assumes n: "normalize_edited_gpu_table source edited = Inr (t, adv)" and u: "names_utf8 edited"
  shows "table_storable t" and "\<forall>g \<in> set (table_groups t). group_levels g \<noteq> []"
proof -
  from normalize_edited_Inr [OF n] have ok: "table_ok t"
    and all: "list_all2 (group_normalized source) (table_groups edited) (table_groups t)" by blast+
  show "\<forall>g \<in> set (table_groups t). group_levels g \<noteq> []" using ok by (simp add: table_ok_def group_ok_def)
  have "group_storable g'" if g': "g' \<in> set (table_groups t)" for g'
  proof -
    from g' obtain j where j: "j < length (table_groups t)" "g' = table_groups t ! j"
      by (auto simp: in_set_conv_nth)
    define g where "g = table_groups edited ! j"
    have g: "g \<in> set (table_groups edited)" "group_normalized source g g'"
      using j list_all2_nthD2 [OF all, of j] list_all2_lengthD [OF all] by (auto simp: g_def)
    have gok: "group_ok g'" using ok g' by (simp add: table_ok_def)
    have "props_storable (header_properties g')"
      using storable_from_ok [of GroupHeader] props_utf8_names [of "header_properties g'" "header_properties g"]
        gok g u by (auto simp: group_ok_def group_normalized_def names_utf8_def)
    moreover have "level_storable l'" if l': "l' \<in> set (group_levels g')" for l'
    proof -
      from l' obtain i where i: "i < length (group_levels g')" "l' = group_levels g' ! i"
        by (auto simp: in_set_conv_nth)
      let ?l = "group_levels g ! i"
      have l: "?l \<in> set (group_levels g)" "map prop_name (level_properties l') = map prop_name (level_properties ?l)"
        using g(2) i by (auto simp: group_normalized_def same_but_reg_def)
      have "\<forall>p \<in> set (level_properties l'). utf8_valid (as_bytes (prop_name p))"
        by (rule props_utf8_names [OF l(2)]) (use u g(1) l(1) in \<open>auto simp: names_utf8_def\<close>)
      moreover have "properties_ok Level (level_properties l')"
        using gok l' by (simp add: group_ok_def level_ok_def)
      ultimately show ?thesis by (simp add: level_storable_def storable_from_ok)
    qed
    ultimately show ?thesis by (simp add: group_storable_def)
  qed
  then show "table_storable t" by (simp add: table_storable_def)
qed

lemma replace_fdt_Inr:
  assumes "replace_fdt_gpu_table_with_chip fdt export section_chip = Inr out"
  obtains p rng src new adv where "parse_fdt fdt = Inr p" "pf_range p = Some rng"
    "info_table (pf_info p) = Some src"
    "(case info_chip (pf_info p) of Some c \<Rightarrow> Some c | None \<Rightarrow> section_chip) = Some (export_chip export)"
    "normalize_edited_gpu_table src (export_table export) = Inr (new, adv)"
    "rebuild_fdt fdt (pf_layout p) rng new = Inr out"
proof -
  from assms obtain p rng src nr where h: "parse_fdt fdt = Inr p" "pf_range p = Some rng"
    "info_table (pf_info p) = Some src"
    "(case info_chip (pf_info p) of Some c \<Rightarrow> Some c | None \<Rightarrow> section_chip) = Some (export_chip export)"
    "map_err FdtNormalize (normalize_edited_gpu_table src (export_table export)) = Inr nr"
    "rebuild_fdt fdt (pf_layout p) rng (fst nr) = Inr out"
    unfolding replace_fdt_gpu_table_with_chip_def bind_r_Inr_iff ok_or_Inr_iff ensure_Inr_iff
    by (auto split: prod.splits)
  then have "normalize_edited_gpu_table src (export_table export) = Inr (fst nr, snd nr)"
    by (simp add: map_err_def split: sum.splits)
  from that [OF h(1-4) this h(6)] show thesis .
qed

lemma rebuild_encodes:
  assumes "rebuild_fdt fdt L rng t = Inr out"
  obtains repl T where "encode_table t (window fdt (strings_start L) (strings_end L)) = Inr (repl, T)"
  using assms by (auto simp: rebuild_fdt_def bind_r_Inr_iff fdt_slice_Inr)

lemma replace_fdt_core:
  assumes "replace_fdt_gpu_table_with_chip fdt export section_chip = Inr out"
    and "names_utf8 (export_table export)" and "length fdt < 2 ^ 63"
  shows "\<exists>src info new adv. parse_fdt_gpu_info fdt = Inr src \<and>
    (case info_chip src of Some c \<Rightarrow> Some c | None \<Rightarrow> section_chip) = Some (export_chip export) \<and>
    normalize_edited_gpu_table (the (info_table src)) (export_table export) = Inr (new, adv) \<and>
    parse_fdt_gpu_info out = Inr info \<and> info_table info = Some new"
    and "\<exists>layout. parse_layout out = Inr layout \<and> total_size layout = length out"
proof -
  obtain p rng src new adv where p: "parse_fdt fdt = Inr p"
    "pf_range p = Some rng" "info_table (pf_info p) = Some src"
    "(case info_chip (pf_info p) of Some c \<Rightarrow> Some c | None \<Rightarrow> section_chip) = Some (export_chip export)"
    "normalize_edited_gpu_table src (export_table export) = Inr (new, adv)"
    "rebuild_fdt fdt (pf_layout p) rng new = Inr out"
    by (rule replace_fdt_Inr [OF assms(1)])
  define L where "L = pf_layout p"
  let ?S = "window fdt (structure_start L) (structure_end L)"
  let ?T = "window fdt (strings_start L) (strings_end L)"
  from parse_fdt_Inr [OF p(1), folded L_def] obtain fin where L: "parse_layout fdt = Inr L"
    and loop: "fdt_loop ?S ?T fdt_start = Inr fin"
    and range: "pf_range p = (if fs_ranges fin = [] then None
       else Some (fst (hd (fs_ranges fin)), snd (last (fs_ranges fin))))" by metis
  have ne: "fs_ranges fin \<noteq> []" and rng: "rng = (fst (hd (fs_ranges fin)), snd (last (fs_ranges fin)))"
    using range p(2) by (simp_all split: if_splits)
  from rebuild_encodes [OF p(6)] obtain repl T' where
    enc: "encode_table new ?T = Inr (repl, T')" by (auto simp: L_def)
  from encode_table_enc [OF enc normalized_storable(1) [OF p(5) assms(2)]] obtain E where
    E: "T' = ?T @ E" "enc_list (enc_group (?T @ E)) (table_groups new) repl" "table_groups new \<noteq> []" by auto
  define S' where "S' = take (fst rng) ?S @ repl @ drop (snd rng) ?S"
  note reb = rebuild_fdt_layout [OF L p(6) [folded L_def] enc S'_def]
  have lenS: "length ?S < 2 ^ 63" using assms(3) by (simp add: window_def)
  have "length S' \<le> length out" using reb(4) by (metis length_window_le)
  then have lenS': "length S' < 2 ^ 63" using reb(2) by simp
  from loop_replace(1) [OF loop ne E(2,3) normalized_storable(2) [OF p(5) assms(2)] _ lenS lenS'] rng
  obtain fin' ns where fin': "fdt_loop S' T' fdt_start = Inr fin'" "fs_groups fin' = table_groups new"
    "fs_ranges fin' = enc_ranges (fst rng) ns" by (auto simp: S'_def E(1))
  have "parse_fdt out = Inr \<lparr>pf_layout = \<lparr>total_size = length out, structure_start = structure_start L,
      structure_end = structure_start L + length S',
      strings_start = structure_start L + length S' + (strings_start L - structure_end L),
      strings_end = structure_start L + length S' + (strings_start L - structure_end L) + length T'\<rparr>,
    pf_info = \<lparr>info_model = fs_model fin', info_chip = infer_chip (fs_compatible fin'),
      info_table = Some \<lparr>table_groups = fs_groups fin'\<rparr>\<rparr>,
    pf_range = (if fs_ranges fin' = [] then None
      else Some (fst (hd (fs_ranges fin')), snd (last (fs_ranges fin'))))\<rparr>"
    using fin' E(3) by (simp add: parse_fdt_eq reb(3-5) gaps_ok_enc_ranges)
  then have "\<exists>info. parse_fdt_gpu_info out = Inr info \<and> info_table info = Some new"
    using fin'(2) by (simp add: parse_fdt_gpu_info_def)
  with p show "\<exists>src info new adv. parse_fdt_gpu_info fdt = Inr src \<and>
    (case info_chip src of Some c \<Rightarrow> Some c | None \<Rightarrow> section_chip) = Some (export_chip export) \<and>
    normalize_edited_gpu_table (the (info_table src)) (export_table export) = Inr (new, adv) \<and>
    parse_fdt_gpu_info out = Inr info \<and> info_table info = Some new"
    by (auto simp: parse_fdt_gpu_info_def)
  show "\<exists>layout. parse_layout out = Inr layout \<and> total_size layout = length out"
    using reb(3) by auto
qed

text \<open>
  (C1) Replacing the GPU table of a device tree is correct: when it succeeds, the source blob has a table
  and the export's chip is the blob's (or the section's, when the blob names none), and the blob it
  returns parses again, with exactly the normalised export table as its GPU table.
\<close>

theorem replace_fdt_reads_back:
  assumes "replace_fdt_gpu_table_with_chip fdt export section_chip = Inr out"
    and "names_utf8 (export_table export)" and "length fdt < 2 ^ 63"
  shows "\<exists>src info new adv. parse_fdt_gpu_info fdt = Inr src \<and>
    (case info_chip src of Some c \<Rightarrow> Some c | None \<Rightarrow> section_chip) = Some (export_chip export) \<and>
    normalize_edited_gpu_table (the (info_table src)) (export_table export) = Inr (new, adv) \<and>
    parse_fdt_gpu_info out = Inr info \<and> info_table info = Some new"
  by (rule replace_fdt_core(1) [OF assms])

end
