(* ===== verification/Fdt_Sample.thy ===== *)
theory Fdt_Sample
  imports Fdt_Replace
begin

text \<open>
  A smallest blob around an encoded table: a root node that holds the GPU groups and nothing else. It
  parses to its table, and serves as the concrete input on which the replacement is shown to succeed.
\<close>

definition minimal_structure :: "byte list \<Rightarrow> byte list" where
  "minimal_structure enc = node_bytes [] @ enc @ u32_be FDT_END_NODE @ u32_be FDT_END"

definition minimal_fdt :: "byte list \<Rightarrow> byte list \<Rightarrow> byte list" where
  "minimal_fdt enc T =
     u32_be FDT_MAGIC @ u32_be (of_nat (56 + length enc + length T)) @ u32_be 40 @
     u32_be (of_nat (56 + length enc)) @ u32_be 0 @ u32_be 17 @ u32_be 16 @ u32_be 0 @
     u32_be (of_nat (length T)) @ u32_be (of_nat (16 + length enc)) @ minimal_structure enc @ T"

lemma length_minimal: "length (minimal_structure enc) = 16 + length enc"
  "length (minimal_fdt enc T) = 56 + length enc + length T"
  by (simp_all add: minimal_structure_def minimal_fdt_def length_node_bytes)

definition minimal_layout :: "byte list \<Rightarrow> byte list \<Rightarrow> fdt_layout" where
  "minimal_layout enc T = \<lparr>total_size = 56 + length enc + length T, structure_start = 40,
     structure_end = 56 + length enc, strings_start = 56 + length enc,
     strings_end = 56 + length enc + length T\<rparr>"

lemma rd32_be_in: "S = pre @ u32_be w @ post \<Longrightarrow> p = length pre \<Longrightarrow> rd32_be S p = w"
  by (simp add: rd32_be_at)

lemma minimal_fields:
  "rd32_be (minimal_fdt enc T) 0 = FDT_MAGIC"
  "rd32_be (minimal_fdt enc T) 4 = of_nat (56 + length enc + length T)"
  "rd32_be (minimal_fdt enc T) 8 = of_nat 40"
  "rd32_be (minimal_fdt enc T) 12 = of_nat (56 + length enc)"
  "rd32_be (minimal_fdt enc T) 32 = of_nat (length T)"
  "rd32_be (minimal_fdt enc T) 36 = of_nat (16 + length enc)"
proof -
  let ?a = "u32_be FDT_MAGIC" and ?b = "u32_be (of_nat (56 + length enc + length T))" and ?c = "u32_be 40"
  let ?d = "u32_be (of_nat (56 + length enc))" and ?e = "u32_be 0 @ u32_be 17 @ u32_be 16 @ u32_be 0"
  let ?f = "u32_be (of_nat (length T))" and ?g = "u32_be (of_nat (16 + length enc))"
  let ?r = "minimal_structure enc @ T"
  show "rd32_be (minimal_fdt enc T) 0 = FDT_MAGIC"
    by (rule rd32_be_in [of _ "[]" _ "?b @ ?c @ ?d @ ?e @ ?f @ ?g @ ?r"]) (simp_all add: minimal_fdt_def)
  show "rd32_be (minimal_fdt enc T) 4 = of_nat (56 + length enc + length T)"
    by (rule rd32_be_in [of _ "?a" _ "?c @ ?d @ ?e @ ?f @ ?g @ ?r"]) (simp_all add: minimal_fdt_def)
  show "rd32_be (minimal_fdt enc T) 8 = of_nat 40"
    by (rule rd32_be_in [of _ "?a @ ?b" _ "?d @ ?e @ ?f @ ?g @ ?r"]) (simp_all add: minimal_fdt_def)
  show "rd32_be (minimal_fdt enc T) 12 = of_nat (56 + length enc)"
    by (rule rd32_be_in [of _ "?a @ ?b @ ?c" _ "?e @ ?f @ ?g @ ?r"]) (simp_all add: minimal_fdt_def)
  show "rd32_be (minimal_fdt enc T) 32 = of_nat (length T)"
    by (rule rd32_be_in [of _ "?a @ ?b @ ?c @ ?d @ ?e" _ "?g @ ?r"]) (simp_all add: minimal_fdt_def)
  show "rd32_be (minimal_fdt enc T) 36 = of_nat (16 + length enc)"
    by (rule rd32_be_in [of _ "?a @ ?b @ ?c @ ?d @ ?e @ ?f" _ "?r"]) (simp_all add: minimal_fdt_def)
qed

lemma minimal_parse_layout:
  assumes "length enc + length T < 2 ^ 31"
  shows "parse_layout (minimal_fdt enc T) = Inr (minimal_layout enc T)"
proof -
  have u: "unat (of_nat n :: u32) = n" if "n < 2 ^ 32" for n
    using that unfolding unat_of_nat by (intro mod_less) simp
  have "unat (of_nat (56 + length enc + length T) :: u32) = 56 + length enc + length T"
    "unat (of_nat 40 :: u32) = 40" "unat (of_nat (56 + length enc) :: u32) = 56 + length enc"
    "unat (of_nat (length T) :: u32) = length T" "unat (of_nat (16 + length enc) :: u32) = 16 + length enc"
    by (rule u; use assms in simp)+
  note this' = this
  show ?thesis unfolding parse_layout_Inr minimal_fields this'
    by (simp add: minimal_layout_def length_minimal)
qed

lemma minimal_windows:
  "window (minimal_fdt enc T) 40 (56 + length enc) = minimal_structure enc"
  "window (minimal_fdt enc T) (56 + length enc) (56 + length enc + length T) = T"
  by (simp_all add: window_def minimal_fdt_def length_minimal)

lemma minimal_loop:
  assumes enc: "enc_list (enc_group T) gs enc" and gs: "\<forall>g \<in> set gs. group_levels g \<noteq> []" "gs \<noteq> []"
    and len: "length enc < 2 ^ 31"
  shows "\<exists>st ns. fdt_loop (minimal_structure enc) T fdt_start = Inr st \<and> fs_groups st = gs \<and>
    fs_ranges st = enc_ranges 8 ns \<and> ns \<noteq> [] \<and> sum_list ns = length enc \<and> fs_compatible st = []"
proof -
  let ?S = "minimal_structure enc" and ?X = "node_bytes []"
  let ?st1 = "fdt_start\<lparr>fs_pos := 8, fs_path := [[]]\<rparr>"
  have X: "length ?X = 8" by (simp add: length_node_bytes)
  have S0: "?S = [] @ ?X @ (enc @ u32_be FDT_END_NODE @ u32_be FDT_END)" by (simp add: minimal_structure_def)
  have S1: "?S = ?X @ enc @ (u32_be FDT_END_NODE @ u32_be FDT_END)" by (simp add: minimal_structure_def)
  have lS: "length ?S < 2 ^ 63" using len by (simp add: length_minimal)
  have root: "storable_name []" by (simp add: storable_name_def utf8_valid_def)
  have "fdt_step ?S T fdt_start = Inr (?st1, False)"
    using step_begin(1) [OF S0 _ root lS, where st = fdt_start and T = T]
      step_begin(2) [OF S0 _ root lS, where st = fdt_start] X
    by (simp add: fdt_start_def begin_node_def decimal_suffix_def strip_prefix_def)
  then have r1: "fdt_runs ?S T fdt_start ?st1"
    by (intro fdt_runs_one) (simp_all add: fdt_start_def length_minimal)
  have "\<exists>st' ns. fdt_runs ?S T ?st1 st' \<and> fs_pos st' = length ?X + length enc \<and> fs_open st' = None \<and>
    fs_path st' = fs_path ?st1 \<and> fs_groups st' = gs \<and> fs_ranges st' = enc_ranges (length ?X) ns \<and>
    ns \<noteq> [] \<and> sum_list ns = length enc \<and> (fs_path ?st1 \<noteq> [] \<longrightarrow> same_identity ?st1 st')"
    by (rule run_table [OF enc S1]) (use lS X gs in \<open>simp_all add: fdt_start_def\<close>)
  then obtain st2 ns where st2: "fdt_runs ?S T ?st1 st2" "fs_pos st2 = 8 + length enc" "fs_open st2 = None"
    "fs_path st2 = [[]]" "fs_groups st2 = gs" "fs_ranges st2 = enc_ranges 8 ns" "ns \<noteq> []"
    "sum_list ns = length enc" "fs_compatible st2 = []"
    by (auto simp: X same_identity_def fdt_start_def)
  let ?st3 = "st2\<lparr>fs_pos := 12 + length enc, fs_path := []\<rparr>"
  have S2: "?S = (?X @ enc) @ u32_be FDT_END_NODE @ u32_be FDT_END" by (simp add: minimal_structure_def)
  have "fdt_step ?S T st2 = Inr (?st3, False)"
    using step_end [OF S2, of st2 T] st2 X by (simp add: end_node_def)
  then have r2: "fdt_runs ?S T st2 ?st3" by (intro fdt_runs_one) (simp_all add: st2 length_minimal)
  have "read_be_u32 ?S (12 + length enc) ''FDT structure token'' = Inr FDT_END"
    by (rule read_be_u32_at [of _ "?X @ enc @ u32_be FDT_END_NODE" _ "[]"])
      (simp_all add: minimal_structure_def X)
  then have "fdt_step ?S T ?st3 = Inr (?st3\<lparr>fs_pos := 16 + length enc\<rparr>, True)"
    using st2 by (simp add: fdt_step_def fdt_consts end_token_inside length_minimal)
  then have "fdt_loop ?S T ?st3 = Inr (?st3\<lparr>fs_pos := 16 + length enc\<rparr>)"
    by (subst fdt_loop.simps) (simp add: length_minimal)
  then have "fdt_loop ?S T fdt_start = Inr (?st3\<lparr>fs_pos := 16 + length enc\<rparr>)"
    using fdt_loop_runs [OF r1] fdt_loop_runs [OF st2(1)] fdt_loop_runs [OF r2] by simp
  with st2 show ?thesis by auto
qed

lemma enc_ranges_ends:
  "ns \<noteq> [] \<Longrightarrow> fst (hd (enc_ranges p ns)) = p \<and> snd (last (enc_ranges p ns)) = p + sum_list ns \<and>
    enc_ranges p ns \<noteq> []"
proof (induction ns arbitrary: p)
  case (Cons n ns)
  then show ?case by (cases ns) auto
qed simp

lemma minimal_parse:
  assumes "enc_list (enc_group T) gs enc" and "\<forall>g \<in> set gs. group_levels g \<noteq> []" and "gs \<noteq> []"
    and "length enc + length T < 2 ^ 31"
  shows "\<exists>p. parse_fdt (minimal_fdt enc T) = Inr p \<and> pf_layout p = minimal_layout enc T \<and>
    info_table (pf_info p) = Some \<lparr>table_groups = gs\<rparr> \<and> info_chip (pf_info p) = None \<and>
    pf_range p = Some (8, 8 + length enc)"
proof -
  from minimal_loop [OF assms(1-3)] assms(4) obtain st ns where
    st: "fdt_loop (minimal_structure enc) T fdt_start = Inr st" "fs_groups st = gs"
      "fs_ranges st = enc_ranges 8 ns" "ns \<noteq> []" "sum_list ns = length enc" "fs_compatible st = []" by auto
  have "infer_chip [] = None" by (simp add: infer_chip_def chip_values_def)
  then show ?thesis
    using st enc_ranges_ends [OF st(4), of 8] assms(3) gaps_ok_enc_ranges
    by (simp add: parse_fdt_eq minimal_parse_layout [OF assms(4)])
      (simp add: minimal_layout_def minimal_windows)
qed

section \<open>A replacement that succeeds\<close>

definition tiny_table :: gpu_table where
  "tiny_table = \<lparr>table_groups = [\<lparr>group_id = 0, header_properties = [],
     group_levels = [sample_level 0 600000000]\<rparr>]\<rparr>"

definition tiny_strings :: "byte list" where
  "tiny_strings = as_bytes ''reg'' @ [0] @ as_bytes ''qcom,gpu-freq'' @ [0] @ as_bytes ''qcom,level'' @ [0]"

definition tiny_encoding :: "byte list" where
  "tiny_encoding = node_bytes (group_node 0) @ node_bytes (level_node 0) @
     prop_bytes \<lparr>prop_name = ''reg'', prop_cells = [0]\<rparr> 0 @
     prop_bytes \<lparr>prop_name = ''qcom,gpu-freq'', prop_cells = [600000000]\<rparr> 4 @
     prop_bytes \<lparr>prop_name = ''qcom,level'', prop_cells = [100]\<rparr> 18 @
     u32_be FDT_END_NODE @ u32_be FDT_END_NODE"

lemma tiny_offsets:
  "string_offset tiny_strings ''reg'' = Inr (0, tiny_strings)"
  "string_offset tiny_strings ''qcom,gpu-freq'' = Inr (4, tiny_strings)"
  "string_offset tiny_strings ''qcom,level'' = Inr (18, tiny_strings)"
  by (simp_all add: string_offset_def find_string.simps tiny_strings_def as_bytes_def u32_field_def)

lemma tiny_encode: "encode_table tiny_table tiny_strings = Inr (tiny_encoding, tiny_strings)"
proof -
  have [simp]: "length (node_bytes n) mod 4 = 0" for n by (simp add: length_node_bytes)
  have [simp]: "length (a @ b) mod 4 = 0" if "length a mod 4 = 0" "length b mod 4 = 0" for a b :: "byte list"
    using that by (simp add: mod4_add)
  show ?thesis
    by (simp add: encode_table_def tiny_table_def encode_group_def encode_level_def sample_level_def
        encode_property_def u32_field_def tiny_offsets encode_begin_node_bytes tiny_encoding_def
        prop_bytes_def length_node_bytes group_node_def level_node_def)
qed

lemma tiny_lengths: "length tiny_encoding = 108" "length tiny_strings = 29"
proof -
  have "length (dec32 0) = 1" by (simp add: dec32_def dec.simps)
  then show "length tiny_encoding = 108"
    by (simp add: tiny_encoding_def length_node_bytes length_prop_bytes group_node_def level_node_def)
  show "length tiny_strings = 29" by (simp add: tiny_strings_def)
qed

lemma tiny_ok: "table_ok tiny_table"
  by (simp add: tiny_table_def sample_defs)

lemma tiny_normal: "\<exists>adv. normalize_edited_gpu_table tiny_table tiny_table = Inr (tiny_table, adv)"
proof -
  have "hard_errors (validate_gpu_table tiny_table) = []" using tiny_ok by (simp add: validate_hard_Nil)
  then show ?thesis
    by (simp add: normalize_edited_gpu_table_def Let_def)
      (simp add: tiny_table_def normalize_group_def retarget_property_def renumber_level_def sample_level_def
        set_first_cell_def)
qed

lemma tiny_utf8: "names_utf8 tiny_table"
  by (simp add: names_utf8_def tiny_table_def sample_level_def as_bytes_def utf8_valid_def)

lemma tiny_storable: "table_storable tiny_table"
proof -
  obtain adv where "normalize_edited_gpu_table tiny_table tiny_table = Inr (tiny_table, adv)"
    using tiny_normal by blast
  then show ?thesis by (rule normalized_storable(1) [OF _ tiny_utf8])
qed

lemma tiny_enc_list: "enc_list (enc_group tiny_strings) (table_groups tiny_table) tiny_encoding"
  using encode_table_enc [OF tiny_encode tiny_storable] by blast

abbreviation tiny_blob :: "byte list" where
  "tiny_blob \<equiv> minimal_fdt tiny_encoding tiny_strings"

definition tiny_export :: konabess_export where
  "tiny_export = \<lparr>export_chip = ''sun'', export_description = [], export_table = tiny_table\<rparr>"

lemma tiny_fits: "layout_fits tiny_blob (minimal_layout tiny_encoding tiny_strings)"
  by (rule parse_layout_fits, rule minimal_parse_layout) (simp add: tiny_lengths)

lemma tiny_range:
  "fst (8, 116) \<le> structure_end (minimal_layout tiny_encoding tiny_strings) -
    structure_start (minimal_layout tiny_encoding tiny_strings)"
  "snd (8, 116) \<le> structure_end (minimal_layout tiny_encoding tiny_strings) -
    structure_start (minimal_layout tiny_encoding tiny_strings)"
  by (simp_all add: minimal_layout_def tiny_lengths)

lemmas tiny_rebuild_eq = rebuild_fdt_eq [OF tiny_fits tiny_range]

lemma tiny_rebuild: "\<exists>out. rebuild_fdt tiny_blob (minimal_layout tiny_encoding tiny_strings) (8, 116) tiny_table = Inr out"
  using minimal_windows [of tiny_encoding tiny_strings] length_minimal [of tiny_encoding]
    length_minimal(2) [of tiny_encoding tiny_strings]
  by (simp only: tiny_rebuild_eq) (simp add: minimal_layout_def Let_def tiny_lengths tiny_encode signed_delta_def
      add_signed_def u32_field_def write_be_u32_def ensure_def)

lemma tiny_replace: "\<exists>out. replace_fdt_gpu_table_with_chip tiny_blob tiny_export (Some ''sun'') = Inr out"
proof -
  have "\<exists>p. parse_fdt tiny_blob = Inr p \<and> pf_layout p = minimal_layout tiny_encoding tiny_strings \<and>
    info_table (pf_info p) = Some \<lparr>table_groups = table_groups tiny_table\<rparr> \<and>
    info_chip (pf_info p) = None \<and> pf_range p = Some (8, 8 + length tiny_encoding)"
    by (rule minimal_parse [OF tiny_enc_list]) (simp_all add: tiny_table_def tiny_lengths)
  moreover have "\<lparr>table_groups = table_groups tiny_table\<rparr> = tiny_table" by simp
  ultimately show ?thesis
    using tiny_normal tiny_rebuild
    by (auto simp: replace_fdt_gpu_table_with_chip_def tiny_export_def map_err_def tiny_lengths)
qed

theorem replace_fdt_reads_back_witness:
  "\<exists>out info new. replace_fdt_gpu_table_with_chip tiny_blob tiny_export (Some ''sun'') = Inr out \<and>
    parse_fdt_gpu_info out = Inr info \<and> info_table info = Some new"
proof -
  obtain out where out: "replace_fdt_gpu_table_with_chip tiny_blob tiny_export (Some ''sun'') = Inr out"
    using tiny_replace by blast
  have "names_utf8 (export_table tiny_export)" by (simp add: tiny_export_def tiny_utf8)
  moreover have "length tiny_blob < 2 ^ 63" by (simp add: length_minimal tiny_lengths)
  ultimately show ?thesis using replace_fdt_reads_back [OF out] out by blast
qed

end
