(* ===== verification/Vendor_Boot.thy ===== *)
theory Vendor_Boot
  imports Fdt
begin

text \<open>
  The vendor-boot version 4 image of \<open>konabess/vendor_boot.rs\<close>: the layout of its sections, the walk
  over the concatenated device trees of the DTB section, the inspection and classification of those
  trees, and the rebuilding of the image around a replaced DTB section. A slice or a copy whose range
  would leave its buffer is the error \<open>VbPanic\<close>.
\<close>

section \<open>Constants and errors\<close>

definition VENDOR_BOOT_MAGIC :: "byte list" where
  "VENDOR_BOOT_MAGIC = [0x56, 0x4E, 0x44, 0x52, 0x42, 0x4F, 0x4F, 0x54]"
definition V4_HEADER_MIN_SIZE :: nat where "V4_HEADER_MIN_SIZE = 2128"
definition DTB_SIZE_OFFSET :: nat where "DTB_SIZE_OFFSET = 2100"

datatype vb_error =
    VbInvalid | VbVersion nat | VbPageSize nat | VbHeaderSize nat | VbTruncated string
  | VbOverflow string | VbAlignment | VbBeyondImage nat nat | VbCapacity nat nat | VbTrailing
  | VbDtbTooBig | VbBadMagic nat | VbBadSize nat nat | VbBlobBeyond | VbNoBlobs
  | VbIndex nat nat | VbChips string string | VbFdt fdt_error | VbPanic

section \<open>Fields and arithmetic\<close>

definition read_le_u32 :: "byte list \<Rightarrow> nat \<Rightarrow> string \<Rightarrow> vb_error + u32" where
  "read_le_u32 bytes offset name =
     (case slice bytes offset (offset + 4) of
        None \<Rightarrow> Inl (VbTruncated name)
      | Some v \<Rightarrow> Inr (u32_of_le (v ! 0) (v ! 1) (v ! 2) (v ! 3)))"

definition vb_read_be_u32 :: "byte list \<Rightarrow> nat \<Rightarrow> string \<Rightarrow> vb_error + u32" where
  "vb_read_be_u32 bytes offset name =
     (case slice bytes offset (offset + 4) of
        None \<Rightarrow> Inl (VbTruncated name)
      | Some v \<Rightarrow> Inr (u32_of_be (v ! 0) (v ! 1) (v ! 2) (v ! 3)))"

definition usize_le_field :: "byte list \<Rightarrow> nat \<Rightarrow> string \<Rightarrow> vb_error + nat" where
  "usize_le_field bytes offset name = bind_r (read_le_u32 bytes offset name) (\<lambda>v. Inr (unat v))"

definition vb_checked_add :: "nat \<Rightarrow> nat \<Rightarrow> string \<Rightarrow> vb_error + nat" where
  "vb_checked_add left right name =
     (if left + right < 2 ^ 64 then Inr (left + right) else Inl (VbOverflow name))"

definition vb_align_up :: "nat \<Rightarrow> nat \<Rightarrow> vb_error + nat" where
  "vb_align_up value alignment =
     (if value + (alignment - 1) < 2 ^ 64
      then Inr (unat ((of_nat (value + (alignment - 1)) :: u64) AND NOT (of_nat (alignment - 1))))
      else Inl VbAlignment)"

text \<open>\<open>&xs[a..b]\<close>, \<open>xs[a..b].fill(0)\<close> and \<open>xs[a..b].copy_from_slice(ys)\<close> with their panics.\<close>

definition index_range :: "byte list \<Rightarrow> nat \<Rightarrow> nat \<Rightarrow> vb_error + byte list" where
  "index_range xs a b = ok_or (slice xs a b) VbPanic"

definition fill_zero :: "byte list \<Rightarrow> nat \<Rightarrow> nat \<Rightarrow> vb_error + byte list" where
  "fill_zero xs a b =
     (if a \<le> b \<and> b \<le> length xs then Inr (write_at xs a (replicate (b - a) 0)) else Inl VbPanic)"

definition copy_into :: "byte list \<Rightarrow> nat \<Rightarrow> byte list \<Rightarrow> vb_error + byte list" where
  "copy_into xs a ys = (if a + length ys \<le> length xs then Inr (write_at xs a ys) else Inl VbPanic)"

section \<open>The data\<close>

record gpu_group_shape =
  shape_id :: u32
  level_count :: nat

record gpu_table_shape =
  shape_groups :: "gpu_group_shape list"

definition shape_of_table :: "gpu_table \<Rightarrow> gpu_table_shape" where
  "shape_of_table table = \<lparr>shape_groups =
     map (\<lambda>g. \<lparr>shape_id = group_id g, level_count = length (group_levels g)\<rparr>) (table_groups table)\<rparr>"

record vendor_boot_dtb_info =
  dtb_index :: nat
  dtb_model :: "string option"
  dtb_chip :: "string option"
  dtb_shape :: "gpu_table_shape option"
  dtb_table :: "gpu_table option"

record classified_dtb =
  cls_info :: vendor_boot_dtb_info
  structurally_matches :: bool

record range_parts =
  rp_start :: nat
  rp_end :: nat

definition rp_len :: "range_parts \<Rightarrow> nat" where
  "rp_len r = rp_end r - rp_start r"

record vendor_boot_layout =
  vb_page_size :: nat
  vb_dtb :: range_parts
  vb_ramdisk_table :: range_parts
  vb_bootconfig :: range_parts
  vb_used_end :: nat

section \<open>The layout\<close>

definition vb_image_ok :: "byte list \<Rightarrow> bool" where
  "vb_image_ok img \<longleftrightarrow>
     \<not> (length img < V4_HEADER_MIN_SIZE \<or> slice img 0 8 \<noteq> Some VENDOR_BOOT_MAGIC)"

definition vb_sections ::
    "nat \<Rightarrow> nat \<Rightarrow> nat \<Rightarrow> nat \<Rightarrow> nat \<Rightarrow> nat \<Rightarrow> nat \<Rightarrow> vb_error + vendor_boot_layout" where
  "vb_sections image_len page_size ramdisk_size header_size dtb_size table_size bootconfig_size =
     bind_r (vb_align_up header_size page_size) (\<lambda>ramdisk_start.
     bind_r (bind_r (vb_align_up ramdisk_size page_size)
       (\<lambda>n. vb_checked_add ramdisk_start n ''vendor_boot DTB offset'')) (\<lambda>dtb_start.
     bind_r (vb_checked_add dtb_start dtb_size ''vendor_boot DTB end'') (\<lambda>dtb_end.
     bind_r (bind_r (vb_align_up dtb_size page_size)
       (\<lambda>n. vb_checked_add dtb_start n ''vendor ramdisk table offset'')) (\<lambda>table_start.
     bind_r (vb_checked_add table_start table_size ''vendor ramdisk table end'') (\<lambda>table_end.
     bind_r (bind_r (vb_align_up table_size page_size)
       (\<lambda>n. vb_checked_add table_start n ''vendor bootconfig offset'')) (\<lambda>bootconfig_start.
     bind_r (vb_checked_add bootconfig_start bootconfig_size ''vendor bootconfig end'') (\<lambda>bootconfig_end.
     bind_r (bind_r (vb_align_up bootconfig_size page_size)
       (\<lambda>n. vb_checked_add bootconfig_start n ''vendor_boot logical end'')) (\<lambda>used_end.
     bind_r (ensure (\<not> used_end > image_len) (VbBeyondImage used_end image_len)) (\<lambda>_.
     Inr \<lparr>vb_page_size = page_size, vb_dtb = \<lparr>rp_start = dtb_start, rp_end = dtb_end\<rparr>,
       vb_ramdisk_table = \<lparr>rp_start = table_start, rp_end = table_end\<rparr>,
       vb_bootconfig = \<lparr>rp_start = bootconfig_start, rp_end = bootconfig_end\<rparr>,
       vb_used_end = used_end\<rparr>)))))))))"

definition parse_vendor_boot_layout :: "byte list \<Rightarrow> vb_error + vendor_boot_layout" where
  "parse_vendor_boot_layout img =
     bind_r (ensure (vb_image_ok img) VbInvalid) (\<lambda>_.
     bind_r (usize_le_field img 8 ''vendor_boot header version'') (\<lambda>version.
     bind_r (ensure (version = 4) (VbVersion version)) (\<lambda>_.
     bind_r (usize_le_field img 12 ''vendor_boot page size'') (\<lambda>page_size.
     bind_r (ensure (\<not> (page_size = 0 \<or> \<not> power_of_two page_size)) (VbPageSize page_size)) (\<lambda>_.
     bind_r (usize_le_field img 24 ''vendor ramdisk size'') (\<lambda>ramdisk_size.
     bind_r (usize_le_field img 2096 ''vendor_boot header size'') (\<lambda>header_size.
     bind_r (usize_le_field img DTB_SIZE_OFFSET ''vendor_boot DTB size'') (\<lambda>dtb_size.
     bind_r (usize_le_field img 2112 ''vendor ramdisk table size'') (\<lambda>table_size.
     bind_r (usize_le_field img 2124 ''vendor bootconfig size'') (\<lambda>bootconfig_size.
     bind_r (ensure (\<not> (header_size < V4_HEADER_MIN_SIZE \<or> header_size > page_size))
       (VbHeaderSize header_size)) (\<lambda>_.
     vb_sections (length img) page_size ramdisk_size header_size dtb_size table_size
       bootconfig_size)))))))))))"

definition vendor_boot_payload_end :: "byte list \<Rightarrow> vb_error + nat" where
  "vendor_boot_payload_end img = bind_r (parse_vendor_boot_layout img) (\<lambda>l. Inr (vb_used_end l))"

section \<open>The blobs of the DTB section\<close>

function fdt_ranges_loop :: "byte list \<Rightarrow> nat \<Rightarrow> vb_error + range_parts list" where
  "fdt_ranges_loop section position =
     (if position < length section then
        if \<forall>b \<in> set (drop position section). b = 0 then Inr []
        else
          case vb_read_be_u32 section position ''concatenated FDT magic'' of
            Inl e \<Rightarrow> Inl e
          | Inr magic \<Rightarrow>
              if magic \<noteq> 0xD00DFEED then Inl (VbBadMagic position)
              else
                case vb_read_be_u32 section (position + 4) ''concatenated FDT size'' of
                  Inl e \<Rightarrow> Inl e
                | Inr size' \<Rightarrow>
                    if unat size' < 40 then Inl (VbBadSize (unat size') position)
                    else
                      case vb_checked_add position (unat size') ''concatenated FDT end'' of
                        Inl e \<Rightarrow> Inl e
                      | Inr end \<Rightarrow>
                          if end > length section then Inl VbBlobBeyond
                          else bind_r (fdt_ranges_loop section end)
                            (\<lambda>rs. Inr (\<lparr>rp_start = position, rp_end = end\<rparr> # rs))
      else Inr [])"
  by pat_completeness auto
termination
  by (relation "measure (\<lambda>(section, position). length section - position)")
    (auto simp: vb_checked_add_def split: if_splits)

declare fdt_ranges_loop.simps [simp del]

definition fdt_ranges :: "byte list \<Rightarrow> vb_error + range_parts list" where
  "fdt_ranges section =
     bind_r (fdt_ranges_loop section 0) (\<lambda>ranges.
     bind_r (ensure (ranges \<noteq> []) VbNoBlobs) (\<lambda>_. Inr ranges))"

definition extract_vendor_boot_dtbs :: "byte list \<Rightarrow> vb_error + byte list list" where
  "extract_vendor_boot_dtbs img =
     bind_r (parse_vendor_boot_layout img) (\<lambda>layout.
     bind_r (index_range img (rp_start (vb_dtb layout)) (rp_end (vb_dtb layout))) (\<lambda>section.
     bind_r (fdt_ranges section) (\<lambda>ranges.
     try_map (\<lambda>r. index_range section (rp_start r) (rp_end r)) ranges)))"

section \<open>Inspection and classification\<close>

definition unanimous_chip :: "string list \<Rightarrow> string option" where
  "unanimous_chip chips =
     (case chips of
        [] \<Rightarrow> None
      | first # rest \<Rightarrow> if \<forall>chip \<in> set rest. chip = first then Some first else None)"

fun consensus_chip_from :: "string option \<Rightarrow> string list \<Rightarrow> vb_error + string option" where
  "consensus_chip_from consensus [] = Inr consensus"
| "consensus_chip_from consensus (chip # chips) =
     (case consensus of
        Some existing \<Rightarrow>
          if existing \<noteq> chip then Inl (VbChips existing chip)
          else consensus_chip_from consensus chips
      | None \<Rightarrow> consensus_chip_from (Some chip) chips)"

definition consensus_chip :: "string list \<Rightarrow> vb_error + string option" where
  "consensus_chip chips = consensus_chip_from None chips"

definition dtb_info_of :: "nat \<Rightarrow> fdt_gpu_info \<Rightarrow> vendor_boot_dtb_info" where
  "dtb_info_of index parsed =
     \<lparr>dtb_index = index, dtb_model = info_model parsed, dtb_chip = info_chip parsed,
       dtb_shape = map_option shape_of_table (info_table parsed), dtb_table = info_table parsed\<rparr>"

definition inspect_vendor_boot_dtbs_raw :: "byte list \<Rightarrow> vb_error + vendor_boot_dtb_info list" where
  "inspect_vendor_boot_dtbs_raw img =
     bind_r (parse_vendor_boot_layout img) (\<lambda>layout.
     bind_r (index_range img (rp_start (vb_dtb layout)) (rp_end (vb_dtb layout))) (\<lambda>section.
     bind_r (fdt_ranges section) (\<lambda>blobs.
     try_map (\<lambda>(index, r).
       bind_r (index_range img (rp_start (vb_dtb layout) + rp_start r)
         (rp_start (vb_dtb layout) + rp_end r)) (\<lambda>blob.
       bind_r (map_err VbFdt (parse_fdt_gpu_info blob)) (\<lambda>parsed.
       Inr (dtb_info_of index parsed)))) (enumerate 0 blobs))))"

definition inspect_vendor_boot_dtbs :: "byte list \<Rightarrow> vb_error + vendor_boot_dtb_info list" where
  "inspect_vendor_boot_dtbs img =
     bind_r (inspect_vendor_boot_dtbs_raw img) (\<lambda>infos.
     Inr (case unanimous_chip (List.map_filter dtb_chip infos) of
            Some chip \<Rightarrow>
              map (\<lambda>info. if dtb_chip info = None then info\<lparr>dtb_chip := Some chip\<rparr> else info) infos
          | None \<Rightarrow> infos))"

definition inspect_vendor_boot_gpu_candidates ::
    "byte list \<Rightarrow> vb_error + vendor_boot_dtb_info list" where
  "inspect_vendor_boot_gpu_candidates img =
     bind_r (inspect_vendor_boot_dtbs_raw img) (\<lambda>infos.
     Inr (filter (\<lambda>info. dtb_table info \<noteq> None \<and> dtb_chip info \<noteq> None) infos))"

definition classify_vendor_boot_dtbs ::
    "byte list \<Rightarrow> konabess_export \<Rightarrow> vb_error + classified_dtb list" where
  "classify_vendor_boot_dtbs img export =
     (let export_shape = shape_of_table (export_table export) in
     bind_r (inspect_vendor_boot_dtbs img) (\<lambda>infos.
     Inr (map (\<lambda>info. \<lparr>cls_info = info,
       structurally_matches = (dtb_shape info = Some export_shape)\<rparr>) infos)))"

section \<open>Rebuilding\<close>

definition rebuild_vendor_boot ::
    "byte list \<Rightarrow> vendor_boot_layout \<Rightarrow> byte list \<Rightarrow> vb_error + byte list" where
  "rebuild_vendor_boot img old new_dtb =
     bind_r (bind_r (vb_align_up (length new_dtb) (vb_page_size old))
       (\<lambda>n. vb_checked_add (rp_start (vb_dtb old)) n ''rebuilt vendor ramdisk table offset''))
       (\<lambda>new_table_start.
     bind_r (bind_r (vb_align_up (rp_len (vb_ramdisk_table old)) (vb_page_size old))
       (\<lambda>n. vb_checked_add new_table_start n ''rebuilt vendor bootconfig offset''))
       (\<lambda>new_bootconfig_start.
     bind_r (bind_r (vb_align_up (rp_len (vb_bootconfig old)) (vb_page_size old))
       (\<lambda>n. vb_checked_add new_bootconfig_start n ''rebuilt vendor_boot logical end''))
       (\<lambda>new_used_end.
     bind_r (ensure (\<not> new_used_end > length img) (VbCapacity new_used_end (length img))) (\<lambda>_.
     bind_r (if new_used_end > vb_used_end old
       then bind_r (index_range img (vb_used_end old) new_used_end)
         (\<lambda>trail. ensure (\<not> (\<exists>b \<in> set trail. b \<noteq> 0)) VbTrailing)
       else Inr ()) (\<lambda>_.
     bind_r (ensure (length new_dtb < 2 ^ 32) VbDtbTooBig) (\<lambda>_.
     let new_dtb_size = (of_nat (length new_dtb) :: u32) in
     bind_r (index_range img (rp_start (vb_ramdisk_table old)) (rp_end (vb_ramdisk_table old))) (\<lambda>table.
     bind_r (index_range img (rp_start (vb_bootconfig old)) (rp_end (vb_bootconfig old))) (\<lambda>bootconfig.
     let cleared_end = max (vb_used_end old) new_used_end in
     bind_r (fill_zero img (rp_start (vb_dtb old)) cleared_end) (\<lambda>o1.
     bind_r (copy_into o1 DTB_SIZE_OFFSET (u32_le new_dtb_size)) (\<lambda>o2.
     bind_r (copy_into o2 (rp_start (vb_dtb old)) new_dtb) (\<lambda>o3.
     bind_r (copy_into o3 new_table_start table) (\<lambda>o4.
     copy_into o4 new_bootconfig_start bootconfig))))))))))))"

definition section_chip_of ::
    "byte list \<Rightarrow> range_parts list \<Rightarrow> string option \<Rightarrow> vb_error + string option" where
  "section_chip_of old_dtb ranges target_chip =
     (if target_chip = None then
        bind_r (try_map (\<lambda>r.
          bind_r (index_range old_dtb (rp_start r) (rp_end r)) (\<lambda>blob.
          bind_r (map_err VbFdt (parse_fdt_gpu_info blob)) (\<lambda>info. Inr (info_chip info)))) ranges)
        (\<lambda>chips. consensus_chip (List.map_filter id chips))
      else Inr None)"

definition replace_vendor_boot_dtb ::
    "byte list \<Rightarrow> nat \<Rightarrow> konabess_export \<Rightarrow> vb_error + byte list" where
  "replace_vendor_boot_dtb img target_index export =
     bind_r (parse_vendor_boot_layout img) (\<lambda>layout.
     bind_r (index_range img (rp_start (vb_dtb layout)) (rp_end (vb_dtb layout))) (\<lambda>old_dtb.
     bind_r (fdt_ranges old_dtb) (\<lambda>ranges.
     bind_r (ensure (target_index < length ranges) (VbIndex target_index (length ranges))) (\<lambda>_.
     let target = ranges ! target_index in
     bind_r (index_range old_dtb (rp_start target) (rp_end target)) (\<lambda>target_blob.
     bind_r (map_err VbFdt (parse_fdt_gpu_info target_blob)) (\<lambda>target_info.
     bind_r (section_chip_of old_dtb ranges (info_chip target_info)) (\<lambda>section_chip.
     bind_r (map_err VbFdt (replace_fdt_gpu_table_with_chip target_blob export section_chip)) (\<lambda>replacement.
     bind_r (ensure (rp_len target \<le> length old_dtb \<and>
         length old_dtb - rp_len target + length replacement < 2 ^ 64)
       (VbOverflow ''rebuilt DTB section size'')) (\<lambda>_.
     bind_r (index_range old_dtb 0 (rp_start target)) (\<lambda>before.
     bind_r (index_range old_dtb (rp_end target) (length old_dtb)) (\<lambda>after.
     rebuild_vendor_boot img layout (before @ replacement @ after))))))))))))"

definition replace_vendor_boot_gpu_table ::
    "byte list \<Rightarrow> nat \<Rightarrow> string \<Rightarrow> gpu_table \<Rightarrow> vb_error + byte list" where
  "replace_vendor_boot_gpu_table img target_index chip table =
     replace_vendor_boot_dtb img target_index
       \<lparr>export_chip = chip, export_description = [], export_table = table\<rparr>"

end
