(* ===== verification/Alignment.thy ===== *)
theory Alignment
  imports Prelude
begin

text \<open>
  The contract the image formats rely on when they round an offset up to a page or a word: the least
  multiple of the unit that is not below the value, or an error when it does not fit. The component
  theories interpret it on their own \<open>align_up\<close>.
\<close>

definition page_up :: "nat \<Rightarrow> nat \<Rightarrow> nat" where
  "page_up u v = (v + (u - 1)) div u * u"

lemma page_up_spec: "0 < u \<Longrightarrow> v \<le> page_up u v \<and> page_up u v < v + u \<and> u dvd page_up u v"
proof -
  assume u: "0 < u"
  have "(v + (u - 1)) div u * u + (v + (u - 1)) mod u = v + (u - 1)" by simp
  moreover have "(v + (u - 1)) mod u < u" using u by simp
  ultimately have "v \<le> (v + (u - 1)) div u * u" "(v + (u - 1)) div u * u < v + u"
    using u by linarith+
  then show ?thesis unfolding page_up_def by (intro conjI dvd_triv_right)
qed

lemma dvd_window_unique:
  assumes "(u :: nat) dvd m" "u dvd n" "v \<le> m" "m < v + u" "v \<le> n" "n < v + u"
  shows "m = n"
proof -
  from assms(1,2) obtain a b where ab: "m = u * a" "n = u * b" by (auto elim!: dvdE)
  have "u * a < u * (b + 1)" "u * b < u * (a + 1)" using assms ab by (auto simp: algebra_simps)
  then have "a = b" unfolding mult_less_cancel1 by simp
  then show ?thesis by (simp add: ab)
qed

locale alignment =
  fixes align :: "nat \<Rightarrow> nat \<Rightarrow> 'e + nat" and unit_ok :: "nat \<Rightarrow> bool"
  assumes aligned: "unit_ok u \<Longrightarrow> align v u = Inr n \<Longrightarrow> v \<le> n \<and> n < v + u \<and> u dvd n"
    and fits: "unit_ok u \<Longrightarrow> v + u \<le> 2 ^ 64 \<Longrightarrow> \<exists>n. align v u = Inr n"
    and unit_pos: "unit_ok u \<Longrightarrow> 0 < u"
begin

lemma align_page_up: "unit_ok u \<Longrightarrow> align v u = Inr n \<Longrightarrow> n = page_up u v"
  using aligned [of u v n] page_up_spec [of u v] unit_pos [of u] by (blast intro: dvd_window_unique)

lemma align_Inr: "unit_ok u \<Longrightarrow> v + u \<le> 2 ^ 64 \<Longrightarrow> align v u = Inr (page_up u v)"
  using fits align_page_up by blast

lemma align_fixed: "unit_ok u \<Longrightarrow> u dvd v \<Longrightarrow> align v u = Inr n \<Longrightarrow> n = v"
  using aligned [of u v n] unit_pos [of u] by (blast intro: dvd_window_unique [of u n v v] order_refl less_add_same_cancel1 [THEN iffD2])

lemma align_least: "unit_ok u \<Longrightarrow> align v u = Inr n \<Longrightarrow> u dvd m \<Longrightarrow> v \<le> m \<Longrightarrow> n \<le> m"
  using aligned [of u v n] dvd_window_unique [of u m n v] by fastforce

lemma align_mono: "unit_ok u \<Longrightarrow> v \<le> w \<Longrightarrow> align v u = Inr n \<Longrightarrow> align w u = Inr m \<Longrightarrow> n \<le> m"
  using aligned [of u w m] align_least [of u v n m] by simp

end

end
