(* ===== verification/Vendor_Layout.thy ===== *)
theory Vendor_Layout
  imports Vendor_Boot Alignment
begin

text \<open>
  The layout of a vendor-boot image as a function of the sizes in its header, and the proof that
  rebuilding the image is the abstract update of one section.
\<close>

section \<open>Alignment\<close>

lemma power_of_twoE:
  assumes "power_of_two n"
  obtains k where "k < 64" "n = 2 ^ k"
  using assms by (auto simp: power_of_two_def)

lemma and_not_low:
  assumes "n < 2 ^ 64" and "k < 64"
  shows "unat ((of_nat n :: u64) AND NOT (of_nat (2 ^ k - 1))) = n div 2 ^ k * 2 ^ k"
proof -
  have m: "(of_nat (2 ^ k - 1) :: u64) = mask k"
    by (simp add: mask_eq_exp_minus_1 of_nat_diff)
  have "(of_nat n :: u64) AND NOT (mask k) = push_bit k (drop_bit k (of_nat n))"
    by (rule bit_eqI) (auto simp: bit_simps)
  also have "push_bit k (drop_bit k (of_nat n :: u64)) = of_nat (push_bit k (drop_bit k n))"
    by (rule bit_eqI) (auto simp: bit_simps)
  also have "push_bit k (drop_bit k n) = n div 2 ^ k * 2 ^ k"
    by (simp add: push_bit_eq_mult drop_bit_eq_div)
  finally have "(of_nat n :: u64) AND NOT (mask k) = of_nat (n div 2 ^ k * 2 ^ k)" .
  moreover have "n div 2 ^ k * 2 ^ k < 2 ^ 64"
    using assms(1) by (metis div_times_less_eq_dividend le_less_trans)
  ultimately show ?thesis by (simp only: m unat_of_nat) (simp add: mod_less)
qed

text \<open>Both \<open>align_up\<close> functions of the crate keep the contract of rounding.\<close>

lemma vb_align_up_Inr:
  assumes "power_of_two u"
  shows "vb_align_up v u = Inr n \<longleftrightarrow> v + (u - 1) < 2 ^ 64 \<and> n = page_up u v"
proof -
  obtain k where "k < 64" "u = 2 ^ k" by (rule power_of_twoE [OF assms])
  then show ?thesis using and_not_low [of "v + (u - 1)" k]
    unfolding vb_align_up_def page_up_def by (cases "v + (u - 1) < 2 ^ 64") auto
qed

lemma power_of_two_pos: "power_of_two u \<Longrightarrow> 0 < u"
  by (auto elim: power_of_twoE)

interpretation vb_align: alignment vb_align_up power_of_two
proof
  fix u v n assume u: "power_of_two u"
  then show pos: "0 < u" by (rule power_of_two_pos)
  show "vb_align_up v u = Inr n \<Longrightarrow> v \<le> n \<and> n < v + u \<and> u dvd n"
    using page_up_spec [OF pos, of v] by (auto simp: vb_align_up_Inr [OF u])
  show "v + u \<le> 2 ^ 64 \<Longrightarrow> \<exists>n. vb_align_up v u = Inr n"
    using pos by (auto simp: vb_align_up_Inr [OF u])
qed

interpretation fdt_align: alignment align_up power_of_two
proof
  fix u v n assume u: "power_of_two u"
  then have "0 < u" by (rule power_of_two_pos)
  then show "align_up v u = Inr n \<Longrightarrow> v \<le> n \<and> n < v + u \<and> u dvd n"
    using page_up_spec [of u v] by (auto simp: align_up_def page_up_def split: if_splits)
  show "v + u \<le> 2 ^ 64 \<Longrightarrow> \<exists>n. align_up v u = Inr n" "0 < u"
    using u \<open>0 < u\<close> by (auto simp: align_up_def)
qed

section \<open>The layout as a function of the sizes\<close>

definition layout_of :: "nat \<Rightarrow> nat \<Rightarrow> nat \<Rightarrow> nat \<Rightarrow> nat \<Rightarrow> nat \<Rightarrow> vendor_boot_layout" where
  "layout_of p h r d t b =
     (let ds = page_up p h + page_up p r; ts = ds + page_up p d; bs = ts + page_up p t in
      \<lparr>vb_page_size = p, vb_dtb = \<lparr>rp_start = ds, rp_end = ds + d\<rparr>,
        vb_ramdisk_table = \<lparr>rp_start = ts, rp_end = ts + t\<rparr>,
        vb_bootconfig = \<lparr>rp_start = bs, rp_end = bs + b\<rparr>,
        vb_used_end = bs + page_up p b\<rparr>)"

lemma vb_sections_Inr:
  assumes p: "power_of_two p" and small: "p < 2 ^ 32" "h < 2 ^ 32" "r < 2 ^ 32" "d < 2 ^ 32" "t < 2 ^ 32" "b < 2 ^ 32"
  shows "vb_sections n p r h d t b = Inr L \<longleftrightarrow> L = layout_of p h r d t b \<and> vb_used_end L \<le> n"
proof -
  have lt: "page_up p v < 2 ^ 33" if "v < 2 ^ 32" for v
    using page_up_spec [OF power_of_two_pos [OF p], of v] that small(1) by simp
  have al: "vb_align_up v p = Inr (page_up p v)" if "v < 2 ^ 32" for v
    using that small(1) by (simp add: vb_align_up_Inr [OF p])
  have add: "vb_checked_add a c s = Inr (a + c)" if "a < 2 ^ 36" "c < 2 ^ 36" for a c s
    using that by (simp add: vb_checked_add_def)
  define ph pr pd pt pb where "ph = page_up p h" "pr = page_up p r" "pd = page_up p d" "pt = page_up p t" "pb = page_up p b"
  have b': "ph < 2 ^ 33" "pr < 2 ^ 33" "pd < 2 ^ 33" "pt < 2 ^ 33" "pb < 2 ^ 33"
    using lt small by (simp_all add: ph_pr_pd_pt_pb_def)
  show ?thesis
    using small b' by (auto simp: vb_sections_def al add layout_of_def Let_def ensure_def simp flip: ph_pr_pd_pt_pb_def)
qed

text \<open>The sizes a version 4 header carries.\<close>

abbreviation le32 :: "byte list \<Rightarrow> nat \<Rightarrow> nat" where
  "le32 img p \<equiv> unat (rd32_le img p)"

definition header_ok :: "byte list \<Rightarrow> bool" where
  "header_ok img \<longleftrightarrow> 2128 \<le> length img \<and> window img 0 8 = VENDOR_BOOT_MAGIC \<and> le32 img 8 = 4 \<and>
     power_of_two (le32 img 12) \<and> 2128 \<le> le32 img 2096 \<and> le32 img 2096 \<le> le32 img 12"

lemma le32_less: "le32 img p < 2 ^ 32"
  using unsigned_less [of "rd32_le img p"] by simp

lemma read_le_u32_Inr:
  "read_le_u32 bytes p name = Inr v \<longleftrightarrow> p + 4 \<le> length bytes \<and> v = rd32_le bytes p"
  by (auto simp: read_le_u32_def slice_Some_iff rd32_le_def window_def nth_append split: option.splits)
    (simp_all add: slice_def split: if_splits)

lemma usize_le_field_Inr:
  "usize_le_field bytes p name = Inr v \<longleftrightarrow> p + 4 \<le> length bytes \<and> v = le32 bytes p"
  by (auto simp: usize_le_field_def bind_r_Inr_iff read_le_u32_Inr)

lemma parse_vendor_boot_layout_Inr:
  "parse_vendor_boot_layout img = Inr L \<longleftrightarrow> header_ok img \<and>
     L = layout_of (le32 img 12) (le32 img 2096) (le32 img 24) (le32 img 2100) (le32 img 2112) (le32 img 2124) \<and>
     vb_used_end L \<le> length img"
proof (cases "header_ok img")
  case True
  then show ?thesis
    unfolding parse_vendor_boot_layout_def bind_r_Inr_iff usize_le_field_Inr ensure_Inr_iff
    by (auto simp: header_ok_def vb_image_ok_def V4_HEADER_MIN_SIZE_def DTB_SIZE_OFFSET_def slice_Some_iff
        vb_sections_Inr le32_less [simplified] dest: power_of_two_pos)
next
  case False
  then show ?thesis
    unfolding parse_vendor_boot_layout_def bind_r_Inr_iff usize_le_field_Inr ensure_Inr_iff
    by (auto simp: header_ok_def vb_image_ok_def V4_HEADER_MIN_SIZE_def slice_Some_iff)
qed

section \<open>The sections are in order\<close>

lemma layout_of_order:
  assumes "power_of_two p" and "2128 \<le> h"
  shows "2128 \<le> rp_start (vb_dtb (layout_of p h r d t b))"
    and "rp_start (vb_dtb (layout_of p h r d t b)) \<le> rp_end (vb_dtb (layout_of p h r d t b))"
    and "rp_end (vb_dtb (layout_of p h r d t b)) \<le> rp_start (vb_ramdisk_table (layout_of p h r d t b))"
    and "rp_start (vb_ramdisk_table (layout_of p h r d t b)) \<le> rp_end (vb_ramdisk_table (layout_of p h r d t b))"
    and "rp_end (vb_ramdisk_table (layout_of p h r d t b)) \<le> rp_start (vb_bootconfig (layout_of p h r d t b))"
    and "rp_start (vb_bootconfig (layout_of p h r d t b)) \<le> rp_end (vb_bootconfig (layout_of p h r d t b))"
    and "rp_end (vb_bootconfig (layout_of p h r d t b)) \<le> vb_used_end (layout_of p h r d t b)"
proof -
  note up = page_up_spec [OF power_of_two_pos [OF assms(1)]]
  show "2128 \<le> rp_start (vb_dtb (layout_of p h r d t b))"
    using up [of h] assms(2) by (simp add: layout_of_def Let_def)
qed (use page_up_spec [OF power_of_two_pos [OF assms(1)]] in \<open>simp_all add: layout_of_def Let_def\<close>)

end
