(* ===== verification/Vendor_Rebuild.thy ===== *)
theory Vendor_Rebuild
  imports Vendor_Layout
begin

text \<open>
  Rebuilding a vendor-boot image around a new DTB section: when it succeeds, what the image holds
  afterwards, and that no slice or copy of it can panic.
\<close>

section \<open>The image that is written\<close>

definition new_layout :: "byte list \<Rightarrow> nat \<Rightarrow> vendor_boot_layout" where
  "new_layout img n =
     layout_of (le32 img 12) (le32 img 2096) (le32 img 24) n (le32 img 2112) (le32 img 2124)"

definition written :: "byte list \<Rightarrow> vendor_boot_layout \<Rightarrow> vendor_boot_layout \<Rightarrow> byte list \<Rightarrow> byte list" where
  "written img L L' new =
     (let ds = rp_start (vb_dtb L);
          o1 = write_at img ds (replicate (max (vb_used_end L) (vb_used_end L') - ds) 0);
          o2 = write_at o1 2100 (u32_le (of_nat (length new)));
          o3 = write_at o2 ds new;
          o4 = write_at o3 (rp_start (vb_ramdisk_table L'))
            (window img (rp_start (vb_ramdisk_table L)) (rp_end (vb_ramdisk_table L)))
      in write_at o4 (rp_start (vb_bootconfig L'))
           (window img (rp_start (vb_bootconfig L)) (rp_end (vb_bootconfig L))))"

text \<open>The side conditions of the rebuilding, as the code states them.\<close>

definition room_for :: "byte list \<Rightarrow> vendor_boot_layout \<Rightarrow> vendor_boot_layout \<Rightarrow> bool" where
  "room_for img L L' \<longleftrightarrow> vb_used_end L' \<le> length img \<and>
     (\<forall>i. vb_used_end L \<le> i \<and> i < vb_used_end L' \<longrightarrow> img ! i = 0)"

lemma parse_layout_facts:
  assumes "parse_vendor_boot_layout img = Inr L"
  shows "header_ok img" and "L = new_layout img (le32 img 2100)" and "vb_used_end L \<le> length img"
    and "power_of_two (le32 img 12)" and "2128 \<le> le32 img 2096"
  using assms by (auto simp: parse_vendor_boot_layout_Inr new_layout_def header_ok_def)

lemma new_layout_order:
  assumes "header_ok img"
  shows "2128 \<le> rp_start (vb_dtb (new_layout img n))"
    and "rp_start (vb_dtb (new_layout img n)) \<le> rp_end (vb_dtb (new_layout img n))"
    and "rp_end (vb_dtb (new_layout img n)) \<le> rp_start (vb_ramdisk_table (new_layout img n))"
    and "rp_start (vb_ramdisk_table (new_layout img n)) \<le> rp_end (vb_ramdisk_table (new_layout img n))"
    and "rp_end (vb_ramdisk_table (new_layout img n)) \<le> rp_start (vb_bootconfig (new_layout img n))"
    and "rp_start (vb_bootconfig (new_layout img n)) \<le> rp_end (vb_bootconfig (new_layout img n))"
    and "rp_end (vb_bootconfig (new_layout img n)) \<le> vb_used_end (new_layout img n)"
  using assms unfolding new_layout_def by (auto simp: header_ok_def intro!: layout_of_order)

lemma new_layout_simps:
  "rp_start (vb_dtb (new_layout img n)) = rp_start (vb_dtb (new_layout img m))"
  "rp_end (vb_dtb (new_layout img n)) = rp_start (vb_dtb (new_layout img n)) + n"
  "rp_len (vb_ramdisk_table (new_layout img n)) = le32 img 2112"
  "rp_len (vb_bootconfig (new_layout img n)) = le32 img 2124"
  "rp_end (vb_ramdisk_table (new_layout img n)) = rp_start (vb_ramdisk_table (new_layout img n)) + le32 img 2112"
  "rp_end (vb_bootconfig (new_layout img n)) = rp_start (vb_bootconfig (new_layout img n)) + le32 img 2124"
  "vb_page_size (new_layout img n) = le32 img 12"
  "rp_start (vb_ramdisk_table (new_layout img n)) = rp_start (vb_dtb (new_layout img n)) + page_up (le32 img 12) n"
  "rp_start (vb_bootconfig (new_layout img n)) =
     rp_start (vb_ramdisk_table (new_layout img n)) + page_up (le32 img 12) (le32 img 2112)"
  "vb_used_end (new_layout img n) =
     rp_start (vb_bootconfig (new_layout img n)) + page_up (le32 img 12) (le32 img 2124)"
  by (simp_all add: new_layout_def layout_of_def Let_def rp_len_def)

lemma window_all_iff:
  "b \<le> length xs \<Longrightarrow> (\<forall>x \<in> set (window xs a b). P x) \<longleftrightarrow> (\<forall>i. a \<le> i \<and> i < b \<longrightarrow> P (xs ! i))"
proof -
  assume b: "b \<le> length xs"
  have "(\<forall>x \<in> set (window xs a b). P x) \<longleftrightarrow> (\<forall>i < b - a. P (xs ! (a + i)))"
    using b by (simp add: all_set_conv_all_nth nth_window)
  also have "\<dots> \<longleftrightarrow> (\<forall>i. a \<le> i \<and> i < b \<longrightarrow> P (xs ! i))"
  proof (intro iffI allI impI)
    fix i assume h: "\<forall>i < b - a. P (xs ! (a + i))" and i: "a \<le> i \<and> i < b"
    then have "P (xs ! (a + (i - a)))" by (intro h [rule_format] diff_less_mono) simp_all
    then show "P (xs ! i)" using i by simp
  qed simp
  finally show ?thesis .
qed

lemma index_range_Inr: "index_range xs a b = Inr ys \<longleftrightarrow> a \<le> b \<and> b \<le> length xs \<and> ys = window xs a b"
  by (simp add: index_range_def ok_or_Inr_iff slice_Some_iff)

lemma copy_into_Inr: "copy_into xs a ys = Inr zs \<longleftrightarrow> a + length ys \<le> length xs \<and> zs = write_at xs a ys"
  by (auto simp: copy_into_def)

lemma fill_zero_Inr:
  "fill_zero xs a b = Inr zs \<longleftrightarrow> a \<le> b \<and> b \<le> length xs \<and> zs = write_at xs a (replicate (b - a) 0)"
  by (auto simp: fill_zero_def)

lemma vb_checked_add_Inr: "vb_checked_add a b s = Inr n \<longleftrightarrow> a + b < 2 ^ 64 \<and> n = a + b"
  by (auto simp: vb_checked_add_def)

text \<open>
  The rebuilding succeeds exactly when the new layout has room, and then writes \<open>written\<close>; it never
  panics.
\<close>

lemma rebuild_vendor_boot_Inr:
  assumes L: "parse_vendor_boot_layout img = Inr L" and L': "L' = new_layout img (length new)"
    and len: "length img < 2 ^ 64" and new: "length new < 2 ^ 32"
  shows "rebuild_vendor_boot img L new = Inr out \<longleftrightarrow> room_for img L L' \<and> out = written img L L' new"
    and "rebuild_vendor_boot img L new \<noteq> Inl VbPanic"
proof -
  note H = parse_layout_facts [OF L]
  note ord = new_layout_order [OF H(1), of "le32 img 2100", folded H(2)]
  note ord' = new_layout_order [OF H(1), of "length new", folded L']
  note S = new_layout_simps(2-) [of img "le32 img 2100", folded H(2)]
  note S' = new_layout_simps(2-) [of img "length new", folded L']
  have ds: "rp_start (vb_dtb L') = rp_start (vb_dtb L)" using new_layout_simps(1) [of img] H(2) L' by simp
  have p: "le32 img 12 < 2 ^ 32" by (rule le32_less)
  have al: "vb_align_up v (le32 img 12) = Inr (page_up (le32 img 12) v)" if "v < 2 ^ 32" for v
    using that p by (simp add: vb_align_up_Inr [OF H(4)])
  have up: "page_up (le32 img 12) v < 2 ^ 33" if "v < 2 ^ 32" for v
    using page_up_spec [OF power_of_two_pos [OF H(4)], of v] that p by simp
  have "rp_start (vb_dtb L) = page_up (le32 img 12) (le32 img 2096) + page_up (le32 img 12) (le32 img 24)"
    by (simp add: H(2) new_layout_def layout_of_def Let_def)
  then have start: "rp_start (vb_dtb L) < 2 ^ 34"
    using up [OF le32_less [of img 2096]] up [OF le32_less [of img 24]] by simp
  have add: "vb_checked_add a b s = Inr (a + b)" if "a < 2 ^ 36" "b < 2 ^ 36" for a b s
    using that by (simp add: vb_checked_add_def)
  note ups = up [OF new] up [OF le32_less [of img 2112]] up [OF le32_less [of img 2124]]
  have bound: "rp_start (vb_ramdisk_table L') < 2 ^ 36" "rp_start (vb_bootconfig L') < 2 ^ 36"
    using start ups by (simp_all add: S' ds)
  have tab: "index_range img (rp_start (vb_ramdisk_table L)) (rp_end (vb_ramdisk_table L)) =
      Inr (window img (rp_start (vb_ramdisk_table L)) (rp_end (vb_ramdisk_table L)))"
    and boot: "index_range img (rp_start (vb_bootconfig L)) (rp_end (vb_bootconfig L)) =
      Inr (window img (rp_start (vb_bootconfig L)) (rp_end (vb_bootconfig L)))"
    using ord H(3) by (simp_all add: index_range_Inr)
  have tl: "length (window img (rp_start (vb_ramdisk_table L)) (rp_end (vb_ramdisk_table L))) = le32 img 2112"
    and bl: "length (window img (rp_start (vb_bootconfig L)) (rp_end (vb_bootconfig L))) = le32 img 2124"
    using ord H(3) S by simp_all
  have e1: "bind_r (vb_align_up (length new) (vb_page_size L)) (\<lambda>n. vb_checked_add (rp_start (vb_dtb L)) n s) =
      Inr (rp_start (vb_ramdisk_table L'))" for s
    using start ups by (simp only: S S' al [OF new] bind_r_simps ds) (simp add: add)
  have e2: "bind_r (vb_align_up (rp_len (vb_ramdisk_table L)) (vb_page_size L))
      (\<lambda>n. vb_checked_add (rp_start (vb_ramdisk_table L')) n s) = Inr (rp_start (vb_bootconfig L'))" for s
    using bound ups by (simp only: S S'(2-4,6-) al [OF le32_less] bind_r_simps) (simp add: add S')
  have e3: "bind_r (vb_align_up (rp_len (vb_bootconfig L)) (vb_page_size L))
      (\<lambda>n. vb_checked_add (rp_start (vb_bootconfig L')) n s) = Inr (vb_used_end L')" for s
    using bound ups by (simp only: S S'(2,3,6,9) al [OF le32_less] bind_r_simps) (simp add: add S')
  have ensure_new: "ensure (length new < 2 ^ 32) VbDtbTooBig = Inr ()" using new by simp
  have unfold: "rebuild_vendor_boot img L new =
    bind_r (ensure (\<not> vb_used_end L' > length img) (VbCapacity (vb_used_end L') (length img))) (\<lambda>_.
    bind_r (if vb_used_end L' > vb_used_end L
       then bind_r (index_range img (vb_used_end L) (vb_used_end L'))
         (\<lambda>trail. ensure (\<not> (\<exists>b \<in> set trail. b \<noteq> 0)) VbTrailing)
       else Inr ()) (\<lambda>_.
    bind_r (fill_zero img (rp_start (vb_dtb L)) (max (vb_used_end L) (vb_used_end L'))) (\<lambda>o1.
    bind_r (copy_into o1 2100 (u32_le (of_nat (length new)))) (\<lambda>o2.
    bind_r (copy_into o2 (rp_start (vb_dtb L)) new) (\<lambda>o3.
    bind_r (copy_into o3 (rp_start (vb_ramdisk_table L'))
      (window img (rp_start (vb_ramdisk_table L)) (rp_end (vb_ramdisk_table L)))) (\<lambda>o4.
    copy_into o4 (rp_start (vb_bootconfig L'))
      (window img (rp_start (vb_bootconfig L)) (rp_end (vb_bootconfig L)))))))))"
    unfolding rebuild_vendor_boot_def e1 e2 e3 bind_r_simps tab boot Let_def DTB_SIZE_OFFSET_def
      ensure_new ..
  have copies: "bind_r (fill_zero img (rp_start (vb_dtb L)) (max (vb_used_end L) (vb_used_end L'))) (\<lambda>o1.
    bind_r (copy_into o1 2100 (u32_le (of_nat (length new)))) (\<lambda>o2.
    bind_r (copy_into o2 (rp_start (vb_dtb L)) new) (\<lambda>o3.
    bind_r (copy_into o3 (rp_start (vb_ramdisk_table L'))
      (window img (rp_start (vb_ramdisk_table L)) (rp_end (vb_ramdisk_table L)))) (\<lambda>o4.
    copy_into o4 (rp_start (vb_bootconfig L'))
      (window img (rp_start (vb_bootconfig L)) (rp_end (vb_bootconfig L))))))) = Inr (written img L L' new)"
    if "vb_used_end L' \<le> length img"
  proof -
    define m where "m = max (vb_used_end L) (vb_used_end L')"
    have m: "m \<le> length img" "rp_start (vb_dtb L) \<le> m" using that ord H(3) by (simp_all add: m_def)
    have e: "rp_start (vb_dtb L) + length new \<le> length img"
      "rp_start (vb_ramdisk_table L') + le32 img 2112 \<le> length img"
      "rp_start (vb_bootconfig L') + le32 img 2124 \<le> length img" "2104 \<le> length img"
      using that ord' S'(1,4,5) ord ds by simp_all
    show ?thesis
      unfolding m_def [symmetric] using m e tl bl
      by (simp add: bind_r_Inr_iff fill_zero_Inr copy_into_Inr) (simp add: written_def Let_def m_def)
  qed
  have zeros: "(\<forall>b \<in> set (window img (vb_used_end L) (vb_used_end L')). b = 0) \<longleftrightarrow>
      (\<forall>i. vb_used_end L \<le> i \<and> i < vb_used_end L' \<longrightarrow> img ! i = 0)" if "vb_used_end L' \<le> length img"
    using that by (rule window_all_iff)
  show "rebuild_vendor_boot img L new = Inr out \<longleftrightarrow> room_for img L L' \<and> out = written img L L' new"
    "rebuild_vendor_boot img L new \<noteq> Inl VbPanic"
  proof (goal_cases)
    case 1
    show ?case
    proof (cases "vb_used_end L' \<le> length img")
      case True
      then show ?thesis
        unfolding unfold copies [OF True] room_for_def zeros [OF True, symmetric]
        by (auto simp: index_range_def slice_Some_iff ensure_def slice_def window_def split: if_splits)
    qed (simp add: unfold room_for_def)
  next
    case 2
    show ?case
    proof (cases "vb_used_end L' \<le> length img")
      case True
      then show ?thesis
        unfolding unfold copies [OF True]
        by (auto simp: index_range_def slice_def ensure_def)
    qed (simp add: unfold)
  qed
qed

section \<open>What the written image holds\<close>

lemma rebuild_size: "rebuild_vendor_boot img L new = Inr out \<Longrightarrow> length new < 2 ^ 32"
  unfolding rebuild_vendor_boot_def bind_r_Inr_iff ensure_Inr_iff by blast

lemma rd32_le_eq_window:
  assumes "p + 4 \<le> length xs" and "p + 4 \<le> length ys" and "window xs p (p + 4) = window ys p (p + 4)"
  shows "rd32_le xs p = rd32_le ys p"
  using assms by (simp add: rd32_le_window [of p xs] rd32_le_window [of p ys])

lemma written_windows:
  assumes L: "parse_vendor_boot_layout img = Inr L" and L': "L' = new_layout img (length new)"
    and cap: "vb_used_end L' \<le> length img" and out: "out = written img L L' new"
  shows "length out = length img"
    and "b \<le> rp_start (vb_dtb L) \<Longrightarrow> b \<le> 2100 \<or> 2104 \<le> a \<Longrightarrow> window out a b = window img a b"
    and "window out 2100 2104 = u32_le (of_nat (length new))"
    and "window out (rp_start (vb_dtb L')) (rp_end (vb_dtb L')) = new"
    and "window out (rp_start (vb_ramdisk_table L')) (rp_end (vb_ramdisk_table L')) =
      window img (rp_start (vb_ramdisk_table L)) (rp_end (vb_ramdisk_table L))"
    and "window out (rp_start (vb_bootconfig L')) (rp_end (vb_bootconfig L')) =
      window img (rp_start (vb_bootconfig L)) (rp_end (vb_bootconfig L))"
    and "max (vb_used_end L) (vb_used_end L') \<le> a \<Longrightarrow> b \<le> length img \<Longrightarrow> window out a b = window img a b"
proof -
  note H = parse_layout_facts [OF L]
  note ord = new_layout_order [OF H(1), of "le32 img 2100", folded H(2)]
  note ord' = new_layout_order [OF H(1), of "length new", folded L']
  have ds: "rp_start (vb_dtb L') = rp_start (vb_dtb L)"
    using new_layout_simps(1) [of img "length new" "le32 img 2100"] by (simp add: H(2) L')
  define m where "m = max (vb_used_end L) (vb_used_end L')"
  define T where "T = window img (rp_start (vb_ramdisk_table L)) (rp_end (vb_ramdisk_table L))"
  define B where "B = window img (rp_start (vb_bootconfig L)) (rp_end (vb_bootconfig L))"
  define o1 where "o1 = write_at img (rp_start (vb_dtb L)) (replicate (m - rp_start (vb_dtb L)) 0)"
  define o2 where "o2 = write_at o1 2100 (u32_le (of_nat (length new)))"
  define o3 where "o3 = write_at o2 (rp_start (vb_dtb L)) new"
  define o4 where "o4 = write_at o3 (rp_start (vb_ramdisk_table L')) T"
  have out': "out = write_at o4 (rp_start (vb_bootconfig L')) B"
    unfolding out written_def Let_def o1_def o2_def o3_def o4_def m_def T_def B_def ..
  have m: "m \<le> length img" "rp_start (vb_dtb L) \<le> m" "vb_used_end L' \<le> m"
    using cap ord H(3) by (simp_all add: m_def)
  have TL: "rp_start (vb_ramdisk_table L') + length T = rp_end (vb_ramdisk_table L')"
    using ord H(3) new_layout_simps(5) [of img "le32 img 2100"] new_layout_simps(5) [of img "length new"]
    by (simp add: T_def L' flip: H(2))
  have BL: "rp_start (vb_bootconfig L') + length B = rp_end (vb_bootconfig L')"
    using ord H(3) new_layout_simps(6) [of img "le32 img 2100"] new_layout_simps(6) [of img "length new"]
    by (simp add: B_def L' flip: H(2))
  have DL: "rp_start (vb_dtb L) + length new = rp_end (vb_dtb L')"
    using new_layout_simps(2) [of img "length new"] ds by (simp add: L')
  have l1: "length o1 = length img" using m by (simp add: o1_def)
  have l2: "length o2 = length img" using m ord(1) l1 by (simp add: o2_def)
  have l3: "length o3 = length img" using m ord' DL l2 by (simp add: o3_def)
  have l4: "length o4 = length img" using m ord' TL l3 by (simp add: o4_def)
  show len: "length out = length img" using m ord' BL l4 by (simp add: out')
  have w5: "window out a b = window o4 a b"
    if "b \<le> length img" "b \<le> rp_start (vb_bootconfig L') \<or> rp_end (vb_bootconfig L') \<le> a" for a b
    unfolding out' using that m ord' l4 BL by (intro window_write_at_other) simp_all
  have w4: "window o4 a b = window o3 a b"
    if "b \<le> length img" "b \<le> rp_start (vb_ramdisk_table L') \<or> rp_end (vb_ramdisk_table L') \<le> a" for a b
    unfolding o4_def using that m ord' l3 TL by (intro window_write_at_other) simp_all
  have w3: "window o3 a b = window o2 a b"
    if "b \<le> length img" "b \<le> rp_start (vb_dtb L) \<or> rp_end (vb_dtb L') \<le> a" for a b
    unfolding o3_def using that m ord' l2 DL by (intro window_write_at_other) simp_all
  have w2: "window o2 a b = window o1 a b" if "b \<le> length img" "b \<le> 2100 \<or> 2104 \<le> a" for a b
    unfolding o2_def using that m ord l1 by (intro window_write_at_other) simp_all
  have w1: "window o1 a b = window img a b" if "b \<le> length img" "b \<le> rp_start (vb_dtb L) \<or> m \<le> a" for a b
    unfolding o1_def using that m by (intro window_write_at_other) simp_all
  show "b \<le> rp_start (vb_dtb L) \<Longrightarrow> b \<le> 2100 \<or> 2104 \<le> a \<Longrightarrow> window out a b = window img a b"
    using m ord' ds by (simp add: w5 w4 w3 w2 w1)
  show "max (vb_used_end L) (vb_used_end L') \<le> a \<Longrightarrow> b \<le> length img \<Longrightarrow> window out a b = window img a b"
    using m ord ord' by (simp add: w5 w4 w3 w2 w1 m_def)
  have "window out 2100 2104 = window o2 2100 2104"
    using m ord ord' ds by (simp add: w5 w4 w3)
  then show "window out 2100 2104 = u32_le (of_nat (length new))"
    using window_write_at_same [of 2100 "u32_le (of_nat (length new))" o1] m ord l1 by (simp add: o2_def)
  have "window out (rp_start (vb_dtb L')) (rp_end (vb_dtb L')) = window o3 (rp_start (vb_dtb L')) (rp_end (vb_dtb L'))"
    using m ord ord' ds by (simp add: w5 w4)
  then show "window out (rp_start (vb_dtb L')) (rp_end (vb_dtb L')) = new"
    using window_write_at_same [of "rp_start (vb_dtb L)" new o2] m ord' ds DL l2 by (simp add: o3_def)
  have "window out (rp_start (vb_ramdisk_table L')) (rp_end (vb_ramdisk_table L')) =
      window o4 (rp_start (vb_ramdisk_table L')) (rp_end (vb_ramdisk_table L'))"
    using m ord' by (simp add: w5)
  then show "window out (rp_start (vb_ramdisk_table L')) (rp_end (vb_ramdisk_table L')) =
      window img (rp_start (vb_ramdisk_table L)) (rp_end (vb_ramdisk_table L))"
    using window_write_at_same [of "rp_start (vb_ramdisk_table L')" T o3] m ord' TL l3 by (simp add: o4_def T_def)
  show "window out (rp_start (vb_bootconfig L')) (rp_end (vb_bootconfig L')) =
      window img (rp_start (vb_bootconfig L)) (rp_end (vb_bootconfig L))"
    using window_write_at_same [of "rp_start (vb_bootconfig L')" B o4] m ord' BL l4 by (simp add: out' B_def)
qed

section \<open>The abstract contents\<close>

text \<open>
  What a vendor-boot image promises its readers: the bytes in front of the DTB section (header and
  ramdisk) without the DTB size field, and the bytes of the three sections behind.
\<close>

record vb_contents =
  vc_front :: "byte list \<times> byte list"
  vc_dtb :: "byte list"
  vc_table :: "byte list"
  vc_bootconfig :: "byte list"

definition contents_of :: "byte list \<Rightarrow> vendor_boot_layout \<Rightarrow> vb_contents" where
  "contents_of img L =
     \<lparr>vc_front = (window img 0 2100, window img 2104 (rp_start (vb_dtb L))),
       vc_dtb = window img (rp_start (vb_dtb L)) (rp_end (vb_dtb L)),
       vc_table = window img (rp_start (vb_ramdisk_table L)) (rp_end (vb_ramdisk_table L)),
       vc_bootconfig = window img (rp_start (vb_bootconfig L)) (rp_end (vb_bootconfig L))\<rparr>"

lemma written_layout:
  assumes L: "parse_vendor_boot_layout img = Inr L" and L': "L' = new_layout img (length new)"
    and cap: "vb_used_end L' \<le> length img" and out: "out = written img L L' new"
    and new: "length new < 2 ^ 32"
  shows "parse_vendor_boot_layout out = Inr L'"
proof -
  note H = parse_layout_facts [OF L]
  note W = written_windows [OF L L' cap out]
  have ds: "2128 \<le> rp_start (vb_dtb L)" using new_layout_order(1) [OF H(1), of "le32 img 2100"] H(2) by simp
  have len: "2128 \<le> length img" using H(1) by (simp add: header_ok_def)
  have f: "le32 out q = le32 img q" if "q + 4 \<le> 2100 \<or> 2104 \<le> q \<and> q + 4 \<le> 2128" for q
    using that W(1,2) ds len by (intro arg_cong [of _ _ unat] rd32_le_eq_window) auto
  have "rd32_le out 2100 = of_nat (length new)"
    using W(1,3) len rd32_le_window [of 2100 out] by simp
  then have dtb: "le32 out 2100 = length new"
    using new by (simp add: unat_of_nat take_bit_nat_eq_self)
  have "window out 0 8 = window img 0 8" using W(2) [of 8 0] ds by simp
  then have "header_ok out" using H(1) W(1) f [of 8] f [of 12] f [of 2096] by (simp add: header_ok_def)
  moreover have "L' = new_layout out (le32 out 2100)"
    using f [of 12] f [of 2096] f [of 24] f [of 2112] f [of 2124] by (simp add: L' new_layout_def dtb)
  ultimately show ?thesis
    using cap W(1) by (simp add: parse_vendor_boot_layout_Inr new_layout_def)
qed

text \<open>Rebuilding is the update of the DTB section, and nothing nonzero behind the image is touched.\<close>

lemma rebuild_refines:
  assumes L: "parse_vendor_boot_layout img = Inr L" and r: "rebuild_vendor_boot img L new = Inr out"
    and len: "length img < 2 ^ 64"
  shows "length out = length img" and "parse_vendor_boot_layout out = Inr (new_layout img (length new))"
    and "contents_of out (new_layout img (length new)) = (contents_of img L)\<lparr>vc_dtb := new\<rparr>"
    and "\<forall>i. vb_used_end L \<le> i \<and> i < length img \<and> img ! i \<noteq> 0 \<longrightarrow> out ! i = img ! i"
proof -
  let ?L' = "new_layout img (length new)"
  have new: "length new < 2 ^ 32" by (rule rebuild_size [OF r])
  have room: "room_for img L ?L'" and out: "out = written img L ?L' new"
    using r unfolding rebuild_vendor_boot_Inr(1) [OF L refl len new] by simp_all
  have cap: "vb_used_end ?L' \<le> length img" using room by (simp add: room_for_def)
  note H = parse_layout_facts [OF L]
  note W = written_windows [OF L refl cap out]
  show "length out = length img" by (rule W(1))
  show "parse_vendor_boot_layout out = Inr ?L'" by (rule written_layout [OF L refl cap out new])
  have ds: "rp_start (vb_dtb ?L') = rp_start (vb_dtb L)"
    using new_layout_simps(1) [of img "length new" "le32 img 2100"] by (simp add: H(2))
  have "2128 \<le> rp_start (vb_dtb L)" using new_layout_order(1) [OF H(1), of "le32 img 2100"] H(2) by simp
  then show "contents_of out ?L' = (contents_of img L)\<lparr>vc_dtb := new\<rparr>"
    by (simp add: contents_of_def W(2,4-6) ds)
      (simp add: W(2,4) flip: ds)
  show "\<forall>i. vb_used_end L \<le> i \<and> i < length img \<and> img ! i \<noteq> 0 \<longrightarrow> out ! i = img ! i"
  proof (intro allI impI)
    fix i assume i: "vb_used_end L \<le> i \<and> i < length img \<and> img ! i \<noteq> 0"
    then have "max (vb_used_end L) (vb_used_end ?L') \<le> i"
      using room by (auto simp: room_for_def not_less [symmetric])
    then have "window out i (Suc i) = window img i (Suc i)" using i by (intro W(7)) simp_all
    then show "out ! i = img ! i"
      using i nth_window [of 0 "Suc i" i out] nth_window [of 0 "Suc i" i img] W(1) by simp
  qed
qed

end
