(* ===== verification/Vendor_Dtb.thy ===== *)
theory Vendor_Dtb
  imports Vendor_Rebuild Fdt_Replace
begin

text \<open>
  The concatenated device trees of the DTB section: the walk finds exactly the blobs that were
  concatenated, and replacing one of them replaces that blob and no other.
\<close>

section \<open>Concatenations of blobs\<close>

definition fdt_blob :: "byte list \<Rightarrow> bool" where
  "fdt_blob b \<longleftrightarrow> 40 \<le> length b \<and> rd32_be b 0 = 0xD00DFEED \<and> unat (rd32_be b 4) = length b"

definition zeros :: "byte list \<Rightarrow> bool" where
  "zeros z \<longleftrightarrow> (\<forall>b \<in> set z. b = 0)"

fun ranges_from :: "nat \<Rightarrow> nat list \<Rightarrow> range_parts list" where
  "ranges_from p [] = []"
| "ranges_from p (n # ns) = \<lparr>rp_start = p, rp_end = p + n\<rparr> # ranges_from (p + n) ns"

lemma length_ranges_from [simp]: "length (ranges_from p ns) = length ns"
  by (induction p ns rule: ranges_from.induct) auto

lemma ranges_from_nth:
  "i < length ns \<Longrightarrow> ranges_from p ns ! i = \<lparr>rp_start = p + sum_list (take i ns), rp_end = p + sum_list (take (Suc i) ns)\<rparr>"
  by (induction p ns arbitrary: i rule: ranges_from.induct) (auto simp: nth_Cons' take_Cons' gr0_conv_Suc)

lemma vb_read_be_u32_Inr:
  "vb_read_be_u32 bytes p name = Inr v \<longleftrightarrow> p + 4 \<le> length bytes \<and> v = rd32_be bytes p"
  by (auto simp: vb_read_be_u32_def slice_Some_iff rd32_be_def window_def nth_append split: option.splits)
    (simp_all add: slice_def split: if_splits)

lemma rd32_be_drop: "p + q + 4 \<le> length bs \<Longrightarrow> rd32_be (drop p bs) q = rd32_be bs (p + q)"
  by (simp add: rd32_be_def add.assoc)

lemma rd32_be_append: "q + 4 \<le> length bs \<Longrightarrow> rd32_be (bs @ cs) q = rd32_be bs q"
  by (simp add: rd32_be_def nth_append)

lemma blob_not_zeros: "fdt_blob b \<Longrightarrow> \<not> zeros (b @ r)"
proof
  assume b: "fdt_blob b" and z: "zeros (b @ r)"
  then have "b ! k = 0" if "k < 4" for k
    using that by (simp add: fdt_blob_def zeros_def)
  then have "rd32_be b 0 = u32_of_be 0 0 0 0" by (simp add: rd32_be_def)
  with b show False by (simp add: fdt_blob_def u32_of_be_def u32_of_le_def)
qed

lemma fdt_ranges_loop_step:
  assumes "drop p S = b @ r" and "fdt_blob b" and "p \<le> length S" and "length S < 2 ^ 64"
  shows "fdt_ranges_loop S p = bind_r (fdt_ranges_loop S (p + length b))
    (\<lambda>rs. Inr (\<lparr>rp_start = p, rp_end = p + length b\<rparr> # rs))"
proof -
  have b: "40 \<le> length b" using assms(2) by (simp add: fdt_blob_def)
  have len: "p + length b \<le> length S" using arg_cong [OF assms(1), of length] assms(3) by simp
  have rd: "rd32_be S (p + q) = rd32_be b q" if "q + 4 \<le> 40" for q
    using that b len rd32_be_drop [of p q S] rd32_be_append [of q b r] by (simp add: assms(1))
  have m: "vb_read_be_u32 S p n = Inr 0xD00DFEED" for n
    using rd [of 0] b len assms(2) by (simp add: vb_read_be_u32_Inr fdt_blob_def)
  have s: "vb_read_be_u32 S (p + 4) n = Inr (rd32_be b 4)" for n
    using rd [of 4] b len by (simp add: vb_read_be_u32_Inr)
  have u: "unat (rd32_be b 4) = length b" using assms(2) by (simp add: fdt_blob_def)
  have nz: "(\<forall>x \<in> set (drop p S). x = 0) \<longleftrightarrow> False"
    using blob_not_zeros [OF assms(2), of r] by (simp add: zeros_def assms(1))
  have "p < length S" using len b by simp
  then show ?thesis
    using len b assms(4) by (subst fdt_ranges_loop.simps) (simp add: m s u vb_checked_add_def nz)
qed

lemma fdt_ranges_loop_concat:
  assumes "\<forall>b \<in> set bs. fdt_blob b" and "zeros z" and "drop p S = concat bs @ z" and "p \<le> length S"
    and "length S < 2 ^ 64"
  shows "fdt_ranges_loop S p = Inr (ranges_from p (map length bs))"
  using assms
proof (induction bs arbitrary: p)
  case Nil
  then show ?case by (subst fdt_ranges_loop.simps) (simp add: zeros_def)
next
  case (Cons b bs)
  have d: "drop p S = b @ (concat bs @ z)" using Cons.prems(3) by simp
  have len: "p + length b \<le> length S" using arg_cong [OF d, of length] Cons.prems(4) by simp
  have "drop (p + length b) S = concat bs @ z"
    using d by (metis add.commute append_eq_conv_conj drop_drop)
  then have "fdt_ranges_loop S (p + length b) = Inr (ranges_from (p + length b) (map length bs))"
    using Cons len by simp
  then show ?case using fdt_ranges_loop_step [OF d] Cons.prems by simp
qed

lemma fdt_ranges_loop_Cons:
  assumes "fdt_ranges_loop S p = Inr rs" and "p < length S" and "\<not> zeros (drop p S)"
    and n: "n = unat (rd32_be S (p + 4))"
  shows "p + 8 \<le> length S" and "rd32_be S p = 0xD00DFEED" and "40 \<le> n" and "p + n \<le> length S"
    and "\<exists>rs'. fdt_ranges_loop S (p + n) = Inr rs' \<and> rs = \<lparr>rp_start = p, rp_end = p + n\<rparr> # rs'"
proof -
  have nz: "(\<forall>x \<in> set (drop p S). x = 0) \<longleftrightarrow> False" using assms(3) by (simp add: zeros_def)
  note e = assms(1) [unfolded fdt_ranges_loop.simps [of S p] if_P [OF assms(2)] nz if_False]
  from e obtain m where m: "vb_read_be_u32 S p ''concatenated FDT magic'' = Inr m" "m = 0xD00DFEED"
    by (simp split: sum.splits if_splits)
  note e1 = e [unfolded m(1) sum.case m(2)]
  then obtain k where k: "vb_read_be_u32 S (p + 4) ''concatenated FDT size'' = Inr k"
    by (simp split: sum.splits)
  have kn: "unat k = n" using k by (simp add: vb_read_be_u32_Inr n)
  show "p + 8 \<le> length S" "rd32_be S p = 0xD00DFEED"
    using k m by (simp_all add: vb_read_be_u32_Inr)
  show "40 \<le> n" "p + n \<le> length S"
    "\<exists>rs'. fdt_ranges_loop S (p + n) = Inr rs' \<and> rs = \<lparr>rp_start = p, rp_end = p + n\<rparr> # rs'"
    using e1 k kn by (auto simp: vb_checked_add_def bind_r_Inr_iff split: if_splits)
qed

lemma fdt_ranges_loop_Inr:
  assumes "fdt_ranges_loop S p = Inr rs" and "p \<le> length S"
  shows "\<exists>bs z. drop p S = concat bs @ z \<and> (\<forall>b \<in> set bs. fdt_blob b) \<and> zeros z \<and>
    rs = ranges_from p (map length bs)"
  using assms
proof (induction "length S - p" arbitrary: p rs rule: less_induct)
  case less
  show ?case
  proof (cases "p < length S \<and> \<not> zeros (drop p S)")
    case False
    then have "fdt_ranges_loop S p = Inr []" "zeros (drop p S)"
      using less(3) by (auto simp: zeros_def fdt_ranges_loop.simps [of S p])
    then show ?thesis using less(2) by (intro exI [of _ "[]"] exI [of _ "drop p S"]) simp
  next
    case True
    define n where "n = unat (rd32_be S (p + 4))"
    note f = fdt_ranges_loop_Cons [OF less(2) True [THEN conjunct1] True [THEN conjunct2] n_def]
    from f(5) obtain rs' where rs': "fdt_ranges_loop S (p + n) = Inr rs'" "rs = \<lparr>rp_start = p, rp_end = p + n\<rparr> # rs'"
      by blast
    obtain bs z where bs: "drop (p + n) S = concat bs @ z" "\<forall>b \<in> set bs. fdt_blob b" "zeros z"
      "rs' = ranges_from (p + n) (map length bs)"
      using less(1) [OF _ rs'(1) f(4)] f(3) True by (atomize_elim) auto
    define b where "b = take n (drop p S)"
    have lb: "length b = n" using f(4) by (simp add: b_def)
    have "rd32_be b q = rd32_be S (p + q)" if "q + 4 \<le> 40" for q
      using that f(3,4) by (simp add: b_def rd32_be_def add.assoc)
    from this [of 0] this [of 4] have "fdt_blob b" using f lb by (simp add: fdt_blob_def n_def)
    moreover have "drop p S = concat (b # bs) @ z"
      using bs(1) by (simp add: b_def) (metis add.commute append_take_drop_id drop_drop)
    ultimately show ?thesis
      using bs rs'(2) lb by (intro exI [of _ "b # bs"] exI [of _ z]) simp
  qed
qed

lemma fdt_ranges_Inr:
  assumes "length S < 2 ^ 64"
  shows "fdt_ranges S = Inr rs \<longleftrightarrow> (\<exists>bs z. S = concat bs @ z \<and> (\<forall>b \<in> set bs. fdt_blob b) \<and> zeros z \<and>
    bs \<noteq> [] \<and> rs = ranges_from 0 (map length bs))"
proof
  assume "fdt_ranges S = Inr rs"
  then have "fdt_ranges_loop S 0 = Inr rs" "rs \<noteq> []" by (auto simp: fdt_ranges_def bind_r_Inr_iff ensure_Inr_iff)
  with fdt_ranges_loop_Inr [of S 0 rs] show "\<exists>bs z. S = concat bs @ z \<and> (\<forall>b \<in> set bs. fdt_blob b) \<and>
    zeros z \<and> bs \<noteq> [] \<and> rs = ranges_from 0 (map length bs)" by fastforce
next
  assume "\<exists>bs z. S = concat bs @ z \<and> (\<forall>b \<in> set bs. fdt_blob b) \<and> zeros z \<and>
    bs \<noteq> [] \<and> rs = ranges_from 0 (map length bs)"
  then obtain bs z where bs: "S = concat bs @ z" "\<forall>b \<in> set bs. fdt_blob b" "zeros z" "bs \<noteq> []"
    "rs = ranges_from 0 (map length bs)" by blast
  then obtain b bs' where "bs = b # bs'" by (cases bs) auto
  then have "ranges_from 0 (map length bs) \<noteq> []" by simp
  then show "fdt_ranges S = Inr rs"
    using fdt_ranges_loop_concat [OF bs(2,3), of 0 S] bs assms by (simp add: fdt_ranges_def)
qed

text \<open>The bytes of the i-th range are the i-th blob, what lies in front and behind are the others.\<close>

lemma concat_window:
  assumes "i < length bs"
  shows "window (concat bs @ z) (sum_list (take i (map length bs))) (sum_list (take (Suc i) (map length bs))) = bs ! i"
    and "take (sum_list (take i (map length bs))) (concat bs @ z) = concat (take i bs)"
    and "drop (sum_list (take (Suc i) (map length bs))) (concat bs @ z) = concat (drop (Suc i) bs) @ z"
    and "sum_list (take (Suc i) (map length bs)) \<le> length (concat bs @ z)"
proof -
  have l: "sum_list (take j (map length bs)) = length (concat (take j bs))" for j
    by (simp add: length_concat take_map)
  have c: "concat bs = concat (take i bs) @ bs ! i @ concat (drop (Suc i) bs)"
    using assms by (metis concat.simps(2) concat_append id_take_nth_drop)
  have t: "concat (take (Suc i) bs) = concat (take i bs) @ bs ! i"
    using assms by (simp add: take_Suc_conv_app_nth)
  have c': "concat bs = concat (take (Suc i) bs) @ concat (drop (Suc i) bs)"
    by (metis append_take_drop_id concat_append)
  show "window (concat bs @ z) (sum_list (take i (map length bs))) (sum_list (take (Suc i) (map length bs))) = bs ! i"
    by (simp only: l t) (simp add: c window_def)
  show "take (sum_list (take i (map length bs))) (concat bs @ z) = concat (take i bs)"
    by (simp only: l) (simp add: c)
  show "drop (sum_list (take (Suc i) (map length bs))) (concat bs @ z) = concat (drop (Suc i) bs) @ z"
    by (simp only: l c') simp
  show "sum_list (take (Suc i) (map length bs)) \<le> length (concat bs @ z)"
    by (simp only: l c') simp
qed

section \<open>Extraction\<close>

lemma dtb_section:
  assumes "parse_vendor_boot_layout img = Inr L"
  shows "index_range img (rp_start (vb_dtb L)) (rp_end (vb_dtb L)) = Inr (vc_dtb (contents_of img L))"
    and "length (vc_dtb (contents_of img L)) \<le> length img"
    and "rp_start (vb_dtb L) + length (vc_dtb (contents_of img L)) = rp_end (vb_dtb L)"
    and "rp_end (vb_dtb L) \<le> length img"
proof -
  note H = parse_layout_facts [OF assms]
  note ord = new_layout_order [OF H(1), of "le32 img 2100", folded H(2)]
  show "index_range img (rp_start (vb_dtb L)) (rp_end (vb_dtb L)) = Inr (vc_dtb (contents_of img L))"
    using ord H(3) by (simp add: contents_of_def index_range_Inr)
  show "length (vc_dtb (contents_of img L)) \<le> length img"
    "rp_start (vb_dtb L) + length (vc_dtb (contents_of img L)) = rp_end (vb_dtb L)" "rp_end (vb_dtb L) \<le> length img"
    using ord H(3) by (simp_all add: contents_of_def)
qed

lemma index_range_nth:
  assumes "i < length bs"
  shows "index_range (concat bs @ z) (rp_start (ranges_from 0 (map length bs) ! i))
    (rp_end (ranges_from 0 (map length bs) ! i)) = Inr (bs ! i)"
proof -
  have "sum_list (take i (map length bs)) \<le> sum_list (take (Suc i) (map length bs))"
    using assms by (simp add: take_Suc_conv_app_nth)
  then show ?thesis
    using concat_window(1,4) [OF assms, of z] assms by (simp add: ranges_from_nth index_range_Inr)
qed

lemma try_map_ranges:
  "try_map (\<lambda>r. index_range (concat bs @ z) (rp_start r) (rp_end r)) (ranges_from 0 (map length bs)) = Inr bs"
  by (simp add: try_map_Inr_iff list_all2_conv_all_nth index_range_nth)

lemma extract_Inr:
  assumes L: "parse_vendor_boot_layout img = Inr L" and len: "length img < 2 ^ 64"
  shows "extract_vendor_boot_dtbs img = Inr bs \<longleftrightarrow> (\<exists>z. vc_dtb (contents_of img L) = concat bs @ z \<and>
    (\<forall>b \<in> set bs. fdt_blob b) \<and> zeros z \<and> bs \<noteq> [])"
proof -
  have len': "length (vc_dtb (contents_of img L)) < 2 ^ 64" using dtb_section(2) [OF L] len by simp
  show ?thesis
    unfolding extract_vendor_boot_dtbs_def L bind_r_simps dtb_section(1) [OF L] bind_r_Inr_iff
      fdt_ranges_Inr [OF len']
  proof (intro iffI, goal_cases)
    case 1
    then show ?case by (auto simp: try_map_ranges)
  next
    case 2
    then obtain z where z: "vc_dtb (contents_of img L) = concat bs @ z" "\<forall>b \<in> set bs. fdt_blob b" "zeros z" "bs \<noteq> []"
      by blast
    then show ?case
      by (intro exI [of _ "ranges_from 0 (map length bs)"] conjI exI [of _ bs] exI [of _ z])
        (simp_all add: try_map_ranges)
  qed
qed

section \<open>Replacing one blob\<close>

lemma replaced_fdt_blob:
  assumes "replace_fdt_gpu_table_with_chip fdt export section_chip = Inr out"
    and "names_utf8 (export_table export)" and "length fdt < 2 ^ 63"
  shows "fdt_blob out"
  using replace_fdt_core(2) [OF assms] by (auto simp: parse_layout_Inr fdt_blob_def fdt_consts)

lemma rp_len_range: "i < length ns \<Longrightarrow> rp_len (ranges_from p ns ! i) = ns ! i"
  by (simp add: ranges_from_nth rp_len_def take_Suc_conv_app_nth)

lemma map_err_Inr: "map_err f r = Inr x \<longleftrightarrow> r = Inr x"
  by (cases r) (auto simp: map_err_def)

lemma replace_vendor_boot_dtb_Inr:
  assumes "replace_vendor_boot_dtb img i export = Inr out" and "length img < 2 ^ 64"
  obtains L bs z info chip r where "parse_vendor_boot_layout img = Inr L"
    "vc_dtb (contents_of img L) = concat bs @ z" "\<forall>b \<in> set bs. fdt_blob b" "zeros z" "i < length bs"
    "parse_fdt_gpu_info (bs ! i) = Inr info"
    "section_chip_of (concat bs @ z) (ranges_from 0 (map length bs)) (info_chip info) = Inr chip"
    "replace_fdt_gpu_table_with_chip (bs ! i) export chip = Inr r"
    "rebuild_vendor_boot img L (concat (bs[i := r]) @ z) = Inr out"
proof -
  note e = assms(1) [unfolded replace_vendor_boot_dtb_def bind_r_Inr_iff Let_def ensure_Inr_iff map_err_Inr]
  from e obtain L where L: "parse_vendor_boot_layout img = Inr L" by blast
  have len': "length (vc_dtb (contents_of img L)) < 2 ^ 64" using dtb_section(2) [OF L] assms(2) by simp
  from e L dtb_section(1) [OF L] obtain rs tb info chip r bef aft where
    rs: "fdt_ranges (vc_dtb (contents_of img L)) = Inr rs" and i: "i < length rs"
    and tb: "index_range (vc_dtb (contents_of img L)) (rp_start (rs ! i)) (rp_end (rs ! i)) = Inr tb"
    and info: "parse_fdt_gpu_info tb = Inr info"
    and chip: "section_chip_of (vc_dtb (contents_of img L)) rs (info_chip info) = Inr chip"
    and r: "replace_fdt_gpu_table_with_chip tb export chip = Inr r"
    and bef: "index_range (vc_dtb (contents_of img L)) 0 (rp_start (rs ! i)) = Inr bef"
    and aft: "index_range (vc_dtb (contents_of img L)) (rp_end (rs ! i)) (length (vc_dtb (contents_of img L))) = Inr aft"
    and out: "rebuild_vendor_boot img L (bef @ r @ aft) = Inr out"
    by (metis Inr_inject)
  from rs obtain bs z where bs: "vc_dtb (contents_of img L) = concat bs @ z" "\<forall>b \<in> set bs. fdt_blob b"
    "zeros z" "rs = ranges_from 0 (map length bs)" by (auto simp: fdt_ranges_Inr [OF len'])
  have ib: "i < length bs" using i bs(4) by simp
  have tb': "tb = bs ! i" using tb index_range_nth [OF ib, of z] by (simp add: bs(1,4))
  have "bef = concat (take i bs)"
    using bef ib concat_window(2) [OF ib, of z] by (simp add: bs(1,4) index_range_Inr ranges_from_nth window_def)
  moreover have "aft = concat (drop (Suc i) bs) @ z"
    using aft ib concat_window(3) [OF ib, of z] by (auto simp: bs(1,4) index_range_Inr ranges_from_nth window_def)
  ultimately have new: "bef @ r @ aft = concat (bs[i := r]) @ z"
    using ib by (simp add: upd_conv_take_nth_drop)
  show thesis
    by (rule that [OF L bs(1-3) ib]) (use info chip r out in \<open>simp_all add: tb' new bs(1,4)\<close>)
qed

lemma replaced_extract:
  assumes L: "parse_vendor_boot_layout img = Inr L" and len: "length img < 2 ^ 64"
    and z: "zeros z" and bs: "\<forall>b \<in> set bs. fdt_blob b" "bs \<noteq> []"
    and out: "rebuild_vendor_boot img L (concat bs @ z) = Inr out"
  shows "extract_vendor_boot_dtbs out = Inr bs"
proof -
  note R = rebuild_refines [OF L out len]
  have "vc_dtb (contents_of out (new_layout img (length (concat bs @ z)))) = concat bs @ z"
    unfolding R(3) by simp
  then show ?thesis
    using z bs len R(1) by (auto simp: extract_Inr [OF R(2)])
qed

section \<open>Inspection\<close>

definition inspect_blobs :: "byte list list \<Rightarrow> vb_error + vendor_boot_dtb_info list" where
  "inspect_blobs bs = try_map (\<lambda>(i, b). bind_r (map_err VbFdt (parse_fdt_gpu_info b)) (\<lambda>p. Inr (dtb_info_of i p)))
     (enumerate 0 bs)"

lemma window_window:
  "c \<le> d \<Longrightarrow> d \<le> b - a \<Longrightarrow> window (window xs a b) c d = window xs (a + c) (a + d)"
  by (simp add: window_def drop_take min_def add.commute)

lemma try_map_cong_nth:
  assumes "length xs = length ys" and "\<And>i. i < length xs \<Longrightarrow> f (xs ! i) = g (ys ! i)"
  shows "try_map f xs = try_map g ys"
  using assms
proof (induction xs ys rule: list_induct2)
  case (Cons x xs y ys)
  have "try_map f xs = try_map g ys"
  proof (rule Cons.IH)
    fix i assume "i < length xs"
    then show "f (xs ! i) = g (ys ! i)" using Cons.prems [of "Suc i"] by simp
  qed
  then show ?case using Cons.prems [of 0] by simp
qed simp

lemma inspect_raw_blobs:
  assumes len: "length img < 2 ^ 64"
  shows "inspect_vendor_boot_dtbs_raw img = bind_r (extract_vendor_boot_dtbs img) inspect_blobs"
proof (cases "parse_vendor_boot_layout img")
  case (Inr L)
  have len': "length (vc_dtb (contents_of img L)) < 2 ^ 64" using dtb_section(2) [OF Inr] len by simp
  show ?thesis
  proof (cases "fdt_ranges (vc_dtb (contents_of img L))")
    case (Inr rs)
    then obtain bs z where bs: "vc_dtb (contents_of img L) = concat bs @ z" "rs = ranges_from 0 (map length bs)"
      by (auto simp: fdt_ranges_Inr [OF len'])
    note D = dtb_section [OF \<open>parse_vendor_boot_layout img = Inr L\<close>]
    have "index_range img (rp_start (vb_dtb L) + rp_start (rs ! i)) (rp_start (vb_dtb L) + rp_end (rs ! i)) = Inr (bs ! i)"
      if "i < length bs" for i
    proof -
      have w: "index_range (window img (rp_start (vb_dtb L)) (rp_end (vb_dtb L)))
          (rp_start (rs ! i)) (rp_end (rs ! i)) = Inr (bs ! i)"
        using index_range_nth [OF that, of z] by (simp add: bs(2) flip: bs(1)) (simp add: contents_of_def)
      moreover have "length (window img (rp_start (vb_dtb L)) (rp_end (vb_dtb L))) = rp_end (vb_dtb L) - rp_start (vb_dtb L)"
        using D(4) by simp
      ultimately have le: "rp_start (rs ! i) \<le> rp_end (rs ! i)" "rp_end (rs ! i) \<le> rp_end (vb_dtb L) - rp_start (vb_dtb L)"
        and b: "bs ! i = window (window img (rp_start (vb_dtb L)) (rp_end (vb_dtb L))) (rp_start (rs ! i)) (rp_end (rs ! i))"
        unfolding index_range_Inr by auto
      have "rp_start (vb_dtb L) \<le> rp_end (vb_dtb L)" using D(3) by simp
      then show ?thesis
        unfolding index_range_Inr b window_window [OF le] using le D(4) by auto
    qed
    then have "try_map (\<lambda>(index, r).
         bind_r (index_range img (rp_start (vb_dtb L) + rp_start r) (rp_start (vb_dtb L) + rp_end r)) (\<lambda>blob.
         bind_r (map_err VbFdt (parse_fdt_gpu_info blob)) (\<lambda>parsed. Inr (dtb_info_of index parsed)))) (enumerate 0 rs) =
       inspect_blobs bs"
      unfolding inspect_blobs_def by (intro try_map_cong_nth) (simp_all add: bs(2) nth_enumerate_eq)
    moreover have "extract_vendor_boot_dtbs img = Inr bs"
      using D(1) Inr \<open>parse_vendor_boot_layout img = Inr L\<close>
      by (simp add: extract_vendor_boot_dtbs_def bs try_map_ranges)
    ultimately show ?thesis
      using D(1) Inr \<open>parse_vendor_boot_layout img = Inr L\<close>
      by (simp add: inspect_vendor_boot_dtbs_raw_def)
  qed (simp add: inspect_vendor_boot_dtbs_raw_def extract_vendor_boot_dtbs_def Inr dtb_section(1) [OF Inr])
qed (simp add: inspect_vendor_boot_dtbs_raw_def extract_vendor_boot_dtbs_def)

lemma inspect_blobs_Inr:
  "inspect_blobs bs = Inr infos \<longleftrightarrow> length infos = length bs \<and>
    (\<forall>j < length bs. \<exists>p. parse_fdt_gpu_info (bs ! j) = Inr p \<and> infos ! j = dtb_info_of j p)"
  by (auto simp: inspect_blobs_def try_map_Inr_iff list_all2_conv_all_nth nth_enumerate_eq bind_r_Inr_iff map_err_Inr)

section \<open>No panic\<close>

text \<open>The panics of the replacement: its own slices and copies, those of the device tree, and the normalisation.\<close>

definition vb_panic :: "vb_error \<Rightarrow> bool" where
  "vb_panic e \<longleftrightarrow> e = VbPanic \<or> e = VbFdt FdtPanic \<or> e = VbFdt (FdtNormalize NormalizePanic)"

definition panic_free :: "vb_error + 'a \<Rightarrow> bool" where
  "panic_free r \<longleftrightarrow> (\<forall>e. r = Inl e \<longrightarrow> \<not> vb_panic e)"

lemma panic_free_simps [simp]: "panic_free (Inr x)" "panic_free (Inl e) \<longleftrightarrow> \<not> vb_panic e"
  by (simp_all add: panic_free_def)

lemma panic_free_bind:
  "panic_free m \<Longrightarrow> (\<And>x. m = Inr x \<Longrightarrow> panic_free (f x)) \<Longrightarrow> panic_free (bind_r m f)"
  by (cases m) simp_all

lemma panic_free_map_err: "fdt_safe x \<Longrightarrow> panic_free (map_err VbFdt x)"
  by (auto simp: map_err_def fdt_safe_def vb_panic_def split: sum.splits)

lemma panic_free_ensure: "\<not> vb_panic e \<Longrightarrow> panic_free (ensure b e)"
  by (simp add: ensure_def)

lemma panic_free_index: "panic_free (index_range bs a b) \<longleftrightarrow> a \<le> b \<and> b \<le> length bs"
  by (simp add: index_range_def slice_def ok_or_def vb_panic_def)

lemma panic_free_try_map: "(\<And>x. x \<in> set xs \<Longrightarrow> panic_free (f x)) \<Longrightarrow> panic_free (try_map f xs)"
  by (auto simp: panic_free_def dest!: try_map_Inl)

text \<open>Errors that are none of the device tree.\<close>

definition no_fdt_error :: "vb_error + 'a \<Rightarrow> bool" where
  "no_fdt_error r \<longleftrightarrow> (\<forall>e. r \<noteq> Inl (VbFdt e))"

lemma no_fdt_error_bind:
  "no_fdt_error m \<Longrightarrow> (\<And>x. no_fdt_error (f x)) \<Longrightarrow> no_fdt_error (bind_r m f)"
  by (cases m) (simp_all add: no_fdt_error_def)

lemma no_fdt_error_basic:
  "no_fdt_error (vb_align_up a b)" "no_fdt_error (vb_checked_add a b n)" "no_fdt_error (index_range bs a b)"
  "no_fdt_error (fill_zero bs a b)" "no_fdt_error (copy_into bs a ys)"
  by (simp_all add: no_fdt_error_def vb_align_up_def vb_checked_add_def index_range_def ok_or_def fill_zero_def
      copy_into_def split: option.splits)

lemma rebuild_no_panic:
  assumes "parse_vendor_boot_layout img = Inr L" and "length img < 2 ^ 64"
  shows "rebuild_vendor_boot img L new \<noteq> Inl VbPanic"
proof (cases "length new < 2 ^ 32")
  case True
  then show ?thesis by (rule rebuild_vendor_boot_Inr(2) [OF assms(1) refl assms(2)])
next
  case False
  have "vb_align_up a b \<noteq> Inl VbPanic" "vb_checked_add a b s \<noteq> Inl VbPanic" for a b s
    by (simp_all add: vb_align_up_def vb_checked_add_def)
  moreover have "index_range img a b \<noteq> Inl VbPanic" if "a < b" "\<not> b > length img" for a b
    using that by (simp add: index_range_def slice_def)
  ultimately show ?thesis using False
    unfolding rebuild_vendor_boot_def
    by (auto simp: bind_r_Inl_iff ensure_Inl_iff ensure_Inr_iff split: if_splits)
qed

lemma rebuild_panic_free:
  assumes "parse_vendor_boot_layout img = Inr L" and "length img < 2 ^ 64"
  shows "panic_free (rebuild_vendor_boot img L new)"
proof -
  have e: "no_fdt_error (ensure b (VbCapacity x y))" "no_fdt_error (ensure b VbTrailing)"
    "no_fdt_error (ensure b VbDtbTooBig)" "no_fdt_error (Inr u)" for b x y u
    by (simp_all add: no_fdt_error_def ensure_def)
  have "no_fdt_error (rebuild_vendor_boot img L new)"
    unfolding rebuild_vendor_boot_def Let_def
    by (intro no_fdt_error_bind no_fdt_error_basic e) (simp add: e no_fdt_error_bind no_fdt_error_basic)
  then show ?thesis
    using rebuild_no_panic [OF assms, of new] by (auto simp: panic_free_def vb_panic_def no_fdt_error_def)
qed

lemma section_chip_panic_free:
  "panic_free (section_chip_of (concat bs @ z) (ranges_from 0 (map length bs)) chip)"
proof -
  have c: "panic_free (consensus_chip_from x cs)" for x cs
    by (induction x cs rule: consensus_chip_from.induct) (auto simp: vb_panic_def split: option.splits)
  have r: "panic_free (index_range (concat bs @ z) (rp_start r) (rp_end r))"
    if r: "r \<in> set (ranges_from 0 (map length bs))" for r
  proof -
    obtain i where "i < length bs" "r = ranges_from 0 (map length bs) ! i"
      using r by (auto simp: in_set_conv_nth)
    then show ?thesis by (simp add: index_range_nth)
  qed
  have "panic_free (try_map (\<lambda>r. bind_r (index_range (concat bs @ z) (rp_start r) (rp_end r)) (\<lambda>blob.
      bind_r (map_err VbFdt (parse_fdt_gpu_info blob)) (\<lambda>info. Inr (info_chip info)))) (ranges_from 0 (map length bs)))"
    by (intro panic_free_try_map panic_free_bind panic_free_map_err fdt_safe_parse_info r) simp_all
  then show ?thesis
    unfolding section_chip_of_def consensus_chip_def by (simp add: panic_free_bind c)
qed

lemma parse_panic_free: "panic_free (parse_vendor_boot_layout img)"
proof -
  have f: "panic_free (usize_le_field img p n)" for p n
    by (auto simp: usize_le_field_def read_le_u32_def vb_panic_def split: option.splits)
  have a: "panic_free (vb_align_up a b)" "panic_free (vb_checked_add a b s)" for a b s
    by (simp_all add: vb_align_up_def vb_checked_add_def vb_panic_def)
  show ?thesis
    unfolding parse_vendor_boot_layout_def vb_sections_def
    by (intro panic_free_bind panic_free_ensure f a) (simp_all add: vb_panic_def)
qed

lemma fdt_ranges_panic_free: "panic_free (fdt_ranges S)"
proof -
  have "panic_free (fdt_ranges_loop S p)" for p
  proof (induction S p rule: fdt_ranges_loop.induct)
    case (1 S p)
    have r: "vb_read_be_u32 S q n = Inl e \<Longrightarrow> \<not> vb_panic e" "vb_checked_add a b n = Inl e \<Longrightarrow> \<not> vb_panic e"
      for q n e a b
      by (auto simp: vb_read_be_u32_def vb_checked_add_def vb_panic_def split: option.splits if_splits)
    show ?case
      by (subst fdt_ranges_loop.simps)
        (auto simp: vb_panic_def [of "VbBadMagic _"] vb_panic_def [of "VbBadSize _ _"] vb_panic_def [of VbBlobBeyond]
          dest: r split: sum.splits intro!: panic_free_bind 1)
  qed
  then show ?thesis
    unfolding fdt_ranges_def by (intro panic_free_bind panic_free_ensure) (simp_all add: vb_panic_def)
qed

lemma replace_panic_free:
  assumes len: "length img < 2 ^ 64"
  shows "panic_free (replace_vendor_boot_dtb img i export)"
proof (cases "parse_vendor_boot_layout img")
  case (Inr L)
  note L = Inr
  have len': "length (vc_dtb (contents_of img L)) < 2 ^ 64" using dtb_section(2) [OF L] len by simp
  show ?thesis
  proof (cases "fdt_ranges (vc_dtb (contents_of img L))")
    case (Inr rs)
    then obtain bs z where bs: "vc_dtb (contents_of img L) = concat bs @ z" "rs = ranges_from 0 (map length bs)"
      by (auto simp: fdt_ranges_Inr [OF len'])
    let ?D = "concat bs @ z"
    have ix: "panic_free (index_range ?D 0 (rp_start (rs ! i)))"
      "panic_free (index_range ?D (rp_start (rs ! i)) (rp_end (rs ! i)))"
      "panic_free (index_range ?D (rp_end (rs ! i)) (length ?D))" if "ensure (i < length rs) e = Inr u" for e u
    proof -
      have "i < length bs" using that by (simp add: ensure_Inr_iff bs(2))
      from index_range_nth [OF this, of z] have "rp_start (rs ! i) \<le> rp_end (rs ! i) \<and> rp_end (rs ! i) \<le> length ?D"
        unfolding bs(2) index_range_Inr by simp
      then show "panic_free (index_range ?D 0 (rp_start (rs ! i)))"
        "panic_free (index_range ?D (rp_start (rs ! i)) (rp_end (rs ! i)))"
        "panic_free (index_range ?D (rp_end (rs ! i)) (length ?D))"
        by (simp_all only: panic_free_index) simp_all
    qed
    show ?thesis
      unfolding replace_vendor_boot_dtb_def L bind_r_simps dtb_section(1) [OF L] bs(1) Inr [unfolded bs(1)] Let_def
      by (intro panic_free_bind panic_free_ensure panic_free_map_err fdt_safe_parse_info fdt_safe_replace ix
          section_chip_panic_free [of bs z, folded bs(2)] rebuild_panic_free [OF L len])
        (assumption | simp add: vb_panic_def)+
  next
    case (Inl e)
    then show ?thesis
      using fdt_ranges_panic_free [of "vc_dtb (contents_of img L)"]
      by (simp add: replace_vendor_boot_dtb_def L dtb_section(1) [OF L])
  qed
next
  case (Inl e)
  then show ?thesis using parse_panic_free [of img] by (simp add: replace_vendor_boot_dtb_def)
qed

section \<open>What replacing does\<close>

lemma replace_vendor_boot_length:
  assumes "replace_vendor_boot_dtb img i export = Inr out" and "length img < 2 ^ 64"
  shows "length out = length img"
  using replace_vendor_boot_dtb_Inr [OF assms] rebuild_refines(1) assms(2) by metis

lemma replace_vendor_boot_core:
  assumes "replace_vendor_boot_dtb img target_index export = Inr out"
    and "names_utf8 (export_table export)" and "length img < 2 ^ 63"
  shows "\<exists>L L' dtbs new. parse_vendor_boot_layout img = Inr L \<and> parse_vendor_boot_layout out = Inr L' \<and>
    vc_front (contents_of out L') = vc_front (contents_of img L) \<and>
    vc_table (contents_of out L') = vc_table (contents_of img L) \<and>
    vc_bootconfig (contents_of out L') = vc_bootconfig (contents_of img L) \<and>
    extract_vendor_boot_dtbs img = Inr dtbs \<and> target_index < length dtbs \<and>
    extract_vendor_boot_dtbs out = Inr (dtbs[target_index := new]) \<and>
    (\<exists>src info table advisories. parse_fdt_gpu_info (dtbs ! target_index) = Inr src \<and>
      normalize_edited_gpu_table (the (info_table src)) (export_table export) = Inr (table, advisories) \<and>
      parse_fdt_gpu_info new = Inr info \<and> info_table info = Some table \<and>
      info_chip src \<in> {None, Some (export_chip export)})"
proof -
  have len: "length img < 2 ^ 64" using assms(3) by simp
  obtain L bs z info chip r where L: "parse_vendor_boot_layout img = Inr L"
    and bs: "vc_dtb (contents_of img L) = concat bs @ z" "\<forall>b \<in> set bs. fdt_blob b" "zeros z"
      "target_index < length bs"
    and r: "replace_fdt_gpu_table_with_chip (bs ! target_index) export chip = Inr r"
    and out: "rebuild_vendor_boot img L (concat (bs[target_index := r]) @ z) = Inr out"
    by (rule replace_vendor_boot_dtb_Inr [OF assms(1) len])
  have "length (bs ! target_index) \<le> length (concat bs)"
    using bs(4) by (simp add: length_concat member_le_sum_list)
  also have "\<dots> \<le> length img" using dtb_section(2) [OF L] by (simp add: bs(1))
  finally have small: "length (bs ! target_index) < 2 ^ 63" using assms(3) by simp
  have "fdt_blob r" by (rule replaced_fdt_blob [OF r assms(2) small])
  then have "\<forall>b \<in> set (bs[target_index := r]). fdt_blob b"
    using bs(2) by (auto dest: set_update_subset_insert [THEN subsetD])
  moreover have "bs[target_index := r] \<noteq> []" using bs(4) by auto
  ultimately have ext: "extract_vendor_boot_dtbs out = Inr (bs[target_index := r])"
    using bs(3) by (intro replaced_extract [OF L len _ _ _ out])
  have "extract_vendor_boot_dtbs img = Inr bs"
    using bs extract_Inr [OF L len] by fastforce
  moreover
  obtain src info table advisories where "parse_fdt_gpu_info (bs ! target_index) = Inr src"
    "(case info_chip src of Some c \<Rightarrow> Some c | None \<Rightarrow> chip) = Some (export_chip export)"
    "normalize_edited_gpu_table (the (info_table src)) (export_table export) = Inr (table, advisories)"
    "parse_fdt_gpu_info r = Inr info" "info_table info = Some table"
    using replace_fdt_core(1) [OF r assms(2) small] by blast
  then have "\<exists>src info table advisories. parse_fdt_gpu_info (bs ! target_index) = Inr src \<and>
      normalize_edited_gpu_table (the (info_table src)) (export_table export) = Inr (table, advisories) \<and>
      parse_fdt_gpu_info r = Inr info \<and> info_table info = Some table \<and>
      info_chip src \<in> {None, Some (export_chip export)}"
    by (cases "info_chip src") auto
  moreover note rebuild_refines(2,3) [OF L out len]
  ultimately show ?thesis
    using L ext bs(4)
    by (intro exI [of _ L] exI [of _ "new_layout img (length (concat (bs[target_index := r]) @ z))"] exI [of _ bs]
        exI [of _ r]) simp
qed

section \<open>The properties\<close>

text \<open>
  (C3) Rebuilding a vendor-boot image is the abstract update of its DTB section: the image keeps its
  length, parses again, holds the new DTB section, the same header and ramdisk bytes (but for the DTB
  size), the same ramdisk table and bootconfig at their new places, and every nonzero byte behind the
  old logical end (an AVB footer, for example) where it was.
\<close>

theorem rebuild_vendor_boot_refines:
  assumes "parse_vendor_boot_layout img = Inr L" and "rebuild_vendor_boot img L new = Inr out"
    and "length img < 2 ^ 64"
  shows "\<exists>L'. parse_vendor_boot_layout out = Inr L' \<and> length out = length img \<and>
    contents_of out L' = (contents_of img L)\<lparr>vc_dtb := new\<rparr> \<and>
    (\<forall>i. vb_used_end L \<le> i \<and> i < length img \<and> img ! i \<noteq> 0 \<longrightarrow> out ! i = img ! i)"
  using rebuild_refines [OF assms] by blast

text \<open>
  (C5) Replacing a device tree never indexes out of range, for any image, target and export: the result is
  no panic of a slice or copy of \<open>replace_vendor_boot_dtb\<close> and \<open>rebuild_vendor_boot\<close>, none of a slice of the
  device tree reader and of \<open>rebuild_fdt\<close> below it, and none of an \<open>expect\<close> or index of the normalisation.
\<close>

theorem replace_vendor_boot_never_panics:
  assumes "length img < 2 ^ 64"
  shows "panic_free (replace_vendor_boot_dtb img target_index export)"
  by (rule replace_panic_free [OF assms])

text \<open>
  (C2) After a successful replacement the image parses again and its device trees are the old ones
  except the target, the target's GPU table is the normalised table of the export, its chip (or the
  chip its section agrees on) is the export's, and the ramdisk table, the bootconfig and the bytes in
  front of the DTB section are unchanged.
\<close>

theorem replace_vendor_boot_reads_back:
  assumes "replace_vendor_boot_dtb img target_index export = Inr out"
    and "names_utf8 (export_table export)" and "length img < 2 ^ 63"
  shows "\<exists>L L' dtbs new. parse_vendor_boot_layout img = Inr L \<and> parse_vendor_boot_layout out = Inr L' \<and>
    vc_front (contents_of out L') = vc_front (contents_of img L) \<and>
    vc_table (contents_of out L') = vc_table (contents_of img L) \<and>
    vc_bootconfig (contents_of out L') = vc_bootconfig (contents_of img L) \<and>
    extract_vendor_boot_dtbs img = Inr dtbs \<and> target_index < length dtbs \<and>
    extract_vendor_boot_dtbs out = Inr (dtbs[target_index := new]) \<and>
    (\<exists>src info table advisories. parse_fdt_gpu_info (dtbs ! target_index) = Inr src \<and>
      normalize_edited_gpu_table (the (info_table src)) (export_table export) = Inr (table, advisories) \<and>
      parse_fdt_gpu_info new = Inr info \<and> info_table info = Some table \<and>
      info_chip src \<in> {None, Some (export_chip export)})"
  by (rule replace_vendor_boot_core [OF assms])

text \<open>
  (C4) Inspecting the image after a replacement shows what inspecting it before showed, for every
  device tree but the target.
\<close>

theorem inspect_after_replace:
  assumes "replace_vendor_boot_dtb img target_index export = Inr out"
    and "names_utf8 (export_table export)" and "length img < 2 ^ 63"
    and "inspect_vendor_boot_dtbs_raw img = Inr infos"
  shows "\<exists>infos'. inspect_vendor_boot_dtbs_raw out = Inr infos' \<and> length infos' = length infos \<and>
    (\<forall>j < length infos. j \<noteq> target_index \<longrightarrow> infos' ! j = infos ! j) \<and>
    (\<exists>table advisories. normalize_edited_gpu_table (the (dtb_table (infos ! target_index))) (export_table export) =
      Inr (table, advisories) \<and> dtb_table (infos' ! target_index) = Some table)"
proof -
  have len: "length img < 2 ^ 64" using assms(3) by simp
  from replace_vendor_boot_core [OF assms(1-3)] obtain L L' bs new src info table adv where
    out: "parse_vendor_boot_layout out = Inr L'" and bs: "extract_vendor_boot_dtbs img = Inr bs" "target_index < length bs"
      "extract_vendor_boot_dtbs out = Inr (bs[target_index := new])"
    and src: "parse_fdt_gpu_info (bs ! target_index) = Inr src"
    and norm: "normalize_edited_gpu_table (the (info_table src)) (export_table export) = Inr (table, adv)"
    and info: "parse_fdt_gpu_info new = Inr info" "info_table info = Some table" by blast
  from assms(4) have infos: "length infos = length bs"
    "\<forall>j < length bs. \<exists>p. parse_fdt_gpu_info (bs ! j) = Inr p \<and> infos ! j = dtb_info_of j p"
    by (simp_all add: inspect_raw_blobs [OF len] bs(1) inspect_blobs_Inr)
  define infos' where "infos' = infos[target_index := dtb_info_of target_index info]"
  have "length out < 2 ^ 64" using replace_vendor_boot_length [OF assms(1) len] len by simp
  moreover have "inspect_blobs (bs[target_index := new]) = Inr infos'"
    using infos bs(2) info(1) by (auto simp: inspect_blobs_Inr infos'_def nth_list_update)
  ultimately have "inspect_vendor_boot_dtbs_raw out = Inr infos'"
    by (simp add: inspect_raw_blobs bs(3))
  moreover have "dtb_table (infos ! target_index) = info_table src"
    using infos(2) bs(2) src by (auto simp: dtb_info_of_def)
  ultimately show ?thesis
    using norm info(2) bs(2) infos(1)
    by (intro exI [of _ infos']) (auto simp: infos'_def dtb_info_of_def)
qed

end
