(* ===== verification/Vendor_Sample.thy ===== *)
theory Vendor_Sample
  imports Vendor_Dtb Fdt_Sample
begin

text \<open>
  A vendor-boot image of two pages whose DTB section holds a tree that names the chip and the minimal
  tree of \<open>Fdt_Sample\<close>: the concrete image on which the theorems about vendor-boot images apply.
\<close>

section \<open>A tree that only names its chip\<close>

definition chip_prop :: gpu_property where
  "chip_prop = \<lparr>prop_name = ''compatible'', prop_cells = [0x71636F6D, 0x2C73756E, 0x70000000]\<rparr>"

definition chip_strings :: "byte list" where
  "chip_strings = as_bytes ''compatible'' @ [0]"

abbreviation chip_blob :: "byte list" where
  "chip_blob \<equiv> minimal_fdt (prop_bytes chip_prop 0) chip_strings"

lemma chip_lengths: "length (prop_bytes chip_prop 0) = 24" "length chip_strings = 11"
  by (simp_all add: length_prop_bytes chip_prop_def chip_strings_def)

lemma chip_names: "prop_name chip_prop = ''compatible''" "prop_cells chip_prop \<noteq> []"
  "length (prop_cells chip_prop) = 3"
  by (simp_all add: chip_prop_def)

lemma chip_value: "string_list (concat (map u32_be (prop_cells chip_prop))) = [''qcom,sunp'']"
proof -
  have "concat (map u32_be (prop_cells chip_prop)) = as_bytes ''qcom,sunp'' @ [0, 0, 0]"
    by (simp add: chip_prop_def u32_be_def as_bytes_def)
  moreover have "split_on 0 (as_bytes ''qcom,sunp'' @ [0, 0, 0]) = [as_bytes ''qcom,sunp'', [], [], []]"
    by (simp add: as_bytes_def)
  moreover have "from_utf8 (as_bytes ''qcom,sunp'') = Some ''qcom,sunp''"
    unfolding from_utf8_Some_iff by (simp add: utf8_valid_ascii as_bytes_def)
  moreover have "as_bytes ''qcom,sunp'' \<noteq> []" by (simp add: as_bytes_def)
  ultimately show ?thesis by (simp add: string_list_def List.map_filter_def)
qed

lemma chip_loop: "\<exists>st. fdt_loop (minimal_structure (prop_bytes chip_prop 0)) chip_strings fdt_start = Inr st \<and>
   fs_groups st = [] \<and> fs_ranges st = [] \<and> fs_compatible st = [''qcom,sunp'']"
proof -
  let ?P = "prop_bytes chip_prop 0" and ?X = "node_bytes []" and ?T = chip_strings
  let ?S = "minimal_structure ?P"
  let ?st1 = "fdt_start\<lparr>fs_pos := 8, fs_path := [[]]\<rparr>"
  have X: "length ?X = 8" by (simp add: length_node_bytes)
  have lS: "length ?S = 40" by (simp add: length_minimal chip_lengths)
  have S0: "?S = [] @ ?X @ (?P @ u32_be FDT_END_NODE @ u32_be FDT_END)" by (simp add: minimal_structure_def)
  have S1: "?S = ?X @ ?P @ (u32_be FDT_END_NODE @ u32_be FDT_END)" by (simp add: minimal_structure_def)
  have S2: "?S = (?X @ ?P) @ u32_be FDT_END_NODE @ u32_be FDT_END" by (simp add: minimal_structure_def)
  have root: "storable_name []" by (simp add: storable_name_def utf8_valid_def)
  have "fdt_step ?S ?T fdt_start = Inr (?st1, False)"
    using step_begin(1) [OF S0 _ root, where st = fdt_start and T = ?T]
      step_begin(2) [OF S0 _ root, where st = fdt_start] X lS
    by (simp add: fdt_start_def begin_node_def decimal_suffix_def strip_prefix_def)
  then have r1: "fdt_runs ?S ?T fdt_start ?st1"
    by (intro fdt_runs_one) (simp_all add: fdt_start_def lS)
  let ?st2 = "?st1\<lparr>fs_pos := 32, fs_compatible := [''qcom,sunp'']\<rparr>"
  have "lookup_string ?T 0 = Some (prop_name chip_prop)"
    unfolding lookup_string_Some read_string_Inr from_utf8_Some_iff
    by (intro exI [of _ "10"]) (simp add: chip_strings_def chip_prop_def utf8_valid_ascii as_bytes_def)
  then have "fdt_step ?S ?T ?st1 = Inr (?st2, False)"
    using step_prop [OF S1, of ?st1 ?T] X lS chip_value
    by (simp add: chip_lengths group_property_def root_property_def fdt_start_def chip_names)
  then have r2: "fdt_runs ?S ?T ?st1 ?st2"
    by (intro fdt_runs_one) (simp_all add: lS)
  let ?st3 = "?st2\<lparr>fs_pos := 36, fs_path := []\<rparr>"
  have "fdt_step ?S ?T ?st2 = Inr (?st3, False)"
    using step_end [OF S2, of ?st2 ?T] X by (simp add: end_node_def chip_lengths fdt_start_def)
  then have r3: "fdt_runs ?S ?T ?st2 ?st3" by (intro fdt_runs_one) (simp_all add: lS)
  have "read_be_u32 ?S 36 ''FDT structure token'' = Inr FDT_END"
    by (rule read_be_u32_at [of _ "?X @ ?P @ u32_be FDT_END_NODE" _ "[]"])
      (simp_all add: minimal_structure_def X chip_lengths)
  then have "fdt_step ?S ?T ?st3 = Inr (?st3\<lparr>fs_pos := 40\<rparr>, True)"
    by (simp add: fdt_step_def fdt_consts end_token_inside lS fdt_start_def)
  then have "fdt_loop ?S ?T ?st3 = Inr (?st3\<lparr>fs_pos := 40\<rparr>)"
    by (subst fdt_loop.simps) (simp add: lS)
  then have "fdt_loop ?S ?T fdt_start = Inr (?st3\<lparr>fs_pos := 40\<rparr>)"
    using fdt_loop_runs [OF r1] fdt_loop_runs [OF r2] fdt_loop_runs [OF r3] by simp
  then show ?thesis by (simp add: fdt_start_def)
qed

lemma chip_parse: "\<exists>info. parse_fdt_gpu_info chip_blob = Inr info \<and> info_chip info = Some ''sun'' \<and>
  info_table info = None"
proof -
  obtain st where st: "fdt_loop (minimal_structure (prop_bytes chip_prop 0)) chip_strings fdt_start = Inr st"
    "fs_groups st = []" "fs_ranges st = []" "fs_compatible st = [''qcom,sunp'']"
    using chip_loop by blast
  have "infer_chip [''qcom,sunp''] = Some ''sun''" by (simp add: infer_chip_def chip_values_def)
  then show ?thesis
    using st by (simp add: parse_fdt_gpu_info_def parse_fdt_eq minimal_parse_layout chip_lengths)
      (simp add: minimal_layout_def minimal_windows [of "prop_bytes chip_prop 0" chip_strings, unfolded chip_lengths, simplified] chip_lengths)
qed

section \<open>The image\<close>

definition sample_header :: "nat \<Rightarrow> byte list" where
  "sample_header n = VENDOR_BOOT_MAGIC @ u32_le 4 @ u32_le 4096 @ replicate 2080 0 @ u32_le 2128 @
     u32_le (of_nat n) @ replicate 1992 0"

definition sample_image :: "byte list \<Rightarrow> byte list" where
  "sample_image dtb = sample_header (length dtb) @ dtb @ replicate (4096 - length dtb) 0"

lemma length_sample_header: "length (sample_header n) = 4096"
  by (simp add: sample_header_def VENDOR_BOOT_MAGIC_def)

lemma rd32_le_in: "xs = pre @ u32_le w @ post \<Longrightarrow> p = length pre \<Longrightarrow> rd32_le xs p = w"
  using rd32_le_window [of p xs] by (simp add: window_def)

lemma rd32_le_zeros: "p + 4 \<le> length xs \<Longrightarrow> (\<forall>k < 4. xs ! (p + k) = 0) \<Longrightarrow> rd32_le xs p = 0"
proof -
  assume "\<forall>k < 4. xs ! (p + k) = 0"
  from this [rule_format, of 0] this [rule_format, of 1] this [rule_format, of 2] this [rule_format, of 3]
  show ?thesis by (simp add: rd32_le_def u32_of_le_def)
qed

lemma sample_fields:
  assumes "length dtb \<le> 4096"
  shows "rd32_le (sample_image dtb) 8 = 4" "rd32_le (sample_image dtb) 12 = 4096"
    "rd32_le (sample_image dtb) 24 = 0" "rd32_le (sample_image dtb) 2096 = 2128"
    "rd32_le (sample_image dtb) 2100 = of_nat (length dtb)" "rd32_le (sample_image dtb) 2112 = 0"
    "rd32_le (sample_image dtb) 2124 = 0"
proof -
  let ?m = VENDOR_BOOT_MAGIC and ?r = "dtb @ replicate (4096 - length dtb) 0"
  let ?z = "replicate 2080 (0 :: byte)" and ?y = "replicate 1992 (0 :: byte)"
  note d = sample_image_def sample_header_def
  have lm: "length ?m = 8" by (simp add: VENDOR_BOOT_MAGIC_def)
  show "rd32_le (sample_image dtb) 8 = 4"
    by (rule rd32_le_in [of _ ?m _ "u32_le 4096 @ ?z @ u32_le 2128 @ u32_le (of_nat (length dtb)) @ ?y @ ?r"])
      (simp_all add: d lm)
  show "rd32_le (sample_image dtb) 12 = 4096"
    by (rule rd32_le_in [of _ "?m @ u32_le 4" _ "?z @ u32_le 2128 @ u32_le (of_nat (length dtb)) @ ?y @ ?r"])
      (simp_all add: d lm)
  show "rd32_le (sample_image dtb) 2096 = 2128"
    by (rule rd32_le_in [of _ "?m @ u32_le 4 @ u32_le 4096 @ ?z" _ "u32_le (of_nat (length dtb)) @ ?y @ ?r"])
      (simp_all add: d lm)
  show "rd32_le (sample_image dtb) 2100 = of_nat (length dtb)"
    by (rule rd32_le_in [of _ "?m @ u32_le 4 @ u32_le 4096 @ ?z @ u32_le 2128" _ "?y @ ?r"])
      (simp_all add: d lm)
  have z: "rd32_le (A @ replicate n 0 @ B) p = 0" if "length A \<le> p" "p + 4 \<le> length A + n" for A B p n
    using that by (intro rd32_le_zeros) (auto simp: nth_append)
  show "rd32_le (sample_image dtb) 24 = 0"
    using z [of "?m @ u32_le 4 @ u32_le 4096" 24 2080 "u32_le 2128 @ u32_le (of_nat (length dtb)) @ ?y @ ?r"]
    by (simp add: d lm)
  show "rd32_le (sample_image dtb) 2112 = 0"
    using z [of "?m @ u32_le 4 @ u32_le 4096 @ ?z @ u32_le 2128 @ u32_le (of_nat (length dtb))" 2112 1992 ?r]
    by (simp add: d lm)
  show "rd32_le (sample_image dtb) 2124 = 0"
    using z [of "?m @ u32_le 4 @ u32_le 4096 @ ?z @ u32_le 2128 @ u32_le (of_nat (length dtb))" 2124 1992 ?r]
    by (simp add: d lm)
qed

definition sample_layout :: "nat \<Rightarrow> vendor_boot_layout" where
  "sample_layout n = \<lparr>vb_page_size = 4096, vb_dtb = \<lparr>rp_start = 4096, rp_end = 4096 + n\<rparr>,
     vb_ramdisk_table = \<lparr>rp_start = 8192, rp_end = 8192\<rparr>,
     vb_bootconfig = \<lparr>rp_start = 8192, rp_end = 8192\<rparr>, vb_used_end = 8192\<rparr>"

lemma layout_of_sample: "0 < n \<Longrightarrow> n \<le> 4096 \<Longrightarrow> layout_of 4096 2128 0 n 0 0 = sample_layout n"
proof -
  assume n: "0 < n" "n \<le> 4096"
  then have "page_up 4096 n = 4096"
    using page_up_spec [of 4096 n] by (intro dvd_window_unique [of 4096 _ _ n]) simp_all
  then show ?thesis by (simp add: layout_of_def sample_layout_def Let_def page_up_def)
qed

lemma sample_parse:
  assumes "0 < length dtb" "length dtb \<le> 4096"
  shows "parse_vendor_boot_layout (sample_image dtb) = Inr (sample_layout (length dtb))"
    and "contents_of (sample_image dtb) (sample_layout (length dtb)) = \<lparr>vc_front = (window (sample_image dtb) 0 2100,
      window (sample_image dtb) 2104 4096), vc_dtb = dtb, vc_table = [], vc_bootconfig = []\<rparr>"
    and "new_layout (sample_image dtb) n = layout_of 4096 2128 0 n 0 0"
    and "length (sample_image dtb) = 8192"
proof -
  note f = sample_fields [OF assms(2)]
  have u: "unat (of_nat (length dtb) :: u32) = length dtb"
    using assms unfolding unat_of_nat by (intro mod_less) simp
  show len: "length (sample_image dtb) = 8192" using assms by (simp add: sample_image_def length_sample_header)
  have "window (sample_image dtb) 0 8 = VENDOR_BOOT_MAGIC"
    by (simp add: window_def sample_image_def sample_header_def VENDOR_BOOT_MAGIC_def)
  moreover have "power_of_two 4096"
    by (simp add: power_of_two_def image_iff Bex_def) (rule exI [of _ 12], simp)
  ultimately have "header_ok (sample_image dtb)" by (simp add: header_ok_def f len)
  then show "parse_vendor_boot_layout (sample_image dtb) = Inr (sample_layout (length dtb))"
    by (simp add: parse_vendor_boot_layout_Inr f u len layout_of_sample [OF assms]) (simp add: sample_layout_def)
  show "new_layout (sample_image dtb) n = layout_of 4096 2128 0 n 0 0" by (simp add: new_layout_def f)
  show "contents_of (sample_image dtb) (sample_layout (length dtb)) = \<lparr>vc_front = (window (sample_image dtb) 0 2100,
      window (sample_image dtb) 2104 4096), vc_dtb = dtb, vc_table = [], vc_bootconfig = []\<rparr>"
    by (simp add: contents_of_def sample_layout_def)
      (simp add: window_def sample_image_def length_sample_header)
qed

lemma sample_rebuild:
  assumes "0 < length dtb" "length dtb \<le> 4096" "0 < length new" "length new \<le> 4096"
  shows "\<exists>out. rebuild_vendor_boot (sample_image dtb) (sample_layout (length dtb)) new = Inr out"
proof -
  note P = sample_parse [OF assms(1,2)]
  have "new_layout (sample_image dtb) (length new) = sample_layout (length new)"
    using layout_of_sample [OF assms(3,4)] by (simp add: P(3))
  then have "room_for (sample_image dtb) (sample_layout (length dtb)) (new_layout (sample_image dtb) (length new))"
    using P(4) by (auto simp: room_for_def sample_layout_def)
  then show ?thesis
    using rebuild_vendor_boot_Inr(1) [OF P(1) refl, of new] P(4) assms by auto
qed

section \<open>A replacement in it\<close>

lemma minimal_blob:
  assumes "length enc + length T < 2 ^ 31"
  shows "fdt_blob (minimal_fdt enc T)"
proof -
  have "unat (of_nat (56 + length enc + length T) :: u32) = 56 + length enc + length T"
    using assms unfolding unat_of_nat by (intro mod_less) simp
  note u = this
  show ?thesis unfolding fdt_blob_def minimal_fields u by (simp add: length_minimal fdt_consts)
qed

abbreviation sample_dtb :: "byte list" where
  "sample_dtb \<equiv> concat [chip_blob, tiny_blob]"

lemma sample_dtb_length: "length sample_dtb = 284" "length chip_blob = 91" "length tiny_blob = 193"
  by (simp_all add: length_minimal chip_lengths tiny_lengths)

lemma sample_blobs: "\<forall>b \<in> set [chip_blob, tiny_blob]. fdt_blob b"
  by (simp add: minimal_blob chip_lengths tiny_lengths)

lemma tiny_info: "\<exists>info. parse_fdt_gpu_info tiny_blob = Inr info \<and> info_chip info = None \<and> info_table info = Some tiny_table"
proof -
  have "\<exists>p. parse_fdt tiny_blob = Inr p \<and> pf_layout p = minimal_layout tiny_encoding tiny_strings \<and>
    info_table (pf_info p) = Some \<lparr>table_groups = table_groups tiny_table\<rparr> \<and>
    info_chip (pf_info p) = None \<and> pf_range p = Some (8, 8 + length tiny_encoding)"
    by (rule minimal_parse [OF tiny_enc_list]) (simp_all add: tiny_table_def tiny_lengths)
  then show ?thesis by (auto simp: parse_fdt_gpu_info_def)
qed

lemma tiny_replaced_length:
  assumes "replace_fdt_gpu_table_with_chip tiny_blob tiny_export (Some ''sun'') = Inr out"
  shows "length out = 193"
proof -
  obtain p rng src new adv where p: "parse_fdt tiny_blob = Inr p" "pf_range p = Some rng"
    "info_table (pf_info p) = Some src"
    "normalize_edited_gpu_table src (export_table tiny_export) = Inr (new, adv)"
    "rebuild_fdt tiny_blob (pf_layout p) rng new = Inr out"
    by (rule replace_fdt_Inr [OF assms])
  have q: "\<exists>p. parse_fdt tiny_blob = Inr p \<and> pf_layout p = minimal_layout tiny_encoding tiny_strings \<and>
    info_table (pf_info p) = Some \<lparr>table_groups = table_groups tiny_table\<rparr> \<and>
    info_chip (pf_info p) = None \<and> pf_range p = Some (8, 8 + length tiny_encoding)"
    by (rule minimal_parse [OF tiny_enc_list]) (simp_all add: tiny_table_def tiny_lengths)
  then have L: "pf_layout p = minimal_layout tiny_encoding tiny_strings" "rng = (8, 116)" "src = tiny_table"
    using p by (auto simp: tiny_lengths)
  have new: "new = tiny_table" using p(4) tiny_normal by (auto simp: L tiny_export_def)
  have "rebuild_fdt tiny_blob (minimal_layout tiny_encoding tiny_strings) (8, 116) tiny_table = Inr out"
    using p(5) by (simp add: L new)
  then show ?thesis
    using minimal_windows [of tiny_encoding tiny_strings] length_minimal [of tiny_encoding]
      length_minimal(2) [of tiny_encoding tiny_strings]
    unfolding tiny_rebuild_eq
    by (simp add: minimal_layout_def Let_def tiny_lengths tiny_encode signed_delta_def
        add_signed_def u32_field_def write_be_u32_def ensure_def) (auto simp: window_def tiny_lengths)
qed

lemma sample_section_chip:
  "section_chip_of sample_dtb (ranges_from 0 (map length [chip_blob, tiny_blob])) None = Inr (Some ''sun'')"
proof -
  obtain ci ti where ci: "parse_fdt_gpu_info chip_blob = Inr ci" "info_chip ci = Some ''sun''"
    and ti: "parse_fdt_gpu_info tiny_blob = Inr ti" "info_chip ti = None"
    using chip_parse tiny_info by blast
  note ix = index_range_nth [of _ "[chip_blob, tiny_blob]" "[]"]
  have "try_map (\<lambda>r. bind_r (index_range (concat [chip_blob, tiny_blob] @ []) (rp_start r) (rp_end r)) (\<lambda>blob.
      bind_r (map_err VbFdt (parse_fdt_gpu_info blob)) (\<lambda>info. Inr (info_chip info))))
      (ranges_from 0 (map length [chip_blob, tiny_blob])) = Inr [Some ''sun'', None]"
    unfolding try_map_Inr_iff list_all2_conv_all_nth
  proof (intro conjI allI impI)
    fix i assume i: "i < length (ranges_from 0 (map length [chip_blob, tiny_blob]))"
    then have "i = 0 \<or> i = 1" by auto
    with ix [of i] show "bind_r (index_range (concat [chip_blob, tiny_blob] @ [])
        (rp_start (ranges_from 0 (map length [chip_blob, tiny_blob]) ! i))
        (rp_end (ranges_from 0 (map length [chip_blob, tiny_blob]) ! i))) (\<lambda>blob.
      bind_r (map_err VbFdt (parse_fdt_gpu_info blob)) (\<lambda>info. Inr (info_chip info))) =
      Inr ([Some ''sun'', None] ! i)"
      using ci ti by (auto simp: map_err_def)
  qed simp
  then show ?thesis by (simp add: section_chip_of_def consensus_chip_def List.map_filter_def)
qed

lemma sample_dtb_parse:
  "parse_vendor_boot_layout (sample_image sample_dtb) = Inr (sample_layout 284)"
  "vc_dtb (contents_of (sample_image sample_dtb) (sample_layout 284)) = sample_dtb"
  "length (sample_image sample_dtb) = 8192"
proof -
  have h: "0 < length sample_dtb" "length sample_dtb \<le> 4096" unfolding sample_dtb_length by simp_all
  note P = sample_parse [OF h, unfolded sample_dtb_length]
  show "parse_vendor_boot_layout (sample_image sample_dtb) = Inr (sample_layout 284)" by (rule P(1))
  show "vc_dtb (contents_of (sample_image sample_dtb) (sample_layout 284)) = sample_dtb"
    unfolding P(2) by (simp only: vb_contents.simps)
  show "length (sample_image sample_dtb) = 8192" by (rule P(4))
qed

lemma sample_extract:
  "extract_vendor_boot_dtbs (sample_image sample_dtb) = Inr [chip_blob, tiny_blob]"
proof -
  have "length (sample_image sample_dtb) < 2 ^ 64" unfolding sample_dtb_parse(3) by simp
  from extract_Inr [OF sample_dtb_parse(1) this] show ?thesis
    unfolding sample_dtb_parse(2) using sample_blobs
    by (auto intro!: exI [of _ "[]"] simp: zeros_def)
qed

lemma sample_replace: "\<exists>out. replace_vendor_boot_dtb (sample_image sample_dtb) 1 tiny_export = Inr out"
proof -
  let ?bs = "[chip_blob, tiny_blob]"
  note P = sample_dtb_parse
  note D = dtb_section [OF P(1)] and C = P(2)
  have R: "fdt_ranges (concat ?bs) = Inr (ranges_from 0 (map length ?bs))"
  proof (subst fdt_ranges_Inr)
    show "length (concat ?bs) < 2 ^ 64" unfolding sample_dtb_length by simp
    show "\<exists>bs z. concat ?bs = concat bs @ z \<and> (\<forall>b \<in> set bs. fdt_blob b) \<and> zeros z \<and> bs \<noteq> [] \<and>
      ranges_from 0 (map length ?bs) = ranges_from 0 (map length bs)"
      using sample_blobs by (intro exI [of _ ?bs] exI [of _ "[]"]) (simp add: zeros_def)
  qed
  obtain info where info: "parse_fdt_gpu_info tiny_blob = Inr info" "info_chip info = None" using tiny_info by blast
  obtain r where r: "replace_fdt_gpu_table_with_chip tiny_blob tiny_export (Some ''sun'') = Inr r"
    using tiny_replace by blast
  define new where "new = chip_blob @ r"
  have ln: "length new = 284" using tiny_replaced_length [OF r] sample_dtb_length by (simp add: new_def)
  obtain out where out: "rebuild_vendor_boot (sample_image sample_dtb) (sample_layout 284) new = Inr out"
    using sample_rebuild [of sample_dtb new] ln sample_dtb_length by auto
  have rg: "ranges_from 0 (map length ?bs) ! 1 = \<lparr>rp_start = 91, rp_end = 284\<rparr>"
    using sample_dtb_length by simp
  have ix: "index_range (concat ?bs) 91 284 = Inr tiny_blob" "index_range (concat ?bs) 0 91 = Inr chip_blob"
    "index_range (concat ?bs) 284 (length (concat ?bs)) = Inr []"
    using sample_dtb_length by (simp_all add: index_range_Inr window_def)
  have "replace_vendor_boot_dtb (sample_image sample_dtb) 1 tiny_export = Inr out"
    unfolding replace_vendor_boot_dtb_def P(1) bind_r_simps D(1) C R Let_def rg
    using info r out ix sample_section_chip sample_dtb_length tiny_replaced_length [OF r]
    by (simp add: map_err_def rp_len_def new_def)
  then show ?thesis ..
qed

theorem rebuild_vendor_boot_refines_witness:
  "\<exists>out L'. rebuild_vendor_boot (sample_image [1]) (sample_layout 1) [2, 3] = Inr out \<and>
    parse_vendor_boot_layout out = Inr L' \<and> vc_dtb (contents_of out L') = [2, 3]"
proof -
  have P: "parse_vendor_boot_layout (sample_image [1]) = Inr (sample_layout 1)" "length (sample_image [1]) = 8192"
    using sample_parse [of "[1]"] by simp_all
  obtain out where out: "rebuild_vendor_boot (sample_image [1]) (sample_layout 1) [2, 3] = Inr out"
    using sample_rebuild [of "[1]" "[2, 3]"] by auto
  have "length (sample_image [1]) < 2 ^ 64" by (simp add: P(2))
  from rebuild_vendor_boot_refines [OF P(1) out this]
  obtain L' where "parse_vendor_boot_layout out = Inr L'"
    "contents_of out L' = (contents_of (sample_image [1]) (sample_layout 1))\<lparr>vc_dtb := [2, 3]\<rparr>" by blast
  with out show ?thesis by (intro exI [of _ out] exI [of _ L']) simp
qed

theorem replace_vendor_boot_never_panics_witness:
  "panic_free (replace_vendor_boot_dtb (sample_image sample_dtb) 1 tiny_export) \<and>
   (\<exists>out. replace_vendor_boot_dtb (sample_image sample_dtb) 1 tiny_export = Inr out)"
proof -
  have "length (sample_image sample_dtb) < 2 ^ 64" unfolding sample_dtb_parse(3) by simp
  then have "panic_free (replace_vendor_boot_dtb (sample_image sample_dtb) 1 tiny_export)"
    by (rule replace_vendor_boot_never_panics)
  then show ?thesis using sample_replace by simp
qed

theorem replace_vendor_boot_reads_back_witness:
  "\<exists>out new table. replace_vendor_boot_dtb (sample_image sample_dtb) 1 tiny_export = Inr out \<and>
    extract_vendor_boot_dtbs out = Inr [chip_blob, new] \<and>
    (\<exists>info. parse_fdt_gpu_info new = Inr info \<and> info_table info = Some table)"
proof -
  obtain out where out: "replace_vendor_boot_dtb (sample_image sample_dtb) 1 tiny_export = Inr out"
    using sample_replace by blast
  have n: "names_utf8 (export_table tiny_export)" by (simp add: tiny_export_def tiny_utf8)
  have l: "length (sample_image sample_dtb) < 2 ^ 63" unfolding sample_dtb_parse(3) by simp
  note e = sample_extract
  from replace_vendor_boot_reads_back [OF out n l] e out show ?thesis by auto
qed

theorem inspect_after_replace_witness:
  "\<exists>out infos infos'. replace_vendor_boot_dtb (sample_image sample_dtb) 1 tiny_export = Inr out \<and>
    inspect_vendor_boot_dtbs_raw (sample_image sample_dtb) = Inr infos \<and>
    inspect_vendor_boot_dtbs_raw out = Inr infos' \<and> infos' ! 0 = infos ! 0 \<and>
    dtb_chip (infos ! 0) = Some ''sun''"
proof -
  obtain out where out: "replace_vendor_boot_dtb (sample_image sample_dtb) 1 tiny_export = Inr out"
    using sample_replace by blast
  have n: "names_utf8 (export_table tiny_export)" by (simp add: tiny_export_def tiny_utf8)
  have l: "length (sample_image sample_dtb) < 2 ^ 63" unfolding sample_dtb_parse(3) by simp
  note e = sample_extract
  obtain ci ti where ci: "parse_fdt_gpu_info chip_blob = Inr ci" "info_chip ci = Some ''sun''"
    and ti: "parse_fdt_gpu_info tiny_blob = Inr ti" using chip_parse tiny_info by blast
  have "inspect_blobs [chip_blob, tiny_blob] = Inr [dtb_info_of 0 ci, dtb_info_of 1 ti]"
    using ci ti by (auto simp: inspect_blobs_Inr nth_Cons' less_Suc_eq)
  then have i: "inspect_vendor_boot_dtbs_raw (sample_image sample_dtb) = Inr [dtb_info_of 0 ci, dtb_info_of 1 ti]"
    using l e by (simp add: inspect_raw_blobs)
  from inspect_after_replace [OF out n l i] i out ci(2) show ?thesis by (auto simp: dtb_info_of_def)
qed

end
