(* ===== verification/Kernel_Version.thy ===== *)
theory Kernel_Version
  imports Rust_Str
begin

text \<open>
  The kernel version of \<open>skroot/version.rs\<close>: the first \<open>Linux version \<close> banner of the image that is
  followed by a digit, and the triple in its text. Every well formed banner is read back.
\<close>

section \<open>The parser\<close>

definition BANNER :: "byte list" where
  "BANNER = as_bytes ''Linux version ''"

record kernel_version =
  raw_version :: string
  version_triple :: "u32 \<times> u32 \<times> u32"

definition version_byte :: "byte \<Rightarrow> bool" where
  "version_byte b \<longleftrightarrow> (48 \<le> b \<and> b \<le> 57) \<or> b = 46"

definition extract_version :: "byte list \<Rightarrow> nat \<Rightarrow> string" where
  "extract_version buf start = of_bytes (takeWhile version_byte (drop start buf))"

text \<open>The test of one position of the scan.\<close>

definition banner_at :: "byte list \<Rightarrow> nat \<Rightarrow> bool" where
  "banner_at buf i \<longleftrightarrow>
     window buf i (i + length BANNER) = BANNER \<and> i + length BANNER < length buf \<and>
     48 \<le> buf ! (i + length BANNER) \<and> buf ! (i + length BANNER) \<le> 57"

definition find_banner_version :: "byte list \<Rightarrow> string option" where
  "find_banner_version buf =
     (if length buf < length BANNER then None
      else map_option (\<lambda>i. extract_version buf (i + length BANNER))
        (List.find (banner_at buf) [0..<Suc (length buf - length BANNER)]))"

fun split_char :: "char \<Rightarrow> string \<Rightarrow> string list" where
  "split_char c [] = [[]]"
| "split_char c (x # xs) =
     (if x = c then [] # split_char c xs
      else case split_char c xs of [] \<Rightarrow> [[x]] | y # ys \<Rightarrow> (x # y) # ys)"

text \<open>The n-th part of the dotted text, zero when it is missing or is not a number.\<close>

definition version_part :: "string list \<Rightarrow> nat \<Rightarrow> u32" where
  "version_part ps n =
     (if n < length ps then
        (case u32_from_str_radix (ps ! n) 10 of Some v \<Rightarrow> v | None \<Rightarrow> 0)
      else 0)"

definition parse_triple :: "string \<Rightarrow> u32 \<times> u32 \<times> u32" where
  "parse_triple version =
     (let it = split_char CHR ''.'' version in (version_part it 0, version_part it 1, version_part it 2))"

definition from_kernel :: "byte list \<Rightarrow> kernel_version option" where
  "from_kernel buf =
     map_option (\<lambda>r. \<lparr>raw_version = r, version_triple = parse_triple r\<rparr>) (find_banner_version buf)"

definition triple :: "kernel_version \<Rightarrow> u32 \<times> u32 \<times> u32" where
  "triple v = version_triple v"

definition major :: "kernel_version \<Rightarrow> u32" where
  "major v = fst (triple v)"

definition minor :: "kernel_version \<Rightarrow> u32" where
  "minor v = fst (snd (triple v))"

definition patch :: "kernel_version \<Rightarrow> u32" where
  "patch v = snd (snd (triple v))"

text \<open>Rust's order of tuples.\<close>

fun triple_less :: "u32 \<times> u32 \<times> u32 \<Rightarrow> u32 \<times> u32 \<times> u32 \<Rightarrow> bool" where
  "triple_less (a, b, c) (x, y, z) \<longleftrightarrow> a < x \<or> a = x \<and> (b < y \<or> b = y \<and> c < z)"

definition is_less_than :: "kernel_version \<Rightarrow> u32 \<times> u32 \<times> u32 \<Rightarrow> bool" where
  "is_less_than v other \<longleftrightarrow> triple_less (triple v) other"

definition is_at_least :: "kernel_version \<Rightarrow> u32 \<times> u32 \<times> u32 \<Rightarrow> bool" where
  "is_at_least v other \<longleftrightarrow> \<not> triple_less (triple v) other"

section \<open>Reading a banner back\<close>

lemma split_char_join:
  "CHR ''.'' \<notin> set a \<Longrightarrow> split_char CHR ''.'' (a @ CHR ''.'' # s) = a # split_char CHR ''.'' s"
  by (induction a) auto

lemma split_char_end: "CHR ''.'' \<notin> set a \<Longrightarrow> split_char CHR ''.'' a = [a]"
  by (induction a) auto

lemma dec_no_dot: "CHR ''.'' \<notin> set (dec n)"
  using dec_digits [of "CHR ''.''" n] by (auto simp: is_ascii_digit_def)

definition version_text :: "u32 \<times> u32 \<times> u32 \<Rightarrow> string" where
  "version_text v = (case v of (a, b, c) \<Rightarrow>
     dec (unat a) @ CHR ''.'' # dec (unat b) @ CHR ''.'' # dec (unat c))"

lemma parse_triple_text: "parse_triple (version_text v) = v"
proof (cases v)
  case (fields a b c)
  show ?thesis
    by (simp add: fields version_text_def parse_triple_def Let_def split_char_join split_char_end dec_no_dot
        version_part_def u32_parse_dec)
qed

lemma version_text_bytes: "b \<in> set (as_bytes (version_text v)) \<Longrightarrow> version_byte b"
proof -
  assume b: "b \<in> set (as_bytes (version_text v))"
  have d: "version_byte b" if "b \<in> set (as_bytes (dec n))" for n
    using dec_ascii [OF that] by (simp add: version_byte_def word_le_nat_alt)
  show ?thesis using b d by (cases v) (auto simp: version_text_def as_bytes_def version_byte_def)
qed

lemma version_text_first: "as_bytes (version_text v) \<noteq> [] \<and>
  48 \<le> as_bytes (version_text v) ! 0 \<and> as_bytes (version_text v) ! 0 \<le> 57"
proof (cases v)
  case (fields a b c)
  obtain x xs where x: "dec (unat a) = x # xs" using dec_nonempty [of "unat a"] by (cases "dec (unat a)") auto
  have "of_char x \<in> set (as_bytes (dec (unat a)))" by (simp add: as_bytes_def x)
  from dec_ascii [OF this] show ?thesis
    by (simp add: fields version_text_def x as_bytes_def word_le_nat_alt)
qed

text \<open>The banner has no border: a second occurrence cannot overlap the first.\<close>

lemma banner_no_overlap:
  assumes "window (pre @ BANNER @ r) i (i + length BANNER) = BANNER" and "i < length pre"
  shows "i + length BANNER \<le> length pre"
proof (rule ccontr)
  assume n: "\<not> i + length BANNER \<le> length pre"
  have lb: "length BANNER = 14" by (simp add: BANNER_def)
  define k where "k = length pre - i"
  have k: "0 < k" "k < 14" using n assms(2) lb by (simp_all add: k_def)
  have "BANNER ! k = window (pre @ BANNER @ r) i (i + 14) ! k" using assms(1) lb by simp
  also have "\<dots> = (pre @ BANNER @ r) ! (i + k)"
    using k lb assms(2) by (intro nth_window) (simp_all add: k_def)
  also have "\<dots> = BANNER ! 0" using assms(2) lb by (simp add: k_def nth_append)
  finally have "BANNER ! k = BANNER ! 0" .
  moreover have "\<forall>k \<in> set [1..<14]. BANNER ! k \<noteq> BANNER ! 0"
    by (simp add: BANNER_def as_bytes_def upt_rec)
  ultimately show False using k by auto
qed

lemma find_upt_first:
  assumes "P n" and "n < m" and "\<forall>i < n. \<not> P i"
  shows "List.find P [0..<m] = Some n"
  using assms by (auto simp: find_Some_iff nth_append intro!: exI [of _ n])

text \<open>
  Every banner is read back: in an image whose first banner announces the version \<open>v\<close>, whatever
  precedes it (without a banner of its own) and whatever follows its digits, the parser finds exactly
  \<open>v\<close> and its text.
\<close>

theorem from_kernel_banner:
  assumes "\<forall>i. \<not> banner_at pre i" and "post = [] \<or> \<not> version_byte (post ! 0)"
  shows "from_kernel (pre @ BANNER @ as_bytes (version_text v) @ post) =
    Some \<lparr>raw_version = version_text v, version_triple = v\<rparr>"
proof -
  let ?t = "as_bytes (version_text v)"
  let ?buf = "pre @ BANNER @ ?t @ post"
  have lb: "length BANNER = 14" by (simp add: BANNER_def)
  have no: "\<not> banner_at ?buf i" if i: "i < length pre" for i
  proof
    assume b: "banner_at ?buf i"
    then have "window ?buf i (i + length BANNER) = BANNER" by (simp only: banner_at_def)
    from banner_no_overlap [OF this i] have le: "i + 14 \<le> length pre" unfolding lb .
    show False
    proof (cases "i + 14 < length pre")
      case True
      then have "banner_at pre i" using b lb by (simp add: banner_at_def window_append_left nth_append)
      with assms(1) show False by blast
    next
      case False
      then have "?buf ! (i + 14) = BANNER ! 0" using le lb by (simp add: nth_append)
      then have "?buf ! (i + 14) = 76" by (simp add: BANNER_def as_bytes_def)
      with b lb show False by (simp add: banner_at_def word_le_nat_alt)
    qed
  qed
  have t: "?t \<noteq> []" "48 \<le> ?t ! 0" "?t ! 0 \<le> 57" using version_text_first [of v] by blast+
  have yes: "banner_at ?buf (length pre)"
    using t lb by (cases "version_text v") (simp_all add: banner_at_def window_def nth_append)
  have "List.find (banner_at ?buf) [0..<Suc (length ?buf - 14)] = Some (length pre)"
    by (rule find_upt_first) (use yes no lb in simp_all)
  then have f: "find_banner_version ?buf = Some (extract_version ?buf (length pre + 14))"
    using lb by (simp add: find_banner_version_def)
  have "takeWhile version_byte (?t @ post) = ?t"
    using version_text_bytes [of _ v] assms(2) by (subst takeWhile_append2) (auto simp: takeWhile_eq_Nil_iff hd_conv_nth)
  then have "extract_version ?buf (length pre + 14) = version_text v"
    using lb by (simp add: extract_version_def)
  with f show ?thesis by (simp add: from_kernel_def parse_triple_text)
qed

theorem from_kernel_banner_witness:
  "from_kernel ([] @ BANNER @ as_bytes (version_text (6, 1, 25)) @ as_bytes ''-android14'') =
    Some \<lparr>raw_version = version_text (6, 1, 25), version_triple = (6, 1, 25)\<rparr>"
  by (rule from_kernel_banner) (simp_all add: banner_at_def as_bytes_def version_byte_def)

end
