(* ===== verification/Offsets.thy ===== *)
theory Offsets
  imports Asm_Mov Kernel_Version
begin

text \<open>
  The struct-offset finders of \<open>skroot/offsets.rs\<close>: register scans over the instruction words of a
  function body. A region is a pair of byte indices inside the image; its words are read in order.
\<close>

section \<open>Logical immediates\<close>

text \<open>\<open>u32::leading_zeros\<close>.\<close>

definition leading_zeros32 :: "u32 \<Rightarrow> nat" where
  "leading_zeros32 w = length (takeWhile (\<lambda>k. \<not> bit w k) (rev [0..<32]))"

definition rotate_right_in :: "u64 \<Rightarrow> nat \<Rightarrow> nat \<Rightarrow> u64" where
  "rotate_right_in v r sz =
     (if r = 0 then v
      else
        let msk = (if sz = 64 then - 1 else push_bit sz 1 - 1) in
        (drop_bit r v OR push_bit (sz - r) v) AND msk)"

text \<open>The loop that fills 64 bits with an element; \<open>sz\<close> is a power of two there, so positive.\<close>

function repeat_loop :: "u64 \<Rightarrow> nat \<Rightarrow> nat \<Rightarrow> u64 \<Rightarrow> u64" where
  "repeat_loop e sz sh out =
     (if sh < 64 \<and> 0 < sz then repeat_loop e sz (sh + sz) (out OR push_bit sh e) else out)"
  by pat_completeness auto
termination
  by (relation "measure (\<lambda>(e, sz, sh, out). 64 - sh)") auto

declare repeat_loop.simps [simp del]

definition insn_logical_imm64 :: "u32 \<Rightarrow> u64 option" where
  "insn_logical_imm64 insn =
     (let n = drop_bit 22 insn AND 1; immr = drop_bit 16 insn AND 0x3F;
          imms = drop_bit 10 insn AND 0x3F; nn = push_bit 6 n OR (NOT imms AND 0x3F) in
      if nn = 0 then None
      else
        let len = 31 - leading_zeros32 nn; sz = 2 ^ len;
            ones = unat (imms AND of_nat (sz - 1)) + 1 in
        if ones \<ge> sz then None
        else
          let pattern = push_bit ones 1 - 1;
              elem = rotate_right_in pattern (unat (immr AND of_nat (sz - 1))) sz in
          Some (repeat_loop elem sz 0 0))"

definition THREAD_SIZE_MASK :: u64 where "THREAD_SIZE_MASK = 0xFFFFFFFFFFFFC000"

section \<open>Register scans\<close>

record tracked_load =
  tl_dest :: u32
  tl_offset :: int

text \<open>The words of a region: \<open>while i + 4 <= end\<close> from \<open>start\<close> in steps of four.\<close>

definition code_words :: "byte list \<Rightarrow> nat \<Rightarrow> nat \<Rightarrow> u32 list" where
  "code_words buf s e = map (\<lambda>k. rd32_le buf (s + k * 4)) [0..<(e - s) div 4]"

definition find_current_reg :: "byte list \<Rightarrow> nat \<Rightarrow> nat \<Rightarrow> (nat \<times> u32) option" where
  "find_current_reg buf s e =
     (let ws = code_words buf s e in
      case List.find (\<lambda>i. is_mrs_sp_el0 (ws ! i)) [0..<length ws] of
        Some i \<Rightarrow> Some (i + 1, ws ! i AND 0x1F)
      | None \<Rightarrow>
          (case List.find (\<lambda>i. is_and_imm (ws ! i) \<and> insn_logical_imm64 (ws ! i) = Some THREAD_SIZE_MASK)
              [0..<length ws] of
             Some i \<Rightarrow> Some (i + 1, ws ! i AND 0x1F)
           | None \<Rightarrow> None))"

definition decode_base_offset :: "u32 \<Rightarrow> u32 \<Rightarrow> bool \<Rightarrow> tracked_load option" where
  "decode_base_offset w base with_str =
     (let rn = drop_bit 5 w AND 0x1F; dest = w AND 0x1F; imm12 = uint (drop_bit 10 w AND 0xFFF) in
      if rn \<noteq> base then None
      else if w AND 0xFFC00000 = 0xF9400000 then Some \<lparr>tl_dest = dest, tl_offset = imm12 * 8\<rparr>
      else if w AND 0xFFC00000 = 0xB9800000 then Some \<lparr>tl_dest = dest, tl_offset = imm12 * 4\<rparr>
      else if w AND 0xFFC00000 = 0x91000000 then Some \<lparr>tl_dest = dest, tl_offset = imm12\<rparr>
      else if with_str \<and> w AND 0xFFC00000 = 0xF9000000 then Some \<lparr>tl_dest = dest, tl_offset = imm12 * 8\<rparr>
      else None)"

definition track_loads ::
    "byte list \<Rightarrow> nat \<Rightarrow> nat \<Rightarrow> nat \<Rightarrow> u32 \<Rightarrow> bool \<Rightarrow> tracked_load list" where
  "track_loads buf s e first_idx base with_str =
     List.map_filter (\<lambda>w. decode_base_offset w base with_str) (drop first_idx (code_words buf s e))"

definition current_task_loads :: "byte list \<Rightarrow> nat \<Rightarrow> nat \<Rightarrow> tracked_load list" where
  "current_task_loads buf s e =
     (case find_current_reg buf s e of
        Some (idx, reg) \<Rightarrow> track_loads buf s e idx reg False
      | None \<Rightarrow> [])"

definition current_task_field_loads :: "byte list \<Rightarrow> nat \<Rightarrow> nat \<Rightarrow> (u32 \<times> int) list" where
  "current_task_field_loads buf s e =
     map (\<lambda>t. (tl_dest t, tl_offset t)) (current_task_loads buf s e)"

text \<open>The sum of a \<open>u64\<close> offset and size wraps.\<close>

definition region_bounds :: "byte list \<Rightarrow> u64 \<Rightarrow> u64 \<Rightarrow> (nat \<times> nat) option" where
  "region_bounds buf start sz =
     (if start = 0 \<or> sz = 0 then None
      else
        let s = unat start; e = unat (start + sz) in
        if e > length buf \<or> s \<ge> e then None else Some (s, e))"

definition first_large_load :: "byte list \<Rightarrow> u64 \<Rightarrow> u64 \<Rightarrow> u64 option" where
  "first_large_load buf start sz =
     Option.bind (region_bounds buf start sz) (\<lambda>(s, e).
     map_option (\<lambda>t. of_int (tl_offset t))
       (List.find (\<lambda>t. tl_offset t > 0x400) (current_task_loads buf s e)))"

definition find_cred_offset :: "byte list \<Rightarrow> u64 \<Rightarrow> u64 \<Rightarrow> u64 option" where
  "find_cred_offset buf start sz = first_large_load buf start sz"

definition find_seccomp_offset :: "byte list \<Rightarrow> u64 \<Rightarrow> u64 \<Rightarrow> u64 option" where
  "find_seccomp_offset buf start sz = first_large_load buf start sz"

section \<open>Displacements and immediates\<close>

definition mem_disp :: "u32 \<Rightarrow> int option" where
  "mem_disp w =
     (if w AND 0x3B000000 = 0x39000000
      then Some (push_bit (unat (drop_bit 30 w)) (uint (drop_bit 10 w AND 0xFFF))) else None)"

text \<open>\<open>imm16 << 48\<close> is an \<open>i64\<close> whose sign is its top bit.\<close>

definition imm_operands :: "u32 \<Rightarrow> int list" where
  "imm_operands w =
     (if w AND 0x1F000000 = 0x11000000 then
        [push_bit (if drop_bit 22 w AND 1 = 1 then 12 else 0) (uint (drop_bit 10 w AND 0xFFF))]
      else if w AND 0x1F800000 = 0x12800000 then
        [sint (push_bit (unat (drop_bit 21 w AND 3) * 16) (ucast (drop_bit 5 w AND 0xFFFF) :: u64))]
      else [])"

definition word_offsets :: "u32 \<Rightarrow> int list" where
  "word_offsets w =
     (if is_b w then []
      else (case mem_disp w of Some d \<Rightarrow> if d > 0 then [d] else [] | None \<Rightarrow> []) @
        filter (\<lambda>i. i > 0) (imm_operands w))"

definition imm_register_offsets :: "byte list \<Rightarrow> nat \<Rightarrow> nat \<Rightarrow> int list" where
  "imm_register_offsets buf s e = concat (map word_offsets (code_words buf s e))"

text \<open>\<open>position\<close> consumes the iterator up to and including the match.\<close>

definition after_first :: "('a \<Rightarrow> bool) \<Rightarrow> 'a list \<Rightarrow> 'a list option" where
  "after_first P xs =
     (case dropWhile (\<lambda>x. \<not> P x) xs of [] \<Rightarrow> None | _ # r \<Rightarrow> Some r)"

definition find_cred_uid_offset :: "byte list \<Rightarrow> u64 \<Rightarrow> u64 \<Rightarrow> u64 \<Rightarrow> int \<Rightarrow> u64 option" where
  "find_cred_uid_offset buf start sz cred_offset min_off =
     Option.bind (region_bounds buf start sz) (\<lambda>(s, e).
     Option.bind (after_first (\<lambda>v. v = sint cred_offset) (imm_register_offsets buf s e)) (\<lambda>r.
     map_option of_int (List.find (\<lambda>v. v \<ge> min_off \<and> v \<le> 0x20) r)))"

definition cred_uid_min_off :: "u32 \<times> u32 \<times> u32 \<Rightarrow> int" where
  "cred_uid_min_off version = (if triple_less version (6, 6, 8) then 4 else 8)"

section \<open>The Huawei structure\<close>

definition sign_extend64 :: "int \<Rightarrow> nat \<Rightarrow> int" where
  "sign_extend64 value bits = sint (signed_drop_bit (64 - bits) (push_bit (64 - bits) (of_int value :: u64)))"

definition adrp_page :: "u32 \<Rightarrow> int \<Rightarrow> int" where
  "adrp_page w insn_off =
     (let immlo = uint (drop_bit 29 w AND 3); immhi = uint (drop_bit 5 w AND 0x7FFFF);
          pages = sign_extend64 (push_bit 2 immhi OR immlo) 21
      in (insn_off AND NOT 0xFFF) + push_bit 12 pages)"

fun huawei_scan :: "byte list \<Rightarrow> nat \<Rightarrow> nat \<Rightarrow> nat list \<Rightarrow> u64 option" where
  "huawei_scan buf s e [] = None"
| "huawei_scan buf s e (k # ks) =
     (let w = rd32_le buf (s + k * 4) in
      if is_adrp w then
        (case track_loads buf s e (k + 1) (w AND 0x1F) True of
           first # _ \<Rightarrow> Some (of_int (adrp_page w (int (s + k * 4)) + tl_offset first))
         | [] \<Rightarrow> huawei_scan buf s e ks)
      else huawei_scan buf s e ks)"

definition find_huawei_kti_addr :: "byte list \<Rightarrow> u64 \<Rightarrow> u64 \<Rightarrow> u64 option" where
  "find_huawei_kti_addr buf start sz =
     Option.bind (region_bounds buf start sz) (\<lambda>(s, e). huawei_scan buf s e [0..<(e - s) div 4])"

section \<open>The decoder is the architecture's\<close>

lemma leading_zeros_highest:
  assumes "\<forall>k \<ge> 7. \<not> bit (v :: u32) k"
  shows "highest_bit v = (if v = 0 then None else Some (31 - leading_zeros32 v))"
proof (cases "v = 0")
  case True
  then show ?thesis by (simp add: highest_bit_def find_None_iff)
next
  case False
  then obtain k where k: "bit v k" "k < 7" using assms by (metis bit_eqI bit_0_eq bot_apply bot_bool_def not_le)
  have up: "rev [0..<32] = [31, 30, 29, 28, 27, 26, 25, 24, 23, 22, 21, 20, 19, 18, 17, 16, 15, 14, 13, 12, 11, 10,
    9, 8, 7] @ rev [0..<7]" by (simp add: upt_rec)
  have no: "\<forall>k \<in> set [31, 30, 29, 28, 27, 26, 25, 24, 23, 22, 21, 20, 19, 18, 17, 16, 15, 14, 13, 12, 11, 10,
    9, 8, 7 :: nat]. \<not> bit v k" using assms by simp
  have lz: "leading_zeros32 v = 25 + length (takeWhile (\<lambda>k. \<not> bit v k) (rev [0..<7]))"
  proof -
    have "takeWhile (\<lambda>k. \<not> bit v k) ([31, 30, 29, 28, 27, 26, 25, 24, 23, 22, 21, 20, 19, 18, 17, 16, 15, 14, 13,
        12, 11, 10, 9, 8, 7] @ rev [0..<7]) = [31, 30, 29, 28, 27, 26, 25, 24, 23, 22, 21, 20, 19, 18, 17, 16, 15, 14,
        13, 12, 11, 10, 9, 8, 7] @ takeWhile (\<lambda>k. \<not> bit v k) (rev [0..<7])"
      by (rule takeWhile_append2) (use no in blast)
    then show ?thesis unfolding leading_zeros32_def up by simp
  qed
  have "k = 0 \<or> k = 1 \<or> k = 2 \<or> k = 3 \<or> k = 4 \<or> k = 5 \<or> k = 6" using k(2) by auto
  then show ?thesis
    using k(1) False unfolding lz highest_bit_def by (auto simp: upt_rec numeral_eq_Suc)
qed

lemma repeat_loop_spec:
  assumes "0 < sz" and "sz * m = 64" and "j \<le> m"
  shows "repeat_loop e sz (sz * j) out = foldr (\<lambda>k acc. push_bit (sz * k) e OR acc) [j..<m] 0 OR out"
    (is "_ = ?G j OR out")
  using assms(3)
proof (induction "m - j" arbitrary: j out)
  case 0
  then have "j = m" by simp
  then show ?case using assms(2) by (subst repeat_loop.simps) simp
next
  case (Suc d)
  then have j: "j < m" by simp
  then have lt: "sz * j < 64" using assms(1,2) by (metis mult_less_cancel1)
  have "repeat_loop e sz (sz * j) out = repeat_loop e sz (sz * Suc j) (out OR push_bit (sz * j) e)"
    using lt assms(1) by (subst repeat_loop.simps) (simp add: add.commute)
  also have "\<dots> = ?G (Suc j) OR (out OR push_bit (sz * j) e)"
    using Suc(1) [of "Suc j"] Suc(2) j by simp
  also have "\<dots> = (push_bit (sz * j) e OR ?G (Suc j)) OR out"
    by (simp only: or.assoc or.commute [of out] or.left_commute)
  also have "push_bit (sz * j) e OR ?G (Suc j) = ?G j"
    using j by (simp add: upt_conv_Cons)
  finally show ?case .
qed

lemma rotate_right_in_eq: "rotate_right_in v r sz = rotate_right_in_size v r sz"
  by (simp add: rotate_right_in_def rotate_right_in_size_def Let_def)

lemma insn_logical_imm64_eq:
  "insn_logical_imm64 w =
     decode_logical_imm64 (drop_bit 22 w AND 1) (drop_bit 16 w AND 0x3F) (drop_bit 10 w AND 0x3F)"
proof -
  define n where "n = drop_bit 22 w AND 1"
  define immr where "immr = drop_bit 16 w AND 0x3F"
  define imms where "imms = drop_bit 10 w AND 0x3F"
  define nn where "nn = push_bit 6 n OR (NOT imms AND 0x3F)"
  have m: "(1 :: u32) = mask 1" "(0x3F :: u32) = mask 6" by (simp_all add: mask_numeral)
  have nn7: "\<forall>k \<ge> 7. \<not> bit nn k"
  proof -
    have "bit n j \<Longrightarrow> j = 0" for j by (simp add: n_def bit_and_iff bit_1_iff)
    moreover have "bit (0x3F :: u32) j \<Longrightarrow> j < 6" for j unfolding m(2) by (simp add: bit_simps)
    ultimately show ?thesis by (fastforce simp: nn_def bit_or_iff bit_and_iff bit_push_bit_iff)
  qed
  have hb: "highest_bit nn = (if nn = 0 then None else Some (31 - leading_zeros32 nn))"
    by (rule leading_zeros_highest [OF nn7])
  show ?thesis
  proof (cases "nn = 0")
    case True
    then show ?thesis
      using hb unfolding insn_logical_imm64_def decode_logical_imm64_def Let_def
      by (simp flip: n_def immr_def imms_def nn_def)
  next
    case False
    define len where "len = 31 - leading_zeros32 nn"
    define sz where "sz = (2 :: nat) ^ len"
    define ones where "ones = unat (imms AND of_nat (sz - 1)) + 1"
    define r0 where "r0 = unat (immr AND of_nat (sz - 1))"
    have some: "highest_bit nn = Some len" using hb False by (simp add: len_def)
    then have "len \<in> set (rev [0..<7])" unfolding highest_bit_def find_Some_iff by (metis nth_mem)
    then have l7: "len < 7" by simp
    then have sz64: "sz \<le> 64" using power_increasing [of len 6 "2 :: nat"] by (simp add: sz_def)
    have mult: "sz * (64 div sz) = 64"
    proof -
      have "len = 0 \<or> len = 1 \<or> len = 2 \<or> len = 3 \<or> len = 4 \<or> len = 5 \<or> len = 6" using l7 by linarith
      then show ?thesis by (elim disjE) (simp_all add: sz_def)
    qed
    have R: "insn_logical_imm64 w = (if ones \<ge> sz then None
        else Some (repeat_loop (rotate_right_in (push_bit ones 1 - 1) r0 sz) sz 0 0))"
      unfolding insn_logical_imm64_def Let_def n_def [symmetric] immr_def [symmetric] imms_def [symmetric]
        nn_def [symmetric] if_not_P [OF False] len_def [symmetric] sz_def [symmetric] ones_def [symmetric]
        r0_def [symmetric] by (rule refl)
    have D: "decode_logical_imm64 n immr imms = (if ones \<ge> sz then None
        else Some (replicate_element sz (ror_element sz r0 (mask ones))))"
      unfolding decode_logical_imm64_def Let_def nn_def [symmetric] some option.case sz_def [symmetric]
        ones_def [symmetric] r0_def [symmetric] by (rule refl)
    have "repeat_loop e sz 0 0 = replicate_element sz e" for e
      using repeat_loop_spec [OF _ mult, of 0 e 0] by (simp add: sz_def replicate_element_def)
    moreover have "rotate_right_in (push_bit ones 1 - 1) r sz = ror_element sz r (mask ones)"
      if "ones < sz" "r < sz" for r
    proof -
      have p: "(push_bit ones 1 - 1 :: u64) = mask ones" by (simp add: mask_eq_exp_minus_1 push_bit_eq_mult)
      have "take_bit sz (mask ones :: u64) = mask ones"
        using that by (intro bit_word_eqI) (auto simp: bit_simps)
      then show ?thesis
        unfolding p rotate_right_in_eq using that sz64 by (intro rotate_right_in_size_eq)
    qed
    moreover have "r0 < sz"
    proof -
      have "unat (immr AND of_nat (sz - 1)) \<le> unat (of_nat (sz - 1) :: u32)"
        using word_and_le1 [of immr "of_nat (sz - 1)"] by (simp add: word_le_nat_alt)
      also have "\<dots> \<le> sz - 1" unfolding unat_of_nat by (rule mod_less_eq_dividend)
      finally have "unat (immr AND of_nat (sz - 1)) \<le> sz - 1" .
      moreover have "0 < sz" by (simp add: sz_def)
      ultimately show ?thesis unfolding r0_def by linarith
    qed
    ultimately show ?thesis
      unfolding n_def [symmetric] immr_def [symmetric] imms_def [symmetric] R D by (cases "ones \<ge> sz") simp_all
  qed
qed

section \<open>What the scans find\<close>

text \<open>An instruction that puts \<open>current\<close> into a register.\<close>

definition current_into :: "u32 \<Rightarrow> u32 \<Rightarrow> bool" where
  "current_into w r \<longleftrightarrow> r = w AND 0x1F \<and>
     (is_mrs_sp_el0 w \<or> is_and_imm w \<and>
       decode_logical_imm64 (drop_bit 22 w AND 1) (drop_bit 16 w AND 0x3F) (drop_bit 10 w AND 0x3F) =
         Some THREAD_SIZE_MASK)"

lemma find_current_reg_Some:
  assumes "find_current_reg buf s e = Some (idx, r)"
  shows "\<exists>i < length (code_words buf s e). idx = i + 1 \<and> current_into (code_words buf s e ! i) r"
  using assms
  by (auto simp: find_current_reg_def Let_def current_into_def insn_logical_imm64_eq find_Some_iff
      split: option.splits)

lemma map_filter_find_first:
  assumes "List.find P (List.map_filter f ws) = Some t"
  shows "\<exists>j < length ws. f (ws ! j) = Some t \<and> P t \<and> (\<forall>k < j. \<forall>u. f (ws ! k) = Some u \<longrightarrow> \<not> P u)"
  using assms
proof (induction ws)
  case (Cons w ws)
  show ?case
  proof (cases "\<exists>u. f w = Some u \<and> P u")
    case True
    then obtain u where u: "f w = Some u" "P u" by blast
    then have "t = u" using Cons(2) by (simp add: List.map_filter_simps)
    then show ?thesis using u by (intro exI [of _ 0]) simp
  next
    case False
    then have "List.find P (List.map_filter f ws) = Some t"
      using Cons(2) by (auto simp: List.map_filter_simps split: option.splits if_splits)
    then obtain j where "j < length ws" "f (ws ! j) = Some t" "P t"
      "\<forall>k < j. \<forall>u. f (ws ! k) = Some u \<longrightarrow> \<not> P u" using Cons(1) by blast
    then show ?thesis using False
      by (intro exI [of _ "Suc j"]) (auto simp: nth_Cons' less_Suc_eq_0_disj)
  qed
qed (simp add: List.map_filter_simps)

text \<open>
  The scanner reads the immediates the assembler writes: when \<open>and_imm_x\<close> accepts a mask, the word
  it appends is recognised as \<open>and\<close> immediate into the same register and decodes to that mask.
\<close>

theorem and_imm_x_read_back:
  assumes "fst (and_imm_x a rd rn v)" and "rd < 31" and "rn \<le> 31"
  shows "\<exists>w. snd (and_imm_x a rd rn v) = asm_word a w \<and> is_and_imm w \<and>
    insn_logical_imm64 w = Some v \<and> w AND 0x1F = rd"
proof -
  from assms(1) obtain n immr imms where enc: "encode_logical_imm64 v = Some (n, immr, imms)"
    by (auto simp: and_imm_x_def split: option.splits)
  note s = encode_logical_imm64_sound [OF enc]
  have m: "(31 :: u32) = mask 5" "(0x3F :: u32) = mask 6" "(1 :: u32) = mask 1"
    "(0x7F800000 :: u32) = push_bit 23 (mask 8)"
    by (simp_all add: mask_eq_exp_minus_1)
  have rd31: "rd AND 31 = rd" "rn AND 31 = rn" "rd \<noteq> 31"
    using assms by (auto intro: le31_and)
  have base: "(0x92000000 :: u32) AND mask 23 = 0" by (simp add: mask_eq_exp_minus_1)
  note f = logical_word_fields [OF base le1_and [OF s(2)] s(3,4) [unfolded m(2)] rd31(2,1) [unfolded m(1)]]
  let ?w = "logical_word 0x92000000 n immr imms rn rd"
  have "snd (and_imm_x a rd rn v) = asm_word a ?w"
    by (simp add: and_imm_x_def enc logical_word_def)
  moreover have "is_and_imm ?w" "insn_logical_imm64 ?w = Some v" "?w AND 0x1F = rd"
    using f s(1) unfolding is_and_imm_def insn_is_def insn_logical_imm64_eq m
    by (simp_all add: mask_eq_exp_minus_1)
  ultimately show ?thesis by blast
qed

text \<open>
  A \<open>cred\<close> offset that is reported is what the scan claims: some instruction of the region puts
  \<open>current\<close> into a register, and a later one is the first 64-bit load, sign-extending load or
  addition off that register whose displacement is beyond \<open>0x400\<close>.
\<close>

theorem find_cred_offset_sound:
  assumes "find_cred_offset buf start sz = Some off"
  shows "\<exists>i j r ld. let ws = code_words buf (unat start) (unat (start + sz)) in
    unat (start + sz) \<le> length buf \<and> i < j \<and> j < length ws \<and> current_into (ws ! i) r \<and>
    decode_base_offset (ws ! j) r False = Some ld \<and> off = of_int (tl_offset ld) \<and> tl_offset ld > 0x400 \<and>
    (\<forall>k \<in> {i<..<j}. \<forall>u. decode_base_offset (ws ! k) r False = Some u \<longrightarrow> tl_offset u \<le> 0x400)"
proof -
  let ?s = "unat start" and ?e = "unat (start + sz)"
  define ws where "ws = code_words buf ?s ?e"
  from assms obtain t where rb: "?e \<le> length buf" and t: "off = of_int (tl_offset t)"
    "List.find (\<lambda>t. tl_offset t > 0x400) (current_task_loads buf ?s ?e) = Some t"
    by (auto simp: find_cred_offset_def first_large_load_def region_bounds_def Let_def bind_eq_Some_conv split: if_splits)
  then obtain idx r where ir: "find_current_reg buf ?s ?e = Some (idx, r)"
    "List.find (\<lambda>t. tl_offset t > 0x400) (track_loads buf ?s ?e idx r False) = Some t"
    by (auto simp: current_task_loads_def split: option.splits)
  from find_current_reg_Some [OF ir(1)] obtain i where i: "i < length ws" "idx = i + 1" "current_into (ws ! i) r"
    by (auto simp: ws_def)
  from map_filter_find_first [OF ir(2) [unfolded track_loads_def]] obtain j where
    j: "j < length (drop idx ws)" "decode_base_offset (drop idx ws ! j) r False = Some t" "tl_offset t > 0x400"
    "\<forall>k < j. \<forall>u. decode_base_offset (drop idx ws ! k) r False = Some u \<longrightarrow> \<not> tl_offset u > 0x400"
    by (auto simp: ws_def)
  have first: "tl_offset u \<le> 0x400"
    if k: "k \<in> {i<..<i + 1 + j}" and u: "decode_base_offset (ws ! k) r False = Some u" for k u
  proof -
    have "drop idx ws ! (k - (i + 1)) = ws ! k" using k j(1) i by simp
    moreover have "k - (i + 1) < j" using k by auto
    ultimately show ?thesis using j(4) u by fastforce
  qed
  show ?thesis
    unfolding Let_def ws_def [symmetric]
    using i j rb t(1) first by (intro exI [of _ i] exI [of _ "i + 1 + j"] exI [of _ r] exI [of _ t]) auto
qed

text \<open>
  The \<open>uid\<close> slot that is reported is a credential layout the hook knows: it is at least the
  minimum of the kernel version and at most \<open>0x20\<close>.
\<close>

theorem find_cred_uid_offset_bounds:
  assumes "find_cred_uid_offset buf start sz cred_offset (cred_uid_min_off version) = Some v"
  shows "4 \<le> v \<and> v \<le> 0x20 \<and> (\<not> triple_less version (6, 6, 8) \<longrightarrow> 8 \<le> v)"
proof -
  from assms obtain x where x: "v = of_int x" "cred_uid_min_off version \<le> x" "x \<le> 0x20"
    by (auto simp: find_cred_uid_offset_def bind_eq_Some_conv find_Some_iff split: prod.splits)
  have m: "cred_uid_min_off version \<ge> 4" "\<not> triple_less version (6, 6, 8) \<Longrightarrow> cred_uid_min_off version = 8"
    by (auto simp: cred_uid_min_off_def)
  have "uint v = x" using x m by (simp add: x(1) uint_word_of_int_eq take_bit_int_eq_self_iff)
  then show ?thesis using x m by (auto simp: word_le_def)
qed

section \<open>The function of the code's tests\<close>

text \<open>\<open>nop; mrs x0, sp_el0; ldr x0, [x0, #0x5a8]; ldr x1, [x0, #8]; ret\<close>.\<close>

definition getuid_code :: "byte list" where
  "getuid_code = concat (map u32_le [0xD503201F, 0xD5384100, 0xF942D400, 0xF9400401, 0xD65F03C0])"

lemma getuid_words:
  "code_words getuid_code 4 20 = [0xD5384100, 0xF942D400, 0xF9400401, 0xD65F03C0]" "length getuid_code = 20"
proof -
  have w: "rd32_le getuid_code 4 = 0xD5384100" "rd32_le getuid_code 8 = 0xF942D400"
    "rd32_le getuid_code 12 = 0xF9400401" "rd32_le getuid_code 16 = 0xD65F03C0"
    by (simp_all add: getuid_code_def u32_le_def rd32_le_def u32_of_le_def)
  show "code_words getuid_code 4 20 = [0xD5384100, 0xF942D400, 0xF9400401, 0xD65F03C0]"
    by (simp add: code_words_def upt_rec w)
  show "length getuid_code = 20" by (simp add: getuid_code_def)
qed

lemma getuid_region: "region_bounds getuid_code 4 16 = Some (4, 20)"
  by (simp add: region_bounds_def Let_def getuid_words)

lemma getuid_cred: "find_cred_offset getuid_code 4 16 = Some 0x5a8"
  by (simp add: find_cred_offset_def first_large_load_def getuid_region current_task_loads_def find_current_reg_def
      track_loads_def getuid_words Let_def upt_rec insn_defs insn_is_def decode_base_offset_def
      List.map_filter_simps)

theorem find_cred_offset_sound_witness:
  "find_cred_offset getuid_code 4 16 = Some 0x5a8 \<and> (\<exists>i j r. i < j \<and> j < 4 \<and>
    current_into (code_words getuid_code 4 20 ! i) r)"
proof -
  have r: "unat (4 :: u64) = 4" "unat (4 + 16 :: u64) = 20" by simp_all
  from find_cred_offset_sound [OF getuid_cred, unfolded Let_def r] obtain i j r where
    "i < j" "j < length (code_words getuid_code 4 20)" "current_into (code_words getuid_code 4 20 ! i) r" by blast
  moreover have "length (code_words getuid_code 4 20) = 4" by (simp add: getuid_words)
  ultimately show ?thesis using getuid_cred by metis
qed

theorem find_cred_uid_offset_bounds_witness:
  "find_cred_uid_offset getuid_code 4 16 0x5a8 (cred_uid_min_off (6, 1, 25)) = Some 8 \<and> (8 :: u64) \<le> 0x20"
proof -
  have "find_cred_uid_offset getuid_code 4 16 0x5a8 (cred_uid_min_off (6, 1, 25)) = Some 8"
    by (simp add: find_cred_uid_offset_def getuid_region imm_register_offsets_def getuid_words word_offsets_def
        insn_defs insn_is_def mem_disp_def imm_operands_def after_first_def cred_uid_min_off_def)
  from find_cred_uid_offset_bounds [OF this] this show ?thesis by simp
qed

theorem and_imm_x_read_back_witness:
  "\<exists>w. snd (and_imm_x asm_new 0 1 0xFFFFFFFFFFFFC000) = asm_word asm_new w \<and>
    insn_logical_imm64 w = Some 0xFFFFFFFFFFFFC000"
proof -
  have "fst (and_imm_x asm_new 0 1 0xFFFFFFFFFFFFC000)" by (simp add: and_imm_x_def sample_logical_imm)
  from and_imm_x_read_back [OF this] show ?thesis by auto
qed

end
