(* ===== verification/Patch_Bytes.thy ===== *)
theory Patch_Bytes
  imports Insn
begin

text \<open>
  The patch records of \<open>skroot/patch_bytes.rs\<close> and the patches that neutralise a function. Each
  operation takes the list of writes so far and returns the number of bytes of its write together with
  the new list. \<open>None\<close> is a panic: the guard \<open>i + 4 > buf.len()\<close> wraps for the last four addresses
  and then lets an address outside the image through.
\<close>

record patch_bytes =
  pb_addr :: u64
  pb_bytes :: "byte list"

definition BTI_JC :: "byte list" where "BTI_JC = [0xDF, 0x24, 0x03, 0xD5]"
definition RET :: "byte list" where "RET = [0xC0, 0x03, 0x5F, 0xD6]"
definition MOVZ_X0_1 :: "byte list" where "MOVZ_X0_1 = [0x20, 0x00, 0x80, 0xD2]"
definition MOV_W0_WZR :: "byte list" where "MOV_W0_WZR = [0xE0, 0x03, 0x1F, 0x2A]"

definition entry_needs_landing_pad :: "byte list \<Rightarrow> u64 \<Rightarrow> bool option" where
  "entry_needs_landing_pad buf addr =
     (let i = unat addr in
      if usize_add i 4 > length buf then Some False else map_option is_pac_or_bti (rd32_at buf i))"

definition emit_patch ::
    "byte list \<Rightarrow> u64 \<Rightarrow> byte list \<Rightarrow> patch_bytes list \<Rightarrow> (nat \<times> patch_bytes list) option" where
  "emit_patch buf addr body out =
     (if addr = 0 then Some (0, out)
      else
        Option.bind (entry_needs_landing_pad buf addr) (\<lambda>pad.
          let bytes = (if pad then BTI_JC else []) @ body in
          Some (length bytes, out @ [\<lparr>pb_addr = addr, pb_bytes = bytes\<rparr>])))"

definition patch_ret :: "byte list \<Rightarrow> u64 \<Rightarrow> patch_bytes list \<Rightarrow> (nat \<times> patch_bytes list) option" where
  "patch_ret buf start out = emit_patch buf start RET out"

definition patch_ret_1 :: "byte list \<Rightarrow> u64 \<Rightarrow> patch_bytes list \<Rightarrow> (nat \<times> patch_bytes list) option" where
  "patch_ret_1 buf start out = emit_patch buf start (MOVZ_X0_1 @ RET) out"

definition patch_ret_0 :: "byte list \<Rightarrow> u64 \<Rightarrow> patch_bytes list \<Rightarrow> (nat \<times> patch_bytes list) option" where
  "patch_ret_0 buf start out = emit_patch buf start (MOV_W0_WZR @ RET) out"

definition patch_data :: "u64 \<Rightarrow> byte list \<Rightarrow> patch_bytes list \<Rightarrow> nat \<times> patch_bytes list" where
  "patch_data start data out =
     (if start = 0 then (0, out) else (length data, out @ [\<lparr>pb_addr = start, pb_bytes = data\<rparr>]))"

section \<open>What a neutralised function looks like\<close>

text \<open>Placing a write in the image, as the caller does with the collected list.\<close>

definition apply_patch :: "byte list \<Rightarrow> patch_bytes \<Rightarrow> byte list" where
  "apply_patch buf p = write_at buf (unat (pb_addr p)) (pb_bytes p)"

lemma landing_pad_word: "rd32_le (BTI_JC @ r) 0 = 0xD50324DF" "is_bti 0xD50324DF"
  by (simp_all add: BTI_JC_def rd32_le_def u32_of_le_def insn_defs insn_is_def)

lemma ret_word: "rd32_le (RET @ r) 0 = 0xD65F03C0" "is_ret 0xD65F03C0"
  by (simp_all add: RET_def rd32_le_def u32_of_le_def insn_defs insn_is_def)

lemma rd32_le_skip: "rd32_le (xs @ ys) (length xs) = rd32_le ys 0"
  by (simp add: rd32_le_def nth_append) (simp add: numeral_2_eq_2)

lemma rd32_le_write_at:
  assumes "p + length ys \<le> length xs" and "q + 4 \<le> length ys"
  shows "rd32_le (write_at xs p ys) (p + q) = rd32_le ys q"
  using assms by (simp add: rd32_le_def nth_write_at add.assoc)

text \<open>
  A function inside the image neutralised by \<open>patch_ret\<close> returns at once and stays a valid branch target: the
  write is reported with its length, and in the patched image its first instruction is \<open>bti\<close> exactly
  when the original entry was a pointer-authentication or \<open>bti\<close> instruction, followed by \<open>ret\<close>.
\<close>

theorem patch_ret_neutralises:
  assumes "start \<noteq> 0" and "unat start + 8 \<le> length buf" and "length buf < 2 ^ 63"
  shows "\<exists>p. patch_ret buf start out = Some (length (pb_bytes p), out @ [p]) \<and> pb_addr p = start \<and>
    (let img = apply_patch buf p; i = unat start in
       length img = length buf \<and>
       (if is_pac_or_bti (rd32_le buf i) then is_bti (rd32_le img i) \<and> is_ret (rd32_le img (i + 4))
        else is_ret (rd32_le img i) \<and> rd32_le img (i + 4) = rd32_le buf (i + 4)))"
proof -
  let ?i = "unat start"
  define bytes where "bytes = (if is_pac_or_bti (rd32_le buf ?i) then BTI_JC else []) @ RET"
  define p where "p = \<lparr>pb_addr = start, pb_bytes = bytes\<rparr>"
  have len: "length bytes = (if is_pac_or_bti (rd32_le buf ?i) then 8 else 4)"
    by (simp add: bytes_def BTI_JC_def RET_def)
  have fits: "?i + length bytes \<le> length buf" using assms(2) len by simp
  have "patch_ret buf start out = Some (length (pb_bytes p), out @ [p])"
    using assms by (simp add: patch_ret_def emit_patch_def entry_needs_landing_pad_def p_def bytes_def)
  moreover have "length (apply_patch buf p) = length buf" using fits by (simp add: apply_patch_def p_def)
  moreover have "is_bti (rd32_le (apply_patch buf p) ?i) \<and> is_ret (rd32_le (apply_patch buf p) (?i + 4))"
    if "is_pac_or_bti (rd32_le buf ?i)"
  proof -
    have b: "bytes = BTI_JC @ RET" and l: "length BTI_JC = 4" using that by (simp_all add: bytes_def BTI_JC_def)
    have "rd32_le (apply_patch buf p) (?i + 0) = rd32_le bytes 0"
      unfolding apply_patch_def p_def using fits len that by (simp add: rd32_le_write_at [of _ _ _ 0, simplified])
    moreover have "rd32_le (apply_patch buf p) (?i + 4) = rd32_le bytes 4"
      unfolding apply_patch_def p_def using fits len that by (simp add: rd32_le_write_at)
    ultimately show ?thesis
      using landing_pad_word ret_word(1) [of "[]"] ret_word(2) rd32_le_skip [of BTI_JC RET] l by (simp add: b)
  qed
  moreover have "is_ret (rd32_le (apply_patch buf p) ?i) \<and> rd32_le (apply_patch buf p) (?i + 4) = rd32_le buf (?i + 4)"
    if "\<not> is_pac_or_bti (rd32_le buf ?i)"
  proof -
    have b: "bytes = RET" using that by (simp add: bytes_def)
    have "rd32_le (apply_patch buf p) (?i + 0) = rd32_le bytes 0"
      unfolding apply_patch_def p_def using fits len that by (simp add: rd32_le_write_at [of _ _ _ 0, simplified])
    moreover have "rd32_le (apply_patch buf p) (?i + 4) = rd32_le buf (?i + 4)"
      using assms(2) len that by (simp add: apply_patch_def p_def rd32_le_def nth_write_at)
    ultimately show ?thesis using ret_word(1) [of "[]"] ret_word(2) by (simp add: b)
  qed
  ultimately show ?thesis unfolding Let_def by (intro exI [of _ p]) (simp add: p_def)
qed

text \<open>\<open>nop; paciasp; nop\<close>, patched at its second word.\<close>

definition pac_entry :: "byte list" where
  "pac_entry = concat (map u32_le [0xD503201F, 0xD503233F, 0xD503201F])"

theorem patch_ret_neutralises_witness:
  "\<exists>p. patch_ret pac_entry 4 [] = Some (length (pb_bytes p), [p]) \<and> is_bti (rd32_le (apply_patch pac_entry p) 4)"
proof -
  have "length pac_entry = 12" "is_pac_or_bti (rd32_le pac_entry 4)"
    by (simp_all add: pac_entry_def u32_le_def rd32_le_def u32_of_le_def is_pac_or_bti_def insn_defs insn_is_def)
  then show ?thesis using patch_ret_neutralises [of 4 pac_entry "[]"] by (auto simp: Let_def)
qed

end
