(* ===== verification/Init_Cred.thy ===== *)
theory Init_Cred
  imports Rust_Str
begin

text \<open>
  The search for \<open>init_cred\<close> of \<open>skroot/init_cred.rs\<close>: the candidate byte patterns and the scan of the
  image at multiples of four.
\<close>

definition ATOMIC_INIT_4 :: u64 where "ATOMIC_INIT_4 = 4"

definition CAP_FULL_SETS :: "u64 list" where
  "CAP_FULL_SETS = [0x1FFFFFFFFFF, 0x0FFFFFFFFFF, 0x03FFFFFFFFF, 0x07FFFFFFFFF, 0x01FFFFFFFFF]"

record init_cred =
  ic_head :: "byte list"
  atomic_usage_size :: nat
  securebits_size :: nat
  cap_cnt :: int
  cap_ability_max :: u64
  ic_offset :: u64

definition u64_le :: "u64 \<Rightarrow> byte list" where
  "u64_le w = map (\<lambda>k. ucast (drop_bit (8 * k) w)) [0..<8]"

definition push_int :: "byte list \<Rightarrow> u64 \<Rightarrow> nat \<Rightarrow> byte list" where
  "push_int out v sz = out @ take sz (u64_le v)"

definition head_block :: "nat \<Rightarrow> nat \<Rightarrow> byte list" where
  "head_block usage_size sec_size =
     (let b = push_int [] ATOMIC_INIT_4 usage_size; b = b @ replicate 32 0 in push_int b 0 sec_size)"

definition capability_block :: "u64 \<Rightarrow> byte list" where
  "capability_block cap_max = u64_le 0 @ u64_le cap_max @ u64_le cap_max @ u64_le cap_max"

definition build_candidates :: "nat \<Rightarrow> int \<Rightarrow> init_cred list" where
  "build_candidates usage_size cnt =
     concat (map (\<lambda>cap_max.
       let cap_block = capability_block cap_max in
       map (\<lambda>sec_size. \<lparr>ic_head = head_block usage_size sec_size @ cap_block,
         atomic_usage_size = usage_size, securebits_size = sec_size, cap_cnt = cnt,
         cap_ability_max = cap_max, ic_offset = 0\<rparr>) [4, 4, 8, 8]) CAP_FULL_SETS)"

text \<open>\<open>haystack.windows(n).any(..)\<close>.\<close>

definition contains_bytes :: "byte list \<Rightarrow> byte list \<Rightarrow> bool" where
  "contains_bytes haystack needle =
     (\<exists>i \<in> set [0..<Suc (length haystack) - length needle]. window haystack i (i + length needle) = needle)"

definition get_cap_cnt :: "byte list \<Rightarrow> int" where
  "get_cap_cnt buf = (if contains_bytes buf (as_bytes ''CapAmb:'') then 5 else 4)"

text \<open>The inner loop: the first multiple of four where the pattern lies.\<close>

definition find_aligned :: "byte list \<Rightarrow> byte list \<Rightarrow> nat option" where
  "find_aligned buf pat =
     List.find (\<lambda>off. window buf off (off + length pat) = pat)
       (map (\<lambda>k. 4 * k) [0..<Suc ((length buf - length pat) div 4)])"

fun try_candidates :: "byte list \<Rightarrow> init_cred list \<Rightarrow> init_cred option" where
  "try_candidates buf [] = None"
| "try_candidates buf (cand # cands) =
     (let pat = ic_head cand in
      if pat = [] \<or> length pat > length buf then try_candidates buf cands
      else case find_aligned buf pat of
          Some off \<Rightarrow> Some (cand\<lparr>ic_offset := of_nat off\<rparr>)
        | None \<Rightarrow> try_candidates buf cands)"

definition find_init_cred :: "byte list \<Rightarrow> u64 \<Rightarrow> init_cred option" where
  "find_init_cred buf cred_uid_offset =
     (let usage_size = (if cred_uid_offset = 4 then 4 else 8) in
      try_candidates buf (build_candidates usage_size (get_cap_cnt buf)))"

section \<open>What the search finds\<close>

lemma length_u64_le [simp]: "length (u64_le w) = 8"
  by (simp add: u64_le_def)

lemma length_head_block: "usage \<le> 8 \<Longrightarrow> sec \<le> 8 \<Longrightarrow> length (head_block usage sec) = usage + 32 + sec"
  by (simp add: head_block_def push_int_def)

lemma length_capability_block: "length (capability_block c) = 32"
  by (simp add: capability_block_def)

definition cred_pattern :: "nat \<Rightarrow> nat \<Rightarrow> u64 \<Rightarrow> byte list" where
  "cred_pattern usage sec cap = head_block usage sec @ capability_block cap"

lemma candidate_iff:
  "c \<in> set (build_candidates usage cnt) \<longleftrightarrow>
     (\<exists>cap \<in> set CAP_FULL_SETS. \<exists>sec \<in> {4, 8}. c = \<lparr>ic_head = cred_pattern usage sec cap,
       atomic_usage_size = usage, securebits_size = sec, cap_cnt = cnt, cap_ability_max = cap, ic_offset = 0\<rparr>)"
  by (auto simp: build_candidates_def cred_pattern_def Let_def)

text \<open>A credential block of the given layout at an offset that is a multiple of four.\<close>

definition cred_at :: "byte list \<Rightarrow> nat \<Rightarrow> byte list \<Rightarrow> bool" where
  "cred_at buf off pat \<longleftrightarrow> 4 dvd off \<and> off + length pat \<le> length buf \<and> window buf off (off + length pat) = pat"

lemma find_aligned_Some:
  assumes "find_aligned buf pat = Some off" and "length pat \<le> length buf"
  shows "cred_at buf off pat"
proof -
  from assms(1) obtain k where k: "off = 4 * k" "k < Suc ((length buf - length pat) div 4)"
    "window buf off (off + length pat) = pat"
    by (auto simp: find_aligned_def find_Some_iff nth_append less_Suc_eq)
  then have "k \<le> (length buf - length pat) div 4" by simp
  then have "4 * k \<le> length buf - length pat" by simp
  then show ?thesis using k assms(2) by (simp add: cred_at_def)
qed

lemma find_aligned_None:
  assumes "find_aligned buf pat = None"
  shows "\<not> cred_at buf off pat"
proof
  assume c: "cred_at buf off pat"
  then obtain k where k: "off = 4 * k" by (auto simp: cred_at_def)
  then have "k < Suc ((length buf - length pat) div 4)"
    using c by (auto simp: cred_at_def less_Suc_eq_le)
  then have "off \<in> set (map (\<lambda>k. 4 * k) [0..<Suc ((length buf - length pat) div 4)])" unfolding k by auto
  then show False using c assms unfolding find_aligned_def find_None_iff cred_at_def by blast
qed

lemma try_candidates_Some:
  assumes "try_candidates buf cs = Some c"
  shows "\<exists>d \<in> set cs. \<exists>off. c = d\<lparr>ic_offset := of_nat off\<rparr> \<and> cred_at buf off (ic_head d)"
  using assms
  by (induction cs)
    (auto simp: Let_def find_aligned_Some split: if_splits option.splits)

lemma try_candidates_None:
  assumes "try_candidates buf cs = None" and "d \<in> set cs" and "ic_head d \<noteq> []"
  shows "\<not> cred_at buf off (ic_head d)"
  using assms
proof (induction cs)
  case (Cons x xs)
  show ?case
  proof (cases "d = x \<and> \<not> length (ic_head x) > length buf")
    case True
    then show ?thesis
      using Cons(2,4) find_aligned_None by (auto simp: Let_def split: option.splits)
  next
    case False
    then have "length (ic_head d) > length buf \<or> d \<in> set xs" using Cons(3) by auto
    then show ?thesis
    proof
      assume "d \<in> set xs"
      moreover have "try_candidates buf xs = None"
        using Cons(2) by (auto simp: Let_def split: if_splits option.splits)
      ultimately show ?thesis using Cons(1,4) by blast
    qed (simp add: cred_at_def)
  qed
qed simp

definition usage_of :: "u64 \<Rightarrow> nat" where
  "usage_of cred_uid_offset = (if cred_uid_offset = 4 then 4 else 8)"

text \<open>
  (C36) The search is exact: it fails only when no known credential layout occurs at a multiple of four,
  and what it returns is one of those layouts, with its widths and capability value, at the offset it
  names.
\<close>

theorem find_init_cred_exact:
  assumes "length buf < 2 ^ 64"
  shows "(find_init_cred buf uid = None \<longleftrightarrow>
      (\<forall>cap \<in> set CAP_FULL_SETS. \<forall>sec \<in> {4, 8}. \<forall>off. \<not> cred_at buf off (cred_pattern (usage_of uid) sec cap))) \<and>
    (\<forall>c. find_init_cred buf uid = Some c \<longrightarrow>
      ic_head c = cred_pattern (usage_of uid) (securebits_size c) (cap_ability_max c) \<and>
      atomic_usage_size c = usage_of uid \<and> securebits_size c \<in> {4, 8} \<and>
      cap_ability_max c \<in> set CAP_FULL_SETS \<and> cred_at buf (unat (ic_offset c)) (ic_head c))"
proof -
  let ?cs = "build_candidates (usage_of uid) (get_cap_cnt buf)"
  have f: "find_init_cred buf uid = try_candidates buf ?cs"
    by (simp add: find_init_cred_def usage_of_def)
  have ne: "cred_pattern u s c \<noteq> []" for u s c by (simp add: cred_pattern_def capability_block_def u64_le_def)
  have small: "unat (of_nat off :: u64) = off" if "cred_at buf off p" for off p
    using that assms unfolding cred_at_def unat_of_nat by (intro mod_less) simp
  have some: "ic_head c = cred_pattern (usage_of uid) (securebits_size c) (cap_ability_max c) \<and>
      atomic_usage_size c = usage_of uid \<and> securebits_size c \<in> {4, 8} \<and>
      cap_ability_max c \<in> set CAP_FULL_SETS \<and> cred_at buf (unat (ic_offset c)) (ic_head c)"
    if "try_candidates buf ?cs = Some c" for c
    using try_candidates_Some [OF that] small by (auto simp: candidate_iff)
  have none: "\<not> cred_at buf off (cred_pattern (usage_of uid) sec cap)"
    if "try_candidates buf ?cs = None" "cap \<in> set CAP_FULL_SETS" "sec \<in> {4, 8}" for cap sec off
    using try_candidates_None [OF that(1), of "\<lparr>ic_head = cred_pattern (usage_of uid) sec cap,
       atomic_usage_size = usage_of uid, securebits_size = sec, cap_cnt = get_cap_cnt buf,
       cap_ability_max = cap, ic_offset = 0\<rparr>" off] that(2,3) ne
    by (fastforce simp: candidate_iff)
  show ?thesis unfolding f
  proof (cases "try_candidates buf ?cs")
    case None
    then show "(try_candidates buf ?cs = None \<longleftrightarrow>
      (\<forall>cap \<in> set CAP_FULL_SETS. \<forall>sec \<in> {4, 8}. \<forall>off. \<not> cred_at buf off (cred_pattern (usage_of uid) sec cap))) \<and>
    (\<forall>c. try_candidates buf ?cs = Some c \<longrightarrow>
      ic_head c = cred_pattern (usage_of uid) (securebits_size c) (cap_ability_max c) \<and>
      atomic_usage_size c = usage_of uid \<and> securebits_size c \<in> {4, 8} \<and>
      cap_ability_max c \<in> set CAP_FULL_SETS \<and> cred_at buf (unat (ic_offset c)) (ic_head c))"
      using none by auto
  next
    case (Some c)
    note s = some [OF Some]
    then have "\<exists>cap \<in> set CAP_FULL_SETS. \<exists>sec \<in> {4, 8}. \<exists>off. cred_at buf off (cred_pattern (usage_of uid) sec cap)"
      by metis
    with s Some show "(try_candidates buf ?cs = None \<longleftrightarrow>
      (\<forall>cap \<in> set CAP_FULL_SETS. \<forall>sec \<in> {4, 8}. \<forall>off. \<not> cred_at buf off (cred_pattern (usage_of uid) sec cap))) \<and>
    (\<forall>c. try_candidates buf ?cs = Some c \<longrightarrow>
      ic_head c = cred_pattern (usage_of uid) (securebits_size c) (cap_ability_max c) \<and>
      atomic_usage_size c = usage_of uid \<and> securebits_size c \<in> {4, 8} \<and>
      cap_ability_max c \<in> set CAP_FULL_SETS \<and> cred_at buf (unat (ic_offset c)) (ic_head c))"
      by auto
  qed
qed

theorem find_init_cred_exact_witness:
  "find_init_cred [1, 2, 3, 4] 4 = None \<and> \<not> cred_at [1, 2, 3, 4] 0 (cred_pattern 4 4 0x1FFFFFFFFFF)"
proof -
  have none: "find_init_cred [1, 2, 3, 4] 4 = None"
  proof -
    have "length (ic_head c) > length [1 :: byte, 2, 3, 4]" if "c \<in> set (build_candidates 4 n)" for c n
      using that by (auto simp: candidate_iff cred_pattern_def length_head_block length_capability_block)
    moreover have "try_candidates buf cs = None" if "\<forall>c \<in> set cs. length (ic_head c) > length buf" for buf cs
      using that by (induction cs) auto
    ultimately show ?thesis by (simp add: find_init_cred_def Let_def)
  qed
  have "length [1 :: byte, 2, 3, 4] < 2 ^ 64" by simp
  from find_init_cred_exact [OF this, of 4] none show ?thesis
    by (auto simp: usage_of_def CAP_FULL_SETS_def)
qed

end
