(* ===== verification/Patch_Base.thy ===== *)
theory Patch_Base
  imports Asm_Branch Offsets Patch_Bytes Init_Cred
begin

text \<open>
  The shared emission primitives of \<open>skroot/patch_base.rs\<close>: the facts of the kernel being patched, the
  snippets built with the assembler, and the unconditional jump patch. File offsets are 64-bit words
  and wrap as in the release build; \<open>x as i32\<close> of a 64-bit difference keeps its low half. The share of
  \<open>mrs\<close> sites is compared on integers, which agrees with the \<open>f32\<close> quotient for fewer than \<open>2 ^ 24\<close> sites.
\<close>

definition THREAD_SIZE :: u64 where "THREAD_SIZE = 0x4000"
definition TASK_OFFSET :: u32 where "TASK_OFFSET = 16"
definition MRS_SP_EL0_THRESHOLD :: nat where "MRS_SP_EL0_THRESHOLD = 5000"

datatype current_mode = SpEl0IsTask | SpEl0IsThreadInfo | SpMask

record patch_base =
  pbase_buf :: "byte list"
  pbase_init_cred :: init_cred
  huawei_kti :: "u64 option"
  pbase_current_mode :: current_mode
  kti_calc_base :: u64

definition as_i32 :: "u64 \<Rightarrow> int" where
  "as_i32 d = sint (ucast d :: u32)"

section \<open>The context\<close>

definition count_mrs_sp_el0 :: "byte list \<Rightarrow> nat" where
  "count_mrs_sp_el0 buf = length (filter is_mrs_sp_el0 (code_words buf 0 (length buf)))"

definition closes_function :: "u32 \<Rightarrow> bool" where
  "closes_function w \<longleftrightarrow> is_ret w \<or> is_retaa w \<or> is_retab w"

text \<open>The positions \<open>from, from + 4, ...\<close> below a bound.\<close>

definition word_positions :: "nat \<Rightarrow> nat \<Rightarrow> nat list" where
  "word_positions from to = map (\<lambda>k. from + 4 * k) [0..<(to - from + 3) div 4]"

text \<open>One \<open>mrs\<close> site counts when the function it is in loads \<open>thread_info.task\<close> first and a large field.\<close>

definition thread_info_site :: "byte list \<Rightarrow> nat \<Rightarrow> nat \<Rightarrow> bool" where
  "thread_info_site buf mx x \<longleftrightarrow>
     (case List.find (\<lambda>y. closes_function (rd32_le buf y)) (word_positions (x + 4) mx) of
        None \<Rightarrow> False
      | Some e \<Rightarrow>
          let loads = current_task_field_loads buf x e in
          length loads \<ge> 2 \<and> snd (loads ! 0) = uint TASK_OFFSET \<and> (\<exists>l \<in> set loads. snd l > 0x400))"

definition current_from_sp_el0_thread_info :: "byte list \<Rightarrow> nat \<Rightarrow> bool" where
  "current_from_sp_el0_thread_info buf mrs_count =
     (if mrs_count = 0 then False
      else
        let mx = length buf - 4;
            hits = length (filter (\<lambda>x. is_mrs_sp_el0 (rd32_le buf x) \<and> thread_info_site buf mx x)
              (word_positions 0 mx)) in
        mrs_count \<le> 10 * hits)"

definition detect_current_mode :: "byte list \<Rightarrow> current_mode" where
  "detect_current_mode buf =
     (let mrs_count = count_mrs_sp_el0 buf in
      if mrs_count \<le> MRS_SP_EL0_THRESHOLD then SpMask
      else if current_from_sp_el0_thread_info buf mrs_count then SpEl0IsThreadInfo else SpEl0IsTask)"

definition patch_base_new :: "byte list \<Rightarrow> u64 \<Rightarrow> u64 option \<Rightarrow> patch_base option" where
  "patch_base_new buf cred_uid_offset kti =
     map_option (\<lambda>ic. \<lparr>pbase_buf = buf, pbase_init_cred = ic,
         huawei_kti = (case kti of Some a \<Rightarrow> if a \<noteq> 0 then Some a else None | None \<Rightarrow> None),
         pbase_current_mode = detect_current_mode buf, kti_calc_base = 0\<rparr>)
       (find_init_cred buf cred_uid_offset)"

definition is_huawei :: "patch_base \<Rightarrow> bool" where
  "is_huawei base \<longleftrightarrow> huawei_kti base \<noteq> None"

definition set_kti_calc_base :: "patch_base \<Rightarrow> u64 \<Rightarrow> patch_base" where
  "set_kti_calc_base base addr = base\<lparr>kti_calc_base := addr\<rparr>"

text \<open>The guard is an addition on \<open>usize\<close>; an address it wrongly lets through panics (\<open>None\<close>).\<close>

definition skip_pac_bti_at_func_start :: "patch_base \<Rightarrow> u64 \<Rightarrow> u64 option" where
  "skip_pac_bti_at_func_start base addr =
     (let i = unat addr in
      if usize_add i 4 > length (pbase_buf base) then Some addr
      else map_option (\<lambda>w. if is_pac_or_bti w then addr + 4 else addr) (rd32_at (pbase_buf base) i))"

section \<open>Snippets\<close>

definition emit_huawei_kti_add :: "patch_base \<Rightarrow> asm \<Rightarrow> u32 \<Rightarrow> asm" where
  "emit_huawei_kti_add base a x =
     (case huawei_kti base of
        None \<Rightarrow> a
      | Some kti \<Rightarrow>
          let scratch = (if x = 1 then 2 else 1);
              a = stp_x_pre a scratch ZR SP (- 16);
              cur_abs = kti_calc_base base + of_nat (asm_offset a);
              a = snd (adrp a scratch cur_abs kti);
              lo12 = ucast (kti AND 0xFFF);
              a = ldr_x_uoff a scratch scratch lo12;
              a = add_reg_x a x x scratch in
          ldp_x_post a scratch ZR SP 16)"

definition emit_get_current :: "patch_base \<Rightarrow> asm \<Rightarrow> u32 \<Rightarrow> asm" where
  "emit_get_current base a x =
     (case pbase_current_mode base of
        SpEl0IsTask \<Rightarrow> emit_huawei_kti_add base (mrs_sp_el0 a x) x
      | SpEl0IsThreadInfo \<Rightarrow>
          ldr_x_uoff (emit_huawei_kti_add base (mrs_sp_el0 a x) x) x x TASK_OFFSET
      | SpMask \<Rightarrow>
          ldr_x_uoff (snd (and_imm_x (mov_x_sp a x) x x (NOT (THREAD_SIZE - 1)))) x x TASK_OFFSET)"

definition emit_safe_bl :: "asm \<Rightarrow> u64 \<Rightarrow> u64 \<Rightarrow> asm" where
  "emit_safe_bl a func_base_addr target =
     (let a = stp_x_pre a 29 30 SP (- 16);
          bl_addr = func_base_addr + of_nat (asm_offset a);
          a = bl_off a (as_i32 (target - bl_addr)) in
      ldp_x_post a 29 30 SP 16)"

definition emit_ret_by_entry_insn :: "asm \<Rightarrow> u32 \<Rightarrow> asm" where
  "emit_ret_by_entry_insn a entry_insn =
     ret_x30
       (if is_paciaz entry_insn then autiaz a
        else if is_paciasp entry_insn then autiasp a
        else if is_pacibz entry_insn then autibz a
        else if is_pacibsp entry_insn then autibsp a
        else a)"

section \<open>Assembled code\<close>

text \<open>
  How every patch takes the code of its builder: an encoding error or empty code is \<open>[]\<close>, on which the
  patch gives up; \<open>None\<close> is a panic.
\<close>

definition assembled :: "asm \<Rightarrow> byte list option" where
  "assembled a =
     (case to_bytes a of Inr bs \<Rightarrow> Some bs | Inl (AsmErr e) \<Rightarrow> Some [] | Inl AsmPanic \<Rightarrow> None)"

text \<open>The jump has no label, so that it never panics.\<close>

definition patch_jump :: "u64 \<Rightarrow> u64 \<Rightarrow> patch_bytes list \<Rightarrow> nat \<times> patch_bytes list" where
  "patch_jump patch_addr jump_addr out =
     (if patch_addr = 0 then (0, out)
      else case to_bytes (b_off asm_new (as_i32 (jump_addr - patch_addr))) of
          Inr bytes \<Rightarrow>
            if bytes \<noteq> [] then (length bytes, out @ [\<lparr>pb_addr = patch_addr, pb_bytes = bytes\<rparr>]) else (0, out)
        | Inl e \<Rightarrow> (0, out))"

end
