(* ===== verification/Func_End.thy ===== *)
theory Func_End
  imports Insn
begin

text \<open>
  The function-boundary finder of \<open>skroot/func_end.rs\<close>: instructions are classified into lines, and
  a worklist over forward branches collects the returns and backward jumps that end the function.
  Addresses are \<open>i64\<close> and far below overflow (an image has at most 65536 decoded lines), so they are
  integers; the history is the set the code keeps in a \<open>HashSet\<close>.
\<close>

section \<open>Lines\<close>

definition MAX_JUMP_REGION :: int where "MAX_JUMP_REGION = 5 * 1024 * 1024"
definition MAX_LINES :: nat where "MAX_LINES = 0x10000"

record fe_line =
  fl_target :: "int option"
  is_jump :: bool
  is_force :: bool
  fl_is_ret :: bool

definition classify :: "u32 \<Rightarrow> int \<Rightarrow> fe_line \<times> nat" where
  "classify w rel =
     (let ret_mode = (if is_retab w then 3 else if is_retaa w then 2 else if is_ret w then 1 else 0 :: nat);
          (jmp, disp) =
            (if is_b w then (True, Some (branch_b_displacement w))
             else if is_bcond w \<or> is_cbz w \<or> is_cbnz w then (True, Some (branch_cond_displacement w))
             else if is_tbz w \<or> is_tbnz w then (True, Some (branch_tbz_displacement w))
             else (False, None));
          force = is_b w \<or> is_br w \<or> is_br_auth w
      in (\<lparr>fl_target = map_option (\<lambda>d. rel + d) disp, is_jump = jmp, is_force = force,
           fl_is_ret = (ret_mode \<noteq> 0)\<rparr>, ret_mode))"

text \<open>The line index of an address, if it has been decoded.\<close>

definition index_by_addr :: "fe_line list \<Rightarrow> int \<Rightarrow> nat option" where
  "index_by_addr lines addr =
     (if addr < 0 \<or> addr mod 4 \<noteq> 0 then None
      else let idx = nat (addr div 4) in if idx < length lines then Some idx else None)"

section \<open>The walk\<close>

record fe_walk =
  fw_history :: "int set"
  fw_rets :: "int list"
  fw_anchors :: "int list"

text \<open>One line of \<open>scan_from\<close>: the walk after it, and whether the path stops there (\<open>break\<close>).\<close>

definition push_anchor :: "int \<Rightarrow> int option \<Rightarrow> fe_walk \<Rightarrow> fe_walk" where
  "push_anchor addr target w =
     (case target of
        Some t \<Rightarrow>
          if t > 0 \<and> t < addr + MAX_JUMP_REGION \<and> t \<notin> fw_history w
          then w\<lparr>fw_history := insert t (fw_history w), fw_anchors := fw_anchors w @ [t]\<rparr> else w
      | None \<Rightarrow> w)"

definition push_tail :: "int \<Rightarrow> int option \<Rightarrow> fe_walk \<Rightarrow> fe_walk" where
  "push_tail addr target w =
     (case target of
        Some t \<Rightarrow> if 0 \<le> t \<and> t < addr then w\<lparr>fw_rets := fw_rets w @ [addr]\<rparr> else w
      | None \<Rightarrow> w)"

definition visit_line :: "int \<Rightarrow> fe_line \<Rightarrow> fe_walk \<Rightarrow> fe_walk \<times> bool" where
  "visit_line addr l w =
     (if is_jump l then
        let w1 = push_anchor addr (fl_target l) w in
        if is_force l then (push_tail addr (fl_target l) w1, True) else (w1, False)
      else if is_force l then (w, True)
      else if fl_is_ret l then (w\<lparr>fw_rets := fw_rets w @ [addr]\<rparr>, True)
      else (w, False))"

fun scan_lines :: "nat \<Rightarrow> fe_line list \<Rightarrow> fe_walk \<Rightarrow> fe_walk" where
  "scan_lines x [] w = w"
| "scan_lines x (l # ls) w =
     (case visit_line (int x * 4) l w of (w', stop) \<Rightarrow> if stop then w' else scan_lines (Suc x) ls w')"

definition scan_from :: "fe_line list \<Rightarrow> nat \<Rightarrow> fe_walk \<Rightarrow> fe_walk" where
  "scan_from lines start_idx w = scan_lines start_idx (drop start_idx lines) w"

definition line_targets :: "fe_line list \<Rightarrow> int set" where
  "line_targets lines = {t. \<exists>l \<in> set lines. fl_target l = Some t}"

lemma finite_line_targets [simp]: "finite (line_targets lines)"
proof -
  have "line_targets lines \<subseteq> (\<lambda>l. the (fl_target l)) ` set lines" by (force simp: line_targets_def)
  then show ?thesis by (rule finite_subset) simp
qed

text \<open>Every push moves a target of a line into the history, so the worklist ends.\<close>

definition work_left :: "int set \<Rightarrow> fe_walk \<Rightarrow> nat" where
  "work_left T w = card (T - fw_history w) + length (fw_anchors w)"

lemma push_anchor_work:
  assumes "finite T" and "\<And>t. tgt = Some t \<Longrightarrow> t \<in> T"
  shows "work_left T (push_anchor a tgt w) \<le> work_left T w"
proof (cases "\<exists>t. tgt = Some t \<and> t > 0 \<and> t < a + MAX_JUMP_REGION \<and> t \<notin> fw_history w")
  case True
  then obtain t where t: "tgt = Some t" "t > 0" "t < a + MAX_JUMP_REGION" "t \<notin> fw_history w" by blast
  then have "T - fw_history w = insert t (T - insert t (fw_history w))" using assms(2) by blast
  then have "card (T - fw_history w) = Suc (card (T - insert t (fw_history w)))"
    using assms(1) by (metis Diff_iff card_insert_disjoint finite_Diff insertI1)
  then show ?thesis using t by (simp add: work_left_def push_anchor_def)
qed (auto simp: push_anchor_def split: option.splits)

lemma push_tail_work [simp]: "work_left T (push_tail a tgt w) = work_left T w"
  by (simp add: work_left_def push_tail_def split: option.splits)

lemma scan_lines_work:
  assumes "finite T" and "line_targets ls \<subseteq> T"
  shows "work_left T (scan_lines x ls w) \<le> work_left T w"
  using assms(2)
proof (induction x ls w rule: scan_lines.induct)
  case (2 x l ls w)
  obtain w' stop where v: "visit_line (int x * 4) l w = (w', stop)" by fastforce
  have "fl_target l = Some t \<Longrightarrow> t \<in> T" for t using 2(2) by (auto simp: line_targets_def)
  note push = push_anchor_work [OF assms(1) this]
  have "work_left T (w\<lparr>fw_rets := r\<rparr>) = work_left T w" for r by (simp add: work_left_def)
  then have w': "work_left T w' \<le> work_left T w"
    using v push by (auto simp: visit_line_def Let_def split: if_splits)
  have "line_targets ls \<subseteq> T" using 2(2) by (auto simp: line_targets_def)
  then show ?case using 2(1) [OF v [symmetric]] v w' by fastforce
qed simp

lemma scan_from_work: "work_left (line_targets lines) (scan_from lines i w) \<le> work_left (line_targets lines) w"
  unfolding scan_from_def by (rule scan_lines_work [OF finite_line_targets]) (auto simp: line_targets_def dest: in_set_dropD)

text \<open>The loop over the anchors; \<open>None\<close> is the \<open>?\<close> on a fork that is not decoded yet.\<close>

function walk_anchors :: "fe_line list \<Rightarrow> fe_walk \<Rightarrow> fe_walk option" where
  "walk_anchors lines w =
     (if fw_anchors w = [] then Some w
      else
        let fork = last (fw_anchors w); w1 = w\<lparr>fw_anchors := butlast (fw_anchors w)\<rparr> in
        case index_by_addr lines fork of
          None \<Rightarrow> None
        | Some idx \<Rightarrow> walk_anchors lines (scan_from lines idx w1))"
  by pat_completeness auto
termination
proof (relation "measure (\<lambda>(lines, w). work_left (line_targets lines) w)")
  fix lines and w :: fe_walk and x w1 idx
  assume ne: "fw_anchors w \<noteq> []" and w1: "w1 = w\<lparr>fw_anchors := butlast (fw_anchors w)\<rparr>"
  have "work_left (line_targets lines) (scan_from lines idx w1) \<le> work_left (line_targets lines) w1"
    by (rule scan_from_work)
  also have "\<dots> < work_left (line_targets lines) w" using ne by (simp add: w1 work_left_def)
  finally show "((lines, scan_from lines idx w1), lines, w) \<in> measure (\<lambda>(lines, w). work_left (line_targets lines) w)"
    by simp
qed simp

declare walk_anchors.simps [simp del]

definition handle_candidate :: "fe_line list \<Rightarrow> nat option" where
  "handle_candidate lines =
     Option.bind (walk_anchors lines (scan_from lines 0 \<lparr>fw_history = {}, fw_rets = [], fw_anchors = []\<rparr>))
       (\<lambda>w. if fw_rets w = [] then None else Some (nat (Max (set (fw_rets w)))))"

section \<open>Decoding\<close>

function find_end_loop :: "byte list \<Rightarrow> nat \<Rightarrow> nat \<Rightarrow> nat \<Rightarrow> fe_line list \<Rightarrow> nat option" where
  "find_end_loop buf start i ret_mode lines =
     (let rel = int i * 4; off = start + i * 4 in
      if off + 4 > length buf \<or> i \<ge> MAX_LINES \<or> rel \<ge> MAX_JUMP_REGION then None
      else
        let (line, rm) = classify (rd32_le buf off) rel in
        if rm \<noteq> 0 \<and> ret_mode \<noteq> 0 \<and> ret_mode \<noteq> rm then None
        else
          let ret_mode' = (if rm \<noteq> 0 \<and> ret_mode = 0 then rm else ret_mode);
              boundary = (rm \<noteq> 0 \<or> is_force line); lines' = lines @ [line] in
          case (if boundary then handle_candidate lines' else None) of
            Some c \<Rightarrow> Some c
          | None \<Rightarrow> find_end_loop buf start (i + 1) ret_mode' lines')"
  by pat_completeness auto
termination
  by (relation "measure (\<lambda>(buf, start, i, r, ls). MAX_LINES - i)") auto

declare find_end_loop.simps [simp del]

definition find_end_func_offset :: "byte list \<Rightarrow> nat \<Rightarrow> nat option" where
  "find_end_func_offset buf start = find_end_loop buf start 0 0 []"

section \<open>What the walk computes\<close>

text \<open>
  The reference: the lines reached from the entry by falling through and by the forward branches the
  code follows, and the lines that end the function.
\<close>

definition stops :: "fe_line \<Rightarrow> bool" where
  "stops l \<longleftrightarrow> (if is_jump l then is_force l else is_force l \<or> fl_is_ret l)"

definition fork_at :: "fe_line list \<Rightarrow> nat \<Rightarrow> int \<Rightarrow> bool" where
  "fork_at lines x t \<longleftrightarrow> x < length lines \<and> is_jump (lines ! x) \<and> fl_target (lines ! x) = Some t \<and>
     0 < t \<and> t < int x * 4 + MAX_JUMP_REGION"

definition ends_at :: "fe_line list \<Rightarrow> nat \<Rightarrow> bool" where
  "ends_at lines x \<longleftrightarrow> x < length lines \<and>
     (if is_jump (lines ! x)
      then is_force (lines ! x) \<and> (\<exists>t. fl_target (lines ! x) = Some t \<and> 0 \<le> t \<and> t < int x * 4)
      else \<not> is_force (lines ! x) \<and> fl_is_ret (lines ! x))"

inductive reached :: "fe_line list \<Rightarrow> nat \<Rightarrow> bool" for lines where
  entry: "lines \<noteq> [] \<Longrightarrow> reached lines 0"
| fall: "reached lines x \<Longrightarrow> \<not> stops (lines ! x) \<Longrightarrow> Suc x < length lines \<Longrightarrow> reached lines (Suc x)"
| fork: "reached lines x \<Longrightarrow> fork_at lines x t \<Longrightarrow> index_by_addr lines t = Some y \<Longrightarrow> reached lines y"

fun segment :: "nat \<Rightarrow> fe_line list \<Rightarrow> nat set" where
  "segment x [] = {}"
| "segment x (l # ls) = insert x (if stops l then {} else segment (Suc x) ls)"

definition walk_inv :: "fe_line list \<Rightarrow> nat set \<Rightarrow> fe_walk \<Rightarrow> bool" where
  "walk_inv lines V w \<longleftrightarrow>
     (\<forall>x \<in> V. reached lines x) \<and>
     fw_history w = {t. \<exists>x \<in> V. fork_at lines x t} \<and>
     set (fw_rets w) = (\<lambda>x. int x * 4) ` {x \<in> V. ends_at lines x} \<and>
     set (fw_anchors w) \<subseteq> fw_history w \<and>
     (\<forall>x \<in> V. \<not> stops (lines ! x) \<longrightarrow> Suc x < length lines \<longrightarrow> Suc x \<in> V) \<and>
     (\<forall>t \<in> fw_history w. t \<in> set (fw_anchors w) \<or> (\<exists>y. index_by_addr lines t = Some y \<and> y \<in> V))"

lemma visit_line_effect:
  assumes "visit_line (int x * 4) (lines ! x) w = (w', stop)" and "x < length lines"
  shows "stop = stops (lines ! x)"
    and "fw_history w' = fw_history w \<union> {t. fork_at lines x t}"
    and "set (fw_anchors w') = set (fw_anchors w) \<union> ({t. fork_at lines x t} - fw_history w)"
    and "set (fw_rets w') = set (fw_rets w) \<union> {a. a = int x * 4 \<and> ends_at lines x}"
  using assms
  by (auto simp: visit_line_def Let_def stops_def fork_at_def ends_at_def push_anchor_def push_tail_def
      split: if_splits option.splits)

lemma scan_lines_effect:
  assumes "x + length ls = length lines" and "ls = drop x lines"
  shows "fw_history (scan_lines x ls w) = fw_history w \<union> {t. \<exists>y \<in> segment x ls. fork_at lines y t} \<and>
    set (fw_anchors (scan_lines x ls w)) =
      set (fw_anchors w) \<union> ({t. \<exists>y \<in> segment x ls. fork_at lines y t} - fw_history w) \<and>
    set (fw_rets (scan_lines x ls w)) =
      set (fw_rets w) \<union> (\<lambda>y. int y * 4) ` {y \<in> segment x ls. ends_at lines y}"
  using assms
proof (induction x ls w rule: scan_lines.induct)
  case (2 x l ls w)
  obtain w' stop where v: "visit_line (int x * 4) l w = (w', stop)" by fastforce
  have x: "x < length lines" using 2(2) by simp
  have l: "l = lines ! x" "ls = drop (Suc x) lines"
    using 2(3) x by (simp_all add: Cons_nth_drop_Suc [symmetric])
  note e = visit_line_effect [OF v [unfolded l(1)] x]
  have e1: "stop = stops l" using e(1) by (simp add: l(1))
  show ?case
  proof (cases "stops l")
    case True
    then show ?thesis using e v e1 by auto
  next
    case False
    have "fw_history (scan_lines (Suc x) ls w') = fw_history w' \<union> {t. \<exists>y \<in> segment (Suc x) ls. fork_at lines y t} \<and>
      set (fw_anchors (scan_lines (Suc x) ls w')) =
        set (fw_anchors w') \<union> ({t. \<exists>y \<in> segment (Suc x) ls. fork_at lines y t} - fw_history w') \<and>
      set (fw_rets (scan_lines (Suc x) ls w')) =
        set (fw_rets w') \<union> (\<lambda>y. int y * 4) ` {y \<in> segment (Suc x) ls. ends_at lines y}"
      using 2(1) [OF v [symmetric]] 2(2) False e1 l(2) by simp
    then show ?thesis using e(2-4) v e1 False by auto
  qed
qed simp

lemma segment_props:
  assumes "x + length ls = length lines" and "ls = drop x lines"
  shows "\<forall>y \<in> segment x ls. y < length lines"
    and "ls \<noteq> [] \<longrightarrow> x \<in> segment x ls"
    and "\<forall>y \<in> segment x ls. \<not> stops (lines ! y) \<longrightarrow> Suc y < length lines \<longrightarrow> Suc y \<in> segment x ls"
    and "ls \<noteq> [] \<longrightarrow> reached lines x \<longrightarrow> (\<forall>y \<in> segment x ls. reached lines y)"
  using assms
proof (induction x ls rule: segment.induct)
  case (2 x l ls)
  {
    case 1
    have x: "x < length lines" using 1(1) by simp
    have l: "ls = drop (Suc x) lines" "Suc x + length ls = length lines"
      using 1 x by (simp_all add: Cons_nth_drop_Suc [symmetric])
    then show ?case using 2(1) x by (cases "stops l") auto
  next
    case 2 show ?case unfolding segment.simps by blast
  next
    case 3
    have x: "x < length lines" using 3(1) by simp
    have l: "l = lines ! x" "ls = drop (Suc x) lines" "Suc x + length ls = length lines"
      using 3 x by (simp_all add: Cons_nth_drop_Suc [symmetric])
    show ?case
    proof (cases "stops l")
      case False
      then have IH: "ls \<noteq> [] \<longrightarrow> Suc x \<in> segment (Suc x) ls"
        "\<forall>y \<in> segment (Suc x) ls. \<not> stops (lines ! y) \<longrightarrow> Suc y < length lines \<longrightarrow> Suc y \<in> segment (Suc x) ls"
        using 2(2,3) l by blast+
      show ?thesis using False IH l by auto
    qed (simp add: l)
  next
    case 4
    have x: "x < length lines" using 4(1) by simp
    have l: "l = lines ! x" "ls = drop (Suc x) lines" "Suc x + length ls = length lines"
      using 4 x by (simp_all add: Cons_nth_drop_Suc [symmetric])
    show ?case
    proof (intro impI ballI)
      fix y assume r: "reached lines x" and y: "y \<in> segment x (l # ls)"
      show "reached lines y"
      proof (cases "y = x \<or> stops l \<or> ls = []")
        case True
        then show ?thesis using y r by (auto split: if_splits)
      next
        case False
        then have "reached lines (Suc x)" using r l by (intro fall) auto
        then show ?thesis using 2(4) False y l by auto
      qed
    qed
  }
qed simp_all

lemma scan_from_inv:
  assumes inv: "walk_inv lines V w0" and anchors: "set (fw_anchors w0) = set (fw_anchors w) \<union> A"
    and w: "fw_history w = fw_history w0" "fw_rets w = fw_rets w0"
    and idx: "idx < length lines" "reached lines idx" and A: "\<forall>t \<in> A. index_by_addr lines t = Some idx"
  shows "walk_inv lines (V \<union> segment idx (drop idx lines)) (scan_from lines idx w)"
proof -
  let ?S = "segment idx (drop idx lines)"
  have h: "idx + length (drop idx lines) = length lines" "drop idx lines \<noteq> []" using idx by simp_all
  note e = scan_lines_effect [OF h(1) refl, of w]
  note p = segment_props [OF h(1) refl]
  show ?thesis
    using inv e p(2,3) p(4) [rule_format, OF h(2) idx(2)] anchors w A h(2)
    unfolding walk_inv_def scan_from_def by (auto; blast)
qed

lemma walk_anchors_spec:
  assumes "walk_inv lines V w" and "0 \<in> V" and "lines \<noteq> []"
  shows "case walk_anchors lines w of
      None \<Rightarrow> \<exists>x t. reached lines x \<and> fork_at lines x t \<and> index_by_addr lines t = None
    | Some w' \<Rightarrow> (\<exists>V'. walk_inv lines V' w' \<and> 0 \<in> V' \<and> fw_anchors w' = [])"
  using assms
proof (induction lines w arbitrary: V rule: walk_anchors.induct)
  case (1 lines w)
  show ?case
  proof (cases "fw_anchors w = []")
    case True
    then show ?thesis using 1(2,3) by (subst walk_anchors.simps) auto
  next
    case False
    define t where "t = last (fw_anchors w)"
    have "t \<in> set (fw_anchors w)" using False by (simp add: t_def)
    then have t: "t \<in> fw_history w" using 1(2) by (auto simp: walk_inv_def)
    then obtain x where x: "x \<in> V" "fork_at lines x t" using 1(2) by (auto simp: walk_inv_def)
    have rx: "reached lines x" using 1(2) x(1) by (simp add: walk_inv_def)
    show ?thesis
    proof (cases "index_by_addr lines t")
      case None
      then have "walk_anchors lines w = None" using False by (subst walk_anchors.simps) (simp add: t_def)
      then show ?thesis using rx x None by auto
    next
      case (Some idx)
      let ?w = "w\<lparr>fw_anchors := butlast (fw_anchors w)\<rparr>"
      have idx: "idx < length lines" using Some by (auto simp: index_by_addr_def Let_def split: if_splits)
      have ri: "reached lines idx" using rx x(2) Some by (rule fork)
      have "fw_anchors w = butlast (fw_anchors w) @ [t]" using False by (simp add: t_def)
      then have "set (fw_anchors w) = set (butlast (fw_anchors w)) \<union> {t}"
        by (metis list.set(1) list.set(2) set_append)
      then have "walk_inv lines (V \<union> segment idx (drop idx lines)) (scan_from lines idx ?w)"
        by (intro scan_from_inv [OF 1(2), where A = "{t}"]) (use idx ri Some in auto)
      from 1(1) [OF False t_def refl _ this] 1(3,4) Some
      show ?thesis using False by (subst walk_anchors.simps) (simp add: t_def)
    qed
  qed
qed

lemma walk_inv_reached:
  assumes inv: "walk_inv lines V w" and "0 \<in> V" and none: "fw_anchors w = []"
  shows "V = {x. reached lines x}"
proof
  show "V \<subseteq> {x. reached lines x}" using inv by (auto simp: walk_inv_def)
  show "{x. reached lines x} \<subseteq> V"
  proof (rule subsetI, drule CollectD)
    fix x assume "reached lines x"
    then show "x \<in> V"
    proof (induction rule: reached.induct)
      case entry
      show ?case by fact
    next
      case (fall x)
      then show ?case using inv by (simp add: walk_inv_def)
    next
      case (fork x t y)
      then have "t \<in> fw_history w" using inv by (auto simp: walk_inv_def)
      then have "\<exists>y. index_by_addr lines t = Some y \<and> y \<in> V" using inv none by (auto simp: walk_inv_def)
      then show ?case using fork(3) by auto
    qed
  qed
qed

text \<open>The candidate, in terms of the reference.\<close>

definition fork_open :: "fe_line list \<Rightarrow> bool" where
  "fork_open lines \<longleftrightarrow> (\<exists>x t. reached lines x \<and> fork_at lines x t \<and> index_by_addr lines t = None)"

definition function_ends :: "fe_line list \<Rightarrow> nat set" where
  "function_ends lines = {4 * x |x. reached lines x \<and> ends_at lines x}"

lemma finite_function_ends: "finite (function_ends lines)"
proof -
  have "function_ends lines \<subseteq> (\<lambda>x. 4 * x) ` {..<length lines}" by (auto simp: function_ends_def ends_at_def)
  then show ?thesis by (rule finite_subset) simp
qed

lemma handle_candidate_spec:
  "handle_candidate lines = Some c \<longleftrightarrow>
     \<not> fork_open lines \<and> function_ends lines \<noteq> {} \<and> c = Max (function_ends lines)"
proof (cases "lines = []")
  case True
  have "\<not> reached [] x" for x
  proof
    assume "reached [] x" then show False by (induction x rule: reached.induct) (auto simp: fork_at_def)
  qed
  then show ?thesis
    by (simp add: True handle_candidate_def scan_from_def walk_anchors.simps function_ends_def)
next
  case False
  let ?init = "\<lparr>fw_history = {}, fw_rets = [], fw_anchors = []\<rparr>"
  let ?S = "segment 0 (drop 0 lines)" and ?w = "scan_from lines 0 ?init"
  have w0: "walk_inv lines {} ?init" by (simp add: walk_inv_def)
  have "walk_inv lines ({} \<union> segment 0 (drop 0 lines)) (scan_from lines 0 ?init)"
    by (rule scan_from_inv [OF w0, where A = "{}"]) (use False in \<open>auto intro: entry\<close>)
  then have inv: "walk_inv lines ({} \<union> ?S) ?w" .
  have "0 \<in> ?S" using False by (cases lines) auto
  then have spec: "case walk_anchors lines ?w of
      None \<Rightarrow> \<exists>x t. reached lines x \<and> fork_at lines x t \<and> index_by_addr lines t = None
    | Some w' \<Rightarrow> (\<exists>V'. walk_inv lines V' w' \<and> 0 \<in> V' \<and> fw_anchors w' = [])"
    using walk_anchors_spec [OF inv _ False] by simp
  show ?thesis
  proof (cases "walk_anchors lines ?w")
    case None
    then show ?thesis using spec by (auto simp: handle_candidate_def fork_open_def)
  next
    case (Some w')
    then obtain V' where V': "walk_inv lines V' w'" "0 \<in> V'" "fw_anchors w' = []" using spec by auto
    have R: "V' = {x. reached lines x}" by (rule walk_inv_reached [OF V'])
    have "\<not> fork_open lines"
      using V' R by (auto simp: walk_inv_def fork_open_def)
    moreover have rets: "set (fw_rets w') = int ` function_ends lines"
    proof -
      have "set (fw_rets w') = (\<lambda>x. int x * 4) ` {x \<in> V'. ends_at lines x}"
        using V'(1) unfolding walk_inv_def by blast
      also have "\<dots> = int ` (\<lambda>x. 4 * x) ` {x. reached lines x \<and> ends_at lines x}"
        unfolding R image_image by (intro image_cong) auto
      also have "(\<lambda>x. 4 * x) ` {x. reached lines x \<and> ends_at lines x} = function_ends lines"
        by (auto simp: function_ends_def)
      finally show ?thesis .
    qed
    moreover have "nat (Max (int ` function_ends lines)) = Max (function_ends lines)" if "function_ends lines \<noteq> {}"
      using mono_Max_commute [of int "function_ends lines"] that finite_function_ends
      by (simp add: mono_def)
    moreover have "fw_rets w' = [] \<longleftrightarrow> function_ends lines = {}" using rets by (metis image_is_empty set_empty)
    ultimately show ?thesis using Some by (auto simp: handle_candidate_def rets)
  qed
qed

section \<open>The finder\<close>

definition decoded :: "byte list \<Rightarrow> nat \<Rightarrow> nat \<Rightarrow> fe_line list" where
  "decoded buf start n = map (\<lambda>k. fst (classify (rd32_le buf (start + k * 4)) (int k * 4))) [0..<n]"

lemma length_decoded [simp]: "length (decoded buf start n) = n"
  by (simp add: decoded_def)

lemma find_end_loop_Some:
  assumes "find_end_loop buf start i rm ls = Some c" and "ls = decoded buf start i"
  shows "\<exists>n. n \<le> MAX_LINES \<and> start + n * 4 \<le> length buf \<and> handle_candidate (decoded buf start n) = Some c"
  using assms
proof (induction buf start i rm ls rule: find_end_loop.induct)
  case (1 buf start i rm ls)
  obtain line r where cl: "classify (rd32_le buf (start + i * 4)) (int i * 4) = (line, r)" by fastforce
  have in_range: "\<not> (start + i * 4 + 4 > length buf \<or> i \<ge> MAX_LINES \<or> int i * 4 \<ge> MAX_JUMP_REGION)"
    and mode: "\<not> (r \<noteq> 0 \<and> rm \<noteq> 0 \<and> rm \<noteq> r)"
    using "1.prems"(1) by (subst (asm) find_end_loop.simps; force simp: cl Let_def split: if_splits)+
  have ls': "ls @ [line] = decoded buf start (i + 1)"
    using "1.prems"(2) cl by (simp add: decoded_def)
  let ?rm = "if r \<noteq> 0 \<and> rm = 0 then r else rm"
  have eq: "find_end_loop buf start i rm ls =
      (case (if r \<noteq> 0 \<or> is_force line then handle_candidate (ls @ [line]) else None) of
        Some c \<Rightarrow> Some c | None \<Rightarrow> find_end_loop buf start (i + 1) ?rm (ls @ [line]))"
    unfolding find_end_loop.simps [of buf start i rm ls] Let_def cl prod.case if_not_P [OF in_range]
      if_not_P [OF mode] by (rule refl)
  show ?case
  proof (cases "if r \<noteq> 0 \<or> is_force line then handle_candidate (ls @ [line]) else None")
    case None
    then have "find_end_loop buf start (i + 1) ?rm (ls @ [line]) = Some c" using eq "1.prems"(1) by simp
    then show ?thesis
      using "1.IH" [OF refl refl in_range cl [symmetric] refl mode refl refl refl None _ ls'] by blast
  next
    case (Some d)
    then have "handle_candidate (decoded buf start (i + 1)) = Some c"
      using eq "1.prems"(1) ls' by (auto split: if_splits)
    then show ?thesis using in_range by (intro exI [of _ "i + 1"]) auto
  qed
qed

lemma classify_ends:
  assumes "ends_at (decoded buf start n) x"
  shows "let w = rd32_le buf (start + x * 4) in is_ret w \<or> is_retaa w \<or> is_retab w \<or>
    is_b w \<and> branch_b_displacement w < 0 \<and> 0 \<le> int x * 4 + branch_b_displacement w"
proof -
  have "x < n" using assms by (simp add: ends_at_def)
  then have l: "decoded buf start n ! x = fst (classify (rd32_le buf (start + x * 4)) (int x * 4))"
    by (simp add: decoded_def)
  have br: "\<not> is_br w" "\<not> is_br_auth w"
    if "is_bcond w \<or> is_cbz w \<or> is_cbnz w \<or> is_tbz w \<or> is_tbnz w" for w
    using that by (auto simp: insn_defs dest: insn_is_disjoint)
  show ?thesis
    using assms br unfolding ends_at_def l by (auto simp: classify_def Let_def split: if_splits)
qed

lemma find_end_func_ends:
  assumes "find_end_func_offset buf start = Some c"
  shows "4 dvd c \<and> start + c + 4 \<le> length buf \<and> c < 4 * MAX_LINES \<and>
    (let w = rd32_le buf (start + c) in is_ret w \<or> is_retaa w \<or> is_retab w \<or>
      is_b w \<and> branch_b_displacement w < 0 \<and> 0 \<le> int c + branch_b_displacement w)"
proof -
  obtain n where n: "n \<le> MAX_LINES" "start + n * 4 \<le> length buf"
    "handle_candidate (decoded buf start n) = Some c"
    using find_end_loop_Some [of buf start 0 0 "[]" c] assms
    by (auto simp: find_end_func_offset_def decoded_def)
  then have c: "c \<in> function_ends (decoded buf start n)"
    using Max_in [OF finite_function_ends] by (auto simp: handle_candidate_spec)
  then obtain x where x: "c = 4 * x" "ends_at (decoded buf start n) x" by (auto simp: function_ends_def)
  then have "x < n" by (simp add: ends_at_def)
  then show ?thesis
    using classify_ends [OF x(2)] n x(1) by (simp add: mult.commute)
qed

section \<open>The properties\<close>

text \<open>
  (C35) The worklist computes the reference: a candidate is reported exactly when every forward branch
  reached from the entry stays inside the decoded lines and some reached line ends the function, and
  it is then the address of the last such line.
\<close>

theorem handle_candidate_iff:
  "handle_candidate lines = Some c \<longleftrightarrow>
     \<not> (\<exists>x t. reached lines x \<and> fork_at lines x t \<and> index_by_addr lines t = None) \<and>
     function_ends lines \<noteq> {} \<and> c = Max (function_ends lines)"
  unfolding handle_candidate_spec fork_open_def ..

text \<open>
  A boundary that is found lies inside the image at an instruction offset, and the instruction
  there is a return or a backward jump inside the function.
\<close>

theorem find_end_func_offset_sound:
  assumes "find_end_func_offset buf start = Some c"
  shows "4 dvd c \<and> start + c + 4 \<le> length buf \<and> c < 4 * MAX_LINES \<and>
    (let w = rd32_le buf (start + c) in is_ret w \<or> is_retaa w \<or> is_retab w \<or>
      is_b w \<and> branch_b_displacement w < 0 \<and> 0 \<le> int c + branch_b_displacement w)"
  using assms by (rule find_end_func_ends)

text \<open>The function of the code's tests: a conditional branch over a return to a second return.\<close>

definition two_returns :: "byte list" where
  "two_returns = u32_le 0x34000040 @ u32_le 0xD65F03C0 @ u32_le 0xD65F03C0"

lemma two_returns_words: "rd32_le two_returns 0 = 0x34000040" "rd32_le two_returns 4 = 0xD65F03C0"
  "rd32_le two_returns 8 = 0xD65F03C0" "length two_returns = 12"
  by (simp_all add: two_returns_def u32_le_def rd32_le_def u32_of_le_def)

lemma two_returns_lines:
  "classify 0x34000040 0 = (\<lparr>fl_target = Some 8, is_jump = True, is_force = False, fl_is_ret = False\<rparr>, 0)"
  "classify 0xD65F03C0 r = (\<lparr>fl_target = None, is_jump = False, is_force = False, fl_is_ret = True\<rparr>, 1)"
  by (simp_all add: classify_def Let_def insn_defs insn_is_def branch_cond_displacement_eq)

lemmas find_end_eval = find_end_loop.simps two_returns_lines MAX_LINES_def MAX_JUMP_REGION_def Let_def
  handle_candidate_def scan_from_def visit_line_def push_anchor_def walk_anchors.simps index_by_addr_def

theorem find_end_func_offset_sound_witness:
  "find_end_func_offset two_returns 0 = Some 8 \<and> 4 dvd (8 :: nat)"
proof -
  have "find_end_func_offset two_returns 0 = Some 8"
    unfolding find_end_func_offset_def by (simp add: find_end_eval two_returns_words)
  from find_end_func_offset_sound [OF this] this show ?thesis by simp
qed

end
