(* ===== verification/Kallsyms.thy ===== *)
theory Kallsyms
  imports Kernel_Version
begin

text \<open>
  The kallsyms decoder of \<open>skroot/kallsyms.rs\<close>. The decoder is a buffer and a profile; a scan
  that indexes out of range is the error \<open>KPanic\<close>, and unsigned subtraction wraps at 64 bits as in the
  release build. The comparisons of \<open>names_entropy_ok\<close> on \<open>f64\<close> are written on integers, with which they
  agree for images below \<open>2 ^ 50\<close> bytes.
\<close>

section \<open>Symbols\<close>

record symbols =
  by_name :: "string \<rightharpoonup> u64"
  sym_order :: "(string \<times> u64) list"
  sym_sorted :: "u64 list"

definition lookup :: "symbols \<Rightarrow> string \<Rightarrow> u64 option" where
  "lookup syms name = by_name syms name"

text \<open>\<open>partition_point\<close> on the sorted offsets.\<close>

definition size_at :: "symbols \<Rightarrow> u64 \<Rightarrow> u64 option" where
  "size_at syms addr =
     (if addr = 0 then None
      else
        let idx = length (takeWhile (\<lambda>o'. o' \<le> addr) (sym_sorted syms)) in
        if idx < length (sym_sorted syms) then Some (sym_sorted syms ! idx - addr) else None)"

definition str_contains :: "string \<Rightarrow> string \<Rightarrow> bool" where
  "str_contains s needle = (\<exists>i \<in> set [0..<Suc (length s)]. prefix needle (drop i s))"

definition names_like :: "symbols \<Rightarrow> string \<Rightarrow> (string \<times> u64) list" where
  "names_like syms needle =
     filter (\<lambda>(n, a). str_contains n needle \<and> \<not> suffix ''.cfi_jt'' n) (sym_order syms)"

definition symbols_len :: "symbols \<Rightarrow> nat" where
  "symbols_len syms = length (sym_order syms)"

definition symbols_is_empty :: "symbols \<Rightarrow> bool" where
  "symbols_is_empty syms \<longleftrightarrow> sym_order syms = []"

section \<open>Errors and profiles\<close>

datatype kallsyms_error =
    NoKernelVersion | NoOffsetsList | NoRelativeBase | NoSymbolCount | NoNamesList | NoMarkersList
  | NoTokenTable | NoTokenIndex | NoSymbolBase | KPanic

datatype num_from = OffsetsEnd | RelBaseEnd | FromZero
datatype seqs = NoSeqs | AfterMarkers | AfterRelBase

record profile =
  ksym_name_len :: nat
  names_varint :: bool
  entropy_max_avg :: nat
  has_relative_base :: bool
  negative_uses_base :: bool
  pf_seqs :: seqs
  pf_num_from :: num_from

definition for_version :: "u32 \<times> u32 \<times> u32 \<Rightarrow> profile" where
  "for_version v =
     (if triple_less v (6, 1, 0) then
        \<lparr>ksym_name_len = 128, names_varint = False, entropy_max_avg = 40, has_relative_base = False,
          negative_uses_base = False, pf_seqs = NoSeqs, pf_num_from = OffsetsEnd\<rparr>
      else if triple_less v (6, 1, 42) then
        \<lparr>ksym_name_len = 512, names_varint = True, entropy_max_avg = 80, has_relative_base = False,
          negative_uses_base = False, pf_seqs = NoSeqs, pf_num_from = OffsetsEnd\<rparr>
      else if triple_less v (6, 12, 0) then
        \<lparr>ksym_name_len = 512, names_varint = True, entropy_max_avg = 80, has_relative_base = True,
          negative_uses_base = True, pf_seqs = AfterMarkers, pf_num_from = RelBaseEnd\<rparr>
      else
        \<lparr>ksym_name_len = 512, names_varint = True, entropy_max_avg = 80, has_relative_base = True,
          negative_uses_base = True, pf_seqs = AfterRelBase, pf_num_from = FromZero\<rparr>)"

section \<open>Byte helpers\<close>

definition krd16 :: "byte list \<Rightarrow> nat \<Rightarrow> kallsyms_error + u16" where
  "krd16 b off = (if off + 2 \<le> length b then Inr (u16_of_le (b ! off) (b ! (off + 1))) else Inl KPanic)"

definition krd32 :: "byte list \<Rightarrow> nat \<Rightarrow> kallsyms_error + u32" where
  "krd32 b off = (if off + 4 \<le> length b then Inr (rd32_le b off) else Inl KPanic)"

definition krd64 :: "byte list \<Rightarrow> nat \<Rightarrow> kallsyms_error + u64" where
  "krd64 b off = (if off + 8 \<le> length b then Inr (u64_of_le (window b off (off + 8))) else Inl KPanic)"

definition align_up8 :: "nat \<Rightarrow> nat" where
  "align_up8 v = (v + 7) div 8 * 8"

definition wrap_sub :: "nat \<Rightarrow> nat \<Rightarrow> nat" where
  "wrap_sub a b = (if b \<le> a then a - b else 2 ^ 64 + a - b)"

definition looks_kernel_va :: "u64 \<Rightarrow> bool" where
  "looks_kernel_va v \<longleftrightarrow>
     (\<exists>s \<in> set [0xFFFFFFC000000000, 0xFFFFFE0000000000, 0xFFFF800000000000, 0xFFF8000000000000].
        v AND s = s)"

definition A64_NOP :: u32 where "A64_NOP = 0xD503201F"
definition MAX_FIND_RANGE :: nat where "MAX_FIND_RANGE = 0x1000"

definition insn_is_b :: "u32 \<Rightarrow> bool" where
  "insn_is_b w \<longleftrightarrow> w AND 0xFC000000 = 0x14000000"

section \<open>The start of the text\<close>

text \<open>The three probes read words at \<open>i, i + 4, ...\<close>; \<open>limit\<close> is \<open>start + must * 4\<close>.\<close>

function empty_from :: "byte list \<Rightarrow> nat \<Rightarrow> nat \<Rightarrow> bool" where
  "empty_from buf i limit =
     (if i + 4 \<le> length buf \<and> i < limit then
        let w = rd32_le buf i in
        if w = 0 then True else if w \<noteq> A64_NOP then False else empty_from buf (i + 4) limit
      else True)"
  by pat_completeness auto
termination by (relation "measure (\<lambda>(buf, i, limit). limit - i)") auto

function all_b_from :: "byte list \<Rightarrow> nat \<Rightarrow> nat \<Rightarrow> bool" where
  "all_b_from buf i limit =
     (if i < limit then
        if i + 4 > length buf then False
        else
          let w = rd32_le buf i in
          if w = 0 \<or> w = A64_NOP \<or> \<not> insn_is_b w then False else all_b_from buf (i + 4) limit
      else True)"
  by pat_completeness auto
termination by (relation "measure (\<lambda>(buf, i, limit). limit - i)") auto

definition is_really_empty :: "byte list \<Rightarrow> nat \<Rightarrow> bool" where
  "is_really_empty buf start = empty_from buf start (start + 12 * 4)"

definition is_really_all_b :: "byte list \<Rightarrow> nat \<Rightarrow> bool" where
  "is_really_all_b buf start = all_b_from buf start (start + 80 * 4)"

function work_from :: "byte list \<Rightarrow> nat \<Rightarrow> nat \<Rightarrow> bool" where
  "work_from buf i limit =
     (if i + 4 \<le> length buf \<and> i < limit then
        let w = rd32_le buf i in
        if w = 0 then False
        else if w = A64_NOP \<and> is_really_empty buf i then False else work_from buf (i + 4) limit
      else True)"
  by pat_completeness auto
termination by (relation "measure (\<lambda>(buf, i, limit). limit - i)") auto

definition is_really_work :: "byte list \<Rightarrow> nat \<Rightarrow> bool" where
  "is_really_work buf start =
     (if is_really_all_b buf start then False else work_from buf start (start + 80 * 4))"

function code_start_from :: "byte list \<Rightarrow> nat \<Rightarrow> nat" where
  "code_start_from buf x =
     (if x + 4 \<le> length buf then
        let w = rd32_le buf x in
        if w = 0 \<or> w = A64_NOP then code_start_from buf (x + 4)
        else if is_really_work buf x then x else code_start_from buf (x + 4)
      else 0)"
  by pat_completeness auto
termination by (relation "measure (\<lambda>(buf, x). length buf - x)") auto

definition find_static_code_start :: "byte list \<Rightarrow> nat" where
  "find_static_code_start buf = (if length buf < 0x200 then 0 else code_start_from buf 0x200)"

declare empty_from.simps [simp del] all_b_from.simps [simp del] work_from.simps [simp del]
  code_start_from.simps [simp del]

section \<open>The offsets list\<close>

text \<open>The length of the run from \<open>j\<close>, and where it stops.\<close>

function offsets_run :: "byte list \<Rightarrow> nat \<Rightarrow> nat \<Rightarrow> kallsyms_error + nat \<times> nat" where
  "offsets_run buf j cnt =
     (if j + 4 < length buf then
        bind_r (krd32 buf j) (\<lambda>a. bind_r (krd32 buf (j + 4)) (\<lambda>b.
          if a > b \<or> b = 0 \<or> b - a > 0x01000000 then Inr (cnt, j + 4)
          else offsets_run buf (j + 4) (cnt + 1)))
      else Inr (cnt, j))"
  by pat_completeness auto
termination by (relation "measure (\<lambda>(buf, j, cnt). length buf - j)") auto

function scan_offsets_from :: "byte list \<Rightarrow> nat \<Rightarrow> nat \<Rightarrow> kallsyms_error + (nat \<times> nat) option" where
  "scan_offsets_from buf max_cnt x =
     (if x + 4 < length buf then
        bind_r (krd32 buf x) (\<lambda>val1. bind_r (krd32 buf (x + 4)) (\<lambda>val2.
          if val1 \<noteq> 0 \<or> val1 \<ge> val2 then scan_offsets_from buf max_cnt (x + 4)
          else bind_r (offsets_run buf (x + 4) 0) (\<lambda>(cnt, j).
            if cnt \<ge> max_cnt then Inr (Some (x, j)) else scan_offsets_from buf max_cnt (x + 4))))
      else Inr None)"
  by pat_completeness auto
termination by (relation "measure (\<lambda>(buf, m, x). length buf - x)") auto

declare offsets_run.simps [simp del] scan_offsets_from.simps [simp del]

definition scan_offsets_list :: "byte list \<Rightarrow> nat \<Rightarrow> kallsyms_error + (nat \<times> nat) option" where
  "scan_offsets_list buf max_cnt = scan_offsets_from buf max_cnt 0"

function find_offsets_from :: "byte list \<Rightarrow> nat \<Rightarrow> kallsyms_error + (nat \<times> nat) option" where
  "find_offsets_from buf max_cnt =
     (if max_cnt > 5000 then
        bind_r (scan_offsets_list buf max_cnt) (\<lambda>r.
          case r of Some p \<Rightarrow> Inr (Some p) | None \<Rightarrow> find_offsets_from buf (max_cnt - 5000))
      else Inr None)"
  by pat_completeness auto
termination by (relation "measure snd") auto

declare find_offsets_from.simps [simp del]

definition find_offsets_list :: "byte list \<Rightarrow> kallsyms_error + (nat \<times> nat) option" where
  "find_offsets_list buf = find_offsets_from buf 60000"

fun relative_base_from :: "byte list \<Rightarrow> nat \<Rightarrow> nat list \<Rightarrow> nat option" where
  "relative_base_from buf offsets_end [] = None"
| "relative_base_from buf offsets_end (i # is) =
     (let off = offsets_end + 4 * i in
      if off + 8 > length buf then None
      else if looks_kernel_va (u64_of_le (window buf off (off + 8))) then Some off
      else relative_base_from buf offsets_end is)"

definition find_relative_base_offset :: "byte list \<Rightarrow> nat \<Rightarrow> nat option" where
  "find_relative_base_offset buf offsets_end = relative_base_from buf offsets_end [0..<5]"

section \<open>The names\<close>

definition names_entropy_ok :: "byte list \<Rightarrow> profile \<Rightarrow> nat \<Rightarrow> nat \<Rightarrow> nat \<Rightarrow> kallsyms_error + bool" where
  "names_entropy_ok buf pf start end num =
     (let total = wrap_sub end start in
      if 2 * total < 3 * num \<or> total > num * entropy_max_avg pf then Inr False
      else if \<not> (start \<le> end \<and> end \<le> length buf) then Inl KPanic
      else
        let bs = window buf start end;
            unique = length (remdups bs); zeros = length (filter (\<lambda>b. b = 0) bs) in
        if unique < 128 then Inr False else Inr (20 * zeros \<le> 3 * total))"

text \<open>The length prefix of one name: the length and the offset behind it; \<open>Inl ()\<close> is \<open>return None\<close>.\<close>

definition name_length :: "byte list \<Rightarrow> profile \<Rightarrow> nat \<Rightarrow> unit + nat \<times> nat" where
  "name_length buf pf off =
     (if off \<ge> length buf then Inl ()
      else
        let ch = unat (buf ! off) in
        if names_varint pf then
          if ch \<le> 0x7F then Inr (ch, off + 1)
          else if off + 1 \<ge> length buf then Inl ()
          else Inr (ch mod 128 + unat (buf ! (off + 1)) * 128, off + 2)
        else if ch \<ge> ksym_name_len pf then Inl () else Inr (ch, off + 1))"

fun walk_names :: "byte list \<Rightarrow> profile \<Rightarrow> nat \<Rightarrow> nat \<Rightarrow> nat \<Rightarrow> unit + nat \<times> nat" where
  "walk_names buf pf 0 off parsed = Inr (off, parsed)"
| "walk_names buf pf (Suc n) off parsed =
     (case name_length buf pf off of
        Inl u \<Rightarrow> Inl u
      | Inr (sym_len, off1) \<Rightarrow>
          if names_varint pf \<and> sym_len = 0 then Inr (off1, parsed)
          else if sym_len \<ge> ksym_name_len pf then Inl ()
          else walk_names buf pf n (off1 + sym_len) (parsed + 1))"

definition names_start :: "byte list \<Rightarrow> nat \<Rightarrow> nat" where
  "names_start buf num_end =
     (let limit = min (length buf) (num_end + MAX_FIND_RANGE) in
      case List.find (\<lambda>x. buf ! x \<noteq> 0) [num_end..<limit - 1] of Some x \<Rightarrow> x | None \<Rightarrow> 0)"

definition find_names :: "byte list \<Rightarrow> profile \<Rightarrow> nat \<Rightarrow> nat \<Rightarrow> kallsyms_error + (nat \<times> nat) option" where
  "find_names buf pf num num_end_offset =
     (let start = names_start buf num_end_offset in
      if start = 0 then Inr None
      else
        case walk_names buf pf num start 0 of
          Inl _ \<Rightarrow> Inr None
        | Inr (off, parsed) \<Rightarrow>
            if parsed = 0 then Inr None
            else bind_r (names_entropy_ok buf pf start off parsed) (\<lambda>good.
              Inr (if good then Some (start, off) else None)))"

text \<open>\<open>find_num\<close>; the candidate is an \<open>int\<close> in the given bounds, its unsigned reading the count.\<close>

function find_num_from ::
    "byte list \<Rightarrow> profile \<Rightarrow> int \<Rightarrow> int \<Rightarrow> nat \<Rightarrow> kallsyms_error + (nat \<times> nat) option" where
  "find_num_from buf pf mn mx x =
     (if x < length buf - 8 then
        bind_r (krd32 buf x) (\<lambda>w.
          let test = sint w in
          if mn \<le> test \<and> test \<le> mx then
            bind_r (find_names buf pf (unat w) (x + 4)) (\<lambda>r.
              if r \<noteq> None then Inr (Some (unat w, x)) else find_num_from buf pf mn mx (x + 4))
          else find_num_from buf pf mn mx (x + 4))
      else Inr None)"
  by pat_completeness auto
termination by (relation "measure (\<lambda>(buf, pf, mn, mx, x). length buf - x)") auto

declare find_num_from.simps [simp del]

definition find_num ::
    "byte list \<Rightarrow> profile \<Rightarrow> nat \<Rightarrow> int \<Rightarrow> int \<Rightarrow> kallsyms_error + (nat \<times> nat) option" where
  "find_num buf pf start mn mx =
     (if length buf < 8 then Inr None else find_num_from buf pf mn mx start)"

section \<open>The markers\<close>

text \<open>The first marker; \<open>0\<close> when the loop runs to the end of the buffer.\<close>

function markers_from :: "byte list \<Rightarrow> nat \<Rightarrow> kallsyms_error + nat option" where
  "markers_from buf x =
     (if x + 4 < length buf then
        bind_r (krd32 buf x) (\<lambda>val1. bind_r (krd32 buf (x + 4)) (\<lambda>val2.
          if val1 = 0 \<and> val2 > 0 then Inr (Some x)
          else if val1 = 0 \<and> val2 = 0 then markers_from buf (x + 4)
          else Inr None))
      else Inr (Some 0))"
  by pat_completeness auto
termination by (relation "measure (\<lambda>(buf, x). length buf - x)") auto

declare markers_from.simps [simp del]

text \<open>
  Five slots whose high word repeats the first, zero: the loop decrements \<open>cnt\<close> from five.
\<close>

fun markers_align8 :: "byte list \<Rightarrow> nat \<Rightarrow> u32 \<Rightarrow> nat \<Rightarrow> kallsyms_error + bool" where
  "markers_align8 buf y last_hi 0 = Inr True"
| "markers_align8 buf y last_hi (Suc cnt) =
     (if y + 4 < length buf then
        bind_r (krd32 buf (y + 4)) (\<lambda>hi.
          if hi \<noteq> last_hi then Inr False
          else if cnt = 0 then Inr True
          else markers_align8 buf (y + 8) hi cnt)
      else Inr False)"

definition find_markers :: "byte list \<Rightarrow> nat \<Rightarrow> nat \<Rightarrow> kallsyms_error + (nat \<times> nat) option" where
  "find_markers buf num names_end =
     bind_r (markers_from buf (align_up8 names_end)) (\<lambda>m.
     case m of
       None \<Rightarrow> Inr None
     | Some ms \<Rightarrow>
         bind_r (markers_align8 buf (ms + 4) 0 5) (\<lambda>is_align8.
         let entries = ((num + 255) div 256) * 4 in
         if is_align8 then
           let back = align_up8 ms - ms; ms' = wrap_sub ms (if back = 0 then 8 else back) in
           Inr (Some (ms', (ms' + entries * 2) mod 2 ^ 64))
         else Inr (Some (ms, ms + entries))))"

section \<open>The token tables\<close>

record tables =
  names_offset :: nat
  token_table_offset :: nat
  token_index_offset :: nat

fun nul_position :: "byte list \<Rightarrow> nat option" where
  "nul_position [] = None"
| "nul_position (b # bs) = (if b = 0 then Some 0 else map_option Suc (nul_position bs))"

fun token_strings_end :: "byte list \<Rightarrow> nat \<Rightarrow> nat \<Rightarrow> nat option" where
  "token_strings_end buf 0 off = Some off"
| "token_strings_end buf (Suc n) off =
     (case nul_position (drop off buf) of
        None \<Rightarrow> None
      | Some rel \<Rightarrow> token_strings_end buf n (off + rel + 1))"

definition parse_token_strings :: "byte list \<Rightarrow> nat \<Rightarrow> nat option" where
  "parse_token_strings buf x = token_strings_end buf 256 x"

function token_index_from :: "byte list \<Rightarrow> nat \<Rightarrow> kallsyms_error + nat option" where
  "token_index_from buf x =
     (if x + 2 < length buf then
        bind_r (krd16 buf x) (\<lambda>val1. bind_r (krd16 buf (x + 2)) (\<lambda>val2.
          if val1 = 0 \<and> val2 > 0 then Inr (Some x)
          else if val1 = 0 \<and> val2 = 0 then token_index_from buf (x + 2)
          else Inr None))
      else Inr None)"
  by pat_completeness auto
termination by (relation "measure (\<lambda>(buf, x). length buf - x)") auto

declare token_index_from.simps [simp del]

definition find_token_index :: "byte list \<Rightarrow> nat \<Rightarrow> kallsyms_error + nat option" where
  "find_token_index buf token_table_end = token_index_from buf (align_up8 token_table_end)"

text \<open>\<open>String::push(b as char)\<close>: the UTF-8 bytes of the code point.\<close>

definition push_latin1 :: "byte \<Rightarrow> string" where
  "push_latin1 b =
     (if unat b < 128 then [char_of (unat b)]
      else [char_of (0xC0 + unat b div 64), char_of (0x80 + unat b mod 64)])"

text \<open>The bytes of the token whose string starts at the given place.\<close>

definition token_bytes :: "byte list \<Rightarrow> nat \<Rightarrow> byte list" where
  "token_bytes buf tptr = takeWhile (\<lambda>b. b \<noteq> 0) (drop tptr buf)"

text \<open>
  The bytes of the tokens of a name, up to the first that lies outside the buffer; the first byte of
  the whole is the symbol's type and is not part of the name.
\<close>

fun expand_tokens :: "byte list \<Rightarrow> tables \<Rightarrow> nat \<Rightarrow> nat \<Rightarrow> byte list" where
  "expand_tokens buf t p 0 = []"
| "expand_tokens buf t p (Suc n) =
     (if p < length buf then
        let x = unat (buf ! p) in
        if token_index_offset t + x * 2 + 2 > length buf then []
        else
          let i = token_index_offset t + x * 2; y = unat (u16_of_le (buf ! i) (buf ! (i + 1))) in
          token_bytes buf (token_table_offset t + y) @ expand_tokens buf t (p + 1) n
      else [])"

definition expand_symbol :: "byte list \<Rightarrow> tables \<Rightarrow> nat \<Rightarrow> string \<times> nat" where
  "expand_symbol buf t off =
     (let names = names_offset t in
      if names + off \<ge> length buf then ([], off + 1)
      else
        let b = unat (buf ! (names + off)) in
        let (len, off1) =
          (if b div 128 \<noteq> 0
           then (b mod 128 + (if names + (off + 1) < length buf then unat (buf ! (names + (off + 1))) else 0) * 128,
             off + 2)
           else (b, off + 1)) in
        (concat (map push_latin1 (drop 1 (expand_tokens buf t (names + off1) len))), off1 + len))"

definition clean_char :: "char \<Rightarrow> bool" where
  "clean_char c \<longleftrightarrow> (33 \<le> (of_char c :: nat) \<and> (of_char c :: nat) \<le> 126) \<or> c = CHR '' ''"

fun decode_cleanly :: "byte list \<Rightarrow> tables \<Rightarrow> nat \<Rightarrow> nat \<Rightarrow> bool" where
  "decode_cleanly buf t 0 off = True"
| "decode_cleanly buf t (Suc n) off =
     (if names_offset t + off \<ge> length buf then False
      else
        let (name, next_off) = expand_symbol buf t off in
        if name = [] \<or> \<not> (\<forall>c \<in> set name. clean_char c) then False
        else decode_cleanly buf t n next_off)"

definition token_tables_decode_cleanly :: "byte list \<Rightarrow> tables \<Rightarrow> nat \<Rightarrow> bool" where
  "token_tables_decode_cleanly buf t num =
     (let probe = min num 16 in if probe = 0 then False else decode_cleanly buf t probe 0)"

function token_tables_from ::
    "byte list \<Rightarrow> nat \<Rightarrow> nat \<Rightarrow> nat \<Rightarrow> kallsyms_error + tables option" where
  "token_tables_from buf names_off num x =
     (if x + 4 < length buf then
        if rd32_le buf x = 0 then token_tables_from buf names_off num (x + 4)
        else
          bind_r (case parse_token_strings buf x of
              Some tt_end \<Rightarrow>
                if tt_end - x \<le> 0x1000 then find_token_index buf tt_end else Inr None
            | None \<Rightarrow> Inr None) (\<lambda>ti.
          case ti of
            Some i \<Rightarrow>
              let t = \<lparr>names_offset = names_off, token_table_offset = x, token_index_offset = i\<rparr> in
              if token_tables_decode_cleanly buf t num then Inr (Some t)
              else token_tables_from buf names_off num (x + 4)
          | None \<Rightarrow> token_tables_from buf names_off num (x + 4))
      else Inr None)"
  by pat_completeness auto
termination by (relation "measure (\<lambda>(buf, m, num, x). length buf - x)") auto

declare token_tables_from.simps [simp del]

definition find_token_tables :: "byte list \<Rightarrow> nat \<Rightarrow> nat \<Rightarrow> nat \<Rightarrow> kallsyms_error + tables option" where
  "find_token_tables buf names_off from num = token_tables_from buf names_off num (align_up8 from)"

section \<open>Decoding\<close>

definition sym_address :: "byte list \<Rightarrow> profile \<Rightarrow> nat \<Rightarrow> u64 \<Rightarrow> nat \<Rightarrow> kallsyms_error + u64" where
  "sym_address buf pf offsets_offset relative_base idx =
     bind_r (krd32 buf (offsets_offset + idx * 4)) (\<lambda>w.
     Inr (if 0 \<le> sint w then of_int (sint w)
       else if negative_uses_base pf then relative_base - 1 - of_int (sint w) else 0))"

fun decode_from ::
    "byte list \<Rightarrow> profile \<Rightarrow> nat \<Rightarrow> u64 \<Rightarrow> tables \<Rightarrow> nat list \<Rightarrow> nat \<Rightarrow>
      kallsyms_error + (string \<times> u64) list" where
  "decode_from buf pf offsets_offset relative_base t [] off = Inr []"
| "decode_from buf pf offsets_offset relative_base t (i # is) off =
     (let (name, next_off) = expand_symbol buf t off in
      bind_r (sym_address buf pf offsets_offset relative_base i) (\<lambda>addr.
      bind_r (decode_from buf pf offsets_offset relative_base t is next_off) (\<lambda>rest.
      Inr ((name, addr) # rest))))"

definition decode_symbols ::
    "byte list \<Rightarrow> profile \<Rightarrow> nat \<Rightarrow> nat \<Rightarrow> u64 \<Rightarrow> tables \<Rightarrow> kallsyms_error + (string \<times> u64) list" where
  "decode_symbols buf pf num offsets_offset relative_base t =
     decode_from buf pf offsets_offset relative_base t [0..<num] 0"

text \<open>The maps of the result: the first symbol of a name wins, the offsets are sorted without duplicates.\<close>

definition build_symbols :: "nat \<Rightarrow> u64 \<Rightarrow> (string \<times> u64) list \<Rightarrow> symbols" where
  "build_symbols code_start stext_raw raw =
     (let base = of_nat code_start - stext_raw;
          order = map (\<lambda>(name, raw_addr). (name, raw_addr + base)) raw in
      \<lparr>by_name = map_of order, sym_order = order, sym_sorted = remdups_adj (sort (map snd order))\<rparr>)"

text \<open>Backing up the offsets list while its first entry is not zero.\<close>

function back_up :: "byte list \<Rightarrow> nat \<Rightarrow> kallsyms_error + nat" where
  "back_up buf off_start =
     (if off_start \<ge> 4 then
        bind_r (krd32 buf off_start) (\<lambda>w. if w \<noteq> 0 then back_up buf (off_start - 4) else Inr off_start)
      else Inr off_start)"
  by pat_completeness auto
termination by (relation "measure snd") auto

declare back_up.simps [simp del]

definition decoder_run :: "byte list \<Rightarrow> profile \<Rightarrow> kallsyms_error + symbols" where
  "decoder_run buf pf =
     (let code_static_start = find_static_code_start buf in
     bind_r (bind_r (find_offsets_list buf) (\<lambda>r. ok_or r NoOffsetsList)) (\<lambda>(off_start, off_end).
     bind_r (if has_relative_base pf then
         bind_r (ok_or (find_relative_base_offset buf off_end) NoRelativeBase) (\<lambda>rb.
         bind_r (krd64 buf rb) (\<lambda>v. Inr (v, rb + 8)))
       else Inr (0, 0)) (\<lambda>(relative_base, rel_base_end).
     let min_cnt = int ((off_end - off_start) div 4);
         num_search_start = (case pf_num_from pf of
           OffsetsEnd \<Rightarrow> off_end | RelBaseEnd \<Rightarrow> rel_base_end | FromZero \<Rightarrow> 0) in
     bind_r (bind_r (find_num buf pf num_search_start (min_cnt - 10) (min_cnt + 20)) (\<lambda>r.
       case r of
         Some p \<Rightarrow> Inr (Some p)
       | None \<Rightarrow>
           if num_search_start \<noteq> 0 then find_num buf pf 0 (min_cnt - 10) (min_cnt + 20) else Inr None)) (\<lambda>r.
     bind_r (ok_or r NoSymbolCount) (\<lambda>(num, num_offset).
     bind_r (back_up buf (wrap_sub off_end (num * 4))) (\<lambda>offsets_offset.
     bind_r (bind_r (find_names buf pf num (num_offset + 4)) (\<lambda>r. ok_or r NoNamesList)) (\<lambda>(names_start, names_end).
     bind_r (bind_r (find_markers buf num names_end) (\<lambda>r. ok_or r NoMarkersList)) (\<lambda>(markers_start, markers_end).
     bind_r (bind_r (find_token_tables buf names_start markers_end num) (\<lambda>r. ok_or r NoTokenTable)) (\<lambda>t.
     bind_r (decode_symbols buf pf num offsets_offset relative_base t) (\<lambda>raw.
     bind_r (ok_or (map_option snd (List.find (\<lambda>(n, a). n = ''_stext'') raw)) NoSymbolBase) (\<lambda>stext_raw.
     Inr (build_symbols code_static_start stext_raw raw))))))))))))"

definition analyze_with_version :: "byte list \<Rightarrow> u32 \<times> u32 \<times> u32 \<Rightarrow> kallsyms_error + symbols" where
  "analyze_with_version img version = decoder_run img (for_version version)"

definition kallsyms_analyze :: "byte list \<Rightarrow> kallsyms_error + symbols" where
  "kallsyms_analyze img =
     bind_r (ok_or (from_kernel img) NoKernelVersion) (\<lambda>ver. analyze_with_version img (triple ver))"

end
