(* ===== verification/Kallsyms_Props.thy ===== *)
theory Kallsyms_Props
  imports Kallsyms
begin

text \<open>
  What the kallsyms decoder guarantees: the symbol table it builds, the expansion of compressed names,
  the bounds of the names it accepts, and the images on which its scans index out of range.
\<close>

section \<open>The symbol table\<close>

definition symbols_ok :: "symbols \<Rightarrow> bool" where
  "symbols_ok syms \<longleftrightarrow> sorted_wrt (<) (sym_sorted syms) \<and>
     set (sym_sorted syms) = snd ` set (sym_order syms) \<and> by_name syms = map_of (sym_order syms)"

lemma sorted_remdups_adj: "sorted xs \<Longrightarrow> sorted_wrt (<) (remdups_adj xs)" for xs :: "u64 list"
proof (induction xs rule: remdups_adj.induct)
  case (3 x y xs)
  show ?case
  proof (cases "x = y")
    case False
    then have "x < y" using 3(3) by auto
    moreover have "\<forall>z \<in> set (remdups_adj (y # xs)). y \<le> z" using 3(3) by auto
    ultimately show ?thesis using 3 False by auto
  qed (use 3 in auto)
qed simp_all

lemma build_symbols_ok: "symbols_ok (build_symbols code_start stext raw)"
proof -
  have "sorted_wrt (<) (remdups_adj (sort xs))" for xs :: "u64 list"
    by (rule sorted_remdups_adj) simp
  then show ?thesis by (simp add: symbols_ok_def build_symbols_def Let_def del: map_map)
qed

text \<open>The next symbol behind an address: no symbol lies in between.\<close>

definition next_symbol :: "symbols \<Rightarrow> u64 \<Rightarrow> u64 \<Rightarrow> bool" where
  "next_symbol syms addr n \<longleftrightarrow> n \<in> snd ` set (sym_order syms) \<and> addr < n \<and>
     (\<forall>o' \<in> snd ` set (sym_order syms). o' \<le> addr \<or> n \<le> o')"

lemma takeWhile_sorted_next:
  fixes xs :: "u64 list"
  assumes "sorted_wrt (<) xs" and "length (takeWhile (\<lambda>o'. o' \<le> a) xs) < length xs"
  shows "xs ! length (takeWhile (\<lambda>o'. o' \<le> a) xs) > a"
    and "\<forall>o' \<in> set xs. o' \<le> a \<or> xs ! length (takeWhile (\<lambda>o'. o' \<le> a) xs) \<le> o'"
proof -
  let ?k = "length (takeWhile (\<lambda>o'. o' \<le> a) xs)"
  show "xs ! ?k > a" using nth_length_takeWhile [OF assms(2)] by simp
  show "\<forall>o' \<in> set xs. o' \<le> a \<or> xs ! ?k \<le> o'"
  proof
    fix o' assume "o' \<in> set xs"
    then obtain j where j: "j < length xs" "o' = xs ! j" by (auto simp: in_set_conv_nth)
    show "o' \<le> a \<or> xs ! ?k \<le> o'"
    proof (cases "j < ?k")
      case True
      then show ?thesis using j by (metis nth_mem set_takeWhileD takeWhile_nth)
    next
      case False
      then show ?thesis
        using assms(1) j by (cases "j = ?k") (auto simp: sorted_wrt_iff_nth_less le_less)
    qed
  qed
qed

lemma size_at_iff:
  assumes "symbols_ok syms"
  shows "size_at syms addr = Some d \<longleftrightarrow> addr \<noteq> 0 \<and> (\<exists>n. next_symbol syms addr n \<and> d = n - addr)"
proof -
  let ?xs = "sym_sorted syms"
  let ?k = "length (takeWhile (\<lambda>o'. o' \<le> addr) ?xs)"
  have s: "sorted_wrt (<) ?xs" "set ?xs = snd ` set (sym_order syms)" using assms by (simp_all add: symbols_ok_def)
  show ?thesis
  proof (cases "?k < length ?xs")
    case True
    have n: "next_symbol syms addr (?xs ! ?k)"
      unfolding next_symbol_def using takeWhile_sorted_next [OF s(1) True] True s(2) by (metis nth_mem)
    have uniq: "m = ?xs ! ?k" if "next_symbol syms addr m" for m
      using that n unfolding next_symbol_def by (metis antisym not_le)
    have "size_at syms addr = Some d \<longleftrightarrow> addr \<noteq> 0 \<and> d = ?xs ! ?k - addr"
      unfolding size_at_def Let_def if_P [OF True] by auto
    then show ?thesis using n uniq by blast
  next
    case False
    then have "takeWhile (\<lambda>o'. o' \<le> addr) ?xs = ?xs"
      using takeWhile_eq_take [of "\<lambda>o'. o' \<le> addr" ?xs] take_all [of ?xs ?k] by (simp add: not_less)
    then have "\<forall>o' \<in> set ?xs. o' \<le> addr" by (metis takeWhile_eq_all_conv)
    then have "\<not> next_symbol syms addr n" for n unfolding next_symbol_def s(2) [symmetric] by (metis not_le)
    then show ?thesis using False by (simp add: size_at_def Let_def)
  qed
qed

lemma decoder_run_build:
  assumes "decoder_run buf pf = Inr syms"
  shows "\<exists>raw stext. syms = build_symbols (find_static_code_start buf) stext raw \<and>
    map_option snd (List.find (\<lambda>(n, a). n = ''_stext'') raw) = Some stext"
  using assms unfolding decoder_run_def Let_def
  by (elim bind_r_Inr_pairE bind_r_InrE) (auto simp: ok_or_Inr_iff)

lemma find_first_map_of:
  "map_option snd (List.find (\<lambda>(n, a). n = k) raw) = map_of raw k"
  by (induction raw) auto

lemma build_symbols_lookup:
  "lookup (build_symbols c stext raw) n = map_option (\<lambda>a. a + (of_nat c - stext)) (map_of raw n)"
  unfolding lookup_def build_symbols_def Let_def by (induction raw) auto

section \<open>Compressed names\<close>

text \<open>The compressed form of a name: a length of one or two bytes and the tokens.\<close>

definition encode_name :: "byte list \<Rightarrow> byte list" where
  "encode_name bs =
     (if length bs < 128 then [of_nat (length bs)]
      else [of_nat (128 + length bs mod 128), of_nat (length bs div 128)]) @ bs"

text \<open>The tables hold the token strings \<open>tok\<close>.\<close>

definition tables_hold :: "byte list \<Rightarrow> tables \<Rightarrow> (byte \<Rightarrow> byte list) \<Rightarrow> bool" where
  "tables_hold buf t tok \<longleftrightarrow> (\<forall>x.
     token_index_offset t + unat x * 2 + 2 \<le> length buf \<and> 0 \<notin> set (tok x) \<and>
     (let i = token_index_offset t + unat x * 2; y = unat (u16_of_le (buf ! i) (buf ! (i + 1))) in
      \<exists>r. drop (token_table_offset t + y) buf = tok x @ 0 # r))"

definition name_text :: "(byte \<Rightarrow> byte list) \<Rightarrow> byte list \<Rightarrow> string" where
  "name_text tok bs = concat (map push_latin1 (drop 1 (concat (map tok bs))))"

definition bytes_at :: "byte list \<Rightarrow> nat \<Rightarrow> byte list \<Rightarrow> bool" where
  "bytes_at buf p xs \<longleftrightarrow> p + length xs \<le> length buf \<and> (\<forall>k < length xs. buf ! (p + k) = xs ! k)"

lemma bytes_at_nth: "bytes_at buf p xs \<Longrightarrow> k < length xs \<Longrightarrow> p + k < length buf \<and> buf ! (p + k) = xs ! k"
  by (simp add: bytes_at_def)

lemma bytes_at_append:
  "bytes_at buf p (xs @ ys) \<longleftrightarrow> bytes_at buf p xs \<and> bytes_at buf (p + length xs) ys"
proof
  assume b: "bytes_at buf p (xs @ ys)"
  have "buf ! (p + length xs + k) = ys ! k" if "k < length ys" for k
    using b that bytes_at_nth [OF b, of "length xs + k"] by (simp add: add.assoc)
  moreover have "buf ! (p + k) = xs ! k" if "k < length xs" for k
    using b that bytes_at_nth [OF b, of k] by (simp add: nth_append)
  ultimately show "bytes_at buf p xs \<and> bytes_at buf (p + length xs) ys" using b by (simp add: bytes_at_def)
next
  assume b: "bytes_at buf p xs \<and> bytes_at buf (p + length xs) ys"
  show "bytes_at buf p (xs @ ys)" unfolding bytes_at_def
  proof (intro conjI allI impI)
    fix k assume "k < length (xs @ ys)"
    then show "buf ! (p + k) = (xs @ ys) ! k"
      using b bytes_at_nth [of buf "p + length xs" ys "k - length xs"]
      by (cases "k < length xs") (simp_all add: bytes_at_def nth_append)
  qed (use b in \<open>simp add: bytes_at_def\<close>)
qed

lemma expand_tokens_at:
  assumes "tables_hold buf t tok" and "bytes_at buf p bs"
  shows "expand_tokens buf t p (length bs) = concat (map tok bs)"
  using assms(2)
proof (induction bs arbitrary: p)
  case (Cons b bs)
  have p: "p < length buf" "buf ! p = b" using bytes_at_nth [OF Cons(2), of 0] by simp_all
  have rest: "bytes_at buf (p + 1) bs" using Cons(2) bytes_at_append [of buf p "[b]" bs] by simp
  define i where "i = token_index_offset t + unat b * 2"
  define y where "y = unat (u16_of_le (buf ! i) (buf ! Suc i))"
  have h: "i + 2 \<le> length buf" "0 \<notin> set (tok b)" "\<exists>r. drop (token_table_offset t + y) buf = tok b @ 0 # r"
    using assms(1) unfolding tables_hold_def Let_def i_def y_def Suc_eq_plus1 by blast+
  then have "token_bytes buf (token_table_offset t + y) = tok b"
    unfolding token_bytes_def by (metis (mono_tags, lifting) takeWhile_append2 takeWhile.simps(2) append_Nil2)
  then show ?case
    using Cons(1) [OF rest] h(1) p by (simp add: Let_def flip: i_def y_def)
qed simp

lemma expand_symbol_at:
  assumes "tables_hold buf t tok" and "bytes_at buf (names_offset t + off) (encode_name bs)"
    and "length bs < 2 ^ 15"
  shows "expand_symbol buf t off = (name_text tok bs, off + length (encode_name bs))"
proof (cases "length bs < 128")
  case True
  then have e: "encode_name bs = [of_nat (length bs)] @ bs" by (simp add: encode_name_def)
  have h: "bytes_at buf (names_offset t + off) [of_nat (length bs)]" "bytes_at buf (names_offset t + (off + 1)) bs"
    using assms(2) unfolding e bytes_at_append by (simp_all add: add.assoc)
  have b: "names_offset t + off < length buf" "buf ! (names_offset t + off) = of_nat (length bs)"
    using bytes_at_nth [OF h(1), of 0] by simp_all
  have u: "unat (of_nat (length bs) :: byte) = length bs"
    unfolding unat_of_nat using True by (intro mod_less) simp
  show ?thesis
    using b True expand_tokens_at [OF assms(1) h(2)]
    by (simp add: expand_symbol_def Let_def u e name_text_def)
next
  case False
  then have e: "encode_name bs = [of_nat (128 + length bs mod 128), of_nat (length bs div 128)] @ bs"
    by (simp add: encode_name_def)
  have h: "bytes_at buf (names_offset t + off) [of_nat (128 + length bs mod 128), of_nat (length bs div 128)]"
    "bytes_at buf (names_offset t + (off + 2)) bs"
    using assms(2) unfolding e bytes_at_append by (simp_all add: add.assoc)
  have b: "names_offset t + off < length buf" "buf ! (names_offset t + off) = of_nat (128 + length bs mod 128)"
    "names_offset t + (off + 1) < length buf" "buf ! (names_offset t + (off + 1)) = of_nat (length bs div 128)"
    using bytes_at_nth [OF h(1), of 0] bytes_at_nth [OF h(1), of 1] by (simp_all add: add.assoc)
  have m: "length bs mod 128 < 128" by simp
  have u: "unat (of_nat (128 + length bs mod 128) :: byte) = 128 + length bs mod 128"
    unfolding unat_of_nat using m by (intro mod_less) simp
  have v: "unat (of_nat (length bs div 128) :: byte) = length bs div 128"
    unfolding unat_of_nat using assms(3) by (intro mod_less) simp
  have len: "length bs mod 128 + length bs div 128 * 128 = length bs" by simp
  have d: "(128 + length bs mod 128) div 128 = 1" "(128 + length bs mod 128) mod 128 = length bs mod 128"
    using m by simp_all
  have "expand_symbol buf t off = (concat (map push_latin1 (drop 1 (expand_tokens buf t (names_offset t + (off + 2))
      (length bs)))), off + 2 + length bs)"
    unfolding expand_symbol_def Let_def using b(1,3) by (simp only: b(2,4) u v d if_True not_le [symmetric])
      (simp add: len)
  then show ?thesis using expand_tokens_at [OF assms(1) h(2)] by (simp add: name_text_def e)
qed

lemma decode_from_names:
  assumes "tables_hold buf t tok" and "bytes_at buf (names_offset t + off) (concat (map encode_name nss))"
    and "\<forall>bs \<in> set nss. length bs < 2 ^ 15" and "length idxs = length nss"
    and "\<forall>i \<in> set idxs. sym_address buf pf oo rb i = Inr (addr i)"
  shows "decode_from buf pf oo rb t idxs off = Inr (zip (map (name_text tok) nss) (map addr idxs))"
  using assms(2-)
proof (induction nss arbitrary: off idxs)
  case (Cons bs nss)
  then obtain i js where idxs: "idxs = i # js" by (cases idxs) auto
  have h: "bytes_at buf (names_offset t + off) (encode_name bs)"
    "bytes_at buf (names_offset t + (off + length (encode_name bs))) (concat (map encode_name nss))"
    using Cons(2) by (simp_all add: bytes_at_append add.assoc)
  have "expand_symbol buf t off = (name_text tok bs, off + length (encode_name bs))"
    using expand_symbol_at [OF assms(1) h(1)] Cons(3) by simp
  moreover have "decode_from buf pf oo rb t js (off + length (encode_name bs)) =
      Inr (zip (map (name_text tok) nss) (map addr js))"
    using Cons(1) [OF h(2), of js] Cons(3-) by (simp add: idxs)
  ultimately show ?case using Cons(5) by (simp add: idxs)
qed simp

section \<open>Accepted names\<close>

lemma walk_names_bounds:
  "walk_names buf pf n off parsed = Inr (off', parsed') \<Longrightarrow> off \<le> off' \<and> parsed \<le> parsed' \<and> parsed' \<le> parsed + n"
proof (induction n arbitrary: off parsed)
  case (Suc n)
  then obtain len off1 where l: "name_length buf pf off = Inr (len, off1)"
    by (auto split: sum.splits)
  then have "off \<le> off1" by (auto simp: name_length_def Let_def split: if_splits)
  then show ?case
    using Suc.prems l Suc.IH [of "off1 + len" "parsed + 1"] by (auto split: if_splits)
qed simp

lemma names_start_props:
  "names_start buf p \<noteq> 0 \<Longrightarrow> p \<le> names_start buf p \<and> names_start buf p < length buf \<and> buf ! names_start buf p \<noteq> 0"
proof -
  assume n: "names_start buf p \<noteq> 0"
  then obtain x where x: "List.find (\<lambda>x. buf ! x \<noteq> 0) [p..<min (length buf) (p + MAX_FIND_RANGE) - 1] = Some x"
    "names_start buf p = x" by (auto simp: names_start_def Let_def split: option.splits)
  then have "x \<in> set [p..<min (length buf) (p + MAX_FIND_RANGE) - 1]" "buf ! x \<noteq> 0"
    by (metis find_Some_iff nth_mem) (use x in \<open>auto simp: find_Some_iff\<close>)
  then show ?thesis using x by auto
qed

lemma find_names_Some:
  assumes "find_names buf pf num p = Inr (Some (s, e))"
  shows "p \<le> s" and "s \<le> e" and "e \<le> length buf" and "buf ! s \<noteq> 0"
    and "\<exists>parsed. 0 < parsed \<and> parsed \<le> num \<and> 3 * parsed \<le> 2 * (e - s) \<and> e - s \<le> parsed * entropy_max_avg pf"
proof -
  define start where "start = names_start buf p"
  have nz: "start \<noteq> 0"
    using assms unfolding find_names_def Let_def start_def [symmetric] by (auto split: if_splits)
  obtain off parsed where w: "walk_names buf pf num start 0 = Inr (off, parsed)"
    using assms unfolding find_names_def Let_def start_def [symmetric] if_not_P [OF nz]
    by (cases "walk_names buf pf num start 0") auto
  have pz: "parsed \<noteq> 0"
    using assms unfolding find_names_def Let_def start_def [symmetric] if_not_P [OF nz] w by (cases "parsed = 0") simp_all
  obtain good where g: "names_entropy_ok buf pf start off parsed = Inr good"
    "(if good then Some (start, off) else None) = Some (s, e)"
    using assms unfolding find_names_def Let_def start_def [symmetric] if_not_P [OF nz] w
    by (simp add: if_not_P [OF pz]) (auto elim!: bind_r_InrE)
  then have se: "s = start" "e = off" and gd: good by (auto split: if_splits)
  note b = walk_names_bounds [OF w] and n = names_start_props [of buf p, folded start_def, OF nz]
  show "p \<le> s" "buf ! s \<noteq> 0" using n se by simp_all
  have ws: "wrap_sub off start = off - start" using b by (simp add: wrap_sub_def)
  have ent: "\<not> (2 * (off - start) < 3 * parsed \<or> off - start > parsed * entropy_max_avg pf)"
    using g(1) gd unfolding names_entropy_ok_def Let_def ws by (simp split: if_splits)
  have ins: "start \<le> off \<and> off \<le> length buf"
    using g(1) unfolding names_entropy_ok_def Let_def ws if_not_P [OF ent]
    by (simp split: if_splits)
  show "s \<le> e" "e \<le> length buf" using ins se by simp_all
  show "\<exists>parsed. 0 < parsed \<and> parsed \<le> num \<and> 3 * parsed \<le> 2 * (e - s) \<and> e - s \<le> parsed * entropy_max_avg pf"
    using ent pz b unfolding se by (intro exI [of _ parsed]) simp
qed

section \<open>Images whose length is not a multiple of four\<close>

lemma krd32_error: "krd32 buf x = Inl e \<Longrightarrow> e = KPanic"
  by (simp add: krd32_def split: if_splits)

lemma offsets_run_error: "offsets_run buf j cnt = Inl e \<Longrightarrow> e = KPanic"
proof (induction buf j cnt rule: offsets_run.induct)
  case (1 buf j cnt)
  show ?case
  proof (cases "j + 4 < length buf")
    case True
    note unfold = offsets_run.simps [of buf j cnt, unfolded if_P [OF True]]
    show ?thesis
    proof (cases "krd32 buf j")
      case (Inl e')
      then show ?thesis using 1(2) unfold krd32_error [of buf j e'] by simp
    next
      case a: (Inr a)
      show ?thesis
      proof (cases "krd32 buf (j + 4)")
        case (Inl e')
        then show ?thesis using 1(2) unfold a krd32_error [of buf "j + 4" e'] by simp
      next
        case b: (Inr b)
        then show ?thesis using 1(2) unfold a 1(1) [OF True] by (simp split: if_splits)
      qed
    qed
  next
    case False
    then show ?thesis using 1(2) by (subst (asm) offsets_run.simps) simp
  qed
qed

lemma offsets_run_count:
  "offsets_run buf j cnt = Inr (cnt', j') \<Longrightarrow> j \<le> length buf \<Longrightarrow> cnt' * 4 + j \<le> cnt * 4 + length buf"
proof (induction buf j cnt rule: offsets_run.induct)
  case (1 buf j cnt)
  show ?case
  proof (cases "j + 4 < length buf")
    case True
    then obtain a b where ab: "krd32 buf j = Inr a" "krd32 buf (j + 4) = Inr b"
      using 1(2) by (subst (asm) offsets_run.simps) (auto simp: bind_r_Inr_iff)
    show ?thesis
    proof (cases "a > b \<or> b = 0 \<or> b - a > 0x01000000")
      case stop: True
      then show ?thesis using 1(2,3) True ab by (subst (asm) offsets_run.simps) simp
    next
      case go: False
      then have "offsets_run buf (j + 4) (cnt + 1) = Inr (cnt', j')"
        using 1(2) True ab by (subst (asm) offsets_run.simps) simp
      then show ?thesis using 1(1) [OF True go] True by simp
    qed
  next
    case False
    then show ?thesis using 1(2,3) by (subst (asm) offsets_run.simps) simp
  qed
qed

lemma scan_offsets_unaligned:
  assumes "length buf mod 4 \<noteq> 0" and "length buf < 4 * max_cnt" and "x mod 4 = 0" and "x + 4 < length buf"
  shows "scan_offsets_from buf max_cnt x = Inl KPanic"
  using assms
proof (induction buf max_cnt x rule: scan_offsets_from.induct)
  case (1 buf max_cnt x)
  note un = \<open>length buf mod 4 \<noteq> 0\<close> and lt = \<open>length buf < 4 * max_cnt\<close> and al = \<open>x mod 4 = 0\<close>
    and inb = \<open>x + 4 < length buf\<close>
  show ?case
  proof (cases "x + 8 \<le> length buf")
    case False
    then have "krd32 buf (x + 4) = Inl KPanic" by (simp add: krd32_def)
    moreover have "krd32 buf x = Inr (rd32_le buf x)" using inb by (simp add: krd32_def)
    ultimately show ?thesis using inb by (subst scan_offsets_from.simps) simp
  next
    case True
    have "x + 8 \<noteq> length buf" using un al by presburger
    then have further: "x + 4 + 4 < length buf" using True by simp
    have m: "(x + 4) mod 4 = 0" using al by simp
    define a where "a = rd32_le buf x"
    define b where "b = rd32_le buf (x + 4)"
    have k: "krd32 buf x = Inr a" "krd32 buf (x + 4) = Inr b"
      using True by (simp_all add: krd32_def a_def b_def)
    note unfold = scan_offsets_from.simps [of buf max_cnt x, unfolded if_P [OF inb] k bind_r_simps]
    show ?thesis
    proof (cases "a \<noteq> 0 \<or> a \<ge> b")
      case skip: True
      then show ?thesis using unfold 1(1) [OF inb skip un lt m further] by simp
    next
      case cand: False
      show ?thesis
      proof (cases "offsets_run buf (x + 4) 0")
        case (Inl e)
        then show ?thesis using unfold cand offsets_run_error [OF Inl] by simp
      next
        case (Inr r)
        obtain cnt j where r: "r = (cnt, j)" by fastforce
        have "cnt * 4 + (x + 4) \<le> length buf" using offsets_run_count [of buf "x + 4" 0 cnt j] Inr r inb by simp
        then have few: "\<not> cnt \<ge> max_cnt" using lt by simp
        then show ?thesis
          using unfold cand Inr r 1(2) [OF inb cand few un lt m further] by simp
      qed
    qed
  qed
qed

lemma find_offsets_unaligned:
  assumes "length buf mod 4 \<noteq> 0" and "4 < length buf" and "length buf < 240000"
  shows "find_offsets_list buf = Inl KPanic"
proof -
  have "scan_offsets_list buf 60000 = Inl KPanic"
    unfolding scan_offsets_list_def by (rule scan_offsets_unaligned) (use assms in simp_all)
  then show ?thesis unfolding find_offsets_list_def by (subst find_offsets_from.simps) simp
qed

section \<open>Properties\<close>

text \<open>
  (C9) Whatever table the decoder returns for an image, the symbol \<open>_stext\<close> is at the start of the
  code, and \<open>size_at\<close> gives, for a nonzero address, exactly the distance to the nearest symbol behind
  it, and nothing when there is none.\<close>

theorem decoder_run_symbols:
  "case decoder_run buf pf of
     Inl e \<Rightarrow> True
   | Inr syms \<Rightarrow>
       lookup syms ''_stext'' = Some (of_nat (find_static_code_start buf)) \<and>
       (size_at syms addr = Some d \<longleftrightarrow> addr \<noteq> 0 \<and> (\<exists>n. next_symbol syms addr n \<and> d = n - addr))"
proof (cases "decoder_run buf pf")
  case (Inr syms)
  then obtain raw stext where r: "syms = build_symbols (find_static_code_start buf) stext raw"
    "map_of raw ''_stext'' = Some stext"
    using decoder_run_build [OF Inr] unfolding find_first_map_of by blast
  have "symbols_ok syms" unfolding r(1) by (rule build_symbols_ok)
  then show ?thesis
    unfolding Inr sum.case size_at_iff [OF \<open>symbols_ok syms\<close>] using r(2)
    by (simp add: r(1) build_symbols_lookup)
qed simp

text \<open>
  (C8) Round trip of the name compression: from a buffer that holds the compressed names \<open>nss\<close> back to
  back, the token tables \<open>tok\<close> and one 32-bit offset per name, \<open>decode_symbols\<close> returns the expanded names in
  order, each with the address its offset stands for.\<close>

theorem decode_symbols_reads_names:
  assumes "tables_hold buf t tok" and "bytes_at buf (names_offset t) (concat (map encode_name nss))"
    and "\<forall>bs \<in> set nss. length bs < 2 ^ 15" and "oo + length nss * 4 \<le> length buf"
  shows "decode_symbols buf pf (length nss) oo rb t =
    Inr (zip (map (name_text tok) nss)
      (map (\<lambda>i. let w = rd32_le buf (oo + i * 4) in
         if 0 \<le> sint w then of_int (sint w)
         else if negative_uses_base pf then rb - 1 - of_int (sint w) else 0) [0..<length nss]))"
  unfolding decode_symbols_def Let_def
proof (rule decode_from_names [OF assms(1) _ assms(3)])
  show "bytes_at buf (names_offset t + 0) (concat (map encode_name nss))" using assms(2) by simp
  show "\<forall>i \<in> set [0..<length nss]. sym_address buf pf oo rb i =
      Inr (if 0 \<le> sint (rd32_le buf (oo + i * 4)) then of_int (sint (rd32_le buf (oo + i * 4)))
        else if negative_uses_base pf then rb - 1 - of_int (sint (rd32_le buf (oo + i * 4))) else 0)"
    using assms(4) by (auto simp: sym_address_def krd32_def)
qed simp

definition sample_names :: "byte list" where
  "sample_names = [1, 0, 84, 97, 0] @ replicate 512 0 @ [16, 0, 0, 0]"

definition sample_tables :: tables where
  "sample_tables = \<lparr>names_offset = 0, token_table_offset = 2, token_index_offset = 5\<rparr>"

lemma sample_tables_hold: "tables_hold sample_names sample_tables (\<lambda>x. [84, 97])"
  unfolding tables_hold_def
proof
  fix x :: byte
  have u: "unat x < 256" using unsigned_less [of x] by simp
  have z: "sample_names ! (5 + unat x * 2) = 0" "sample_names ! (5 + unat x * 2 + 1) = 0"
    using u by (simp_all add: sample_names_def nth_append nth_Cons')
  show "token_index_offset sample_tables + unat x * 2 + 2 \<le> length sample_names \<and> 0 \<notin> set [84 :: byte, 97] \<and>
     (let i = token_index_offset sample_tables + unat x * 2;
          y = unat (u16_of_le (sample_names ! i) (sample_names ! (i + 1))) in
      \<exists>r. drop (token_table_offset sample_tables + y) sample_names = [84, 97] @ 0 # r)"
    using u z by (simp add: sample_tables_def Let_def u16_of_le_def) (simp add: sample_names_def)
qed

theorem decode_symbols_reads_names_witness:
  "decode_symbols sample_names (for_version (6, 1, 50)) 1 517 0 sample_tables = Inr [(''a'', 16)]"
proof -
  have r: "rd32_le sample_names 517 = 16"
    by (simp add: sample_names_def rd32_le_def u32_of_le_def nth_append)
  have n: "name_text (\<lambda>x. [84, 97]) [0] = ''a''"
    by (simp add: name_text_def push_latin1_def char_of_def bit_0)
  have b: "bytes_at sample_names (names_offset sample_tables) (concat (map encode_name [[0]]))"
    by (simp add: bytes_at_def encode_name_def sample_tables_def sample_names_def nth_Cons')
  show ?thesis
    using decode_symbols_reads_names [OF sample_tables_hold b, of 517 "for_version (6, 1, 50)" 0] r n
    by (simp add: sample_names_def)
qed

text \<open>
  The names section \<open>find_names\<close> accepts starts at a nonzero byte behind the given place, ends inside
  the buffer, and holds at least one and at most \<open>num\<close> names, of one and a half bytes or more and the profile's
  average or less.\<close>

theorem find_names_bounds:
  assumes "find_names buf pf num p = Inr (Some (s, e))"
  shows "p \<le> s \<and> s \<le> e \<and> e \<le> length buf \<and> buf ! s \<noteq> 0 \<and>
    (\<exists>parsed. 0 < parsed \<and> parsed \<le> num \<and> 3 * parsed \<le> 2 * (e - s) \<and> e - s \<le> parsed * entropy_max_avg pf)"
  using find_names_Some [OF assms] by blast

definition two_names :: "byte list" where
  "two_names = [0, 66] @ map of_nat [1..<67] @ [66] @ map of_nat [67..<133]"

lemma two_names_shape: "length two_names = 135" "two_names ! 1 = 66" "two_names ! 68 = 66" "two_names ! Suc 0 = 66"
  by (simp_all add: two_names_def nth_append)

lemma two_names_window: "window two_names 1 135 = 66 # map of_nat [1..<67] @ 66 # map of_nat [67..<133]"
  by (simp add: two_names_def window_def)

lemma unat_small_byte: "x < 133 \<Longrightarrow> unat (of_nat x :: byte) = x"
  unfolding unat_of_nat by (intro mod_less) simp

lemma two_names_unique: "\<not> length (remdups (window two_names 1 135)) < 128"
proof -
  let ?f = "of_nat :: nat \<Rightarrow> byte"
  have inj: "inj_on ?f {1..<133}"
  proof (rule inj_on_inverseI)
    fix x :: nat assume "x \<in> {1..<133}"
    then have "x < 133" unfolding atLeastLessThan_iff by (rule conjunct2)
    then show "unat (?f x) = x" by (rule unat_small_byte)
  qed
  have e: "{1 :: nat..<133} = {1..<67} \<union> {67..<133}"
    by (rule ivl_disj_un_two(3) [symmetric]) simp_all
  have "?f ` {1..<133} \<subseteq> set (window two_names 1 135)"
    unfolding two_names_window list.set set_append set_map set_upt e image_Un by blast
  then have "card (?f ` {1..<133}) \<le> card (set (window two_names 1 135))" by (intro card_mono) simp
  moreover have "card (?f ` {1..<133}) = 132" unfolding card_image [OF inj] by simp
  ultimately show ?thesis unfolding length_remdups_card_conv by linarith
qed

lemma two_names_zeros: "filter (\<lambda>b. b = 0) (window two_names 1 135) = []"
proof -
  have "(of_nat x :: byte) \<noteq> 0" if "1 \<le> x" "x < 133" for x
    using that unat_small_byte [of x] by fastforce
  then show ?thesis unfolding two_names_window by (auto simp: filter_empty_conv simp del: upt_rec_numeral)
qed

theorem find_names_bounds_witness:
  "find_names two_names (for_version (6, 1, 50)) 2 1 = Inr (Some (1, 135)) \<and> (135 :: nat) \<le> length two_names"
proof -
  let ?pf = "for_version (6, 1, 50)"
  have pf: "names_varint ?pf" "ksym_name_len ?pf = 512" "entropy_max_avg ?pf = 80"
    by (simp_all add: for_version_def)
  have "[1..<min (length two_names) (1 + MAX_FIND_RANGE) - 1] = 1 # [Suc 1..<134]"
    using upt_conv_Cons [of 1 134] by (simp add: two_names_shape MAX_FIND_RANGE_def del: upt_rec_numeral)
  then have s: "names_start two_names 1 = 1" by (simp add: names_start_def Let_def two_names_shape del: upt_rec_numeral)
  have w: "walk_names two_names ?pf 2 1 0 = Inr (135, 2)"
  proof -
    have l: "name_length two_names ?pf 1 = Inr (66, 2)" "name_length two_names ?pf 68 = Inr (66, 69)"
      by (simp_all add: name_length_def Let_def two_names_shape pf)
    have "walk_names two_names ?pf (Suc (Suc 0)) 1 0 = Inr (135, 2)"
      using l(2) by (simp add: l(1) pf del: One_nat_def)
    then show ?thesis by (simp only: numeral_2_eq_2)
  qed
  have g: "names_entropy_ok two_names ?pf 1 135 2 = Inr True"
    unfolding names_entropy_ok_def Let_def if_not_P [OF two_names_unique]
    unfolding two_names_zeros by (simp add: wrap_sub_def pf two_names_shape)
  have f: "find_names two_names ?pf 2 1 = Inr (Some (1, 135))"
    unfolding find_names_def Let_def s w by (simp add: g del: One_nat_def)
  show ?thesis using f find_names_bounds [OF f] by blast
qed

text \<open>
  (C37) On an image of five or more bytes (fewer than 240000) whose length is not a multiple of four the search for
  the offsets list reads past the end of the image, so the decoder panics where it could return
  \<open>NoOffsetsList\<close>.\<close>

theorem decoder_panics_unaligned:
  assumes "length buf mod 4 \<noteq> 0" and "4 < length buf" and "length buf < 240000"
  shows "decoder_run buf pf = Inl KPanic"
  unfolding decoder_run_def Let_def find_offsets_unaligned [OF assms] by simp

theorem decoder_panics_unaligned_witness:
  "decoder_run (replicate 5 0) (for_version (6, 1, 50)) = Inl KPanic"
  by (rule decoder_panics_unaligned) simp_all

end
