(* ===== verification/Symbol_Analyze.thy ===== *)
theory Symbol_Analyze
  imports Func_End Kallsyms_Props
begin

text \<open>
  The symbol resolution of \<open>skroot/symbol_analyze.rs\<close>: name candidates with a fuzzy fallback, the
  branch trampolines at symbol entries, and the region of a function, bounded by the boundary finder
  and by the next symbol. \<open>None\<close> is a panic: the sum \<open>idx + 4\<close> of a file offset wraps on \<open>usize\<close> for the
  last four addresses, and the word there is outside the image.
\<close>

section \<open>Regions\<close>

record symbol_region =
  sr_offset :: u64
  sr_size :: u64

definition no_region :: symbol_region where
  "no_region = \<lparr>sr_offset = 0, sr_size = 0\<rparr>"

definition region_valid :: "symbol_region \<Rightarrow> bool" where
  "region_valid r \<longleftrightarrow> sr_offset r \<noteq> 0"

definition region_consume :: "symbol_region \<Rightarrow> u64 \<Rightarrow> symbol_region" where
  "region_consume r n =
     \<lparr>sr_offset = sr_offset r + n, sr_size = (if n \<le> sr_size r then sr_size r - n else 0)\<rparr>"

record kernel_symbol_offset =
  k_text :: u64
  k_stext :: u64
  k_die :: symbol_region
  k_drm_puts_coredump :: symbol_region
  k_drm_printfn_coredump :: symbol_region
  k_do_execve_file :: symbol_region
  k_do_execveat_common :: symbol_region
  k_do_execve_common :: symbol_region
  k_do_execveat :: symbol_region
  k_do_execve :: symbol_region
  k_avc_denied :: symbol_region
  k_audit_log_start :: u64
  k_filldir64 :: u64
  k_sys_getuid :: symbol_region
  k_prctl_get_seccomp :: symbol_region
  k_cfi_check :: symbol_region
  k_cfi_check_fail :: u64
  k_cfi_slowpath_diag :: u64
  k_cfi_slowpath :: u64
  k_ubsan_handle_cfi_check_fail_abort :: u64
  k_ubsan_handle_cfi_check_fail :: u64
  k_report_cfi_failure :: u64
  k_hkip_check_uid_root :: u64
  k_hkip_check_gid_root :: u64
  k_hkip_check_xid_root :: u64
  k_kti_randomize_init :: symbol_region

definition is_complete :: "kernel_symbol_offset \<Rightarrow> bool" where
  "is_complete k \<longleftrightarrow>
     (region_valid (k_do_execve k) \<or> region_valid (k_do_execveat k) \<or> region_valid (k_do_execveat_common k)) \<and>
     region_valid (k_avc_denied k) \<and> k_audit_log_start k \<noteq> 0 \<and> k_filldir64 k \<noteq> 0 \<and>
     region_valid (k_sys_getuid k) \<and> region_valid (k_prctl_get_seccomp k)"

section \<open>Resolution\<close>

definition check_convert_b_insn :: "byte list \<Rightarrow> u64 \<Rightarrow> u64 option" where
  "check_convert_b_insn buf off =
     (let idx = unat off in
      if off = 0 \<or> usize_add idx 4 > length buf then Some off
      else
        map_option (\<lambda>w. if \<not> is_b w then off else off + word_of_int (branch_b_displacement w)) (rd32_at buf idx))"

definition lookup_single :: "byte list \<Rightarrow> symbols \<Rightarrow> string \<Rightarrow> bool \<Rightarrow> u64 option" where
  "lookup_single buf syms name fuzzy =
     (case (if fuzzy then (case names_like syms name of [] \<Rightarrow> None | (n, a) # rest \<Rightarrow> Some a)
            else lookup syms name) of
        Some off \<Rightarrow> check_convert_b_insn buf off
      | None \<Rightarrow> Some 0)"

definition parse_region :: "byte list \<Rightarrow> symbols \<Rightarrow> u64 \<Rightarrow> symbol_region" where
  "parse_region buf syms off =
     (if \<not> region_valid \<lparr>sr_offset = off, sr_size = 0\<rparr> then \<lparr>sr_offset = off, sr_size = 0\<rparr>
      else case find_end_func_offset buf (unat off) of
          None \<Rightarrow> \<lparr>sr_offset = off, sr_size = 0\<rparr>
        | Some candidate \<Rightarrow>
            let candidate_size = (of_nat candidate :: u64) + 4 in
            \<lparr>sr_offset = off,
              sr_size = (case size_at syms off of
                Some ks \<Rightarrow> if ks \<noteq> 0 then min candidate_size ks else candidate_size
              | None \<Rightarrow> candidate_size)\<rparr>)"

fun find_addr :: "byte list \<Rightarrow> symbols \<Rightarrow> (string \<times> bool) list \<Rightarrow> u64 option" where
  "find_addr buf syms [] = Some 0"
| "find_addr buf syms ((name, fuzzy) # names) =
     Option.bind (lookup_single buf syms name fuzzy) (\<lambda>addr.
       if addr \<noteq> 0 then Some addr else find_addr buf syms names)"

text \<open>The first word of the boundary scan is read under the same wrapping guard.\<close>

definition scan_panics :: "byte list \<Rightarrow> u64 \<Rightarrow> bool" where
  "scan_panics buf off \<longleftrightarrow> usize_add (unat off) 4 \<le> length buf \<and> rd32_at buf (unat off) = None"

fun find_region :: "byte list \<Rightarrow> symbols \<Rightarrow> (string \<times> bool) list \<Rightarrow> symbol_region option" where
  "find_region buf syms [] = Some no_region"
| "find_region buf syms ((name, fuzzy) # names) =
     Option.bind (lookup_single buf syms name fuzzy) (\<lambda>addr.
       if addr = 0 then find_region buf syms names
       else if scan_panics buf addr then None
       else
         let region = parse_region buf syms addr in
         if region_valid region then Some region else find_region buf syms names)"

definition symbol_analyze :: "byte list \<Rightarrow> symbols \<Rightarrow> kernel_symbol_offset option" where
  "symbol_analyze buf syms =
     (let addr = find_addr buf syms; region = find_region buf syms in
     Option.bind (addr [(''_text'', False)]) (\<lambda>text.
     Option.bind (addr [(''_stext'', False)]) (\<lambda>stext.
     Option.bind (region [(''die'', False)]) (\<lambda>die.
     Option.bind (region [(''__drm_puts_coredump'', False)]) (\<lambda>drm_puts_coredump.
     Option.bind (region [(''__drm_printfn_coredump'', False)]) (\<lambda>drm_printfn_coredump.
     Option.bind (region [(''__do_execve_file'', False)]) (\<lambda>do_execve_file.
     Option.bind (region [(''do_execveat_common'', False), (''do_execveat_common'', True)]) (\<lambda>do_execveat_common.
     Option.bind (region [(''do_execve_common'', False), (''do_execve_common'', True)]) (\<lambda>do_execve_common.
     Option.bind (region [(''do_execveat'', False)]) (\<lambda>do_execveat.
     Option.bind (region [(''do_execve'', False)]) (\<lambda>do_execve.
     Option.bind (region [(''avc_denied'', False), (''avc_denied'', True)]) (\<lambda>avc_denied.
     Option.bind (addr [(''audit_log_start'', False)]) (\<lambda>audit_log_start.
     Option.bind (addr [(''filldir64'', False), (''filldir64'', True)]) (\<lambda>filldir64.
     Option.bind (region [(''sys_getuid'', False), (''__arm64_sys_getuid'', False), (''sys_getuid'', True)]) (\<lambda>sys_getuid.
     Option.bind (region [(''prctl_get_seccomp'', False)]) (\<lambda>prctl_get_seccomp.
     Option.bind (region [(''__cfi_check'', False)]) (\<lambda>cfi_check.
     Option.bind (addr [(''__cfi_check_fail'', False)]) (\<lambda>cfi_check_fail.
     Option.bind (addr [(''__cfi_slowpath_diag'', False)]) (\<lambda>cfi_slowpath_diag.
     Option.bind (addr [(''__cfi_slowpath'', False)]) (\<lambda>cfi_slowpath.
     Option.bind (addr [(''__ubsan_handle_cfi_check_fail_abort'', False)]) (\<lambda>ubsan_handle_cfi_check_fail_abort.
     Option.bind (addr [(''__ubsan_handle_cfi_check_fail'', False)]) (\<lambda>ubsan_handle_cfi_check_fail.
     Option.bind (addr [(''report_cfi_failure'', False)]) (\<lambda>report_cfi_failure.
     Option.bind (addr [(''hkip_check_uid_root'', False)]) (\<lambda>hkip_check_uid_root.
     Option.bind (addr [(''hkip_check_gid_root'', False)]) (\<lambda>hkip_check_gid_root.
     Option.bind (addr [(''hkip_check_xid_root'', False)]) (\<lambda>hkip_check_xid_root.
     Option.bind (region [(''kti_randomize_init'', False)]) (\<lambda>kti_randomize_init.
     Some \<lparr>k_text = text, k_stext = stext, k_die = die, k_drm_puts_coredump = drm_puts_coredump,
       k_drm_printfn_coredump = drm_printfn_coredump, k_do_execve_file = do_execve_file, k_do_execveat_common =
       do_execveat_common, k_do_execve_common = do_execve_common, k_do_execveat = do_execveat, k_do_execve =
       do_execve, k_avc_denied = avc_denied, k_audit_log_start = audit_log_start, k_filldir64 = filldir64,
       k_sys_getuid = sys_getuid, k_prctl_get_seccomp = prctl_get_seccomp, k_cfi_check = cfi_check,
       k_cfi_check_fail = cfi_check_fail, k_cfi_slowpath_diag = cfi_slowpath_diag, k_cfi_slowpath =
       cfi_slowpath, k_ubsan_handle_cfi_check_fail_abort = ubsan_handle_cfi_check_fail_abort,
       k_ubsan_handle_cfi_check_fail = ubsan_handle_cfi_check_fail, k_report_cfi_failure = report_cfi_failure,
       k_hkip_check_uid_root = hkip_check_uid_root, k_hkip_check_gid_root = hkip_check_gid_root,
       k_hkip_check_xid_root = hkip_check_xid_root, k_kti_randomize_init = kti_randomize_init\<rparr>)))))))))))))))))))))))))))"

section \<open>The contract of the symbol sizes\<close>

text \<open>
  What the resolver needs of the symbol table: a size is the distance to the next symbol, and no symbol
  lies between an address and its next symbol. The decoded table of \<open>Kallsyms\<close> provides it.
\<close>

locale symbol_sizes =
  fixes table_ok :: "'t \<Rightarrow> bool" and distance :: "'t \<Rightarrow> u64 \<Rightarrow> u64 option" and addresses :: "'t \<Rightarrow> u64 set"
  assumes distance_law: "table_ok t \<Longrightarrow> distance t a = Some d \<Longrightarrow>
      \<exists>n. a < n \<and> d = n - a \<and> (\<forall>o' \<in> addresses t. o' \<le> a \<or> n \<le> o')"
    and no_distance: "table_ok t \<Longrightarrow> distance t a = None \<Longrightarrow> a \<noteq> 0 \<Longrightarrow> \<forall>o' \<in> addresses t. o' \<le> a"
begin

text \<open>A region that is no longer than the distance to the next symbol holds no other symbol.\<close>

lemma region_exclusive:
  assumes "table_ok t" and "a \<noteq> 0" and "\<forall>d. distance t a = Some d \<longrightarrow> s \<le> d" and "o' \<in> addresses t"
    and "a < o'"
  shows "unat a + unat s \<le> unat o'"
proof (cases "distance t a")
  case None
  then show ?thesis using no_distance [OF assms(1) None assms(2)] assms(4,5) by fastforce
next
  case (Some d)
  then obtain n where n: "a < n" "d = n - a" "\<forall>o' \<in> addresses t. o' \<le> a \<or> n \<le> o'"
    using distance_law [OF assms(1)] by blast
  then have "n \<le> o'" using assms(4,5) by (metis not_le)
  moreover have "unat d = unat n - unat a" using n by (simp add: unat_sub less_imp_le)
  moreover have "unat s \<le> unat d" using assms(3) Some by (simp add: word_le_nat_alt)
  ultimately show ?thesis using n(1) by (simp add: word_le_nat_alt word_less_nat_alt)
qed

end

interpretation ksyms: symbol_sizes symbols_ok size_at "\<lambda>syms. snd ` set (sym_order syms)"
proof
  fix t a d
  assume ok: "symbols_ok t"
  show "size_at t a = Some d \<Longrightarrow>
      \<exists>n. a < n \<and> d = n - a \<and> (\<forall>o' \<in> snd ` set (sym_order t). o' \<le> a \<or> n \<le> o')"
    unfolding size_at_iff [OF ok] next_symbol_def by blast
  assume none: "size_at t a = None" and nz: "a \<noteq> 0"
  show "\<forall>o' \<in> snd ` set (sym_order t). o' \<le> a"
  proof (rule ccontr)
    assume "\<not> ?thesis"
    then have ne: "{o' \<in> snd ` set (sym_order t). a < o'} \<noteq> {}" by (auto simp: not_le)
    define n where "n = Min {o' \<in> snd ` set (sym_order t). a < o'}"
    have "n \<in> {o' \<in> snd ` set (sym_order t). a < o'}" unfolding n_def by (rule Min_in) (use ne in auto)
    moreover have "\<forall>o' \<in> snd ` set (sym_order t). o' \<le> a \<or> n \<le> o'"
      unfolding n_def by (auto simp: not_le intro!: Min_le)
    ultimately have "next_symbol t a n" by (simp add: next_symbol_def)
    then have "size_at t a = Some (n - a)" using size_at_iff [OF ok] nz by blast
    then show False using none by simp
  qed
qed

lemma parse_region_size:
  assumes "sr_size (parse_region buf syms off) \<noteq> 0"
  obtains c where "off \<noteq> 0" "find_end_func_offset buf (unat off) = Some c"
    "sr_size (parse_region buf syms off) \<le> of_nat c + 4"
    "\<forall>d. size_at syms off = Some d \<and> d \<noteq> 0 \<longrightarrow> sr_size (parse_region buf syms off) \<le> d"
  using assms unfolding parse_region_def
  by (auto simp: region_valid_def Let_def split: if_splits option.splits)

section \<open>Properties\<close>

text \<open>
  (C38) The region of a function: its offset is the symbol's, and when a size is found the region lies
  inside the image and contains the address of no other symbol of a decoded table.\<close>

theorem parse_region_bounds:
  assumes "symbols_ok syms"
  shows "let r = parse_region buf syms off in
    sr_offset r = off \<and>
    (sr_size r \<noteq> 0 \<longrightarrow> unat off + unat (sr_size r) \<le> length buf \<and>
      (\<forall>o' \<in> snd ` set (sym_order syms). off < o' \<longrightarrow> unat off + unat (sr_size r) \<le> unat o'))"
proof -
  let ?r = "parse_region buf syms off"
  have o: "sr_offset ?r = off" by (auto simp: parse_region_def Let_def split: option.splits)
  moreover have "unat off + unat (sr_size ?r) \<le> length buf"
    and "\<forall>o' \<in> snd ` set (sym_order syms). off < o' \<longrightarrow> unat off + unat (sr_size ?r) \<le> unat o'"
    if nz: "sr_size ?r \<noteq> 0"
  proof -
    obtain c where c: "off \<noteq> 0" "find_end_func_offset buf (unat off) = Some c" "sr_size ?r \<le> of_nat c + 4"
      "\<forall>d. size_at syms off = Some d \<and> d \<noteq> 0 \<longrightarrow> sr_size ?r \<le> d"
      using parse_region_size [OF nz] by blast
    note e = find_end_func_ends [OF c(2)]
    have "unat (of_nat (c + 4) :: u64) = c + 4"
      unfolding unat_of_nat using e by (intro mod_less) (simp add: MAX_LINES_def)
    then have "unat (sr_size ?r) \<le> c + 4" using c(3) by (simp add: word_le_nat_alt)
    then show "unat off + unat (sr_size ?r) \<le> length buf" using e by linarith
    have d: "\<forall>d. size_at syms off = Some d \<longrightarrow> sr_size ?r \<le> d"
      using c(4) ksyms.distance_law [OF assms] by fastforce
    show "\<forall>o' \<in> snd ` set (sym_order syms). off < o' \<longrightarrow> unat off + unat (sr_size ?r) \<le> unat o'"
      using ksyms.region_exclusive [OF assms c(1) d] by blast
  qed
  ultimately show ?thesis by (simp add: Let_def)
qed

definition two_symbols :: symbols where
  "two_symbols = build_symbols 4 0xFF [(''_stext'', 0xFF), (''next'', 0x107)]"

lemma two_symbols_addresses: "snd ` set (sym_order two_symbols) = {4, 12}"
  by (auto simp: two_symbols_def build_symbols_def)

lemma two_symbols_size: "size_at two_symbols 4 = Some 8"
  by (simp add: two_symbols_def build_symbols_def size_at_def Let_def)

definition moved_returns :: "byte list" where
  "moved_returns = replicate 4 0 @ two_returns"

theorem parse_region_bounds_witness:
  "parse_region moved_returns two_symbols 4 = \<lparr>sr_offset = 4, sr_size = 8\<rparr> \<and>
    (12 :: u64) \<in> snd ` set (sym_order two_symbols)"
proof -
  have "rd32_le moved_returns (4 + k) = rd32_le two_returns k" for k
    by (simp add: moved_returns_def rd32_le_def nth_append add.commute)
  from this [of 0] this [of 4] this [of 8] have w: "rd32_le moved_returns 4 = 0x34000040" "rd32_le moved_returns 8 = 0xD65F03C0"
    "rd32_le moved_returns 12 = 0xD65F03C0" "length moved_returns = 16"
    by (simp_all add: two_returns_words) (simp add: moved_returns_def two_returns_words)
  have "find_end_func_offset moved_returns 4 = Some 8"
    unfolding find_end_func_offset_def by (simp add: find_end_eval w)
  then have "parse_region moved_returns two_symbols 4 = \<lparr>sr_offset = 4, sr_size = 8\<rparr>"
    by (simp add: parse_region_def region_valid_def two_symbols_size)
  moreover have "symbols_ok two_symbols" unfolding two_symbols_def by (rule build_symbols_ok)
  ultimately show ?thesis
    using parse_region_bounds [of two_symbols moved_returns 4] by (simp add: two_symbols_addresses Let_def)
qed

end
