(* ===== verification/Selinux_Hooks.thy ===== *)
theory Selinux_Hooks
  imports Patch_Base Symbol_Analyze
begin

text \<open>
  The SELinux hooks: the credential check of \<open>skroot/patch_current_avc_check.rs\<close>, the return hook of
  \<open>skroot/patch_avc_denied.rs\<close> and the entry hook of \<open>skroot/patch_audit_log_start.rs\<close>. A patch takes the
  writes so far and returns the size of its code (zero when it gives up) with the new writes;
  \<open>None\<close> is a panic.
\<close>

definition CANARY_BYPASS_SIZE :: u32 where "CANARY_BYPASS_SIZE = 0x50"
definition CRED_UID_INFO_SIZE :: u32 where "CRED_UID_INFO_SIZE = 32"
definition CRED_EUID_OFFSET :: u32 where "CRED_EUID_OFFSET = 16"

section \<open>The credential check\<close>

definition current_avc_check_code :: "patch_base \<Rightarrow> u64 \<Rightarrow> asm option" where
  "current_avc_check_code base task_struct_cred_offset =
     (let ic = pbase_init_cred base;
          usage = of_nat (atomic_usage_size ic);
          cred_euid_start = usage + CRED_EUID_OFFSET;
          (end_l, a) = new_label asm_new;
          (cycle_cap, a) = new_label a;
          a = mov_reg_x a 10 ZR;
          a = emit_get_current base a 11;
          a = ldr_x_uoff a 11 11 (ucast task_struct_cred_offset);
          a = ldr_w_uoff a 12 11 cred_euid_start;
          a = cbnz_w a 12 end_l;
          a = add_imm_x a 11 11 (usage + CRED_UID_INFO_SIZE);
          a = ldr_w_post a 13 11 (int (securebits_size ic));
          a = cbnz_w a 13 end_l;
          a = mov_imm_x_asmjit a 12 (cap_ability_max ic);
          a = mov_imm_x_asmjit a 13 (word_of_int (cap_cnt ic)) in
      Option.bind (asm_bind a cycle_cap) (\<lambda>a.
        let a = ldr_x_post a 14 11 8;
            a = cmp_reg_x a 14 12;
            a = b_cond a CCc end_l;
            a = subs_imm_x a 13 13 1;
            a = b_cond a CNe cycle_cap;
            a = mov_imm_x_asmjit a 10 1 in
        map_option ret_x30 (asm_bind a end_l)))"

definition patch_current_avc_check_bl_func ::
    "patch_base \<Rightarrow> symbol_region \<Rightarrow> u64 \<Rightarrow> patch_bytes list \<Rightarrow> (nat \<times> patch_base \<times> patch_bytes list) option" where
  "patch_current_avc_check_bl_func base region task_struct_cred_offset out =
     (let hook_addr = sr_offset region in
      if hook_addr = 0 then Some (0, base, out)
      else
        let base = (if is_huawei base then set_kti_calc_base base hook_addr else base) in
        Option.bind (Option.bind (current_avc_check_code base task_struct_cred_offset) assembled) (\<lambda>bytes.
          if bytes = [] then Some (0, base, out)
          else if length bytes > unat (sr_size region) then Some (0, base, out)
          else Some (length bytes, base, out @ [\<lparr>pb_addr = hook_addr, pb_bytes = bytes\<rparr>])))"

section \<open>The returns of \<open>avc_denied\<close>\<close>

text \<open>
  The words of the region are \<open>off, off + 4, ...\<close> below its end, which lies inside the image. The loop
  test \<open>off + 4 <= end\<close> can only wrap in its first round, and then the word read is outside: a panic.
\<close>

definition ret_offsets :: "byte list \<Rightarrow> symbol_region \<Rightarrow> u64 list option" where
  "ret_offsets buf region =
     (if \<not> region_valid region then Some []
      else
        let off = unat (sr_offset region);
            e = min (unat (sr_offset region + sr_size region)) (length buf) in
        if usize_add off 4 \<le> e \<and> length buf < off + 4 then None
        else Some (map of_nat (filter (\<lambda>off. closes_function (rd32_le buf off))
          (map (\<lambda>k. off + 4 * k) [0..<(e - off) div 4]))))"

definition avc_denied_code :: "u64 \<Rightarrow> u64 \<Rightarrow> u32 \<Rightarrow> asm option" where
  "avc_denied_code hook_addr current_avc_check_bl_func ret_insn =
     (let (end_l, a) = new_label asm_new;
          a = sub_imm_x a SP SP CANARY_BYPASS_SIZE;
          a = emit_safe_bl a hook_addr current_avc_check_bl_func;
          a = add_imm_x a SP SP CANARY_BYPASS_SIZE;
          a = cbz_x a 10 end_l;
          a = mov_reg_w a 0 ZR in
      map_option (\<lambda>a. emit_ret_by_entry_insn a ret_insn) (asm_bind a end_l))"

text \<open>The branches of the return sites; their sizes are not looked at.\<close>

definition patch_jumps :: "u64 list \<Rightarrow> u64 \<Rightarrow> patch_bytes list \<Rightarrow> patch_bytes list" where
  "patch_jumps addrs target out = foldl (\<lambda>out addr. snd (patch_jump addr target out)) out addrs"

definition patch_avc_denied ::
    "symbol_region \<Rightarrow> patch_base \<Rightarrow> symbol_region \<Rightarrow> u64 \<Rightarrow> patch_bytes list \<Rightarrow> (nat \<times> patch_bytes list) option" where
  "patch_avc_denied avc_denied base hook_region current_avc_check_bl_func out =
     (let hook_addr = sr_offset hook_region in
      if hook_addr = 0 then Some (0, out)
      else
        Option.bind (ret_offsets (pbase_buf base) avc_denied) (\<lambda>ret_addrs.
        case ret_addrs of
          [] \<Rightarrow> Some (0, out)
        | first_ret # rest \<Rightarrow>
            let ret_insn = rd32_le (pbase_buf base) (unat first_ret) in
            Option.bind (Option.bind (avc_denied_code hook_addr current_avc_check_bl_func ret_insn) assembled)
              (\<lambda>bytes.
                if bytes = [] then Some (0, out)
                else if length bytes > unat (sr_size hook_region) then Some (0, out)
                else Some (length bytes,
                  patch_jumps ret_addrs hook_addr (out @ [\<lparr>pb_addr = hook_addr, pb_bytes = bytes\<rparr>])))))"

section \<open>The entry of \<open>audit_log_start\<close>\<close>

record audit_hook =
  audit_log_start :: u64
  audit_log_start_orig_entry_insn :: u32

text \<open>The outer \<open>None\<close> is a panic, the inner one the \<open>None\<close> of the source.\<close>

definition audit_hook_new :: "patch_base \<Rightarrow> u64 \<Rightarrow> audit_hook option option" where
  "audit_hook_new base addr =
     (let i = unat addr in
      if addr = 0 \<or> usize_add i 4 > length (pbase_buf base) then Some None
      else
        Option.bind (rd32_at (pbase_buf base) i) (\<lambda>insn.
        map_option (\<lambda>start. Some \<lparr>audit_log_start = start, audit_log_start_orig_entry_insn = insn\<rparr>)
          (skip_pac_bti_at_func_start base addr)))"

text \<open>
  The end of an entry hook: a slot for the displaced instruction and the branch back behind it. The
  code is the builder and the place of the slot.
\<close>

definition entry_hook_tail :: "asm \<Rightarrow> u64 \<Rightarrow> u64 \<Rightarrow> asm \<times> nat" where
  "entry_hook_tail a hook_addr jump_back =
     (let orig_slot = asm_offset a;
          a = mov_reg_x a 0 0;
          branch_pos = of_nat (asm_offset a) in
      (b_off a (as_i32 (jump_back - (hook_addr + branch_pos))), orig_slot))"

text \<open>
  The displaced instruction is copied into its slot; \<open>Some []\<close> when the code was not assembled, the
  hooked instruction is outside the image, or the code has no room for the slot; \<open>None\<close> is a panic.
\<close>

definition splice_entry :: "patch_base \<Rightarrow> u64 \<Rightarrow> asm \<times> nat \<Rightarrow> byte list option" where
  "splice_entry base addr code =
     Option.bind (assembled (fst code)) (\<lambda>bytes.
       let i = unat addr in
       if bytes = [] then Some []
       else if usize_add i 4 > length (pbase_buf base) \<or> snd code + 4 > length bytes then Some []
       else map_option (write_at bytes (snd code)) (slice (pbase_buf base) i (usize_add i 4)))"

definition audit_log_start_code :: "u64 \<Rightarrow> u64 \<Rightarrow> u64 \<Rightarrow> u32 \<Rightarrow> (asm \<times> nat) option" where
  "audit_log_start_code hook_addr current_avc_check_bl_func jump_back entry_insn =
     (let (end_l, a) = new_label asm_new;
          a = sub_imm_x a SP SP CANARY_BYPASS_SIZE;
          a = emit_safe_bl a hook_addr current_avc_check_bl_func;
          a = add_imm_x a SP SP CANARY_BYPASS_SIZE;
          a = cbz_x a 10 end_l;
          a = mov_reg_w a 0 ZR;
          a = emit_ret_by_entry_insn a entry_insn in
      map_option (\<lambda>a. entry_hook_tail a hook_addr jump_back) (asm_bind a end_l))"

definition patch_audit_log_start ::
    "audit_hook \<Rightarrow> patch_base \<Rightarrow> symbol_region \<Rightarrow> u64 \<Rightarrow> patch_bytes list \<Rightarrow> (nat \<times> patch_bytes list) option" where
  "patch_audit_log_start h base hook_region current_avc_check_bl_func out =
     (let hook_addr = sr_offset hook_region in
      if hook_addr = 0 then Some (0, out)
      else
        let jump_back = audit_log_start h + 4 in
        Option.bind (Option.bind
            (audit_log_start_code hook_addr current_avc_check_bl_func jump_back (audit_log_start_orig_entry_insn h))
            (splice_entry base (audit_log_start h))) (\<lambda>bytes.
          if bytes = [] then Some (0, out)
          else if length bytes > unat (sr_size hook_region) then Some (0, out)
          else Some (length bytes,
            snd (patch_jump (audit_log_start h) hook_addr (out @ [\<lparr>pb_addr = hook_addr, pb_bytes = bytes\<rparr>])))))"

end
