(* ===== verification/Execve_Hook.thy ===== *)
theory Execve_Hook
  imports Selinux_Hooks
begin

text \<open>
  The root hook of \<open>skroot/patch_do_execve.rs\<close>: the choice of the hooked function, the test that an
  image is already patched, and the code that compares the path with the root key and grants root.
\<close>

definition ROOT_KEY_LEN :: nat where "ROOT_KEY_LEN = 48"
definition MAX_ERRNO :: u64 where "MAX_ERRNO = 4095"
definition TIF_SECCOMP :: nat where "TIF_SECCOMP = 11"

record execve_param =
  do_execve_addr :: u64
  filename_reg :: u32
  is_single_char_ptr :: bool

section \<open>The hooked function\<close>

definition execve_candidates :: "kernel_symbol_offset \<Rightarrow> u32 \<times> u32 \<times> u32 \<Rightarrow> (symbol_region \<times> u32 \<times> bool) list" where
  "execve_candidates ksym version =
     (if triple_less version (3, 14, 0) then [(k_do_execve_common ksym, 0, True), (k_do_execve ksym, 0, True)]
      else [(k_do_execve_file ksym, 1, False), (k_do_execveat_common ksym, 1, False),
        (k_do_execve ksym, 0, False), (k_do_execveat ksym, 1, False), (k_do_execve_common ksym, 0, False)])"

text \<open>The largest candidate, the first of those of equal size.\<close>

fun best_candidate ::
    "(symbol_region \<times> u32 \<times> bool) option \<Rightarrow> (symbol_region \<times> u32 \<times> bool) list \<Rightarrow>
      (symbol_region \<times> u32 \<times> bool) option" where
  "best_candidate best [] = best"
| "best_candidate best ((region, reg, single) # cands) =
     (if \<not> region_valid region \<or> sr_size region = 0 then best_candidate best cands
      else if (case best of None \<Rightarrow> True | Some (b, _, _) \<Rightarrow> sr_size region > sr_size b)
        then best_candidate (Some (region, reg, single)) cands
      else best_candidate best cands)"

text \<open>The outer \<open>None\<close> is a panic, the inner one the \<open>None\<close> of the source.\<close>

definition do_execve_new ::
    "patch_base \<Rightarrow> kernel_symbol_offset \<Rightarrow> u32 \<times> u32 \<times> u32 \<Rightarrow> execve_param option option" where
  "do_execve_new base ksym version =
     (case best_candidate None (execve_candidates ksym version) of
        None \<Rightarrow> Some None
      | Some (region, reg, single) \<Rightarrow>
          map_option (\<lambda>start. Some \<lparr>do_execve_addr = start, filename_reg = reg, is_single_char_ptr = single\<rparr>)
            (skip_pac_bti_at_func_start base (sr_offset region)))"

section \<open>Images that are patched already\<close>

definition ascii_alphanumeric :: "byte \<Rightarrow> bool" where
  "ascii_alphanumeric b \<longleftrightarrow> 48 \<le> b \<and> b \<le> 57 \<or> 65 \<le> b \<and> b \<le> 90 \<or> 97 \<le> b \<and> b \<le> 122"

text \<open>An empty key slot, or a key and its terminator.\<close>

definition is_root_key_slot :: "byte list \<Rightarrow> bool" where
  "is_root_key_slot key \<longleftrightarrow>
     (\<forall>b \<in> set key. b = 0) \<or>
     key ! (ROOT_KEY_LEN - 1) = 0 \<and> (\<forall>b \<in> set (take (ROOT_KEY_LEN - 1) key). ascii_alphanumeric b)"

definition is_already_patched :: "execve_param \<Rightarrow> patch_base \<Rightarrow> bool" where
  "is_already_patched p base =
     (let buf = pbase_buf base; i = unat (do_execve_addr p) in
      if i + 4 > length buf then False
      else
        let w = rd32_le buf i in
        if \<not> is_b w then False
        else
          let target = int i + branch_b_displacement w in
          if target < 0 \<or> 2 ^ 64 \<le> target then False
          else if nat target < ROOT_KEY_LEN then False
          else if nat target + 4 > length buf then False
          else is_root_key_slot (window buf (nat target - ROOT_KEY_LEN) (nat target)))"

section \<open>The code\<close>

text \<open>From the \<open>IS_ERR\<close> test to the comparison of the two strings.\<close>

definition execve_compare :: "execve_param \<Rightarrow> asm \<Rightarrow> nat \<Rightarrow> nat \<Rightarrow> asm option" where
  "execve_compare p a end_l cycle =
     (let a = mov_imm_x_asmjit a 11 (- MAX_ERRNO);
          a = cmp_reg_x a (filename_reg p) 11;
          a = b_cond a CCs end_l;
          a = (if is_single_char_ptr p then mov_reg_x a 11 (filename_reg p)
               else ldr_x_uoff a 11 (filename_reg p) 0);
          key_off = int (asm_offset a);
          a = adr a 12 (- key_off) in
      map_option (\<lambda>a.
        let a = ldrb_w_post a 14 11 1;
            a = ldrb_w_post a 15 12 1;
            a = cmp_reg_w a 14 15;
            a = b_cond a CNe end_l in
        cbnz_w a 15 cycle) (asm_bind a cycle))"

text \<open>The credentials are overwritten.\<close>

definition execve_grant :: "patch_base \<Rightarrow> u64 \<Rightarrow> asm \<Rightarrow> asm" where
  "execve_grant base cred_offset a =
     (let ic = pbase_init_cred base;
          a = emit_get_current base a 12;
          a = ldr_x_uoff a 14 12 (ucast cred_offset);
          a = add_imm_x a 14 14 (of_nat (atomic_usage_size ic));
          a = ((\<lambda>a. str_x_post a ZR 14 8) ^^ 4) a;
          a = str_w_post a ZR 14 (int (securebits_size ic));
          a = mov_imm_x_asmjit a 13 (cap_ability_max ic);
          a = stp_x_post a 13 13 14 16;
          a = stp_x_post a 13 13 14 16 in
      if cap_cnt ic \<ge> 5 then str_x_post a 13 14 8 else a)"

text \<open>The seccomp flag and mode are cleared.\<close>

definition execve_seccomp :: "patch_base \<Rightarrow> u64 \<Rightarrow> asm \<Rightarrow> asm" where
  "execve_seccomp base seccomp_offset a =
     (let a = mov_imm_x_asmjit a 15 (2 ^ TIF_SECCOMP);
          (flags_reg, a) =
            (case pbase_current_mode base of
               SpEl0IsTask \<Rightarrow> (12, a)
             | SpEl0IsThreadInfo \<Rightarrow> (13, emit_huawei_kti_add base (mrs_sp_el0 a 13) 13)
             | SpMask \<Rightarrow> (13, snd (and_imm_x (mov_x_sp a 13) 13 13 (NOT (THREAD_SIZE - 1)))));
          a = ldaxr_x a 14 flags_reg;
          a = bic_reg_x a 14 14 15;
          a = stlxr_w_x a 15 14 flags_reg in
      str_w_uoff a ZR 12 (ucast seccomp_offset))"

definition do_execve_code :: "execve_param \<Rightarrow> patch_base \<Rightarrow> u64 \<Rightarrow> u64 \<Rightarrow> u64 \<Rightarrow> u64 \<Rightarrow> asm option" where
  "do_execve_code p base hook_addr jump_back cred_offset seccomp_offset =
     (let (end_l, a) = new_label asm_new;
          (cycle, a) = new_label a;
          a = asm_embed a (replicate ROOT_KEY_LEN 0);
          a = mov_reg_x a 0 0 in
      Option.bind (execve_compare p a end_l cycle) (\<lambda>a.
        map_option (\<lambda>a. b_off a (as_i32 (jump_back - (hook_addr + of_nat (asm_offset a)))))
          (asm_bind (execve_seccomp base seccomp_offset (execve_grant base cred_offset a)) end_l)))"

definition patch_do_execve ::
    "execve_param \<Rightarrow> patch_base \<Rightarrow> symbol_region \<Rightarrow> u64 \<Rightarrow> u64 \<Rightarrow> patch_bytes list \<Rightarrow>
      (nat \<times> patch_base \<times> patch_bytes list) option" where
  "patch_do_execve p base region cred_offset seccomp_offset out =
     (let hook_addr = sr_offset region in
      if is_already_patched p base then Some (0, base, out)
      else if hook_addr = 0 then Some (0, base, out)
      else
        let base = (if is_huawei base then set_kti_calc_base base hook_addr else base);
            jump_back = do_execve_addr p + 4 in
        Option.bind (Option.bind (do_execve_code p base hook_addr jump_back cred_offset seccomp_offset) assembled)
          (\<lambda>bytes.
            if bytes = [] then Some (0, base, out)
            else
              let i = unat (do_execve_addr p) in
              if usize_add i 4 > length (pbase_buf base) then Some (0, base, out)
              else if ROOT_KEY_LEN + 4 > length bytes then None
              else
                Option.bind (slice (pbase_buf base) i (usize_add i 4)) (\<lambda>insn.
                let bytes = write_at bytes ROOT_KEY_LEN insn in
                if length bytes > unat (sr_size region) then Some (0, base, out)
                else Some (length bytes, base,
                  snd (patch_jump (do_execve_addr p) (hook_addr + of_nat ROOT_KEY_LEN)
                    (out @ [\<lparr>pb_addr = hook_addr, pb_bytes = bytes\<rparr>]))))))"

end
