(* ===== verification/Filldir_Hook.thy ===== *)
theory Filldir_Hook
  imports Selinux_Hooks
begin

text \<open>
  The directory hiding hook of \<open>skroot/patch_filldir64.rs\<close>: a guide that loads the address of the root
  key, and the code that hides the entries with its name.
\<close>

definition FOLDER_HEAD_ROOT_KEY_LEN :: u32 where "FOLDER_HEAD_ROOT_KEY_LEN = 16"

record filldir_hook =
  filldir64 :: u64
  filldir64_orig_entry_insn :: u32
  pre_6_1 :: bool

text \<open>The outer \<open>None\<close> is a panic, the inner one the \<open>None\<close> of the source.\<close>

definition filldir_hook_new :: "patch_base \<Rightarrow> u64 \<Rightarrow> bool \<Rightarrow> filldir_hook option option" where
  "filldir_hook_new base addr pre =
     (let i = unat addr in
      if addr = 0 \<or> usize_add i 4 > length (pbase_buf base) then Some None
      else
        Option.bind (rd32_at (pbase_buf base) i) (\<lambda>insn.
        map_option (\<lambda>start. Some \<lparr>filldir64 = start, filldir64_orig_entry_insn = insn, pre_6_1 = pre\<rparr>)
          (skip_pac_bti_at_func_start base addr)))"

text \<open>The distance is taken without overflow and must fit an \<open>i32\<close>.\<close>

definition root_key_distance :: "u64 \<Rightarrow> u64 \<Rightarrow> int option" where
  "root_key_distance root_key_mem_addr hook_addr =
     (let d = (if hook_addr \<le> root_key_mem_addr then sint (root_key_mem_addr - hook_addr)
               else - sint (hook_addr - root_key_mem_addr)) in
      if - (2 ^ 31) \<le> d \<and> d < 2 ^ 31 then Some d else None)"

definition patch_filldir64_root_key_guide ::
    "filldir_hook \<Rightarrow> u64 \<Rightarrow> symbol_region \<Rightarrow> patch_bytes list \<Rightarrow> (nat \<times> patch_bytes list) option" where
  "patch_filldir64_root_key_guide h root_key_mem_addr hook_region out =
     (let hook_addr = sr_offset hook_region in
      if hook_addr = 0 then Some (0, out)
      else case root_key_distance root_key_mem_addr hook_addr of
          None \<Rightarrow> Some (0, out)
        | Some d \<Rightarrow>
            Option.bind (assembled (adr asm_new 11 d)) (\<lambda>bytes.
              if bytes = [] then Some (0, out)
              else if length bytes > unat (sr_size hook_region) then Some (0, out)
              else Some (length bytes,
                snd (patch_jump (filldir64 h) hook_addr (out @ [\<lparr>pb_addr = hook_addr, pb_bytes = bytes\<rparr>])))))"

definition filldir64_core_code :: "u64 \<Rightarrow> u64 \<Rightarrow> bool \<Rightarrow> u32 \<Rightarrow> (asm \<times> nat) option" where
  "filldir64_core_code hook_addr jump_back pre entry_insn =
     (let (end_l, a) = new_label asm_new;
          (cycle_name, a) = new_label a;
          a = cmp_imm_w a 2 FOLDER_HEAD_ROOT_KEY_LEN;
          a = b_cond a CNe end_l;
          a = mov_imm_x_asmjit a 12 0 in
      Option.bind (asm_bind a cycle_name) (\<lambda>a.
        let a = ldrb_w_reg a 13 1 12;
            a = ldrb_w_reg a 14 11 12;
            a = cmp_reg_w a 13 14;
            a = b_cond a CNe end_l;
            a = add_imm_x a 12 12 1;
            a = cmp_imm_x a 12 FOLDER_HEAD_ROOT_KEY_LEN;
            a = b_cond a CLt cycle_name;
            a = (if pre then mov_reg_x a 0 ZR else mov_imm_x_asmjit a 0 1);
            a = emit_ret_by_entry_insn a entry_insn in
        map_option (\<lambda>a. entry_hook_tail a hook_addr jump_back) (asm_bind a end_l)))"

definition patch_filldir64_core ::
    "filldir_hook \<Rightarrow> patch_base \<Rightarrow> symbol_region \<Rightarrow> patch_bytes list \<Rightarrow> (nat \<times> patch_bytes list) option" where
  "patch_filldir64_core h base hook_region out =
     (let hook_addr = sr_offset hook_region in
      if hook_addr = 0 then Some (0, out)
      else
        let jump_back = filldir64 h + 4 in
        Option.bind (Option.bind
            (filldir64_core_code hook_addr jump_back (pre_6_1 h) (filldir64_orig_entry_insn h))
            (splice_entry base (filldir64 h))) (\<lambda>bytes.
          if bytes = [] then Some (0, out)
          else if length bytes > unat (sr_size hook_region) then Some (0, out)
          else Some (length bytes, out @ [\<lparr>pb_addr = hook_addr, pb_bytes = bytes\<rparr>])))"

end
