(* ===== verification/Patch_Plan.thy ===== *)
theory Patch_Plan
  imports Execve_Hook Filldir_Hook
begin

text \<open>
  The patch plan of \<open>skroot/patch_plan.rs\<close>: the facts of the kernel, the neutralised checks and the core
  hooks in their code caves, collected as one list of writes.
\<close>

section \<open>Plans and errors\<close>

record skroot_kernel_offsets =
  cred_offset :: u64
  cred_uid_offset :: u64
  seccomp_offset :: u64
  huawei_kti_addr :: "u64 option"
  init_cred_offset :: u64
  plan_cap_ability_max :: u64

datatype spare_region_strategy = EarlyImageSlot | CfiCheck | DieAndDrmPrintfCoredump

record skroot_core_patch_plan =
  plan_version :: string
  plan_version_triple :: "u32 \<times> u32 \<times> u32"
  plan_offsets :: skroot_kernel_offsets
  plan_strategy :: spare_region_strategy
  root_key_addr :: u64
  plan_writes :: "patch_bytes list"

datatype plan_error =
    PlanNoKernelVersion
  | PlanKallsyms kallsyms_error
  | MissingSymbol string
  | Resolve string
  | PlanInitCred
  | NoSpareRegion string
  | PatchFailed string
  | PlanPanic

section \<open>Facts of the kernel\<close>

definition resolve_offsets ::
    "byte list \<Rightarrow> kernel_version \<Rightarrow> kernel_symbol_offset \<Rightarrow> plan_error + skroot_kernel_offsets" where
  "resolve_offsets kimg version symbols =
     bind_r (ensure (region_valid (k_do_execve symbols) \<or> region_valid (k_do_execveat symbols) \<or>
         region_valid (k_do_execveat_common symbols)) (MissingSymbol ''do_execve*'')) (\<lambda>_.
     bind_r (ensure (region_valid (k_avc_denied symbols)) (MissingSymbol ''avc_denied'')) (\<lambda>_.
     bind_r (ensure (k_audit_log_start symbols \<noteq> 0) (MissingSymbol ''audit_log_start'')) (\<lambda>_.
     bind_r (ensure (k_filldir64 symbols \<noteq> 0) (MissingSymbol ''filldir64'')) (\<lambda>_.
     bind_r (ensure (region_valid (k_sys_getuid symbols)) (MissingSymbol ''sys_getuid'')) (\<lambda>_.
     bind_r (ensure (region_valid (k_prctl_get_seccomp symbols)) (MissingSymbol ''prctl_get_seccomp'')) (\<lambda>_.
     let getuid = k_sys_getuid symbols; seccomp = k_prctl_get_seccomp symbols; kti = k_kti_randomize_init symbols in
     bind_r (ok_or (find_cred_offset kimg (sr_offset getuid) (sr_size getuid)) (Resolve ''cred offset'')) (\<lambda>cred.
     bind_r (ok_or (find_seccomp_offset kimg (sr_offset seccomp) (sr_size seccomp))
       (Resolve ''seccomp offset'')) (\<lambda>sec.
     bind_r (ok_or (find_cred_uid_offset kimg (sr_offset getuid) (sr_size getuid) cred
         (cred_uid_min_off (triple version))) (Resolve ''cred uid offset'')) (\<lambda>uid.
     Inr \<lparr>cred_offset = cred, cred_uid_offset = uid, seccomp_offset = sec,
       huawei_kti_addr = (if region_valid kti then find_huawei_kti_addr kimg (sr_offset kti) (sr_size kti) else None),
       init_cred_offset = 0, plan_cap_ability_max = 0\<rparr>)))))))))"

section \<open>Neutralised checks\<close>

definition patch_existing_bypasses ::
    "byte list \<Rightarrow> kernel_symbol_offset \<Rightarrow> patch_bytes list \<Rightarrow> (kernel_symbol_offset \<times> patch_bytes list) option" where
  "patch_existing_bypasses kimg symbols writes =
     Option.bind
       (if region_valid (k_cfi_check symbols) then
          map_option (\<lambda>(n, writes).
              (if n \<noteq> 0 then symbols\<lparr>k_cfi_check := region_consume (k_cfi_check symbols) (of_nat n)\<rparr> else symbols, writes))
            (patch_ret kimg (sr_offset (k_cfi_check symbols)) writes)
        else Some (symbols, writes)) (\<lambda>(symbols, writes).
     Option.bind (patch_ret kimg (k_cfi_check_fail symbols) writes) (\<lambda>(_, writes).
     Option.bind (patch_ret kimg (k_cfi_slowpath_diag symbols) writes) (\<lambda>(_, writes).
     Option.bind (patch_ret kimg (k_cfi_slowpath symbols) writes) (\<lambda>(_, writes).
     Option.bind (patch_ret kimg (k_ubsan_handle_cfi_check_fail_abort symbols) writes) (\<lambda>(_, writes).
     Option.bind (patch_ret kimg (k_ubsan_handle_cfi_check_fail symbols) writes) (\<lambda>(_, writes).
     Option.bind (patch_ret_1 kimg (k_report_cfi_failure symbols) writes) (\<lambda>(_, writes).
     Option.bind (patch_ret_0 kimg (k_hkip_check_uid_root symbols) writes) (\<lambda>(_, writes).
     Option.bind (patch_ret_0 kimg (k_hkip_check_gid_root symbols) writes) (\<lambda>(_, writes).
     map_option (\<lambda>(_, writes). (symbols, writes))
       (patch_ret_0 kimg (k_hkip_check_xid_root symbols) writes))))))))))"

section \<open>Core hooks\<close>

definition consume_region :: "symbol_region \<Rightarrow> nat \<Rightarrow> string \<Rightarrow> plan_error + symbol_region" where
  "consume_region region n step =
     (if n = 0 \<or> \<not> region_valid region then Inl (PatchFailed step)
      else Inr (region_consume region (of_nat n)))"

text \<open>A patch step: a panic of the step is one of the plan.\<close>

definition run_step :: "'a option \<Rightarrow> plan_error + 'a" where
  "run_step r = ok_or r PlanPanic"

text \<open>A constructor: it panics, finds nothing to hook (an error of the plan) or gives the hook.\<close>

definition new_step :: "'a option option \<Rightarrow> plan_error \<Rightarrow> plan_error + 'a" where
  "new_step r e = bind_r (run_step r) (\<lambda>found. ok_or found e)"

definition patch_pre_6_1 ::
    "patch_base \<Rightarrow> kernel_symbol_offset \<Rightarrow> skroot_kernel_offsets \<Rightarrow> patch_bytes list \<Rightarrow> execve_param \<Rightarrow>
      filldir_hook \<Rightarrow> audit_hook \<Rightarrow> plan_error + (u64 \<times> spare_region_strategy) \<times> patch_bytes list" where
  "patch_pre_6_1 base symbols offsets writes execve filldir audit =
     (let early = \<lparr>sr_offset = 0x200, sr_size = 0x300\<rparr>; cfi = k_cfi_check symbols;
          (region, strategy) = (if region_valid cfi \<and> sr_size cfi > sr_size early then (cfi, CfiCheck)
            else (early, EarlyImageSlot));
          start_branch_addr = sr_offset region in
     bind_r (consume_region region 4 ''reserve pre-6.1 branch slot'') (\<lambda>region.
     let root_key_addr = sr_offset region in
     bind_r (run_step (patch_do_execve execve base region (cred_offset offsets) (seccomp_offset offsets) writes))
       (\<lambda>(n, base, writes).
     bind_r (consume_region region n ''do_execve hook'') (\<lambda>region.
     bind_r (run_step (patch_filldir64_root_key_guide filldir root_key_addr region writes)) (\<lambda>(n, writes).
     bind_r (consume_region region n ''filldir64 root-key guide'') (\<lambda>region.
     bind_r (run_step (patch_filldir64_core filldir base region writes)) (\<lambda>(n, writes).
     bind_r (consume_region region n ''filldir64 core hook'') (\<lambda>region.
     let current_avc_check_addr = sr_offset region in
     bind_r (run_step (patch_current_avc_check_bl_func base region (cred_offset offsets) writes))
       (\<lambda>(n, base, writes).
     bind_r (consume_region region n ''current avc check helper'') (\<lambda>region.
     bind_r (run_step (patch_avc_denied (k_avc_denied symbols) base region current_avc_check_addr writes))
       (\<lambda>(n, writes).
     bind_r (consume_region region n ''avc_denied hook'') (\<lambda>region.
     bind_r (run_step (patch_audit_log_start audit base region current_avc_check_addr writes)) (\<lambda>(n, writes).
     bind_r (consume_region region n ''audit_log_start hook'') (\<lambda>region.
     let (n, writes) = patch_jump start_branch_addr (sr_offset region) writes in
     bind_r (ensure (n \<noteq> 0) (PatchFailed ''pre-6.1 branch guard'')) (\<lambda>_.
     Inr ((root_key_addr, strategy), writes))))))))))))))))"

definition patch_6_1_plus ::
    "patch_base \<Rightarrow> kernel_symbol_offset \<Rightarrow> skroot_kernel_offsets \<Rightarrow> patch_bytes list \<Rightarrow> execve_param \<Rightarrow>
      filldir_hook \<Rightarrow> audit_hook \<Rightarrow> plan_error + (u64 \<times> spare_region_strategy) \<times> patch_bytes list" where
  "patch_6_1_plus base symbols offsets writes execve filldir audit =
     bind_r (ensure (region_valid (k_die symbols)) (NoSpareRegion ''missing die'')) (\<lambda>_.
     bind_r (ensure (region_valid (k_drm_puts_coredump symbols)) (NoSpareRegion ''missing __drm_puts_coredump'')) (\<lambda>_.
     bind_r (ensure (region_valid (k_drm_printfn_coredump symbols)) (NoSpareRegion ''missing __drm_printfn_coredump''))
       (\<lambda>_.
     let avc_region = k_drm_printfn_coredump symbols in
     bind_r (run_step (patch_ret (pbase_buf base) (sr_offset avc_region) writes)) (\<lambda>(n, writes).
     bind_r (consume_region avc_region n ''__drm_printfn_coredump entry guard'') (\<lambda>avc_region.
     let filldir_region = k_drm_puts_coredump symbols in
     bind_r (run_step (patch_ret (pbase_buf base) (sr_offset filldir_region) writes)) (\<lambda>(n, writes).
     bind_r (consume_region filldir_region n ''__drm_puts_coredump entry guard'') (\<lambda>filldir_region.
     let exec_region = k_die symbols; root_key_addr = sr_offset exec_region in
     bind_r (run_step (patch_do_execve execve base exec_region (cred_offset offsets) (seccomp_offset offsets) writes))
       (\<lambda>(n, base, writes).
     bind_r (consume_region exec_region n ''do_execve hook'') (\<lambda>exec_region.
     bind_r (run_step (patch_filldir64_root_key_guide filldir root_key_addr exec_region writes)) (\<lambda>(n, writes).
     bind_r (consume_region exec_region n ''filldir64 root-key guide'') (\<lambda>exec_region.
     let (n, writes) = patch_jump (sr_offset exec_region) (sr_offset filldir_region) writes in
     bind_r (consume_region exec_region n ''die to __drm_puts_coredump branch'') (\<lambda>exec_region.
     bind_r (run_step (patch_filldir64_core filldir base filldir_region writes)) (\<lambda>(n, writes).
     bind_r (consume_region filldir_region n ''filldir64 core hook'') (\<lambda>filldir_region.
     let current_avc_check_addr = sr_offset avc_region in
     bind_r (run_step (patch_current_avc_check_bl_func base avc_region (cred_offset offsets) writes))
       (\<lambda>(n, base, writes).
     bind_r (consume_region avc_region n ''current avc check helper'') (\<lambda>avc_region.
     bind_r (run_step (patch_avc_denied (k_avc_denied symbols) base avc_region current_avc_check_addr writes))
       (\<lambda>(n, writes).
     bind_r (consume_region avc_region n ''avc_denied hook'') (\<lambda>avc_region.
     bind_r (run_step (patch_audit_log_start audit base avc_region current_avc_check_addr writes)) (\<lambda>(n, writes).
     bind_r (consume_region avc_region n ''audit_log_start hook'') (\<lambda>_.
     Inr ((root_key_addr, DieAndDrmPrintfCoredump), writes)))))))))))))))))))))"

definition patch_core_hooks ::
    "kernel_version \<Rightarrow> patch_base \<Rightarrow> kernel_symbol_offset \<Rightarrow> skroot_kernel_offsets \<Rightarrow> patch_bytes list \<Rightarrow>
      plan_error + (u64 \<times> spare_region_strategy) \<times> patch_bytes list" where
  "patch_core_hooks version base symbols offsets writes =
     bind_r (new_step (do_execve_new base symbols (triple version)) (MissingSymbol ''do_execve*'')) (\<lambda>execve.
     bind_r (new_step (filldir_hook_new base (k_filldir64 symbols) (is_less_than version (6, 1, 0)))
       (MissingSymbol ''filldir64'')) (\<lambda>filldir.
     bind_r (new_step (audit_hook_new base (k_audit_log_start symbols)) (MissingSymbol ''audit_log_start'')) (\<lambda>audit.
     if is_less_than version (6, 1, 0) then patch_pre_6_1 base symbols offsets writes execve filldir audit
     else patch_6_1_plus base symbols offsets writes execve filldir audit)))"

definition kallsyms_step :: "kallsyms_error + 'a \<Rightarrow> plan_error + 'a" where
  "kallsyms_step r =
     (case r of Inr x \<Rightarrow> Inr x | Inl e \<Rightarrow> if e = KPanic then Inl PlanPanic else Inl (PlanKallsyms e))"

definition build_core_patch_plan :: "byte list \<Rightarrow> plan_error + skroot_core_patch_plan" where
  "build_core_patch_plan kimg =
     bind_r (ok_or (from_kernel kimg) PlanNoKernelVersion) (\<lambda>version.
     bind_r (kallsyms_step (kallsyms_analyze kimg)) (\<lambda>syms.
     bind_r (run_step (symbol_analyze kimg syms)) (\<lambda>symbols.
     bind_r (resolve_offsets kimg version symbols) (\<lambda>offsets.
     bind_r (ok_or (patch_base_new kimg (cred_uid_offset offsets) (huawei_kti_addr offsets)) PlanInitCred) (\<lambda>base.
     let offsets = offsets\<lparr>init_cred_offset := ic_offset (pbase_init_cred base),
           plan_cap_ability_max := cap_ability_max (pbase_init_cred base)\<rparr> in
     bind_r (run_step (patch_existing_bypasses kimg symbols [])) (\<lambda>(symbols, writes).
     bind_r (patch_core_hooks version base symbols offsets writes) (\<lambda>((root_key_addr, strategy), writes).
     Inr \<lparr>plan_version = raw_version version, plan_version_triple = triple version, plan_offsets = offsets,
       plan_strategy = strategy, root_key_addr = root_key_addr, plan_writes = writes\<rparr>)))))))"

end
