(* ===== verification/Hook_Code.thy ===== *)
theory Hook_Code
  imports Patch_Plan
begin

text \<open>
  What the hooks share: the code they emit only grows, never panics, and keeps its head; the branch of
  an entry reaches its hook; and the end of an entry hook holds the displaced instruction and the
  branch back behind it.
\<close>

section \<open>Code that grows\<close>

definition grows :: "asm \<Rightarrow> asm \<Rightarrow> bool" where
  "grows a b \<longleftrightarrow> (\<exists>bs. asm_buf b = asm_buf a @ bs) \<and> asm_labels b = asm_labels a \<and> asm_fixups b = asm_fixups a"

named_theorems grows_intros \<open>every emitter only appends\<close>

lemma grows_refl [grows_intros]: "grows a a"
  by (simp add: grows_def)

lemma grows_trans: "grows a b \<Longrightarrow> grows b c \<Longrightarrow> grows a c"
  by (auto simp: grows_def)

context appender
begin

lemma grows: "grows a b \<Longrightarrow> grows a (op b)"
  using appends [of b] by (auto simp: grows_def keeps_labels keeps_fixups)

end

lemmas [grows_intros] = word.grows b_off.grows bl_off.grows adr.grows adrp.grows and_imm_x.grows embed.grows

lemma grows_emitters [grows_intros]:
  assumes "grows a b"
  shows "grows a (mov_reg_x b rd rm)" "grows a (mov_reg_w b rd rm)" "grows a (mov_x_sp b rd)"
    "grows a (mrs_sp_el0 b rd)" "grows a (add_imm_x b rd rn i)" "grows a (sub_imm_x b rd rn i)"
    "grows a (subs_imm_x b rd rn i)" "grows a (add_reg_x b rd rn rm)" "grows a (bic_reg_x b rd rn rm)"
    "grows a (cmp_reg_x b rn rm)" "grows a (cmp_reg_w b rn rm)" "grows a (cmp_imm_x b rn i)"
    "grows a (cmp_imm_w b rn i)" "grows a (ldr_x_uoff b rd rn i)" "grows a (ldr_w_uoff b rd rn i)"
    "grows a (str_w_uoff b rd rn i)" "grows a (str_x_post b rd rn j)" "grows a (ldr_x_post b rd rn j)"
    "grows a (str_w_post b rd rn j)" "grows a (ldr_w_post b rd rn j)" "grows a (ldrb_w_post b rd rn j)"
    "grows a (ldrb_w_reg b rd rn rm)" "grows a (stp_x_pre b rd rm rn j)" "grows a (stp_x_post b rd rm rn j)"
    "grows a (ldp_x_post b rd rm rn j)" "grows a (ldaxr_x b rd rn)" "grows a (stlxr_w_x b rs rd rn)"
    "grows a (ret_x30 b)" "grows a (autiaz b)" "grows a (autiasp b)" "grows a (autibz b)" "grows a (autibsp b)"
  unfolding asm_defs by (rule word.grows [OF assms])+

lemma grows_mov_imm_x_asmjit [grows_intros]:
  assumes "grows a b"
  shows "grows a (mov_imm_x_asmjit b rd v)"
proof -
  have "grows b (mov_imm_x_asmjit b rd v)"
    by (auto simp: grows_def mov_imm_x_asmjit_def Let_def orr_imm_x_def foldl_asm_word split: option.splits)
  with assms show ?thesis by (rule grows_trans)
qed

lemma grows_if [grows_intros]: "grows a x \<Longrightarrow> grows a y \<Longrightarrow> grows a (if c then x else y)"
  by simp

lemma grows_funpow [grows_intros]: "grows a x \<Longrightarrow> grows a (((\<lambda>a. str_x_post a rt rn j) ^^ n) x)"
  by (induction n) (simp_all add: grows_intros)

lemma grows_huawei [grows_intros]:
  assumes "grows a b"
  shows "grows a (emit_huawei_kti_add base b x)"
  unfolding emit_huawei_kti_add_def Let_def
  by (cases "huawei_kti base"; simp only: option.case; intro grows_intros assms)

lemma grows_snippets [grows_intros]:
  assumes "grows a b"
  shows "grows a (emit_safe_bl b addr target)" and "grows a (emit_ret_by_entry_insn b insn)"
    and "grows a (emit_get_current base b x)"
  unfolding emit_safe_bl_def emit_ret_by_entry_insn_def emit_get_current_def Let_def
    by (intro grows_intros assms)+ (cases "pbase_current_mode base"; simp only: current_mode.case; intro grows_intros assms)

lemma grows_execve [grows_intros]:
  assumes "grows a b"
  shows "grows a (execve_grant base off b)" "grows a (execve_seccomp base off b)"
  unfolding execve_grant_def execve_seccomp_def Let_def
    by (intro grows_intros assms)+
      (cases "pbase_current_mode base"; simp only: current_mode.case prod.case; intro grows_intros assms)

section \<open>Builders of the hooks\<close>

text \<open>
  The code starts with \<open>p\<close>, there are \<open>k\<close> labels, those of \<open>bound\<close> are bound, and no pending branch is
  inside \<open>p\<close>.
\<close>

definition built :: "byte list \<Rightarrow> nat \<Rightarrow> nat set \<Rightarrow> asm \<Rightarrow> bool" where
  "built p k bound a \<longleftrightarrow> asm_wf a \<and> length (asm_labels a) = k \<and> (\<exists>r. asm_buf a = p @ r) \<and>
     (\<forall>f \<in> set (asm_fixups a). length p \<le> fx_pos f) \<and> (\<forall>l \<in> bound. asm_labels a ! l \<noteq> None)"

lemma asm_wf_grows: "asm_wf a \<Longrightarrow> grows a b \<Longrightarrow> asm_wf b"
  by (fastforce simp: asm_wf_def grows_def)

lemma built_grows: "built p k B a \<Longrightarrow> grows a b \<Longrightarrow> built p k B b"
  using asm_wf_grows [of a b] by (auto simp: built_def grows_def)

lemma built_fixup:
  "built p k B a \<Longrightarrow> l < k \<Longrightarrow> fix_kind_ok kd \<Longrightarrow> built p k B (push_fixup a l kd)"
  using asm_wf_push_fixup [of a l kd] by (auto simp: built_def push_fixup_def)

lemma built_bind:
  assumes "built p k B a" and "l < k"
  obtains a' where "asm_bind a l = Some a'" "built p k (insert l B) a'" "asm_buf a' = asm_buf a"
proof -
  let ?a = "a\<lparr>asm_labels := (asm_labels a)[l := Some (length (asm_buf a))]\<rparr>"
  have s: "asm_bind a l = Some ?a" using assms by (simp add: asm_bind_def built_def)
  then have "built p k (insert l B) ?a"
    using assms asm_wf_bind [of a l ?a] by (auto simp: built_def nth_list_update)
  then show thesis by (rule that [OF s]) simp
qed

lemma built_assembled:
  assumes "built p k {0..<k} a"
  shows "assembled a \<noteq> None"
proof -
  have "to_bytes a \<noteq> Inl AsmPanic"
    using assms resolve_fixups_no_panic [of "asm_fixups a" "asm_buf a" "asm_labels a"]
    by (auto simp: to_bytes_def asm_wf_def built_def split: option.splits)
  then show ?thesis by (auto simp: assembled_def split: sum.splits asm_fault.splits)
qed

lemma built_start: "built [] 1 {} (snd (new_label asm_new))"
  "built [] 2 {} (snd (new_label (snd (new_label asm_new))))"
  by (simp_all add: built_def asm_wf_def new_label_def asm_new_def)

section \<open>Branches\<close>

lemma uint_small:
  assumes "unat (p :: u64) < 2 ^ k"
  shows "uint p < 2 ^ k"
proof -
  have "int (unat p) < int (2 ^ k)" using assms by (simp only: of_nat_less_iff)
  then show ?thesis by simp
qed

lemma as_i32_diff:
  assumes "unat p < 2 ^ 31" and "unat j < 2 ^ 31"
  shows "as_i32 (j - p) = int (unat j) - int (unat p)"
proof -
  have "as_i32 (j - p) = signed_take_bit 31 (take_bit 32 (take_bit 64 (uint j - uint p)))"
    unfolding as_i32_def sint_uint unsigned_ucast_eq by (simp add: uint_word_ariths take_bit_eq_mod)
  also have "\<dots> = signed_take_bit 31 (uint j - uint p)"
    by (simp add: signed_take_bit_take_bit)
  also have "\<dots> = uint j - uint p"
  proof (rule signed_take_bit_int_eq_self)
    have "uint p < 2 ^ 31" "uint j < 2 ^ 31" using assms by (simp_all only: uint_small)
    moreover have "0 \<le> uint p" "0 \<le> uint j" by simp_all
    ultimately show "- (2 ^ 31) \<le> uint j - uint p" "uint j - uint p < 2 ^ 31" by linarith+
  qed
  finally show ?thesis by simp
qed

text \<open>A branch word that is emitted without an error goes where it should.\<close>

lemma b_off_word:
  assumes "asm_err (b_off a d) = None"
  obtains w where "b_off a d = asm_word a w" "is_b w" "branch_b_displacement w = d" "asm_err a = None"
proof -
  obtain i where i: "encode_branch26_rel d = Inr i"
    using assms by (auto simp: b_off_def encode_branch26_def set_err_def split: sum.splits if_splits)
  then have w: "b_off a d = asm_word a (0x14000000 OR i)" by (simp add: b_off_def encode_branch26_def)
  have "fixup_word FixB d = Inr (0x14000000 OR i)" using i by simp
  then have "branch_goes_to FixB (0x14000000 OR i) d" by (intro fixup_word_correct) simp_all
  then show thesis using that [OF w] assms w by simp
qed

lemma to_bytes_err: "to_bytes a = Inr bs \<Longrightarrow> asm_err a = None"
  by (simp add: to_bytes_def split: option.splits)

lemma to_bytes_resolved: "to_bytes a = Inr bs \<Longrightarrow> resolve_fixups (asm_labels a) (asm_fixups a) (asm_buf a) = Inr bs"
  by (simp add: to_bytes_def split: option.splits)

lemma patch_jump_cases:
  assumes "patch_jump p j out = (n, out')"
  shows "n = 0 \<and> out' = out \<or>
    p \<noteq> 0 \<and> n = 4 \<and> (\<exists>w. out' = out @ [\<lparr>pb_addr = p, pb_bytes = u32_le w\<rparr>] \<and> is_b w \<and>
      branch_b_displacement w = as_i32 (j - p))"
proof (cases "to_bytes (b_off asm_new (as_i32 (j - p)))")
  case (Inl e)
  then show ?thesis using assms by (auto simp: patch_jump_def split: if_splits)
next
  case (Inr bytes)
  obtain w where w: "b_off asm_new (as_i32 (j - p)) = asm_word asm_new w" "is_b w"
    "branch_b_displacement w = as_i32 (j - p)"
    using b_off_word [OF to_bytes_err [OF Inr]] by blast
  have "bytes = u32_le w" using to_bytes_resolved [OF Inr] unfolding w(1) by (simp add: asm_new_def)
  then show ?thesis using assms Inr w by (auto simp: patch_jump_def split: if_splits)
qed

lemma patch_jump_near:
  assumes "p \<noteq> 0" and "unat p < 2 ^ 27" and "unat j < 2 ^ 27" and "4 dvd int (unat j) - int (unat p)"
  obtains w where "patch_jump p j out = (4, out @ [\<lparr>pb_addr = p, pb_bytes = u32_le w\<rparr>])" "is_b w"
    "int (unat p) + branch_b_displacement w = int (unat j)"
proof -
  have d: "as_i32 (j - p) = int (unat j) - int (unat p)" using assms by (intro as_i32_diff) simp_all
  have "\<not> (as_i32 (j - p) < - (2 ^ 27) \<or> 2 ^ 27 \<le> as_i32 (j - p))" 
  proof -
    have "uint p < 2 ^ 27" "uint j < 2 ^ 27" using assms(2,3) by (simp_all only: uint_small)
    moreover have "0 \<le> uint p" "0 \<le> uint j" "uint p = int (unat p)" "uint j = int (unat j)" by simp_all
    ultimately show ?thesis unfolding d by linarith
  qed
  then have e: "encode_branch26_rel (as_i32 (j - p)) = Inr (word_of_int (as_i32 (j - p) div 4) AND mask 26)"
    using assms(4) unfolding encode_branch26_rel_total d by simp
  have "to_bytes (b_off asm_new (as_i32 (j - p))) = Inr (u32_le (0x14000000 OR (word_of_int (as_i32 (j - p) div 4) AND mask 26)))"
    by (simp add: b_off_def encode_branch26_def e to_bytes_def asm_new_def)
  moreover have "u32_le x \<noteq> []" for x by (simp add: u32_le_def)
  ultimately have "fst (patch_jump p j out) \<noteq> 0" using assms(1) by (simp add: patch_jump_def)
  then show thesis
    using patch_jump_cases [of p j out "fst (patch_jump p j out)" "snd (patch_jump p j out)"] d that
    by (metis diff_add_cancel add.commute prod.collapse)
qed

section \<open>The end of an entry hook\<close>

lemma resolved_tail:
  assumes "asm_wf a" and "to_bytes b = Inr bs" and "asm_fixups b = asm_fixups a" and "asm_buf b = asm_buf a @ t"
    and "i < length t"
  shows "length bs = length (asm_buf a) + length t \<and> bs ! (length (asm_buf a) + i) = t ! i"
proof -
  note fr = resolve_fixups_frame [OF to_bytes_resolved [OF assms(2)]]
  have "bs ! (length (asm_buf a) + i) = asm_buf b ! (length (asm_buf a) + i)"
    using assms by (intro fr(2)) (auto simp: asm_wf_def)
  then show ?thesis using fr(1) assms(4,5) by (simp add: nth_append)
qed

lemma resolved_word:
  assumes "asm_wf a" and "to_bytes b = Inr bs" and "asm_fixups b = asm_fixups a"
    and "asm_buf b = asm_buf a @ u @ u32_le w"
  shows "length bs = length (asm_buf a) + length u + 4 \<and> rd32_le bs (length (asm_buf a) + length u) = w"
proof -
  note t = resolved_tail [OF assms]
  have n: "bs ! (length (asm_buf a) + length u + k) = u32_le w ! k" if "k < 4" for k
    using t [of "length u + k"] that by (simp add: nth_append add.assoc)
  have "rd32_le bs (length (asm_buf a) + length u) = rd32_le (u32_le w) 0"
    unfolding rd32_le_def using n [of 0] n [of 1] n [of 2] n [of 3] by (simp add: numeral_2_eq_2)
  moreover have "length bs = length (asm_buf a) + length (u @ u32_le w)" using t [of 0] by simp
  ultimately show ?thesis by simp
qed

text \<open>
  Behind a well formed builder: the slot with the displaced instruction, and a branch that leads from
  the hook back to the instruction behind the entry.
\<close>

definition returns_to :: "u64 \<Rightarrow> byte list \<Rightarrow> nat \<Rightarrow> u64 \<Rightarrow> bool" where
  "returns_to hook_addr code pos target \<longleftrightarrow>
     pos + 4 \<le> length code \<and> is_b (rd32_le code pos) \<and>
     int (unat hook_addr) + int pos + branch_b_displacement (rd32_le code pos) = int (unat target)"

definition redirects :: "patch_bytes \<Rightarrow> u64 \<Rightarrow> u64 \<Rightarrow> bool" where
  "redirects wr entry target \<longleftrightarrow>
     pb_addr wr = entry \<and> (\<exists>w. pb_bytes wr = u32_le w \<and> is_b w \<and>
       int (unat entry) + branch_b_displacement w = int (unat target))"

lemma unat_plus_small:
  assumes "unat x + n < 2 ^ 64"
  shows "unat (x + of_nat n :: u64) = unat x + n"
proof -
  have "n mod 2 ^ 64 = n" using assms by simp
  then have "unat (of_nat n :: u64) = n" by (simp add: unat_of_nat)
  then show ?thesis using assms by (subst unat_add_lem [THEN iffD1]) simp_all
qed

lemma branch_back:
  assumes "asm_wf a" and "to_bytes b = Inr bs" and "asm_fixups b = asm_fixups a" and "asm_buf a = u"
    and "b = b_off c (as_i32 (jump_back - (hook_addr + of_nat (asm_offset c))))"
    and "asm_buf c = u @ v" and "asm_fixups c = asm_fixups a"
    and "unat jump_back < 2 ^ 31" and "unat hook_addr + length (u @ v) < 2 ^ 31"
  shows "length bs = length (u @ v) + 4 \<and> returns_to hook_addr bs (length (u @ v)) jump_back"
proof -
  let ?d = "as_i32 (jump_back - (hook_addr + of_nat (asm_offset c)))"
  obtain w where w: "b = asm_word c w" "is_b w" "branch_b_displacement w = ?d"
    using b_off_word [of c ?d] to_bytes_err [OF assms(2)] unfolding assms(5) by blast
  have o: "asm_offset c = length (u @ v)" by (simp add: asm_offset_def assms(6))
  have "unat (hook_addr + of_nat (asm_offset c)) = unat hook_addr + length (u @ v)"
    unfolding o using assms(9) by (intro unat_plus_small) simp
  then have d: "?d = int (unat jump_back) - (int (unat hook_addr) + int (length (u @ v)))"
    using assms(8,9) by (subst as_i32_diff) simp_all
  have "asm_buf b = asm_buf a @ v @ u32_le w" by (simp add: w(1) assms(4,6))
  from resolved_word [OF assms(1-3) this] have "length bs = length (u @ v) + 4" "rd32_le bs (length (u @ v)) = w"
    by (simp_all add: assms(4))
  then show ?thesis using w d by (simp add: returns_to_def)
qed

lemma rd32_le_write_other:
  assumes "p + length ys \<le> length xs" and "q + 4 \<le> length xs" and "q + 4 \<le> p \<or> p + length ys \<le> q"
  shows "rd32_le (write_at xs p ys) q = rd32_le xs q"
  using assms by (auto simp: rd32_le_def nth_write_at)

lemma rd32_le_spliced:
  assumes "p + 4 \<le> length xs" and "q + 4 \<le> length buf"
  shows "rd32_le (write_at xs p (window buf q (q + 4))) p = rd32_le buf q"
proof -
  have len: "length (window buf q (q + 4)) = 4" using assms by simp
  have "rd32_le (write_at xs p (window buf q (q + 4))) (p + 0) = rd32_le (window buf q (q + 4)) 0"
    using assms len by (intro rd32_le_write_at) simp_all
  then show ?thesis using assms by (simp add: rd32_le_window [of q buf])
qed

lemma returns_to_write:
  assumes "returns_to h bs pos t" and "p + length ys \<le> pos"
  shows "returns_to h (write_at bs p ys) pos t"
  using assms rd32_le_write_other [of p ys bs pos] by (auto simp: returns_to_def)

lemma slice_word_end:
  assumes "slice buf (unat (a :: u64)) (usize_add (unat a) 4) = Some ws"
  shows "unat a + 4 \<le> length buf \<and> ws = window buf (unat a) (unat a + 4)"
proof -
  obtain i where i: "unat a = i" "i < 2 ^ 64" using unsigned_less [of a] by auto
  note assms = assms [unfolded i(1)] i(2)
  have ok: "i \<le> usize_add i 4" "usize_add i 4 \<le> length buf" "ws = window buf i (usize_add i 4)"
    using assms(1) by (simp_all add: slice_Some_iff)
  have "usize_add i 4 = i + 4"
  proof (rule ccontr)
    assume "usize_add i 4 \<noteq> i + 4"
    then have w: "2 ^ 64 \<le> i + 4" by (meson not_le_imp_less usize_add_small)
    then have "usize_add i 4 = i + 4 - 2 ^ 64" using assms(2) by (simp add: usize_add_def le_mod_geq)
    then show False using ok(1) assms(2) w by simp
  qed
  then show ?thesis using ok by (simp add: i(1))
qed

lemma splice_entry_Some:
  assumes "splice_entry base addr (entry_hook_tail a hook_addr jump_back) = Some bs" and "bs \<noteq> []" and "asm_wf a"
    and "unat jump_back < 2 ^ 31" and "unat hook_addr + length bs < 2 ^ 31"
  shows "length bs = asm_offset a + 8 \<and> unat addr + 4 \<le> length (pbase_buf base) \<and>
    rd32_le bs (asm_offset a) = rd32_le (pbase_buf base) (unat addr) \<and>
    returns_to hook_addr bs (asm_offset a + 4) jump_back"
proof -
  let ?c = "mov_reg_x a 0 0"
  let ?b = "b_off ?c (as_i32 (jump_back - (hook_addr + of_nat (asm_offset ?c))))"
  have e: "entry_hook_tail a hook_addr jump_back = (?b, asm_offset a)"
    by (simp add: entry_hook_tail_def Let_def)
  obtain raw where raw: "to_bytes ?b = Inr raw"
    "bs = write_at raw (asm_offset a) (window (pbase_buf base) (unat addr) (unat addr + 4))"
    "unat addr + 4 \<le> length (pbase_buf base)" "asm_offset a + 4 \<le> length raw"
    using assms(1,2) slice_word_end [of "pbase_buf base" addr] unfolding splice_entry_def e
    by (auto simp: assembled_def Let_def split: sum.splits asm_fault.splits if_splits)
  have len: "length bs = length raw" using raw by simp
  obtain v where v: "asm_buf ?c = asm_buf a @ v" "length v = 4" by (simp add: mov_reg_x_def)
  have f: "asm_fixups ?c = asm_fixups a" "asm_fixups ?b = asm_fixups ?c"
    by (simp_all add: mov_reg_x_def b_off.keeps_fixups)
  have gr: "length (asm_buf ?b) = length (asm_buf ?c) + 4"
    by (simp add: b_off_def split: sum.splits)
  have "length raw = length (asm_buf ?b)" by (rule resolve_fixups_frame(1) [OF to_bytes_resolved [OF raw(1)]])
  then have "unat hook_addr + length (asm_buf a @ v) < 2 ^ 31" using assms(5) len gr v by simp
  from branch_back [OF assms(3) raw(1) _ refl refl v(1) f(1) assms(4) this] f
  have b: "length raw = asm_offset a + 8" "returns_to hook_addr raw (asm_offset a + 4) jump_back"
    by (simp_all add: v(2) asm_offset_def)
  show ?thesis
    unfolding raw(2)
    using b raw(3,4) rd32_le_spliced [of "asm_offset a" raw "unat addr" "pbase_buf base"]
    by (auto intro!: returns_to_write)
qed

lemma aligned_distance:
  assumes "4 dvd unat (x :: u64)" and "4 dvd unat (y :: u64)"
  shows "4 dvd int (unat x) - int (unat y)"
proof -
  have "int 4 dvd int (unat x)" "int 4 dvd int (unat y)" using assms by (simp_all only: int_dvd_int_iff)
  then have "int 4 dvd int (unat x) - int (unat y)" by (rule dvd_diff)
  then show ?thesis by simp
qed

lemma redirects_near:
  assumes "p \<noteq> 0" and "unat p < 2 ^ 27" and "unat j < 2 ^ 27" and "4 dvd unat p" and "4 dvd unat j"
  obtains wr where "patch_jump p j out = (4, out @ [wr])" "redirects wr p j"
proof -
  obtain w where w: "patch_jump p j out = (4, out @ [\<lparr>pb_addr = p, pb_bytes = u32_le w\<rparr>])" "is_b w"
    "int (unat p) + branch_b_displacement w = int (unat j)"
    by (rule patch_jump_near [OF assms(1-3) aligned_distance [OF assms(5,4)]])
  show thesis by (rule that [OF w(1)]) (use w in \<open>auto simp: redirects_def\<close>)
qed

lemma patch_jumps_near:
  assumes "\<forall>p \<in> set ps. p \<noteq> 0 \<and> unat p < 2 ^ 27 \<and> 4 dvd unat p" and "unat j < 2 ^ 27" and "4 dvd unat j"
  shows "\<exists>wrs. patch_jumps ps j out = out @ wrs \<and> list_all2 (\<lambda>p wr. redirects wr p j) ps wrs"
  using assms(1)
proof (induction ps arbitrary: out)
  case (Cons p ps)
  obtain wr where wr: "patch_jump p j out = (4, out @ [wr])" "redirects wr p j"
    using redirects_near [of p j out] Cons(2) assms(2,3) by auto
  obtain wrs where "patch_jumps ps j (out @ [wr]) = (out @ [wr]) @ wrs" "list_all2 (\<lambda>p wr. redirects wr p j) ps wrs"
    using Cons(1) [of "out @ [wr]"] Cons(2) by auto
  then show ?case using wr by (intro exI [of _ "wr # wrs"]) (simp add: patch_jumps_def)
qed (simp add: patch_jumps_def)

lemma assembled_nonempty: "assembled a = Some bs \<Longrightarrow> bs \<noteq> [] \<Longrightarrow> to_bytes a = Inr bs"
  by (auto simp: assembled_def split: sum.splits asm_fault.splits)

end
