(* ===== verification/Root_Key.thy ===== *)
theory Root_Key
  imports Execve_Hook Rust_Str
begin

text \<open>
  How the writes of a plan reach the kernel and how the root key gets into its slot
  (\<open>root_pipeline/skroot.rs\<close>). The key is drawn from the operating system's random bytes, which are a
  parameter: the results of the successive calls of \<open>getrandom::fill\<close>, \<open>None\<close> for a failing call. When
  all the given bytes are used up before the key is complete, the result is \<open>None\<close>.
\<close>

definition ROOT_KEY_STORED_TEXT_LEN :: nat where "ROOT_KEY_STORED_TEXT_LEN = ROOT_KEY_LEN - 1"

definition ROOT_KEY_ALPHABET :: "byte list" where
  "ROOT_KEY_ALPHABET =
     as_bytes ''abcdefghijklmnopqrstuvwxyzABCDEFGHIJKLMNOPQRSTUVWXYZ0123456789''"

datatype kernel_write_error =
    WriteOverflows u64 nat
  | WriteOutOfBounds u64 nat nat
  | RootKeyLength nat
  | RandomFailed

definition apply_write :: "byte list \<Rightarrow> patch_bytes \<Rightarrow> kernel_write_error + byte list" where
  "apply_write kimg w =
     (let start = unat (pb_addr w); n = length (pb_bytes w) in
      if 2 ^ 64 \<le> start + n then Inl (WriteOverflows (pb_addr w) n)
      else if start + n > length kimg then Inl (WriteOutOfBounds (pb_addr w) n (length kimg))
      else Inr (write_at kimg start (pb_bytes w)))"

fun apply_kernel_writes :: "byte list \<Rightarrow> patch_bytes list \<Rightarrow> kernel_write_error + byte list" where
  "apply_kernel_writes kimg [] = Inr kimg"
| "apply_kernel_writes kimg (w # ws) = bind_r (apply_write kimg w) (\<lambda>kimg. apply_kernel_writes kimg ws)"

definition write_root_key :: "byte list \<Rightarrow> u64 \<Rightarrow> byte list \<Rightarrow> kernel_write_error + byte list" where
  "write_root_key kimg root_key_addr key_bytes =
     (if length key_bytes \<noteq> ROOT_KEY_STORED_TEXT_LEN then Inl (RootKeyLength (length key_bytes))
      else
        let stored = write_at (replicate ROOT_KEY_LEN 0) 0 key_bytes in
        apply_write kimg \<lparr>pb_addr = root_key_addr, pb_bytes = stored\<rparr>)"

text \<open>A byte above the largest multiple of the alphabet's size is skipped, so that no letter is preferred.\<close>

fun push_random :: "byte list \<Rightarrow> byte list \<Rightarrow> byte list" where
  "push_random out [] = out"
| "push_random out (b # random) =
     (let n = length ROOT_KEY_ALPHABET; limit = (255 div n) * n in
      if unat b \<ge> limit then push_random out random
      else
        let out = out @ [ROOT_KEY_ALPHABET ! (unat b mod n)] in
        if length out = ROOT_KEY_STORED_TEXT_LEN then out else push_random out random)"

fun generate_root_key :: "byte list \<Rightarrow> byte list option list \<Rightarrow> (kernel_write_error + byte list) option" where
  "generate_root_key out [] = (if length out < ROOT_KEY_STORED_TEXT_LEN then None else Some (Inr out))"
| "generate_root_key out (fill # fills) =
     (if length out < ROOT_KEY_STORED_TEXT_LEN
      then (case fill of None \<Rightarrow> Some (Inl RandomFailed) | Some random \<Rightarrow> generate_root_key (push_random out random) fills)
      else Some (Inr out))"

section \<open>The generated keys\<close>

lemma length_alphabet: "length ROOT_KEY_ALPHABET = 62"
  by (simp add: ROOT_KEY_ALPHABET_def as_bytes_def)

lemma alphabet_alphanumeric: "\<forall>b \<in> set ROOT_KEY_ALPHABET. ascii_alphanumeric b"
  by (simp add: ROOT_KEY_ALPHABET_def as_bytes_def ascii_alphanumeric_def)

text \<open>A key, complete or not: at most 47 letters and digits.\<close>

definition key_text :: "byte list \<Rightarrow> bool" where
  "key_text key \<longleftrightarrow> length key \<le> ROOT_KEY_STORED_TEXT_LEN \<and> (\<forall>b \<in> set key. ascii_alphanumeric b)"

lemma push_random_key:
  "key_text out \<Longrightarrow> length out < ROOT_KEY_STORED_TEXT_LEN \<Longrightarrow> key_text (push_random out random)"
proof (induction random arbitrary: out)
  case (Cons b random)
  have "ascii_alphanumeric (ROOT_KEY_ALPHABET ! (unat b mod 62))"
    using alphabet_alphanumeric by (simp add: length_alphabet)
  then have "key_text (out @ [ROOT_KEY_ALPHABET ! (unat b mod 62)])" using Cons.prems by (auto simp: key_text_def)
  then show ?case
    using Cons.IH [OF Cons.prems] Cons.IH [of "out @ [ROOT_KEY_ALPHABET ! (unat b mod 62)]"] Cons.prems(2)
    by (auto simp: length_alphabet Let_def not_le)
qed simp

lemma generate_root_key_text:
  assumes "generate_root_key out fills = Some (Inr key)" and "key_text out"
  shows "length key = ROOT_KEY_STORED_TEXT_LEN \<and> (\<forall>b \<in> set key. ascii_alphanumeric b)"
  using assms
proof (induction out fills rule: generate_root_key.induct)
  case (2 out fill fills)
  then show ?case
    using push_random_key [of out] by (auto simp: key_text_def split: if_splits option.splits)
qed (auto simp: key_text_def split: if_splits)

text \<open>The stored key is a slot that a later pass recognises.\<close>

lemma stored_key_slot:
  assumes "length key = ROOT_KEY_STORED_TEXT_LEN" and "\<forall>b \<in> set key. ascii_alphanumeric b"
  shows "length (write_at (replicate ROOT_KEY_LEN 0) 0 key) = ROOT_KEY_LEN \<and>
    is_root_key_slot (write_at (replicate ROOT_KEY_LEN 0) 0 key)"
  using assms by (simp add: ROOT_KEY_STORED_TEXT_LEN_def ROOT_KEY_LEN_def write_at_def is_root_key_slot_def nth_append)

lemma apply_write_fits:
  assumes "unat (pb_addr w) + length (pb_bytes w) \<le> length kimg" and "length kimg < 2 ^ 63"
  shows "apply_write kimg w = Inr (apply_patch kimg w)"
  using assms by (simp add: apply_write_def Let_def apply_patch_def)

end
