(* ===== verification/Hook_Props.thy ===== *)
theory Hook_Props
  imports Hook_Code Root_Key
begin

text \<open>
  What the hooks of the patch plan guarantee: no hook panics, the code of a hook fits its region, the
  hooked instruction branches to the hook, and the hook ends with the displaced instruction and a
  branch behind it.
\<close>

section \<open>The code of the hooks\<close>

lemma built_new_labels:
  obtains a where "new_label asm_new = (0, a)" "built [] 1 {} a"
  using built_start(1) by (simp add: new_label_def asm_new_def)

lemma built_two_labels:
  obtains a b where "new_label asm_new = (0, a)" "new_label a = (1, b)" "built [] 2 {} b"
  using built_start(2) by (simp add: new_label_def asm_new_def)

lemma built_branch:
  assumes "built p k B a" and "l < k"
  shows "built p k B (b_cond a c l)" "built p k B (cbz_x a 10 l)" "built p k B (cbnz_w a 12 l)"
    "built p k B (cbnz_w a 13 l)" "built p k B (cbnz_w a 15 l)"
  using assms unfolding b_cond_def cbz_x_def cbnz_w_def by (simp_all add: built_fixup)

lemma audit_log_start_code_built:
  obtains a where "audit_log_start_code hook check jb insn = Some (entry_hook_tail a hook jb)" "built [] 1 {0} a"
proof -
  obtain a0 where a0: "new_label asm_new = (0, a0)" "built [] 1 {} a0" by (rule built_new_labels)
  define a1 where "a1 = add_imm_x (emit_safe_bl (sub_imm_x a0 SP SP CANARY_BYPASS_SIZE) hook check)
    SP SP CANARY_BYPASS_SIZE"
  have "built [] 1 {} a1" unfolding a1_def by (rule built_grows [OF a0(2)]) (intro grows_intros)
  then have "built [] 1 {} (cbz_x a1 10 0)" by (rule built_branch) simp
  then have "built [] 1 {} (emit_ret_by_entry_insn (mov_reg_w (cbz_x a1 10 0) 0 ZR) insn)"
    by (rule built_grows) (intro grows_intros)
  then obtain a' where "asm_bind (emit_ret_by_entry_insn (mov_reg_w (cbz_x a1 10 0) 0 ZR) insn) 0 = Some a'"
    "built [] 1 {0} a'" by (rule built_bind) simp_all
  then show thesis
    using that by (simp add: audit_log_start_code_def a0(1) Let_def flip: a1_def)
qed

lemma avc_denied_code_built:
  obtains a where "avc_denied_code hook check insn = Some a" "built [] 1 {0} a"
proof -
  obtain a0 where a0: "new_label asm_new = (0, a0)" "built [] 1 {} a0" by (rule built_new_labels)
  define a1 where "a1 = add_imm_x (emit_safe_bl (sub_imm_x a0 SP SP CANARY_BYPASS_SIZE) hook check)
    SP SP CANARY_BYPASS_SIZE"
  have "built [] 1 {} a1" unfolding a1_def by (rule built_grows [OF a0(2)]) (intro grows_intros)
  then have "built [] 1 {} (cbz_x a1 10 0)" by (rule built_branch) simp
  then have "built [] 1 {} (mov_reg_w (cbz_x a1 10 0) 0 ZR)"
    by (rule built_grows) (intro grows_intros)
  then obtain a' where a': "asm_bind (mov_reg_w (cbz_x a1 10 0) 0 ZR) 0 = Some a'"
    "built [] 1 {0} a'" by (rule built_bind) simp_all
  have "built [] 1 {0} (emit_ret_by_entry_insn a' insn)"
    by (rule built_grows [OF a'(2)]) (intro grows_intros)
  then show thesis
    using that a' by (simp add: avc_denied_code_def a0(1) Let_def flip: a1_def)
qed

lemma current_avc_check_code_built:
  obtains a where "current_avc_check_code base off = Some a" "built [] 2 {0..<2} a"
proof -
  obtain a0 b0 where s: "new_label asm_new = (0, a0)" "new_label a0 = (1, b0)" "built [] 2 {} b0"
    by (rule built_two_labels)
  let ?u = "of_nat (atomic_usage_size (pbase_init_cred base)) :: u32"
  let ?ic = "pbase_init_cred base"
  define c1 where "c1 = ldr_w_uoff (ldr_x_uoff (emit_get_current base (mov_reg_x b0 10 ZR) 11) 11 11 (ucast off))
    12 11 (?u + CRED_EUID_OFFSET)"
  have "built [] 2 {} c1" unfolding c1_def by (rule built_grows [OF s(3)]) (intro grows_intros)
  then have b: "built [] 2 {} (cbnz_w c1 12 0)" by (rule built_branch) simp
  define c2 where "c2 = ldr_w_post (add_imm_x (cbnz_w c1 12 0) 11 11 (?u + CRED_UID_INFO_SIZE)) 13 11
    (int (securebits_size ?ic))"
  have "built [] 2 {} c2" unfolding c2_def by (rule built_grows [OF b]) (intro grows_intros)
  then have b: "built [] 2 {} (cbnz_w c2 13 0)" by (rule built_branch) simp
  define c3 where "c3 = mov_imm_x_asmjit (mov_imm_x_asmjit (cbnz_w c2 13 0) 12 (cap_ability_max ?ic)) 13
    (word_of_int (cap_cnt ?ic))"
  have "built [] 2 {} c3" unfolding c3_def by (rule built_grows [OF b]) (intro grows_intros)
  then obtain d where d: "asm_bind c3 1 = Some d" "built [] 2 {1} d"
    using built_bind [of "[]" 2 "{}" c3 1 thesis] by auto
  define e1 where "e1 = cmp_reg_x (ldr_x_post d 14 11 8) 14 12"
  have "built [] 2 {1} e1" unfolding e1_def by (rule built_grows [OF d(2)]) (intro grows_intros)
  then have b: "built [] 2 {1} (b_cond e1 CCc 0)" by (rule built_branch) simp
  have "built [] 2 {1} (subs_imm_x (b_cond e1 CCc 0) 13 13 1)" by (rule built_grows [OF b]) (intro grows_intros)
  then have b: "built [] 2 {1} (b_cond (subs_imm_x (b_cond e1 CCc 0) 13 13 1) CNe 1)"
    by (rule built_branch) simp
  define e2 where "e2 = mov_imm_x_asmjit (b_cond (subs_imm_x (b_cond e1 CCc 0) 13 13 1) CNe 1) 10 1"
  have "built [] 2 {1} e2" unfolding e2_def by (rule built_grows [OF b]) (intro grows_intros)
  then obtain f where f: "asm_bind e2 0 = Some f" "built [] 2 (insert 0 {1}) f"
    using built_bind [of "[]" 2 "{1}" e2 0 thesis] by auto
  have "built [] 2 (insert 0 {1}) (ret_x30 f)" by (rule built_grows [OF f(2)]) (intro grows_intros)
  moreover have "current_avc_check_code base off = Some (ret_x30 f)"
    unfolding current_avc_check_code_def Let_def s prod.case
    by (fold c1_def, fold c2_def, fold c3_def, unfold d(1) Option.bind_lunit, fold e1_def, fold e2_def,
      unfold f(1), simp)
  moreover have "{0..<2} = insert 0 {1 :: nat}" by auto
  ultimately show thesis using that by simp
qed

lemma filldir64_core_code_built:
  obtains a where "filldir64_core_code hook jb pre insn = Some (entry_hook_tail a hook jb)" "built [] 2 {0..<2} a"
proof -
  obtain a0 b0 where s: "new_label asm_new = (0, a0)" "new_label a0 = (1, b0)" "built [] 2 {} b0"
    by (rule built_two_labels)
  define c1 where "c1 = cmp_imm_w b0 2 FOLDER_HEAD_ROOT_KEY_LEN"
  have "built [] 2 {} c1" unfolding c1_def by (rule built_grows [OF s(3)]) (intro grows_intros)
  then have b: "built [] 2 {} (b_cond c1 CNe 0)" by (rule built_branch) simp
  define c2 where "c2 = mov_imm_x_asmjit (b_cond c1 CNe 0) 12 0"
  have "built [] 2 {} c2" unfolding c2_def by (rule built_grows [OF b]) (intro grows_intros)
  then obtain d where d: "asm_bind c2 1 = Some d" "built [] 2 {1} d"
    using built_bind [of "[]" 2 "{}" c2 1 thesis] by auto
  define e1 where "e1 = cmp_reg_w (ldrb_w_reg (ldrb_w_reg d 13 1 12) 14 11 12) 13 14"
  have "built [] 2 {1} e1" unfolding e1_def by (rule built_grows [OF d(2)]) (intro grows_intros)
  then have b: "built [] 2 {1} (b_cond e1 CNe 0)" by (rule built_branch) simp
  define e2 where "e2 = cmp_imm_x (add_imm_x (b_cond e1 CNe 0) 12 12 1) 12 FOLDER_HEAD_ROOT_KEY_LEN"
  have "built [] 2 {1} e2" unfolding e2_def by (rule built_grows [OF b]) (intro grows_intros)
  then have b: "built [] 2 {1} (b_cond e2 CLt 1)" by (rule built_branch) simp
  define e3 where "e3 = emit_ret_by_entry_insn
    (if pre then mov_reg_x (b_cond e2 CLt 1) 0 ZR else mov_imm_x_asmjit (b_cond e2 CLt 1) 0 1) insn"
  have "built [] 2 {1} e3" unfolding e3_def by (rule built_grows [OF b]) (intro grows_intros)
  then obtain f where f: "asm_bind e3 0 = Some f" "built [] 2 (insert 0 {1}) f"
    using built_bind [of "[]" 2 "{1}" e3 0 thesis] by auto
  have "filldir64_core_code hook jb pre insn = Some (entry_hook_tail f hook jb)"
    unfolding filldir64_core_code_def Let_def s prod.case
    by (fold c1_def, fold c2_def, unfold d(1) Option.bind_lunit, fold e1_def, fold e2_def, fold e3_def,
      unfold f(1), simp)
  moreover have "{0..<2} = insert 0 {1 :: nat}" by auto
  ultimately show thesis using that f(2) by simp
qed

text \<open>The root hook starts with the empty key slot.\<close>

lemma do_execve_code_built:
  obtains c where "do_execve_code p base hook jb coff soff =
      Some (b_off c (as_i32 (jb - (hook + of_nat (asm_offset c)))))"
    "built (replicate ROOT_KEY_LEN 0 @ u32_le 0xAA0003E0) 2 {0..<2} c"
proof -
  let ?k = "replicate ROOT_KEY_LEN 0 @ u32_le 0xAA0003E0 :: byte list"
  obtain a0 b0 where s: "new_label asm_new = (0, a0)" "new_label a0 = (1, b0)" "built [] 2 {} b0"
    by (rule built_two_labels)
  have b0: "asm_buf b0 = []" "asm_fixups b0 = []" using s by (auto simp: new_label_def asm_new_def)
  define b1 where "b1 = mov_reg_x (asm_embed b0 (replicate ROOT_KEY_LEN 0)) 0 0"
  have "grows b0 b1" unfolding b1_def by (intro grows_intros)
  then have "built [] 2 {} b1" by (rule built_grows [OF s(3)])
  then have b1: "built ?k 2 {} b1"
    using b0 by (simp add: built_def b1_def mov_reg_x_def asm_embed_def)
  define c1 where "c1 = cmp_reg_x (mov_imm_x_asmjit b1 11 (- MAX_ERRNO)) (filename_reg p) 11"
  have "built ?k 2 {} c1" unfolding c1_def by (rule built_grows [OF b1]) (intro grows_intros)
  then have b: "built ?k 2 {} (b_cond c1 CCs 0)" by (rule built_branch) simp
  define c2 where "c2 = (if is_single_char_ptr p then mov_reg_x (b_cond c1 CCs 0) 11 (filename_reg p)
    else ldr_x_uoff (b_cond c1 CCs 0) 11 (filename_reg p) 0)"
  have "built ?k 2 {} c2" unfolding c2_def by (rule built_grows [OF b]) (intro grows_intros)
  then have "built ?k 2 {} (adr c2 12 (- int (asm_offset c2)))" by (rule built_grows) (intro grows_intros)
  then obtain d where d: "asm_bind (adr c2 12 (- int (asm_offset c2))) 1 = Some d" "built ?k 2 {1} d"
    using built_bind [of ?k 2 "{}" "adr c2 12 (- int (asm_offset c2))" 1 thesis] by auto
  define e1 where "e1 = cmp_reg_w (ldrb_w_post (ldrb_w_post d 14 11 1) 15 12 1) 14 15"
  have "built ?k 2 {1} e1" unfolding e1_def by (rule built_grows [OF d(2)]) (intro grows_intros)
  then have "built ?k 2 {1} (b_cond e1 CNe 0)" by (rule built_branch) simp
  then have b: "built ?k 2 {1} (cbnz_w (b_cond e1 CNe 0) 15 1)" by (rule built_branch) simp
  define g where "g = execve_seccomp base soff (execve_grant base coff (cbnz_w (b_cond e1 CNe 0) 15 1))"
  have "built ?k 2 {1} g" unfolding g_def by (rule built_grows [OF b]) (intro grows_intros)
  then obtain f where f: "asm_bind g 0 = Some f" "built ?k 2 (insert 0 {1}) f"
    using built_bind [of ?k 2 "{1}" g 0 thesis] by auto
  have c: "execve_compare p b1 0 1 = Some (cbnz_w (b_cond e1 CNe 0) 15 1)"
    unfolding execve_compare_def Let_def
    by (fold c1_def, fold c2_def, unfold d(1) option.map(2), fold e1_def, rule refl)
  have "do_execve_code p base hook jb coff soff = Some (b_off f (as_i32 (jb - (hook + of_nat (asm_offset f)))))"
    unfolding do_execve_code_def Let_def s prod.case
    by (fold b1_def, unfold c Option.bind_lunit, fold g_def, unfold f(1), simp)
  moreover have "{0..<2} = insert 0 {1 :: nat}" by auto
  ultimately show thesis using that f(2) by simp
qed

section \<open>No hook panics\<close>

text \<open>The end of every patch: give up, or return the size and the writes.\<close>

lemma bind_value:
  assumes "m \<noteq> None" and "\<And>bytes. \<exists>r. f bytes = Some r"
  shows "Option.bind m f \<noteq> None"
  using assms by (cases m) auto

text \<open>An address whose four bytes do not reach the end of the address space: the guards do not wrap for it.\<close>

definition below_top :: "u64 \<Rightarrow> bool" where
  "below_top a \<longleftrightarrow> unat a + 4 < 2 ^ 64"

lemma word_end: "below_top a \<Longrightarrow> usize_add (unat a) 4 = unat a + 4"
  by (simp add: below_top_def)

lemma splice_entry_no_panic:
  assumes "assembled (fst code) \<noteq> None" and "below_top addr"
  shows "splice_entry base addr code \<noteq> None"
  using assms by (auto simp: splice_entry_def Let_def word_end slice_def)

lemma skip_below_top:
  assumes "below_top a" and "length (pbase_buf base) < 2 ^ 63"
  obtains b where "skip_pac_bti_at_func_start base a = Some b" "below_top b"
proof (cases "unat a + 4 > length (pbase_buf base)")
  case True
  then show thesis using that assms(1) by (simp add: skip_pac_bti_at_func_start_def Let_def word_end)
next
  case False
  then have "unat (a + 4) = unat a + 4" using unat_plus_small [of a 4] assms(2) by simp
  then have "below_top (a + 4)" using False assms(2) by (simp add: below_top_def)
  then show thesis using that False assms(1) by (simp add: skip_pac_bti_at_func_start_def Let_def word_end)
qed

lemma patch_ret_no_panic: "below_top a \<Longrightarrow> patch_ret buf a out \<noteq> None"
  by (auto simp: patch_ret_def emit_patch_def entry_needs_landing_pad_def Let_def word_end)

lemma patch_audit_no_panic:
  assumes "below_top (audit_log_start h)"
  shows "patch_audit_log_start h base region check out \<noteq> None"
proof -
  let ?hook = "sr_offset region" and ?jb = "audit_log_start h + 4"
  obtain a where a: "audit_log_start_code ?hook check ?jb (audit_log_start_orig_entry_insn h) =
      Some (entry_hook_tail a ?hook ?jb)" "built [] 1 {0} a"
    by (rule audit_log_start_code_built)
  have "built [] 1 {0..<1} (fst (entry_hook_tail a ?hook ?jb))"
    using built_grows [OF a(2)] by (simp add: entry_hook_tail_def Let_def grows_intros)
  then have "splice_entry base (audit_log_start h) (entry_hook_tail a ?hook ?jb) \<noteq> None"
    using splice_entry_no_panic [OF built_assembled assms] by blast
  then show ?thesis
    by (auto simp: patch_audit_log_start_def Let_def a(1))
qed

lemma patch_filldir64_core_no_panic:
  assumes "below_top (filldir64 h)"
  shows "patch_filldir64_core h base region out \<noteq> None"
proof -
  let ?hook = "sr_offset region" and ?jb = "filldir64 h + 4"
  obtain a where a: "filldir64_core_code ?hook ?jb (pre_6_1 h) (filldir64_orig_entry_insn h) =
      Some (entry_hook_tail a ?hook ?jb)" "built [] 2 {0..<2} a"
    by (rule filldir64_core_code_built)
  have "built [] 2 {0..<2} (fst (entry_hook_tail a ?hook ?jb))"
    using built_grows [OF a(2)] by (simp add: entry_hook_tail_def Let_def grows_intros)
  then have "splice_entry base (filldir64 h) (entry_hook_tail a ?hook ?jb) \<noteq> None"
    using splice_entry_no_panic [OF built_assembled assms] by blast
  then show ?thesis
    by (auto simp: patch_filldir64_core_def Let_def a(1))
qed

lemma patch_filldir64_guide_no_panic: "patch_filldir64_root_key_guide h key region out \<noteq> None"
proof -
  have "built [] 0 {0..<0} asm_new" by (simp add: built_def asm_wf_new) (simp add: asm_new_def)
  then have "built [] 0 {0..<0} (adr asm_new 11 d)" for d by (rule built_grows) (intro grows_intros)
  then have a: "assembled (adr asm_new 11 d) \<noteq> None" for d by (rule built_assembled)
  show ?thesis
  proof (cases "sr_offset region = 0 \<or> root_key_distance key (sr_offset region) = None")
    case False
    then obtain d where d: "root_key_distance key (sr_offset region) = Some d" "sr_offset region \<noteq> 0" by auto
    show ?thesis
      unfolding patch_filldir64_root_key_guide_def Let_def if_not_P [OF d(2)] d(1) option.case
      by (rule bind_value [OF a]) simp
  qed (auto simp: patch_filldir64_root_key_guide_def Let_def)
qed

lemma ret_offsets_total: "below_top (sr_offset r) \<Longrightarrow> ret_offsets buf r \<noteq> None"
  by (auto simp: ret_offsets_def Let_def word_end)

lemma patch_avc_denied_no_panic:
  assumes "below_top (sr_offset reg)"
  shows "patch_avc_denied reg base region check out \<noteq> None"
proof -
  have a: "Option.bind (avc_denied_code hook check insn) assembled \<noteq> None" for hook insn
  proof -
    obtain a where "avc_denied_code hook check insn = Some a" "built [] 1 {0} a" by (rule avc_denied_code_built)
    then show ?thesis using built_assembled [of "[]" 1 a] by simp
  qed
  obtain rets where rets: "ret_offsets (pbase_buf base) reg = Some rets" using ret_offsets_total [OF assms] by blast
  show ?thesis
  proof (cases "sr_offset region = 0 \<or> rets = []")
    case False
    then obtain r rs where r: "rets = r # rs" "sr_offset region \<noteq> 0" by (cases rets) auto
    show ?thesis
      unfolding patch_avc_denied_def Let_def if_not_P [OF r(2)] rets r(1) Option.bind_lunit list.case
      by (rule bind_value [OF a]) simp
  qed (auto simp: patch_avc_denied_def Let_def rets)
qed

lemma patch_current_avc_check_no_panic: "patch_current_avc_check_bl_func base region off out \<noteq> None"
proof -
  have a: "Option.bind (current_avc_check_code b off) assembled \<noteq> None" for b
  proof -
    obtain a where "current_avc_check_code b off = Some a" "built [] 2 {0..<2} a"
      by (rule current_avc_check_code_built)
    then show ?thesis using built_assembled [of "[]" 2 a] by simp
  qed
  show ?thesis
  proof (cases "sr_offset region = 0")
    case False
    show ?thesis
      unfolding patch_current_avc_check_bl_func_def Let_def if_not_P [OF False]
      by (rule bind_value [OF a]) simp
  qed (simp add: patch_current_avc_check_bl_func_def)
qed

lemma patch_do_execve_no_panic:
  assumes "below_top (do_execve_addr p)"
  shows "patch_do_execve p base region coff soff out \<noteq> None"
proof -
  let ?hook = "sr_offset region" and ?jb = "do_execve_addr p + 4"
  define b where "b = (if is_huawei base then set_kti_calc_base base ?hook else base)"
  obtain c where c: "do_execve_code p b ?hook ?jb coff soff =
      Some (b_off c (as_i32 (?jb - (?hook + of_nat (asm_offset c)))))"
    "built (replicate ROOT_KEY_LEN 0 @ u32_le 0xAA0003E0) 2 {0..<2} c"
    by (rule do_execve_code_built)
  let ?code = "b_off c (as_i32 (?jb - (?hook + of_nat (asm_offset c))))"
  have "grows c ?code" by (intro grows_intros)
  then have ok: "built (replicate ROOT_KEY_LEN 0 @ u32_le 0xAA0003E0) 2 {0..<2} ?code" by (rule built_grows [OF c(2)])
  obtain bytes where bytes: "assembled ?code = Some bytes" using built_assembled [OF ok] by blast
  have long: "ROOT_KEY_LEN + 4 \<le> length bytes" if ne: "bytes \<noteq> []"
  proof -
    have "to_bytes ?code = Inr bytes"
      using bytes ne by (auto simp: assembled_def split: sum.splits asm_fault.splits)
    then have "length bytes = length (asm_buf ?code)" using resolve_fixups_frame(1) [OF to_bytes_resolved] by blast
    then show ?thesis using ok by (auto simp: built_def)
  qed
  show ?thesis
    unfolding patch_do_execve_def Let_def b_def [symmetric] c(1) Option.bind_lunit bytes word_end [OF assms]
    using long by (auto simp: slice_def)
qed

lemmas hook_values = patch_ret_no_panic patch_do_execve_no_panic patch_filldir64_guide_no_panic patch_filldir64_core_no_panic
  patch_current_avc_check_no_panic patch_avc_denied_no_panic patch_audit_no_panic

lemma bind_no_panic:
  assumes "m \<noteq> Inl PlanPanic" and "\<And>x. f x \<noteq> Inl PlanPanic"
  shows "bind_r m f \<noteq> Inl PlanPanic"
  using assms by (cases m) auto

lemma run_step_no_panic: "r \<noteq> None \<Longrightarrow> run_step r \<noteq> Inl PlanPanic"
  by (auto simp: run_step_def)

lemma consume_region_no_panic: "consume_region r n s \<noteq> Inl PlanPanic"
  by (simp add: consume_region_def)

lemma ensure_no_panic: "e \<noteq> PlanPanic \<Longrightarrow> ensure c e \<noteq> Inl PlanPanic"
  by (simp add: ensure_def)

lemma patch_pre_6_1_no_panic:
  assumes "below_top (do_execve_addr execve)" and "below_top (filldir64 filldir)" and "below_top (audit_log_start audit)"
    and "below_top (sr_offset (k_avc_denied symbols))"
  shows "patch_pre_6_1 base symbols offsets writes execve filldir audit \<noteq> Inl PlanPanic"
  unfolding patch_pre_6_1_def Let_def case_prod_unfold
  by (intro bind_no_panic consume_region_no_panic run_step_no_panic hook_values ensure_no_panic) (simp_all add: assms)

lemma patch_6_1_plus_no_panic:
  assumes "below_top (do_execve_addr execve)" and "below_top (filldir64 filldir)" and "below_top (audit_log_start audit)"
    and "below_top (sr_offset (k_avc_denied symbols))" and "below_top (sr_offset (k_drm_puts_coredump symbols))"
    and "below_top (sr_offset (k_drm_printfn_coredump symbols))"
  shows "patch_6_1_plus base symbols offsets writes execve filldir audit \<noteq> Inl PlanPanic"
  unfolding patch_6_1_plus_def Let_def case_prod_unfold
  by (intro bind_no_panic consume_region_no_panic run_step_no_panic hook_values ensure_no_panic) (simp_all add: assms)

section \<open>The constructors of the hooks\<close>

text \<open>What a constructor gives: no panic, and only hooks whose address satisfies \<open>P\<close>.\<close>

definition gives :: "('a \<Rightarrow> bool) \<Rightarrow> 'a option option \<Rightarrow> bool" where
  "gives P r \<longleftrightarrow> (case r of None \<Rightarrow> False | Some None \<Rightarrow> True | Some (Some h) \<Rightarrow> P h)"

lemma bind_new_step:
  assumes "gives P r" and "e \<noteq> PlanPanic" and "\<And>h. P h \<Longrightarrow> f h \<noteq> Inl PlanPanic"
  shows "bind_r (new_step r e) f \<noteq> Inl PlanPanic"
  using assms by (auto simp: gives_def new_step_def run_step_def ok_or_def split: option.splits)

lemma audit_hook_new_gives:
  assumes "below_top a" and "length (pbase_buf base) < 2 ^ 63"
  shows "gives (\<lambda>h. below_top (audit_log_start h)) (audit_hook_new base a)"
  by (rule skip_below_top [OF assms]) (auto simp: audit_hook_new_def Let_def word_end [OF assms(1)] gives_def)

lemma filldir_hook_new_gives:
  assumes "below_top a" and "length (pbase_buf base) < 2 ^ 63"
  shows "gives (\<lambda>h. below_top (filldir64 h)) (filldir_hook_new base a pre)"
  by (rule skip_below_top [OF assms]) (auto simp: filldir_hook_new_def Let_def word_end [OF assms(1)] gives_def)

lemma best_candidate_member:
  "best_candidate best cands = Some c \<Longrightarrow> best = Some c \<or> c \<in> set cands"
  by (induction best cands rule: best_candidate.induct) (auto split: if_splits)

lemma do_execve_new_gives:
  assumes "\<forall>c \<in> set (execve_candidates symbols version). below_top (sr_offset (fst c))"
    and "length (pbase_buf base) < 2 ^ 63"
  shows "gives (\<lambda>p. below_top (do_execve_addr p)) (do_execve_new base symbols version)"
proof (cases "best_candidate None (execve_candidates symbols version)")
  case (Some c)
  obtain region reg single where c: "c = (region, reg, single)" by (cases c)
  have "below_top (sr_offset region)" using best_candidate_member [OF Some] assms(1) by (auto simp: c)
  then show ?thesis
    by (rule skip_below_top [OF _ assms(2)]) (simp add: do_execve_new_def Some c gives_def)
qed (simp add: do_execve_new_def gives_def)

text \<open>Conversely the guard of a constructor lets an address at the very top through, and the read panics.\<close>

lemma top_address:
  assumes "\<not> below_top a" and "4 \<le> length buf" and "length buf < 2 ^ 63"
  shows "usize_add (unat a) 4 \<le> length buf \<and> rd32_at buf (unat a) = None"
proof -
  obtain i where i: "unat a = i" "i < 2 ^ 64" using unsigned_less [of a] by auto
  have w: "2 ^ 64 \<le> i + 4" using assms(1) by (simp add: below_top_def i(1))
  then have "usize_add i 4 = i + 4 - 2 ^ 64" using i(2) by (simp add: usize_add_def le_mod_geq)
  then show ?thesis using w i assms(2,3) by (simp add: rd32_at_def)
qed

lemma constructors_panic:
  assumes "\<not> below_top a" and "4 \<le> length (pbase_buf base)" and "length (pbase_buf base) < 2 ^ 63"
  shows "audit_hook_new base a = None \<and> filldir_hook_new base a pre = None \<and>
    skip_pac_bti_at_func_start base a = None"
proof -
  have "a \<noteq> 0" using assms(1) by (auto simp: below_top_def)
  then show ?thesis
    using top_address [OF assms]
    by (simp add: audit_hook_new_def filldir_hook_new_def skip_pac_bti_at_func_start_def Let_def not_less)
qed

section \<open>Properties\<close>

text \<open>The addresses of the symbols whose words the core hooks read.\<close>

definition core_addresses :: "kernel_version \<Rightarrow> kernel_symbol_offset \<Rightarrow> u64 list" where
  "core_addresses version symbols =
     map (\<lambda>c. sr_offset (fst c)) (execve_candidates symbols (triple version)) @
     [k_filldir64 symbols, k_audit_log_start symbols, sr_offset (k_avc_denied symbols),
      sr_offset (k_drm_puts_coredump symbols), sr_offset (k_drm_printfn_coredump symbols)]"

text \<open>
  (C14) The core hooks panic only on addresses at the very top. In an image of less than \<open>2 ^ 63\<close> bytes (the
  limit of a Rust slice), for any symbols whose addresses leave room for four more bytes in 64 bits, placing the hooks
  ends with a list of writes or a reported error: every label a hook uses is bound, every slot is inside its code,
  and every word and slice read is inside the image. The bound is needed: \<open>constructors_panic\<close>.\<close>

theorem patch_core_hooks_never_panic:
  assumes "length (pbase_buf base) < 2 ^ 63"
    and "\<forall>a \<in> set (core_addresses version symbols). below_top a"
  shows "patch_core_hooks version base symbols offsets writes \<noteq> Inl PlanPanic"
proof -
  have a: "\<forall>c \<in> set (execve_candidates symbols (triple version)). below_top (sr_offset (fst c))"
    "below_top (k_filldir64 symbols)" "below_top (k_audit_log_start symbols)"
    "below_top (sr_offset (k_avc_denied symbols))" "below_top (sr_offset (k_drm_puts_coredump symbols))"
    "below_top (sr_offset (k_drm_printfn_coredump symbols))"
    using assms(2) by (simp_all add: core_addresses_def)
  show ?thesis
    unfolding patch_core_hooks_def
    by (rule bind_new_step [OF do_execve_new_gives [OF a(1) assms(1)]], simp,
        rule bind_new_step [OF filldir_hook_new_gives [OF a(2) assms(1)]], simp,
        rule bind_new_step [OF audit_hook_new_gives [OF a(3) assms(1)]], simp)
      (simp add: patch_pre_6_1_no_panic patch_6_1_plus_no_panic a)
qed

text \<open>
  (C13) The \<open>audit_log_start\<close> hook. When the patch succeeds, on instruction aligned places in the first
  128 MiB of the image, it adds two writes: code that fits the region, and a branch that leads from the hooked
  instruction to that code. The code ends with the hooked instruction itself and a branch to the
  instruction behind it.\<close>

theorem patch_audit_log_start_hooks:
  assumes "patch_audit_log_start h base region check out = Some (n, out')" and "n \<noteq> 0"
    and "audit_log_start h \<noteq> 0" and "unat (audit_log_start h) + 4 < 2 ^ 27" and "unat (sr_offset region) + n < 2 ^ 27"
    and "4 dvd unat (sr_offset region)" and "4 dvd unat (audit_log_start h)"
  shows "\<exists>code wr. out' = out @ [\<lparr>pb_addr = sr_offset region, pb_bytes = code\<rparr>, wr] \<and>
    length code = n \<and> n \<le> unat (sr_size region) \<and>
    redirects wr (audit_log_start h) (sr_offset region) \<and>
    rd32_le code (n - 8) = rd32_le (pbase_buf base) (unat (audit_log_start h)) \<and>
    returns_to (sr_offset region) code (n - 4) (audit_log_start h + 4)"
proof -
  let ?hook = "sr_offset region" and ?entry = "audit_log_start h" and ?jb = "audit_log_start h + 4"
  obtain a where a: "audit_log_start_code ?hook check ?jb (audit_log_start_orig_entry_insn h) =
      Some (entry_hook_tail a ?hook ?jb)" "built [] 1 {0} a"
    by (rule audit_log_start_code_built)
  have h: "?hook \<noteq> 0" using assms(1,2) by (auto simp: patch_audit_log_start_def)
  obtain code where code: "splice_entry base ?entry (entry_hook_tail a ?hook ?jb) = Some code" "code \<noteq> []"
    "length code \<le> unat (sr_size region)" "n = length code"
    "out' = snd (patch_jump ?entry ?hook (out @ [\<lparr>pb_addr = ?hook, pb_bytes = code\<rparr>]))"
    using assms(1,2) h unfolding patch_audit_log_start_def Let_def if_not_P [OF h] a(1) Option.bind_lunit
    by (auto split: if_splits bind_splits)
  have jb: "unat ?jb = unat ?entry + 4" using unat_plus_small [of ?entry 4] assms(4) by simp
  have s: "length code = asm_offset a + 8" "rd32_le code (asm_offset a) = rd32_le (pbase_buf base) (unat ?entry)"
    "returns_to ?hook code (asm_offset a + 4) ?jb"
    using splice_entry_Some [OF code(1,2)] a(2) assms(4,5) jb code(4) by (simp_all add: built_def)
  obtain wr where wr: "patch_jump ?entry ?hook (out @ [\<lparr>pb_addr = ?hook, pb_bytes = code\<rparr>]) =
      (4, (out @ [\<lparr>pb_addr = ?hook, pb_bytes = code\<rparr>]) @ [wr])" "redirects wr ?entry ?hook"
    using redirects_near [of ?entry ?hook "out @ [\<lparr>pb_addr = ?hook, pb_bytes = code\<rparr>]"] assms(3-7) by auto
  then show ?thesis
    using s code by (intro exI [of _ code] exI [of _ wr]) (simp add: add.commute)
qed

lemma ret_offsets_region:
  assumes "unat (sr_offset r) + unat (sr_size r) < 2 ^ 27"
  shows "ret_offsets buf r \<noteq> None \<and> set (the (ret_offsets buf r)) = {of_nat off |off. \<exists>k. off = unat (sr_offset r) + 4 * k \<and> region_valid r \<and>
    off + 4 \<le> unat (sr_offset r) + unat (sr_size r) \<and> off + 4 \<le> length buf \<and> closes_function (rd32_le buf off)}"
proof (cases "region_valid r")
  case True
  let ?o = "unat (sr_offset r)" and ?e = "min (unat (sr_offset r) + unat (sr_size r)) (length buf)"
  have e: "unat (sr_offset r + sr_size r) = ?o + unat (sr_size r)"
    using assms by (subst unat_add_lem [THEN iffD1]) simp_all
  have k: "k < (?e - ?o) div 4 \<longleftrightarrow> ?o + 4 * k + 4 \<le> ?o + unat (sr_size r) \<and> ?o + 4 * k + 4 \<le> length buf" for k
    by linarith
  show ?thesis
    unfolding ret_offsets_def Let_def e using True assms by (auto simp: k)
qed (simp add: ret_offsets_def)

text \<open>
  (C12) The \<open>avc_denied\<close> hook. When the patch succeeds (on aligned regions in the first 128 MiB), it adds code that
  fits its region and then exactly one branch for every return instruction of \<open>avc_denied\<close>, each leading
  to that code: no return of the function is left unhooked and nothing else of it is touched.\<close>

theorem patch_avc_denied_hooks_every_return:
  assumes "patch_avc_denied reg base region check out = Some (n, out')" and "n \<noteq> 0"
    and "unat (sr_offset reg) + unat (sr_size reg) < 2 ^ 27" and "unat (sr_offset region) < 2 ^ 27"
    and "4 dvd unat (sr_offset reg)" and "4 dvd unat (sr_offset region)"
  shows "\<exists>code wrs. out' = out @ \<lparr>pb_addr = sr_offset region, pb_bytes = code\<rparr> # wrs \<and>
    length code = n \<and> n \<le> unat (sr_size region) \<and>
    (\<forall>wr \<in> set wrs. redirects wr (pb_addr wr) (sr_offset region)) \<and>
    pb_addr ` set wrs = {of_nat off |off. \<exists>k. off = unat (sr_offset reg) + 4 * k \<and>
      off + 4 \<le> unat (sr_offset reg) + unat (sr_size reg) \<and> off + 4 \<le> length (pbase_buf base) \<and>
      closes_function (rd32_le (pbase_buf base) off)}"
proof -
  let ?hook = "sr_offset region"
  obtain R where some: "ret_offsets (pbase_buf base) reg = Some R" using ret_offsets_region [OF assms(3)] by fast
  note rets = ret_offsets_region [OF assms(3), of "pbase_buf base", THEN conjunct2, unfolded some option.sel]
  have h: "?hook \<noteq> 0" using assms(1,2) by (auto simp: patch_avc_denied_def)
  have ne: "R \<noteq> []" using assms(1,2) h some by (auto simp: patch_avc_denied_def Let_def)
  then obtain r rs where r: "R = r # rs" by (cases R) auto
  have v: "region_valid reg" using some ne by (auto simp: ret_offsets_def split: if_splits)
  obtain code where code: "length code = n" "n \<le> unat (sr_size region)"
    "out' = patch_jumps R ?hook (out @ [\<lparr>pb_addr = ?hook, pb_bytes = code\<rparr>])"
    using assms(1,2) unfolding patch_avc_denied_def Let_def if_not_P [OF h] some Option.bind_lunit r list.case
    by (auto split: if_splits bind_splits)
  have small: "p \<noteq> 0 \<and> unat p < 2 ^ 27 \<and> 4 dvd unat p" if "p \<in> set R" for p
  proof -
    obtain k where k: "p = of_nat (unat (sr_offset reg) + 4 * k)"
      "unat (sr_offset reg) + 4 * k + 4 \<le> unat (sr_offset reg) + unat (sr_size reg)"
      using \<open>p \<in> _\<close> unfolding rets by blast
    have "unat p = unat (sr_offset reg) + 4 * k"
      unfolding k(1) unat_of_nat using k(2) assms(3) by (intro mod_less) simp
    moreover have "unat (sr_offset reg) \<noteq> 0" using v by (simp add: region_valid_def unat_eq_0)
    ultimately show ?thesis using k(2) assms(3,5) by (auto simp: unat_eq_0)
  qed
  obtain wrs where wrs: "out' = (out @ [\<lparr>pb_addr = ?hook, pb_bytes = code\<rparr>]) @ wrs"
    "list_all2 (\<lambda>p wr. redirects wr p ?hook) R wrs"
    using patch_jumps_near [of R ?hook] small assms(4,6) code(3) by metis
  have "list_all2 (\<lambda>p wr. p = pb_addr wr) R wrs"
    by (rule list_all2_mono [OF wrs(2)]) (simp add: redirects_def)
  then have addrs: "R = map pb_addr wrs"
    by (simp add: list_all2_conv_all_nth nth_equalityI)
  have "\<forall>wr \<in> set wrs. redirects wr (pb_addr wr) ?hook"
    using wrs(2) unfolding addrs by (auto simp: list_all2_conv_all_nth in_set_conv_nth)
  moreover have "pb_addr ` set wrs = set R" unfolding addrs by simp
  ultimately show ?thesis
    using code(1,2) wrs(1) v unfolding rets
    by (intro exI [of _ code] exI [of _ wrs]) simp
qed

lemma patch_do_execve_refuses:
  "is_already_patched p base \<or> sr_offset region = 0 \<Longrightarrow> patch_do_execve p base region coff soff out = Some (0, base, out)"
  by (auto simp: patch_do_execve_def Let_def)

lemma patch_do_execve_writes:
  assumes "patch_do_execve p base region coff soff out = Some (n, base', out')" and "n \<noteq> 0"
    and "do_execve_addr p \<noteq> 0" and "unat (do_execve_addr p) + 4 < 2 ^ 27" and "unat (sr_offset region) + n < 2 ^ 27"
    and "4 dvd unat (sr_offset region)" and "4 dvd unat (do_execve_addr p)"
  obtains code wr where "out' = out @ [\<lparr>pb_addr = sr_offset region, pb_bytes = code\<rparr>, wr]"
    "length code = n" "n \<le> unat (sr_size region)" "56 \<le> n" "take 48 code = replicate 48 0"
    "rd32_le code 48 = rd32_le (pbase_buf base) (unat (do_execve_addr p))"
    "redirects wr (do_execve_addr p) (sr_offset region + 48)"
    "returns_to (sr_offset region) code (n - 4) (do_execve_addr p + 4)"
    "unat (do_execve_addr p) + 4 \<le> length (pbase_buf base)"
proof -
  let ?hook = "sr_offset region" and ?jb = "do_execve_addr p + 4" and ?e = "unat (do_execve_addr p)"
  let ?orig = "window (pbase_buf base) ?e (?e + 4)"
  define b where "b = (if is_huawei base then set_kti_calc_base base ?hook else base)"
  have buf: "pbase_buf b = pbase_buf base" by (simp add: b_def set_kti_calc_base_def)
  obtain c where c: "do_execve_code p b ?hook ?jb coff soff =
      Some (b_off c (as_i32 (?jb - (?hook + of_nat (asm_offset c)))))"
    "built (replicate ROOT_KEY_LEN 0 @ u32_le 0xAA0003E0) 2 {0..<2} c"
    by (rule do_execve_code_built)
  let ?code = "b_off c (as_i32 (?jb - (?hook + of_nat (asm_offset c))))"
  have ne: "\<not> is_already_patched p base" "?hook \<noteq> 0" using assms(1,2) patch_do_execve_refuses [of p base region] by auto
  obtain raw where raw: "assembled ?code = Some raw" "raw \<noteq> []" "?e + 4 \<le> length (pbase_buf base)"
    "ROOT_KEY_LEN + 4 \<le> length raw" "length (write_at raw ROOT_KEY_LEN ?orig) \<le> unat (sr_size region)"
    "n = length (write_at raw ROOT_KEY_LEN ?orig)"
    "out' = snd (patch_jump (do_execve_addr p) (?hook + of_nat ROOT_KEY_LEN)
      (out @ [\<lparr>pb_addr = ?hook, pb_bytes = write_at raw ROOT_KEY_LEN ?orig\<rparr>]))"
    using assms(1,2) unfolding patch_do_execve_def Let_def b_def [symmetric] c(1) Option.bind_lunit
      if_not_P [OF ne(1)] if_not_P [OF ne(2)] buf
    by (auto split: if_splits bind_splits dest: slice_word_end)
  have tb: "to_bytes ?code = Inr raw" using raw(1,2) by (rule assembled_nonempty)
  have len: "length ?orig = 4" using raw(3) by simp
  have n: "n = length raw" using raw(4,6) len by simp
  have jb: "unat ?jb = ?e + 4" using unat_plus_small [of "do_execve_addr p" 4] assms(4) by simp
  have rawlen: "length raw = length (asm_buf c) + 4"
    using resolve_fixups_frame(1) [OF to_bytes_resolved [OF tb]] by (simp add: b_off_def split: sum.splits)
  have wf: "asm_wf c" using c(2) by (simp add: built_def)
  have ret: "returns_to ?hook raw (n - 4) ?jb"
    using branch_back [OF wf tb _ refl refl, of "[]"] rawlen assms(5) jb assms(4) n
    by (simp add: b_off.keeps_fixups)
  have long: "52 \<le> length (asm_buf c)" using c(2) by (auto simp: built_def ROOT_KEY_LEN_def)
  have head: "raw ! i = 0" if "i < 48" for i
  proof -
    have "raw ! i = asm_buf ?code ! i"
      using that long c(2) by (intro resolve_fixups_frame(2) [OF to_bytes_resolved [OF tb]])
        (auto simp: built_def b_off.keeps_fixups ROOT_KEY_LEN_def rawlen b_off_def split: sum.splits)
    also have "\<dots> = asm_buf c ! i" using that long by (simp add: b_off.keeps_code)
    also have "\<dots> = 0" using that c(2) by (auto simp: built_def ROOT_KEY_LEN_def nth_append)
    finally show ?thesis .
  qed
  define code where "code = write_at raw 48 ?orig"
  have k: "ROOT_KEY_LEN = 48" by (simp add: ROOT_KEY_LEN_def)
  have lc: "length code = n" using raw(6) by (simp add: code_def k)
  have hook48: "unat (?hook + 48) = unat ?hook + 48"
    using unat_plus_small [of ?hook 48] assms(5) by simp
  have n56: "56 \<le> n" using long rawlen n by simp
  have entry_ok: "4 dvd unat (?hook + 48)" "unat (?hook + 48) < 2 ^ 27"
    using assms(5,6) n56 by (simp_all add: hook48)
  have "unat (do_execve_addr p) < 2 ^ 27" using assms(4) by simp
  then obtain wr where wr: "patch_jump (do_execve_addr p) (?hook + 48) (out @ [\<lparr>pb_addr = ?hook, pb_bytes = code\<rparr>]) =
      (4, (out @ [\<lparr>pb_addr = ?hook, pb_bytes = code\<rparr>]) @ [wr])" "redirects wr (do_execve_addr p) (?hook + 48)"
    using redirects_near [of "do_execve_addr p" "?hook + 48" "out @ [\<lparr>pb_addr = ?hook, pb_bytes = code\<rparr>]"]
      assms(3,7) entry_ok by blast
  have out': "out' = out @ [\<lparr>pb_addr = ?hook, pb_bytes = code\<rparr>, wr]"
    using raw(7) wr(1) by (simp add: k code_def)
  have "take 48 code = replicate 48 0"
  proof (rule nth_equalityI)
    show "length (take 48 code) = length (replicate 48 (0 :: byte))" using lc n56 by simp
    fix i assume "i < length (take 48 code)"
    then have "i < 48" by simp
    then show "take 48 code ! i = replicate 48 0 ! i"
      using head [of i] raw(4) len k by (simp add: code_def nth_write_at)
  qed
  moreover have "rd32_le code 48 = rd32_le (pbase_buf base) ?e"
    unfolding code_def using raw(3,4) k by (intro rd32_le_spliced) simp_all
  moreover have "returns_to ?hook code (n - 4) ?jb"
    unfolding code_def using ret len n56 by (intro returns_to_write) simp_all
  moreover have "n \<le> unat (sr_size region)" using raw(5,6) by simp
  ultimately show thesis using that [OF out' lc] n56 wr(2) raw(3) by blast
qed

text \<open>
  (C10) The root hook. When the patch succeeds (on aligned places in the first 128 MiB) it adds two writes: code
  that fits the region, starts with the empty 48-byte key slot, continues with the hooked instruction and
  ends with a branch behind the hooked instruction; and a branch at the hooked instruction to the place
  behind the key slot.\<close>

theorem patch_do_execve_hooks:
  assumes "patch_do_execve p base region coff soff out = Some (n, base', out')" and "n \<noteq> 0"
    and "do_execve_addr p \<noteq> 0" and "unat (do_execve_addr p) + 4 < 2 ^ 27" and "unat (sr_offset region) + n < 2 ^ 27"
    and "4 dvd unat (sr_offset region)" and "4 dvd unat (do_execve_addr p)"
  shows "\<exists>code wr. out' = out @ [\<lparr>pb_addr = sr_offset region, pb_bytes = code\<rparr>, wr] \<and>
    length code = n \<and> n \<le> unat (sr_size region) \<and> take 48 code = replicate 48 0 \<and>
    rd32_le code 48 = rd32_le (pbase_buf base) (unat (do_execve_addr p)) \<and>
    redirects wr (do_execve_addr p) (sr_offset region + 48) \<and>
    returns_to (sr_offset region) code (n - 4) (do_execve_addr p + 4)"
  using patch_do_execve_writes [OF assms] by metis

section \<open>A second pass\<close>

lemma already_patched_slot:
  assumes "rd32_le buf (unat (do_execve_addr p)) = b" and "is_b b"
    and "int (unat (do_execve_addr p)) + branch_b_displacement b = int (h + 48)"
    and "unat (do_execve_addr p) + 4 \<le> length buf" and "h + 52 \<le> length buf" and "h < 2 ^ 27"
    and "is_root_key_slot (window buf h (h + 48))"
  shows "is_already_patched p (base\<lparr>pbase_buf := buf\<rparr>)"
proof -
  have pb: "pbase_buf (base\<lparr>pbase_buf := buf\<rparr>) = buf" by simp
  obtain T where T: "h + 48 = T" by blast
  have target: "int (unat (do_execve_addr p)) + branch_b_displacement b = int T" using assms(3) unfolding T .
  have "\<not> length buf < unat (do_execve_addr p) + 4" "\<not> length buf < T + 4" "\<not> T < ROOT_KEY_LEN"
    "T < 2 ^ 64" "T - ROOT_KEY_LEN = h"
    using assms(4-6) T by (simp_all add: ROOT_KEY_LEN_def)
  moreover have "int T < 2 ^ 64" using \<open>T < 2 ^ 64\<close> by simp
  ultimately show ?thesis
    unfolding is_already_patched_def Let_def pb assms(1) target nat_int
    using assms(7) by (simp add: assms(2) T)
qed

text \<open>
  (C11) A second pass is refused. Once the writes of the root hook are in the kernel (the region being inside it and
  apart from the hooked instruction), and also once any generated root key has been stored in the slot as
  \<open>patch_boot\<close> does before it repacks the image, \<open>is_already_patched\<close> recognises the entry branch and the
  key slot, and patching again, into any region, emits nothing. Both the writes and the key are accepted.\<close>

theorem patch_do_execve_once:
  assumes "patch_do_execve p base region coff soff [] = Some (n, base', ws)" and "n \<noteq> 0"
    and "do_execve_addr p \<noteq> 0" and "unat (do_execve_addr p) + 4 < 2 ^ 27" and "unat (sr_offset region) + n < 2 ^ 27"
    and "4 dvd unat (sr_offset region)" and "4 dvd unat (do_execve_addr p)"
    and "unat (sr_offset region) + n \<le> length (pbase_buf base)" and "length (pbase_buf base) < 2 ^ 63"
    and "unat (do_execve_addr p) + 4 \<le> unat (sr_offset region) \<or> unat (sr_offset region) + n \<le> unat (do_execve_addr p)"
    and "generate_root_key [] fills = Some (Inr key)"
  shows "\<exists>patched finalized. apply_kernel_writes (pbase_buf base) ws = Inr patched \<and>
    write_root_key patched (sr_offset region) key = Inr finalized \<and>
    (\<forall>kimg \<in> {patched, finalized}. is_already_patched p (base\<lparr>pbase_buf := kimg\<rparr>) \<and>
      patch_do_execve p (base\<lparr>pbase_buf := kimg\<rparr>) region2 coff2 soff2 out = Some (0, base\<lparr>pbase_buf := kimg\<rparr>, out))"
proof -
  let ?h = "unat (sr_offset region)" and ?e = "unat (do_execve_addr p)"
  obtain code wr where w: "ws = [\<lparr>pb_addr = sr_offset region, pb_bytes = code\<rparr>, wr]" "length code = n" "56 \<le> n"
    "take 48 code = replicate 48 0" "redirects wr (do_execve_addr p) (sr_offset region + 48)"
    "?e + 4 \<le> length (pbase_buf base)"
    using patch_do_execve_writes [OF assms(1-7)] by (metis append_Nil)
  obtain b where b: "pb_addr wr = do_execve_addr p" "pb_bytes wr = u32_le b" "is_b b"
    "int ?e + branch_b_displacement b = int (unat (sr_offset region + 48))"
    using w(5) by (auto simp: redirects_def)
  have t: "unat (sr_offset region + 48) = ?h + 48" using unat_plus_small [of "sr_offset region" 48] assms(5) by simp
  define buf1 where "buf1 = write_at (pbase_buf base) ?h code"
  define buf2 where "buf2 = write_at buf1 ?e (u32_le b)"
  define slot where "slot = write_at (replicate ROOT_KEY_LEN 0) 0 key"
  define buf3 where "buf3 = write_at buf2 ?h slot"
  have key: "length key = ROOT_KEY_STORED_TEXT_LEN" "\<forall>b \<in> set key. ascii_alphanumeric b"
    using generate_root_key_text [OF assms(11)] by (simp_all add: key_text_def)
  have slot: "length slot = 48" "is_root_key_slot slot"
    using stored_key_slot [OF key] by (simp_all add: slot_def ROOT_KEY_LEN_def)
  have l: "length buf1 = length (pbase_buf base)" "length buf2 = length (pbase_buf base)"
    "length buf3 = length (pbase_buf base)"
    using assms(8) w(2,3,6) slot(1) by (simp_all add: buf1_def buf2_def buf3_def)
  have a1: "apply_kernel_writes (pbase_buf base) ws = Inr buf2"
    using w(1,2,6) assms(8,9) l(1) by (simp add: apply_write_fits apply_patch_def b buf1_def buf2_def)
  have a2: "write_root_key buf2 (sr_offset region) key = Inr buf3"
    using w(3) assms(8,9) slot(1) l(2) key(1)
    by (simp add: write_root_key_def Let_def slot_def [symmetric] apply_write_fits apply_patch_def buf3_def)
  have word: "rd32_le buf2 ?e = b"
    unfolding buf2_def using w(6) l by (intro rd32_le_write_at_same) simp
  have word3: "rd32_le buf3 ?e = b"
    unfolding buf3_def word [symmetric] using w(3,6) l assms(8,10) slot(1) by (intro rd32_le_write_other) auto
  have "window buf2 ?h (?h + 48) = window buf1 ?h (?h + 48)"
    unfolding buf2_def using w(3,6) l assms(8,10) by (intro window_write_at_other) auto
  also have "\<dots> = take 48 (window buf1 ?h (?h + length code))"
    using w(2,3) by (simp add: window_def min_def)
  also have "window buf1 ?h (?h + length code) = code"
    unfolding buf1_def using w(2) assms(8) by (intro window_write_at_same) simp
  finally have empty: "is_root_key_slot (window buf2 ?h (?h + 48))" using w(4) by (simp add: is_root_key_slot_def)
  have "window buf3 ?h (?h + length slot) = slot"
    unfolding buf3_def using slot(1) w(3) l assms(8) by (intro window_write_at_same) simp
  then have stored: "is_root_key_slot (window buf3 ?h (?h + 48))" using slot by simp
  have target: "int ?e + branch_b_displacement b = int (?h + 48)" using b(4) unfolding t .
  have "is_already_patched p (base\<lparr>pbase_buf := kimg\<rparr>)" if "kimg \<in> {buf2, buf3}" for kimg
    by (rule already_patched_slot [where b = b and h = ?h])
      (use that word word3 b(3) target w(3,6) l assms(5,8) empty stored in auto)
  then show ?thesis
    by (intro exI [of _ buf2] exI [of _ buf3] conjI a1 a2 ballI)
      (simp_all add: patch_do_execve_def Let_def)
qed

end
