(* ===== verification/Hook_Sample.thy ===== *)
theory Hook_Sample
  imports Hook_Props
begin

text \<open>A small kernel image whose hooks are assembled step by step: the witnesses of the hook properties.\<close>

lemma asm_word_step: "asm_word \<lparr>asm_buf = b, asm_labels = l, asm_fixups = f, asm_err = e\<rparr> w =
    \<lparr>asm_buf = b @ u32_le w, asm_labels = l, asm_fixups = f, asm_err = e\<rparr>"
  by (simp add: asm_word_def)

lemma asm_offset_step: "asm_offset \<lparr>asm_buf = b, asm_labels = l, asm_fixups = f, asm_err = e\<rparr> = length b"
  by (simp add: asm_offset_def)

lemma push_fixup_step: "push_fixup \<lparr>asm_buf = b, asm_labels = l, asm_fixups = f, asm_err = e\<rparr> n k =
    \<lparr>asm_buf = b @ u32_le 0, asm_labels = l, asm_fixups = f @ [\<lparr>fx_pos = length b, fx_label = n, fx_kind = k\<rparr>],
      asm_err = e\<rparr>"
  by (simp add: push_fixup_def asm_word_def)

lemma asm_bind_step: "n < length l \<Longrightarrow> asm_bind \<lparr>asm_buf = b, asm_labels = l, asm_fixups = f, asm_err = e\<rparr> n =
    Some \<lparr>asm_buf = b, asm_labels = l[n := Some (length b)], asm_fixups = f, asm_err = e\<rparr>"
  by (simp add: asm_bind_def)

lemma new_label_step: "new_label \<lparr>asm_buf = b, asm_labels = l, asm_fixups = f, asm_err = e\<rparr> =
    (length l, \<lparr>asm_buf = b, asm_labels = l @ [None], asm_fixups = f, asm_err = e\<rparr>)"
  by (simp add: new_label_def)

lemmas assemble = asm_new_def new_label_step asm_bind_step b_cond_def cbz_x_def cbnz_w_def push_fixup_step asm_defs
  asm_word_step asm_offset_step emit_safe_bl_def emit_ret_by_entry_insn_def Let_def b_off_def bl_off_def
  encode_branch26_def encode_branch26_rel_def as_i32_def insn_defs insn_is_def
  u32_imm9_def u32_imm7_scaled8_def SP_def ZR_def CANARY_BYPASS_SIZE_def

definition sample_kernel :: "byte list" where
  "sample_kernel = replicate 4 0 @ u32_le 0xD65F03C0 @ replicate 312 0"

definition sample_base :: patch_base where
  "sample_base = \<lparr>pbase_buf = sample_kernel,
     pbase_init_cred = \<lparr>ic_head = [], atomic_usage_size = 8, securebits_size = 8, cap_cnt = 4, cap_ability_max = 0,
       ic_offset = 0\<rparr>,
     huawei_kti = None, pbase_current_mode = SpEl0IsTask, kti_calc_base = 0\<rparr>"

definition sample_region :: symbol_region where
  "sample_region = \<lparr>sr_offset = 64, sr_size = 256\<rparr>"

lemma length_sample_kernel: "length sample_kernel = 320"
  by (simp add: sample_kernel_def)

lemma slice_sample_kernel: "slice sample_kernel 4 8 = Some (window sample_kernel 4 8)"
  by (simp add: slice_Some_iff length_sample_kernel)

lemma resolved_all:
  assumes "asm_err a = None"
    and "\<forall>f \<in> set (asm_fixups a). fx_pos f + 4 \<le> length (asm_buf a) \<and> fx_label f < length (asm_labels a) \<and>
      asm_labels a ! fx_label f \<noteq> None"
    and "\<forall>f \<in> set (asm_fixups a). encodable (fx_kind f) (int (the (asm_labels a ! fx_label f)) - int (fx_pos f))"
  obtains bs where "to_bytes a = Inr bs" "length bs = length (asm_buf a)"
proof -
  obtain bs where "resolve_fixups (asm_labels a) (asm_fixups a) (asm_buf a) = Inr bs"
    using resolve_fixups_total [OF assms(2)] assms(3) by blast
  then show thesis using that resolve_fixups_frame(1) assms(1) by (simp add: to_bytes_def)
qed

definition sample_audit :: audit_hook where
  "sample_audit = \<lparr>audit_log_start = 4, audit_log_start_orig_entry_insn = 0xD65F03C0\<rparr>"

lemma sample_audit_patch: "\<exists>ws. patch_audit_log_start sample_audit sample_base sample_region 16 [] = Some (40, ws)"
proof -
  obtain a where a: "audit_log_start_code 64 16 8 0xD65F03C0 = Some (a, 32)" "length (asm_buf a) = 40"
    "asm_err a = None" "asm_fixups a = [\<lparr>fx_pos = 20, fx_label = 0, fx_kind = FixCb True False 10\<rparr>]"
    "asm_labels a = [Some 32]"
    by (simp add: audit_log_start_code_def entry_hook_tail_def assemble)
  obtain bs where bs: "to_bytes a = Inr bs" "length bs = 40"
    by (rule resolved_all [of a]) (use a in auto)
  then have "bs \<noteq> []" by auto
  with bs show ?thesis
    by (simp add: patch_audit_log_start_def Let_def sample_audit_def sample_region_def a(1) splice_entry_def
        assembled_def sample_base_def length_sample_kernel slice_sample_kernel write_at_def)
qed

theorem patch_audit_log_start_hooks_witness:
  "\<exists>code wr. patch_audit_log_start sample_audit sample_base sample_region 16 [] =
      Some (40, [\<lparr>pb_addr = 64, pb_bytes = code\<rparr>, wr]) \<and>
    redirects wr 4 64 \<and> returns_to 64 code 36 8 \<and> rd32_le code 32 = 0xD65F03C0"
proof -
  obtain ws where ws: "patch_audit_log_start sample_audit sample_base sample_region 16 [] = Some (40, ws)"
    using sample_audit_patch by blast
  have "rd32_le sample_kernel 4 = 0xD65F03C0"
    by (simp add: sample_kernel_def rd32_le_def u32_le_def nth_append u32_of_le_def)
  then show ?thesis
    using patch_audit_log_start_hooks [OF ws] unfolding ws
    by (simp add: sample_audit_def sample_region_def sample_base_def) blast
qed

lemma sample_avc_patch: "\<exists>ws. patch_avc_denied \<lparr>sr_offset = 4, sr_size = 4\<rparr> sample_base sample_region 16 [] = Some (32, ws)"
proof -
  obtain a where a: "avc_denied_code 64 16 0xD65F03C0 = Some a" "length (asm_buf a) = 32"
    "asm_err a = None" "asm_fixups a = [\<lparr>fx_pos = 20, fx_label = 0, fx_kind = FixCb True False 10\<rparr>]"
    "asm_labels a = [Some 28]"
    by (simp add: avc_denied_code_def assemble)
  obtain bs where bs: "to_bytes a = Inr bs" "length bs = 32"
    by (rule resolved_all [of a]) (use a in auto)
  have r: "rd32_le sample_kernel 4 = 0xD65F03C0"
    by (simp add: sample_kernel_def rd32_le_def u32_le_def nth_append u32_of_le_def)
  have "closes_function 0xD65F03C0" by (simp add: closes_function_def insn_defs insn_is_def)
  then have rets: "ret_offsets sample_kernel \<lparr>sr_offset = 4, sr_size = 4\<rparr> = Some [4]"
    by (simp add: ret_offsets_def region_valid_def length_sample_kernel r Let_def)
  have "bs \<noteq> []" using bs by auto
  with bs show ?thesis
    by (simp add: patch_avc_denied_def Let_def sample_region_def a(1) assembled_def sample_base_def rets r)
qed

theorem patch_avc_denied_hooks_every_return_witness:
  "\<exists>code wrs. patch_avc_denied \<lparr>sr_offset = 4, sr_size = 4\<rparr> sample_base sample_region 16 [] =
      Some (32, \<lparr>pb_addr = 64, pb_bytes = code\<rparr> # wrs) \<and> (\<forall>wr \<in> set wrs. redirects wr (pb_addr wr) 64)"
proof -
  obtain ws where ws: "patch_avc_denied \<lparr>sr_offset = 4, sr_size = 4\<rparr> sample_base sample_region 16 [] = Some (32, ws)"
    using sample_avc_patch by blast
  show ?thesis
    using patch_avc_denied_hooks_every_return [OF ws] ws by (auto simp: sample_region_def sample_base_def)
qed

lemma sample_moves:
  "mov_imm_x_asmjit a 11 (- 4095) = asm_word a (encode_mov_sequence64 (- 4095) 11 True ! 0)"
  "mov_imm_x_asmjit a 13 0 = asm_word a (encode_mov_sequence64 0 13 True ! 0)"
  "mov_imm_x_asmjit a 15 0x800 = asm_word a (encode_mov_sequence64 0x800 15 True ! 0)"
proof -
  have "length (encode_mov_sequence64 (- 4095) 11 True) = 1" "length (encode_mov_sequence64 0 13 True) = 1"
    "length (encode_mov_sequence64 0x800 15 True) = 1" by code_simp+
  then show "mov_imm_x_asmjit a 11 (- 4095) = asm_word a (encode_mov_sequence64 (- 4095) 11 True ! 0)"
    "mov_imm_x_asmjit a 13 0 = asm_word a (encode_mov_sequence64 0 13 True ! 0)"
    "mov_imm_x_asmjit a 15 0x800 = asm_word a (encode_mov_sequence64 0x800 15 True ! 0)"
    by (simp_all add: mov_imm_x_asmjit_def SP_def)
qed

definition sample_execve :: execve_param where
  "sample_execve = \<lparr>do_execve_addr = 4, filename_reg = 1, is_single_char_ptr = False\<rparr>"

lemma asm_embed_step: "asm_embed \<lparr>asm_buf = b, asm_labels = l, asm_fixups = f, asm_err = e\<rparr> bs =
    \<lparr>asm_buf = b @ bs, asm_labels = l, asm_fixups = f, asm_err = e\<rparr>"
  by (simp add: asm_embed_def)

lemma four_times: "(f ^^ 4) x = f (f (f (f x)))"
  by (simp add: numeral_eq_Suc)

lemma sample_execve_code:
  obtains a where "do_execve_code sample_execve sample_base 64 8 0x100 0x200 = Some a"
    "asm_err a = None" "asm_labels a = [Some 156, Some 72]" "length (asm_buf a) = 160"
    "asm_fixups a = [\<lparr>fx_pos = 60, fx_label = 0, fx_kind = FixBcond CCs\<rparr>,
      \<lparr>fx_pos = 84, fx_label = 0, fx_kind = FixBcond CNe\<rparr>, \<lparr>fx_pos = 88, fx_label = 1, fx_kind = FixCb False True 15\<rparr>]"
proof -
  obtain w1 where w1: "\<And>a. mov_imm_x_asmjit a 11 (- 4095) = asm_word a w1" by (rule that) (rule sample_moves)
  obtain w2 where w2: "\<And>a. mov_imm_x_asmjit a 13 0 = asm_word a w2" by (rule that) (rule sample_moves)
  obtain w3 where w3: "\<And>a. mov_imm_x_asmjit a 15 0x800 = asm_word a w3" by (rule that) (rule sample_moves)
  have "\<exists>a. do_execve_code sample_execve sample_base 64 8 0x100 0x200 = Some a \<and>
    asm_err a = None \<and> asm_labels a = [Some 156, Some 72] \<and> length (asm_buf a) = 160 \<and>
    asm_fixups a = [\<lparr>fx_pos = 60, fx_label = 0, fx_kind = FixBcond CCs\<rparr>,
      \<lparr>fx_pos = 84, fx_label = 0, fx_kind = FixBcond CNe\<rparr>, \<lparr>fx_pos = 88, fx_label = 1, fx_kind = FixCb False True 15\<rparr>]"
    by (simp add: do_execve_code_def execve_compare_def execve_grant_def execve_seccomp_def
      emit_get_current_def emit_huawei_kti_add_def sample_execve_def sample_base_def asm_embed_step adr_def
      w1 w2 w3 MAX_ERRNO_def TIF_SECCOMP_def ROOT_KEY_LEN_def four_times
      assemble)
  then show thesis using that by blast
qed

lemma sample_word: "rd32_le sample_kernel 4 = 0xD65F03C0"
  by (simp add: sample_kernel_def rd32_le_def u32_le_def nth_append u32_of_le_def)

lemma sample_execve_patch:
  "\<exists>ws. patch_do_execve sample_execve sample_base sample_region 0x100 0x200 [] = Some (160, sample_base, ws)"
proof -
  obtain a where a: "do_execve_code sample_execve sample_base 64 8 0x100 0x200 = Some a"
    "asm_err a = None" "asm_labels a = [Some 156, Some 72]" "length (asm_buf a) = 160"
    "asm_fixups a = [\<lparr>fx_pos = 60, fx_label = 0, fx_kind = FixBcond CCs\<rparr>,
      \<lparr>fx_pos = 84, fx_label = 0, fx_kind = FixBcond CNe\<rparr>, \<lparr>fx_pos = 88, fx_label = 1, fx_kind = FixCb False True 15\<rparr>]"
    by (rule sample_execve_code)
  obtain bs where bs: "to_bytes a = Inr bs" "length bs = 160"
    by (rule resolved_all [of a]) (use a in auto)
  have n: "\<not> is_already_patched sample_execve sample_base"
    by (simp add: is_already_patched_def Let_def sample_execve_def sample_base_def sample_word insn_defs insn_is_def)
  have p: "do_execve_addr sample_execve = 4" "pbase_buf sample_base = sample_kernel" "\<not> is_huawei sample_base"
    by (simp_all add: sample_execve_def sample_base_def is_huawei_def)
  have "bs \<noteq> []" using bs by auto
  with bs show ?thesis
    by (simp add: patch_do_execve_def Let_def n sample_region_def a(1) p assembled_def length_sample_kernel
        ROOT_KEY_LEN_def slice_sample_kernel)
qed

theorem patch_do_execve_hooks_witness:
  "\<exists>code wr. patch_do_execve sample_execve sample_base sample_region 0x100 0x200 [] =
      Some (160, sample_base, [\<lparr>pb_addr = 64, pb_bytes = code\<rparr>, wr]) \<and>
    take 48 code = replicate 48 0 \<and> rd32_le code 48 = 0xD65F03C0 \<and> redirects wr 4 112 \<and> returns_to 64 code 156 8"
proof -
  obtain ws where ws: "patch_do_execve sample_execve sample_base sample_region 0x100 0x200 [] = Some (160, sample_base, ws)"
    using sample_execve_patch by blast
  show ?thesis
    using patch_do_execve_hooks [OF ws] unfolding ws
    by (simp add: sample_execve_def sample_region_def sample_base_def sample_word) blast
qed

text \<open>The key drawn from zero bytes.\<close>

lemma push_zeros: "length out < ROOT_KEY_STORED_TEXT_LEN \<Longrightarrow>
    push_random out (replicate k 0) = out @ replicate (min k (ROOT_KEY_STORED_TEXT_LEN - length out)) 97"
proof (induction k arbitrary: out)
  case (Suc k)
  have "ROOT_KEY_ALPHABET ! 0 = 97" by (simp add: ROOT_KEY_ALPHABET_def as_bytes_def)
  obtain d where d: "ROOT_KEY_STORED_TEXT_LEN = length out + Suc d" using Suc.prems less_imp_Suc_add by fastforce
  have step: "push_random out (replicate (Suc k) 0) = (if d = 0 then out @ [97] else push_random (out @ [97]) (replicate k 0))"
    using \<open>ROOT_KEY_ALPHABET ! 0 = 97\<close> d by (simp add: length_alphabet Let_def)
  have e: "ROOT_KEY_STORED_TEXT_LEN - length out = Suc d" "ROOT_KEY_STORED_TEXT_LEN - length (out @ [97 :: byte]) = d"
    using d by simp_all
  show ?case unfolding step e(1) using Suc.IH [of "out @ [97]", unfolded e(2)] d by simp
qed simp

lemma sample_root_key: "generate_root_key [] [Some (replicate 64 0)] = Some (Inr (replicate 47 97))"
  by (simp add: push_zeros ROOT_KEY_STORED_TEXT_LEN_def ROOT_KEY_LEN_def)

theorem patch_do_execve_once_witness:
  "\<exists>ws patched finalized. patch_do_execve sample_execve sample_base sample_region 0x100 0x200 [] = Some (160, sample_base, ws) \<and>
    apply_kernel_writes sample_kernel ws = Inr patched \<and>
    write_root_key patched 64 (replicate 47 97) = Inr finalized \<and>
    patch_do_execve sample_execve (sample_base\<lparr>pbase_buf := finalized\<rparr>) sample_region 0x100 0x200 [] =
      Some (0, sample_base\<lparr>pbase_buf := finalized\<rparr>, [])"
proof -
  obtain ws where ws: "patch_do_execve sample_execve sample_base sample_region 0x100 0x200 [] = Some (160, sample_base, ws)"
    using sample_execve_patch by blast
  have buf: "pbase_buf sample_base = sample_kernel" by (simp add: sample_base_def)
  have "\<exists>patched finalized. apply_kernel_writes (pbase_buf sample_base) ws = Inr patched \<and>
    write_root_key patched (sr_offset sample_region) (replicate 47 97) = Inr finalized \<and>
    (\<forall>kimg \<in> {patched, finalized}. is_already_patched sample_execve (sample_base\<lparr>pbase_buf := kimg\<rparr>) \<and>
      patch_do_execve sample_execve (sample_base\<lparr>pbase_buf := kimg\<rparr>) sample_region 0x100 0x200 [] =
        Some (0, sample_base\<lparr>pbase_buf := kimg\<rparr>, []))"
    by (rule patch_do_execve_once [OF ws _ _ _ _ _ _ _ _ _ sample_root_key])
      (simp_all add: sample_execve_def sample_region_def sample_base_def length_sample_kernel)
  then obtain patched finalized where "apply_kernel_writes sample_kernel ws = Inr patched"
    "write_root_key patched 64 (replicate 47 97) = Inr finalized"
    "patch_do_execve sample_execve (sample_base\<lparr>pbase_buf := finalized\<rparr>) sample_region 0x100 0x200 [] =
      Some (0, sample_base\<lparr>pbase_buf := finalized\<rparr>, [])"
    unfolding buf by (auto simp: sample_region_def)
  then show ?thesis using ws by blast
qed

section \<open>A plan over the sample\<close>

text \<open>All the hooked symbols are the function at 4; the version chooses the early code cave.\<close>

definition sample_symbols :: kernel_symbol_offset where
  "sample_symbols =
     (let f = \<lparr>sr_offset = 4, sr_size = 4\<rparr>; none = no_region in
      \<lparr>k_text = 0, k_stext = 0, k_die = none, k_drm_puts_coredump = none, k_drm_printfn_coredump = none,
       k_do_execve_file = none, k_do_execveat_common = f, k_do_execve_common = none, k_do_execveat = none,
       k_do_execve = none, k_avc_denied = f, k_audit_log_start = 4, k_filldir64 = 4, k_sys_getuid = none,
       k_prctl_get_seccomp = none, k_cfi_check = none, k_cfi_check_fail = 0, k_cfi_slowpath_diag = 0,
       k_cfi_slowpath = 0, k_ubsan_handle_cfi_check_fail_abort = 0, k_ubsan_handle_cfi_check_fail = 0,
       k_report_cfi_failure = 0, k_hkip_check_uid_root = 0, k_hkip_check_gid_root = 0, k_hkip_check_xid_root = 0,
       k_kti_randomize_init = none\<rparr>)"

definition sample_version :: kernel_version where
  "sample_version = \<lparr>raw_version = ''5.10.0'', version_triple = (5, 10, 0)\<rparr>"

lemma sample_constructors:
  "do_execve_new sample_base sample_symbols (triple sample_version) = Some (Some sample_execve)"
  "filldir_hook_new sample_base 4 True =
    Some (Some \<lparr>filldir64 = 4, filldir64_orig_entry_insn = 0xD65F03C0, pre_6_1 = True\<rparr>)"
  "audit_hook_new sample_base 4 = Some (Some sample_audit)"
proof -
  have p: "\<not> is_pac_or_bti 0xD65F03C0" by (simp add: is_pac_or_bti_def insn_defs insn_is_def)
  have s: "skip_pac_bti_at_func_start sample_base 4 = Some 4"
    using p by (simp add: skip_pac_bti_at_func_start_def sample_base_def length_sample_kernel sample_word)
  show "do_execve_new sample_base sample_symbols (triple sample_version) = Some (Some sample_execve)"
    by (simp add: do_execve_new_def execve_candidates_def triple_def sample_version_def
        sample_symbols_def Let_def region_valid_def no_region_def s sample_execve_def)
  show "filldir_hook_new sample_base 4 True =
    Some (Some \<lparr>filldir64 = 4, filldir64_orig_entry_insn = 0xD65F03C0, pre_6_1 = True\<rparr>)"
    by (simp add: filldir_hook_new_def s) (simp add: sample_base_def length_sample_kernel sample_word)
  show "audit_hook_new sample_base 4 = Some (Some sample_audit)"
    by (simp add: audit_hook_new_def s sample_audit_def) (simp add: sample_base_def length_sample_kernel sample_word)
qed

theorem patch_core_hooks_never_panic_witness:
  "audit_hook_new sample_base (k_audit_log_start sample_symbols) = Some (Some sample_audit) \<and>
   patch_core_hooks sample_version sample_base sample_symbols
     \<lparr>cred_offset = 0x100, cred_uid_offset = 8, seccomp_offset = 0x200, huawei_kti_addr = None,
       init_cred_offset = 0, plan_cap_ability_max = 0\<rparr> [] \<noteq> Inl PlanPanic"
proof
  show "audit_hook_new sample_base (k_audit_log_start sample_symbols) = Some (Some sample_audit)"
    by (simp add: sample_symbols_def Let_def sample_constructors)
  have "length (pbase_buf sample_base) < 2 ^ 63" by (simp add: sample_base_def length_sample_kernel)
  moreover have "\<forall>a \<in> set (core_addresses sample_version sample_symbols). below_top a"
    by (simp add: core_addresses_def execve_candidates_def sample_symbols_def Let_def no_region_def below_top_def
        triple_def sample_version_def)
  ultimately show "patch_core_hooks sample_version sample_base sample_symbols
     \<lparr>cred_offset = 0x100, cred_uid_offset = 8, seccomp_offset = 0x200, huawei_kti_addr = None,
       init_cred_offset = 0, plan_cap_ability_max = 0\<rparr> [] \<noteq> Inl PlanPanic"
    by (rule patch_core_hooks_never_panic)
qed

end
