(* ===== verification/Region.thy ===== *)
theory Region
  imports Rust_Str
begin

text \<open>
  The region conversion (\<open>region.rs\<close>): detection of the region and of the country code of an image,
  and the in-place substitutions on \<open>vendor_boot\<close>, \<open>persist\<close>, \<open>devinfo\<close> and \<open>proinfo\<close>. An image is
  the list of its bytes; the files the operations read and write are a \<open>disk\<close>, threaded through
  every operation that writes. The builder of the AVB pair needs the signing library and is not
  part of this theory.
\<close>

section \<open>Files\<close>

type_synonym file_path = string

text \<open>
  What \<open>fs::read\<close>, \<open>fs::write\<close> and \<open>fs::copy\<close> depend on: the readable files with their contents,
  and the paths that can be written. A failed operation leaves the disk as it was. Copying a file
  onto itself truncates it before it is read.
\<close>

record disk =
  files :: "file_path \<Rightarrow> byte list option"
  writable :: "file_path \<Rightarrow> bool"

text \<open>The messages of the \<open>LtboxError::Patch\<close> values, one constructor each.\<close>

datatype region_error =
    CannotRead file_path
  | CannotWrite file_path
  | CopyFailed
  | PatternLengthMismatch nat nat
  | UnequalCodes string string
  | SuffixNotPresent string
  | ChannelNotFound
  | ChannelNotTerminated
  | ChannelVerificationFailed

definition fs_read :: "disk \<Rightarrow> file_path \<Rightarrow> region_error + byte list" where
  "fs_read d p = ok_or (files d p) (CannotRead p)"

definition fs_write :: "disk \<Rightarrow> file_path \<Rightarrow> byte list \<Rightarrow> region_error + disk" where
  "fs_write d p bs =
     (if writable d p then Inr (d\<lparr>files := (files d)(p := Some bs)\<rparr>) else Inl (CannotWrite p))"

definition fs_copy :: "disk \<Rightarrow> file_path \<Rightarrow> file_path \<Rightarrow> region_error + disk" where
  "fs_copy d p q =
     (case files d p of
        None \<Rightarrow> Inl CopyFailed
      | Some bs \<Rightarrow>
          if writable d q then Inr (d\<lparr>files := (files d)(q := Some (if p = q then [] else bs))\<rparr>)
          else Inl CopyFailed)"

section \<open>Patterns\<close>

text \<open>\<open>slice::windows(n)\<close> for \<open>n > 0\<close>.\<close>

definition windows :: "nat \<Rightarrow> byte list \<Rightarrow> byte list list" where
  "windows n bs = map (\<lambda>i. window bs i (i + n)) [0..<length bs + 1 - n]"

definition occurs_at :: "byte list \<Rightarrow> byte list \<Rightarrow> nat \<Rightarrow> bool" where
  "occurs_at bs pat i \<longleftrightarrow> i + length pat \<le> length bs \<and> window bs i (i + length pat) = pat"

definition find_subslice :: "byte list \<Rightarrow> byte list \<Rightarrow> nat option" where
  "find_subslice haystack needle =
     (if needle = [] \<or> length haystack < length needle then None
      else find (occurs_at haystack needle) [0..<length haystack + 1 - length needle])"

definition count_occurrences :: "byte list \<Rightarrow> byte list \<Rightarrow> nat" where
  "count_occurrences haystack needle =
     (if needle = [] \<or> length haystack < length needle then 0
      else length (filter (\<lambda>w. w = needle) (windows (length needle) haystack)))"

text \<open>
  The loop of \<open>replace_in_place\<close> and of \<open>replace_country_field\<close>, which differ in the test \<open>ok\<close> on
  the current contents and the position of a match. Both callers have checked that the pattern is
  not empty and that the replacement has its length.
\<close>

function (sequential) replace_loop ::
    "(byte list \<Rightarrow> nat \<Rightarrow> bool) \<Rightarrow> byte list \<Rightarrow> byte list \<Rightarrow> byte list \<Rightarrow> nat \<Rightarrow> nat \<Rightarrow> byte list \<times> nat" where
  "replace_loop ok pat new_pat data pos count =
     (if pat = [] \<or> length new_pat \<noteq> length pat \<or> length data < pos + length pat then (data, count)
      else if window data pos (pos + length pat) = pat \<and> ok data pos
      then replace_loop ok pat new_pat (write_at data pos new_pat) (pos + length pat) (count + 1)
      else replace_loop ok pat new_pat data (pos + 1) count)"
  by pat_completeness auto
termination
  by (relation "measure (\<lambda>(ok, pat, new_pat, data, pos, count). length data - pos)")
    (auto simp: neq_Nil_conv)

declare replace_loop.simps [simp del]

definition replace_in_place ::
    "byte list \<Rightarrow> byte list \<Rightarrow> byte list \<Rightarrow> region_error + (byte list \<times> nat)" where
  "replace_in_place data pat new_pat =
     (if length pat \<noteq> length new_pat
      then Inl (PatternLengthMismatch (length pat) (length new_pat))
      else if pat = [] \<or> length data < length pat then Inr (data, 0)
      else Inr (replace_loop (\<lambda>_ _. True) pat new_pat data 0 0))"

section \<open>Region markers\<close>

datatype region_target = Prc | Row

datatype detected_region = DetectedPrc | DetectedRow | Mixed | Unknown

fun matches_target :: "detected_region \<Rightarrow> region_target \<Rightarrow> bool" where
  "matches_target DetectedPrc Prc = True"
| "matches_target DetectedRow Row = True"
| "matches_target _ _ = False"

record region_patterns =
  prc_patterns :: "(byte list \<times> byte list) list"
  row_patterns :: "(byte list \<times> byte list) list"

definition default_patterns :: region_patterns where
  "default_patterns =
     (let prc_dot = as_bytes ''.PRC''; prc_i = as_bytes ''IPRC'';
          row_dot = as_bytes ''.ROW''; row_i = as_bytes ''IROW''
      in \<lparr>prc_patterns = [(prc_dot, row_dot), (prc_i, row_i)],
          row_patterns = [(row_dot, prc_dot), (row_i, prc_i)]\<rparr>)"

definition detect_region_in_data :: "byte list \<Rightarrow> region_patterns \<Rightarrow> detected_region" where
  "detect_region_in_data data ps =
     (let prc_count = sum_list (map (\<lambda>(pat, _). count_occurrences data pat) (prc_patterns ps));
          row_count = sum_list (map (\<lambda>(pat, _). count_occurrences data pat) (row_patterns ps))
      in case (0 < prc_count, 0 < row_count) of
           (True, False) \<Rightarrow> DetectedPrc
         | (False, True) \<Rightarrow> DetectedRow
         | (True, True) \<Rightarrow> Mixed
         | (False, False) \<Rightarrow> Unknown)"

text \<open>The substitutions of one direction, one scan per pattern.\<close>

fun apply_replacements ::
    "(byte list \<times> byte list) list \<Rightarrow> byte list \<Rightarrow> nat \<Rightarrow> region_error + (byte list \<times> nat)" where
  "apply_replacements [] data total_count = Inr (data, total_count)"
| "apply_replacements ((pat, new_pat) # reps) data total_count =
     bind_r (replace_in_place data pat new_pat)
       (\<lambda>(data', count). apply_replacements reps data' (total_count + count))"

definition patch_vendor_boot ::
    "disk \<Rightarrow> file_path \<Rightarrow> file_path \<Rightarrow> region_target \<Rightarrow> (byte list \<times> byte list) list \<Rightarrow>
     (byte list \<times> byte list) list \<Rightarrow> region_error + (disk \<times> nat)" where
  "patch_vendor_boot d inp outp target prc_pats row_pats =
     bind_r (fs_read d inp) (\<lambda>data.
     bind_r (apply_replacements (case target of Row \<Rightarrow> prc_pats | Prc \<Rightarrow> row_pats) data 0)
       (\<lambda>(data', total_count).
     bind_r (fs_write d outp data') (\<lambda>d'. Inr (d', total_count))))"

section \<open>The product region of the device tree\<close>

definition product_region_name :: "byte list" where
  "product_region_name = as_bytes ''product_region'' @ [0]"

definition FDT_PROP_TOKEN :: u32 where
  "FDT_PROP_TOKEN = 3"

text \<open>\<open>(n + 3) & !3\<close>\<close>

definition align4 :: "nat \<Rightarrow> nat" where
  "align4 n = (n + 3) div 4 * 4"

text \<open>
  The walk over at most \<open>n\<close> properties of one node: the region of the first property whose value,
  up to a NUL, names one.
\<close>

fun walk_region_props :: "byte list \<Rightarrow> nat \<Rightarrow> nat \<Rightarrow> region_target option" where
  "walk_region_props data 0 pos = None"
| "walk_region_props data (Suc n) pos =
     (if length data < pos + 8 \<or> rd32_be data pos \<noteq> FDT_PROP_TOKEN then None
      else
        let len = unat (rd32_be data (pos + 4)); value_start = pos + 12
        in if length data < value_start + len then None
           else
             let val = takeWhile (\<lambda>b. b \<noteq> 0) (window data value_start (value_start + len))
             in if val = as_bytes ''PRC'' then Some Prc
                else if val = as_bytes ''ROW'' then Some Row
                else walk_region_props data n (align4 (value_start + len)))"

function scan_product_region :: "byte list \<Rightarrow> nat \<Rightarrow> region_target option" where
  "scan_product_region data start =
     (case find_subslice (drop start data) product_region_name of
        None \<Rightarrow> None
      | Some rel \<Rightarrow>
          let node_name_start = start + rel;
              name_end = node_name_start + length product_region_name
          in case walk_region_props data 16 (align4 name_end) of
               Some r \<Rightarrow> Some r
             | None \<Rightarrow> scan_product_region data name_end)"
  by pat_completeness auto
termination
  by (relation "measure (\<lambda>(data, start). length data - start)")
    (auto simp: find_subslice_def product_region_name_def find_Some_iff split: if_splits)

declare scan_product_region.simps [simp del]

definition detect_product_region :: "disk \<Rightarrow> file_path \<Rightarrow> region_target option" where
  "detect_product_region d p =
     (case files d p of None \<Rightarrow> None | Some data \<Rightarrow> scan_product_region data 0)"

section \<open>Country codes\<close>

definition KNOWN_COUNTRY_CODES :: "string list" where
  "KNOWN_COUNTRY_CODES =
     [''CN'', ''KR'', ''JP'', ''US'', ''GB'', ''DE'', ''FR'', ''IT'', ''ES'', ''NL'', ''AT'', ''BE'',
      ''BG'', ''HR'', ''CY'', ''CZ'', ''DK'', ''EE'', ''FI'', ''GR'', ''HU'', ''IE'', ''LV'', ''LT'',
      ''LU'', ''MT'', ''PL'', ''PT'', ''RO'', ''SK'', ''SI'', ''SE'', ''AU'', ''CA'', ''IN'', ''RU'',
      ''BR'', ''MX'', ''SA'', ''AE'', ''WW'']"

definition EU_COUNTRY_CODES :: "string list" where
  "EU_COUNTRY_CODES =
     [''AT'', ''BE'', ''BG'', ''HR'', ''CY'', ''CZ'', ''DK'', ''EE'', ''FI'', ''FR'', ''DE'', ''GR'',
      ''HU'', ''IE'', ''IT'', ''LV'', ''LT'', ''LU'', ''MT'', ''NL'', ''PL'', ''PT'', ''RO'', ''SK'',
      ''SI'', ''ES'', ''SE'']"

definition EXT4_BLOCK :: nat where
  "EXT4_BLOCK = 4096"

definition is_country_field :: "byte list \<Rightarrow> nat \<Rightarrow> nat \<Rightarrow> bool" where
  "is_country_field data i n \<longleftrightarrow>
     (i mod EXT4_BLOCK = 0 \<or> data ! (i - 1) = 0) \<and> (i + n = length data \<or> data ! (i + n) = 0)"

definition code_found :: "byte list \<Rightarrow> bool \<Rightarrow> byte list \<Rightarrow> bool" where
  "code_found data field_only pat =
     list_ex (\<lambda>i. occurs_at data pat i \<and> (\<not> field_only \<or> is_country_field data i (length pat)))
       [0..<length data + 1 - length pat]"

definition detect_country_code ::
    "disk \<Rightarrow> file_path \<Rightarrow> string list \<Rightarrow> bool \<Rightarrow> region_error + string option" where
  "detect_country_code d p known_codes field_only =
     bind_r (fs_read d p) (\<lambda>data.
       Inr (find (\<lambda>code. code_found data field_only (as_bytes (code @ ''XE'')) \<or>
                         code_found data field_only (as_bytes (code @ ''XX''))) known_codes))"

definition replace_country_field :: "byte list \<Rightarrow> byte list \<Rightarrow> byte list \<Rightarrow> byte list \<times> nat" where
  "replace_country_field data pat new_pat =
     (if pat = [] \<or> length data < length pat then (data, 0)
      else replace_loop (\<lambda>xs i. is_country_field xs i (length pat)) pat new_pat data 0 0)"

definition written_code :: "string \<Rightarrow> string list \<Rightarrow> string" where
  "written_code new_code eu_codes =
     new_code @ (if new_code \<in> set eu_codes then ''XE'' else ''XX'')"

text \<open>One of the two scans, for \<open>old_code\<close> with the suffix \<open>XE\<close> or \<open>XX\<close>.\<close>

definition replace_code ::
    "bool \<Rightarrow> byte list \<Rightarrow> string \<Rightarrow> string \<Rightarrow> region_error + (byte list \<times> nat)" where
  "replace_code field_only data old new =
     (if field_only then Inr (replace_country_field data (as_bytes old) (as_bytes new))
      else replace_in_place data (as_bytes old) (as_bytes new))"

definition patch_country_code ::
    "disk \<Rightarrow> file_path \<Rightarrow> file_path \<Rightarrow> string \<Rightarrow> string \<Rightarrow> string list \<Rightarrow> bool \<Rightarrow>
     region_error + (disk \<times> bool)" where
  "patch_country_code d inp outp old_code new_code eu_codes field_only =
     bind_r (fs_read d inp) (\<lambda>data.
     let code = written_code new_code eu_codes in
     bind_r (ensure (\<not> (field_only \<and> length old_code \<noteq> length new_code))
               (UnequalCodes old_code new_code)) (\<lambda>_.
     bind_r (replace_code field_only data (old_code @ ''XE'') code) (\<lambda>(data1, n1).
     bind_r (replace_code field_only data1 (old_code @ ''XX'') code) (\<lambda>(data2, n2).
     if n1 + n2 = 0 then bind_r (fs_copy d inp outp) (\<lambda>d'. Inr (d', False))
     else if count_occurrences data2 (as_bytes code) = 0 then Inl (SuffixNotPresent code)
     else bind_r (fs_write d outp data2) (\<lambda>d'. Inr (d', True))))))"

section \<open>The proinfo channel\<close>

definition CHANNEL_FROM :: "byte list" where "CHANNEL_FROM = as_bytes ''consumer''"
definition CHANNEL_TO :: "byte list" where "CHANNEL_TO = as_bytes ''commercial''"

text \<open>\<open>data.get(i) == Some(&0)\<close>\<close>

definition nul_at :: "byte list \<Rightarrow> nat \<Rightarrow> bool" where
  "nul_at data i \<longleftrightarrow> i < length data \<and> data ! i = 0"

definition channel_at :: "byte list \<Rightarrow> byte list \<Rightarrow> nat \<Rightarrow> bool" where
  "channel_at data pat i \<longleftrightarrow>
     occurs_at data pat i \<and> 0 < i \<and> data ! (i - 1) = 0 \<and> nul_at data (i + length pat)"

definition patch_proinfo_channel ::
    "disk \<Rightarrow> file_path \<Rightarrow> file_path \<Rightarrow> region_error + (disk \<times> bool)" where
  "patch_proinfo_channel d inp outp =
     bind_r (fs_read d inp) (\<lambda>data.
     let commercial_present =
           list_ex (channel_at data CHANNEL_TO) [0..<length data + 1 - length CHANNEL_TO];
         consumer = find (channel_at data CHANNEL_FROM) [0..<length data + 1 - length CHANNEL_FROM]
     in case consumer of
          None \<Rightarrow>
            if commercial_present
            then (if inp \<noteq> outp then bind_r (fs_copy d inp outp) (\<lambda>d'. Inr (d', False))
                  else Inr (d, False))
            else Inl ChannelNotFound
        | Some offset \<Rightarrow>
            let terminator = offset + length CHANNEL_FROM
            in if \<not> nul_at data (terminator + 1) \<or> \<not> nul_at data (terminator + 2)
               then Inl ChannelNotTerminated
               else
                 let data' = write_at data offset CHANNEL_TO
                 in if window data' offset (offset + length CHANNEL_TO) \<noteq> CHANNEL_TO \<or>
                       \<not> nul_at data' (offset + length CHANNEL_TO)
                    then Inl ChannelVerificationFailed
                    else bind_r (fs_write d outp data') (\<lambda>d'. Inr (d', True)))"

end
