(* ===== verification/Region_Props.thy ===== *)
theory Region_Props
  imports Region
begin

text \<open>
  What the substitutions of \<open>Region\<close> do to an image: they keep its length, they leave every byte
  outside the matches alone, and, for the region markers, the result carries the markers of the
  target and none of the source.
\<close>

section \<open>Occurrences\<close>

lemma window_eq_iff:
  assumes "i + length pat \<le> length xs"
  shows "window xs i (i + length pat) = pat \<longleftrightarrow> (\<forall>k < length pat. xs ! (i + k) = pat ! k)"
  using assms by (auto simp: list_eq_iff_nth_eq nth_window)

lemma occurs_at_iff:
  "occurs_at xs pat i \<longleftrightarrow> i + length pat \<le> length xs \<and> (\<forall>k < length pat. xs ! (i + k) = pat ! k)"
  by (auto simp: occurs_at_def window_eq_iff)

lemma windows_mem: "w \<in> set (windows n xs) \<longleftrightarrow> (\<exists>i. i + n \<le> length xs \<and> w = window xs i (i + n))"
  by (auto simp: windows_def image_iff less_diff_conv less_Suc_eq_le)

lemma count_occurrences_pos:
  assumes "pat \<noteq> []"
  shows "0 < count_occurrences xs pat \<longleftrightarrow> (\<exists>i. occurs_at xs pat i)"
proof -
  have "(\<exists>i. occurs_at xs pat i) \<longleftrightarrow> pat \<in> set (windows (length pat) xs)"
    by (auto simp: windows_mem occurs_at_def)
  then show ?thesis
    using assms by (auto simp: count_occurrences_def filter_empty_conv windows_mem)
qed

text \<open>
  Two patterns of one length whose first characters occur in neither tail: occurrences of them
  coincide or lie apart.
\<close>

definition clash_free :: "byte list \<Rightarrow> byte list \<Rightarrow> bool" where
  "clash_free q w \<longleftrightarrow>
     length q = length w \<and> q \<noteq> [] \<and> hd q \<notin> set (tl w) \<and> hd w \<notin> set (tl q) \<and> q \<noteq> w"

lemma clash_free_sym: "clash_free q w \<Longrightarrow> clash_free w q"
  by (auto simp: clash_free_def)

lemma nth_not_tl: "x \<notin> set (tl w) \<Longrightarrow> 0 < k \<Longrightarrow> k < length w \<Longrightarrow> w ! k \<noteq> x"
  by (cases w; cases k) auto

lemma occurrences_order:
  assumes "hd q \<notin> set (tl w)" and "q \<noteq> []" and "occurs_at xs q i" and "occurs_at xs w p"
  shows "i \<le> p \<or> p + length w \<le> i"
proof (rule ccontr)
  assume "\<not> ?thesis"
  then have near: "0 < i - p" "i - p < length w" "p + (i - p) = i" by linarith+
  have "xs ! i = w ! (i - p)" using assms(4) near by (metis occurs_at_iff)
  moreover have "xs ! i = hd q"
    using assms(2, 3) by (auto simp: occurs_at_iff hd_conv_nth dest!: spec [of _ 0])
  ultimately show False using nth_not_tl [OF assms(1) near(1, 2)] by simp
qed

lemma occurrences_apart:
  assumes "clash_free q w" and "occurs_at xs q i" and "occurs_at xs w p"
  shows "i + length w \<le> p \<or> p + length w \<le> i"
proof -
  have len: "length q = length w" "w \<noteq> []" using assms(1) by (auto simp: clash_free_def)
  have "i \<noteq> p"
    using assms len by (auto simp: clash_free_def occurs_at_def)
  then show ?thesis
    using occurrences_order [OF _ _ assms(2, 3)] occurrences_order [OF _ _ assms(3, 2)] assms(1) len
    by (auto simp: clash_free_def)
qed

lemma occurs_at_write_same: "p + length w \<le> length xs \<Longrightarrow> occurs_at (write_at xs p w) w p"
  by (simp add: occurs_at_def window_write_at_same)

lemma occurs_at_write_apart:
  assumes "p + length w \<le> length xs" and "i + length q \<le> p \<or> p + length w \<le> i"
  shows "occurs_at (write_at xs p w) q i = occurs_at xs q i"
  using assms by (auto simp: occurs_at_def window_write_at_other)

lemma occurs_at_written:
  assumes "clash_free q w" and "p + length w \<le> length xs" and "occurs_at (write_at xs p w) q i"
  shows "(i + length w \<le> p \<or> p + length w \<le> i) \<and> occurs_at xs q i"
proof -
  have "i + length w \<le> p \<or> p + length w \<le> i"
    by (rule occurrences_apart [OF assms(1, 3) occurs_at_write_same [OF assms(2)]])
  moreover have "length q = length w" using assms(1) by (simp add: clash_free_def)
  ultimately show ?thesis using assms(2, 3) by (simp add: occurs_at_write_apart)
qed

section \<open>The substitution loop\<close>

lemma replace_loop_step:
  assumes "pat \<noteq> []" and "length w = length pat" and "pos + length pat \<le> length xs"
  shows "replace_loop ok pat w xs pos c =
    (if occurs_at xs pat pos \<and> ok xs pos
     then replace_loop ok pat w (write_at xs pos w) (pos + length pat) (c + 1)
     else replace_loop ok pat w xs (pos + 1) c)"
  using assms by (subst replace_loop.simps) (simp add: occurs_at_def)

lemma replace_loop_end:
  "pat = [] \<or> length w \<noteq> length pat \<or> length xs < pos + length pat \<Longrightarrow>
   replace_loop ok pat w xs pos c = (xs, c)"
  by (subst replace_loop.simps) auto

text \<open>Induction over the runs of the loop: at its end, at a match and past a mismatch.\<close>

lemma replace_loop_induct [consumes 2, case_names End Match Skip]:
  assumes "pat \<noteq> []" and "length w = length pat"
    and "\<And>xs pos c. length xs < pos + length pat \<Longrightarrow>
      replace_loop ok pat w xs pos c = (xs, c) \<Longrightarrow> P xs pos c"
    and "\<And>xs pos c. pos + length pat \<le> length xs \<Longrightarrow> occurs_at xs pat pos \<Longrightarrow> ok xs pos \<Longrightarrow>
      replace_loop ok pat w xs pos c =
        replace_loop ok pat w (write_at xs pos w) (pos + length pat) (Suc c) \<Longrightarrow>
      P (write_at xs pos w) (pos + length pat) (Suc c) \<Longrightarrow> P xs pos c"
    and "\<And>xs pos c. pos + length pat \<le> length xs \<Longrightarrow> \<not> (occurs_at xs pat pos \<and> ok xs pos) \<Longrightarrow>
      replace_loop ok pat w xs pos c = replace_loop ok pat w xs (Suc pos) c \<Longrightarrow>
      P xs (Suc pos) c \<Longrightarrow> P xs pos c"
  shows "P xs pos c"
proof (induction "length xs - pos" arbitrary: xs pos c rule: less_induct)
  case less
  have pos: "0 < length pat" using assms(1) by simp
  show ?case
  proof (cases "length xs < pos + length pat")
    case True
    then show ?thesis using assms(3) by (simp add: replace_loop_end)
  next
    case False
    then have fits: "pos + length pat \<le> length xs" by simp
    note unfold = replace_loop_step [OF assms(1, 2) fits]
    show ?thesis
    proof (cases "occurs_at xs pat pos \<and> ok xs pos")
      case True
      have "length (write_at xs pos w) = length xs" using fits assms(2) by simp
      then have "length (write_at xs pos w) - (pos + length pat) < length xs - pos"
        using fits pos by linarith
      from less [OF this] True show ?thesis
        by (intro assms(4) [OF fits]) (simp_all add: unfold)
    next
      case False
      have "length xs - Suc pos < length xs - pos" using fits pos by linarith
      from less [OF this] False show ?thesis
        by (intro assms(5) [OF fits]) (auto simp: unfold)
    qed
  qed
qed

lemma replace_loop_length:
  assumes "pat \<noteq> []" and "length w = length pat"
  shows "length (fst (replace_loop ok pat w xs pos c)) = length xs \<and>
    c \<le> snd (replace_loop ok pat w xs pos c)"
  using assms by (induction xs pos c rule: replace_loop_induct [where ok = ok]) (simp_all add: assms)

text \<open>Nothing counted means nothing changed; something counted means the pattern was there.\<close>

lemma replace_loop_unchanged:
  assumes "pat \<noteq> []" and "length w = length pat"
  shows "if snd (replace_loop ok pat w xs pos c) = c then fst (replace_loop ok pat w xs pos c) = xs
    else \<exists>i. occurs_at xs pat i"
  using assms
proof (induction xs pos c rule: replace_loop_induct [where ok = ok])
  case (Match xs pos c)
  then show ?case
    using replace_loop_length [OF assms, where ok = ok and xs = "write_at xs pos w"
        and pos = "pos + length pat" and c = "Suc c"] by auto
qed simp_all

text \<open>A pattern that does not clash with the replacement does not appear newly.\<close>

lemma replace_loop_no_new:
  assumes "pat \<noteq> []" and "length w = length pat" and "clash_free q w"
  shows "occurs_at (fst (replace_loop ok pat w xs pos c)) q i \<longrightarrow> occurs_at xs q i"
  using assms(1, 2)
  by (induction xs pos c rule: replace_loop_induct [where ok = ok])
    (metis fst_conv, metis occurs_at_written [OF assms(3)] assms(2), metis)

text \<open>A pattern that does not clash with the searched one stays.\<close>

lemma replace_loop_keeps:
  assumes "pat \<noteq> []" and "length w = length pat" and "clash_free q pat"
  shows "occurs_at xs q i \<longrightarrow> occurs_at (fst (replace_loop ok pat w xs pos c)) q i"
  using assms(1, 2)
proof (induction xs pos c rule: replace_loop_induct [where ok = ok])
  case (Match xs pos c)
  have len: "length q = length pat" using assms(3) by (simp add: clash_free_def)
  have "occurs_at xs q i \<Longrightarrow> occurs_at (write_at xs pos w) q i"
    using occurrences_apart [OF assms(3) _ Match(2)] Match(1) len assms(2)
    by (simp add: occurs_at_write_apart)
  then show ?case using Match by simp
qed simp_all

text \<open>No match survives a scan for all matches, and a replacement that was counted is there.\<close>

lemma replace_loop_removes:
  assumes "pat \<noteq> []" and "length w = length pat" and "clash_free pat w"
  shows "(\<forall>i < pos. \<not> occurs_at xs pat i) \<longrightarrow>
    \<not> occurs_at (fst (replace_loop (\<lambda>_ _. True) pat w xs pos c)) pat i"
  using assms(1, 2)
proof (induction xs pos c rule: replace_loop_induct [where ok = "\<lambda>_ _. True"])
  case (End xs pos c)
  have "i < pos" if "occurs_at xs pat i" using that End(1) by (simp add: occurs_at_def)
  then show ?case by (auto simp: End(2))
next
  case (Match xs pos c)
  have "\<not> occurs_at (write_at xs pos w) pat j"
    if "\<forall>i < pos. \<not> occurs_at xs pat i" "j < pos + length pat" for j
  proof
    assume "occurs_at (write_at xs pos w) pat j"
    then have "(j + length w \<le> pos \<or> pos + length w \<le> j) \<and> occurs_at xs pat j"
      by (rule occurs_at_written [OF assms(3), rotated]) (simp add: Match(1) assms(2))
    moreover have "0 < length pat" using assms(1) by simp
    ultimately show False using that assms(2) by auto
  qed
  then show ?case using Match(4, 5) by metis
next
  case (Skip xs pos c)
  have "\<forall>j < Suc pos. \<not> occurs_at xs pat j" if "\<forall>i < pos. \<not> occurs_at xs pat i"
    using that Skip(2) by (auto simp: less_Suc_eq)
  then show ?case using Skip(3, 4) by metis
qed

lemma replace_loop_writes:
  assumes "pat \<noteq> []" and "length w = length pat" and "clash_free pat w"
  shows "snd (replace_loop ok pat w xs pos c) \<noteq> c \<longrightarrow>
    (\<exists>i. occurs_at (fst (replace_loop ok pat w xs pos c)) w i)"
  using assms(1, 2)
proof (induction xs pos c rule: replace_loop_induct [where ok = ok])
  case (Match xs pos c)
  have "occurs_at (write_at xs pos w) w pos"
    using Match(1) assms(2) by (simp add: occurs_at_write_same)
  then show ?case
    using replace_loop_keeps [OF assms(1, 2) clash_free_sym [OF assms(3)]] Match(4) by metis
qed simp_all

section \<open>The region markers\<close>

lemma replace_in_place_Inr:
  assumes "clash_free pat w" and "length w = length pat"
    and "replace_in_place xs pat w = Inr (ys, n)"
  shows "length ys = length xs \<and> (\<forall>i. \<not> occurs_at ys pat i) \<and>
    (if n = 0 then ys = xs else (\<exists>i. occurs_at xs pat i) \<and> (\<exists>i. occurs_at ys w i)) \<and>
    (\<forall>q i. clash_free q w \<longrightarrow> occurs_at ys q i \<longrightarrow> occurs_at xs q i) \<and>
    (\<forall>q i. clash_free q pat \<longrightarrow> occurs_at xs q i \<longrightarrow> occurs_at ys q i)"
proof (cases "length xs < length pat")
  case True
  then have "ys = xs" "n = 0" using assms(2, 3) by (auto simp: replace_in_place_def)
  then show ?thesis using True by (auto simp: occurs_at_def)
next
  case False
  have ne: "pat \<noteq> []" using assms(1) by (simp add: clash_free_def)
  then have eq: "replace_loop (\<lambda>_ _. True) pat w xs 0 0 = (ys, n)"
    using assms(2, 3) False by (simp add: replace_in_place_def)
  note facts = replace_loop_length [OF ne assms(2), where ok = "\<lambda>_ _. True" and xs = xs and pos = 0 and c = 0]
    replace_loop_unchanged [OF ne assms(2), where ok = "\<lambda>_ _. True" and xs = xs and pos = 0 and c = 0]
    replace_loop_writes [OF ne assms(2, 1), where ok = "\<lambda>_ _. True" and xs = xs and pos = 0 and c = 0]
    replace_loop_removes [OF ne assms(2, 1), where xs = xs and pos = 0 and c = 0]
    replace_loop_no_new [OF ne assms(2), where ok = "\<lambda>_ _. True" and xs = xs and pos = 0 and c = 0]
    replace_loop_keeps [OF ne assms(2), where ok = "\<lambda>_ _. True" and xs = xs and pos = 0 and c = 0]
  show ?thesis using facts unfolding eq fst_conv snd_conv by auto
qed

text \<open>The two substitutions of a direction, when no two of the four markers clash.\<close>

lemma apply_two_replacements:
  assumes "clash_free a a'" and "clash_free b b'" and "clash_free a b'" and "clash_free b a'"
    and "clash_free a' b" and "length a' = length a" and "length b' = length b"
    and "apply_replacements [(a, a'), (b, b')] xs 0 = Inr (ys, n)"
  shows "length ys = length xs \<and> (\<forall>i. \<not> occurs_at ys a i) \<and> (\<forall>i. \<not> occurs_at ys b i) \<and>
    (if n = 0 then ys = xs else ((\<exists>i. occurs_at xs a i) \<or> (\<exists>i. occurs_at xs b i)) \<and>
       ((\<exists>i. occurs_at ys a' i) \<or> (\<exists>i. occurs_at ys b' i)))"
proof -
  obtain zs m k where 1: "replace_in_place xs a a' = Inr (zs, m)"
    and 2: "replace_in_place zs b b' = Inr (ys, k)" and n: "n = m + k"
    using assms(8) by (auto simp: bind_r_Inr_iff)
  note A = replace_in_place_Inr [OF assms(1, 6) 1]
  note B = replace_in_place_Inr [OF assms(2, 7) 2]
  have "\<not> occurs_at ys a i" for i using A B assms(3) by blast
  moreover have "\<exists>i. occurs_at ys a' i" if "m \<noteq> 0" using that A B assms(5) by (metis (full_types))
  moreover have "\<exists>i. occurs_at xs b i" if "k \<noteq> 0" using that A B assms(4) by (metis (full_types))
  ultimately show ?thesis using A B n by (auto split: if_splits)
qed

lemma markers_clash_free:
  "clash_free (as_bytes ''.PRC'') (as_bytes ''.ROW'')" "clash_free (as_bytes ''IPRC'') (as_bytes ''IROW'')"
  "clash_free (as_bytes ''.PRC'') (as_bytes ''IROW'')" "clash_free (as_bytes ''IPRC'') (as_bytes ''.ROW'')"
  by (simp_all add: clash_free_def as_bytes_def of_char_def)

lemmas marker_conditions = markers_clash_free markers_clash_free [THEN clash_free_sym]

definition has_marker :: "byte list \<Rightarrow> region_target \<Rightarrow> bool" where
  "has_marker xs t \<longleftrightarrow>
     (\<exists>i. occurs_at xs (as_bytes (case t of Prc \<Rightarrow> ''.PRC'' | Row \<Rightarrow> ''.ROW'')) i) \<or>
     (\<exists>i. occurs_at xs (as_bytes (case t of Prc \<Rightarrow> ''IPRC'' | Row \<Rightarrow> ''IROW'')) i)"

lemma detect_default_patterns:
  "detect_region_in_data xs default_patterns =
     (if has_marker xs Prc then if has_marker xs Row then Mixed else DetectedPrc
      else if has_marker xs Row then DetectedRow else Unknown)"
proof -
  have "as_bytes s \<noteq> []" if "s \<noteq> []" for s using that by (simp add: as_bytes_def)
  note pos = count_occurrences_pos [OF this, of _ xs]
  have "0 < count_occurrences xs (as_bytes ''.PRC'') + count_occurrences xs (as_bytes ''IPRC'') \<longleftrightarrow>
      has_marker xs Prc"
    and "0 < count_occurrences xs (as_bytes ''.ROW'') + count_occurrences xs (as_bytes ''IROW'') \<longleftrightarrow>
      has_marker xs Row"
    by (simp_all only: add_gr_0 pos has_marker_def list.distinct not_False_eq_True region_target.case)
  then show ?thesis
    by (simp add: detect_region_in_data_def default_patterns_def Let_def del: add_gr_0)
qed

lemma replacements_convert:
  assumes "apply_replacements
      (case t of Row \<Rightarrow> prc_patterns default_patterns | Prc \<Rightarrow> row_patterns default_patterns) xs 0 = Inr (ys, n)"
  shows "length ys = length xs \<and> \<not> has_marker ys (case t of Row \<Rightarrow> Prc | Prc \<Rightarrow> Row) \<and>
    (if n = 0 then ys = xs else has_marker ys t)"
proof (cases t)
  case Prc
  then show ?thesis
    using apply_two_replacements [of "as_bytes ''.ROW''" "as_bytes ''.PRC''" "as_bytes ''IROW''"
        "as_bytes ''IPRC''" xs ys n] assms marker_conditions
    by (simp add: default_patterns_def Let_def has_marker_def split: if_splits)
next
  case Row
  then show ?thesis
    using apply_two_replacements [of "as_bytes ''.PRC''" "as_bytes ''.ROW''" "as_bytes ''IPRC''"
        "as_bytes ''IROW''" xs ys n] assms marker_conditions
    by (simp add: default_patterns_def Let_def has_marker_def split: if_splits)
qed

text \<open>
  (C20) Converting a \<open>vendor_boot\<close> image with the default markers writes an image of the same length
  to the output and touches no other file. If the reported number of replacements is not zero, the
  written image is detected as an image of the target region, neither as mixed nor as the source
  region; if it is zero, the image is copied as it was, and it had no marker of the source region.
\<close>

theorem patch_vendor_boot_converts:
  assumes "patch_vendor_boot d inp outp target (prc_patterns default_patterns)
    (row_patterns default_patterns) = Inr (d', n)"
  shows "\<exists>data out. files d inp = Some data \<and> d' = d\<lparr>files := (files d)(outp := Some out)\<rparr> \<and>
    length out = length data \<and>
    (if n = 0
     then out = data \<and> (detect_region_in_data data default_patterns = Unknown \<or>
                          matches_target (detect_region_in_data data default_patterns) target)
     else matches_target (detect_region_in_data out default_patterns) target)"
proof -
  obtain data out where read: "files d inp = Some data"
    and patched: "apply_replacements (case target of Row \<Rightarrow> prc_patterns default_patterns
      | Prc \<Rightarrow> row_patterns default_patterns) data 0 = Inr (out, n)"
    and written: "fs_write d outp out = Inr d'"
    using assms unfolding patch_vendor_boot_def fs_read_def
    by (auto simp: ok_or_Inr_iff elim!: bind_r_InrE bind_r_Inr_pairE)
  have "d' = d\<lparr>files := (files d)(outp := Some out)\<rparr>"
    using written by (simp add: fs_write_def split: if_splits)
  then show ?thesis
    using replacements_convert [OF patched] read
    by (cases target) (auto simp: detect_default_patterns split: if_splits)
qed

definition sample_disk :: disk where
  "sample_disk = \<lparr>files = [''in'' \<mapsto> as_bytes ''a.PRC''], writable = (\<lambda>_. True)\<rparr>"

lemma sample_disk_conversion:
  "patch_vendor_boot sample_disk ''in'' ''out'' Row (prc_patterns default_patterns)
     (row_patterns default_patterns) =
   Inr (sample_disk\<lparr>files := (files sample_disk)(''out'' \<mapsto> as_bytes ''a.ROW'')\<rparr>, 1)"
  by (simp add: patch_vendor_boot_def sample_disk_def default_patterns_def Let_def fs_read_def
      fs_write_def replace_in_place_def replace_loop.simps window_def write_at_def as_bytes_def
      of_char_def)

theorem patch_vendor_boot_converts_witness:
  "matches_target (detect_region_in_data (as_bytes ''a.ROW'') default_patterns) Row"
  using patch_vendor_boot_converts [OF sample_disk_conversion] 
  by (auto dest!: arg_cong [where f = "\<lambda>d. files d ''out''"])

end
