(* ===== verification/Country_Props.thy ===== *)
theory Country_Props
  imports Region_Props
begin

text \<open>
  The country code of \<open>persist\<close> and \<open>devinfo\<close> images: with \<open>field_only\<close> exactly the stored fields are
  rewritten, whatever else of the image spells the code.
\<close>

section \<open>Fields\<close>

definition field_at :: "byte list \<Rightarrow> byte list \<Rightarrow> nat \<Rightarrow> bool" where
  "field_at xs pat p \<longleftrightarrow> occurs_at xs pat p \<and> is_country_field xs p (length pat)"

lemma occurs_at_nth: "occurs_at xs pat p \<Longrightarrow> p \<le> j \<Longrightarrow> j < p + length pat \<Longrightarrow> xs ! j = pat ! (j - p)"
  unfolding occurs_at_iff by (metis add_diff_inverse_nat less_diff_conv2 linorder_not_less add.commute)

lemma field_boundary:
  assumes "field_at xs a p" and "field_at xs b q" and "0 \<notin> set b" and "length a = length b"
    and "p < q" and "q < p + length a"
  shows False
proof -
  have "q + length b \<le> length xs" using assms(2) by (simp add: field_at_def occurs_at_def)
  then have "xs ! (p + length a) = 0"
    using assms(1, 4, 5) by (auto simp: field_at_def is_country_field_def)
  moreover have "xs ! (p + length a) = b ! (p + length a - q)"
    using assms by (intro occurs_at_nth) (auto simp: field_at_def)
  moreover have "p + length a - q < length b" using assms by linarith
  ultimately show False using assms(3) by (metis nth_mem)
qed

text \<open>Two fields for codes of one length are the same or lie apart.\<close>

lemma fields_apart:
  assumes "field_at xs a p" and "field_at xs b q" and "0 \<notin> set a" and "0 \<notin> set b"
    and "length a = length b" and "p \<le> j" "j < p + length a" and "q \<le> j" "j < q + length b"
  shows "p = q"
  using field_boundary [OF assms(1, 2, 4, 5)] field_boundary [OF assms(2, 1, 3)] assms(5-)
  by (metis linorder_neqE_nat order_le_less_trans)

definition same_nuls :: "byte list \<Rightarrow> byte list \<Rightarrow> bool" where
  "same_nuls ys xs \<longleftrightarrow> length ys = length xs \<and> (\<forall>j < length xs. ys ! j = 0 \<longleftrightarrow> xs ! j = 0)"

lemma same_nuls_refl [simp]: "same_nuls xs xs"
  by (simp add: same_nuls_def)

lemma same_nuls_trans: "same_nuls zs ys \<Longrightarrow> same_nuls ys xs \<Longrightarrow> same_nuls zs xs"
  by (simp add: same_nuls_def)

lemma is_country_field_same:
  assumes "same_nuls ys xs" and "p + n \<le> length xs" and "0 < n"
  shows "is_country_field ys p n = is_country_field xs p n"
proof -
  have "p = 0 \<or> (p - 1 < length xs)" using assms(2, 3) by linarith
  then have "(p mod EXT4_BLOCK = 0 \<or> ys ! (p - 1) = 0) = (p mod EXT4_BLOCK = 0 \<or> xs ! (p - 1) = 0)"
    using assms(1) by (auto simp: same_nuls_def)
  moreover have "p + n = length xs \<or> p + n < length xs" using assms(2) by linarith
  ultimately show ?thesis using assms(1) unfolding is_country_field_def same_nuls_def by metis
qed

lemma same_nuls_write:
  assumes "occurs_at xs pat p" and "length w = length pat" and "0 \<notin> set pat" and "0 \<notin> set w"
  shows "same_nuls (write_at xs p w) xs"
proof -
  have fits: "p + length w \<le> length xs" using assms(1, 2) by (simp add: occurs_at_def)
  have "write_at xs p w ! j = 0 \<longleftrightarrow> xs ! j = 0" if j: "j < length xs" for j
  proof (cases "p \<le> j \<and> j < p + length w")
    case True
    then have "j - p < length w" by linarith
    then have "w ! (j - p) \<noteq> 0" "pat ! (j - p) \<noteq> 0"
      using assms(2-4) by (metis nth_mem)+
    then show ?thesis
      using True fits j occurs_at_nth [OF assms(1)] assms(2) by (simp add: nth_write_at)
  qed (use fits j in \<open>auto simp: nth_write_at\<close>)
  then show ?thesis using fits by (simp add: same_nuls_def)
qed

section \<open>One scan\<close>

text \<open>What a scan from \<open>pos\<close> does: every field there gets the new code, and nothing else changes.\<close>

definition fields_rewritten ::
    "byte list \<Rightarrow> byte list \<Rightarrow> nat \<Rightarrow> byte list \<Rightarrow> byte list \<Rightarrow> bool" where
  "fields_rewritten pat w pos xs ys \<longleftrightarrow>
     same_nuls ys xs \<and> (\<forall>p \<ge> pos. field_at xs pat p \<longrightarrow> occurs_at ys w p) \<and>
     (\<forall>j < length xs. ys ! j \<noteq> xs ! j \<longrightarrow>
        (\<exists>p \<ge> pos. field_at xs pat p \<and> p \<le> j \<and> j < p + length pat))"

lemma fields_rewritten_match:
  assumes "pat \<noteq> []" and "length w = length pat" and "0 \<notin> set pat" and "0 \<notin> set w"
    and "field_at xs pat pos" and "fields_rewritten pat w (pos + length pat) (write_at xs pos w) ys"
  shows "fields_rewritten pat w pos xs ys"
proof -
  let ?xs = "write_at xs pos w"
  have occ: "occurs_at xs pat pos" using assms(5) by (simp add: field_at_def)
  then have fits: "pos + length w \<le> length xs" using assms(2) by (simp add: occurs_at_def)
  have nuls: "same_nuls ?xs xs" by (rule same_nuls_write [OF occ assms(2-4)])
  have later: "field_at ?xs pat p = field_at xs pat p" if "pos + length pat \<le> p" for p
  proof -
    have "occurs_at ?xs pat p = occurs_at xs pat p"
      using that assms(2) fits by (intro occurs_at_write_apart) auto
    then show ?thesis
      using is_country_field_same [OF nuls, of p "length pat"] assms(1)
      by (auto simp: field_at_def occurs_at_def)
  qed
  have ys: "same_nuls ys ?xs" "\<And>p. pos + length pat \<le> p \<Longrightarrow> field_at ?xs pat p \<Longrightarrow> occurs_at ys w p"
    "\<And>j. j < length xs \<Longrightarrow> ys ! j \<noteq> ?xs ! j \<Longrightarrow>
      \<exists>p \<ge> pos + length pat. field_at ?xs pat p \<and> p \<le> j \<and> j < p + length pat"
    using assms(6) fits by (auto simp: fields_rewritten_def)
  have here: "occurs_at ys w pos"
  proof -
    have "ys ! (pos + k) = w ! k" if "k < length w" for k
      using ys(3) [of "pos + k"] that fits assms(2) by (fastforce simp: nth_write_at)
    then show ?thesis using ys(1) fits by (simp add: occurs_at_iff same_nuls_def)
  qed
  have "occurs_at ys w p" if "pos \<le> p" "field_at xs pat p" for p
  proof (cases "pos + length pat \<le> p")
    case False
    then have "p = pos" using fields_apart [OF that(2) assms(5) assms(3, 3), of p] that(1) assms(1) by simp
    then show ?thesis using here by simp
  qed (use ys(2) later that in blast)
  moreover have "\<exists>p \<ge> pos. field_at xs pat p \<and> p \<le> j \<and> j < p + length pat"
    if "j < length xs" "ys ! j \<noteq> xs ! j" for j
  proof (cases "ys ! j = ?xs ! j")
    case True
    then have "pos \<le> j \<and> j < pos + length pat"
      using that fits assms(2) by (auto simp: nth_write_at split: if_splits)
    then show ?thesis using assms(5) by blast
  next
    case False
    then show ?thesis using ys(3) [OF that(1)] later by (meson le_add1 order_trans)
  qed
  ultimately show ?thesis using same_nuls_trans [OF ys(1) nuls] by (simp add: fields_rewritten_def)
qed

lemma replace_loop_fields:
  assumes "pat \<noteq> []" and "length w = length pat" and "0 \<notin> set pat" and "0 \<notin> set w"
  defines "ok \<equiv> \<lambda>xs i. is_country_field xs i (length pat)"
  shows "fields_rewritten pat w pos xs (fst (replace_loop ok pat w xs pos c)) \<and>
    (snd (replace_loop ok pat w xs pos c) = c \<longleftrightarrow> \<not> (\<exists>p \<ge> pos. field_at xs pat p))"
  using assms(1, 2)
proof (induction xs pos c rule: replace_loop_induct [where ok = ok])
  case (End xs pos c)
  have "\<not> field_at xs pat p" if "pos \<le> p" for p
    using that End(1) by (simp add: field_at_def occurs_at_def)
  then show ?case by (simp add: End(2) fields_rewritten_def)
next
  case (Match xs pos c)
  have field: "field_at xs pat pos" using Match(2, 3) by (simp add: field_at_def ok_def)
  have "Suc c \<le> snd (replace_loop ok pat w (write_at xs pos w) (pos + length pat) (Suc c))"
    using replace_loop_length [OF assms(1, 2)] by blast
  then show ?case
    using fields_rewritten_match [OF assms(1-4) field] Match(4, 5) field by (auto simp del: not_ex)
next
  case (Skip xs pos c)
  have no: "\<not> field_at xs pat pos" using Skip(2) by (simp add: field_at_def ok_def)
  have "(\<exists>p \<ge> pos. field_at xs pat p \<and> Q p) = (\<exists>p \<ge> Suc pos. field_at xs pat p \<and> Q p)" for Q
    using no by (metis Suc_leD Suc_leI le_neq_implies_less)
  note ex = this this [of "\<lambda>_. True", simplified]
  have "(\<forall>p \<ge> pos. field_at xs pat p \<longrightarrow> Q p) = (\<forall>p \<ge> Suc pos. field_at xs pat p \<longrightarrow> Q p)" for Q
    using no by (metis Suc_leD Suc_leI le_neq_implies_less)
  then show ?case using Skip(4) by (simp add: Skip(3) fields_rewritten_def ex)
qed

lemma replace_country_field_spec:
  assumes "pat \<noteq> []" and "length w = length pat" and "0 \<notin> set pat" and "0 \<notin> set w"
    and "replace_country_field xs pat w = (ys, n)"
  shows "fields_rewritten pat w 0 xs ys \<and> (n = 0 \<longleftrightarrow> \<not> (\<exists>p. field_at xs pat p))"
proof (cases "length xs < length pat")
  case True
  then have "\<not> field_at xs pat p" for p by (simp add: field_at_def occurs_at_def)
  then show ?thesis using True assms(5) by (auto simp: replace_country_field_def fields_rewritten_def)
next
  case False
  then have "replace_loop (\<lambda>xs i. is_country_field xs i (length pat)) pat w xs 0 0 = (ys, n)"
    using assms(1, 5) by (simp add: replace_country_field_def)
  then show ?thesis
    using replace_loop_fields [OF assms(1-4), of 0 xs 0] by simp
qed

section \<open>Both scans\<close>

text \<open>The stored country fields of an image: the old code with either suffix.\<close>

definition code_field :: "byte list \<Rightarrow> string \<Rightarrow> nat \<Rightarrow> bool" where
  "code_field xs code p \<longleftrightarrow>
     field_at xs (as_bytes (code @ ''XE'')) p \<or> field_at xs (as_bytes (code @ ''XX'')) p"

lemma field_at_unchanged:
  assumes "same_nuls ys xs" and "field_at xs a p" and "occurs_at ys b p" and "length b = length a" and "a \<noteq> []"
  shows "field_at ys b p"
  using assms is_country_field_same [OF assms(1), of p "length a"]
  by (auto simp: field_at_def occurs_at_def)

lemma field_at_same_nuls:
  assumes "same_nuls ys xs" and "field_at ys b p" and "occurs_at xs b p" and "b \<noteq> []"
  shows "field_at xs b p"
  using assms is_country_field_same [OF assms(1), of p "length b"]
  by (auto simp: field_at_def occurs_at_def same_nuls_def)

lemma two_scans:
  assumes "a \<noteq> []" and "length b = length a" "length w = length a" and "a \<noteq> b"
    and "0 \<notin> set a" "0 \<notin> set b" "0 \<notin> set w"
    and "fields_rewritten a w 0 xs ys" and "fields_rewritten b w 0 ys zs"
  shows "length zs = length xs \<and> (\<forall>p. field_at xs a p \<or> field_at xs b p \<longrightarrow> occurs_at zs w p) \<and>
    (\<forall>j < length xs. zs ! j \<noteq> xs ! j \<longrightarrow>
       (\<exists>p. (field_at xs a p \<or> field_at xs b p) \<and> p \<le> j \<and> j < p + length w)) \<and>
    (\<forall>p. field_at ys b p \<longrightarrow> field_at xs a p \<or> field_at xs b p)"
proof -
  have ys: "same_nuls ys xs" "\<And>p. field_at xs a p \<Longrightarrow> occurs_at ys w p"
    "\<And>j. j < length xs \<Longrightarrow> ys ! j \<noteq> xs ! j \<Longrightarrow> \<exists>p. field_at xs a p \<and> p \<le> j \<and> j < p + length a"
    using assms(8) by (auto simp: fields_rewritten_def)
  have zs: "same_nuls zs ys" "\<And>p. field_at ys b p \<Longrightarrow> occurs_at zs w p"
    "\<And>j. j < length xs \<Longrightarrow> zs ! j \<noteq> ys ! j \<Longrightarrow> \<exists>p. field_at ys b p \<and> p \<le> j \<and> j < p + length b"
    using assms(9) ys(1) by (auto simp: fields_rewritten_def same_nuls_def)
  have new: "field_at ys w p" if "field_at xs a p" for p
    by (rule field_at_unchanged [OF ys(1) that ys(2) [OF that] assms(3, 1)])
  have len: "length zs = length xs" "length ys = length xs" using ys(1) zs(1) by (simp_all add: same_nuls_def)
  have kept: "field_at ys b p" if f: "field_at xs b p" for p
  proof -
    have "ys ! (p + k) = xs ! (p + k)" if k: "k < length b" for k
    proof (rule ccontr)
      assume ch: "\<not> ?thesis"
      have "p + k < length xs" using f k by (simp add: field_at_def occurs_at_def)
      then obtain q where q: "field_at xs a q" "q \<le> p + k" "p + k < q + length a"
        using ys(3) ch by blast
      have "q = p"
        by (rule fields_apart [OF q(1) f assms(5, 6) assms(2) [symmetric] q(2, 3)]) (use k in auto)
      then show False using q(1) f assms(2, 4) by (simp add: field_at_def occurs_at_def)
    qed
    then have "occurs_at ys b p" using f len by (simp add: field_at_def occurs_at_iff)
    moreover have "b \<noteq> []" using assms(1, 2) by auto
    ultimately show ?thesis using field_at_unchanged [OF ys(1) f] by blast
  qed
  have old: "field_at xs a p \<or> field_at xs b p" if f: "field_at ys b p" for p
  proof (rule disjCI)
    assume no: "\<not> field_at xs b p"
    have "occurs_at ys b p" using f by (simp add: field_at_def)
    have "b \<noteq> []" using assms(1, 2) by auto
    then have "\<not> occurs_at xs b p" using field_at_same_nuls [OF ys(1) f] no by blast
    then obtain k where k: "k < length b" "ys ! (p + k) \<noteq> xs ! (p + k)"
      using \<open>occurs_at ys b p\<close> len by (auto simp: occurs_at_iff)
    have "p + k < length xs" using k \<open>occurs_at ys b p\<close> len by (simp add: occurs_at_def)
    then obtain q where q: "field_at xs a q" "q \<le> p + k" "p + k < q + length a" using ys(3) k by blast
    have "q = p"
      by (rule fields_apart [OF new [OF q(1)] f assms(7, 6)]) (use q k assms(2, 3) in auto)
    then show "field_at xs a p" using q by simp
  qed
  have "occurs_at zs w p" if f: "field_at xs a p" for p
  proof (cases "field_at ys b p")
    case False
    have "zs ! (p + k) = ys ! (p + k)" if k: "k < length w" for k
    proof (rule ccontr)
      assume ch: "\<not> ?thesis"
      have "p + k < length xs" using f k assms(3) by (simp add: field_at_def occurs_at_def)
      then obtain q where q: "field_at ys b q" "q \<le> p + k" "p + k < q + length b" using zs(3) ch by blast
      have "q = p"
        by (rule fields_apart [OF q(1) new [OF f] assms(6, 7)]) (use q k assms(2, 3) in auto)
      then show False using q False by simp
    qed
    then show ?thesis using ys(2) [OF f] len by (simp add: occurs_at_iff)
  qed (rule zs(2))
  moreover have "\<exists>p. (field_at xs a p \<or> field_at xs b p) \<and> p \<le> j \<and> j < p + length w"
    if "j < length xs" "zs ! j \<noteq> xs ! j" for j
    using that ys(3) [of j] zs(3) [of j] old assms(2, 3) by metis
  ultimately show ?thesis using len kept zs(2) old by blast
qed

lemma replace_code_field_only:
  assumes "length new = length old" and "old \<noteq> []" and "0 \<notin> set (as_bytes old)" and "0 \<notin> set (as_bytes new)"
    and "replace_code True xs old new = Inr (ys, n)"
  shows "fields_rewritten (as_bytes old) (as_bytes new) 0 xs ys \<and>
    (n = 0 \<longleftrightarrow> \<not> (\<exists>p. field_at xs (as_bytes old) p))"
  using assms by (intro replace_country_field_spec) (auto simp: replace_code_def as_bytes_def)

lemma as_bytes_eq_Nil: "as_bytes s = [] \<longleftrightarrow> s = []"
  by (simp add: as_bytes_def)

lemma suffix_no_nul: "0 \<notin> set (as_bytes ''XE'')" "0 \<notin> set (as_bytes ''XX'')"
  by (simp_all add: as_bytes_def of_char_def)

text \<open>
  (C19) Patching the country code of an image that holds other text, like the logs of \<open>persist\<close>: the
  patch reports a change exactly when the image holds a stored field of the old code (at an ext4
  block or behind a NUL, and followed by a NUL or the end), with either suffix. It then writes an
  image of the same length in which every such field has become the new code with the suffix of its
  region, and in which every other byte is the old one; the verification behind the patch cannot
  fail. Without such a field the image is copied.
\<close>

theorem patch_country_code_fields:
  assumes "files d inp = Some data" and "length old_code = length new_code"
    and "0 \<notin> set (as_bytes old_code)" and "0 \<notin> set (as_bytes new_code)"
  shows "if \<exists>p. code_field data old_code p
    then \<exists>out. patch_country_code d inp outp old_code new_code eu_codes True =
          bind_r (fs_write d outp out) (\<lambda>d'. Inr (d', True)) \<and>
        length out = length data \<and>
        (\<forall>p. code_field data old_code p \<longrightarrow> occurs_at out (as_bytes (written_code new_code eu_codes)) p) \<and>
        (\<forall>j < length data. out ! j \<noteq> data ! j \<longrightarrow>
          (\<exists>p. code_field data old_code p \<and> p \<le> j \<and> j < p + (length old_code + 2)))
    else patch_country_code d inp outp old_code new_code eu_codes True =
      bind_r (fs_copy d inp outp) (\<lambda>d'. Inr (d', False))"
proof -
  let ?code = "written_code new_code eu_codes"
  have code: "length ?code = length old_code + 2" "0 \<notin> set (as_bytes ?code)"
    using assms(2, 4) suffix_no_nul by (auto simp: written_code_def)
  obtain ys n1 zs n2
    where 1: "replace_code True data (old_code @ ''XE'') ?code = Inr (ys, n1)"
      and 2: "replace_code True ys (old_code @ ''XX'') ?code = Inr (zs, n2)"
    by (simp add: replace_code_def) (metis surj_pair)
  have A: "fields_rewritten (as_bytes (old_code @ ''XE'')) (as_bytes ?code) 0 data ys"
    "n1 = 0 \<longleftrightarrow> \<not> (\<exists>p. field_at data (as_bytes (old_code @ ''XE'')) p)"
    using replace_code_field_only [OF _ _ _ code(2) 1] code(1) assms(3) suffix_no_nul by auto
  have B: "fields_rewritten (as_bytes (old_code @ ''XX'')) (as_bytes ?code) 0 ys zs"
    "n2 = 0 \<longleftrightarrow> \<not> (\<exists>p. field_at ys (as_bytes (old_code @ ''XX'')) p)"
    using replace_code_field_only [OF _ _ _ code(2) 2] code(1) assms(3) suffix_no_nul by auto
  have two: "length zs = length data \<and>
      (\<forall>p. code_field data old_code p \<longrightarrow> occurs_at zs (as_bytes ?code) p) \<and>
      (\<forall>j < length data. zs ! j \<noteq> data ! j \<longrightarrow>
        (\<exists>p. code_field data old_code p \<and> p \<le> j \<and> j < p + (length old_code + 2))) \<and>
      (\<forall>p. field_at ys (as_bytes (old_code @ ''XX'')) p \<longrightarrow> code_field data old_code p)"
    using two_scans [OF _ _ _ _ _ _ _ A(1) B(1)] code assms(3) suffix_no_nul
    by (simp add: code_field_def as_bytes_eq_Nil)
  have run: "patch_country_code d inp outp old_code new_code eu_codes True =
      (if n1 + n2 = 0 then bind_r (fs_copy d inp outp) (\<lambda>d'. Inr (d', False))
       else if count_occurrences zs (as_bytes ?code) = 0 then Inl (SuffixNotPresent ?code)
       else bind_r (fs_write d outp zs) (\<lambda>d'. Inr (d', True)))"
    using assms(1, 2) by (simp add: patch_country_code_def fs_read_def Let_def 1 2)
  show ?thesis
  proof (cases "\<exists>p. code_field data old_code p")
    case True
    then obtain p where p: "occurs_at zs (as_bytes ?code) p" using two by blast
    then have "count_occurrences zs (as_bytes ?code) \<noteq> 0"
      using count_occurrences_pos [of "as_bytes ?code" zs] code(1)
      by (cases "as_bytes ?code = []") (auto simp: as_bytes_eq_Nil)
    moreover have "n1 + n2 \<noteq> 0"
    proof
      assume "n1 + n2 = 0"
      then have n: "n1 = 0" "n2 = 0" by simp_all
      then have "ys = data"
        using A by (auto simp: fields_rewritten_def same_nuls_def list_eq_iff_nth_eq)
      then show False using A(2) B(2) n True by (auto simp: code_field_def)
    qed
    ultimately show ?thesis using run two True by auto
  next
    case False
    then have "n1 = 0" "n2 = 0" using A(2) B(2) two by (auto simp: code_field_def)
    then show ?thesis using run False by simp
  qed
qed

definition country_disk :: disk where
  "country_disk = \<lparr>files = [''in'' \<mapsto> as_bytes ''CNXX''], writable = (\<lambda>_. True)\<rparr>"

lemma country_disk_field: "code_field (as_bytes ''CNXX'') ''CN'' 0"
  by (simp add: code_field_def field_at_def occurs_at_def is_country_field_def window_def)

theorem patch_country_code_fields_witness:
  "\<exists>out. patch_country_code country_disk ''in'' ''out'' ''CN'' ''DE'' EU_COUNTRY_CODES True =
     bind_r (fs_write country_disk ''out'' out) (\<lambda>d'. Inr (d', True)) \<and>
     occurs_at out (as_bytes ''DEXE'') 0"
proof -
  have nul: "0 \<notin> set (as_bytes ''CN'')" "0 \<notin> set (as_bytes ''DE'')"
    by (simp_all add: as_bytes_def of_char_def)
  have code: "written_code ''DE'' EU_COUNTRY_CODES = ''DEXE''"
    by (simp add: written_code_def EU_COUNTRY_CODES_def)
  have "files country_disk ''in'' = Some (as_bytes ''CNXX'')" by (simp add: country_disk_def)
  from patch_country_code_fields [OF this _ nul, of "''out''" EU_COUNTRY_CODES] show ?thesis
    using country_disk_field unfolding code by (auto split: if_splits)
qed

end
