(* ===== verification/Operation.thy ===== *)
theory Operation
  imports Prelude
begin

text \<open>
  The foreground operation of the program (\<open>operation_execution.rs\<close>, \<open>operation_phase.rs\<close>): which
  workflow owns the device, the phases its worker reports, and the identifiers by which completions
  of earlier runs are recognised. The progress of a run is a cell that the worker and the interface
  share (an \<open>Arc\<close>); the cells are kept in a store, so that two reporters are the same run exactly
  when they name the same cell.
\<close>

section \<open>Kinds of operations\<close>

datatype app_view = Dashboard | FlashView | SystemUpdateView | RootView | UnrootView | KonaBessView
  | RebootView | AdvancedView | SettingsView | AboutView

datatype adv_action = RegionConvert | ImageInfo | PatchDevinfo | DetectArb | PatchArb | ConvertXml
  | DumpPartitions | DumpPhysical | FlashPartitions | FlashPhysical | RebuildVbmeta | SimpleFlash

definition is_destructive :: "adv_action \<Rightarrow> bool" where
  "is_destructive a \<longleftrightarrow> a \<in> {FlashPartitions, FlashPhysical, SimpleFlash}"

datatype phase_kind =
    PhFlash | PhRoot | PhUnroot | PhSysUpdateDisable | PhSysUpdateEnable | PhBootRecovery |
  PhChangeCountry | PhDetectArb | PhSimpleFlash | PhFlashPartitions | PhDumpPartitions |
  PhFlashPhysical | PhDumpPhysical | PhOfflineConvertXml | PhRegionConversion | PhPatchArb |
  PhRebuildVbmeta | PhKonaBess

definition all_phase_kinds :: "phase_kind list" where
  "all_phase_kinds =
     [PhFlash, PhRoot, PhUnroot, PhSysUpdateDisable, PhSysUpdateEnable,
      PhBootRecovery, PhChangeCountry, PhDetectArb, PhSimpleFlash, PhFlashPartitions,
      PhDumpPartitions, PhFlashPhysical, PhDumpPhysical, PhOfflineConvertXml, PhRegionConversion,
      PhPatchArb, PhRebuildVbmeta, PhKonaBess]"

definition for_advanced_file :: "adv_action \<Rightarrow> phase_kind option" where
  "for_advanced_file action =
     (case action of
        ConvertXml \<Rightarrow> Some PhOfflineConvertXml
      | RegionConvert \<Rightarrow> Some PhRegionConversion
      | PatchArb \<Rightarrow> Some PhPatchArb
      | RebuildVbmeta \<Rightarrow> Some PhRebuildVbmeta
      | _ \<Rightarrow> None)"

definition firmware_progress_step :: "phase_kind \<Rightarrow> nat option" where
  "firmware_progress_step k =
     (if k = PhFlash then Some 7 else if k = PhSimpleFlash then Some 3 else None)"

fun phase_keys :: "phase_kind \<Rightarrow> string list" where
  "phase_keys PhFlash =
     [''op_flash_phase_1'', ''op_flash_phase_2'', ''op_flash_phase_3'', ''op_flash_phase_4'',
      ''op_flash_phase_5'', ''op_flash_phase_6'', ''op_flash_phase_7'', ''op_flash_phase_8'',
      ''op_flash_phase_9'']"
| "phase_keys PhRoot =
     [''op_root_phase_1'', ''op_root_phase_2'', ''op_root_phase_3'', ''op_root_phase_4'',
      ''op_root_phase_5'', ''op_root_phase_6'', ''op_root_phase_7'', ''op_root_phase_8'']"
| "phase_keys PhUnroot =
     [''op_unroot_phase_1'', ''op_unroot_phase_2'', ''op_unroot_phase_3'', ''op_unroot_phase_4'',
      ''op_unroot_phase_5'', ''op_unroot_phase_6'']"
| "phase_keys PhSysUpdateDisable =
     [''op_sys_phase_adb'', ''op_sys_disable_phase_policy'', ''op_sys_disable_phase_packages'']"
| "phase_keys PhSysUpdateEnable =
     [''op_sys_phase_adb'', ''op_sys_enable_phase_policy'', ''op_sys_enable_phase_packages'']"
| "phase_keys PhBootRecovery =
     [''op_rescue_phase_1'', ''op_rescue_phase_2'', ''op_rescue_phase_3'', ''op_rescue_phase_4'',
      ''op_rescue_phase_5'', ''op_rescue_phase_6'', ''op_rescue_phase_7'']"
| "phase_keys PhChangeCountry =
     [''op_country_phase_validate'', ''op_phase_enter_edl_firehose'',
      ''op_country_phase_backup'', ''op_country_phase_apply'', ''op_phase_reboot_system'']"
| "phase_keys PhDetectArb =
     [''op_arb_phase_fastboot'', ''op_arb_phase_read'', ''op_arb_phase_edl'',
      ''op_arb_phase_result'', ''op_phase_reboot_system'']"
| "phase_keys PhSimpleFlash =
     [''op_simple_phase_prepare'', ''op_phase_enter_edl_firehose'', ''op_simple_phase_write'',
      ''op_simple_phase_slot'', ''op_phase_reboot_system'']"
| "phase_keys PhFlashPartitions =
     [''op_phase_open_firehose'', ''op_flashparts_phase_write'', ''op_phase_reboot_system'']"
| "phase_keys PhDumpPartitions =
     [''op_phase_open_firehose'', ''op_dumpparts_phase_read'', ''op_phase_stabilize_usb'',
      ''op_phase_reboot_system'']"
| "phase_keys PhFlashPhysical =
     [''op_phase_enter_edl'', ''op_phase_open_firehose'', ''op_flashphys_phase_write'',
      ''op_phase_reboot_system'']"
| "phase_keys PhDumpPhysical =
     [''op_phase_enter_edl'', ''op_phase_open_firehose'', ''op_dumpphys_phase_read'',
      ''op_phase_stabilize_usb'', ''op_phase_reboot_system'']"
| "phase_keys PhOfflineConvertXml =
     [''op_xml_phase_scan'', ''op_xml_phase_decrypt'', ''op_offline_phase_finalize'']"
| "phase_keys PhRegionConversion =
     [''op_region_phase_validate'', ''op_region_phase_inspect'', ''op_region_phase_patch'',
      ''op_region_phase_finalize'']"
| "phase_keys PhPatchArb =
     [''op_patch_arb_phase_inspect'', ''op_patch_arb_phase_keys'', ''op_patch_arb_phase_boot'',
      ''op_patch_arb_phase_vbmeta'']"
| "phase_keys PhRebuildVbmeta =
     [''op_vbmeta_phase_inspect'', ''op_vbmeta_phase_rebuild'', ''op_offline_phase_finalize'']"
| "phase_keys PhKonaBess =
     [''op_konabess_phase_prepare'', ''op_konabess_phase_dump'', ''op_konabess_phase_inspect'',
      ''op_konabess_phase_patch'', ''op_konabess_phase_rebuild'', ''op_konabess_phase_flash'',
      ''op_phase_reboot_system'']"

section \<open>Phase reporters\<close>

record operation_progress =
  pg_step :: nat
  pg_writes_started :: bool

record progress_store =
  cells :: "nat \<Rightarrow> operation_progress"
  next_cell :: nat

record phase_reporter =
  pr_labels :: "string list"
  pr_cell :: nat

text \<open>\<open>None\<close> is a panic: an empty plan, or a marker that is not in it.\<close>

definition from_labels ::
    "string list \<Rightarrow> progress_store \<Rightarrow> (phase_reporter \<times> progress_store) option" where
  "from_labels ls st =
     (if ls = [] then None
      else Some (\<lparr>pr_labels = ls, pr_cell = next_cell st\<rparr>,
                 st\<lparr>cells := (cells st)(next_cell st := \<lparr>pg_step = 0, pg_writes_started = False\<rparr>),
                    next_cell := next_cell st + 1\<rparr>))"

definition marker :: "phase_reporter \<Rightarrow> nat \<Rightarrow> progress_store \<Rightarrow> progress_store option" where
  "marker r one_based st =
     (if one_based = 0 \<or> length (pr_labels r) < one_based then None
      else Some (st\<lparr>cells := (cells st)(pr_cell r := (cells st (pr_cell r))\<lparr>pg_step := one_based - 1\<rparr>)\<rparr>))"

definition reporter_step :: "progress_store \<Rightarrow> phase_reporter \<Rightarrow> nat" where
  "reporter_step st r = pg_step (cells st (pr_cell r))"

definition mark_writes_started :: "phase_reporter \<Rightarrow> progress_store \<Rightarrow> progress_store" where
  "mark_writes_started r st =
     st\<lparr>cells := (cells st)(pr_cell r := (cells st (pr_cell r))\<lparr>pg_writes_started := True\<rparr>)\<rparr>"

definition reporter_writes_started :: "progress_store \<Rightarrow> phase_reporter \<Rightarrow> bool" where
  "reporter_writes_started st r = pg_writes_started (cells st (pr_cell r))"

section \<open>Ownership\<close>

datatype operation_kind = Unphased | Phased phase_kind | Cleanup | SelfUpdate

record active_operation =
  ao_id :: u64
  ao_view :: "app_view option"
  ao_kind :: operation_kind
  ao_reporter :: "phase_reporter option"
  ao_completion_bound :: bool

record operation_execution =
  generation :: u64
  active :: "active_operation option"
  op_steps :: "string list"
  completed_step :: nat
  oe_writes_started :: bool

definition operation_default :: operation_execution where
  "operation_default = \<lparr>generation = 0, active = None, op_steps = [], completed_step = 0,
     oe_writes_started = False\<rparr>"

text \<open>\<open>None\<close> is a panic: an operation already owns the execution, or the identifiers are used up.\<close>

definition op_start ::
    "operation_execution \<Rightarrow> app_view option \<Rightarrow> operation_kind \<Rightarrow> phase_reporter option \<Rightarrow>
     operation_execution option" where
  "op_start e v kind reporter =
     (if active e \<noteq> None \<or> generation e = - 1 then None
      else let g = generation e + 1 in
        Some (e\<lparr>generation := g, op_steps := (case reporter of None \<Rightarrow> [] | Some r \<Rightarrow> pr_labels r),
          completed_step := 0, oe_writes_started := False,
          active := Some \<lparr>ao_id = g, ao_view = v, ao_kind = kind, ao_reporter = reporter,
                          ao_completion_bound = False\<rparr>\<rparr>))"

definition op_id :: "operation_execution \<Rightarrow> u64 option" where
  "op_id e = map_option ao_id (active e)"

definition bind_completion :: "operation_execution \<Rightarrow> operation_execution \<times> u64 option" where
  "bind_completion e =
     (case active e of
        None \<Rightarrow> (e, None)
      | Some a \<Rightarrow>
          if ao_completion_bound a then (e, None)
          else (e\<lparr>active := Some (a\<lparr>ao_completion_bound := True\<rparr>)\<rparr>, Some (ao_id a)))"

definition is_running :: "operation_execution \<Rightarrow> bool" where
  "is_running e = (case active e of None \<Rightarrow> False | Some a \<Rightarrow> ao_kind a \<noteq> SelfUpdate)"

definition op_view :: "operation_execution \<Rightarrow> app_view option" where
  "op_view e = Option.bind (active e) ao_view"

definition op_phase_kind :: "operation_execution \<Rightarrow> phase_kind option" where
  "op_phase_kind e =
     (case active e of None \<Rightarrow> None | Some a \<Rightarrow> (case ao_kind a of Phased k \<Rightarrow> Some k | _ \<Rightarrow> None))"

definition op_reporter :: "operation_execution \<Rightarrow> phase_reporter option" where
  "op_reporter e = Option.bind (active e) ao_reporter"

definition current_step :: "progress_store \<Rightarrow> operation_execution \<Rightarrow> nat" where
  "current_step st e =
     (case op_reporter e of None \<Rightarrow> completed_step e | Some r \<Rightarrow> reporter_step st r)"

definition writes_started :: "progress_store \<Rightarrow> operation_execution \<Rightarrow> bool" where
  "writes_started st e \<longleftrightarrow>
     oe_writes_started e \<or> (case op_reporter e of None \<Rightarrow> False | Some r \<Rightarrow> reporter_writes_started st r)"

definition op_finish :: "progress_store \<Rightarrow> bool \<Rightarrow> operation_execution \<Rightarrow> operation_execution" where
  "op_finish st success e =
     e\<lparr>completed_step := (if success \<and> op_steps e \<noteq> [] then length (op_steps e) - 1
                         else current_step st e),
       oe_writes_started := writes_started st e, active := None\<rparr>"

definition set_completed_step :: "nat \<Rightarrow> operation_execution \<Rightarrow> operation_execution" where
  "set_completed_step n e = e\<lparr>completed_step := min n (length (op_steps e) - 1)\<rparr>"

text \<open>
  The entry of a completion message: it is dispatched only when its identifier is the one of the
  operation that runs.
\<close>

definition completion_accepted :: "operation_execution \<Rightarrow> u64 \<Rightarrow> bool" where
  "completion_accepted e i \<longleftrightarrow> op_id e = Some i"

text \<open>The progress that the interface shows while firmware is written.\<close>

definition firmware_write_progress_phase_active :: "progress_store \<Rightarrow> operation_execution \<Rightarrow> bool" where
  "firmware_write_progress_phase_active st e =
     (if \<not> is_running e then False
      else case Option.bind (op_phase_kind e) firmware_progress_step of
             None \<Rightarrow> False
           | Some s \<Rightarrow> current_step st e + 1 = s)"

section \<open>Runs\<close>

text \<open>
  What can happen to the execution: the interface starts and finishes operations, binds their
  completion and restores a progress display; the workers, including those of runs that are over,
  report phases and writes through any reporter that was ever made.
\<close>

record op_world =
  ow_exec :: operation_execution
  ow_store :: progress_store
  ow_reporters :: "phase_reporter list"

definition op_world_init :: op_world where
  "op_world_init = \<lparr>ow_exec = operation_default,
     ow_store = \<lparr>cells = (\<lambda>_. \<lparr>pg_step = 0, pg_writes_started = False\<rparr>), next_cell = 0\<rparr>,
     ow_reporters = []\<rparr>"

inductive op_step :: "op_world \<Rightarrow> op_world \<Rightarrow> bool" where
  start: "op_start (ow_exec w) v kind None = Some e \<Longrightarrow> op_step w (w\<lparr>ow_exec := e\<rparr>)"
| start_phased:
    "from_labels ls (ow_store w) = Some (r, st) \<Longrightarrow> op_start (ow_exec w) v kind (Some r) = Some e \<Longrightarrow>
     op_step w \<lparr>ow_exec = e, ow_store = st, ow_reporters = r # ow_reporters w\<rparr>"
| bind: "op_step w (w\<lparr>ow_exec := fst (bind_completion (ow_exec w))\<rparr>)"
| report_phase:
    "r \<in> set (ow_reporters w) \<Longrightarrow> marker r n (ow_store w) = Some st \<Longrightarrow> op_step w (w\<lparr>ow_store := st\<rparr>)"
| report_writes:
    "r \<in> set (ow_reporters w) \<Longrightarrow> op_step w (w\<lparr>ow_store := mark_writes_started r (ow_store w)\<rparr>)"
| finish: "op_step w (w\<lparr>ow_exec := op_finish (ow_store w) success (ow_exec w)\<rparr>)"
| restore: "op_step w (w\<lparr>ow_exec := set_completed_step n (ow_exec w)\<rparr>)"

abbreviation op_run :: "op_world \<Rightarrow> op_world \<Rightarrow> bool" where
  "op_run \<equiv> op_step\<^sup>*\<^sup>*"

text \<open>What every run keeps: identifiers and cells are never used twice.\<close>

definition op_inv :: "op_world \<Rightarrow> bool" where
  "op_inv w \<longleftrightarrow>
     (\<forall>r \<in> set (ow_reporters w). pr_cell r < next_cell (ow_store w)) \<and>
     (\<forall>i. op_id (ow_exec w) = Some i \<longrightarrow> i \<le> generation (ow_exec w)) \<and>
     (\<forall>r. op_reporter (ow_exec w) = Some r \<longrightarrow> r \<in> set (ow_reporters w))"

lemmas exec_defs = op_id_def op_reporter_def op_start_def op_finish_def set_completed_step_def
  bind_completion_def from_labels_def marker_def mark_writes_started_def

lemma op_inv_init: "op_inv op_world_init"
  by (simp add: op_inv_def op_world_init_def operation_default_def op_id_def op_reporter_def)

lemma op_step_inv: "op_step w w' \<Longrightarrow> op_inv w \<Longrightarrow> op_inv w'"
  by (induction rule: op_step.induct)
    (auto simp: op_inv_def exec_defs Let_def split: if_splits option.splits)

lemma op_run_inv: "op_run w w' \<Longrightarrow> op_inv w \<Longrightarrow> op_inv w'"
  by (induction rule: rtranclp_induct) (auto intro: op_step_inv)

section \<open>Runs that are over\<close>

text \<open>
  Once a run with identifier \<open>i\<close> is over: later identifiers are larger, and no later operation
  shares a cell with the reporters made so far.
\<close>

definition run_over :: "u64 \<Rightarrow> phase_reporter list \<Rightarrow> op_world \<Rightarrow> bool" where
  "run_over i rs w \<longleftrightarrow>
     i \<le> generation (ow_exec w) \<and> (\<forall>j. op_id (ow_exec w) = Some j \<longrightarrow> i < j) \<and>
     (\<forall>r \<in> set rs. pr_cell r < next_cell (ow_store w)) \<and>
     (\<forall>q. op_reporter (ow_exec w) = Some q \<longrightarrow> (\<forall>r \<in> set rs. pr_cell q \<noteq> pr_cell r))"

lemma less_increment:
  assumes "(g :: u64) \<noteq> - 1" and "i \<le> g"
  shows "i < g + 1" and "i \<le> g + 1"
proof -
  have "1 + g \<noteq> 0" using assms(1) by (metis add.commute eq_neg_iff_add_eq_0)
  then have "unat (g + 1) = Suc (unat g)" by (simp add: unatSuc add.commute)
  then show "i < g + 1" "i \<le> g + 1" using assms(2) by (simp_all add: word_less_nat_alt word_le_nat_alt)
qed

lemma run_over_finish:
  "op_inv w \<Longrightarrow> op_id (ow_exec w) = Some i \<Longrightarrow>
   run_over i (ow_reporters w) (w\<lparr>ow_exec := op_finish (ow_store w) success (ow_exec w)\<rparr>)"
  by (auto simp: run_over_def op_inv_def exec_defs)

lemma run_over_step: "op_step w w' \<Longrightarrow> run_over i rs w \<Longrightarrow> run_over i rs w'"
  by (induction rule: op_step.induct)
    (fastforce simp: run_over_def exec_defs Let_def intro!: less_increment
      split: if_splits option.splits)+

lemma run_over_run: "op_run w w' \<Longrightarrow> run_over i rs w \<Longrightarrow> run_over i rs w'"
  by (induction rule: rtranclp_induct) (auto intro: run_over_step)

lemma other_cell:
  assumes "\<And>q. op_reporter e = Some q \<Longrightarrow> pr_cell q \<noteq> c"
  shows "current_step (st\<lparr>cells := (cells st)(c := x)\<rparr>) e = current_step st e"
    and "writes_started (st\<lparr>cells := (cells st)(c := x)\<rparr>) e = writes_started st e"
  using assms
  by (auto simp: current_step_def writes_started_def reporter_step_def reporter_writes_started_def
      split: option.splits)

text \<open>
  (C21) When a run of the foreground operation is over, nothing of it reaches a later run, however
  the interface and the workers go on: its completion messages are no longer accepted, and its
  reporters can neither move the phase display nor mark writes of the operation that runs then.
\<close>

theorem finished_run_is_isolated:
  assumes "op_run op_world_init w" and "op_id (ow_exec w) = Some i"
    and "op_run (w\<lparr>ow_exec := op_finish (ow_store w) success (ow_exec w)\<rparr>) w'"
  shows "\<not> completion_accepted (ow_exec w') i \<and>
    (\<forall>r \<in> set (ow_reporters w). \<forall>n st. marker r n (ow_store w') = Some st \<longrightarrow>
       current_step st (ow_exec w') = current_step (ow_store w') (ow_exec w')) \<and>
    (\<forall>r \<in> set (ow_reporters w).
       writes_started (mark_writes_started r (ow_store w')) (ow_exec w') =
         writes_started (ow_store w') (ow_exec w'))"
proof -
  have "op_inv w" by (rule op_run_inv [OF assms(1) op_inv_init])
  then have over: "run_over i (ow_reporters w) w'"
    using run_over_finish assms(2) run_over_run [OF assms(3)] by blast
  then have "\<And>r q. r \<in> set (ow_reporters w) \<Longrightarrow> op_reporter (ow_exec w') = Some q \<Longrightarrow> pr_cell q \<noteq> pr_cell r"
    by (auto simp: run_over_def)
  then show ?thesis
    using over by (auto simp: run_over_def completion_accepted_def marker_def mark_writes_started_def
        other_cell split: if_splits)
qed

text \<open>A root run that fails, and a second one: the late completion of the first is dropped.\<close>

definition first_run :: op_world where
  "first_run =
     (let (r, st) = the (from_labels (phase_keys PhRoot) (ow_store op_world_init))
      in \<lparr>ow_exec = the (op_start operation_default (Some RootView) (Phased PhRoot) (Some r)),
          ow_store = st, ow_reporters = [r]\<rparr>)"

lemma first_run_starts: "op_run op_world_init first_run" "op_id (ow_exec first_run) = Some 1"
proof -
  obtain r st where labels: "from_labels (phase_keys PhRoot) (ow_store op_world_init) = Some (r, st)"
    by (simp add: from_labels_def)
  obtain e where start: "op_start operation_default (Some RootView) (Phased PhRoot) (Some r) = Some e"
    by (simp add: op_start_def operation_default_def Let_def)
  have run: "first_run = \<lparr>ow_exec = e, ow_store = st, ow_reporters = r # ow_reporters op_world_init\<rparr>"
    unfolding first_run_def Let_def labels option.sel prod.case start by (simp add: op_world_init_def)
  have "op_start (ow_exec op_world_init) (Some RootView) (Phased PhRoot) (Some r) = Some e"
    using start by (simp add: op_world_init_def)
  from op_step.start_phased [OF labels this] show "op_run op_world_init first_run"
    unfolding run by (rule r_into_rtranclp)
  show "op_id (ow_exec first_run) = Some 1"
    using start by (auto simp: run op_start_def op_id_def operation_default_def Let_def)
qed

theorem finished_run_is_isolated_witness:
  "\<not> completion_accepted (op_finish (ow_store first_run) False (ow_exec first_run)) 1"
  using finished_run_is_isolated [OF first_run_starts, of False, OF rtranclp.rtrancl_refl] by simp

end
