(* ===== verification/Model_Profiles.thy ===== *)
theory Model_Profiles
  imports Rust_Str
begin

text \<open>
  The device models (\<open>ltbox-core\<close>: \<open>model.rs\<close>, \<open>model/capabilities.rs\<close>): the match of a model token
  in a fingerprint, the equivalent models, and the profile of every model, which says what the
  program may do to it.
\<close>

section \<open>Model tokens\<close>

definition TB320FC_MODEL :: string where "TB320FC_MODEL = ''TB320FC''"
definition LAVIE_TAB_9QHD1_MODEL :: string where "LAVIE_TAB_9QHD1_MODEL = ''LAVIETab9QHD1''"
definition TB324ZC_MODEL :: string where "TB324ZC_MODEL = ''TB324ZC''"
definition TB376FC_MODEL :: string where "TB376FC_MODEL = ''TB376FC''"
definition TB390FU_MODEL :: string where "TB390FU_MODEL = ''TB390FU''"

definition char_alphanumeric :: "char \<Rightarrow> bool" where
  "char_alphanumeric c \<longleftrightarrow>
     (let n = of_char c :: nat in 48 \<le> n \<and> n \<le> 57 \<or> 65 \<le> n \<and> n \<le> 90 \<or> 97 \<le> n \<and> n \<le> 122)"

definition ascii_lower :: "char \<Rightarrow> char" where
  "ascii_lower c = (let n = of_char c :: nat in if 65 \<le> n \<and> n \<le> 90 then char_of (n + 32) else c)"

definition eq_ignore_ascii_case :: "string \<Rightarrow> string \<Rightarrow> bool" where
  "eq_ignore_ascii_case s t \<longleftrightarrow> map ascii_lower s = map ascii_lower t"

definition is_tb320fc_model :: "string \<Rightarrow> bool" where
  "is_tb320fc_model model \<longleftrightarrow>
     eq_ignore_ascii_case model TB320FC_MODEL \<or> eq_ignore_ascii_case model LAVIE_TAB_9QHD1_MODEL"

definition is_xiaoxin_pro13_model :: "string \<Rightarrow> bool" where
  "is_xiaoxin_pro13_model model \<longleftrightarrow>
     eq_ignore_ascii_case model TB376FC_MODEL \<or> eq_ignore_ascii_case model TB390FU_MODEL"

text \<open>\<open>haystack[start..].find(model)\<close>, as an absolute position.\<close>

definition find_from :: "string \<Rightarrow> string \<Rightarrow> nat \<Rightarrow> nat option" where
  "find_from haystack model start =
     find (\<lambda>i. take (length model) (drop i haystack) = model) [start..<length haystack + 1 - length model]"

lemma find_from_Some:
  assumes "find_from haystack model start = Some p"
  shows "start \<le> p" and "p + length model \<le> length haystack"
    and "take (length model) (drop p haystack) = model"
    and "\<And>i. start \<le> i \<Longrightarrow> i < p \<Longrightarrow> take (length model) (drop i haystack) \<noteq> model"
proof -
  obtain k where k: "k < length haystack + 1 - length model - start" "p = start + k"
    "take (length model) (drop p haystack) = model"
    "\<forall>j < k. take (length model) (drop (start + j) haystack) \<noteq> model"
    using assms by (auto simp: find_from_def find_Some_iff)
  show "start \<le> p" "p + length model \<le> length haystack"
    "take (length model) (drop p haystack) = model" using k by auto
  fix i assume i: "start \<le> i" "i < p"
  then show "take (length model) (drop i haystack) \<noteq> model"
    using k(2) k(4) [THEN spec, of "i - start"] by simp
qed

lemma find_from_range: "find_from haystack model start = Some p \<Longrightarrow> start \<le> p \<and> p \<le> length haystack"
  using find_from_Some(1, 2) [of haystack model start p] by simp

lemma find_from_None:
  "find_from haystack model start = None \<Longrightarrow> start \<le> i \<Longrightarrow> i + length model \<le> length haystack \<Longrightarrow>
   take (length model) (drop i haystack) \<noteq> model"
  by (auto simp: find_from_def find_None_iff)

definition token_bounded :: "string \<Rightarrow> nat \<Rightarrow> nat \<Rightarrow> bool" where
  "token_bounded haystack absolute n \<longleftrightarrow>
     (absolute = 0 \<or> \<not> char_alphanumeric (haystack ! (absolute - 1))) \<and>
     (absolute + n = length haystack \<or> \<not> char_alphanumeric (haystack ! (absolute + n)))"

function token_match_from :: "string \<Rightarrow> string \<Rightarrow> nat \<Rightarrow> bool" where
  "token_match_from haystack model start =
     (case find_from haystack model start of
        None \<Rightarrow> False
      | Some absolute \<Rightarrow>
          if token_bounded haystack absolute (length model) then True
          else token_match_from haystack model (absolute + 1))"
  by pat_completeness auto
termination
  by (relation "measure (\<lambda>(haystack, model, start). length haystack + 1 - start)")
    (auto dest!: find_from_range)

declare token_match_from.simps [simp del]

definition token_match :: "string \<Rightarrow> string \<Rightarrow> bool" where
  "token_match haystack model = (if model = [] then False else token_match_from haystack model 0)"

definition fingerprint_model_match :: "string \<Rightarrow> string \<Rightarrow> bool" where
  "fingerprint_model_match haystack model =
     (if token_match haystack model then True
      else if model = TB320FC_MODEL then token_match haystack LAVIE_TAB_9QHD1_MODEL
      else if model = LAVIE_TAB_9QHD1_MODEL then token_match haystack TB320FC_MODEL
      else if model = TB376FC_MODEL then token_match haystack TB390FU_MODEL
      else if model = TB390FU_MODEL then token_match haystack TB376FC_MODEL
      else False)"

lemma token_match_from_iff:
  "token_match_from haystack model start \<longleftrightarrow>
    (\<exists>p \<ge> start. p + length model \<le> length haystack \<and> take (length model) (drop p haystack) = model \<and>
       token_bounded haystack p (length model))"
proof (induction haystack model start rule: token_match_from.induct)
  case (1 haystack model start)
  show ?case
  proof (cases "find_from haystack model start")
    case None
    then show ?thesis
      using find_from_None [OF None] by (subst token_match_from.simps) auto
  next
    case (Some p)
    note first = find_from_Some [OF Some]
    show ?thesis
    proof (cases "token_bounded haystack p (length model)")
      case True
      then show ?thesis using Some first by (subst token_match_from.simps) auto
    next
      case False
      have "(\<exists>q \<ge> start. Q q \<and> token_bounded haystack q (length model)) \<longleftrightarrow>
          (\<exists>q \<ge> p + 1. Q q \<and> token_bounded haystack q (length model))"
        if "\<And>q. Q q \<Longrightarrow> take (length model) (drop q haystack) = model" for Q
        using that first(1, 4) False
        by (metis Suc_eq_plus1 Suc_leI le_SucI le_neq_implies_less le_trans not_less_eq_eq)
      from this [of "\<lambda>q. q + length model \<le> length haystack \<and> take (length model) (drop q haystack) = model"]
      show ?thesis using Some False 1 [OF Some False] by (subst token_match_from.simps) auto
    qed
  qed
qed

section \<open>Profiles\<close>

definition SUPPORTED_MODELS :: "string list" where
  "SUPPORTED_MODELS = [''TB320FC'', ''TB321FU'', ''TB322FC'', ''TB323FU'', ''TB324ZC'', ''TB376FC'',
     ''TB390FU'', ''TB520FU'', ''TB710FU'']"

datatype rollback_policy = Standard | Unprotected | Gbl | ReadOnly

fun is_protected :: "rollback_policy \<Rightarrow> bool" where
  "is_protected Unprotected = False"
| "is_protected _ = True"

fun permits_index_edit :: "rollback_policy \<Rightarrow> bool" where
  "permits_index_edit ReadOnly = False"
| "permits_index_edit _ = True"

record model_capabilities =
  cap_root :: bool
  gki_root :: bool
  unroot :: bool
  cap_konabess :: bool
  rescue :: bool
  ramdisk_root_uses_boot :: bool
  boot_vbmeta_is_hash :: bool
  root_uses_gbl :: bool
  requires_sahara_manifest :: bool
  dual_usb :: bool
  prc_only :: bool
  region_avb_conversion :: bool
  rollback :: rollback_policy

definition GENERIC :: model_capabilities where
  "GENERIC = \<lparr>cap_root = True, gki_root = True, unroot = True, cap_konabess = True, rescue = True,
     ramdisk_root_uses_boot = False, boot_vbmeta_is_hash = False, root_uses_gbl = False,
     requires_sahara_manifest = False, dual_usb = False, prc_only = False,
     region_avb_conversion = True, rollback = Standard\<rparr>"

definition TB320FC :: model_capabilities where
  "TB320FC = GENERIC\<lparr>ramdisk_root_uses_boot := True, boot_vbmeta_is_hash := True, dual_usb := True\<rparr>"

definition TB321FU :: model_capabilities where
  "TB321FU = GENERIC\<lparr>dual_usb := True\<rparr>"

definition TB322FC :: model_capabilities where
  "TB322FC = GENERIC\<lparr>dual_usb := True, prc_only := True, rollback := Unprotected\<rparr>"

definition TB323FU :: model_capabilities where
  "TB323FU = GENERIC\<lparr>gki_root := False, rescue := False, root_uses_gbl := True,
     requires_sahara_manifest := True, dual_usb := True, region_avb_conversion := False,
     rollback := Gbl\<rparr>"

definition TB324ZC :: model_capabilities where
  "TB324ZC = GENERIC\<lparr>gki_root := False, rescue := False, root_uses_gbl := True,
     requires_sahara_manifest := True, dual_usb := True, prc_only := True,
     region_avb_conversion := False, rollback := Gbl\<rparr>"

definition XIAOXIN_PRO13 :: model_capabilities where
  "XIAOXIN_PRO13 = GENERIC\<lparr>cap_root := False, gki_root := False, unroot := False,
     cap_konabess := False, rescue := False, region_avb_conversion := False, rollback := ReadOnly\<rparr>"

definition PROFILES :: "(string \<times> model_capabilities) list" where
  "PROFILES = zip (SUPPORTED_MODELS @ [LAVIE_TAB_9QHD1_MODEL])
     [TB320FC, TB321FU, TB322FC, TB323FU, TB324ZC, XIAOXIN_PRO13, XIAOXIN_PRO13, GENERIC, GENERIC,
      TB320FC]"

definition capabilities :: "string \<Rightarrow> model_capabilities" where
  "capabilities model =
     (case find (\<lambda>(name, _). eq_ignore_ascii_case name model) PROFILES of
        None \<Rightarrow> GENERIC | Some (_, profile) \<Rightarrow> profile)"

definition fingerprint_capabilities :: "string \<Rightarrow> model_capabilities list" where
  "fingerprint_capabilities fp = map snd (filter (\<lambda>(name, _). token_match fp name) PROFILES)"

definition capabilities_from_fingerprint :: "string \<Rightarrow> model_capabilities option" where
  "capabilities_from_fingerprint fp =
     (case fingerprint_capabilities fp of [] \<Rightarrow> None | p # _ \<Rightarrow> Some p)"

end
