(* ===== verification/Root_Wizard.thy ===== *)
theory Root_Wizard
  imports Operation Model_Profiles Kernel_Version
begin

text \<open>
  The root wizard: its state and navigation (\<open>model/wizard.rs\<close>, the types of \<open>main.rs\<close>) and the
  handler of its messages (\<open>update/root.rs\<close>). The steps have fixed numbers (0 family, 1 mode,
  2 provider, 3 version, 4 nightly source, 8 modules, 5 loader, 6 confirm, 7 run), and the choices
  of the user decide which of them are visited.
\<close>

section \<open>Choices\<close>

datatype family = Magisk | KernelSU | APatch | Skroot

datatype provider = PMagisk | MagiskForks | PKernelSU | KernelSUNext | SukiSU | ReSukiSU | PAPatch
  | FolkPatch

datatype root_mode = Lkm | Gki

datatype skroot_flavor = Lite | Pro

datatype ver_choice = Stable | Nightly

datatype nightly_source = AutoDetect | ManualInput

definition has_modes :: "family \<Rightarrow> bool" where
  "has_modes f \<longleftrightarrow> f \<in> {KernelSU, Skroot}"

fun providers :: "family \<Rightarrow> provider list" where
  "providers Magisk = [PMagisk, MagiskForks]"
| "providers KernelSU = [PKernelSU, KernelSUNext, SukiSU, ReSukiSU]"
| "providers APatch = [PAPatch, FolkPatch]"
| "providers Skroot = []"

section \<open>State and navigation\<close>

record root_wizard =
  rw_step :: nat
  rw_family :: "family option"
  rw_mode :: "root_mode option"
  rw_skroot_flavor :: "skroot_flavor option"
  rw_provider :: "provider option"
  rw_version :: "ver_choice option"
  rw_nightly_source :: "nightly_source option"
  rw_file_path :: "string option"
  rw_folder_path :: "string option"
  rw_kpm_paths :: "string list"
  rw_superkey :: "string option"
  rw_superkey_popup_open :: bool
  rw_superkey_buffer :: string
  rw_superkey_first_entry :: "string option"
  rw_run_id :: "string option"
  rw_run_id_popup_open :: bool
  rw_run_id_buffer :: string
  rw_kernel_version :: "string option"
  rw_kernel_version_popup_open :: bool
  rw_kernel_version_buffer :: string

definition root_default :: root_wizard where
  "root_default = \<lparr>rw_step = 0, rw_family = None, rw_mode = None, rw_skroot_flavor = None,
     rw_provider = None, rw_version = None, rw_nightly_source = None, rw_file_path = None,
     rw_folder_path = None, rw_kpm_paths = [], rw_superkey = None, rw_superkey_popup_open = False,
     rw_superkey_buffer = [], rw_superkey_first_entry = None, rw_run_id = None,
     rw_run_id_popup_open = False, rw_run_id_buffer = [], rw_kernel_version = None,
     rw_kernel_version_popup_open = False, rw_kernel_version_buffer = []\<rparr>"

definition root_is_in_exec :: "root_wizard \<Rightarrow> bool" where
  "root_is_in_exec w \<longleftrightarrow> rw_step w = 7"

definition root_is_on_confirm_step :: "root_wizard \<Rightarrow> bool" where
  "root_is_on_confirm_step w \<longleftrightarrow> rw_step w = 6"

definition is_gki :: "root_wizard \<Rightarrow> bool" where "is_gki w \<longleftrightarrow> rw_mode w = Some Gki"
definition is_forks :: "root_wizard \<Rightarrow> bool" where "is_forks w \<longleftrightarrow> rw_provider w = Some MagiskForks"
definition is_nightly :: "root_wizard \<Rightarrow> bool" where "is_nightly w \<longleftrightarrow> rw_version w = Some Nightly"
definition is_apatch :: "root_wizard \<Rightarrow> bool" where "is_apatch w \<longleftrightarrow> rw_family w = Some APatch"
definition is_skroot :: "root_wizard \<Rightarrow> bool" where "is_skroot w \<longleftrightarrow> rw_family w = Some Skroot"

definition is_ksu_lkm :: "root_wizard \<Rightarrow> bool" where
  "is_ksu_lkm w \<longleftrightarrow> rw_family w = Some KernelSU \<and> rw_mode w = Some Lkm"

definition needs_ksu_lkm_kernel_version :: "root_wizard \<Rightarrow> bool" where
  "needs_ksu_lkm_kernel_version w \<longleftrightarrow> is_ksu_lkm w \<and> rw_kernel_version w = None"

definition ROOT_STEPS :: "string list" where
  "ROOT_STEPS = [''root_step_type'', ''root_step_mode'', ''root_step_provider'', ''root_step_version'',
     ''edl_loader_label'', ''root_step_confirm'', ''root_step_flash'']"

definition ROOT_STEPS_NIGHTLY :: "string list" where
  "ROOT_STEPS_NIGHTLY = [''root_step_type'', ''root_step_mode'', ''root_step_provider'',
     ''root_step_version'', ''root_step_source'', ''edl_loader_label'', ''root_step_confirm'',
     ''root_step_flash'']"

definition ROOT_STEPS_GKI :: "string list" where
  "ROOT_STEPS_GKI = [''root_step_type'', ''root_step_mode'', ''root_step_kernel'',
     ''edl_loader_label'', ''root_step_confirm'', ''root_step_flash'']"

definition ROOT_STEPS_NOMODE :: "string list" where
  "ROOT_STEPS_NOMODE = [''root_step_type'', ''root_step_provider'', ''root_step_version'',
     ''edl_loader_label'', ''root_step_confirm'', ''root_step_flash'']"

definition ROOT_STEPS_NOMODE_NIGHTLY :: "string list" where
  "ROOT_STEPS_NOMODE_NIGHTLY = [''root_step_type'', ''root_step_provider'', ''root_step_version'',
     ''root_step_source'', ''edl_loader_label'', ''root_step_confirm'', ''root_step_flash'']"

definition ROOT_STEPS_FORKS :: "string list" where
  "ROOT_STEPS_FORKS = [''root_step_type'', ''root_step_provider'', ''root_step_apk'',
     ''edl_loader_label'', ''root_step_confirm'', ''root_step_flash'']"

definition ROOT_STEPS_APATCH :: "string list" where
  "ROOT_STEPS_APATCH = [''root_step_type'', ''root_step_provider'', ''root_step_version'',
     ''root_step_kpm'', ''edl_loader_label'', ''root_step_confirm'', ''root_step_flash'']"

definition ROOT_STEPS_APATCH_NIGHTLY :: "string list" where
  "ROOT_STEPS_APATCH_NIGHTLY = [''root_step_type'', ''root_step_provider'', ''root_step_version'',
     ''root_step_source'', ''root_step_kpm'', ''edl_loader_label'', ''root_step_confirm'',
     ''root_step_flash'']"

definition ROOT_STEPS_SKROOT :: "string list" where
  "ROOT_STEPS_SKROOT = [''root_step_type'', ''root_step_skroot_flavor'', ''edl_loader_label'',
     ''root_step_confirm'', ''root_step_flash'']"

definition root_has_modes :: "root_wizard \<Rightarrow> bool" where
  "root_has_modes w = (case rw_family w of None \<Rightarrow> False | Some f \<Rightarrow> has_modes f)"

definition active_steps :: "root_wizard \<Rightarrow> string list" where
  "active_steps w =
     (if is_skroot w then ROOT_STEPS_SKROOT
      else if is_gki w then ROOT_STEPS_GKI
      else if is_forks w then ROOT_STEPS_FORKS
      else if is_apatch w then (if is_nightly w then ROOT_STEPS_APATCH_NIGHTLY else ROOT_STEPS_APATCH)
      else if root_has_modes w then (if is_nightly w then ROOT_STEPS_NIGHTLY else ROOT_STEPS)
      else (if is_nightly w then ROOT_STEPS_NOMODE_NIGHTLY else ROOT_STEPS_NOMODE))"

text \<open>The \<open>match self.step\<close> of one route: the listed steps are shown at 0, 1, and so on.\<close>

fun shown_at :: "nat list \<Rightarrow> nat \<Rightarrow> nat \<Rightarrow> nat" where
  "shown_at [] i s = s"
| "shown_at (x # xs) i s = (if s = x then i else shown_at xs (Suc i) s)"

definition display_step :: "root_wizard \<Rightarrow> nat" where
  "display_step w =
     (let s = rw_step w in
      if is_skroot w then shown_at [0, 1, 5, 6, 7] 0 s
      else if is_gki w then shown_at [0, 1, 2, 5, 6, 7] 0 s
      else if is_forks w then shown_at [0, 2, 3, 5, 6, 7] 0 s
      else if is_apatch w then
        (if is_nightly w then shown_at [0, 2, 3, 4, 8, 5, 6, 7] 0 s
         else shown_at [0, 2, 3, 8, 5, 6, 7] 0 s)
      else if \<not> root_has_modes w then
        (if is_nightly w then shown_at [0, 2, 3, 4, 5, 6, 7] 0 s
         else shown_at [0, 2, 3, 5, 6, 7] 0 s)
      else if is_nightly w then s
      else if s = 5 then 4 else if s = 6 then 5 else if s = 7 then 6 else s)"

definition root_next :: "root_wizard \<Rightarrow> root_wizard" where
  "root_next w =
     (let s = rw_step w in
      if s = 0 then
        (case rw_family w of
           Some f \<Rightarrow> if \<not> has_modes f then w\<lparr>rw_mode := None, rw_step := 2\<rparr> else w\<lparr>rw_step := 1\<rparr>
         | None \<Rightarrow> w\<lparr>rw_step := 1\<rparr>)
      else if s = 1 then w\<lparr>rw_step := (if is_skroot w then 5 else 2)\<rparr>
      else if s = 2 then w\<lparr>rw_step := (if is_gki w then 5 else 3)\<rparr>
      else if s = 3 then
        w\<lparr>rw_step := (if is_forks w then 5 else if is_nightly w then 4 else if is_apatch w then 8 else 5)\<rparr>
      else if s = 4 then w\<lparr>rw_step := (if is_apatch w then 8 else 5)\<rparr>
      else if s = 8 then w\<lparr>rw_step := 5\<rparr>
      else if s = 5 then w\<lparr>rw_step := 6\<rparr>
      else if s = 6 then w\<lparr>rw_step := 7\<rparr>
      else w)"

definition root_back :: "root_wizard \<Rightarrow> root_wizard" where
  "root_back w =
     (let s = rw_step w in
      if s = 1 then w\<lparr>rw_step := 0\<rparr>
      else if s = 2 then
        (case rw_family w of
           Some f \<Rightarrow> if \<not> has_modes f then w\<lparr>rw_step := 0\<rparr> else w\<lparr>rw_step := 1\<rparr>
         | None \<Rightarrow> w\<lparr>rw_step := 1\<rparr>)
      else if s = 3 then w\<lparr>rw_step := 2\<rparr>
      else if s = 4 then w\<lparr>rw_step := 3\<rparr>
      else if s = 5 then
        w\<lparr>rw_step := (if is_skroot w then 1 else if is_gki w then 2 else if is_forks w then 3
          else if is_apatch w then 8 else if is_nightly w then 4 else 3)\<rparr>
      else if s = 6 then w\<lparr>rw_step := 5\<rparr>
      else if s = 7 then w\<lparr>rw_step := 6\<rparr>
      else if s = 8 then w\<lparr>rw_step := (if is_nightly w then 4 else 3)\<rparr>
      else w)"

definition root_can_next :: "root_wizard \<Rightarrow> bool" where
  "root_can_next w =
     (let s = rw_step w in
      if s = 0 then rw_family w \<noteq> None
      else if s = 1 then
        (if is_skroot w then rw_skroot_flavor w = Some Lite else rw_mode w \<noteq> None)
      else if s = 2 then (if is_gki w then rw_file_path w \<noteq> None else rw_provider w \<noteq> None)
      else if s = 3 then (if is_forks w then rw_file_path w \<noteq> None else rw_version w \<noteq> None)
      else if s = 4 then
        (case rw_nightly_source w of
           Some AutoDetect \<Rightarrow> True
         | Some ManualInput \<Rightarrow> (case rw_run_id w of None \<Rightarrow> False | Some i \<Rightarrow> i \<noteq> [])
         | None \<Rightarrow> False)
      else if s = 5 then rw_folder_path w \<noteq> None
      else s = 6 \<or> s = 8)"

section \<open>Input formats\<close>

text \<open>\<open>normalize_ksu_kernel_version\<close>: the first two components, the second cut at its digits.\<close>

definition normalize_ksu_kernel_version :: "string \<Rightarrow> string option" where
  "normalize_ksu_kernel_version kver =
     (let trimmed = trim_ws kver in
      if trimmed = [] then None
      else case split_char CHR ''.'' trimmed of
             maj # mnr # _ \<Rightarrow>
               if maj = [] \<or> \<not> list_all is_ascii_digit maj then None
               else let mnr_digits = takeWhile is_ascii_digit mnr in
                 if mnr_digits = [] then None else Some (maj @ ''.'' @ mnr_digits)
           | _ \<Rightarrow> None)"

definition superkey_valid :: "string \<Rightarrow> bool" where
  "superkey_valid key \<longleftrightarrow> 8 \<le> length key \<and> length key \<le> 63 \<and> list_all char_alphanumeric key"

fun u64_digits :: "nat \<Rightarrow> string \<Rightarrow> nat option" where
  "u64_digits acc [] = Some acc"
| "u64_digits acc (c # cs) =
     (case to_digit 10 c of
        None \<Rightarrow> None
      | Some d \<Rightarrow> if acc * 10 + d < 2 ^ 64 then u64_digits (acc * 10 + d) cs else None)"

text \<open>\<open>str::parse::<u64>\<close>\<close>

definition parse_u64 :: "string \<Rightarrow> u64 option" where
  "parse_u64 s =
     (if s = [] \<or> s = ''+'' \<or> s = ''-'' then None
      else map_option of_nat (u64_digits 0 (if hd s = CHR ''+'' then tl s else s)))"

end
