(* ===== verification/Root_Update.thy ===== *)
theory Root_Update
  imports Root_Wizard
begin

text \<open>
  The handler of the messages of the root wizard (\<open>update/root.rs\<close>), with the parts of the
  application it changes: the wizard, the error line and the foreground operation. What the handler
  asks of the system (file pickers, the ADB probe, the worker of the run) is its output. Texts are
  named by their translation keys. Where a handler sends itself \<open>RootExecStart\<close> the model calls it
  directly; \<open>Root_Dispatch\<close> shows that the dispatcher never queues this message.
\<close>

section \<open>Messages and tasks\<close>

datatype root_msg =
    RootFamily family
  | RootProvider provider
  | RootMode root_mode
  | RootSkrootFlavor skroot_flavor
  | RootVersion ver_choice
  | RootNightlySource nightly_source
  | RootSelectFile
  | RootSelectFolder
  | RootLoaderChosen "(string + string) option"
  | RootNext
  | RootBack
  | RootSelectKpm
  | RootKpmSelected "string list option"
  | RootKpmRemove string
  | RootSuperkeyInput string
  | RootSuperkeyConfirm
  | RootSuperkeyCancel
  | RootRunIdInput string
  | RootRunIdConfirm
  | RootRunIdCancel
  | RootKernelVersionInput string
  | RootKernelVersionConfirm
  | RootKernelVersionCancel
  | RootKernelVersionProbeDone "string option"
  | RootExecStart
  | RootExecDone

text \<open>The arguments of the worker.\<close>

record root_run =
  rr_family :: "family option"
  rr_mode :: "root_mode option"
  rr_provider :: "provider option"
  rr_version :: "ver_choice option"
  rr_file_path :: "string option"
  rr_kernel_version :: "string option"
  rr_device_model :: string
  rr_fw_folder :: "string option"
  rr_kpm_paths :: "string list"
  rr_superkey :: string
  rr_nightly_run_id :: "u64 option"

datatype root_task = NoTask | PickKernelImage | PickApk | PickLoader | PickKpm | ProbeKernelVersion
  | RunRoot root_run

record root_app =
  ra_root :: root_wizard
  ra_model :: string
  ra_error :: "string option"
  ra_operation :: operation_execution
  ra_store :: progress_store

text \<open>What the handler looks up: the default loader that fits the device, and the files that exist.\<close>

record root_env =
  re_default_loader :: "string option"
  re_is_file :: "string \<Rightarrow> bool"

abbreviation with_root :: "(root_wizard \<Rightarrow> root_wizard) \<Rightarrow> root_app \<Rightarrow> root_app" where
  "with_root f a \<equiv> a\<lparr>ra_root := f (ra_root a)\<rparr>"

text \<open>\<open>begin_silent_op\<close>, \<open>end_silent_op\<close>, \<open>begin_phased_op\<close>; \<open>None\<close> is a panic.\<close>

definition begin_silent_op :: "app_view \<Rightarrow> root_app \<Rightarrow> root_app option" where
  "begin_silent_op v a =
     map_option (\<lambda>e. a\<lparr>ra_error := None, ra_operation := e\<rparr>) (op_start (ra_operation a) (Some v) Unphased None)"

definition end_silent_op :: "root_app \<Rightarrow> root_app" where
  "end_silent_op a = a\<lparr>ra_operation := op_finish (ra_store a) False (ra_operation a)\<rparr>"

definition begin_phased_op :: "app_view \<Rightarrow> phase_kind \<Rightarrow> root_app \<Rightarrow> root_app option" where
  "begin_phased_op v k a =
     Option.bind (from_labels (phase_keys k) (ra_store a)) (\<lambda>(reporter, st).
       map_option (\<lambda>e. a\<lparr>ra_error := None, ra_operation := e, ra_store := st\<rparr>)
         (op_start (ra_operation a) (Some v) (Phased k) (Some reporter)))"

definition validate_loader_path :: "root_env \<Rightarrow> string option \<Rightarrow> string + string" where
  "validate_loader_path env path =
     (case path of
        None \<Rightarrow> Inl ''err_loader_not_selected''
      | Some p \<Rightarrow> if re_is_file env p then Inr p else Inl ''err_loader_missing'')"

definition root_run_of :: "string \<Rightarrow> root_wizard \<Rightarrow> root_run" where
  "root_run_of model w =
     \<lparr>rr_family = rw_family w, rr_mode = rw_mode w, rr_provider = rw_provider w,
      rr_version = rw_version w, rr_file_path = rw_file_path w,
      rr_kernel_version = rw_kernel_version w, rr_device_model = model,
      rr_fw_folder = rw_folder_path w, rr_kpm_paths = rw_kpm_paths w,
      rr_superkey = (case rw_superkey w of None \<Rightarrow> [] | Some k \<Rightarrow> k),
      rr_nightly_run_id =
        (if rw_nightly_source w = Some ManualInput then Option.bind (rw_run_id w) parse_u64 else None)\<rparr>"

section \<open>Handlers\<close>

definition root_family_chosen :: "family \<Rightarrow> root_app \<Rightarrow> root_app" where
  "root_family_chosen f a =
     (if \<not> cap_root (capabilities (ra_model a)) then a
      else with_root (\<lambda>w. w\<lparr>rw_family := Some f, rw_provider := None, rw_mode := None,
             rw_skroot_flavor := None, rw_version := None, rw_nightly_source := None,
             rw_file_path := None, rw_kernel_version := None, rw_run_id := None,
             rw_run_id_buffer := []\<rparr>) a)"

definition root_provider_chosen :: "provider \<Rightarrow> root_wizard \<Rightarrow> root_wizard" where
  "root_provider_chosen p w =
     (let w1 = w\<lparr>rw_provider := Some p, rw_file_path := None\<rparr>
      in if p = ReSukiSU \<and> rw_version w = Some Stable
         then w1\<lparr>rw_version := Some Nightly, rw_nightly_source := None, rw_run_id := None,
                 rw_run_id_buffer := []\<rparr>
         else w1)"

definition root_mode_chosen :: "root_mode \<Rightarrow> root_app \<Rightarrow> root_app" where
  "root_mode_chosen m a =
     (if \<not> cap_root (capabilities (ra_model a)) then a
      else if \<not> gki_root (capabilities (ra_model a)) \<and> m = Gki then a
      else with_root (\<lambda>w. w\<lparr>rw_mode := Some m, rw_file_path := None, rw_kernel_version := None\<rparr>) a)"

definition root_nightly_source_chosen :: "nightly_source \<Rightarrow> root_wizard \<Rightarrow> root_wizard" where
  "root_nightly_source_chosen s w =
     (case s of
        AutoDetect \<Rightarrow> w\<lparr>rw_nightly_source := Some s, rw_run_id := None, rw_run_id_buffer := []\<rparr>
      | ManualInput \<Rightarrow> w\<lparr>rw_nightly_source := Some s,
          rw_run_id_buffer := (case rw_run_id w of None \<Rightarrow> [] | Some i \<Rightarrow> i),
          rw_run_id_popup_open := True\<rparr>)"

definition root_exec_start :: "root_env \<Rightarrow> root_app \<Rightarrow> (root_app \<times> root_task) option" where
  "root_exec_start env a =
     (if is_running (ra_operation a) then Some (a, NoTask)
      else if \<not> cap_root (capabilities (ra_model a))
      then Some (a\<lparr>ra_error := Some ''model_unsupported''\<rparr>, NoTask)
      else if \<not> gki_root (capabilities (ra_model a)) \<and> is_gki (ra_root a)
      then Some (with_root (\<lambda>w. w\<lparr>rw_mode := None, rw_step := 1\<rparr>) (a\<lparr>ra_error := Some ''model_unsupported''\<rparr>),
                 NoTask)
      else case validate_loader_path env (rw_folder_path (ra_root a)) of
             Inl e \<Rightarrow> Some (a\<lparr>ra_error := Some e\<rparr>, NoTask)
           | Inr _ \<Rightarrow>
               map_option (\<lambda>a'. (a'\<lparr>ra_error := None\<rparr>, RunRoot (root_run_of (ra_model a) (ra_root a))))
                 (begin_phased_op RootView PhRoot a))"

definition root_next_pressed :: "root_env \<Rightarrow> root_app \<Rightarrow> (root_app \<times> root_task) option" where
  "root_next_pressed env a =
     (let w = ra_root a in
      if rw_step w = 6 then
        (if needs_ksu_lkm_kernel_version w then
           (if is_running (ra_operation a) then Some (a, NoTask)
            else map_option (\<lambda>a'. (a', ProbeKernelVersion)) (begin_silent_op RootView a))
         else if is_running (ra_operation a) then Some (a, NoTask)
         else root_exec_start env (with_root root_next a))
      else if rw_step w = 8 then
        Some (with_root (\<lambda>w. w\<lparr>rw_superkey_buffer := [], rw_superkey_first_entry := None,
                rw_superkey_popup_open := True\<rparr>) a, NoTask)
      else
        let w1 = root_next w in
        case re_default_loader env of
          Some path \<Rightarrow>
            if rw_step w1 = 5 \<and> rw_folder_path w1 = None
            then Some (a\<lparr>ra_root := root_next (w1\<lparr>rw_folder_path := Some path\<rparr>)\<rparr>, NoTask)
            else Some (a\<lparr>ra_root := w1\<rparr>, NoTask)
        | None \<Rightarrow> Some (a\<lparr>ra_root := w1\<rparr>, NoTask))"

definition add_kpm :: "string list \<Rightarrow> string list \<Rightarrow> string list" where
  "add_kpm = foldl (\<lambda>ks p. if p \<in> set ks then ks else ks @ [p])"

text \<open>The two stages of the superkey entry.\<close>

definition superkey_confirmed :: "root_app \<Rightarrow> root_app" where
  "superkey_confirmed a =
     (let w = ra_root a; key = trim_ws (rw_superkey_buffer w);
          w0 = w\<lparr>rw_superkey_first_entry := None\<rparr>
      in case rw_superkey_first_entry w of
           None \<Rightarrow>
             if \<not> superkey_valid key then a\<lparr>ra_root := w0, ra_error := Some ''apatch_superkey_invalid''\<rparr>
             else a\<lparr>ra_root := w0\<lparr>rw_superkey_first_entry := Some key, rw_superkey_buffer := []\<rparr>,
                    ra_error := None\<rparr>
         | Some f \<Rightarrow>
             if key \<noteq> f
             then a\<lparr>ra_root := w0\<lparr>rw_superkey_buffer := []\<rparr>, ra_error := Some ''apatch_superkey_mismatch''\<rparr>
             else a\<lparr>ra_root := root_next (w0\<lparr>rw_superkey := Some key, rw_superkey_buffer := [],
                      rw_superkey_popup_open := False\<rparr>), ra_error := None\<rparr>)"

definition run_id_confirmed :: "root_app \<Rightarrow> root_app" where
  "run_id_confirmed a =
     (let i = trim_ws (rw_run_id_buffer (ra_root a))
      in if i = [] \<or> \<not> list_all is_ascii_digit i then a\<lparr>ra_error := Some ''nightly_manual_invalid''\<rparr>
         else (with_root (\<lambda>w. w\<lparr>rw_run_id := Some i, rw_run_id_popup_open := False\<rparr>) a)\<lparr>ra_error := None\<rparr>)"

definition kernel_version_confirmed :: "root_env \<Rightarrow> root_app \<Rightarrow> (root_app \<times> root_task) option" where
  "kernel_version_confirmed env a =
     (case normalize_ksu_kernel_version (trim_ws (rw_kernel_version_buffer (ra_root a))) of
        None \<Rightarrow> Some (a\<lparr>ra_error := Some ''root_kernel_version_invalid''\<rparr>, NoTask)
      | Some kv \<Rightarrow>
          let a1 = (with_root (\<lambda>w. w\<lparr>rw_kernel_version := Some kv, rw_kernel_version_buffer := [],
                rw_kernel_version_popup_open := False\<rparr>) a)\<lparr>ra_error := None\<rparr>
          in if rw_step (ra_root a1) = 6 then root_exec_start env (with_root root_next a1)
             else Some (a1, NoTask))"

definition kernel_probe_done ::
    "root_env \<Rightarrow> string option \<Rightarrow> root_app \<Rightarrow> (root_app \<times> root_task) option" where
  "kernel_probe_done env detected a =
     (let ours = is_running (ra_operation a) \<and> op_view (ra_operation a) = Some RootView \<and>
                 op_steps (ra_operation a) = []
      in if \<not> ours then Some (a, NoTask)
         else if rw_step (ra_root a) \<noteq> 6 \<or> \<not> needs_ksu_lkm_kernel_version (ra_root a)
         then Some (end_silent_op a, NoTask)
         else case detected of
                Some kv \<Rightarrow>
                  root_exec_start env
                    (end_silent_op (with_root (\<lambda>w. root_next (w\<lparr>rw_kernel_version := Some kv\<rparr>)) a))
              | None \<Rightarrow>
                  Some (with_root (\<lambda>w. w\<lparr>rw_kernel_version_buffer :=
                            (case rw_kernel_version w of None \<Rightarrow> [] | Some v \<Rightarrow> v),
                          rw_kernel_version_popup_open := True\<rparr>) (end_silent_op a), NoTask))"

definition update_root :: "root_env \<Rightarrow> root_app \<Rightarrow> root_msg \<Rightarrow> (root_app \<times> root_task) option" where
  "update_root env a msg =
     (case msg of
        RootFamily f \<Rightarrow> Some (root_family_chosen f a, NoTask)
      | RootProvider p \<Rightarrow> Some (with_root (root_provider_chosen p) a, NoTask)
      | RootMode m \<Rightarrow> Some (root_mode_chosen m a, NoTask)
      | RootSkrootFlavor flavor \<Rightarrow>
          Some (if flavor = Pro then a else with_root (\<lambda>w. w\<lparr>rw_skroot_flavor := Some flavor\<rparr>) a, NoTask)
      | RootVersion v \<Rightarrow>
          Some (with_root (\<lambda>w. w\<lparr>rw_version := Some v, rw_nightly_source := None, rw_run_id := None,
                  rw_run_id_buffer := []\<rparr>) a, NoTask)
      | RootNightlySource s \<Rightarrow> Some (with_root (root_nightly_source_chosen s) a, NoTask)
      | RootSelectFile \<Rightarrow> Some (a, if is_gki (ra_root a) then PickKernelImage else PickApk)
      | RootSelectFolder \<Rightarrow> Some (a, PickLoader)
      | RootLoaderChosen picked \<Rightarrow>
          Some (case picked of
                  None \<Rightarrow> a
                | Some (Inr loader) \<Rightarrow> (with_root (\<lambda>w. w\<lparr>rw_folder_path := Some loader\<rparr>) a)\<lparr>ra_error := None\<rparr>
                | Some (Inl e) \<Rightarrow> (with_root (\<lambda>w. w\<lparr>rw_folder_path := None\<rparr>) a)\<lparr>ra_error := Some e\<rparr>, NoTask)
      | RootNext \<Rightarrow> root_next_pressed env a
      | RootBack \<Rightarrow> Some (with_root root_back a, NoTask)
      | RootSelectKpm \<Rightarrow> Some (a, PickKpm)
      | RootKpmSelected paths \<Rightarrow>
          Some (case paths of None \<Rightarrow> a
                | Some ps \<Rightarrow> with_root (\<lambda>w. w\<lparr>rw_kpm_paths := add_kpm (rw_kpm_paths w) ps\<rparr>) a, NoTask)
      | RootKpmRemove p \<Rightarrow>
          Some (with_root (\<lambda>w. w\<lparr>rw_kpm_paths := filter (\<lambda>x. x \<noteq> p) (rw_kpm_paths w)\<rparr>) a, NoTask)
      | RootSuperkeyInput t \<Rightarrow> Some (with_root (\<lambda>w. w\<lparr>rw_superkey_buffer := t\<rparr>) a, NoTask)
      | RootSuperkeyConfirm \<Rightarrow> Some (superkey_confirmed a, NoTask)
      | RootSuperkeyCancel \<Rightarrow>
          Some ((with_root (\<lambda>w. w\<lparr>rw_superkey_buffer := [], rw_superkey_first_entry := None,
                  rw_superkey_popup_open := False\<rparr>) a)\<lparr>ra_error := None\<rparr>, NoTask)
      | RootRunIdInput t \<Rightarrow>
          Some (with_root (\<lambda>w. w\<lparr>rw_run_id_buffer := take 12 (filter is_ascii_digit t)\<rparr>) a, NoTask)
      | RootRunIdConfirm \<Rightarrow> Some (run_id_confirmed a, NoTask)
      | RootRunIdCancel \<Rightarrow>
          Some (with_root (\<lambda>w. w\<lparr>rw_run_id_buffer := [], rw_run_id_popup_open := False,
                  rw_nightly_source := (if rw_run_id w = None then None else rw_nightly_source w)\<rparr>) a, NoTask)
      | RootKernelVersionInput t \<Rightarrow>
          Some (with_root (\<lambda>w. w\<lparr>rw_kernel_version_buffer :=
                  take 16 (filter (\<lambda>c. is_ascii_digit c \<or> c = CHR ''.'') t)\<rparr>) a, NoTask)
      | RootKernelVersionConfirm \<Rightarrow> kernel_version_confirmed env a
      | RootKernelVersionCancel \<Rightarrow>
          Some (with_root (\<lambda>w. w\<lparr>rw_kernel_version_buffer := [], rw_kernel_version_popup_open := False\<rparr>) a,
                NoTask)
      | RootKernelVersionProbeDone detected \<Rightarrow> kernel_probe_done env detected a
      | RootExecStart \<Rightarrow> root_exec_start env a
      | RootExecDone \<Rightarrow>
          Some (a\<lparr>ra_operation := op_finish (ra_store a) True (ra_operation a)\<rparr>, NoTask))"

end
