(* ===== verification/Root_Props.thy ===== *)
theory Root_Props
  imports Root_Update
begin

text \<open>
  What the root wizard guarantees: its steps are shown in the order of the route that the choices
  select, Next and Back walk that route, and a run is started only with everything its route needs.
\<close>

section \<open>Routes\<close>

text \<open>The steps of the route that the choices select, in order.\<close>

definition route :: "root_wizard \<Rightarrow> nat list" where
  "route w =
     (if is_skroot w then [0, 1, 5, 6, 7]
      else if is_gki w then [0, 1, 2, 5, 6, 7]
      else (if root_has_modes w then [0, 1, 2, 3] else [0, 2, 3]) @
        (if \<not> is_forks w \<and> is_nightly w then [4] else []) @
        (if \<not> is_forks w \<and> is_apatch w then [8] else []) @ [5, 6, 7])"

text \<open>The choices belong together: a provider of the family, and a mode only for KernelSU.\<close>

definition coherent :: "root_wizard \<Rightarrow> bool" where
  "coherent w \<longleftrightarrow>
     (\<forall>p. rw_provider w = Some p \<longrightarrow> (\<exists>f. rw_family w = Some f \<and> p \<in> set (providers f))) \<and>
     (rw_mode w \<noteq> None \<longrightarrow> rw_family w = Some KernelSU)"

lemmas choice_defs = is_skroot_def is_gki_def is_forks_def is_apatch_def is_nightly_def
  root_has_modes_def has_modes_def

lemma forks_family: "coherent w \<Longrightarrow> is_forks w \<Longrightarrow> rw_family w = Some Magisk"
proof -
  assume "coherent w" "is_forks w"
  then obtain f where f: "rw_family w = Some f" "MagiskForks \<in> set (providers f)"
    by (auto simp: coherent_def is_forks_def)
  then show ?thesis by (cases f) simp_all
qed

lemma gki_family: "coherent w \<Longrightarrow> is_gki w \<Longrightarrow> rw_family w = Some KernelSU"
  by (auto simp: coherent_def is_gki_def)

text \<open>Everything that navigation looks at, split into the routes there are.\<close>

lemma route_cases [consumes 2, case_names skroot gki ksu forks magisk apatch]:
  assumes "coherent w" and "rw_family w \<noteq> None"
  obtains "rw_family w = Some Skroot" "\<not> is_gki w" "\<not> is_forks w"
  | "rw_family w = Some KernelSU" "is_gki w" "\<not> is_forks w"
  | "rw_family w = Some KernelSU" "\<not> is_gki w" "\<not> is_forks w"
  | "rw_family w = Some Magisk" "\<not> is_gki w" "is_forks w"
  | "rw_family w = Some Magisk" "\<not> is_gki w" "\<not> is_forks w"
  | "rw_family w = Some APatch" "\<not> is_gki w" "\<not> is_forks w"
proof (cases "the (rw_family w)")
  case Magisk
  then show ?thesis using that(4, 5) assms gki_family by (cases "is_forks w"; cases "is_gki w") auto
next
  case KernelSU
  then show ?thesis using that(2, 3) assms forks_family by (cases "is_gki w"; cases "is_forks w") auto
next
  case APatch
  then show ?thesis using that(6) assms forks_family gki_family
    by (cases "is_gki w"; cases "is_forks w") auto
next
  case Skroot
  then show ?thesis using that(1) assms forks_family gki_family
    by (cases "is_gki w"; cases "is_forks w") auto
qed

lemma route_nonempty: "route w \<noteq> []"
  by (simp add: route_def)

definition on_route :: "root_wizard \<Rightarrow> bool" where
  "on_route w \<longleftrightarrow> coherent w \<and> (rw_step w = 0 \<or> rw_family w \<noteq> None) \<and> rw_step w \<in> set (route w)"

lemmas route_defs = route_def is_skroot_def is_apatch_def root_has_modes_def has_modes_def

lemma route_step_update [simp]: "route (w\<lparr>rw_step := s\<rparr>) = route w"
  by (simp add: route_def choice_defs)

lemma coherent_step_update [simp]: "coherent (w\<lparr>rw_step := s\<rparr>) = coherent w"
  by (simp add: coherent_def)

lemma length_route:
  assumes "coherent w" and "rw_family w \<noteq> None"
  shows "length (route w) = length (active_steps w) \<and> last (route w) = 7 \<and> distinct (route w)"
  using assms
  by (cases rule: route_cases)
    (simp_all add: route_defs active_steps_def ROOT_STEPS_def ROOT_STEPS_NIGHTLY_def ROOT_STEPS_GKI_def
      ROOT_STEPS_NOMODE_def ROOT_STEPS_NOMODE_NIGHTLY_def ROOT_STEPS_FORKS_def ROOT_STEPS_APATCH_def
      ROOT_STEPS_APATCH_NIGHTLY_def ROOT_STEPS_SKROOT_def)

lemma mode_none_update: "rw_mode w = None \<Longrightarrow> w\<lparr>rw_mode := None, rw_step := s\<rparr> = w\<lparr>rw_step := s\<rparr>"
  by (cases w) simp

lemma modeless_family:
  "coherent w \<Longrightarrow> rw_family w = Some f \<Longrightarrow> f \<noteq> KernelSU \<Longrightarrow> rw_mode w = None"
  by (auto simp: coherent_def)

text \<open>What the current step says about navigation, for every route.\<close>

definition walks :: "root_wizard \<Rightarrow> bool" where
  "walks w \<longleftrightarrow>
     display_step w < length (route w) \<and> route w ! display_step w = rw_step w \<and>
     (rw_step w \<noteq> 7 \<longrightarrow> Suc (display_step w) < length (route w) \<and>
        root_next w = w\<lparr>rw_step := route w ! Suc (display_step w)\<rparr>) \<and>
     (rw_step w \<noteq> 0 \<longrightarrow> 0 < display_step w \<and>
        root_back w = w\<lparr>rw_step := route w ! (display_step w - 1)\<rparr>)"

lemmas walk_defs = walks_def route_defs display_step_def root_next_def root_back_def Let_def

lemma walks_skroot:
  "rw_family w = Some Skroot \<Longrightarrow> rw_step w \<in> {0, 1, 5, 6, 7} \<Longrightarrow> walks w"
  by (elim insertE emptyE) (simp_all add: walk_defs)

lemma walks_gki:
  "rw_family w = Some KernelSU \<Longrightarrow> is_gki w \<Longrightarrow> rw_step w \<in> {0, 1, 2, 5, 6, 7} \<Longrightarrow> walks w"
  by (elim insertE emptyE) (simp_all add: walk_defs)

lemma walks_ksu:
  "rw_family w = Some KernelSU \<Longrightarrow> \<not> is_gki w \<Longrightarrow> \<not> is_forks w \<Longrightarrow>
   rw_step w \<in> {0, 1, 2, 3, 5, 6, 7} \<or> is_nightly w \<and> rw_step w = 4 \<Longrightarrow> walks w"
  by (elim disjE conjE insertE emptyE) (simp_all add: walk_defs)

lemma walks_forks:
  "rw_family w = Some Magisk \<Longrightarrow> rw_mode w = None \<Longrightarrow> \<not> is_gki w \<Longrightarrow> is_forks w \<Longrightarrow>
   rw_step w \<in> {0, 2, 3, 5, 6, 7} \<Longrightarrow> walks w"
  by (elim insertE emptyE) (simp_all add: walk_defs mode_none_update)

lemma walks_magisk:
  "rw_family w = Some Magisk \<Longrightarrow> rw_mode w = None \<Longrightarrow> \<not> is_gki w \<Longrightarrow> \<not> is_forks w \<Longrightarrow>
   rw_step w \<in> {0, 2, 3, 5, 6, 7} \<or> is_nightly w \<and> rw_step w = 4 \<Longrightarrow> walks w"
  by (elim disjE conjE insertE emptyE) (simp_all add: walk_defs mode_none_update)

lemma walks_apatch:
  "rw_family w = Some APatch \<Longrightarrow> rw_mode w = None \<Longrightarrow> \<not> is_gki w \<Longrightarrow> \<not> is_forks w \<Longrightarrow>
   rw_step w \<in> {0, 2, 3, 8, 5, 6, 7} \<or> is_nightly w \<and> rw_step w = 4 \<Longrightarrow> walks w"
  by (elim disjE conjE insertE emptyE) (simp_all add: walk_defs mode_none_update)

lemma on_route_walks:
  assumes "coherent w" and "rw_family w \<noteq> None" and "rw_step w \<in> set (route w)"
  shows "walks w"
  using assms(1, 2)
proof (cases rule: route_cases)
  case skroot
  then show ?thesis using assms(3) by (intro walks_skroot) (auto simp: route_defs)
next
  case gki
  then show ?thesis using assms(3) by (intro walks_gki) (auto simp: route_defs)
next
  case ksu
  then show ?thesis using assms(3) by (intro walks_ksu) (auto simp: route_defs split: if_splits)
next
  case forks
  then show ?thesis using assms modeless_family
    by (intro walks_forks) (auto simp: route_defs split: if_splits)
next
  case magisk
  then show ?thesis using assms modeless_family
    by (intro walks_magisk) (auto simp: route_defs split: if_splits)
next
  case apatch
  then show ?thesis using assms modeless_family
    by (intro walks_apatch) (auto simp: route_defs split: if_splits)
qed

section \<open>Next and Back\<close>

lemma route_at:
  assumes "coherent w" and "rw_family w \<noteq> None" and "i < length (route w)"
  shows "walks (w\<lparr>rw_step := route w ! i\<rparr>) \<and> display_step (w\<lparr>rw_step := route w ! i\<rparr>) = i"
proof -
  let ?v = "w\<lparr>rw_step := route w ! i\<rparr>"
  have v: "walks ?v" by (rule on_route_walks) (use assms in simp_all)
  then have "display_step ?v < length (route w)" "route w ! display_step ?v = route w ! i"
    by (simp_all add: walks_def)
  moreover have "distinct (route w)" using length_route [OF assms(1, 2)] by simp
  ultimately show ?thesis using v assms(3) by (simp add: nth_eq_iff_index_eq)
qed

lemma route_last:
  assumes "coherent w" and "rw_family w \<noteq> None"
  shows "route w ! (length (route w) - 1) = 7"
  using length_route [OF assms] by (metis last_conv_nth length_greater_0_conv list.size(3) route_nonempty)

lemma route_start: "route w ! 0 = 0" "route w \<noteq> []"
  by (simp_all add: route_def)

lemma next_on_route:
  assumes "coherent w" and "rw_family w \<noteq> None" and "i < length (route w)"
  shows "root_next (w\<lparr>rw_step := route w ! i\<rparr>) =
    w\<lparr>rw_step := route w ! (if Suc i < length (route w) then Suc i else i)\<rparr>"
proof (cases "Suc i < length (route w)")
  case True
  have "last (route w) = 7" "distinct (route w)" using length_route [OF assms(1, 2)] by simp_all
  then have "route w ! i \<noteq> 7"
    using True assms(3) by (metis Suc_lessE diff_Suc_1 last_conv_nth less_irrefl lessI nth_eq_iff_index_eq route_start(2) length_greater_0_conv diff_less zero_less_one)
  then show ?thesis using route_at [OF assms] True by (simp add: walks_def)
next
  case False
  then have "i = length (route w) - 1" using assms(3) by linarith
  then have "route w ! i = 7" using route_last [OF assms(1, 2)] by (simp only:)
  then show ?thesis using False by (simp add: root_next_def)
qed

lemma back_on_route:
  assumes "coherent w" and "rw_family w \<noteq> None" and "i < length (route w)" and "0 < i"
  shows "root_back (w\<lparr>rw_step := route w ! i\<rparr>) = w\<lparr>rw_step := route w ! (i - 1)\<rparr>"
proof -
  have "distinct (route w)" using length_route [OF assms(1, 2)] by simp
  then have "route w ! i \<noteq> route w ! 0"
    using assms(3, 4) by (subst nth_eq_iff_index_eq) auto
  then show ?thesis using route_at [OF assms(1-3)] route_start(1) by (simp add: walks_def)
qed

lemma step_of_route:
  assumes "coherent w" and "rw_family w \<noteq> None" and "rw_step w \<in> set (route w)"
  obtains i where "i < length (route w)" "w = w\<lparr>rw_step := route w ! i\<rparr>" "display_step w = i"
    "i = length (route w) - 1 \<longleftrightarrow> rw_step w = 7" "i = 0 \<longleftrightarrow> rw_step w = 0"
proof -
  have w: "walks w" by (rule on_route_walks [OF assms])
  have d: "distinct (route w)" "last (route w) = 7" using length_route [OF assms(1, 2)] by simp_all
  have i: "display_step w < length (route w)" "route w ! display_step w = rw_step w"
    using w by (simp_all add: walks_def)
  have "display_step w = length (route w) - 1 \<longleftrightarrow> rw_step w = 7"
    using i d route_start(2) [of w] nth_eq_iff_index_eq [OF d(1) i(1), of "length (route w) - 1"]
    by (simp add: last_conv_nth)
  moreover have "display_step w = 0 \<longleftrightarrow> rw_step w = 0"
    using i d route_start [of w] nth_eq_iff_index_eq [OF d(1) i(1), of 0] by simp
  ultimately show thesis using that [of "display_step w"] i by simp
qed

text \<open>
  (C23) With choices that belong together, the step bar and the navigation agree: the position that is
  shown lies in the list of labels, Next moves it one further until the run, Back one back until the
  first step, and the two undo each other and change nothing else, on every route.
\<close>

theorem root_navigation_walks_route:
  assumes "coherent w" and "rw_family w \<noteq> None" and "rw_step w \<in> set (route w)"
  shows "display_step w < length (active_steps w) \<and>
    (rw_step w \<noteq> 7 \<longrightarrow> display_step (root_next w) = Suc (display_step w) \<and> root_back (root_next w) = w) \<and>
    (rw_step w \<noteq> 0 \<longrightarrow> Suc (display_step (root_back w)) = display_step w \<and> root_next (root_back w) = w)"
proof -
  obtain i where i: "i < length (route w)" and w: "w = w\<lparr>rw_step := route w ! i\<rparr>" "display_step w = i"
    and ends: "i = length (route w) - 1 \<longleftrightarrow> rw_step w = 7" "i = 0 \<longleftrightarrow> rw_step w = 0"
    by (rule step_of_route [OF assms])
  note at = route_at [OF assms(1, 2)] and forward = next_on_route [OF assms(1, 2)]
    and backward = back_on_route [OF assms(1, 2)]
  have "display_step (root_next w) = Suc i \<and> root_back (root_next w) = w" if "rw_step w \<noteq> 7"
  proof -
    have s: "Suc i < length (route w)" using that i ends(1) by linarith
    then have "root_next w = w\<lparr>rw_step := route w ! Suc i\<rparr>" using forward [OF i] w(1) by simp
    then show ?thesis using at [OF s] backward [OF s] w(1) by simp
  qed
  moreover have "Suc (display_step (root_back w)) = i \<and> root_next (root_back w) = w" if "rw_step w \<noteq> 0"
  proof -
    have s: "0 < i" "i - 1 < length (route w)" using that i ends(2) by auto
    then have "root_back w = w\<lparr>rw_step := route w ! (i - 1)\<rparr>" using backward [OF i] w(1) by simp
    then show ?thesis using at [OF s(2)] forward [OF s(2)] w(1) s(1) i by simp
  qed
  ultimately show ?thesis using w(2) i length_route [OF assms(1, 2)] by simp
qed

definition apatch_wizard :: root_wizard where
  "apatch_wizard = root_default\<lparr>rw_family := Some APatch, rw_provider := Some FolkPatch,
     rw_version := Some Nightly, rw_step := 3\<rparr>"

lemma apatch_wizard_ok:
  "coherent apatch_wizard" "rw_family apatch_wizard \<noteq> None" "rw_step apatch_wizard \<in> set (route apatch_wizard)"
  by (simp_all add: apatch_wizard_def root_default_def coherent_def route_def choice_defs)

theorem root_navigation_walks_route_witness:
  "root_back (root_next apatch_wizard) = apatch_wizard \<and> rw_step (root_next apatch_wizard) = 4"
  using root_navigation_walks_route [OF apatch_wizard_ok]
  by (simp add: apatch_wizard_def root_default_def root_next_def choice_defs)

end
