(* ===== verification/Root_Safety.thy ===== *)
theory Root_Safety
  imports Root_Props
begin

text \<open>
  The reachable states of the root wizard, and what holds in all of them: the user is on the route of
  the choices, every step behind has what it asks for, and so every run that the handler starts has
  everything its route needs.
\<close>

section \<open>Reachable states\<close>

text \<open>
  An upper bound of what \<open>view/root.rs\<close> offers on a wizard: the cards of a step only on that step, and
  Next only when the step allows it and no popup covers it. The screen asks for more (the model, the
  connection), so that what holds for the offered messages holds for those of the screen. A message
  that waits in the queue of the dispatcher is offered when it is sent, not when it is handled; that
  is the subject of \<open>Root_Dispatch\<close>.
\<close>

definition popup_open :: "root_wizard \<Rightarrow> bool" where
  "popup_open w \<longleftrightarrow>
     rw_superkey_popup_open w \<or> rw_run_id_popup_open w \<or> rw_kernel_version_popup_open w"

definition offered :: "root_wizard \<Rightarrow> root_msg \<Rightarrow> bool" where
  "offered w msg =
     (case msg of
        RootFamily f \<Rightarrow> rw_step w = 0
      | RootMode m \<Rightarrow> rw_step w = 1 \<and> \<not> is_skroot w
      | RootSkrootFlavor f \<Rightarrow> rw_step w = 1 \<and> is_skroot w
      | RootProvider p \<Rightarrow>
          rw_step w = 2 \<and> \<not> is_gki w \<and>
          p \<in> set (providers (case rw_family w of None \<Rightarrow> KernelSU | Some f \<Rightarrow> f))
      | RootVersion v \<Rightarrow> rw_step w = 3 \<and> \<not> is_forks w
      | RootNightlySource s \<Rightarrow> rw_step w = 4
      | RootNext \<Rightarrow> rw_step w \<noteq> 7 \<and> root_can_next w \<and> \<not> popup_open w
      | RootBack \<Rightarrow> 0 < rw_step w \<and> rw_step w \<noteq> 7 \<and> \<not> popup_open w
      | RootSuperkeyConfirm \<Rightarrow> rw_superkey_popup_open w
      | RootRunIdConfirm \<Rightarrow> rw_run_id_popup_open w
      | RootRunIdCancel \<Rightarrow> rw_run_id_popup_open w
      | RootKernelVersionConfirm \<Rightarrow> rw_kernel_version_popup_open w
      | RootExecStart \<Rightarrow> False
      | _ \<Rightarrow> True)"

text \<open>
  Besides the messages of the wizard, a file picker may return at any time, the wizard is reset when
  the user leaves it, and the rest of the application changes its own part of the state (the device
  that is connected, the operation that runs) as it likes.
\<close>

inductive root_reach :: "root_app \<Rightarrow> bool" where
  opened: "ra_root a = root_default \<Longrightarrow> root_reach a"
| message: "root_reach a \<Longrightarrow> offered (ra_root a) msg \<Longrightarrow> update_root env a msg = Some (a', t) \<Longrightarrow> root_reach a'"
| file_selected: "root_reach a \<Longrightarrow> root_reach (with_root (\<lambda>w. w\<lparr>rw_file_path := Some p\<rparr>) a)"
| reset: "root_reach a \<Longrightarrow> root_reach (with_root (\<lambda>_. root_default) a)"
| outside: "root_reach a \<Longrightarrow> ra_root a' = ra_root a \<Longrightarrow> root_reach a'"

section \<open>The invariant\<close>

text \<open>What a step asks for before Next leads behind it (the loader is checked again by the run).\<close>

definition passed :: "root_wizard \<Rightarrow> nat \<Rightarrow> bool" where
  "passed w t =
     (if t = 0 then rw_family w \<noteq> None
      else if t = 1 then is_skroot w \<or> rw_mode w \<noteq> None
      else if t = 2 then (if is_gki w then rw_file_path w \<noteq> None else rw_provider w \<noteq> None)
      else if t = 3 then (if is_forks w then rw_file_path w \<noteq> None else rw_version w \<noteq> None)
      else if t = 8 then rw_superkey w \<noteq> None
      else True)"

definition behind :: "root_wizard \<Rightarrow> nat list" where
  "behind w = takeWhile (\<lambda>t. t \<noteq> rw_step w) (route w)"

definition root_inv :: "root_wizard \<Rightarrow> bool" where
  "root_inv w \<longleftrightarrow>
     coherent w \<and> rw_step w \<in> set (route w) \<and> (\<forall>t \<in> set (behind w). passed w t) \<and>
     (rw_superkey_popup_open w \<longrightarrow> rw_step w = 8) \<and> (rw_run_id_popup_open w \<longrightarrow> rw_step w = 4) \<and>
     (\<forall>k. rw_superkey w = Some k \<longrightarrow> superkey_valid k) \<and>
     (\<forall>k. rw_superkey_first_entry w = Some k \<longrightarrow> superkey_valid k)"

lemmas inv_unfold = root_inv_def behind_def passed_def coherent_def route_def choice_defs

lemma root_inv_default: "root_inv root_default"
  by (simp add: inv_unfold root_default_def)

lemma root_inv_family: "root_inv w \<Longrightarrow> rw_step w \<noteq> 0 \<Longrightarrow> rw_family w \<noteq> None"
  by (auto simp: root_inv_def behind_def passed_def route_def split: if_splits)

text \<open>Changes that leave the choices alone.\<close>

lemma same_route:
  assumes "rw_family w' = rw_family w" "rw_mode w' = rw_mode w" "rw_provider w' = rw_provider w"
    "rw_version w' = rw_version w"
  shows "route w' = route w" "coherent w' = coherent w"
    "passed w' t = passed (w\<lparr>rw_file_path := rw_file_path w', rw_superkey := rw_superkey w'\<rparr>) t"
  using assms by (simp_all add: route_def coherent_def passed_def choice_defs)

lemma passed_mono:
  "passed w t \<Longrightarrow> (rw_file_path w \<noteq> None \<Longrightarrow> p \<noteq> None) \<Longrightarrow> (rw_superkey w \<noteq> None \<Longrightarrow> k \<noteq> None) \<Longrightarrow>
   passed (w\<lparr>rw_file_path := p, rw_superkey := k\<rparr>) t"
  by (auto simp: passed_def choice_defs split: if_splits)

lemma root_inv_mono:
  assumes "root_inv w" and "rw_step w' = rw_step w" "rw_family w' = rw_family w" "rw_mode w' = rw_mode w"
    "rw_provider w' = rw_provider w" "rw_version w' = rw_version w"
    and "rw_file_path w \<noteq> None \<Longrightarrow> rw_file_path w' \<noteq> None" "rw_superkey w \<noteq> None \<Longrightarrow> rw_superkey w' \<noteq> None"
    and "rw_superkey_popup_open w' \<Longrightarrow> rw_superkey_popup_open w \<or> rw_step w = 8"
    and "rw_run_id_popup_open w' \<Longrightarrow> rw_run_id_popup_open w \<or> rw_step w = 4"
    and "\<And>k. rw_superkey w' = Some k \<Longrightarrow> rw_superkey w = Some k \<or> superkey_valid k"
    and "\<And>k. rw_superkey_first_entry w' = Some k \<Longrightarrow> rw_superkey_first_entry w = Some k \<or> superkey_valid k"
  shows "root_inv w'"
proof -
  note same = same_route [OF assms(3-6)]
  have "\<forall>t \<in> set (behind w'). passed w' t"
    using assms(1, 7, 8) by (auto simp: root_inv_def behind_def same assms(2) intro!: passed_mono)
  then show ?thesis using assms(1, 9-) unfolding root_inv_def same assms(2) by blast
qed

section \<open>The steps of the user\<close>

lemma inv_family:
  "rw_step w = 0 \<Longrightarrow> root_inv w \<Longrightarrow>
   root_inv (w\<lparr>rw_family := Some f, rw_provider := None, rw_mode := None, rw_skroot_flavor := None,
     rw_version := None, rw_nightly_source := None, rw_file_path := None, rw_kernel_version := None,
     rw_run_id := None, rw_run_id_buffer := []\<rparr>)"
  by (auto simp: inv_unfold)

lemma inv_mode:
  assumes "root_inv w" and "rw_step w = 1" and "\<not> is_skroot w"
  shows "root_inv (w\<lparr>rw_mode := Some m, rw_file_path := None, rw_kernel_version := None\<rparr>)"
proof -
  have "rw_family w = Some KernelSU"
    using assms by (auto simp: root_inv_def route_def choice_defs coherent_def split: if_splits option.splits)
  then show ?thesis using assms by (auto simp: inv_unfold split: if_splits)
qed

lemma inv_provider:
  assumes "root_inv w" and "rw_step w = 2" and "\<not> is_gki w"
    and "p \<in> set (providers (case rw_family w of None \<Rightarrow> KernelSU | Some f \<Rightarrow> f))"
  shows "root_inv (w\<lparr>rw_provider := Some p, rw_file_path := None\<rparr>)"
    and "root_inv (w\<lparr>rw_provider := Some p, rw_file_path := None, rw_version := v\<rparr>)"
proof -
  obtain f where f: "rw_family w = Some f" using root_inv_family assms(1, 2) by fastforce
  have "f \<noteq> Skroot" using assms(1, 2) f by (auto simp: root_inv_def route_def choice_defs)
  then show "root_inv (w\<lparr>rw_provider := Some p, rw_file_path := None\<rparr>)"
    "root_inv (w\<lparr>rw_provider := Some p, rw_file_path := None, rw_version := v\<rparr>)"
    using assms f by (auto simp: inv_unfold split: if_splits)
qed

lemma inv_version:
  assumes "root_inv w" and "rw_step w = 3" and "\<not> is_forks w"
  shows "root_inv (w\<lparr>rw_version := Some v\<rparr>)"
proof -
  obtain f where f: "rw_family w = Some f" using root_inv_family assms(1, 2) by fastforce
  then show ?thesis using assms by (auto simp: inv_unfold split: if_splits)
qed

lemma takeWhile_nth: "distinct xs \<Longrightarrow> i < length xs \<Longrightarrow> takeWhile (\<lambda>t. t \<noteq> xs ! i) xs = take i xs"
  by (rule takeWhile_eq_take_P_nth) (auto simp: nth_eq_iff_index_eq)

lemma behind_at:
  assumes "coherent w" and "rw_family w \<noteq> None" and "i < length (route w)"
  shows "behind (w\<lparr>rw_step := route w ! i\<rparr>) = take i (route w)"
  using length_route [OF assms(1, 2)] takeWhile_nth [of "route w" i] assms(3) by (simp add: behind_def)

lemma passed_step [simp]: "passed (w\<lparr>rw_step := s\<rparr>) t = passed w t"
  by (simp add: passed_def choice_defs)

text \<open>Moving along the route, with the popups closed.\<close>

lemma inv_at:
  assumes "root_inv w" and "rw_family w \<noteq> None" and "i < length (route w)"
    and "\<forall>t \<in> set (take i (route w)). passed w t"
    and "\<not> rw_superkey_popup_open w" "\<not> rw_run_id_popup_open w"
  shows "root_inv (w\<lparr>rw_step := route w ! i\<rparr>)"
  using assms behind_at [of w i] by (auto simp: root_inv_def)

lemma inv_position:
  assumes "root_inv w" and "rw_family w \<noteq> None"
  obtains i where "i < length (route w)" "w = w\<lparr>rw_step := route w ! i\<rparr>"
    "i = length (route w) - 1 \<longleftrightarrow> rw_step w = 7" "i = 0 \<longleftrightarrow> rw_step w = 0"
    "\<forall>t \<in> set (take i (route w)). passed w t"
proof -
  have w: "coherent w" "rw_step w \<in> set (route w)" "\<forall>t \<in> set (behind w). passed w t"
    using assms(1) by (simp_all add: root_inv_def)
  obtain i where i: "i < length (route w)" "w = w\<lparr>rw_step := route w ! i\<rparr>"
    "i = length (route w) - 1 \<longleftrightarrow> rw_step w = 7" "i = 0 \<longleftrightarrow> rw_step w = 0"
    by (rule step_of_route [OF w(1) assms(2) w(2)])
  have "behind w = take i (route w)" using behind_at [OF w(1) assms(2) i(1)] i(2) by simp
  then show thesis using that [OF i] w(3) by simp
qed

lemma inv_next:
  assumes "root_inv w" and "rw_step w \<noteq> 7" and "passed w (rw_step w)"
    and "\<not> rw_superkey_popup_open w" "\<not> rw_run_id_popup_open w"
  shows "root_inv (root_next w)"
proof -
  have fam: "rw_family w \<noteq> None"
    using assms(1, 3) root_inv_family by (cases "rw_step w = 0") (auto simp: passed_def)
  obtain i where i: "i < length (route w)" "w = w\<lparr>rw_step := route w ! i\<rparr>"
    "i = length (route w) - 1 \<longleftrightarrow> rw_step w = 7" "\<forall>t \<in> set (take i (route w)). passed w t"
    by (rule inv_position [OF assms(1) fam])
  have s: "Suc i < length (route w)" using i(1, 3) assms(2) by linarith
  have "route w ! i = rw_step w" using i(2) by (metis root_wizard.select_convs(1) root_wizard.surjective root_wizard.update_convs(1))
  then have "\<forall>t \<in> set (take (Suc i) (route w)). passed w t"
    using i(1, 4) assms(3) by (simp add: take_Suc_conv_app_nth)
  moreover have "root_next w = w\<lparr>rw_step := route w ! Suc i\<rparr>"
    using next_on_route [of w i] assms(1) fam i(1, 2) s by (simp add: root_inv_def)
  ultimately show ?thesis using inv_at [OF assms(1) fam s _ assms(4, 5)] by simp
qed

lemma inv_back:
  assumes "root_inv w" and "rw_step w \<noteq> 0"
    and "\<not> rw_superkey_popup_open w" "\<not> rw_run_id_popup_open w"
  shows "root_inv (root_back w)"
proof -
  have fam: "rw_family w \<noteq> None" using assms(1, 2) root_inv_family by simp
  obtain i where i: "i < length (route w)" "w = w\<lparr>rw_step := route w ! i\<rparr>"
    "i = 0 \<longleftrightarrow> rw_step w = 0" "\<forall>t \<in> set (take i (route w)). passed w t"
    by (rule inv_position [OF assms(1) fam])
  have s: "0 < i" "i - 1 < length (route w)" using i(1, 3) assms(2) by auto
  have "\<forall>t \<in> set (take (i - 1) (route w)). passed w t"
    using i(4) set_take_subset_set_take [of "i - 1" i "route w"] by auto
  moreover have "root_back w = w\<lparr>rw_step := route w ! (i - 1)\<rparr>"
    using back_on_route [of w i] assms(1) fam i(1, 2) s(1) by (simp add: root_inv_def)
  ultimately show ?thesis using inv_at [OF assms(1) fam s(2) _ assms(3, 4)] by simp
qed

lemma can_next_passed: "root_can_next w \<Longrightarrow> rw_step w \<noteq> 8 \<Longrightarrow> passed w (rw_step w)"
  by (auto simp: root_can_next_def passed_def Let_def split: if_splits)

lemma inv_mode_rejected:
  assumes "root_inv w" and "is_gki w" and "\<not> rw_superkey_popup_open w" "\<not> rw_run_id_popup_open w"
  shows "root_inv (w\<lparr>rw_mode := None, rw_step := 1\<rparr>)"
proof -
  have "rw_family w = Some KernelSU" using assms(1, 2) gki_family by (simp add: root_inv_def)
  then show ?thesis using assms by (auto simp: inv_unfold)
qed

section \<open>Every message keeps the invariant\<close>

lemma inv_exec_start:
  assumes "root_inv (ra_root a)" and "rw_step (ra_root a) = 7"
    and "root_exec_start env a = Some (a', t)"
  shows "root_inv (ra_root a')"
proof -
  have "\<not> rw_superkey_popup_open (ra_root a)" "\<not> rw_run_id_popup_open (ra_root a)"
    using assms(1, 2) by (auto simp: root_inv_def)
  note reject = inv_mode_rejected [OF assms(1) _ this]
  show ?thesis
    using assms(1, 3) reject
    by (auto simp: root_exec_start_def begin_phased_op_def split: if_splits sum.splits bind_splits)
qed

lemma inv_step6:
  assumes "root_inv w" and "rw_step w = 6"
  shows "root_inv (root_next w)" and "rw_step (root_next w) = 7"
proof -
  have "\<not> rw_superkey_popup_open w" "\<not> rw_run_id_popup_open w" using assms by (auto simp: root_inv_def)
  then show "root_inv (root_next w)" using assms by (intro inv_next) (auto simp: passed_def)
  show "rw_step (root_next w) = 7" using assms(2) by (simp add: root_next_def)
qed

lemma inv_message_next:
  assumes "root_inv (ra_root a)" and "offered (ra_root a) RootNext"
    and "root_next_pressed env a = Some (a', t)"
  shows "root_inv (ra_root a')"
proof -
  let ?w = "ra_root a"
  have off: "rw_step ?w \<noteq> 7" "root_can_next ?w" "\<not> rw_superkey_popup_open ?w" "\<not> rw_run_id_popup_open ?w"
    using assms(2) by (auto simp: offered_def popup_open_def)
  consider "rw_step ?w = 6" | "rw_step ?w = 8" | "rw_step ?w \<noteq> 6" "rw_step ?w \<noteq> 8" by blast
  then show ?thesis
  proof cases
    case 1
    show ?thesis
    proof (cases "needs_ksu_lkm_kernel_version ?w \<or> is_running (ra_operation a)")
      case True
      then show ?thesis
        using 1 assms(1, 3) by (auto simp: root_next_pressed_def begin_silent_op_def Let_def split: if_splits)
    next
      case False
      then have "root_exec_start env (with_root root_next a) = Some (a', t)"
        using 1 assms(3) by (simp add: root_next_pressed_def)
      from inv_exec_start [OF _ _ this] show ?thesis using inv_step6 [OF assms(1) 1] by simp
    qed
  next
    case 2
    have "root_inv (?w\<lparr>rw_superkey_buffer := [], rw_superkey_first_entry := None,
        rw_superkey_popup_open := True\<rparr>)"
      by (rule root_inv_mono [OF assms(1)]) (simp_all add: 2)
    then show ?thesis using 2 assms(3) by (auto simp: root_next_pressed_def)
  next
    case 3
    let ?v = "root_next ?w"
    have v: "root_inv ?v" by (rule inv_next [OF assms(1) off(1) can_next_passed off(3, 4)]) (use off 3 in auto)
    have "root_inv (root_next (?v\<lparr>rw_folder_path := Some p\<rparr>))" if "rw_step ?v = 5" for p
    proof (rule inv_next)
      show "root_inv (?v\<lparr>rw_folder_path := Some p\<rparr>)" by (rule root_inv_mono [OF v]) simp_all
    qed (use that v in \<open>auto simp: root_inv_def passed_def\<close>)
    then show ?thesis
      using 3 v assms(3) by (auto simp: root_next_pressed_def Let_def split: option.splits if_splits)
  qed
qed

lemma inv_superkey:
  assumes "root_inv (ra_root a)" and "rw_superkey_popup_open (ra_root a)"
  shows "root_inv (ra_root (superkey_confirmed a))"
proof -
  let ?w = "ra_root a"
  let ?key = "trim_ws (rw_superkey_buffer ?w)"
  show ?thesis
  proof (cases "rw_superkey_first_entry ?w")
    case None
    then show ?thesis
      by (auto simp: superkey_confirmed_def Let_def intro!: root_inv_mono [OF assms(1)])
  next
    case (Some f)
    show ?thesis
    proof (cases "?key = f")
      case False
      then show ?thesis
        using Some by (auto simp: superkey_confirmed_def Let_def intro!: root_inv_mono [OF assms(1)])
    next
      case True
      let ?v = "?w\<lparr>rw_superkey_first_entry := None, rw_superkey := Some ?key, rw_superkey_buffer := [],
        rw_superkey_popup_open := False\<rparr>"
      have "superkey_valid ?key" "rw_step ?w = 8" "\<not> rw_run_id_popup_open ?w"
        using assms Some True by (auto simp: root_inv_def)
      then have "root_inv (root_next ?v)"
        by (intro inv_next root_inv_mono [OF assms(1)]) (simp_all add: passed_def)
      then show ?thesis using Some True by (simp add: superkey_confirmed_def Let_def)
    qed
  qed
qed

lemma app_updates:
  "a\<lparr>ra_root := w, ra_error := e\<rparr> = a\<lparr>ra_error := e, ra_root := w\<rparr>"
  "a\<lparr>ra_root := w, ra_operation := oe\<rparr> = a\<lparr>ra_operation := oe, ra_root := w\<rparr>"
  by (cases a; simp)+

lemma inv_kernel_version:
  assumes "root_inv (ra_root a)" and "kernel_version_confirmed env a = Some (a', t)"
  shows "root_inv (ra_root a')"
proof (cases "normalize_ksu_kernel_version (trim_ws (rw_kernel_version_buffer (ra_root a)))")
  case None
  then show ?thesis using assms by (auto simp: kernel_version_confirmed_def)
next
  case (Some kv)
  let ?w = "(ra_root a)\<lparr>rw_kernel_version := Some kv, rw_kernel_version_buffer := [],
    rw_kernel_version_popup_open := False\<rparr>"
  have w: "root_inv ?w" by (rule root_inv_mono [OF assms(1)]) simp_all
  show ?thesis
  proof (cases "rw_step (ra_root a) = 6")
    case True
    then have "root_exec_start env (a\<lparr>ra_root := root_next ?w, ra_error := None\<rparr>) = Some (a', t)"
      using Some assms(2) by (simp add: kernel_version_confirmed_def Let_def app_updates)
    from inv_exec_start [OF _ _ this] show ?thesis using inv_step6 [OF w] True by simp
  next
    case False
    then show ?thesis using w Some assms(2) by (auto simp: kernel_version_confirmed_def Let_def)
  qed
qed

lemma inv_probe_done:
  assumes "root_inv (ra_root a)" and "kernel_probe_done env detected a = Some (a', t)"
  shows "root_inv (ra_root a')"
proof (cases "\<exists>kv. detected = Some kv \<and> rw_step (ra_root a) = 6 \<and>
    root_exec_start env (end_silent_op (with_root (\<lambda>w. root_next (w\<lparr>rw_kernel_version := Some kv\<rparr>)) a)) =
      Some (a', t)")
  case True
  then obtain kv where kv: "rw_step (ra_root a) = 6"
    "root_exec_start env (end_silent_op (with_root (\<lambda>w. root_next (w\<lparr>rw_kernel_version := Some kv\<rparr>)) a)) =
      Some (a', t)" by blast
  have "root_inv ((ra_root a)\<lparr>rw_kernel_version := Some kv\<rparr>)"
    by (rule root_inv_mono [OF assms(1)]) simp_all
  from inv_step6 [OF this] inv_exec_start [OF _ _ kv(2)] kv(1) show ?thesis
    by (simp add: end_silent_op_def)
next
  case False
  have "root_inv ((ra_root a)\<lparr>rw_kernel_version_buffer := b, rw_kernel_version_popup_open := True\<rparr>)" for b
    by (rule root_inv_mono [OF assms(1)]) simp_all
  then show ?thesis using False assms
    by (auto simp: kernel_probe_done_def end_silent_op_def Let_def split: if_splits option.splits)
qed

lemma inv_message:
  assumes "root_inv (ra_root a)" and "offered (ra_root a) msg" and "update_root env a msg = Some (a', t)"
  shows "root_inv (ra_root a')"
proof (cases msg)
  case (RootFamily f)
  then show ?thesis
    using assms inv_family [of "ra_root a" f] by (auto simp: update_root_def offered_def root_family_chosen_def)
next
  case (RootProvider p)
  then show ?thesis
    using assms inv_provider [of "ra_root a" p]
      root_inv_mono [of "(ra_root a)\<lparr>rw_provider := Some p, rw_file_path := None, rw_version := Some Nightly\<rparr>"
        "(ra_root a)\<lparr>rw_provider := Some p, rw_file_path := None, rw_version := Some Nightly,
          rw_nightly_source := None, rw_run_id := None, rw_run_id_buffer := []\<rparr>"]
    by (auto simp: update_root_def offered_def root_provider_chosen_def Let_def split: if_splits)
next
  case (RootMode m)
  then show ?thesis
    using assms inv_mode [of "ra_root a" m] by (auto simp: update_root_def offered_def root_mode_chosen_def)
next
  case (RootVersion v)
  have "root_inv ((ra_root a)\<lparr>rw_version := Some v\<rparr>)"
    using RootVersion assms inv_version by (auto simp: offered_def)
  then have "root_inv ((ra_root a)\<lparr>rw_version := Some v, rw_nightly_source := None, rw_run_id := None,
      rw_run_id_buffer := []\<rparr>)"
    by (rule root_inv_mono) simp_all
  then show ?thesis using RootVersion assms(3) by (auto simp: update_root_def)
next
  case RootNext
  then show ?thesis using assms inv_message_next by (auto simp: update_root_def)
next
  case RootBack
  then show ?thesis using assms inv_back by (auto simp: update_root_def offered_def popup_open_def)
next
  case RootSuperkeyConfirm
  then show ?thesis using assms inv_superkey by (auto simp: update_root_def offered_def)
next
  case RootKernelVersionConfirm
  then show ?thesis using assms inv_kernel_version by (auto simp: update_root_def)
next
  case (RootKernelVersionProbeDone d)
  then show ?thesis using assms inv_probe_done by (auto simp: update_root_def)
next
  case RootExecStart
  then show ?thesis using assms(2) by (simp add: offered_def)
next
  case (RootNightlySource s)
  then show ?thesis
    using assms by (auto simp: update_root_def offered_def root_nightly_source_chosen_def
        split: nightly_source.splits intro!: root_inv_mono [OF assms(1)])
next
  case (RootLoaderChosen p)
  then show ?thesis
    using assms(3) by (auto simp: update_root_def split: option.splits sum.splits
        intro!: root_inv_mono [OF assms(1)])
next
  case (RootSkrootFlavor p)
  then show ?thesis
    using assms(1, 3) by (auto simp: update_root_def split: if_splits intro!: root_inv_mono [OF assms(1)])
next
  case (RootKpmSelected p)
  then show ?thesis
    using assms(1, 3) by (auto simp: update_root_def split: option.splits intro!: root_inv_mono [OF assms(1)])
next
  case RootRunIdConfirm
  then show ?thesis
    using assms(1, 3) by (auto simp: update_root_def run_id_confirmed_def Let_def split: if_splits
        intro!: root_inv_mono [OF assms(1)])
qed (use assms(3) in \<open>auto simp: update_root_def assms(1) intro!: root_inv_mono [OF assms(1)]\<close>)

lemma reach_inv: "root_reach a \<Longrightarrow> root_inv (ra_root a)"
proof (induction rule: root_reach.induct)
  case (opened a)
  then show ?case by (simp add: root_inv_default)
next
  case (message a msg env a' t)
  then show ?case using inv_message by blast
next
  case (file_selected a p)
  then show ?case by (auto intro: root_inv_mono)
qed (simp_all add: root_inv_default)

section \<open>Complete runs\<close>

text \<open>What the worker of a run needs, route by route.\<close>

definition run_complete :: "root_env \<Rightarrow> root_run \<Rightarrow> bool" where
  "run_complete env r \<longleftrightarrow>
     (\<exists>p. rr_fw_folder r = Some p \<and> re_is_file env p) \<and> cap_root (capabilities (rr_device_model r)) \<and>
     (case rr_family r of
        None \<Rightarrow> False
      | Some Skroot \<Rightarrow> True
      | Some KernelSU \<Rightarrow>
          rr_mode r = Some Gki \<and> gki_root (capabilities (rr_device_model r)) \<and> rr_file_path r \<noteq> None \<or>
          rr_mode r = Some Lkm \<and> rr_kernel_version r \<noteq> None \<and> rr_version r \<noteq> None \<and>
            (\<exists>p \<in> set (providers KernelSU). rr_provider r = Some p)
      | Some Magisk \<Rightarrow>
          rr_provider r = Some MagiskForks \<and> rr_file_path r \<noteq> None \<or>
          rr_provider r = Some PMagisk \<and> rr_version r \<noteq> None
      | Some APatch \<Rightarrow>
          superkey_valid (rr_superkey r) \<and> rr_version r \<noteq> None \<and>
            (\<exists>p \<in> set (providers APatch). rr_provider r = Some p))"

lemma exec_start_run:
  assumes "root_exec_start env a = Some (a', RunRoot r)"
  shows "r = root_run_of (ra_model a) (ra_root a) \<and> cap_root (capabilities (ra_model a)) \<and>
    (is_gki (ra_root a) \<longrightarrow> gki_root (capabilities (ra_model a))) \<and>
    (\<exists>p. rw_folder_path (ra_root a) = Some p \<and> re_is_file env p)"
  using assms
  by (auto simp: root_exec_start_def validate_loader_path_def split: if_splits sum.splits option.splits)

lemma confirm_step_run:
  assumes inv: "root_inv w" and step: "rw_step w = 6" and kv: "\<not> needs_ksu_lkm_kernel_version w"
    and run: "root_exec_start env (a\<lparr>ra_root := root_next w\<rparr>) = Some (a', RunRoot r)"
  shows "run_complete env r"
proof -
  have next_w: "root_next w = w\<lparr>rw_step := 7\<rparr>" using step by (simp add: root_next_def)
  have r: "r = root_run_of (ra_model a) (w\<lparr>rw_step := 7\<rparr>)" "cap_root (capabilities (ra_model a))"
    "is_gki w \<longrightarrow> gki_root (capabilities (ra_model a))"
    "\<exists>p. rw_folder_path w = Some p \<and> re_is_file env p"
    using exec_start_run [OF run] by (auto simp: next_w is_gki_def)
  have coh: "coherent w" using inv by (simp add: root_inv_def)
  have fam: "rw_family w \<noteq> None" using root_inv_family [OF inv] step by simp
  have pass: "\<forall>t \<in> set (behind w). passed w t" using inv by (simp add: root_inv_def)
  have key: "\<forall>k. rw_superkey w = Some k \<longrightarrow> superkey_valid k" using inv by (simp add: root_inv_def)
  note unfold = run_complete_def r(1) root_run_of_def behind_def route_defs passed_def step
  from coh fam show ?thesis
  proof (cases rule: route_cases)
    case skroot
    then show ?thesis using r(2, 4) by (simp add: unfold)
  next
    case gki
    then show ?thesis using r(2-4) pass by (auto simp: unfold is_gki_def)
  next
    case ksu
    then have "rw_mode w \<noteq> None" "rw_provider w \<noteq> None" "rw_version w \<noteq> None"
      using pass by (auto simp: unfold split: if_splits)
    moreover from this ksu have "rw_mode w = Some Lkm" by (auto simp: is_gki_def) (metis root_mode.exhaust)
    moreover from this ksu kv have "rw_kernel_version w \<noteq> None"
      by (simp add: needs_ksu_lkm_kernel_version_def is_ksu_lkm_def)
    moreover from calculation ksu coh have "\<exists>p \<in> set (providers KernelSU). rw_provider w = Some p"
      by (auto simp: coherent_def)
    ultimately show ?thesis using ksu r(2, 4) by (simp add: run_complete_def r(1) root_run_of_def)
  next
    case forks
    then show ?thesis using r(2, 4) pass by (auto simp: unfold is_forks_def split: if_splits)
  next
    case magisk
    then have "rw_provider w \<noteq> None" "rw_version w \<noteq> None"
      using pass by (auto simp: unfold split: if_splits)
    moreover from this magisk coh have "rw_provider w = Some PMagisk"
      by (auto simp: coherent_def is_forks_def)
    ultimately show ?thesis using magisk r(2, 4) by (simp add: run_complete_def r(1) root_run_of_def)
  next
    case apatch
    then have "rw_provider w \<noteq> None" "rw_version w \<noteq> None" "rw_superkey w \<noteq> None"
      using pass by (auto simp: unfold split: if_splits)
    moreover from this apatch coh have "\<exists>p \<in> set (providers APatch). rw_provider w = Some p"
      by (auto simp: coherent_def)
    ultimately show ?thesis
      using apatch r(2, 4) key by (auto simp: run_complete_def r(1) root_run_of_def simp del: providers.simps)
  qed
qed

text \<open>Whatever starts a run when its message is offered, the run is complete.\<close>

lemma offered_run_complete:
  assumes "root_reach a" and "offered (ra_root a) msg" and "update_root env a msg = Some (a', RunRoot r)"
  shows "run_complete env r"
proof -
  have inv: "root_inv (ra_root a)" by (rule reach_inv [OF assms(1)])
  have kv_inv: "root_inv ((ra_root a)\<lparr>rw_kernel_version := k, rw_kernel_version_buffer := b,
      rw_kernel_version_popup_open := c\<rparr>)" "root_inv ((ra_root a)\<lparr>rw_kernel_version := k\<rparr>)" for k b c
    by (rule root_inv_mono [OF inv]; simp)+
  from assms(2, 3) consider
    (pressed) "root_next_pressed env a = Some (a', RunRoot r)"
  | (typed) "kernel_version_confirmed env a = Some (a', RunRoot r)"
  | (probed) d where "kernel_probe_done env d a = Some (a', RunRoot r)"
    by (cases msg) (auto simp: update_root_def offered_def split: if_splits)
  then show ?thesis
  proof cases
    case pressed
    then have "rw_step (ra_root a) = 6" "\<not> needs_ksu_lkm_kernel_version (ra_root a)"
      "root_exec_start env (a\<lparr>ra_root := root_next (ra_root a)\<rparr>) = Some (a', RunRoot r)"
      by (auto simp: root_next_pressed_def Let_def split: if_splits option.splits)
    then show ?thesis by (rule confirm_step_run [OF inv])
  next
    case typed
    then obtain kv where kv: "rw_step (ra_root a) = 6"
      "root_exec_start env ((a\<lparr>ra_error := None\<rparr>)\<lparr>ra_root := root_next ((ra_root a)\<lparr>rw_kernel_version := Some kv,
         rw_kernel_version_buffer := [], rw_kernel_version_popup_open := False\<rparr>)\<rparr>) = Some (a', RunRoot r)"
      by (auto simp: kernel_version_confirmed_def Let_def split: option.splits if_splits)
    show ?thesis
      by (rule confirm_step_run [OF kv_inv(1) _ _ kv(2)])
        (simp_all add: kv(1) needs_ksu_lkm_kernel_version_def)
  next
    case probed
    then obtain kv where kv: "rw_step (ra_root a) = 6"
      "root_exec_start env ((end_silent_op a)\<lparr>ra_root := root_next ((ra_root a)\<lparr>rw_kernel_version := Some kv\<rparr>)\<rparr>) =
        Some (a', RunRoot r)"
      by (auto simp: kernel_probe_done_def end_silent_op_def Let_def app_updates
          split: option.splits if_splits)
    show ?thesis
      by (rule confirm_step_run [OF kv_inv(2) _ _ kv(2)])
        (simp_all add: kv(1) needs_ksu_lkm_kernel_version_def)
  qed
qed

end
