(* ===== verification/Root_Dispatch.thy ===== *)
theory Root_Dispatch
  imports Root_Safety
begin

text \<open>
  The dispatcher in front of the root wizard (\<open>update/mod.rs\<close>, \<open>update/self_update_gate.rs\<close>,
  \<open>update/device_poll_gate.rs\<close>): input is dropped while an operation or a self-update runs, and queued
  while a device poll, the end of the ADB server or the closing of a foreign tool is in flight. When
  the wait is over the queue is replayed in order. A queued message was offered when it was sent; the
  replay does not ask again, so that the system records whether all the replayed messages were still
  offered. The first part of the worker (\<open>workers/root.rs\<close>) decides whether a run has its provider.
\<close>

section \<open>Dispatching\<close>

text \<open>
  The messages that reach the root wizard, and of each handler what concerns it. Of the target of a
  picker only whether it is \<open>RootFile\<close> counts here, and the three waits are one flag.
\<close>

datatype sys_msg =
    ToRoot root_msg
  | FileSelected "string option"
  | RecentFilePicked bool string
  | Navigate app_view
  | StartOver

record root_system =
  sy_app :: root_app
  sy_view :: app_view
  sy_root_picker :: bool
  sy_waiting :: bool
  sy_updating :: bool
  sy_deferred :: "sys_msg list"

definition blocks_message :: "sys_msg \<Rightarrow> bool" where
  "blocks_message m =
     (case m of
        ToRoot r \<Rightarrow> (case r of RootExecDone \<Rightarrow> False | RootKernelVersionProbeDone _ \<Rightarrow> False | _ \<Rightarrow> True)
      | FileSelected _ \<Rightarrow> False
      | RecentFilePicked _ _ \<Rightarrow> True
      | Navigate _ \<Rightarrow> True
      | StartOver \<Rightarrow> True)"

definition defers_message :: "sys_msg \<Rightarrow> bool" where
  "defers_message m \<longleftrightarrow> blocks_message m \<or> (case m of FileSelected _ \<Rightarrow> True | _ \<Rightarrow> False)"

definition handle_file :: "string option \<Rightarrow> root_system \<Rightarrow> root_system" where
  "handle_file path s =
     (let s1 = s\<lparr>sy_root_picker := False\<rparr> in
      case path of
        None \<Rightarrow> s1
      | Some p \<Rightarrow>
          if sy_root_picker s then s1\<lparr>sy_app := with_root (\<lambda>w. w\<lparr>rw_file_path := Some p\<rparr>) (sy_app s)\<rparr> else s1)"

definition handle_recent_file :: "root_env \<Rightarrow> bool \<Rightarrow> string \<Rightarrow> root_system \<Rightarrow> root_system" where
  "handle_recent_file env root_target p s =
     (if re_is_file env p \<and> root_target
      then s\<lparr>sy_app := with_root (\<lambda>w. w\<lparr>rw_file_path := Some p\<rparr>) (sy_app s)\<rparr> else s)"

definition handle_navigate :: "app_view \<Rightarrow> root_system \<Rightarrow> root_system" where
  "handle_navigate v s =
     (let a = sy_app s; w = ra_root a; s1 = s\<lparr>sy_view := v\<rparr> in
      if v = RootView \<and> \<not> is_running (ra_operation a) \<and> \<not> root_is_in_exec w \<and> \<not> root_is_on_confirm_step w
      then s1\<lparr>sy_app := with_root (\<lambda>_. root_default) a\<rparr> else s1)"

definition handle_start_over :: "root_system \<Rightarrow> root_system" where
  "handle_start_over s =
     (let a = (if sy_view s = RootView then with_root (\<lambda>_. root_default) (sy_app s) else sy_app s)
      in s\<lparr>sy_app := a\<lparr>ra_error := None\<rparr>\<rparr>)"

definition handle_message :: "root_env \<Rightarrow> root_system \<Rightarrow> sys_msg \<Rightarrow> (root_system \<times> root_task) option" where
  "handle_message env s m =
     (case m of
        ToRoot r \<Rightarrow>
          map_option (\<lambda>(a, t). (s\<lparr>sy_app := a, sy_root_picker := (r = RootSelectFile \<or> sy_root_picker s)\<rparr>, t))
            (update_root env (sy_app s) r)
      | FileSelected p \<Rightarrow> Some (handle_file p s, NoTask)
      | RecentFilePicked root_target p \<Rightarrow> Some (handle_recent_file env root_target p s, NoTask)
      | Navigate v \<Rightarrow> Some (handle_navigate v s, NoTask)
      | StartOver \<Rightarrow> Some (handle_start_over s, NoTask))"

definition dispatch :: "root_env \<Rightarrow> root_system \<Rightarrow> sys_msg \<Rightarrow> (root_system \<times> root_task) option" where
  "dispatch env s m =
     (if is_running (ra_operation (sy_app s)) \<and> (case m of Navigate _ \<Rightarrow> False | _ \<Rightarrow> True) \<and>
         (blocks_message m \<or> (case m of FileSelected _ \<Rightarrow> True | _ \<Rightarrow> False))
      then Some (s, NoTask)
      else if sy_updating s \<and> blocks_message m then Some (s, NoTask)
      else if sy_waiting s \<and> defers_message m then Some (s\<lparr>sy_deferred := sy_deferred s @ [m]\<rparr>, NoTask)
      else handle_message env s m)"

text \<open>The replay of the queue; no replayed message waits again.\<close>

fun replay :: "root_env \<Rightarrow> sys_msg list \<Rightarrow> root_system \<Rightarrow> (root_system \<times> root_task list) option" where
  "replay env [] s = Some (s, [])"
| "replay env (m # ms) s =
     Option.bind (dispatch env (s\<lparr>sy_deferred := ms\<rparr>) m) (\<lambda>(s1, t).
     map_option (\<lambda>(s2, ts). (s2, t # ts)) (replay env ms s1))"

definition resume_after_device_poll :: "root_env \<Rightarrow> root_system \<Rightarrow> (root_system \<times> root_task list) option" where
  "resume_after_device_poll env s = (if sy_waiting s then Some (s, []) else replay env (sy_deferred s) s)"

text \<open>The worker's first decision: the provider and the version of the route.\<close>

definition resolve_provider_version ::
    "bool \<Rightarrow> bool \<Rightarrow> provider option \<Rightarrow> ver_choice option \<Rightarrow> string + provider \<times> ver_choice" where
  "resolve_provider_version is_gki_route is_skroot_route prov ver =
     (if is_gki_route \<or> is_skroot_route then Inr (PMagisk, Stable)
      else
        bind_r (ok_or prov ''err_root_provider_missing'') (\<lambda>p.
        bind_r (if p = MagiskForks then Inr (case ver of None \<Rightarrow> Stable | Some v \<Rightarrow> v)
          else ok_or ver ''err_root_version_missing'') (\<lambda>v.
        Inr (p, v))))"

section \<open>The system\<close>

text \<open>What the screen offers: the messages of the wizard as \<open>offered\<close>, the others always.\<close>

definition shown :: "root_system \<Rightarrow> sys_msg \<Rightarrow> bool" where
  "shown s m = (case m of ToRoot r \<Rightarrow> offered (ra_root (sy_app s)) r | _ \<Rightarrow> True)"

text \<open>Every message of a replay is still offered when it is handled.\<close>

fun replay_shown :: "root_env \<Rightarrow> sys_msg list \<Rightarrow> root_system \<Rightarrow> bool" where
  "replay_shown env [] s \<longleftrightarrow> True"
| "replay_shown env (m # ms) s \<longleftrightarrow>
     shown s m \<and>
     (case dispatch env (s\<lparr>sy_deferred := ms\<rparr>) m of None \<Rightarrow> True | Some (s1, t) \<Rightarrow> replay_shown env ms s1)"

text \<open>
  The reachable systems; the flag says that no replayed message had become stale. A message is sent
  when it is shown. A wait begins only while no operation runs (\<open>can_poll_device\<close>, and the messages that begin
  the other waits are dropped), and no operation is started from outside during a wait (the messages
  that start one are queued). Otherwise the rest of the application changes its own part as it likes.
\<close>

inductive sys_reach :: "bool \<Rightarrow> root_system \<Rightarrow> bool" where
  opened: "ra_root (sy_app s) = root_default \<Longrightarrow> \<not> sy_waiting s \<Longrightarrow> sy_deferred s = [] \<Longrightarrow> sys_reach True s"
| sent: "sys_reach f s \<Longrightarrow> shown s m \<Longrightarrow> dispatch env s m = Some (s', t) \<Longrightarrow> sys_reach f s'"
| wait: "sys_reach f s \<Longrightarrow> \<not> is_running (ra_operation (sy_app s)) \<Longrightarrow> sys_reach f (s\<lparr>sy_waiting := True\<rparr>)"
| resumed: "sys_reach f s \<Longrightarrow> resume_after_device_poll env (s\<lparr>sy_waiting := False\<rparr>) = Some (s', ts) \<Longrightarrow>
    sys_reach (f \<and> replay_shown env (sy_deferred s) (s\<lparr>sy_waiting := False\<rparr>)) s'"
| outside: "sys_reach f s \<Longrightarrow> ra_root (sy_app s') = ra_root (sy_app s) \<Longrightarrow> sy_deferred s' = sy_deferred s \<Longrightarrow>
    sy_waiting s' = sy_waiting s \<Longrightarrow> (sy_waiting s \<Longrightarrow> \<not> is_running (ra_operation (sy_app s'))) \<Longrightarrow> sys_reach f s'"

text \<open>The runs that are started: by a message that is sent, or by one of a replay.\<close>

inductive starts_run :: "root_env \<Rightarrow> bool \<Rightarrow> root_run \<Rightarrow> bool" where
  by_message: "sys_reach f s \<Longrightarrow> shown s m \<Longrightarrow> dispatch env s m = Some (s', RunRoot r) \<Longrightarrow> starts_run env f r"
| by_replay: "sys_reach f s \<Longrightarrow> resume_after_device_poll env (s\<lparr>sy_waiting := False\<rparr>) = Some (s', ts) \<Longrightarrow>
    RunRoot r \<in> set ts \<Longrightarrow>
    starts_run env (f \<and> replay_shown env (sy_deferred s) (s\<lparr>sy_waiting := False\<rparr>)) r"

section \<open>Waiting\<close>

lemma dispatch_keeps_waiting: "dispatch env s m = Some (s', t) \<Longrightarrow> sy_waiting s' = sy_waiting s"
  by (auto simp: dispatch_def handle_message_def handle_file_def handle_recent_file_def handle_navigate_def
      handle_start_over_def Let_def split: if_splits sys_msg.splits option.splits)

lemma replay_keeps_waiting: "replay env ms s = Some (s', ts) \<Longrightarrow> sy_waiting s' = sy_waiting s"
  by (induction ms arbitrary: s ts) (auto simp: bind_eq_Some_conv dest!: dispatch_keeps_waiting)

lemma exec_done_stops: "\<not> is_running (ra_operation a) \<Longrightarrow> \<not> is_running (op_finish st b (ra_operation a))"
  by (simp add: is_running_def op_finish_def Let_def)

text \<open>While the system waits, no operation runs, and a message starts none.\<close>

lemma waiting_dispatch:
  assumes "sy_waiting s" and "\<not> is_running (ra_operation (sy_app s))" and "dispatch env s m = Some (s', t)"
  shows "\<not> is_running (ra_operation (sy_app s')) \<and> t = NoTask"
proof (cases "defers_message m")
  case True
  then show ?thesis using assms by (auto simp: dispatch_def split: if_splits)
next
  case False
  then consider "m = ToRoot RootExecDone" | d where "m = ToRoot (RootKernelVersionProbeDone d)"
    by (cases m) (auto simp: defers_message_def blocks_message_def split: root_msg.splits)
  then show ?thesis
    using assms
    by cases (auto simp: dispatch_def blocks_message_def defers_message_def handle_message_def update_root_def
        kernel_probe_done_def Let_def exec_done_stops split: if_splits)
qed

lemma waiting_idle: "sys_reach f s \<Longrightarrow> sy_waiting s \<Longrightarrow> \<not> is_running (ra_operation (sy_app s))"
proof (induction rule: sys_reach.induct)
  case (sent f s m env s' t)
  then show ?case using waiting_dispatch [of s env m s' t] dispatch_keeps_waiting [OF sent(3)] by blast
next
  case (resumed f s env s' ts)
  then show ?case by (auto simp: resume_after_device_poll_def dest!: replay_keeps_waiting)
qed auto

text \<open>So no handler sends itself a start that the dispatcher would queue.\<close>

lemma no_start_while_waiting:
  "sys_reach f s \<Longrightarrow> sy_waiting s \<Longrightarrow> dispatch env s m = Some (s', t) \<Longrightarrow> t = NoTask"
  using waiting_dispatch waiting_idle by blast

section \<open>The wizard in the system\<close>

text \<open>A shown message keeps the wizard in its reachable states, and starts complete runs only.\<close>

lemma handle_reach:
  assumes "root_reach (sy_app s)" and "shown s m" and "handle_message env s m = Some (s', t)"
  shows "root_reach (sy_app s') \<and> (\<forall>r. t = RunRoot r \<longrightarrow> run_complete env r)"
proof (cases m)
  case (ToRoot r)
  then obtain a where a: "update_root env (sy_app s) r = Some (a, t)" "sy_app s' = a"
    using assms(3) by (auto simp: handle_message_def)
  have o: "offered (ra_root (sy_app s)) r" using assms(2) by (simp add: shown_def ToRoot)
  show ?thesis
    using root_reach.message [OF assms(1) o a(1)] offered_run_complete [OF assms(1) o] a by auto
next
  case (FileSelected p)
  then show ?thesis
    using assms(1,3) by (auto simp: handle_message_def handle_file_def Let_def split: option.splits
        intro: root_reach.file_selected)
next
  case (RecentFilePicked root_target p)
  then show ?thesis
    using assms(1,3) by (auto simp: handle_message_def handle_recent_file_def intro: root_reach.file_selected)
next
  case (Navigate v)
  then show ?thesis
    using assms(1,3) by (auto simp: handle_message_def handle_navigate_def Let_def intro: root_reach.reset)
next
  case StartOver
  have e: "root_reach (a\<lparr>ra_error := None\<rparr>)" if "root_reach a" for a
    by (rule root_reach.outside [OF that]) simp
  show ?thesis
    using StartOver assms(1,3)
    by (auto simp: handle_message_def handle_start_over_def Let_def intro!: e root_reach.reset)
qed

lemma dispatch_reach:
  assumes "root_reach (sy_app s)" and "shown s m" and "dispatch env s m = Some (s', t)"
  shows "root_reach (sy_app s') \<and> (\<forall>r. t = RunRoot r \<longrightarrow> run_complete env r)"
  using assms handle_reach [OF assms(1,2)] by (auto simp: dispatch_def split: if_splits)

lemma replay_reach:
  assumes "root_reach (sy_app s)" and "replay_shown env ms s" and "replay env ms s = Some (s', ts)"
  shows "root_reach (sy_app s') \<and> (\<forall>r. RunRoot r \<in> set ts \<longrightarrow> run_complete env r)"
  using assms
proof (induction ms arbitrary: s ts)
  case (Cons m ms)
  obtain s1 t ts' where d: "dispatch env (s\<lparr>sy_deferred := ms\<rparr>) m = Some (s1, t)"
    "replay env ms s1 = Some (s', ts')" "ts = t # ts'"
    using Cons.prems(3) by (auto simp: bind_eq_Some_conv)
  have h: "shown s m" "replay_shown env ms s1" using Cons.prems(2) d(1) by simp_all
  have "root_reach (sy_app s1) \<and> (\<forall>r. t = RunRoot r \<longrightarrow> run_complete env r)"
    by (rule dispatch_reach [OF _ _ d(1)]) (use Cons.prems(1) h(1) in \<open>auto simp: shown_def split: sys_msg.splits\<close>)
  with Cons.IH [OF _ h(2) d(2)] show ?case by (auto simp: d(3))
qed simp

lemma resume_reach:
  assumes "root_reach (sy_app s)" and "replay_shown env (sy_deferred s) (s\<lparr>sy_waiting := False\<rparr>)"
    and "resume_after_device_poll env (s\<lparr>sy_waiting := False\<rparr>) = Some (s', ts)"
  shows "root_reach (sy_app s') \<and> (\<forall>r. RunRoot r \<in> set ts \<longrightarrow> run_complete env r)"
  using replay_reach [of "s\<lparr>sy_waiting := False\<rparr>" env "sy_deferred s"] assms
  by (simp add: resume_after_device_poll_def)

lemma sys_reach_wizard: "sys_reach f s \<Longrightarrow> f \<Longrightarrow> root_reach (sy_app s)"
proof (induction rule: sys_reach.induct)
  case (opened s)
  then show ?case by (simp add: root_reach.opened)
next
  case (sent f s m env s' t)
  then show ?case using dispatch_reach by blast
next
  case (resumed f s env s' ts)
  then show ?case using resume_reach by blast
next
  case (outside f s s')
  then show ?case by (auto intro: root_reach.outside)
qed simp

section \<open>Sample runs\<close>

text \<open>A system at rest around a wizard.\<close>

definition at_rest :: "root_wizard \<Rightarrow> root_system" where
  "at_rest w = \<lparr>sy_app = \<lparr>ra_root = w, ra_model = [], ra_error = None, ra_operation = operation_default,
       ra_store = ow_store op_world_init\<rparr>,
     sy_view = RootView, sy_root_picker = False, sy_waiting = False, sy_updating = False, sy_deferred = []\<rparr>"

definition sample_env :: root_env where
  "sample_env = \<lparr>re_default_loader = None, re_is_file = (\<lambda>p. p = ''loader.melf'')\<rparr>"

lemma at_rest_idle: "\<not> is_running (ra_operation (sy_app (at_rest w)))"
  by (simp add: at_rest_def is_running_def operation_default_def)

lemma generic_model: "capabilities [] = GENERIC"
  by (simp add: capabilities_def PROFILES_def SUPPORTED_MODELS_def LAVIE_TAB_9QHD1_MODEL_def
      eq_ignore_ascii_case_def)

lemma rest_step:
  assumes "sys_reach f (at_rest w)" and "offered w m" and "m \<noteq> RootSelectFile"
    and "update_root sample_env (sy_app (at_rest w)) m = Some (sy_app (at_rest w'), NoTask)"
  shows "sys_reach f (at_rest w')"
proof -
  have a: "ra_root (sy_app (at_rest w)) = w" by (simp add: at_rest_def)
  have "dispatch sample_env (at_rest w) (ToRoot m) = Some (at_rest w', NoTask)"
    using assms(3,4) at_rest_idle [of w] by (simp add: dispatch_def handle_message_def) (simp add: at_rest_def)
  then show ?thesis by (rule sent [OF assms(1), rotated]) (simp add: shown_def a assms(2))
qed

lemma rest_start: "sys_reach True (at_rest root_default)"
  by (rule opened) (simp_all add: at_rest_def)

lemmas rest_unfold = at_rest_def sample_env_def root_default_def update_root_def offered_def
  root_next_pressed_def root_next_def root_can_next_def popup_open_def choice_defs Let_def

text \<open>The shortest route up to the confirmation.\<close>

definition skroot_wizard :: "nat \<Rightarrow> skroot_flavor option \<Rightarrow> string option \<Rightarrow> root_wizard" where
  "skroot_wizard s flavor folder = root_default\<lparr>rw_family := Some Skroot, rw_step := s,
     rw_skroot_flavor := flavor, rw_folder_path := folder\<rparr>"

lemma skroot_confirm: "sys_reach True (at_rest (skroot_wizard 6 (Some Lite) (Some ''loader.melf'')))"
proof -
  have 0: "sys_reach True (at_rest (skroot_wizard 0 None None))"
    by (rule rest_step [OF rest_start, of "RootFamily Skroot"])
      (simp_all add: rest_unfold skroot_wizard_def root_family_chosen_def generic_model GENERIC_def)
  have 1: "sys_reach True (at_rest (skroot_wizard 1 None None))"
    by (rule rest_step [OF 0, of RootNext]) (simp_all add: rest_unfold skroot_wizard_def)
  have 2: "sys_reach True (at_rest (skroot_wizard 1 (Some Lite) None))"
    by (rule rest_step [OF 1, of "RootSkrootFlavor Lite"]) (simp_all add: rest_unfold skroot_wizard_def)
  have 3: "sys_reach True (at_rest (skroot_wizard 5 (Some Lite) None))"
    by (rule rest_step [OF 2, of RootNext]) (simp_all add: rest_unfold skroot_wizard_def)
  have 4: "sys_reach True (at_rest (skroot_wizard 5 (Some Lite) (Some ''loader.melf'')))"
    by (rule rest_step [OF 3, of "RootLoaderChosen (Some (Inr ''loader.melf''))"])
      (simp_all add: rest_unfold skroot_wizard_def)
  show ?thesis
    by (rule rest_step [OF 4, of RootNext]) (simp_all add: rest_unfold skroot_wizard_def)
qed

text \<open>Starting the run at the confirmation.\<close>

lemma confirm_starts:
  assumes "rw_step w = 6" and "\<not> is_ksu_lkm w" and "\<not> is_gki w" and "rw_folder_path w = Some ''loader.melf''"
  obtains s' where "dispatch sample_env (at_rest w) (ToRoot RootNext) =
    Some (s', RunRoot (root_run_of [] (w\<lparr>rw_step := 7\<rparr>)))"
proof -
  let ?a = "sy_app (at_rest w)"
  have n: "root_next w = w\<lparr>rw_step := 7\<rparr>" using assms(1) by (simp add: root_next_def)
  have "\<exists>a'. update_root sample_env ?a RootNext = Some (a', RunRoot (root_run_of [] (w\<lparr>rw_step := 7\<rparr>)))"
    using assms at_rest_idle [of w]
    by (simp add: update_root_def root_next_pressed_def at_rest_def n needs_ksu_lkm_kernel_version_def
        root_exec_start_def generic_model GENERIC_def validate_loader_path_def sample_env_def is_gki_def
        begin_phased_op_def from_labels_def op_start_def is_running_def operation_default_def Let_def)
  then obtain a' where a': "update_root sample_env ?a RootNext = Some (a', RunRoot (root_run_of [] (w\<lparr>rw_step := 7\<rparr>)))"
    by blast
  have "\<exists>s'. dispatch sample_env (at_rest w) (ToRoot RootNext) = Some (s', RunRoot (root_run_of [] (w\<lparr>rw_step := 7\<rparr>)))"
    using a' at_rest_idle [of w] by (simp add: dispatch_def handle_message_def) (simp add: at_rest_def)
  then show thesis using that by blast
qed

text \<open>A message that is queued behind a wait that begins at rest.\<close>

lemma rest_waits:
  assumes "sys_reach f (at_rest w)"
  shows "sys_reach f ((at_rest w)\<lparr>sy_waiting := True\<rparr>)"
  by (rule wait [OF assms at_rest_idle])

lemma rest_queues:
  assumes "sys_reach f ((at_rest w)\<lparr>sy_waiting := True, sy_deferred := ms\<rparr>)" and "offered w m"
    and "blocks_message (ToRoot m)"
  shows "sys_reach f ((at_rest w)\<lparr>sy_waiting := True, sy_deferred := ms @ [ToRoot m]\<rparr>)"
proof -
  let ?s = "(at_rest w)\<lparr>sy_waiting := True, sy_deferred := ms\<rparr>"
  have i: "\<not> is_running (ra_operation (sy_app ?s))" using at_rest_idle [of w] by simp
  have "shown ?s (ToRoot m)" using assms(2) by (simp add: shown_def at_rest_def)
  moreover have "dispatch env ?s (ToRoot m) = Some (?s\<lparr>sy_deferred := ms @ [ToRoot m]\<rparr>, NoTask)" for env
    using i assms(3) by (simp add: dispatch_def defers_message_def) (simp add: at_rest_def)
  ultimately show ?thesis using sent [OF assms(1)] by fastforce
qed

section \<open>The properties\<close>

text \<open>
  (C17) However the user walks through the root wizard, a run is started only with everything its route
  needs: a loader file that exists, a model that may be rooted, and for KernelSU either the kernel
  image (on a model that allows it) or provider, version and kernel version, for Magisk the APK of
  the fork or a version, for APatch provider, version and a superkey in the valid format. This holds
  for a start by the user, by the probe that returns late, and by a message that was queued during a device
  poll and replayed, provided that no replayed message had become stale in the meantime.
\<close>

theorem root_runs_are_complete:
  assumes "starts_run env True r"
  shows "run_complete env r"
  using assms
proof cases
  case (by_message s m s')
  then show ?thesis using dispatch_reach sys_reach_wizard by blast
next
  case (by_replay f s s' ts)
  then show ?thesis using resume_reach [of s env s' ts] sys_reach_wizard [of f s] by blast
qed

text \<open>The confirmation is pressed during a device poll and replayed after it.\<close>

theorem root_runs_are_complete_witness:
  "\<exists>r. rr_family r = Some Skroot \<and> rr_fw_folder r = Some ''loader.melf'' \<and> run_complete sample_env r"
proof -
  let ?w = "skroot_wizard 6 (Some Lite) (Some ''loader.melf'')"
  let ?s = "(at_rest ?w)\<lparr>sy_waiting := True, sy_deferred := [ToRoot RootNext]\<rparr>"
  have o: "offered ?w RootNext" by (simp add: rest_unfold skroot_wizard_def)
  have r: "(at_rest ?w)\<lparr>sy_waiting := True, sy_deferred := []\<rparr> = (at_rest ?w)\<lparr>sy_waiting := True\<rparr>"
    by (simp add: at_rest_def)
  have s: "sys_reach True ?s"
    using rest_queues [where f = True and w = ?w and ms = "[]" and m = RootNext] rest_waits [OF skroot_confirm] o by (simp add: r blocks_message_def)
  have q: "?s\<lparr>sy_waiting := False, sy_deferred := []\<rparr> = at_rest ?w" by (simp add: at_rest_def)
  obtain s' where d: "dispatch sample_env (at_rest ?w) (ToRoot RootNext) =
      Some (s', RunRoot (root_run_of [] (?w\<lparr>rw_step := 7\<rparr>)))"
    by (rule confirm_starts [of ?w]) (simp_all add: skroot_wizard_def is_ksu_lkm_def is_gki_def root_default_def)
  have p: "resume_after_device_poll sample_env (?s\<lparr>sy_waiting := False\<rparr>) =
      Some (s', [RunRoot (root_run_of [] (?w\<lparr>rw_step := 7\<rparr>))])"
    using d by (simp add: resume_after_device_poll_def q [simplified])
  have "replay_shown sample_env (sy_deferred ?s) (?s\<lparr>sy_waiting := False\<rparr>)"
    using o d by (simp add: q [simplified] shown_def) (simp add: at_rest_def)
  with by_replay [OF s p, of "root_run_of [] (?w\<lparr>rw_step := 7\<rparr>)"]
  have "starts_run sample_env True (root_run_of [] (?w\<lparr>rw_step := 7\<rparr>))" by simp
  from root_runs_are_complete [OF this] show ?thesis
    by (intro exI [of _ "root_run_of [] (?w\<lparr>rw_step := 7\<rparr>)"]) (simp add: root_run_of_def skroot_wizard_def)
qed


text \<open>A route whose provider step is skipped by two queued presses of Next.\<close>

definition magisk_wizard :: "nat \<Rightarrow> ver_choice option \<Rightarrow> string option \<Rightarrow> root_wizard" where
  "magisk_wizard s ver folder = root_default\<lparr>rw_family := Some Magisk, rw_step := s, rw_version := ver,
     rw_folder_path := folder\<rparr>"

lemma rest_replayed:
  assumes "update_root sample_env (sy_app (at_rest w)) m = Some (sy_app (at_rest w'), NoTask)" and "m \<noteq> RootSelectFile"
  shows "dispatch sample_env ((at_rest w)\<lparr>sy_deferred := ms\<rparr>) (ToRoot m) =
    Some ((at_rest w')\<lparr>sy_deferred := ms\<rparr>, NoTask)"
  using assms at_rest_idle [of w] by (simp add: dispatch_def handle_message_def) (simp add: at_rest_def)

lemma magisk_pressed:
  "update_root sample_env (sy_app (at_rest (magisk_wizard 0 None None))) RootNext =
     Some (sy_app (at_rest (magisk_wizard 2 None None)), NoTask)"
  "update_root sample_env (sy_app (at_rest (magisk_wizard 2 None None))) RootNext =
     Some (sy_app (at_rest (magisk_wizard 3 None None)), NoTask)"
  by (simp_all add: rest_unfold magisk_wizard_def needs_ksu_lkm_kernel_version_def is_ksu_lkm_def)

lemmas magisk_next = rest_replayed [OF magisk_pressed(1)] rest_replayed [OF magisk_pressed(2)]

lemma magisk_replay:
  "resume_after_device_poll sample_env
     ((at_rest (magisk_wizard 0 None None))\<lparr>sy_deferred := [ToRoot RootNext, ToRoot RootNext]\<rparr>) =
   Some (at_rest (magisk_wizard 3 None None), [NoTask, NoTask])"
proof -
  have w: "\<not> sy_waiting (at_rest w)" and d: "(at_rest w)\<lparr>sy_deferred := []\<rparr> = at_rest w" for w
    by (simp_all add: at_rest_def)
  show ?thesis by (simp add: resume_after_device_poll_def magisk_next magisk_next(2) [of "[]", unfolded d] w d)
qed

lemma magisk_unasked: "sys_reach False (at_rest (magisk_wizard 3 None None))"
proof -
  let ?w = "magisk_wizard 0 None None"
  let ?q = "(at_rest ?w)\<lparr>sy_waiting := True, sy_deferred := [ToRoot RootNext, ToRoot RootNext]\<rparr>"
  have b: "blocks_message (ToRoot RootNext)" by (simp add: blocks_message_def)
  have o: "offered ?w RootNext" by (simp add: rest_unfold magisk_wizard_def)
  have 0: "sys_reach True (at_rest ?w)"
    by (rule rest_step [OF rest_start, of "RootFamily Magisk"])
      (simp_all add: rest_unfold magisk_wizard_def root_family_chosen_def generic_model GENERIC_def)
  have e: "(at_rest ?w)\<lparr>sy_waiting := True, sy_deferred := []\<rparr> = (at_rest ?w)\<lparr>sy_waiting := True\<rparr>"
    by (simp add: at_rest_def)
  have 1: "sys_reach True ((at_rest ?w)\<lparr>sy_waiting := True, sy_deferred := [ToRoot RootNext]\<rparr>)"
    using rest_queues [where f = True and w = ?w and ms = "[]" and m = RootNext] rest_waits [OF 0] o b
    by (simp add: e)
  have 2: "sys_reach True ?q" using rest_queues [OF 1 o b] by simp
  have q: "?q\<lparr>sy_waiting := False\<rparr> = (at_rest ?w)\<lparr>sy_deferred := [ToRoot RootNext, ToRoot RootNext]\<rparr>"
    by (simp add: at_rest_def)
  have stale: "\<not> replay_shown sample_env (sy_deferred ?q) (?q\<lparr>sy_waiting := False\<rparr>)"
  proof -
    have "\<not> shown ((at_rest (magisk_wizard 2 None None))\<lparr>sy_deferred := ms\<rparr>) (ToRoot RootNext)" for ms
      by (simp add: shown_def rest_unfold magisk_wizard_def)
    then show ?thesis unfolding q by (simp add: magisk_next)
  qed
  have "sys_reach (True \<and> replay_shown sample_env (sy_deferred ?q) (?q\<lparr>sy_waiting := False\<rparr>))
      (at_rest (magisk_wizard 3 None None))"
    by (rule resumed [OF 2]) (unfold q, rule magisk_replay)
  then show ?thesis by (simp only: stale simp_thms)
qed

lemma magisk_confirm: "sys_reach False (at_rest (magisk_wizard 6 (Some Stable) (Some ''loader.melf'')))"
proof -
  have 0: "sys_reach False (at_rest (magisk_wizard 3 (Some Stable) None))"
    by (rule rest_step [OF magisk_unasked, of "RootVersion Stable"]) (simp_all add: rest_unfold magisk_wizard_def)
  have 1: "sys_reach False (at_rest (magisk_wizard 5 (Some Stable) None))"
    by (rule rest_step [OF 0, of RootNext]) (simp_all add: rest_unfold magisk_wizard_def)
  have 2: "sys_reach False (at_rest (magisk_wizard 5 (Some Stable) (Some ''loader.melf'')))"
    by (rule rest_step [OF 1, of "RootLoaderChosen (Some (Inr ''loader.melf''))"])
      (simp_all add: rest_unfold magisk_wizard_def)
  show ?thesis
    by (rule rest_step [OF 2, of RootNext]) (simp_all add: rest_unfold magisk_wizard_def)
qed

text \<open>
  (C40) A queued press of Next is replayed at a step that does not offer it: when Next is pressed twice
  during a device poll on the family step of the Magisk route, the replay passes the step of the
  provider without a choice, every later step offers Next as usual, and the confirmation starts a run
  without a provider. The run is not complete, and the first thing the worker does is to reject it with
  \<open>err_root_provider_missing\<close>.
\<close>

theorem deferred_next_skips_provider:
  "\<exists>r. starts_run sample_env False r \<and> rr_family r = Some Magisk \<and> rr_provider r = None \<and>
     \<not> run_complete sample_env r \<and>
     resolve_provider_version (rr_mode r = Some Gki) (rr_family r = Some Skroot) (rr_provider r) (rr_version r) =
       Inl ''err_root_provider_missing''"
proof -
  let ?w = "magisk_wizard 6 (Some Stable) (Some ''loader.melf'')"
  obtain s' where d: "dispatch sample_env (at_rest ?w) (ToRoot RootNext) =
      Some (s', RunRoot (root_run_of [] (?w\<lparr>rw_step := 7\<rparr>)))"
    by (rule confirm_starts [of ?w]) (simp_all add: magisk_wizard_def is_ksu_lkm_def is_gki_def root_default_def)
  have "shown (at_rest ?w) (ToRoot RootNext)" by (simp add: shown_def rest_unfold magisk_wizard_def)
  from by_message [OF magisk_confirm this d] show ?thesis
    by (intro exI [of _ "root_run_of [] (?w\<lparr>rw_step := 7\<rparr>)"])
      (simp add: root_run_of_def run_complete_def magisk_wizard_def root_default_def resolve_provider_version_def
        ok_or_def)
qed

end
