(* ===== verification/Rollback.thy ===== *)
theory Rollback
  imports Rust_Str Model_Profiles
begin

text \<open>
  Anti-rollback decisions (\<open>rollback.rs\<close>) and the lookup of the AVB signing key (\<open>key_map.rs\<close>). The
  indices that fastboot reports come in a hash map, whose iteration order is not fixed: the model
  takes the entries in the order the iteration yields them, and the properties hold for all orders.
\<close>

section \<open>Rollback indices\<close>

datatype rollback_mode = On | Auto | Off | Manual

record fastboot_rollback_floors =
  vbmeta_system_location :: u32
  vbmeta_system_index :: u64
  boot_location :: u32
  boot_index :: u64

record rollback_indices =
  ri_boot :: u64
  ri_vbmeta_system :: u64

record manual_rollback_plan =
  targets :: rollback_indices
  boot_changed :: bool
  vbmeta_system_changed :: bool

definition changes_indices :: "manual_rollback_plan \<Rightarrow> bool" where
  "changes_indices p \<longleftrightarrow> boot_changed p \<or> vbmeta_system_changed p"

record manual_rollback_below_floor =
  bf_partition :: string
  bf_requested :: u64
  bf_floor :: u64

definition plan_manual_rollback ::
    "rollback_indices \<Rightarrow> rollback_indices \<Rightarrow> rollback_indices \<Rightarrow>
     manual_rollback_below_floor + manual_rollback_plan" where
  "plan_manual_rollback firmware device_floors requested =
     (if ri_boot requested < ri_boot device_floors
      then Inl \<lparr>bf_partition = ''boot'', bf_requested = ri_boot requested,
                bf_floor = ri_boot device_floors\<rparr>
      else if ri_vbmeta_system requested < ri_vbmeta_system device_floors
      then Inl \<lparr>bf_partition = ''vbmeta_system'', bf_requested = ri_vbmeta_system requested,
                bf_floor = ri_vbmeta_system device_floors\<rparr>
      else Inr \<lparr>targets = requested, boot_changed = (ri_boot firmware \<noteq> ri_boot requested),
                vbmeta_system_changed = (ri_vbmeta_system firmware \<noteq> ri_vbmeta_system requested)\<rparr>)"

type_synonym stored_indices = "(u32 \<times> u64) list"

definition floor_candidates :: "stored_indices \<Rightarrow> (u32 \<times> u64) list" where
  "floor_candidates stored = filter (\<lambda>(location, index). location \<noteq> 1 \<and> 1 < index) stored"

definition classify_fastboot_rollback_floors ::
    "stored_indices \<Rightarrow> fastboot_rollback_floors option" where
  "classify_fastboot_rollback_floors stored =
     (case floor_candidates stored of
        [] \<Rightarrow> None
      | [_] \<Rightarrow> None
      | [x1, x2] \<Rightarrow>
          let (vbmeta_system, boot) = (if fst x1 < fst x2 then (x1, x2) else (x2, x1))
          in Some \<lparr>vbmeta_system_location = fst vbmeta_system, vbmeta_system_index = snd vbmeta_system,
                   boot_location = fst boot, boot_index = snd boot\<rparr>
      | _ \<Rightarrow> None)"

text \<open>\<open>Iterator::max\<close>\<close>

fun max_of :: "u64 list \<Rightarrow> u64 option" where
  "max_of [] = None"
| "max_of (x # xs) = (case max_of xs of None \<Rightarrow> Some x | Some y \<Rightarrow> Some (max x y))"

definition compute_device_rollback_index :: "stored_indices \<Rightarrow> u64 option" where
  "compute_device_rollback_index stored = max_of (filter (\<lambda>v. 1 < v) (map snd stored))"

definition needs_patch :: "rollback_mode \<Rightarrow> u64 \<Rightarrow> u64 option \<Rightarrow> bool" where
  "needs_patch mode image_index device_index =
     (case mode of
        Off \<Rightarrow> False
      | Manual \<Rightarrow> False
      | On \<Rightarrow> device_index \<noteq> None
      | Auto \<Rightarrow> (case device_index of Some d \<Rightarrow> image_index < d | None \<Rightarrow> False))"

text \<open>
  The analysis of one image. Reading the AVB header is an argument: it yields the rollback index of
  the image together with whatever else it reports.
\<close>

record 'i rollback_analysis =
  ra_image_index :: u64
  ra_needs_patch :: bool
  ra_image_info :: 'i

definition analyze_rollback_with_mode ::
    "('p \<Rightarrow> 'e + 'i) \<Rightarrow> ('i \<Rightarrow> u64) \<Rightarrow> 'p \<Rightarrow> u64 option \<Rightarrow> rollback_mode \<Rightarrow>
     'e + 'i rollback_analysis" where
  "analyze_rollback_with_mode extract_image_avb_info index_of image_path device_index mode =
     bind_r (extract_image_avb_info image_path) (\<lambda>image_info.
       Inr \<lparr>ra_image_index = index_of image_info,
            ra_needs_patch = needs_patch mode (index_of image_info) device_index,
            ra_image_info = image_info\<rparr>)"

section \<open>Signing keys\<close>

definition KEY_MAP :: "(string \<times> string) list" where
  "KEY_MAP =
     [(''2597c218aae470a130f61162feaae70afd97f011'', ''testkey_rsa4096''),
      (''cdbb77177f731920bbe0a0f94f84d9038ae0617d'', ''testkey_rsa2048'')]"

definition LENOVO_KEY_MAP :: "string list" where
  "LENOVO_KEY_MAP = [''8fcb864f11f53ed11284615fb67685522085d3a2'']"

datatype key_class = Testkey | Lenovo | UnknownKey

definition has_key_for :: "string \<Rightarrow> bool" where
  "has_key_for pubkey_sha1 \<longleftrightarrow> list_ex (\<lambda>(k, _). eq_ignore_ascii_case k pubkey_sha1) KEY_MAP"

text \<open>\<open>pubkey_sha1.map(str::trim).filter(|s| !s.is_empty())\<close>\<close>

definition present_key :: "string option \<Rightarrow> string option" where
  "present_key pubkey_sha1 =
     (case pubkey_sha1 of
        None \<Rightarrow> None
      | Some s \<Rightarrow> if trim_ws s = [] then None else Some (trim_ws s))"

definition classify_pubkey :: "string option \<Rightarrow> key_class" where
  "classify_pubkey pubkey_sha1 =
     (case present_key pubkey_sha1 of
        None \<Rightarrow> UnknownKey
      | Some sha1 \<Rightarrow>
          if has_key_for sha1 then Testkey
          else if list_ex (\<lambda>k. eq_ignore_ascii_case k sha1) LENOVO_KEY_MAP then Lenovo
          else UnknownKey)"

definition key_spec_for_pubkey :: "string option \<Rightarrow> string option" where
  "key_spec_for_pubkey pubkey_sha1 =
     (case pubkey_sha1 of
        None \<Rightarrow> None
      | Some s \<Rightarrow>
          let sha1 = trim_ws s
          in if sha1 = [] then None
             else map_option snd (find (\<lambda>(k, _). eq_ignore_ascii_case k sha1) KEY_MAP))"

definition key_spec_for_signed_pubkey :: "string option \<Rightarrow> string + string option" where
  "key_spec_for_signed_pubkey pubkey_sha1 =
     (case present_key pubkey_sha1 of
        None \<Rightarrow> Inr None
      | Some sha1 \<Rightarrow> ok_or (map_option Some (key_spec_for_pubkey (Some sha1))) sha1)"

section \<open>Order of the reported indices\<close>

lemma map_of_candidates:
  assumes "distinct (map fst xs)"
  shows "(l, i) \<in> set (floor_candidates xs) \<longleftrightarrow> map_of xs l = Some i \<and> l \<noteq> 1 \<and> 1 < i"
  using map_of_eq_Some_iff [OF assms, of l i] by (auto simp: floor_candidates_def)

lemma distinct_candidates: "distinct (map fst xs) \<Longrightarrow> distinct (map fst (floor_candidates xs))"
  unfolding floor_candidates_def by (rule distinct_map_filter)

lemma classify_cases:
  "classify_fastboot_rollback_floors xs = Some f \<longleftrightarrow>
    (\<exists>a b. floor_candidates xs = [a, b] \<and>
       f = (if fst a < fst b
            then \<lparr>vbmeta_system_location = fst a, vbmeta_system_index = snd a,
                  boot_location = fst b, boot_index = snd b\<rparr>
            else \<lparr>vbmeta_system_location = fst b, vbmeta_system_index = snd b,
                  boot_location = fst a, boot_index = snd a\<rparr>))"
  by (auto simp: classify_fastboot_rollback_floors_def Let_def split: list.splits if_splits)

lemma distinct_two:
  assumes "distinct (map fst ys)" and "set ys = {a, b}" and "fst a \<noteq> fst b"
  shows "ys = [a, b] \<or> ys = [b, a]"
proof -
  have d: "distinct ys" using assms(1) by (rule distinct_map [THEN iffD1, THEN conjunct1])
  have "card (set ys) = 2" using assms(2, 3) by (auto simp: card_insert_if)
  then have "length ys = 2" using distinct_card [OF d] by simp
  then obtain x y where "ys = [x, y]" by (auto simp: length_Suc_conv numeral_2_eq_2)
  then show ?thesis using assms by (auto simp: doubleton_eq_iff)
qed

text \<open>
  (C25) The floors that fastboot reports are classified from the map alone, whatever the order of its
  iteration: there is a result exactly when, leaving out the recovery location 1 and the stock
  values 0 and 1, two locations remain, and it names the lower one \<open>vbmeta_system\<close> and the higher one
  \<open>boot\<close>, each with its own index.
\<close>

theorem classify_fastboot_rollback_floors_spec:
  assumes "distinct (map fst stored)"
  shows "classify_fastboot_rollback_floors stored = Some f \<longleftrightarrow>
    vbmeta_system_location f < boot_location f \<and>
    (\<forall>l i. map_of stored l = Some i \<and> l \<noteq> 1 \<and> 1 < i \<longleftrightarrow>
       (l, i) = (vbmeta_system_location f, vbmeta_system_index f) \<or>
       (l, i) = (boot_location f, boot_index f))"
proof -
  let ?v = "(vbmeta_system_location f, vbmeta_system_index f)"
  let ?b = "(boot_location f, boot_index f)"
  let ?c = "floor_candidates stored"
  have "classify_fastboot_rollback_floors stored = Some f \<longleftrightarrow>
      vbmeta_system_location f < boot_location f \<and> (?c = [?v, ?b] \<or> ?c = [?b, ?v])"
  proof
    assume "classify_fastboot_rollback_floors stored = Some f"
    then obtain a b where ab: "?c = [a, b]"
      and f: "f = (if fst a < fst b
            then \<lparr>vbmeta_system_location = fst a, vbmeta_system_index = snd a,
                  boot_location = fst b, boot_index = snd b\<rparr>
            else \<lparr>vbmeta_system_location = fst b, vbmeta_system_index = snd b,
                  boot_location = fst a, boot_index = snd a\<rparr>)"
      by (auto simp: classify_cases)
    have "fst a \<noteq> fst b" using distinct_candidates [OF assms] ab by simp
    then show "vbmeta_system_location f < boot_location f \<and> (?c = [?v, ?b] \<or> ?c = [?b, ?v])"
      using ab f by (auto simp: not_less)
  next
    assume "vbmeta_system_location f < boot_location f \<and> (?c = [?v, ?b] \<or> ?c = [?b, ?v])"
    then show "classify_fastboot_rollback_floors stored = Some f"
      by (auto simp: classify_fastboot_rollback_floors_def Let_def)
  qed
  also have "\<dots> \<longleftrightarrow> vbmeta_system_location f < boot_location f \<and> set ?c = {?v, ?b}"
    using distinct_two [OF distinct_candidates [OF assms], of ?v ?b] by auto
  also have "set ?c = {?v, ?b} \<longleftrightarrow> (\<forall>l i. (l, i) \<in> set ?c \<longleftrightarrow> (l, i) = ?v \<or> (l, i) = ?b)"
    by (simp only: set_eq_iff split_paired_All insert_iff empty_iff simp_thms)
  finally show ?thesis by (simp only: map_of_candidates [OF assms])
qed

theorem classify_fastboot_rollback_floors_spec_witness:
  "map_of [(1 :: u32, 9), (18, 200), (17, 100 :: u64)] 17 = Some 100 \<and>
   classify_fastboot_rollback_floors [(1, 9), (18, 200), (17, 100)] =
     Some \<lparr>vbmeta_system_location = 17, vbmeta_system_index = 100, boot_location = 18, boot_index = 200\<rparr>"
  by (subst classify_fastboot_rollback_floors_spec) auto

end
