(* ===== verification/Wizards.thy ===== *)
theory Wizards
  imports Operation Rollback Region
begin

text \<open>
  The linear wizards (\<open>model/wizard.rs\<close>): the default navigation of the trait \<open>Wizard\<close>, stated for any
  type with a step, a number of steps and a gate, and the wizards that share it, each with its state,
  its list of steps and its gate. A locale holds the contract of the trait; every wizard that
  implements the trait interprets it.
\<close>

section \<open>The trait\<close>

definition wizard_next :: "('w \<Rightarrow> nat) \<Rightarrow> (nat \<Rightarrow> 'w \<Rightarrow> 'w) \<Rightarrow> ('w \<Rightarrow> nat) \<Rightarrow> 'w \<Rightarrow> 'w" where
  "wizard_next step set_step step_count w =
     (if step w < step_count w - 1 then set_step (step w + 1) w else w)"

definition wizard_back :: "('w \<Rightarrow> nat) \<Rightarrow> (nat \<Rightarrow> 'w \<Rightarrow> 'w) \<Rightarrow> 'w \<Rightarrow> 'w" where
  "wizard_back step set_step w = (if 0 < step w then set_step (step w - 1) w else w)"

definition wizard_is_in_exec :: "('w \<Rightarrow> nat) \<Rightarrow> ('w \<Rightarrow> nat) \<Rightarrow> 'w \<Rightarrow> bool" where
  "wizard_is_in_exec step step_count w \<longleftrightarrow> step w = step_count w - 1"

definition wizard_is_on_confirm_step :: "('w \<Rightarrow> nat) \<Rightarrow> ('w \<Rightarrow> nat) \<Rightarrow> 'w \<Rightarrow> bool" where
  "wizard_is_on_confirm_step step step_count w \<longleftrightarrow>
     (let n = step_count w in 2 \<le> n \<and> step w = n - 2)"

locale linear_wizard =
  fixes step :: "'w \<Rightarrow> nat"
    and set_step :: "nat \<Rightarrow> 'w \<Rightarrow> 'w"
    and step_count :: "'w \<Rightarrow> nat"
  assumes get_set: "step (set_step n w) = n"
    and set_set: "set_step m (set_step n w) = set_step m w"
    and set_get: "set_step (step w) w = w"
    and count_set: "step_count (set_step n w) = step_count w"
    and count_two: "2 \<le> step_count w"
begin

lemma next_unfold:
  "wizard_next step set_step step_count w = (if Suc (step w) < step_count w then set_step (Suc (step w)) w else w)"
  by (simp add: wizard_next_def less_diff_conv)

lemma next_in_range:
  assumes "step w < step_count w"
  shows "step (wizard_next step set_step step_count w) < step_count w"
  using assms by (simp add: next_unfold get_set count_set)

lemma back_next:
  assumes "\<not> wizard_is_in_exec step step_count w" and "step w < step_count w"
  shows "wizard_back step set_step (wizard_next step set_step step_count w) = w"
  using assms by (auto simp: next_unfold wizard_back_def wizard_is_in_exec_def get_set set_set set_get)

lemma next_back:
  assumes "0 < step w" and "step w < step_count w"
  shows "wizard_next step set_step step_count (wizard_back step set_step w) = w"
  using assms by (simp add: next_unfold wizard_back_def get_set set_set set_get count_set)

lemma next_iter:
  assumes "step w + n < step_count w"
  shows "(wizard_next step set_step step_count ^^ n) w = set_step (step w + n) w"
  using assms
  by (induction n) (simp_all add: set_get next_unfold get_set count_set set_set)

lemma next_reaches_exec:
  assumes "step w < step_count w"
  shows "wizard_is_in_exec step step_count
    ((wizard_next step set_step step_count ^^ (step_count w - 1 - step w)) w)"
proof -
  have "step w + (step_count w - 1 - step w) < step_count w" using assms by linarith
  from next_iter [OF this] assms show ?thesis by (simp add: wizard_is_in_exec_def get_set count_set)
qed

lemma confirm_then_exec:
  assumes "wizard_is_on_confirm_step step step_count w"
  shows "wizard_is_in_exec step step_count (wizard_next step set_step step_count w)"
  using assms by (auto simp: wizard_is_on_confirm_step_def wizard_is_in_exec_def next_unfold
      get_set count_set Let_def)

end

section \<open>Unroot\<close>

datatype unroot_type = MagiskLkm | APatchGki

record unroot_wizard =
  uw_step :: nat
  uw_unroot_type :: "unroot_type option"
  uw_folder_path :: "string option"
  uw_loader_path :: "string option"
  uw_loader_error :: "string option"

definition UNROOT_STEPS :: "string list" where
  "UNROOT_STEPS = [''unroot_step_method'', ''edl_loader_label'', ''unroot_step_folder'',
     ''unroot_step_confirm'', ''unroot_step_restore'']"

definition unroot_step_count :: "unroot_wizard \<Rightarrow> nat" where
  "unroot_step_count w = length UNROOT_STEPS"

definition unroot_can_next :: "unroot_wizard \<Rightarrow> bool" where
  "unroot_can_next w =
     (let s = uw_step w in
      if s = 0 then uw_unroot_type w \<noteq> None
      else if s = 1 then uw_loader_path w \<noteq> None \<and> uw_loader_error w = None
      else if s = 2 then uw_folder_path w \<noteq> None
      else s = 3)"

interpretation unroot: linear_wizard uw_step "\<lambda>n w. w\<lparr>uw_step := n\<rparr>" unroot_step_count
  by unfold_locales (simp_all add: unroot_step_count_def UNROOT_STEPS_def)

section \<open>System update\<close>

datatype sys_update_action = Disable | Enable | Rescue

record sys_update_wizard =
  sw_step :: nat
  sw_action :: "sys_update_action option"
  sw_rescue_folder :: "string option"
  sw_rescue_region :: "region_target option"
  sw_rescue_region_popup_open :: bool
  sw_rescue_region_confirmed :: bool

definition SYSUPDATE_STEPS_COMPACT :: "string list" where
  "SYSUPDATE_STEPS_COMPACT = [''sysupdate_step_action'', ''sysupdate_step_confirm'',
     ''sysupdate_step_execute'']"

definition SYSUPDATE_STEPS_RESCUE :: "string list" where
  "SYSUPDATE_STEPS_RESCUE = [''sysupdate_step_action'', ''edl_loader_label'',
     ''sysupdate_step_confirm'', ''sysupdate_step_execute'']"

definition is_rescue :: "sys_update_wizard \<Rightarrow> bool" where
  "is_rescue w \<longleftrightarrow> sw_action w = Some Rescue"

definition sys_update_steps :: "sys_update_wizard \<Rightarrow> string list" where
  "sys_update_steps w = (if is_rescue w then SYSUPDATE_STEPS_RESCUE else SYSUPDATE_STEPS_COMPACT)"

definition sys_update_step_count :: "sys_update_wizard \<Rightarrow> nat" where
  "sys_update_step_count w = length (sys_update_steps w)"

text \<open>\<open>Path::file_name\<close> for a path without \<open>.\<close> and \<open>..\<close> at its end, and \<open>Path::extension\<close>.\<close>

definition file_name :: "string \<Rightarrow> string" where
  "file_name p = rev (takeWhile (\<lambda>c. c \<noteq> CHR ''/'') (rev p))"

definition path_extension :: "string \<Rightarrow> string option" where
  "path_extension p =
     (let n = file_name p; e = rev (takeWhile (\<lambda>c. c \<noteq> CHR ''.'') (rev n))
      in if length n \<le> length e + 1 then None else Some e)"

definition is_loader_file :: "string \<Rightarrow> bool" where
  "is_loader_file p =
     (case path_extension p of
        None \<Rightarrow> False
      | Some e \<Rightarrow> map ascii_lower e \<in> {''melf'', ''mbn'', ''elf'', ''xml''})"

definition is_encrypted_manifest_filename :: "string \<Rightarrow> bool" where
  "is_encrypted_manifest_filename p =
     eq_ignore_ascii_case (file_name p) ''qsahara_device_programmer.x''"

definition sys_update_can_next :: "sys_update_wizard \<Rightarrow> bool" where
  "sys_update_can_next w =
     (let s = sw_step w in
      if is_rescue w then
        (if s = 0 then sw_action w \<noteq> None
         else if s = 1 then
           (case sw_rescue_folder w of
              None \<Rightarrow> False | Some p \<Rightarrow> is_loader_file p \<or> is_encrypted_manifest_filename p)
         else if s = 2 then sw_rescue_region w \<noteq> None
         else False)
      else (if s = 0 then sw_action w \<noteq> None else s = 1))"

interpretation sys_update: linear_wizard sw_step "\<lambda>n w. w\<lparr>sw_step := n\<rparr>" sys_update_step_count
  by unfold_locales (simp_all add: sys_update_step_count_def sys_update_steps_def is_rescue_def
      SYSUPDATE_STEPS_RESCUE_def SYSUPDATE_STEPS_COMPACT_def)

section \<open>Physical storage\<close>

definition PHYS_LUN_COUNT :: nat where "PHYS_LUN_COUNT = 6"

text \<open>The arrays of six elements are lists of that length.\<close>

record dump_phys_wizard =
  dp_step :: nat
  dp_loader_path :: "string option"
  dp_selected :: "bool list"
  dp_output_dir :: "string option"
  dp_loader_error :: "string option"

definition DUMP_PHYS_STEPS :: "string list" where
  "DUMP_PHYS_STEPS = [''edl_loader_label'', ''phys_step_select'', ''dump_parts_step_dump'']"

definition dump_phys_back :: "dump_phys_wizard \<Rightarrow> dump_phys_wizard" where
  "dump_phys_back w = (if 0 < dp_step w then w\<lparr>dp_step := dp_step w - 1\<rparr> else w)"

definition dump_phys_can_next :: "dump_phys_wizard \<Rightarrow> bool" where
  "dump_phys_can_next w =
     (let s = dp_step w in
      if s = 0 then dp_loader_path w \<noteq> None \<and> dp_loader_error w = None
      else if s = 1 then list_ex (\<lambda>b. b) (dp_selected w)
      else False)"

definition selected_luns :: "dump_phys_wizard \<Rightarrow> nat list" where
  "selected_luns w = map fst (filter snd (enumerate 0 (dp_selected w)))"

record flash_phys_wizard =
  fp_step :: nat
  fp_loader_path :: "string option"
  fp_selected :: "bool list"
  fp_file_paths :: "string option list"
  fp_loader_error :: "string option"

definition FLASH_PHYS_STEPS :: "string list" where
  "FLASH_PHYS_STEPS = [''edl_loader_label'', ''phys_step_select'', ''flash_step_confirm'',
     ''flash_step_flash'']"

definition flash_phys_step_count :: "flash_phys_wizard \<Rightarrow> nat" where
  "flash_phys_step_count w = length FLASH_PHYS_STEPS"

definition active_pairs :: "flash_phys_wizard \<Rightarrow> (nat \<times> string) list" where
  "active_pairs w =
     List.map_filter (\<lambda>i. if fp_selected w ! i then map_option (\<lambda>p. (i, p)) (fp_file_paths w ! i) else None)
       [0..<PHYS_LUN_COUNT]"

definition flash_phys_can_next :: "flash_phys_wizard \<Rightarrow> bool" where
  "flash_phys_can_next w =
     (let s = fp_step w in
      if s = 0 then fp_loader_path w \<noteq> None \<and> fp_loader_error w = None
      else if s = 1 then
        list_ex (\<lambda>b. b) (fp_selected w) \<and>
        list_all (\<lambda>(b, f). \<not> b \<or> f \<noteq> None) (zip (fp_selected w) (fp_file_paths w))
      else s = 2)"

interpretation flash_phys: linear_wizard fp_step "\<lambda>n w. w\<lparr>fp_step := n\<rparr>" flash_phys_step_count
  by unfold_locales (simp_all add: flash_phys_step_count_def FLASH_PHYS_STEPS_def)

section \<open>Simple flash\<close>

record simple_flash_wizard =
  sf_step :: nat
  sf_firmware_folder :: "string option"

definition SIMPLE_FLASH_STEPS :: "string list" where
  "SIMPLE_FLASH_STEPS = [''adv_step_source'', ''flash_step_confirm'', ''flash_step_flash'']"

definition simple_flash_step_count :: "simple_flash_wizard \<Rightarrow> nat" where
  "simple_flash_step_count w = length SIMPLE_FLASH_STEPS"

definition simple_flash_can_next :: "simple_flash_wizard \<Rightarrow> bool" where
  "simple_flash_can_next w =
     (let s = sf_step w in if s = 0 then sf_firmware_folder w \<noteq> None else s = 1)"

interpretation simple_flash: linear_wizard sf_step "\<lambda>n w. w\<lparr>sf_step := n\<rparr>" simple_flash_step_count
  by unfold_locales (simp_all add: simple_flash_step_count_def SIMPLE_FLASH_STEPS_def)

section \<open>Advanced actions\<close>

record adv_wizard =
  aw_action :: "adv_action option"
  aw_step :: nat
  aw_file_path :: "string option"
  aw_file_paths :: "string list"
  aw_country :: "string option"
  aw_region_target :: "region_target option"
  aw_output_dir :: "string option"
  aw_arb_index_buffer :: string
  aw_arb_index_committed :: "u64 option"
  aw_arb_inspect :: "(u64 \<times> u64) option"

definition adv_default :: adv_wizard where
  "adv_default = \<lparr>aw_action = None, aw_step = 0, aw_file_path = None, aw_file_paths = [],
     aw_country = None, aw_region_target = None, aw_output_dir = None, aw_arb_index_buffer = [],
     aw_arb_index_committed = None, aw_arb_inspect = None\<rparr>"

definition adv_open :: "adv_action \<Rightarrow> adv_wizard" where
  "adv_open a = adv_default\<lparr>aw_action := Some a\<rparr>"

definition needs_country :: "adv_wizard \<Rightarrow> bool" where
  "needs_country w \<longleftrightarrow> aw_action w = Some PatchDevinfo"

definition needs_region_target :: "adv_wizard \<Rightarrow> bool" where
  "needs_region_target w \<longleftrightarrow> aw_action w = Some RegionConvert"

definition is_image_info :: "adv_wizard \<Rightarrow> bool" where
  "is_image_info w \<longleftrightarrow> aw_action w = Some ImageInfo"

definition adv_steps :: "adv_wizard \<Rightarrow> string list" where
  "adv_steps w =
     (if is_image_info w then [''adv_step_source'', ''adv_step_info'']
      else if needs_country w
      then [''adv_step_country'', ''edl_loader_label'', ''flash_step_confirm'', ''flash_step_flash'']
      else if needs_region_target w
      then [''adv_step_source'', ''adv_step_region_target'', ''flash_step_confirm'', ''flash_step_flash'']
      else if aw_action w = Some PatchArb
      then [''adv_step_source'', ''adv_step_arb_inspect'', ''flash_step_confirm'', ''flash_step_flash'']
      else if aw_action w = Some DetectArb then [''adv_step_source'', ''flash_step_flash'']
      else [''adv_step_source'', ''flash_step_confirm'', ''flash_step_flash''])"

definition adv_step_count :: "adv_wizard \<Rightarrow> nat" where
  "adv_step_count w = length (adv_steps w)"

definition adv_exec_step :: "adv_wizard \<Rightarrow> nat" where
  "adv_exec_step w = length (adv_steps w) - 1"

definition adv_is_confirm_step :: "adv_wizard \<Rightarrow> bool" where
  "adv_is_confirm_step w \<longleftrightarrow> \<not> is_image_info w \<and> aw_step w + 1 = adv_exec_step w"

definition adv_can_next :: "adv_wizard \<Rightarrow> bool" where
  "adv_can_next w =
     (if needs_country w then
        (if aw_step w = 0 then aw_country w \<noteq> None
         else if aw_step w = 1 then aw_file_path w \<noteq> None
         else True)
      else if aw_step w = 0 then
        (if is_image_info w then aw_file_paths w \<noteq> [] else aw_file_path w \<noteq> None)
      else if needs_region_target w \<and> aw_step w = 1 then aw_region_target w \<noteq> None
      else if aw_action w = Some PatchArb \<and> aw_step w = 1 then aw_arb_inspect w \<noteq> None
      else True)"

definition is_folder_op :: "adv_wizard \<Rightarrow> bool" where
  "is_folder_op w \<longleftrightarrow> aw_action w \<in> {Some ConvertXml, Some PatchArb}"

definition LOADER_PICKER_EXTS :: "string list" where
  "LOADER_PICKER_EXTS = [''melf'', ''mbn'', ''elf'', ''xml'', ''x'']"

definition accepted_exts :: "adv_wizard \<Rightarrow> string \<times> string list" where
  "accepted_exts w =
     (if aw_action w \<in> {Some RegionConvert, Some ImageInfo, Some RebuildVbmeta}
      then (''Android partition image (*.img)'', [''img''])
      else if aw_action w \<in> {Some DetectArb, Some PatchDevinfo}
      then (''EDL loader (.melf / .mbn / .elf / .xml / .x)'', LOADER_PICKER_EXTS)
      else ([], []))"

interpretation adv: linear_wizard aw_step "\<lambda>n w. w\<lparr>aw_step := n\<rparr>" adv_step_count
  by unfold_locales (simp_all add: adv_step_count_def adv_steps_def is_image_info_def
      needs_country_def needs_region_target_def)

end
