(* ===== verification/Flash_Wizard.thy ===== *)
theory Flash_Wizard
  imports Wizards Kernel_Version
begin

text \<open>
  The firmware wizard (\<open>model/wizard.rs\<close>): the identity of the selected firmware (with the
  fingerprint of \<open>avb.rs\<close>), the steps that it makes visible, and the gates in front of the
  bootloader replacement and of the flash.
\<close>

section \<open>Firmware identity\<close>

datatype efisp_load = EfispYes | EfispNo | Undetermined

text \<open>The part of \<open>AvbImageInfo\<close> that the identity is read from.\<close>

record avb_image_info =
  avb_rollback_index :: u64
  avb_public_key_sha1 :: "string option"
  avb_props :: "(string \<times> byte list) list"

definition trim_end_nul :: "string \<Rightarrow> string" where
  "trim_end_nul s = rev (dropWhile (\<lambda>c. c = CHR 0x00) (rev s))"

definition build_fingerprint :: "avb_image_info \<Rightarrow> string option" where
  "build_fingerprint info =
     (let found = (case find (\<lambda>(k, _). k = ''com.android.build.system.fingerprint'') (avb_props info) of
                     Some p \<Rightarrow> Some p
                   | None \<Rightarrow> find (\<lambda>(k, _). suffix ''.fingerprint'' k) (avb_props info))
      in case Option.bind found (\<lambda>(_, v). from_utf8 v) of
           None \<Rightarrow> None
         | Some s \<Rightarrow> let t = trim_ws (trim_end_nul s) in if t = [] then None else Some t)"

definition fingerprint_model_token :: "string \<Rightarrow> string option" where
  "fingerprint_model_token fp =
     (case split_char CHR ''/'' fp of
        _ # product # _ \<Rightarrow>
          let token = trim_ws (hd (split_char CHR ''_'' product)) in if token = [] then None else Some token
      | _ \<Rightarrow> None)"

record firmware_identity =
  fi_efisp_load :: efisp_load
  fi_key_class :: key_class
  fi_fingerprint :: "string option"
  fi_model_token :: "string option"

definition fingerprint_any :: "(model_capabilities \<Rightarrow> bool) \<Rightarrow> string option \<Rightarrow> bool" where
  "fingerprint_any P fp = (case fp of None \<Rightarrow> False | Some s \<Rightarrow> list_ex P (fingerprint_capabilities s))"

definition identity_uses_gbl :: "firmware_identity \<Rightarrow> bool" where
  "identity_uses_gbl i \<longleftrightarrow>
     fingerprint_any root_uses_gbl (fi_fingerprint i) \<or>
     (case fi_model_token i of None \<Rightarrow> False | Some m \<Rightarrow> root_uses_gbl (capabilities m))"

definition firmware_needs_bootloader_step :: "key_class \<Rightarrow> string option \<Rightarrow> efisp_load \<Rightarrow> bool" where
  "firmware_needs_bootloader_step key fp efisp =
     (if fingerprint_any root_uses_gbl fp then efisp \<noteq> EfispYes
      else key = Lenovo \<and> \<not> fingerprint_any (\<lambda>caps. rollback caps = Gbl \<or> rollback caps = ReadOnly) fp)"

definition needs_bootloader_step :: "firmware_identity \<Rightarrow> bool" where
  "needs_bootloader_step i =
     (if identity_uses_gbl i then fi_efisp_load i \<noteq> EfispYes
      else firmware_needs_bootloader_step (fi_key_class i) (fi_fingerprint i) (fi_efisp_load i))"

definition identity_from_avb_info :: "avb_image_info \<Rightarrow> firmware_identity" where
  "identity_from_avb_info info =
     (let fp = build_fingerprint info
      in \<lparr>fi_efisp_load = Undetermined, fi_key_class = classify_pubkey (avb_public_key_sha1 info),
          fi_fingerprint = fp, fi_model_token = Option.bind fp fingerprint_model_token\<rparr>)"

section \<open>The wizard\<close>

datatype flash_target = OtherRegion | SameRegion

datatype data_mode = Keep | Wipe

datatype flash_step = StepRegion | StepTarget | StepData | StepFolder | StepBootloader | StepConfirm
  | StepFlash

definition FLASH_STEPS :: "flash_step list" where
  "FLASH_STEPS = [StepRegion, StepTarget, StepData, StepFolder, StepConfirm, StepFlash]"

definition FLASH_STEPS_WITH_BOOTLOADER :: "flash_step list" where
  "FLASH_STEPS_WITH_BOOTLOADER =
     [StepRegion, StepTarget, StepData, StepFolder, StepBootloader, StepConfirm, StepFlash]"

datatype identity_dialog = Ready | Failed string

record flash_wizard =
  fw_step :: nat
  fw_device_region :: "region_target option"
  fw_target :: "flash_target option"
  fw_data_mode :: "data_mode option"
  fw_firmware_folder :: "string option"
  fw_rollback_indices :: "((string + u64) \<times> (string + u64)) option"
  fw_loader_required :: bool
  fw_loader_override :: "string option"
  fw_loader_error :: "string option"
  fw_identity :: "firmware_identity option"
  fw_identity_pending :: bool
  fw_identity_dialog :: "identity_dialog option"
  fw_user_abl_path :: "string option"
  fw_user_abl_key_class :: "key_class option"
  fw_user_abl_analyzing :: bool
  fw_user_abl_efisp_load :: efisp_load
  fw_no_efisp_load :: bool

text \<open>Reading the index of an image file is an argument.\<close>

definition set_firmware_rollback_indices ::
    "(string \<Rightarrow> string + u64) \<Rightarrow> string \<Rightarrow> flash_wizard \<Rightarrow> flash_wizard" where
  "set_firmware_rollback_indices rollback_index_of folder w =
     w\<lparr>fw_rollback_indices := Some (rollback_index_of (folder @ ''/boot.img''),
                                    rollback_index_of (folder @ ''/vbmeta_system.img''))\<rparr>"

definition visible_steps :: "flash_wizard \<Rightarrow> flash_step list" where
  "visible_steps w =
     (case fw_identity w of
        None \<Rightarrow> FLASH_STEPS
      | Some i \<Rightarrow> if needs_bootloader_step i then FLASH_STEPS_WITH_BOOTLOADER else FLASH_STEPS)"

definition flash_step_count :: "flash_wizard \<Rightarrow> nat" where
  "flash_step_count w = length (visible_steps w)"

definition flash_current_step :: "flash_wizard \<Rightarrow> flash_step" where
  "flash_current_step w =
     (if fw_step w < length (visible_steps w) then visible_steps w ! fw_step w else StepFlash)"

definition flash_set_step :: "flash_step \<Rightarrow> flash_wizard \<Rightarrow> flash_wizard" where
  "flash_set_step s w =
     w\<lparr>fw_step := (case find (\<lambda>i. visible_steps w ! i = s) [0..<length (visible_steps w)] of
                     None \<Rightarrow> 0 | Some i \<Rightarrow> i)\<rparr>"

definition clear_bootloader :: "flash_wizard \<Rightarrow> flash_wizard" where
  "clear_bootloader w =
     w\<lparr>fw_user_abl_path := None, fw_user_abl_key_class := None, fw_user_abl_analyzing := False,
       fw_user_abl_efisp_load := Undetermined, fw_no_efisp_load := False\<rparr>"

definition reset_firmware_identity :: "flash_wizard \<Rightarrow> flash_wizard" where
  "reset_firmware_identity w =
     clear_bootloader (w\<lparr>fw_identity := None, fw_identity_pending := False, fw_identity_dialog := None\<rparr>)"

definition flash_uses_gbl :: "flash_wizard \<Rightarrow> bool" where
  "flash_uses_gbl w = (case fw_identity w of None \<Rightarrow> False | Some i \<Rightarrow> identity_uses_gbl i)"

definition bootloader_can_next :: "flash_wizard \<Rightarrow> bool" where
  "bootloader_can_next w =
     (if fw_user_abl_analyzing w then False
      else if flash_uses_gbl w then
        (case fw_user_abl_path w of
           Some _ \<Rightarrow> fw_user_abl_efisp_load w = EfispYes
         | None \<Rightarrow> (case fw_identity w of None \<Rightarrow> False | Some i \<Rightarrow> fi_efisp_load i \<noteq> Undetermined))
      else fw_user_abl_path w = None \<or> fw_user_abl_key_class w = Some Testkey)"

definition record_bootloader_decision :: "flash_wizard \<Rightarrow> flash_wizard" where
  "record_bootloader_decision w =
     w\<lparr>fw_no_efisp_load := (flash_uses_gbl w \<and> fw_user_abl_path w = None \<and>
        (case fw_identity w of None \<Rightarrow> False | Some i \<Rightarrow> fi_efisp_load i = EfispNo))\<rparr>"

definition bootloader_execution_allowed :: "flash_wizard \<Rightarrow> bool" where
  "bootloader_execution_allowed w \<longleftrightarrow>
     bootloader_can_next w \<and>
     (\<not> flash_uses_gbl w \<or> fw_user_abl_path w \<noteq> None \<or>
      (case fw_identity w of
         None \<Rightarrow> False
       | Some i \<Rightarrow> fi_efisp_load i = EfispYes \<or> fi_efisp_load i = EfispNo \<and> fw_no_efisp_load w))"

definition flash_can_next :: "flash_wizard \<Rightarrow> bool" where
  "flash_can_next w =
     (case flash_current_step w of
        StepRegion \<Rightarrow> fw_device_region w \<noteq> None
      | StepTarget \<Rightarrow> fw_target w \<noteq> None
      | StepData \<Rightarrow> fw_data_mode w \<noteq> None
      | StepFolder \<Rightarrow>
          fw_firmware_folder w \<noteq> None \<and> (\<not> fw_loader_required w \<or> fw_loader_override w \<noteq> None) \<and>
          \<not> fw_identity_pending w
      | StepBootloader \<Rightarrow> bootloader_can_next w
      | StepConfirm \<Rightarrow>
          fw_identity w \<noteq> None \<and> bootloader_execution_allowed w \<and> fw_firmware_folder w \<noteq> None \<and>
          (\<not> fw_loader_required w \<or> fw_loader_override w \<noteq> None)
      | StepFlash \<Rightarrow> False)"

interpretation flash: linear_wizard fw_step "\<lambda>n w. w\<lparr>fw_step := n\<rparr>" flash_step_count
  by unfold_locales (simp_all add: flash_step_count_def visible_steps_def FLASH_STEPS_def
      FLASH_STEPS_WITH_BOOTLOADER_def split: option.splits)

section \<open>Navigation of the linear wizards\<close>

abbreviation flash_next :: "flash_wizard \<Rightarrow> flash_wizard" where
  "flash_next \<equiv> wizard_next fw_step (\<lambda>n w. w\<lparr>fw_step := n\<rparr>) flash_step_count"

lemma visible_steps_step [simp]:
  "visible_steps (w\<lparr>fw_step := n\<rparr>) = visible_steps w"
  "visible_steps (record_bootloader_decision w) = visible_steps w"
  by (simp_all add: visible_steps_def record_bootloader_decision_def)

lemma flash_step_index:
  assumes "flash_current_step w = s" and "s \<noteq> StepFlash"
  shows "fw_step w < length (visible_steps w) \<and> visible_steps w ! fw_step w = s"
  using assms by (auto simp: flash_current_step_def split: if_splits)

lemma step_positions:
  assumes "visible_steps w ! k = StepBootloader" and "k < length (visible_steps w)"
  shows "k = 4 \<and> visible_steps w = FLASH_STEPS_WITH_BOOTLOADER"
  using assms
  by (auto simp: visible_steps_def FLASH_STEPS_def FLASH_STEPS_WITH_BOOTLOADER_def less_Suc_eq nth_Cons'
      split: option.splits if_splits)

lemma record_decision_fields [simp]:
  "flash_uses_gbl (record_bootloader_decision w) = flash_uses_gbl w"
  "bootloader_can_next (record_bootloader_decision w) = bootloader_can_next w"
  "fw_identity (record_bootloader_decision w) = fw_identity w"
  "fw_user_abl_path (record_bootloader_decision w) = fw_user_abl_path w"
  "fw_step (record_bootloader_decision w) = fw_step w"
  by (cases "fw_identity w"; cases "fw_user_abl_path w";
      simp add: record_bootloader_decision_def flash_uses_gbl_def bootloader_can_next_def)+

lemma execution_allowed_step [simp]:
  "bootloader_execution_allowed (w\<lparr>fw_step := n\<rparr>) = bootloader_execution_allowed w"
  by (cases "fw_identity w"; cases "fw_user_abl_path w";
      simp add: bootloader_execution_allowed_def bootloader_can_next_def flash_uses_gbl_def)

text \<open>
  (C24) The bootloader step and the confirmation agree. When the user may leave the bootloader step, the
  recorded decision opens the gate of the confirmation, which is the next step; and when the
  identity of the firmware does not call for the step, the gate is open without it. So no selection
  gets stuck in front of the flash.
\<close>

theorem bootloader_decision_opens_confirm:
  shows "(flash_current_step w = StepBootloader \<and> bootloader_can_next w \<longrightarrow>
      flash_current_step (flash_next (record_bootloader_decision w)) = StepConfirm \<and>
      bootloader_execution_allowed (flash_next (record_bootloader_decision w))) \<and>
    (visible_steps w = FLASH_STEPS \<and> fw_identity w \<noteq> None \<longrightarrow>
      bootloader_execution_allowed (clear_bootloader w))"
proof (intro conjI impI)
  assume at: "flash_current_step w = StepBootloader \<and> bootloader_can_next w"
  then have k: "fw_step w = 4" "visible_steps w = FLASH_STEPS_WITH_BOOTLOADER"
    using step_positions flash_step_index [of w StepBootloader] by auto
  let ?d = "record_bootloader_decision w"
  have next_d: "flash_next ?d = ?d\<lparr>fw_step := 5\<rparr>"
    by (simp add: flash.next_unfold flash_step_count_def k FLASH_STEPS_WITH_BOOTLOADER_def)
  show "flash_current_step (flash_next ?d) = StepConfirm"
    unfolding next_d by (simp add: flash_current_step_def k FLASH_STEPS_WITH_BOOTLOADER_def)
  obtain i where i: "fw_identity w = Some i"
    using k(2) by (auto simp: visible_steps_def FLASH_STEPS_def FLASH_STEPS_WITH_BOOTLOADER_def
        split: option.splits)
  have "bootloader_execution_allowed ?d"
    using at i
    by (cases "fi_efisp_load i")
      (auto simp: bootloader_execution_allowed_def record_bootloader_decision_def bootloader_can_next_def
        flash_uses_gbl_def split: option.splits if_splits)
  then show "bootloader_execution_allowed (flash_next ?d)" unfolding next_d by simp
next
  assume h: "visible_steps w = FLASH_STEPS \<and> fw_identity w \<noteq> None"
  then obtain i where i: "fw_identity w = Some i" "\<not> needs_bootloader_step i"
    by (auto simp: visible_steps_def FLASH_STEPS_def FLASH_STEPS_WITH_BOOTLOADER_def
        split: option.splits if_splits)
  then show "bootloader_execution_allowed (clear_bootloader w)"
    by (auto simp: bootloader_execution_allowed_def clear_bootloader_def bootloader_can_next_def
        flash_uses_gbl_def needs_bootloader_step_def split: if_splits)
qed

definition gbl_wizard :: flash_wizard where
  "gbl_wizard = \<lparr>fw_step = 4, fw_device_region = Some Prc, fw_target = Some SameRegion,
     fw_data_mode = Some Keep, fw_firmware_folder = Some ''fw'', fw_rollback_indices = None,
     fw_loader_required = False, fw_loader_override = None, fw_loader_error = None,
     fw_identity = Some \<lparr>fi_efisp_load = EfispNo, fi_key_class = Lenovo, fi_fingerprint = None,
       fi_model_token = None\<rparr>,
     fw_identity_pending = False, fw_identity_dialog = None, fw_user_abl_path = None,
     fw_user_abl_key_class = None, fw_user_abl_analyzing = False, fw_user_abl_efisp_load = Undetermined,
     fw_no_efisp_load = False\<rparr>"

theorem bootloader_decision_opens_confirm_witness:
  "flash_current_step (flash_next (record_bootloader_decision gbl_wizard)) = StepConfirm"
proof -
  have "flash_current_step gbl_wizard = StepBootloader \<and> bootloader_can_next gbl_wizard"
    by (simp add: gbl_wizard_def flash_current_step_def visible_steps_def needs_bootloader_step_def
        identity_uses_gbl_def fingerprint_any_def firmware_needs_bootloader_step_def
        FLASH_STEPS_WITH_BOOTLOADER_def bootloader_can_next_def flash_uses_gbl_def)
  then show ?thesis using bootloader_decision_opens_confirm [of gbl_wizard] by blast
qed

end
