(* ===== verification/Kona_Wizard.thy ===== *)
theory Kona_Wizard
  imports Wizards Gpu_Normalize Vendor_Boot
begin

text \<open>
  The table editor of the KonaBess wizard (\<open>model/wizard.rs\<close>) and its message handlers
  (\<open>update/konabess.rs\<close>): the candidate device trees of an inspection, the choice of one of them, the
  stock table and the edited one, the texts typed into cells, the gate in front of the flash. The
  reader of export files, the check of a loader path and the localised texts are arguments; the
  removal of the working directory, whose result the code ignores, has no part in the state.
\<close>

section \<open>Cells\<close>

datatype gpu_cell_location = LevelAt nat nat

datatype gpu_cell_key = CellKey (key_group: nat) (key_location: gpu_cell_location) (key_cell: nat)

text \<open>The derived order: group, level, property, cell.\<close>

definition loc_rank :: "gpu_cell_location \<Rightarrow> nat \<times> nat" where
  "loc_rank l = (case l of LevelAt level property \<Rightarrow> (level, property))"

instantiation gpu_cell_key :: linorder
begin

definition less_eq_gpu_cell_key :: "gpu_cell_key \<Rightarrow> gpu_cell_key \<Rightarrow> bool" where
  "less_eq_gpu_cell_key a b \<longleftrightarrow>
     (let (la, pa) = loc_rank (key_location a); (lb, pb) = loc_rank (key_location b) in
      key_group a < key_group b \<or> key_group a = key_group b \<and>
       (la < lb \<or> la = lb \<and> (pa < pb \<or> pa = pb \<and> key_cell a \<le> key_cell b)))"

definition less_gpu_cell_key :: "gpu_cell_key \<Rightarrow> gpu_cell_key \<Rightarrow> bool" where
  "less_gpu_cell_key a b \<longleftrightarrow> a \<le> b \<and> \<not> b \<le> a"

instance
proof
  fix a b c :: gpu_cell_key
  show "a < b \<longleftrightarrow> a \<le> b \<and> \<not> b \<le> a" by (rule less_gpu_cell_key_def)
  show "a \<le> a" by (simp add: less_eq_gpu_cell_key_def split_beta Let_def)
  show "a \<le> b \<Longrightarrow> b \<le> c \<Longrightarrow> a \<le> c" by (auto simp: less_eq_gpu_cell_key_def split_beta Let_def)
  show "a \<le> b \<Longrightarrow> b \<le> a \<Longrightarrow> a = b"
    by (cases a; cases b; cases "key_location a"; cases "key_location b")
      (auto simp: less_eq_gpu_cell_key_def loc_rank_def)
  show "a \<le> b \<or> b \<le> a" by (auto simp: less_eq_gpu_cell_key_def split_beta Let_def)
qed

end

definition cell_key_level :: "nat \<Rightarrow> nat \<Rightarrow> nat \<Rightarrow> nat \<Rightarrow> gpu_cell_key" where
  "cell_key_level grp level property cell = CellKey grp (LevelAt level property) cell"

record gpu_cell_edit =
  ce_text :: string
  ce_has_error :: bool

text \<open>The ordered map of the edits: an association list in the order of the keys.\<close>

type_synonym cell_edits = "(gpu_cell_key \<times> gpu_cell_edit) list"

fun edits_insert :: "gpu_cell_key \<Rightarrow> gpu_cell_edit \<Rightarrow> cell_edits \<Rightarrow> cell_edits" where
  "edits_insert k e [] = [(k, e)]"
| "edits_insert k e ((k', e') # es) =
     (if k < k' then (k, e) # (k', e') # es
      else if k = k' then (k, e) # es
      else (k', e') # edits_insert k e es)"

datatype gpu_property_editability = ReadOnlyProperty | Editable

definition gpu_property_editability_of :: "property_location \<Rightarrow> string \<Rightarrow> gpu_property_editability" where
  "gpu_property_editability_of loc name =
     (case loc of
        GroupHeader \<Rightarrow> ReadOnlyProperty
      | Level \<Rightarrow> if name = ''reg'' then ReadOnlyProperty else Editable)"

section \<open>Frequencies in MHz\<close>

definition HZ_PER_MHZ :: u32 where "HZ_PER_MHZ = 1000000"

definition checked_mul :: "u32 \<Rightarrow> u32 \<Rightarrow> u32 option" where
  "checked_mul a b = (if unat a * unat b < 2 ^ 32 then Some (a * b) else None)"

definition checked_add32 :: "u32 \<Rightarrow> u32 \<Rightarrow> u32 option" where
  "checked_add32 a b = (if unat a + unat b < 2 ^ 32 then Some (a + b) else None)"

definition cell_value :: "string \<Rightarrow> u32 option" where
  "cell_value s = (case parse_gpu_cell s of Inl _ \<Rightarrow> None | Inr v \<Rightarrow> Some v)"

definition trim_end_zeros :: "string \<Rightarrow> string" where
  "trim_end_zeros s = rev (dropWhile (\<lambda>c. c = CHR ''0'') (rev s))"

definition parse_gpu_frequency_mhz :: "string \<Rightarrow> u32 option" where
  "parse_gpu_frequency_mhz input =
     (let value = trim_ws input in
      case split_once ''.'' value of
        None \<Rightarrow> Option.bind (cell_value value) (\<lambda>v. checked_mul v HZ_PER_MHZ)
      | Some (whole, fraction) \<Rightarrow>
          if length (filter (\<lambda>c. c = CHR ''.'') value) \<noteq> 1 \<or> fraction = [] \<or>
             prefix ''0x'' whole \<or> prefix ''0X'' whole \<or> \<not> list_all is_ascii_digit fraction
          then None
          else
            let significant_fraction = trim_end_zeros fraction in
            if length significant_fraction > 6 then None
            else
              Option.bind (Option.bind (cell_value whole) (\<lambda>v. checked_mul v HZ_PER_MHZ)) (\<lambda>whole_hz.
              Option.bind
                (if significant_fraction = [] then Some 0
                 else Option.bind (cell_value significant_fraction)
                   (\<lambda>parsed. checked_mul parsed (10 ^ (6 - length significant_fraction)))) (\<lambda>fraction_hz.
              checked_add32 whole_hz fraction_hz)))"

definition pad6 :: "nat \<Rightarrow> string" where
  "pad6 n = replicate (6 - length (dec n)) CHR ''0'' @ dec n"

definition format_gpu_frequency_mhz :: "u32 \<Rightarrow> string" where
  "format_gpu_frequency_mhz frequency_hz =
     (let whole = frequency_hz div HZ_PER_MHZ; remainder = frequency_hz mod HZ_PER_MHZ in
      if remainder = 0 then dec32 whole
      else trim_end_zeros (dec32 whole @ ''.'' @ pad6 (unat remainder)))"

section \<open>The wizard\<close>

record konabess_prepared =
  kp_work_dir :: string
  kp_vendor_boot :: string
  kp_vbmeta :: string
  kp_backup_dir :: string
  kp_slot_suffix :: string
  kp_probable_dtb_index :: "nat option"

record konabess_wizard =
  kw_step :: nat
  kw_loader_path :: "string option"
  kw_loader_error :: "string option"
  kw_import_path :: "string option"
  kw_import_error :: "string option"
  kw_stock_table :: "gpu_table option"
  kw_edited_table :: "gpu_table option"
  kw_edited_dirty :: bool
  kw_cell_edits :: cell_edits
  kw_candidates :: "vendor_boot_dtb_info list"
  kw_selected_target_index :: "nat option"
  kw_probable_target_index :: "nat option"
  kw_target_popup_open :: bool
  kw_target_popup_abandons_on_dismiss :: bool
  kw_prepared :: "konabess_prepared option"

definition konabess_default :: konabess_wizard where
  "konabess_default = \<lparr>kw_step = 0, kw_loader_path = None, kw_loader_error = None,
     kw_import_path = None, kw_import_error = None, kw_stock_table = None, kw_edited_table = None,
     kw_edited_dirty = False, kw_cell_edits = [], kw_candidates = [], kw_selected_target_index = None,
     kw_probable_target_index = None, kw_target_popup_open = False,
     kw_target_popup_abandons_on_dismiss = False, kw_prepared = None\<rparr>"

definition clear_table_selection :: "konabess_wizard \<Rightarrow> konabess_wizard" where
  "clear_table_selection w =
     w\<lparr>kw_selected_target_index := None, kw_stock_table := None, kw_edited_table := None,
       kw_cell_edits := [], kw_edited_dirty := False, kw_import_path := None, kw_import_error := None\<rparr>"

definition apply_inspection_result ::
    "vendor_boot_dtb_info list \<Rightarrow> nat option \<Rightarrow> konabess_wizard \<Rightarrow> konabess_wizard" where
  "apply_inspection_result inspected probable_dtb_index w =
     (let cs = filter (\<lambda>c. dtb_table c \<noteq> None) inspected;
          w1 = w\<lparr>kw_candidates := cs,
            kw_probable_target_index := Option.bind probable_dtb_index
              (\<lambda>i. if list_ex (\<lambda>c. dtb_index c = i) cs then Some i else None)\<rparr>
      in (clear_table_selection w1)\<lparr>kw_target_popup_open := True,
           kw_target_popup_abandons_on_dismiss := True\<rparr>)"

definition is_probable_target :: "nat \<Rightarrow> konabess_wizard \<Rightarrow> bool" where
  "is_probable_target target_index w \<longleftrightarrow> kw_probable_target_index w = Some target_index"

definition select_target :: "nat \<Rightarrow> konabess_wizard \<Rightarrow> konabess_wizard \<times> bool" where
  "select_target target_index w =
     (case Option.bind
        (List.find (\<lambda>c. dtb_index c = target_index \<and> dtb_chip c \<noteq> None) (kw_candidates w)) dtb_table of
        None \<Rightarrow> (w, False)
      | Some table \<Rightarrow>
          (w\<lparr>kw_selected_target_index := Some target_index, kw_edited_table := Some table,
             kw_stock_table := Some table, kw_cell_edits := [], kw_edited_dirty := False,
             kw_import_path := None, kw_import_error := None\<rparr>, True))"

definition confirm_target :: "konabess_wizard \<Rightarrow> konabess_wizard \<times> nat option" where
  "confirm_target w =
     (if kw_selected_target_index w = None \<or> kw_stock_table w = None \<or> kw_edited_table w = None
      then (w, None)
      else (w\<lparr>kw_target_popup_open := False, kw_target_popup_abandons_on_dismiss := False\<rparr>,
            kw_selected_target_index w))"

definition dismiss_target_popup :: "konabess_wizard \<Rightarrow> konabess_wizard \<times> bool" where
  "dismiss_target_popup w =
     (w\<lparr>kw_target_popup_open := False, kw_target_popup_abandons_on_dismiss := False\<rparr>,
      kw_target_popup_abandons_on_dismiss w)"

definition open_target_popup :: "konabess_wizard \<Rightarrow> konabess_wizard" where
  "open_target_popup w =
     w\<lparr>kw_target_popup_open := True, kw_target_popup_abandons_on_dismiss := False\<rparr>"

definition selected_target :: "konabess_wizard \<Rightarrow> vendor_boot_dtb_info option" where
  "selected_target w =
     Option.bind (kw_selected_target_index w) (\<lambda>i. List.find (\<lambda>c. dtb_index c = i) (kw_candidates w))"

definition selected_chip :: "konabess_wizard \<Rightarrow> string option" where
  "selected_chip w = Option.bind (selected_target w) dtb_chip"

section \<open>Editing\<close>

datatype konabess_import_error = NoTarget | TargetChipUnknown | ChipMismatch string string

text \<open>The levels of the imported group of the same id; everything else is the stock group.\<close>

definition merge_group :: "gpu_group list \<Rightarrow> gpu_group \<Rightarrow> gpu_group" where
  "merge_group imported stock_group =
     (case List.find (\<lambda>g. group_id g = group_id stock_group) imported of
        None \<Rightarrow> stock_group
      | Some g \<Rightarrow> \<lparr>group_id = group_id stock_group,
          header_properties = header_properties stock_group, group_levels = group_levels g\<rparr>)"

definition merge_import :: "gpu_table option \<Rightarrow> gpu_table \<Rightarrow> gpu_table" where
  "merge_import stock table =
     (case stock of
        None \<Rightarrow> table
      | Some s \<Rightarrow>
          let merged = table\<lparr>table_groups := map (merge_group (table_groups table)) (table_groups s)\<rparr>
          in case normalize_edited_gpu_table s merged of
               Inl _ \<Rightarrow> merged
             | Inr (normalized, _) \<Rightarrow> normalized)"

definition overwrite_edited_from_import ::
    "konabess_export \<Rightarrow> konabess_wizard \<Rightarrow> konabess_import_error + konabess_wizard" where
  "overwrite_edited_from_import export w =
     (case selected_target w of
        None \<Rightarrow> Inl NoTarget
      | Some target \<Rightarrow>
          (case dtb_chip target of
             None \<Rightarrow> Inl TargetChipUnknown
           | Some expected \<Rightarrow>
               if export_chip export \<noteq> expected then Inl (ChipMismatch expected (export_chip export))
               else
                 let table = merge_import (kw_stock_table w) (export_table export) in
                 Inr (w\<lparr>kw_edited_table := Some table, kw_cell_edits := [],
                        kw_edited_dirty := (Some table \<noteq> kw_stock_table w)\<rparr>)))"

definition get_at :: "'a list \<Rightarrow> nat \<Rightarrow> 'a option" where
  "get_at xs i = (if i < length xs then Some (xs ! i) else None)"

definition cell_property :: "gpu_cell_key \<Rightarrow> konabess_wizard \<Rightarrow> gpu_property option" where
  "cell_property key w =
     Option.bind (kw_edited_table w) (\<lambda>t.
     Option.bind (get_at (table_groups t) (key_group key)) (\<lambda>g.
     case key_location key of LevelAt level property \<Rightarrow>
       Option.bind (get_at (group_levels g) level) (\<lambda>l. get_at (level_properties l) property)))"

text \<open>\<open>*cell_mut(table, key)? = value\<close>.\<close>

definition set_cell :: "gpu_table \<Rightarrow> gpu_cell_key \<Rightarrow> u32 \<Rightarrow> gpu_table option" where
  "set_cell t key v =
     Option.bind (get_at (table_groups t) (key_group key)) (\<lambda>g.
     case key_location key of LevelAt level property \<Rightarrow>
       Option.bind (get_at (group_levels g) level) (\<lambda>l.
       Option.bind (get_at (level_properties l) property) (\<lambda>p.
       Option.bind (get_at (prop_cells p) (key_cell key)) (\<lambda>_.
         let p' = p\<lparr>prop_cells := (prop_cells p)[key_cell key := v]\<rparr>;
             l' = l\<lparr>level_properties := (level_properties l)[property := p']\<rparr>;
             g' = g\<lparr>group_levels := (group_levels g)[level := l']\<rparr>
         in Some (t\<lparr>table_groups := (table_groups t)[key_group key := g']\<rparr>)))))"

definition cell_property_path :: "gpu_cell_key \<Rightarrow> konabess_wizard \<Rightarrow> string option" where
  "cell_property_path key w =
     Option.bind (kw_edited_table w) (\<lambda>t.
     Option.bind (get_at (table_groups t) (key_group key)) (\<lambda>g.
     Option.bind (cell_property key w) (\<lambda>p.
     case key_location key of LevelAt level _ \<Rightarrow>
       Option.bind (get_at (group_levels g) level) (\<lambda>l.
         Some (''group '' @ dec32 (group_id g) @ '' / level '' @ dec32 (level_id l) @ '' / '' @
               prop_name p)))))"

text \<open>
  The tail that every edit shares: a table that normalises replaces the edited one, any other leaves
  it alone.
\<close>

definition commit_edited :: "gpu_table \<Rightarrow> gpu_table \<Rightarrow> konabess_wizard \<Rightarrow> konabess_wizard option" where
  "commit_edited stock edited w =
     (case normalize_edited_gpu_table stock edited of
        Inl _ \<Rightarrow> None
      | Inr (normalized, _) \<Rightarrow>
          Some (w\<lparr>kw_edited_table := Some normalized,
                  kw_edited_dirty := (Some normalized \<noteq> kw_stock_table w)\<rparr>))"

text \<open>An operation that may fail late: the state it leaves, and whether it was accepted.\<close>

definition accepted :: "konabess_wizard \<Rightarrow> konabess_wizard option \<Rightarrow> konabess_wizard \<times> bool" where
  "accepted w r = (case r of None \<Rightarrow> (w, False) | Some w' \<Rightarrow> (w', True))"

definition edit_cell :: "gpu_cell_key \<Rightarrow> string \<Rightarrow> konabess_wizard \<Rightarrow> konabess_wizard \<times> bool" where
  "edit_cell key txt w =
     (case cell_property key w of
        None \<Rightarrow> (w, False)
      | Some p \<Rightarrow>
          if gpu_property_editability_of Level (prop_name p) = ReadOnlyProperty then (w, False)
          else
            let parsed = (if prop_name p = ''qcom,gpu-freq'' then parse_gpu_frequency_mhz txt
                          else cell_value txt);
                w1 = w\<lparr>kw_cell_edits :=
                  edits_insert key \<lparr>ce_text = txt, ce_has_error = (parsed = None)\<rparr> (kw_cell_edits w)\<rparr>
            in accepted w1
                 (Option.bind parsed (\<lambda>value.
                  Option.bind (kw_stock_table w1) (\<lambda>stock.
                  Option.bind (kw_edited_table w1) (\<lambda>t.
                  Option.bind (set_cell t key value) (\<lambda>edited.
                  commit_edited stock edited w1))))))"

definition cell_text :: "gpu_cell_key \<Rightarrow> u32 \<Rightarrow> string \<Rightarrow> konabess_wizard \<Rightarrow> string" where
  "cell_text key committed property w =
     (case map_of (kw_cell_edits w) key of
        None \<Rightarrow> if property = ''qcom,gpu-freq'' then format_gpu_frequency_mhz committed else dec32 committed
      | Some edit \<Rightarrow> ce_text edit)"

definition cell_has_input_error :: "gpu_cell_key \<Rightarrow> konabess_wizard \<Rightarrow> bool" where
  "cell_has_input_error key w =
     (case map_of (kw_cell_edits w) key of None \<Rightarrow> False | Some edit \<Rightarrow> ce_has_error edit)"

definition issue_matches_cell :: "gpu_issue \<Rightarrow> gpu_cell_key \<Rightarrow> konabess_wizard \<Rightarrow> bool" where
  "issue_matches_cell i key w =
     (case cell_property_path key w of None \<Rightarrow> False | Some path \<Rightarrow> issue_path i = path)"

definition input_issue :: "konabess_wizard \<Rightarrow> gpu_cell_key \<Rightarrow> gpu_issue" where
  "input_issue w key =
     issue (case cell_property_path key w of
              None \<Rightarrow> ''table''
            | Some path \<Rightarrow> path @ ''['' @ dec (key_cell key) @ '']'')
       ''cell input is not a parseable u32 value''"

definition editor_validation :: "konabess_wizard \<Rightarrow> gpu_validation" where
  "editor_validation w =
     (case kw_edited_table w of
        None \<Rightarrow> no_issues
      | Some edited \<Rightarrow>
          let v = hard (map (\<lambda>(key, _). input_issue w key)
                (filter (\<lambda>(_, edit). ce_has_error edit) (kw_cell_edits w))) (validate_gpu_table edited)
          in case kw_stock_table w of
               None \<Rightarrow> v
             | Some stock \<Rightarrow>
                 (case normalize_edited_gpu_table stock edited of
                    Inl _ \<Rightarrow> v
                  | Inr (_, advisories) \<Rightarrow> v\<lparr>warnings := advisories\<rparr>))"

definition add_level :: "nat \<Rightarrow> konabess_wizard \<Rightarrow> konabess_wizard \<times> bool" where
  "add_level group_position w =
     (if has_hard_errors (editor_validation w) then (w, False)
      else accepted w
        (Option.bind (kw_stock_table w) (\<lambda>stock.
         Option.bind (kw_edited_table w) (\<lambda>edited.
         Option.bind (get_at (table_groups edited) group_position) (\<lambda>g.
         if group_levels g = [] then None
         else if \<not> length (group_levels g) < 2 ^ 32 then None
         else case build_gpu_level_from_template g (level_id (last (group_levels g)))
               (of_nat (length (group_levels g))) prop_cells of
             Inl _ \<Rightarrow> None
           | Inr new_level \<Rightarrow>
               map_option (\<lambda>w'. w'\<lparr>kw_cell_edits := []\<rparr>)
                 (commit_edited stock
                    (edited\<lparr>table_groups := (table_groups edited)[group_position :=
                       g\<lparr>group_levels := group_levels g @ [new_level]\<rparr>]\<rparr>) w))))))"

definition remove_nth :: "nat \<Rightarrow> 'a list \<Rightarrow> 'a list" where
  "remove_nth i xs = take i xs @ drop (Suc i) xs"

definition remove_level :: "nat \<Rightarrow> nat \<Rightarrow> konabess_wizard \<Rightarrow> konabess_wizard \<times> bool" where
  "remove_level group_position level_position w =
     (if has_hard_errors (editor_validation w) then (w, False)
      else accepted w
        (Option.bind (kw_stock_table w) (\<lambda>stock.
         Option.bind (kw_edited_table w) (\<lambda>edited.
         Option.bind (get_at (table_groups edited) group_position) (\<lambda>g.
         if length (group_levels g) \<le> 1 \<or> length (group_levels g) \<le> level_position then None
         else map_option (\<lambda>w'. w'\<lparr>kw_cell_edits := []\<rparr>)
                (commit_edited stock
                   (edited\<lparr>table_groups := (table_groups edited)[group_position :=
                      g\<lparr>group_levels := remove_nth level_position (group_levels g)\<rparr>]\<rparr>) w))))))"

definition revert_edits :: "konabess_wizard \<Rightarrow> konabess_wizard \<times> bool" where
  "revert_edits w =
     (case kw_stock_table w of
        None \<Rightarrow> (w, False)
      | Some stock \<Rightarrow>
          (w\<lparr>kw_edited_table := Some stock, kw_cell_edits := [], kw_edited_dirty := False,
             kw_import_path := None, kw_import_error := None\<rparr>, True))"

definition cleanup_prepared :: "konabess_wizard \<Rightarrow> konabess_wizard" where
  "cleanup_prepared w =
     clear_table_selection (w\<lparr>kw_prepared := None, kw_candidates := [], kw_probable_target_index := None,
       kw_target_popup_open := False, kw_target_popup_abandons_on_dismiss := False\<rparr>)"

section \<open>The trait\<close>

definition KONABESS_STEPS :: "string list" where
  "KONABESS_STEPS = [''edl_loader_label'', ''konabess_step_table'', ''konabess_step_confirm'',
     ''konabess_step_apply'']"

definition konabess_step_count :: "konabess_wizard \<Rightarrow> nat" where
  "konabess_step_count w = length KONABESS_STEPS"

definition konabess_reset :: "konabess_wizard \<Rightarrow> konabess_wizard" where
  "konabess_reset w = konabess_default"

definition konabess_can_next :: "konabess_wizard \<Rightarrow> bool" where
  "konabess_can_next w =
     (let s = kw_step w in
      if s = 0 then kw_loader_path w \<noteq> None \<and> kw_loader_error w = None
      else if s = 1 then
        kw_prepared w \<noteq> None \<and> selected_chip w \<noteq> None \<and> kw_stock_table w \<noteq> None \<and>
        kw_edited_table w \<noteq> None \<and> \<not> has_hard_errors (editor_validation w)
      else if s = 2 then
        kw_loader_path w \<noteq> None \<and> kw_prepared w \<noteq> None \<and> selected_chip w \<noteq> None \<and>
        kw_edited_table w \<noteq> None \<and> \<not> has_hard_errors (editor_validation w)
      else False)"

interpretation konabess: linear_wizard kw_step "\<lambda>n w. w\<lparr>kw_step := n\<rparr>" konabess_step_count
  by unfold_locales (simp_all add: konabess_step_count_def KONABESS_STEPS_def)

section \<open>The handlers\<close>

text \<open>
  What the handlers read of the rest of the program: the capability of the device model, the loader
  checks (a refusal is the text it shows), the reader of export files, the localised texts, and
  whether an operation runs or an update is in progress.
\<close>

datatype konabess_text = LoaderModelMismatch | ImportChipMismatch string string | ImportNoTarget
  | ImportUnknownChip | ExportInvalid string

record konabess_env =
  env_konabess :: bool
  env_validate_loader :: "string option \<Rightarrow> string + string"
  env_resolve_loader :: "string \<Rightarrow> string + string"
  env_loader_fits :: "string \<Rightarrow> bool"
  env_read_export :: "string \<Rightarrow> string + konabess_export"
  env_text :: "konabess_text \<Rightarrow> string"
  env_running :: bool
  env_updating :: bool

text \<open>The jobs a handler starts on the device.\<close>

datatype konabess_job = InspectDevice string | CancelInspection string
  | FlashTable string konabess_prepared nat string gpu_table

datatype konabess_msg = KonaLoaderChosen "string option" | KonaImportChosen "string option"
  | KonaOpenTarget | KonaRevertEdits | KonaCellChanged gpu_cell_key string | KonaAddLevel nat
  | KonaRemoveLevel nat nat | KonaNext | KonaBack
  | KonaInspectionReady konabess_prepared "vendor_boot_dtb_info list" | KonaInspectionFailed string
  | KonaTargetSelected nat | KonaTargetConfirm | KonaTargetDismiss | KonaCancelDone | KonaFlashDone

definition konabess_loader_chosen :: "konabess_env \<Rightarrow> string option \<Rightarrow> konabess_wizard \<Rightarrow> konabess_wizard" where
  "konabess_loader_chosen env picked w =
     (case picked of
        None \<Rightarrow> w
      | Some p \<Rightarrow>
          (case env_resolve_loader env p of
             Inl msg \<Rightarrow> w\<lparr>kw_loader_path := None, kw_loader_error := Some msg\<rparr>
           | Inr l \<Rightarrow>
               if \<not> env_loader_fits env l
               then w\<lparr>kw_loader_path := None, kw_loader_error := Some (env_text env LoaderModelMismatch)\<rparr>
               else w\<lparr>kw_loader_path := Some l, kw_loader_error := None\<rparr>))"

definition konabess_import_chosen :: "konabess_env \<Rightarrow> string option \<Rightarrow> konabess_wizard \<Rightarrow> konabess_wizard" where
  "konabess_import_chosen env picked w =
     (case picked of
        None \<Rightarrow> w
      | Some path \<Rightarrow>
          (case env_read_export env path of
             Inl e \<Rightarrow> w\<lparr>kw_import_error := Some (env_text env (ExportInvalid e))\<rparr>
           | Inr export \<Rightarrow>
               (case overwrite_edited_from_import export w of
                  Inr w' \<Rightarrow> w'\<lparr>kw_import_path := Some path, kw_import_error := None\<rparr>
                | Inl (ChipMismatch expected actual) \<Rightarrow>
                    w\<lparr>kw_import_error := Some (env_text env (ImportChipMismatch expected actual))\<rparr>
                | Inl NoTarget \<Rightarrow> w\<lparr>kw_import_error := Some (env_text env ImportNoTarget)\<rparr>
                | Inl TargetChipUnknown \<Rightarrow>
                    w\<lparr>kw_import_error := Some (env_text env ImportUnknownChip)\<rparr>)))"

definition cancel_konabess_inspection :: "konabess_wizard \<Rightarrow> konabess_wizard \<times> konabess_job option" where
  "cancel_konabess_inspection w =
     (case kw_loader_path w of
        None \<Rightarrow> ((cleanup_prepared w)\<lparr>kw_step := 0\<rparr>, None)
      | Some loader \<Rightarrow> (w, Some (CancelInspection loader)))"

abbreviation konabess_next :: "konabess_wizard \<Rightarrow> konabess_wizard" where
  "konabess_next \<equiv> wizard_next kw_step (\<lambda>n w. w\<lparr>kw_step := n\<rparr>) konabess_step_count"

abbreviation konabess_back :: "konabess_wizard \<Rightarrow> konabess_wizard" where
  "konabess_back \<equiv> wizard_back kw_step (\<lambda>n w. w\<lparr>kw_step := n\<rparr>)"

definition konabess_on_next ::
    "konabess_env \<Rightarrow> konabess_wizard \<Rightarrow> konabess_wizard \<times> konabess_job option" where
  "konabess_on_next env w =
     (if kw_step w = 0 then
        (case env_validate_loader env (kw_loader_path w) of
           Inl msg \<Rightarrow> (w\<lparr>kw_loader_error := Some msg\<rparr>, None)
         | Inr loader \<Rightarrow>
             if env_loader_fits env loader then
               let w1 = w\<lparr>kw_loader_error := None\<rparr> in
               if env_running env then (w1, None)
               else (cleanup_prepared w1, Some (InspectDevice loader))
             else (w\<lparr>kw_loader_error := Some (env_text env LoaderModelMismatch)\<rparr>, None))
      else if kw_step w = 1 \<and> konabess_can_next w then (konabess_next w, None)
      else if kw_step w = 2 \<and> konabess_can_next w then
        (if env_running env then (w, None)
         else case kw_loader_path w of
             None \<Rightarrow> (w, None)
           | Some loader \<Rightarrow>
               (case env_validate_loader env (Some loader) of
                  Inl _ \<Rightarrow> (w, None)
                | Inr _ \<Rightarrow>
                    (case (kw_prepared w, kw_selected_target_index w, selected_chip w, kw_edited_table w) of
                       (Some prepared, Some target_index, Some chip, Some table) \<Rightarrow>
                         (konabess_next w, Some (FlashTable loader prepared target_index chip table))
                     | _ \<Rightarrow> (w, None))))
      else (w, None))"

definition konabess_on_back :: "konabess_wizard \<Rightarrow> konabess_wizard \<times> konabess_job option" where
  "konabess_on_back w =
     (if kw_step w = 0 then (konabess_reset w, None)
      else if kw_step w = 1 \<and> kw_prepared w \<noteq> None
      then cancel_konabess_inspection (fst (dismiss_target_popup w))
      else (konabess_back w, None))"

definition konabess_inspection_ready ::
    "konabess_env \<Rightarrow> konabess_prepared \<Rightarrow> vendor_boot_dtb_info list \<Rightarrow> konabess_wizard \<Rightarrow>
     konabess_wizard \<times> konabess_job option" where
  "konabess_inspection_ready env prepared inspected w =
     (let w1 = w\<lparr>kw_prepared := Some prepared\<rparr> in
      if env_updating env then cancel_konabess_inspection w1
      else ((apply_inspection_result inspected (kp_probable_dtb_index prepared) w1)\<lparr>kw_step := 1\<rparr>, None))"

definition konabess_on_dismiss :: "konabess_wizard \<Rightarrow> konabess_wizard \<times> konabess_job option" where
  "konabess_on_dismiss w =
     (let (w1, abandons) = dismiss_target_popup w in
      if abandons then cancel_konabess_inspection w1 else (w1, None))"

definition update_konabess ::
    "konabess_env \<Rightarrow> konabess_msg \<Rightarrow> konabess_wizard \<Rightarrow> konabess_wizard \<times> konabess_job option" where
  "update_konabess env msg w =
     (if \<not> env_konabess env \<and> msg = KonaNext then (w, None)
      else case msg of
          KonaLoaderChosen picked \<Rightarrow> (konabess_loader_chosen env picked w, None)
        | KonaImportChosen picked \<Rightarrow> (konabess_import_chosen env picked w, None)
        | KonaOpenTarget \<Rightarrow> (open_target_popup w, None)
        | KonaRevertEdits \<Rightarrow> (fst (revert_edits w), None)
        | KonaCellChanged key txt \<Rightarrow> (fst (edit_cell key txt w), None)
        | KonaAddLevel g \<Rightarrow> (fst (add_level g w), None)
        | KonaRemoveLevel g l \<Rightarrow> (fst (remove_level g l w), None)
        | KonaNext \<Rightarrow> konabess_on_next env w
        | KonaBack \<Rightarrow> konabess_on_back w
        | KonaInspectionReady prepared inspected \<Rightarrow> konabess_inspection_ready env prepared inspected w
        | KonaInspectionFailed _ \<Rightarrow> ((cleanup_prepared w)\<lparr>kw_step := 0\<rparr>, None)
        | KonaTargetSelected i \<Rightarrow> (fst (select_target i w), None)
        | KonaTargetConfirm \<Rightarrow> (fst (confirm_target w), None)
        | KonaTargetDismiss \<Rightarrow> konabess_on_dismiss w
        | KonaCancelDone \<Rightarrow> ((cleanup_prepared w)\<lparr>kw_step := 0\<rparr>, None)
        | KonaFlashDone \<Rightarrow> (cleanup_prepared w, None))"

end
