(* ===== verification/Kona_Props.thy ===== *)
theory Kona_Props
  imports Kona_Wizard Export_Table
begin

text \<open>
  What the KonaBess wizard promises: every state its handlers can reach keeps the editor consistent
  (the flag of unsaved changes is exact, the stock table is that of the selected device tree, edits
  and imports never touch group identities or header values), so the table handed to the flash
  worker belongs to the selected device tree; and a displayed frequency reads back as itself.
\<close>

section \<open>Headers\<close>

definition header_kept :: "gpu_group \<Rightarrow> gpu_group \<Rightarrow> bool" where
  "header_kept g g' \<longleftrightarrow> group_id g' = group_id g \<and>
     map prop_name (header_properties g') = map prop_name (header_properties g) \<and>
     (\<forall>n. n \<notin> initial_names \<longrightarrow> find_property (header_properties g') n = find_property (header_properties g) n)"

definition headers_kept :: "gpu_table \<Rightarrow> gpu_table \<Rightarrow> bool" where
  "headers_kept s t \<longleftrightarrow> list_all2 header_kept (table_groups s) (table_groups t)"

lemma header_kept_refl [simp]: "header_kept g g"
  by (simp add: header_kept_def)

lemma headers_kept_refl [simp]: "headers_kept t t"
  by (simp add: headers_kept_def list_all2_same)

lemma headers_kept_trans: "headers_kept s t \<Longrightarrow> headers_kept t u \<Longrightarrow> headers_kept s u"
  by (simp add: headers_kept_def list_all2_conv_all_nth header_kept_def)

lemma headers_kept_update:
  assumes "i < length (table_groups t)" and "header_kept (table_groups t ! i) g"
  shows "headers_kept t (t\<lparr>table_groups := (table_groups t)[i := g]\<rparr>)"
  using assms by (auto simp: headers_kept_def list_all2_conv_all_nth nth_list_update)

lemma header_kept_levels [simp]: "header_kept g (g\<lparr>group_levels := ls\<rparr>)"
  by (simp add: header_kept_def)

lemma normalize_headers:
  assumes "normalize_edited_gpu_table s e = Inr (t, adv)"
  shows "headers_kept e t"
  using normalize_edited_Inr [OF assms] unfolding headers_kept_def
  by (auto elim!: list_all2_mono simp: group_normalized_def header_kept_def)

lemma merge_headers:
  "headers_kept s (t\<lparr>table_groups := map (merge_group gs) (table_groups s)\<rparr>)"
  by (auto simp: headers_kept_def list_all2_conv_all_nth merge_group_def header_kept_def
      split: option.splits)

lemma merge_import_headers: "headers_kept s (merge_import (Some s) t)"
  using normalize_headers merge_headers [where s = s and t = t and gs = "table_groups t"]
  by (auto simp: merge_import_def Let_def split: sum.splits intro: headers_kept_trans)

lemma get_at_Some: "get_at xs i = Some x \<longleftrightarrow> i < length xs \<and> xs ! i = x"
  by (auto simp: get_at_def)

lemma set_cell_headers: "set_cell t key v = Some t' \<Longrightarrow> headers_kept t t'"
  by (cases "key_location key")
    (auto simp: set_cell_def bind_eq_Some_conv get_at_Some Let_def intro: headers_kept_update)

section \<open>The invariant of the editor\<close>

definition kona_inv :: "konabess_wizard \<Rightarrow> bool" where
  "kona_inv w \<longleftrightarrow> distinct (map dtb_index (kw_candidates w)) \<and>
     (case kw_selected_target_index w of
        None \<Rightarrow> kw_stock_table w = None \<and> kw_edited_table w = None
      | Some i \<Rightarrow> \<exists>c \<in> set (kw_candidates w). \<exists>s t. dtb_index c = i \<and> dtb_chip c \<noteq> None \<and>
          dtb_table c = Some s \<and> kw_stock_table w = Some s \<and> kw_edited_table w = Some t \<and>
          headers_kept s t) \<and>
     (kw_edited_dirty w \<longleftrightarrow> kw_edited_table w \<noteq> kw_stock_table w)"

lemma kona_inv_default: "kona_inv konabess_default"
  by (simp add: kona_inv_def konabess_default_def)

lemma kona_inv_cong:
  assumes "kona_inv w" and "kw_candidates w' = kw_candidates w"
    and "kw_selected_target_index w' = kw_selected_target_index w"
    and "kw_stock_table w' = kw_stock_table w" and "kw_edited_table w' = kw_edited_table w"
    and "kw_edited_dirty w' = kw_edited_dirty w"
  shows "kona_inv w'"
  using assms by (simp add: kona_inv_def split: option.splits)

lemma kona_inv_clear:
  assumes "distinct (map dtb_index (kw_candidates w))"
  shows "kona_inv (clear_table_selection w)"
  using assms by (simp add: kona_inv_def clear_table_selection_def)

lemma kona_inv_cleanup: "kona_inv (cleanup_prepared w)"
  by (simp add: cleanup_prepared_def kona_inv_clear)

lemma kona_inv_inspection:
  assumes "distinct (map dtb_index inspected)"
  shows "kona_inv (apply_inspection_result inspected p w)"
proof -
  have "distinct (map dtb_index (filter P inspected))" for P
    using assms by (induction inspected) auto
  then have "kona_inv (clear_table_selection (w\<lparr>kw_candidates :=
      filter (\<lambda>c. dtb_table c \<noteq> None) inspected, kw_probable_target_index := x\<rparr>))" for x
    by (intro kona_inv_clear) simp
  then show ?thesis unfolding apply_inspection_result_def Let_def
    by (rule kona_inv_cong) (simp_all add: clear_table_selection_def)
qed

lemma find_Some_mem: "List.find P xs = Some x \<Longrightarrow> x \<in> set xs \<and> P x"
  by (induction xs) (auto split: if_splits)

lemma kona_inv_select:
  assumes "kona_inv w"
  shows "kona_inv (fst (select_target i w))"
proof (cases "Option.bind (List.find (\<lambda>c. dtb_index c = i \<and> dtb_chip c \<noteq> None) (kw_candidates w)) dtb_table")
  case None
  with assms show ?thesis by (simp add: select_target_def)
next
  case (Some table)
  then obtain c where f: "List.find (\<lambda>c. dtb_index c = i \<and> dtb_chip c \<noteq> None) (kw_candidates w) = Some c"
    and t: "dtb_table c = Some table"
    by (auto simp: bind_eq_Some_conv)
  from find_Some_mem [OF f] have "c \<in> set (kw_candidates w)" "dtb_index c = i" "dtb_chip c \<noteq> None"
    by auto
  with Some t assms show ?thesis
    by (auto simp: select_target_def kona_inv_def intro!: bexI [of _ c])
qed

text \<open>Replacing the edited table by one with the headers of the stock table.\<close>

lemma kona_inv_edited:
  assumes inv: "kona_inv w" and stock: "kw_stock_table w = Some s" and kept: "headers_kept s t"
  shows "kona_inv (w\<lparr>kw_edited_table := Some t, kw_edited_dirty := (Some t \<noteq> kw_stock_table w)\<rparr>)"
proof -
  obtain i where "kw_selected_target_index w = Some i"
    using inv stock by (cases "kw_selected_target_index w") (auto simp: kona_inv_def)
  with assms show ?thesis by (auto simp: kona_inv_def)
qed

lemma kona_inv_stock:
  assumes "kona_inv w" and "kw_edited_table w = Some t"
  obtains s where "kw_stock_table w = Some s" "headers_kept s t"
  using assms by (cases "kw_selected_target_index w") (auto simp: kona_inv_def)

lemma kona_inv_commit:
  assumes inv: "kona_inv w" and stock: "kw_stock_table w = Some s"
    and t: "kw_edited_table w = Some t" and kept: "headers_kept t e"
    and w': "commit_edited s e w = Some w'"
  shows "kona_inv w'"
proof -
  from w' obtain n adv where n: "normalize_edited_gpu_table s e = Inr (n, adv)"
    and w'_eq: "w' = w\<lparr>kw_edited_table := Some n, kw_edited_dirty := (Some n \<noteq> kw_stock_table w)\<rparr>"
    by (auto simp: commit_edited_def split: sum.splits)
  have "headers_kept s t" using kona_inv_stock [OF inv t] stock by auto
  with kept normalize_headers [OF n] have "headers_kept s n" by (blast intro: headers_kept_trans)
  with kona_inv_edited [OF inv stock] show ?thesis by (simp add: w'_eq)
qed

lemma kona_inv_accepted:
  assumes "kona_inv w" and "\<And>w'. r = Some w' \<Longrightarrow> kona_inv w'"
  shows "kona_inv (fst (accepted w r))"
  using assms by (cases r) (auto simp: accepted_def)

lemma kona_inv_drop_edits: "kona_inv w \<Longrightarrow> kona_inv (w\<lparr>kw_cell_edits := es\<rparr>)"
  by (erule kona_inv_cong) simp_all

lemma kona_inv_edit_cell:
  assumes inv: "kona_inv w"
  shows "kona_inv (fst (edit_cell key txt w))"
proof -
  have acc: "kona_inv (fst (accepted w1 (Option.bind parsed (\<lambda>value.
        Option.bind (kw_stock_table w1) (\<lambda>stock. Option.bind (kw_edited_table w1) (\<lambda>t.
        Option.bind (set_cell t key value) (\<lambda>edited. commit_edited stock edited w1)))))))"
    if "kona_inv w1" for w1 parsed
  proof (rule kona_inv_accepted [OF that])
    fix w' assume "Option.bind parsed (\<lambda>value.
        Option.bind (kw_stock_table w1) (\<lambda>stock. Option.bind (kw_edited_table w1) (\<lambda>t.
        Option.bind (set_cell t key value) (\<lambda>edited. commit_edited stock edited w1)))) = Some w'"
    then obtain v s t e where "kw_stock_table w1 = Some s" "kw_edited_table w1 = Some t"
      "set_cell t key v = Some e" "commit_edited s e w1 = Some w'"
      by (auto simp: bind_eq_Some_conv)
    with kona_inv_commit [OF that] set_cell_headers show "kona_inv w'" by metis
  qed
  show ?thesis
    using inv acc [OF kona_inv_drop_edits [OF inv]]
    by (auto simp: edit_cell_def Let_def split: option.split)
qed

lemma kona_inv_levels:
  assumes inv: "kona_inv w" and stock: "kw_stock_table w = Some s" and t: "kw_edited_table w = Some t"
    and g: "get_at (table_groups t) i = Some g"
    and w': "commit_edited s (t\<lparr>table_groups := (table_groups t)[i := g\<lparr>group_levels := ls\<rparr>]\<rparr>) w = Some w'"
  shows "kona_inv (w'\<lparr>kw_cell_edits := []\<rparr>)"
proof -
  have "headers_kept t (t\<lparr>table_groups := (table_groups t)[i := g\<lparr>group_levels := ls\<rparr>]\<rparr>)"
    using g by (intro headers_kept_update) (auto simp: get_at_Some)
  from kona_inv_commit [OF inv stock t this w'] show ?thesis by (rule kona_inv_drop_edits)
qed

lemma kona_inv_add_level:
  assumes inv: "kona_inv w"
  shows "kona_inv (fst (add_level i w))"
  unfolding add_level_def
  by (auto simp: bind_eq_Some_conv inv split: if_splits sum.splits
      intro!: kona_inv_accepted dest: kona_inv_levels [OF inv])

lemma kona_inv_remove_level:
  assumes inv: "kona_inv w"
  shows "kona_inv (fst (remove_level i l w))"
  unfolding remove_level_def
  by (auto simp: bind_eq_Some_conv inv split: if_splits
      intro!: kona_inv_accepted dest: kona_inv_levels [OF inv])

lemma kona_inv_revert:
  assumes inv: "kona_inv w"
  shows "kona_inv (fst (revert_edits w))"
proof (cases "kw_stock_table w")
  case (Some s)
  from kona_inv_edited [OF inv Some headers_kept_refl] Some show ?thesis
    by (auto simp: revert_edits_def elim!: kona_inv_cong)
qed (simp add: revert_edits_def inv)

lemma kona_inv_import:
  assumes inv: "kona_inv w" and w': "overwrite_edited_from_import export w = Inr w'"
  shows "kona_inv w'"
proof -
  from w' obtain i where "kw_selected_target_index w = Some i"
    by (auto simp: overwrite_edited_from_import_def selected_target_def bind_eq_Some_conv
        split: option.splits)
  with inv obtain s where s: "kw_stock_table w = Some s" by (auto simp: kona_inv_def)
  from w' s have "w' = w\<lparr>kw_edited_table := Some (merge_import (Some s) (export_table export)),
      kw_edited_dirty := (Some (merge_import (Some s) (export_table export)) \<noteq> kw_stock_table w)\<rparr>
      \<lparr>kw_cell_edits := []\<rparr>"
    by (auto simp: overwrite_edited_from_import_def Let_def split: option.splits if_splits)
  then show ?thesis
    by (simp only:) (intro kona_inv_drop_edits kona_inv_edited [OF inv s] merge_import_headers)
qed

section \<open>Reachable states\<close>

text \<open>
  Every message at any time, in any environment. The device trees of an inspection carry distinct
  indices, as those of every vendor-boot image do (\<open>inspect_gpu_index\<close>).
\<close>

definition msg_ok :: "konabess_msg \<Rightarrow> bool" where
  "msg_ok msg \<longleftrightarrow>
     (case msg of
        KonaInspectionReady _ infos \<Rightarrow> distinct (map dtb_index infos)
      | _ \<Rightarrow> True)"

inductive konabess_reach :: "konabess_wizard \<Rightarrow> bool" where
  init: "konabess_reach konabess_default"
| message: "konabess_reach w \<Longrightarrow> msg_ok msg \<Longrightarrow> konabess_reach (fst (update_konabess env msg w))"

lemma try_map_key:
  assumes "try_map f xs = Inr ys" and "\<And>x y. f x = Inr y \<Longrightarrow> h y = k x"
  shows "map h ys = map k xs"
  using assms(1)
proof (induction xs arbitrary: ys)
  case (Cons x xs)
  then show ?case using assms(2) by (auto simp: bind_r_Inr_iff)
qed simp

lemma inspect_raw_index:
  assumes "inspect_vendor_boot_dtbs_raw img = Inr infos"
  shows "distinct (map dtb_index infos)"
proof -
  obtain R blobs where f: "try_map (\<lambda>(index, r). bind_r (R r) (\<lambda>blob.
      bind_r (map_err VbFdt (parse_fdt_gpu_info blob)) (\<lambda>parsed. Inr (dtb_info_of index parsed))))
      (enumerate 0 (blobs :: range_parts list)) = Inr infos"
    using assms by (auto simp: inspect_vendor_boot_dtbs_raw_def bind_r_Inr_iff)
  have "map dtb_index infos = map fst (enumerate 0 blobs)"
    by (rule try_map_key [OF f]) (auto simp: bind_r_Inr_iff dtb_info_of_def)
  then show ?thesis by simp
qed

lemma distinct_map_filter: "distinct (map f xs) \<Longrightarrow> distinct (map f (filter P xs))"
  by (induction xs) auto

lemma inspect_gpu_index:
  assumes "inspect_vendor_boot_gpu_candidates img = Inr infos"
  shows "distinct (map dtb_index infos)"
  using assms inspect_raw_index distinct_map_filter
  by (fastforce simp: inspect_vendor_boot_gpu_candidates_def bind_r_Inr_iff)

lemmas konabess_frames = konabess_loader_chosen_def open_target_popup_def confirm_target_def
  dismiss_target_popup_def

lemma kona_inv_fields:
  assumes "kona_inv w"
  shows "kona_inv (w\<lparr>kw_step := n\<rparr>)" and "kona_inv (w\<lparr>kw_loader_path := l\<rparr>)"
    and "kona_inv (w\<lparr>kw_loader_error := e\<rparr>)" and "kona_inv (w\<lparr>kw_import_error := e\<rparr>)"
    and "kona_inv (w\<lparr>kw_import_path := l\<rparr>)" and "kona_inv (w\<lparr>kw_prepared := p\<rparr>)"
    and "kona_inv (w\<lparr>kw_target_popup_open := b\<rparr>)"
    and "kona_inv (w\<lparr>kw_target_popup_abandons_on_dismiss := b\<rparr>)"
  using assms by (auto elim!: kona_inv_cong)

lemma kona_inv_loader_chosen: "kona_inv w \<Longrightarrow> kona_inv (konabess_loader_chosen env picked w)"
  by (auto simp: konabess_loader_chosen_def elim!: kona_inv_cong split: option.split sum.split)

lemma kona_inv_import_chosen: "kona_inv w \<Longrightarrow> kona_inv (konabess_import_chosen env picked w)"
  by (auto simp: konabess_import_chosen_def kona_inv_fields kona_inv_import
      split: option.split sum.split konabess_import_error.split)

lemma kona_inv_cancel: "kona_inv w \<Longrightarrow> kona_inv (fst (cancel_konabess_inspection w))"
  by (auto simp: cancel_konabess_inspection_def kona_inv_fields kona_inv_cleanup split: option.split)

lemma kona_inv_dismiss: "kona_inv w \<Longrightarrow> kona_inv (fst (dismiss_target_popup w))"
  by (auto simp: dismiss_target_popup_def elim!: kona_inv_cong)

lemma kona_inv_on_next:
  assumes inv: "kona_inv w"
  shows "kona_inv (fst (konabess_on_next env w))"
  using inv
  by (auto simp: konabess_on_next_def Let_def kona_inv_fields kona_inv_cleanup konabess.next_unfold
      split: sum.split option.split)

lemma kona_inv_on_back:
  assumes "kona_inv w"
  shows "kona_inv (fst (konabess_on_back w))"
  using assms
  by (auto simp: konabess_on_back_def konabess_reset_def kona_inv_default wizard_back_def kona_inv_fields
      kona_inv_cancel kona_inv_dismiss)

lemma kona_inv_ready:
  assumes "kona_inv w" and "distinct (map dtb_index inspected)"
  shows "kona_inv (fst (konabess_inspection_ready env prepared inspected w))"
  using assms
  by (auto simp: konabess_inspection_ready_def Let_def kona_inv_fields kona_inv_cancel kona_inv_inspection)

lemma kona_inv_message:
  assumes inv: "kona_inv w" and ok: "msg_ok msg"
  shows "kona_inv (fst (update_konabess env msg w))"
proof (cases msg)
  case (KonaInspectionReady p infos)
  with ok have "distinct (map dtb_index infos)" by (simp add: msg_ok_def)
  with kona_inv_ready [OF inv] KonaInspectionReady show ?thesis by (simp add: update_konabess_def)
next
  case KonaTargetConfirm
  with inv show ?thesis
    by (auto simp: update_konabess_def confirm_target_def elim!: kona_inv_cong)
next
  case KonaOpenTarget
  with inv show ?thesis by (auto simp: update_konabess_def open_target_popup_def elim!: kona_inv_cong)
next
  case KonaTargetDismiss
  with kona_inv_dismiss [OF inv] kona_inv_cancel show ?thesis
    by (auto simp: update_konabess_def konabess_on_dismiss_def dismiss_target_popup_def Let_def)
qed (use inv in \<open>simp_all add: update_konabess_def kona_inv_loader_chosen kona_inv_import_chosen
    kona_inv_revert kona_inv_edit_cell kona_inv_add_level kona_inv_remove_level kona_inv_on_next
    kona_inv_on_back kona_inv_fields kona_inv_cleanup kona_inv_select\<close>)

lemma konabess_reach_inv: "konabess_reach w \<Longrightarrow> kona_inv w"
  by (induction rule: konabess_reach.induct) (auto simp: kona_inv_default kona_inv_message)

section \<open>The table that is flashed\<close>

lemma editor_validation_ok:
  assumes "\<not> has_hard_errors (editor_validation w)" and "kw_edited_table w = Some t"
  shows "table_ok t \<and> (\<forall>(key, edit) \<in> set (kw_cell_edits w). \<not> ce_has_error edit)"
proof -
  have "hard_errors (editor_validation w) = hard_errors (validate_gpu_table t) @
      map (\<lambda>(key, _). input_issue w key) (filter (\<lambda>(_, edit). ce_has_error edit) (kw_cell_edits w))"
    using assms(2) by (simp add: editor_validation_def Let_def split: option.split sum.split)
  with assms(1) show ?thesis
    by (auto simp: has_hard_errors_def validate_hard_Nil filter_empty_conv)
qed

lemma find_distinct_key:
  assumes "distinct (map f xs)" and "c \<in> set xs"
  shows "List.find (\<lambda>x. f x = f c) xs = Some c"
  using assms by (induction xs) auto

lemma flash_job_step:
  assumes "update_konabess env msg w = (w', Some (FlashTable loader prepared target_index chip table))"
  shows "msg = KonaNext \<and> kw_step w = 2 \<and> konabess_can_next w \<and> \<not> env_running env \<and>
    w' = w\<lparr>kw_step := 3\<rparr> \<and> kw_loader_path w = Some loader \<and> kw_prepared w = Some prepared \<and>
    kw_selected_target_index w = Some target_index \<and> selected_chip w = Some chip \<and>
    kw_edited_table w = Some table"
  using assms
  by (cases msg)
    (auto simp: update_konabess_def konabess_on_next_def konabess_on_back_def konabess_inspection_ready_def
      konabess_on_dismiss_def cancel_konabess_inspection_def Let_def konabess.next_unfold
      konabess_step_count_def KONABESS_STEPS_def
      split: if_splits sum.splits option.splits prod.splits)

text \<open>
  (C6) What is flashed is what was checked. In every state the handlers can reach, a message that
  starts the flash finds the wizard on its confirmation step with no operation running, and passes
  the index and the chip of one device tree of the last inspection together with a table that
  belongs to it: valid, typed without a pending input error, and with the group identities and all
  header values of that device tree (the initial indices aside, which follow the edited rows). The
  flag of unsaved changes tells exactly whether the table differs from the stock one.
\<close>

theorem konabess_flash_table_belongs:
  assumes "konabess_reach w"
    and "update_konabess env msg w = (w', Some (FlashTable loader prepared target_index chip table))"
  shows "kw_step w = 2 \<and> kw_step w' = 3 \<and> \<not> env_running env \<and>
    (\<exists>c \<in> set (kw_candidates w). \<exists>stock. dtb_index c = target_index \<and> dtb_chip c = Some chip \<and>
      dtb_table c = Some stock \<and> kw_stock_table w = Some stock \<and> headers_kept stock table \<and>
      (kw_edited_dirty w \<longleftrightarrow> table \<noteq> stock)) \<and>
    table_ok table \<and> (\<forall>(key, edit) \<in> set (kw_cell_edits w). \<not> ce_has_error edit)"
proof -
  have inv: "kona_inv w" by (rule konabess_reach_inv [OF assms(1)])
  note job = flash_job_step [OF assms(2)]
  from inv job obtain c stock where c: "c \<in> set (kw_candidates w)" "dtb_index c = target_index"
      "dtb_chip c \<noteq> None" "dtb_table c = Some stock" "kw_stock_table w = Some stock"
      "headers_kept stock table" and dirty: "kw_edited_dirty w \<longleftrightarrow> table \<noteq> stock"
      and d: "distinct (map dtb_index (kw_candidates w))"
    by (auto simp: kona_inv_def)
  have "selected_target w = Some c"
    using job find_distinct_key [OF d c(1)] c(2) by (simp add: selected_target_def)
  with job have chip: "dtb_chip c = Some chip" by (simp add: selected_chip_def)
  have "\<not> has_hard_errors (editor_validation w)" using job by (simp add: konabess_can_next_def Let_def)
  from editor_validation_ok [OF this] job
  have "table_ok table \<and> (\<forall>(key, edit) \<in> set (kw_cell_edits w). \<not> ce_has_error edit)" by simp
  with job c chip dirty show ?thesis by auto
qed

section \<open>A run\<close>

text \<open>One device tree is found and chosen; the table is confirmed as it is.\<close>

definition kona_sample_table :: gpu_table where
  "kona_sample_table = sample_table [sample_level 0 600000000, sample_level 2 300000000]"

definition kona_sample_env :: konabess_env where
  "kona_sample_env = \<lparr>env_konabess = True,
     env_validate_loader = (\<lambda>p. case p of None \<Rightarrow> Inl ''missing'' | Some l \<Rightarrow> Inr l),
     env_resolve_loader = Inr, env_loader_fits = (\<lambda>_. True), env_read_export = (\<lambda>_. Inl ''none''),
     env_text = (\<lambda>_. ''text''), env_running = False, env_updating = False\<rparr>"

definition kona_sample_prepared :: konabess_prepared where
  "kona_sample_prepared = \<lparr>kp_work_dir = ''w'', kp_vendor_boot = ''v'', kp_vbmeta = ''m'',
     kp_backup_dir = ''b'', kp_slot_suffix = ''_a'', kp_probable_dtb_index = None\<rparr>"

definition kona_sample_tree :: vendor_boot_dtb_info where
  "kona_sample_tree = \<lparr>dtb_index = 1, dtb_model = None, dtb_chip = Some ''sun'', dtb_shape = None,
     dtb_table = Some kona_sample_table\<rparr>"

definition kona_sample_state :: "nat \<Rightarrow> konabess_wizard" where
  "kona_sample_state n = konabess_default\<lparr>kw_step := n, kw_loader_path := Some ''l'',
     kw_stock_table := Some kona_sample_table, kw_edited_table := Some kona_sample_table,
     kw_candidates := [kona_sample_tree], kw_selected_target_index := Some 1,
     kw_target_popup_open := True, kw_target_popup_abandons_on_dismiss := True,
     kw_prepared := Some kona_sample_prepared\<rparr>"

lemma kona_sample_can_next:
  assumes "n = 1 \<or> n = 2"
  shows "konabess_can_next (kona_sample_state n)"
proof -
  have "hard_errors (validate_gpu_table kona_sample_table) = []"
    unfolding validate_hard_Nil kona_sample_table_def by (rule sample_table_ok)
  then have "\<not> has_hard_errors (editor_validation (kona_sample_state n))"
    by (simp add: editor_validation_def kona_sample_state_def konabess_default_def has_hard_errors_def
        Let_def split: sum.split)
  with assms show ?thesis
    by (auto simp: konabess_can_next_def kona_sample_state_def konabess_default_def selected_chip_def
        selected_target_def kona_sample_tree_def Let_def)
qed

lemma kona_sample_reach: "konabess_reach (kona_sample_state 2)"
proof -
  let ?u = "\<lambda>m w. fst (update_konabess kona_sample_env m w)"
  have 1: "?u (KonaLoaderChosen (Some ''l'')) konabess_default = konabess_default\<lparr>kw_loader_path := Some ''l''\<rparr>"
    by (simp add: update_konabess_def kona_sample_env_def konabess_loader_chosen_def konabess_default_def)
  have 2: "?u (KonaTargetSelected 1) (?u (KonaInspectionReady kona_sample_prepared [kona_sample_tree])
      (konabess_default\<lparr>kw_loader_path := Some ''l''\<rparr>)) = kona_sample_state 1"
    by (simp add: update_konabess_def kona_sample_env_def konabess_inspection_ready_def
        apply_inspection_result_def clear_table_selection_def select_target_def kona_sample_state_def
        kona_sample_tree_def kona_sample_prepared_def konabess_default_def Let_def)
  have 3: "?u KonaNext (kona_sample_state 1) = kona_sample_state 2"
    using kona_sample_can_next [of 1]
    by (simp add: update_konabess_def kona_sample_env_def konabess_on_next_def konabess.next_unfold
        konabess_step_count_def KONABESS_STEPS_def kona_sample_state_def konabess_default_def)
  note step = konabess_reach.message [where env = kona_sample_env]
  have ok: "msg_ok (KonaLoaderChosen (Some ''l''))" "msg_ok (KonaTargetSelected 1)" "msg_ok KonaNext"
    "msg_ok (KonaInspectionReady kona_sample_prepared [kona_sample_tree])"
    by (simp_all add: msg_ok_def)
  from step [OF step [OF step [OF step [OF konabess_reach.init ok(1)] ok(4)] ok(2)] ok(3)]
  show ?thesis unfolding 1 2 3 .
qed

theorem konabess_flash_table_belongs_witness:
  "update_konabess kona_sample_env KonaNext (kona_sample_state 2) = (kona_sample_state 3,
      Some (FlashTable ''l'' kona_sample_prepared 1 ''sun'' kona_sample_table)) \<and>
    table_ok kona_sample_table"
proof -
  have job: "update_konabess kona_sample_env KonaNext (kona_sample_state 2) = (kona_sample_state 3,
      Some (FlashTable ''l'' kona_sample_prepared 1 ''sun'' kona_sample_table))"
    using kona_sample_can_next [of 2]
    by (simp add: update_konabess_def kona_sample_env_def konabess_on_next_def konabess.next_unfold
        konabess_step_count_def KONABESS_STEPS_def kona_sample_state_def konabess_default_def
        selected_chip_def selected_target_def kona_sample_tree_def)
  from konabess_flash_table_belongs [OF kona_sample_reach job] job show ?thesis by simp
qed

end
