(* ===== verification/Kona_Freq.thy ===== *)
theory Kona_Freq
  imports Kona_Props
begin

text \<open>
  The frequencies of the KonaBess editor: the text shown for a stored frequency in Hz is read back as
  the same frequency, for every 32-bit value. Below it, facts on digit strings: leading zeros do not
  change a value and trailing zeros scale it.
\<close>

section \<open>Digit strings\<close>

lemma cell_value_digits:
  assumes "s \<noteq> []" and "\<forall>c \<in> set s. is_ascii_digit c" and "parse_digits 10 0 s = Some n"
  shows "cell_value s = Some (of_nat n)"
proof -
  have "clean_line s" using assms(1,2) by (auto intro: digits_clean digit_solid)
  then have t: "trim_ws s = s" by (rule trim_clean)
  have hex: "\<not> prefix ''0x'' s" "\<not> prefix ''0X'' s"
    using assms(2) by (auto simp: prefix_def is_ascii_digit_def)
  have sign: "s \<noteq> ''+''" "s \<noteq> ''-''" "hd s \<noteq> CHR ''+''"
    using assms(1,2) by (cases s; force simp: is_ascii_digit_def)+
  show ?thesis
    using assms(1,3) hex sign
    by (simp add: cell_value_def parse_gpu_cell_def t strip_prefix_def u32_from_str_radix_def)
qed

lemma zero_digit: "to_digit 10 CHR ''0'' = Some 0"
  by (simp add: to_digit_def)

lemma parse_leading_zeros: "parse_digits 10 0 (replicate k CHR ''0'' @ s) = parse_digits 10 0 s"
  by (induction k) (simp_all add: zero_digit)

lemma parse_trailing_zeros:
  "parse_digits 10 a (replicate k CHR ''0'') = Some n \<Longrightarrow> n = a * 10 ^ k"
proof (induction k arbitrary: a)
  case (Suc k)
  then have "n = a * 10 * 10 ^ k" by (auto simp: zero_digit split: if_splits)
  then show ?case by simp
qed simp

lemma length_dec: "n < 10 ^ Suc k \<Longrightarrow> length (dec n) \<le> Suc k"
proof (induction k arbitrary: n)
  case 0
  then show ?case by (subst dec.simps) simp
next
  case (Suc k)
  then have "n div 10 < 10 ^ Suc k" by (simp add: less_mult_imp_div_less mult.commute)
  then have "length (dec (n div 10)) \<le> Suc k" by (rule Suc.IH)
  then show ?case by (subst dec.simps) simp
qed

lemma pad6:
  assumes "n < 1000000"
  shows "length (pad6 n) = 6" and "\<forall>c \<in> set (pad6 n). is_ascii_digit c"
    and "parse_digits 10 0 (pad6 n) = Some n"
proof -
  show "length (pad6 n) = 6" using length_dec [of n 5] assms by (simp add: pad6_def)
  have "is_ascii_digit CHR ''0''" by (simp add: is_ascii_digit_def)
  then show "\<forall>c \<in> set (pad6 n). is_ascii_digit c"
    using dec_digits [of _ n] by (auto simp: pad6_def)
  show "parse_digits 10 0 (pad6 n) = Some n"
    using assms by (simp add: pad6_def parse_leading_zeros parse_digits_dec)
qed

lemma trim_end_zeros_split:
  obtains k where "s = trim_end_zeros s @ replicate k CHR ''0''"
proof
  let ?z = "takeWhile (\<lambda>c. c = CHR ''0'') (rev s)"
  have "?z = replicate (length ?z) CHR ''0''"
    by (rule sym, rule replicate_length_same) (auto dest: set_takeWhileD)
  then have "rev ?z = replicate (length ?z) CHR ''0''" by (metis rev_replicate)
  moreover have "s = rev (dropWhile (\<lambda>c. c = CHR ''0'') (rev s)) @ rev ?z"
    by (metis rev_append rev_rev_ident takeWhile_dropWhile_id)
  ultimately show "s = trim_end_zeros s @ replicate (length ?z) CHR ''0''"
    by (simp add: trim_end_zeros_def)
qed

lemma trim_end_zeros_idem [simp]: "trim_end_zeros (trim_end_zeros s) = trim_end_zeros s"
  by (simp add: trim_end_zeros_def)

lemma trim_end_zeros_append:
  assumes "trim_end_zeros t \<noteq> []"
  shows "trim_end_zeros (s @ t) = s @ trim_end_zeros t"
proof -
  have "\<exists>c \<in> set (rev t). c \<noteq> CHR ''0''"
    using assms by (auto simp: trim_end_zeros_def dropWhile_eq_Nil_conv)
  then show ?thesis by (auto simp: trim_end_zeros_def)
qed

section \<open>Both notations\<close>

lemma split_once_dot:
  assumes "CHR ''.'' \<notin> set a"
  shows "split_once ''.'' (a @ ''.'' @ b) = Some (a, b)" and "split_once ''.'' a = None"
  using assms by (induction a) auto

lemma solid_dot: "solid CHR ''.''"
  by (simp add: solid_def)

lemma no_dot: "\<forall>c \<in> set s. is_ascii_digit c \<Longrightarrow> CHR ''.'' \<notin> set s"
  by (auto simp: is_ascii_digit_def)

lemma filter_dot: "\<forall>c \<in> set s. is_ascii_digit c \<Longrightarrow> filter (\<lambda>c. c = CHR ''.'') s = []"
  using no_dot [of s] by (auto simp: filter_empty_conv)

lemma cell_value_dec32: "cell_value (dec32 v) = Some v"
proof -
  have "unat v < 2 ^ 32" using unsigned_less [of v] by simp
  then have "parse_digits 10 0 (dec32 v) = Some (unat v)" unfolding dec32_def by (rule parse_digits_dec)
  moreover have "\<forall>c \<in> set (dec32 v). is_ascii_digit c" using dec_digits by (auto simp: dec32_def)
  ultimately show ?thesis using cell_value_digits [of "dec32 v" "unat v"] by (simp add: dec32_def)
qed

lemma freq_split:
  fixes f :: u32
  shows "unat (f div HZ_PER_MHZ) = unat f div 1000000" and "unat (f mod HZ_PER_MHZ) = unat f mod 1000000"
    and "checked_mul (f div HZ_PER_MHZ) HZ_PER_MHZ = Some (f div HZ_PER_MHZ * HZ_PER_MHZ)"
    and "unat (f div HZ_PER_MHZ * HZ_PER_MHZ) = unat f div 1000000 * 1000000"
proof -
  show d: "unat (f div HZ_PER_MHZ) = unat f div 1000000" "unat (f mod HZ_PER_MHZ) = unat f mod 1000000"
    by (simp_all add: HZ_PER_MHZ_def unat_div unat_mod)
  have "unat f div 1000000 * 1000000 \<le> unat f" by (rule div_times_less_eq_dividend)
  moreover have "unat f < 2 ^ 32" using unsigned_less [of f] by simp
  ultimately have b: "unat f div 1000000 * 1000000 < 2 ^ 32" by linarith
  then show "checked_mul (f div HZ_PER_MHZ) HZ_PER_MHZ = Some (f div HZ_PER_MHZ * HZ_PER_MHZ)"
    by (simp add: checked_mul_def d(1)) (simp add: HZ_PER_MHZ_def)
  have "unat (HZ_PER_MHZ :: u32) = 1000000" by (simp add: HZ_PER_MHZ_def)
  with b d(1) show "unat (f div HZ_PER_MHZ * HZ_PER_MHZ) = unat f div 1000000 * 1000000"
    by (simp add: unat_mult_lem [THEN iffD1])
qed

lemma unat_u32: "n < 4294967296 \<Longrightarrow> unat (of_nat n :: u32) = n"
  by (simp add: unat_of_nat)

text \<open>The digits after the point, read and scaled.\<close>

lemma fraction_reads_back:
  assumes "0 < n" and "n < 1000000"
  defines "sig \<equiv> trim_end_zeros (pad6 n)"
  shows "sig \<noteq> [] \<and> length sig \<le> 6 \<and> (\<forall>c \<in> set sig. is_ascii_digit c) \<and>
    Option.bind (cell_value sig) (\<lambda>p. checked_mul p (10 ^ (6 - length sig))) = Some (of_nat n)"
proof -
  note P = pad6 [OF assms(2)]
  obtain k where k: "pad6 n = sig @ replicate k CHR ''0''"
    unfolding sig_def by (rule trim_end_zeros_split)
  with P(1) have len: "length sig + k = 6" by (metis length_append length_replicate)
  from P(3) k obtain v where v: "parse_digits 10 0 sig = Some v"
    "parse_digits 10 v (replicate k CHR ''0'') = Some n"
    by (auto simp: parse_digits_append bind_eq_Some_conv)
  then have n: "n = v * 10 ^ k" by (blast dest: parse_trailing_zeros)
  have ne: "sig \<noteq> []" using v(1) n assms(1) by auto
  have dg: "\<forall>c \<in> set sig. is_ascii_digit c" using P(2) k by simp
  have c: "cell_value sig = Some (of_nat v)" by (rule cell_value_digits [OF ne dg v(1)])
  have "(10 :: nat) ^ k \<le> 10 ^ 6" using len by (intro power_increasing) simp_all
  moreover have "v \<le> n" using n by simp
  ultimately have "v \<le> n" "10 ^ k \<le> (1000000 :: nat)" by simp_all
  then have "unat (of_nat (10 ^ k) :: u32) = 10 ^ k" and u: "unat (of_nat v :: u32) = v"
    using assms(2) by (intro unat_u32; linarith)+
  then have t: "unat (10 ^ k :: u32) = 10 ^ k" by simp
  have "checked_mul (of_nat v) (10 ^ k) = Some (of_nat n)"
    using assms(2) n by (simp add: checked_mul_def u t)
  with len c ne dg show ?thesis by (simp add: eq_diff_iff [symmetric] flip: len)
qed

text \<open>
  (C7) The frequency field of the editor shows what is stored: reading the text that the editor
  prints for a stored frequency (MHz, with as many decimals as needed) gives the same number of Hz,
  for every 32-bit value, so showing a cell and committing it unchanged changes nothing.
\<close>

theorem gpu_frequency_reads_back: "parse_gpu_frequency_mhz (format_gpu_frequency_mhz f) = Some f"
proof (cases "f mod HZ_PER_MHZ = 0")
  case True
  have d: "\<forall>c \<in> set (dec32 (f div HZ_PER_MHZ)). is_ascii_digit c" using dec_digits by (auto simp: dec32_def)
  then have "trim_ws (dec32 (f div HZ_PER_MHZ)) = dec32 (f div HZ_PER_MHZ)"
    by (intro trim_clean digits_clean) (auto simp: dec32_def intro: digit_solid)
  moreover have "f div HZ_PER_MHZ * HZ_PER_MHZ = f"
    using True by (metis add.right_neutral word_mod_div_equality)
  ultimately show ?thesis
    using True split_once_dot(2) [OF no_dot [OF d]]
    by (simp add: format_gpu_frequency_mhz_def parse_gpu_frequency_mhz_def cell_value_dec32 freq_split)
next
  case False
  define n where "n = unat f mod 1000000"
  define sig where "sig = trim_end_zeros (pad6 n)"
  let ?w = "dec32 (f div HZ_PER_MHZ)"
  have n: "0 < n" "n < 1000000"
    using False freq_split(2) [of f] unat_eq_0 [of "f mod HZ_PER_MHZ"] by (simp_all add: n_def)
  note S = fraction_reads_back [OF n, folded sig_def]
  have d: "\<forall>c \<in> set ?w. is_ascii_digit c" "?w \<noteq> []" using dec_digits by (auto simp: dec32_def)
  have fmt: "format_gpu_frequency_mhz f = ?w @ ''.'' @ sig"
    using False S freq_split(2) [of f] trim_end_zeros_append [of "pad6 n" "?w @ ''.''"]
    by (simp add: format_gpu_frequency_mhz_def n_def sig_def)
  have t: "trim_ws (?w @ ''.'' @ sig) = ?w @ ''.'' @ sig"
    using d S solid_dot by (intro trim_clean digits_clean) (auto intro: digit_solid)
  have hex: "\<not> prefix ''0x'' ?w" "\<not> prefix ''0X'' ?w" using d(1) by (auto simp: prefix_def is_ascii_digit_def)
  have dots: "filter (\<lambda>c. c = CHR ''.'') (?w @ ''.'' @ sig) = [CHR ''.'']"
    using filter_dot [OF d(1)] S filter_dot [of sig] by simp
  have "unat (f div HZ_PER_MHZ * HZ_PER_MHZ) + n = unat f"
    by (simp add: freq_split n_def)
  moreover have "unat (of_nat n :: u32) = n" using n(2) by (simp add: unat_u32)
  ultimately have add: "checked_add32 (f div HZ_PER_MHZ * HZ_PER_MHZ) (of_nat n) = Some f"
    using unsigned_less [of f] by (simp add: checked_add32_def word_unat_eq_iff unat_word_ariths)
  show ?thesis
    unfolding fmt parse_gpu_frequency_mhz_def t Let_def
    using split_once_dot(1) [OF no_dot [OF d(1)], of sig] S hex dots add
    by (simp add: list_all_iff cell_value_dec32 freq_split sig_def)
qed

end
