(* ===== verification/Stable_Sort.thy ===== *)
theory Stable_Sort
  imports Prelude "HOL-Library.Multiset"
begin

text \<open>
  \<open>slice::sort_by\<close> of the standard library: a stable sort by a comparison function. Its contract needs
  the comparison to be a total preorder; the locale \<open>total_cmp\<close> holds that assumption, and what
  follows from it: the result is sorted, stable, a permutation, and determined by these.
\<close>

section \<open>Comparisons\<close>

datatype cmp_ordering = CmpLess | CmpEqual | CmpGreater

fun reverse_ord :: "cmp_ordering \<Rightarrow> cmp_ordering" where
  "reverse_ord CmpLess = CmpGreater"
| "reverse_ord CmpEqual = CmpEqual"
| "reverse_ord CmpGreater = CmpLess"

fun then_with :: "cmp_ordering \<Rightarrow> cmp_ordering \<Rightarrow> cmp_ordering" where
  "then_with CmpEqual c = c"
| "then_with c _ = c"

definition cmp_by :: "('a \<Rightarrow> 'k :: linorder) \<Rightarrow> 'a \<Rightarrow> 'a \<Rightarrow> cmp_ordering" where
  "cmp_by f a b = (if f a < f b then CmpLess else if f a = f b then CmpEqual else CmpGreater)"

definition cmp_le :: "('a \<Rightarrow> 'a \<Rightarrow> cmp_ordering) \<Rightarrow> 'a \<Rightarrow> 'a \<Rightarrow> bool" where
  "cmp_le c a b \<longleftrightarrow> c a b \<noteq> CmpGreater"

fun insert_by :: "('a \<Rightarrow> 'a \<Rightarrow> cmp_ordering) \<Rightarrow> 'a \<Rightarrow> 'a list \<Rightarrow> 'a list" where
  "insert_by c x [] = [x]"
| "insert_by c x (y # ys) = (if cmp_le c x y then x # y # ys else y # insert_by c x ys)"

definition sort_by :: "('a \<Rightarrow> 'a \<Rightarrow> cmp_ordering) \<Rightarrow> 'a list \<Rightarrow> 'a list" where
  "sort_by c xs = foldr (insert_by c) xs []"

section \<open>The contract\<close>

locale total_cmp =
  fixes c :: "'a \<Rightarrow> 'a \<Rightarrow> cmp_ordering"
  assumes anti: "c b a = reverse_ord (c a b)"
    and trans: "cmp_le c a b \<Longrightarrow> cmp_le c b d \<Longrightarrow> cmp_le c a d"
begin

lemma refl: "c a a = CmpEqual"
  using anti [of a a] by (cases "c a a") auto

lemma total: "cmp_le c a b \<or> cmp_le c b a"
  using anti [of b a] by (cases "c a b") (auto simp: cmp_le_def)

lemma equal_iff: "c a b = CmpEqual \<longleftrightarrow> cmp_le c a b \<and> cmp_le c b a"
  using anti [of b a] by (cases "c a b") (auto simp: cmp_le_def)

lemma mset_insert_by: "mset (insert_by c x ys) = add_mset x (mset ys)"
  by (induction ys) auto

lemma mset_sort_by: "mset (sort_by c xs) = mset xs"
  by (induction xs) (simp_all add: sort_by_def mset_insert_by)

lemma set_insert_by: "set (insert_by c x ys) = insert x (set ys)"
  by (induction ys) auto

lemma sorted_insert_by:
  assumes "sorted_wrt (cmp_le c) ys"
  shows "sorted_wrt (cmp_le c) (insert_by c x ys)"
  using assms
proof (induction ys)
  case (Cons y ys)
  show ?case
  proof (cases "cmp_le c x y")
    case True
    with Cons.prems show ?thesis by (auto intro: trans)
  next
    case False
    then have "cmp_le c y x" using total by blast
    with Cons False show ?thesis by (simp add: set_insert_by)
  qed
qed simp

lemma sorted_sort_by: "sorted_wrt (cmp_le c) (sort_by c xs)"
  by (induction xs) (simp_all add: sort_by_def sorted_insert_by)

text \<open>Stability: equal elements keep their order.\<close>

lemma equal_le: "c z x = CmpEqual \<Longrightarrow> c z y = CmpEqual \<Longrightarrow> cmp_le c x y"
  by (auto simp: equal_iff intro: trans)

lemma filter_insert_by:
  "filter (\<lambda>y. c z y = CmpEqual) (insert_by c x ys) =
    (if c z x = CmpEqual then [x] else []) @ filter (\<lambda>y. c z y = CmpEqual) ys"
  by (induction ys) (auto dest: equal_le)

lemma filter_sort_by:
  "filter (\<lambda>y. c z y = CmpEqual) (sort_by c xs) = filter (\<lambda>y. c z y = CmpEqual) xs"
  by (induction xs) (simp_all add: sort_by_def filter_insert_by)

lemma sorted_unique:
  assumes "sorted_wrt (cmp_le c) xs" and "sorted_wrt (cmp_le c) ys"
    and "\<And>z. filter (\<lambda>y. c z y = CmpEqual) xs = filter (\<lambda>y. c z y = CmpEqual) ys"
  shows "xs = ys"
  using assms
proof (induction xs arbitrary: ys)
  case Nil
  have "ys = []"
  proof (cases ys)
    case (Cons y ys')
    with Nil.prems(3) [of y] show ?thesis by (simp add: refl)
  qed
  then show ?case by simp
next
  case (Cons x xs)
  note same = Cons.prems(3)
  obtain y ys' where ys: "ys = y # ys'"
    using same [of x] by (cases ys) (auto simp: refl)
  have "\<exists>z \<in> set ys. c x z = CmpEqual"
    using arg_cong [OF same [of x], of set] by (auto simp: refl)
  then obtain z where z: "z \<in> set ys" "c x z = CmpEqual" by blast
  then have "cmp_le c y z" using Cons.prems(2) ys refl [of y] by (auto simp: cmp_le_def)
  then have yx: "cmp_le c y x" using z(2) by (auto simp: equal_iff intro: trans)
  have "\<exists>z \<in> set (x # xs). c y z = CmpEqual"
    using arg_cong [OF same [of y], of set] ys by (auto simp: refl split: if_splits)
  then obtain v where v: "v \<in> set (x # xs)" "c y v = CmpEqual" by blast
  then have "cmp_le c x v" using Cons.prems(1) refl [of x] by (auto simp: cmp_le_def)
  then have "cmp_le c x y" using v(2) by (auto simp: equal_iff intro: trans)
  with yx have "c x y = CmpEqual" by (simp add: equal_iff)
  with same [of x] ys have xy: "x = y" by (simp add: refl)
  have "filter (\<lambda>u. c z u = CmpEqual) xs = filter (\<lambda>u. c z u = CmpEqual) ys'" for z
    using same [of z] ys xy by (simp split: if_splits)
  then have "xs = ys'" using Cons.prems(1,2) ys by (intro Cons.IH) simp_all
  with xy ys show ?case by simp
qed

lemma sort_by_sorted:
  assumes "sorted_wrt (cmp_le c) xs" and "\<And>z. filter (\<lambda>y. c z y = CmpEqual) xs = filter (\<lambda>y. c z y = CmpEqual) ys"
  shows "sort_by c ys = xs"
  by (rule sorted_unique [OF sorted_sort_by assms(1)]) (simp add: filter_sort_by assms(2))

end

section \<open>Building comparisons\<close>

lemma total_cmp_by: "total_cmp (cmp_by f)"
  by unfold_locales (auto simp: cmp_by_def cmp_le_def split: if_splits)

lemma total_cmp_reverse:
  assumes "total_cmp d"
  shows "total_cmp (\<lambda>a b. reverse_ord (d a b))"
proof -
  have le: "cmp_le (\<lambda>a b. reverse_ord (d a b)) a b \<longleftrightarrow> cmp_le d b a" for a b
    using total_cmp.anti [OF assms, of b a] by (cases "d b a") (auto simp: cmp_le_def)
  show ?thesis
    by unfold_locales
      (simp_all only: le, metis total_cmp.anti [OF assms], metis total_cmp.trans [OF assms])
qed

lemma then_with_le:
  "cmp_le (\<lambda>a b. then_with (d a b) (e a b)) a b \<longleftrightarrow>
    d a b = CmpLess \<or> d a b = CmpEqual \<and> cmp_le e a b"
  by (cases "d a b") (simp_all add: cmp_le_def)

lemma reverse_then: "reverse_ord (then_with o1 o2) = then_with (reverse_ord o1) (reverse_ord o2)"
  by (cases o1) simp_all

lemma total_cmp_then:
  assumes d: "total_cmp d" and e: "total_cmp e"
  shows "total_cmp (\<lambda>a b. then_with (d a b) (e a b))"
proof
  fix a b x
  show "then_with (d b a) (e b a) = reverse_ord (then_with (d a b) (e a b))"
    using total_cmp.anti [OF d, of b a] total_cmp.anti [OF e, of b a] by (simp add: reverse_then)
  have less: "d u v = CmpLess \<longleftrightarrow> cmp_le d u v \<and> \<not> cmp_le d v u" for u v
    using total_cmp.anti [OF d, of v u] by (cases "d u v") (auto simp: cmp_le_def)
  assume "cmp_le (\<lambda>a b. then_with (d a b) (e a b)) a b" "cmp_le (\<lambda>a b. then_with (d a b) (e a b)) b x"
  then show "cmp_le (\<lambda>a b. then_with (d a b) (e a b)) a x"
    unfolding then_with_le less total_cmp.equal_iff [OF d]
    using total_cmp.trans [OF d] total_cmp.trans [OF e] by blast
qed

end
