(* ===== verification/Parts_Wizard.thy ===== *)
theory Parts_Wizard
  imports Wizards Stable_Sort "HOL-Library.List_Lexorder"
begin

text \<open>
  The partition wizards (\<open>model/wizard.rs\<close>) and their message handlers (\<open>update/advanced.rs\<close>): the
  table of the partitions that a scan of the device found, its sorting, the choice of the rows and
  the rows that a run writes, erases or reads. Jobs on the device are values; the loader check and
  the state of the connection are arguments.
\<close>

section \<open>Rows\<close>

datatype connection_status = Disconnected | Adb | AdbRecovery | AdbUnauthorized | AdbSideload
  | AdbServerBlocking | Fastboot
  | Edl

datatype flash_row_state = Unchecked | FlashRow | EraseRow

fun cycle :: "flash_row_state \<Rightarrow> flash_row_state" where
  "cycle Unchecked = FlashRow"
| "cycle FlashRow = EraseRow"
| "cycle EraseRow = Unchecked"

text \<open>The fields that the two row types share, and the two row types.\<close>

record part_entry =
  pe_lun :: byte
  pe_label :: string
  pe_start_sector :: u64
  pe_num_sectors :: u64
  pe_size_bytes :: u64

record flash_part_row = part_entry +
  fr_file_path :: "string option"
  fr_state :: flash_row_state

record dump_part_row = part_entry +
  dr_selected :: bool

datatype parts_sort_column = ByLun | ByLabel | ByStart | BySize | ByFile

text \<open>Strings compare by their bytes.\<close>

definition cmp_str :: "('a \<Rightarrow> string) \<Rightarrow> 'a \<Rightarrow> 'a \<Rightarrow> cmp_ordering" where
  "cmp_str f = cmp_by (\<lambda>x. as_bytes (f x))"

definition entry_cmp :: "('a part_entry_scheme \<Rightarrow> 'a part_entry_scheme \<Rightarrow> cmp_ordering) \<Rightarrow>
    parts_sort_column \<Rightarrow> bool \<Rightarrow> 'a part_entry_scheme \<Rightarrow> 'a part_entry_scheme \<Rightarrow> cmp_ordering" where
  "entry_cmp file_cmp col desc a b =
     (let first = (case col of
            ByLun \<Rightarrow> cmp_by pe_lun a b
          | ByLabel \<Rightarrow> cmp_str pe_label a b
          | ByStart \<Rightarrow> cmp_by pe_start_sector a b
          | BySize \<Rightarrow> cmp_by pe_size_bytes a b
          | ByFile \<Rightarrow> file_cmp a b);
          ord = then_with first (then_with (cmp_by pe_lun a b) (cmp_str pe_label a b))
      in if desc then reverse_ord ord else ord)"

definition flash_row_cmp ::
    "parts_sort_column \<Rightarrow> bool \<Rightarrow> flash_part_row \<Rightarrow> flash_part_row \<Rightarrow> cmp_ordering" where
  "flash_row_cmp =
     entry_cmp (cmp_str (\<lambda>r. case fr_file_path r of None \<Rightarrow> [] | Some p \<Rightarrow> p))"

definition dump_row_cmp ::
    "parts_sort_column \<Rightarrow> bool \<Rightarrow> dump_part_row \<Rightarrow> dump_part_row \<Rightarrow> cmp_ordering" where
  "dump_row_cmp = entry_cmp (cmp_by pe_lun)"

lemma total_entry_cmp:
  assumes "total_cmp file_cmp"
  shows "total_cmp (entry_cmp file_cmp col desc)"
proof -
  have tail: "total_cmp (\<lambda>a b. then_with (cmp_by pe_lun a b) (cmp_str pe_label a b))"
    unfolding cmp_str_def by (intro total_cmp_then total_cmp_by)
  have col: "total_cmp (\<lambda>a b. case col of ByLun \<Rightarrow> cmp_by pe_lun a b | ByLabel \<Rightarrow> cmp_str pe_label a b
      | ByStart \<Rightarrow> cmp_by pe_start_sector a b | BySize \<Rightarrow> cmp_by pe_size_bytes a b
      | ByFile \<Rightarrow> file_cmp a b)"
    by (cases col) (simp_all add: cmp_str_def total_cmp_by assms)
  show ?thesis
    using total_cmp_then [OF col tail] total_cmp_reverse [OF total_cmp_then [OF col tail]]
    by (cases desc) (simp_all add: entry_cmp_def [abs_def] Let_def)
qed

interpretation flash_rows: total_cmp "flash_row_cmp col desc" for col desc
  unfolding flash_row_cmp_def cmp_str_def by (rule total_entry_cmp [OF total_cmp_by])

interpretation dump_rows: total_cmp "dump_row_cmp col desc" for col desc
  unfolding dump_row_cmp_def by (rule total_entry_cmp [OF total_cmp_by])

lemma flash_row_cmp_reverse: "flash_row_cmp col (\<not> desc) a b = reverse_ord (flash_row_cmp col desc a b)"
proof -
  have "reverse_ord (reverse_ord x) = x" for x by (cases x) simp_all
  then show ?thesis by (simp add: flash_row_cmp_def entry_cmp_def Let_def)
qed

section \<open>Writing partitions\<close>

record flash_parts_wizard =
  fp_step :: nat
  fp_loader_path :: "string option"
  fp_loader_error :: "string option"
  fp_rows :: "flash_part_row list"
  fp_scanning :: bool
  fp_scan_error :: "string option"
  fp_entry_connection :: "connection_status option"
  fp_sort_col :: parts_sort_column
  fp_sort_desc :: bool

definition flash_parts_default :: flash_parts_wizard where
  "flash_parts_default = \<lparr>fp_step = 0, fp_loader_path = None, fp_loader_error = None, fp_rows = [],
     fp_scanning = False, fp_scan_error = None, fp_entry_connection = None, fp_sort_col = ByLun,
     fp_sort_desc = False\<rparr>"

definition FLASH_PARTS_STEPS :: "string list" where
  "FLASH_PARTS_STEPS = [''edl_loader_label'', ''flash_parts_step_select'', ''flash_step_confirm'',
     ''flash_step_flash'']"

definition row_is_active :: "flash_part_row \<Rightarrow> bool" where
  "row_is_active r =
     (case fr_state r of
        FlashRow \<Rightarrow> fr_file_path r \<noteq> None
      | EraseRow \<Rightarrow> True
      | Unchecked \<Rightarrow> False)"

definition active_rows :: "flash_parts_wizard \<Rightarrow> flash_part_row list" where
  "active_rows w = filter row_is_active (fp_rows w)"

definition flash_apply_sort :: "flash_parts_wizard \<Rightarrow> flash_parts_wizard" where
  "flash_apply_sort w = w\<lparr>fp_rows := sort_by (flash_row_cmp (fp_sort_col w) (fp_sort_desc w)) (fp_rows w)\<rparr>"

definition flash_toggle_sort :: "parts_sort_column \<Rightarrow> flash_parts_wizard \<Rightarrow> flash_parts_wizard" where
  "flash_toggle_sort col w =
     flash_apply_sort
       (if fp_sort_col w = col then w\<lparr>fp_sort_desc := \<not> fp_sort_desc w\<rparr>
        else w\<lparr>fp_sort_col := col, fp_sort_desc := False\<rparr>)"

definition flash_parts_step_count :: "flash_parts_wizard \<Rightarrow> nat" where
  "flash_parts_step_count w = length FLASH_PARTS_STEPS"

definition flash_parts_can_next :: "flash_parts_wizard \<Rightarrow> bool" where
  "flash_parts_can_next w =
     (let s = fp_step w in
      if s = 0 then fp_loader_path w \<noteq> None \<and> fp_loader_error w = None \<and> \<not> fp_scanning w
      else if s = 1 then list_ex row_is_active (fp_rows w)
      else s = 2)"

interpretation flash_parts: linear_wizard fp_step "\<lambda>n w. w\<lparr>fp_step := n\<rparr>" flash_parts_step_count
  by unfold_locales (simp_all add: flash_parts_step_count_def FLASH_PARTS_STEPS_def)

abbreviation flash_parts_next :: "flash_parts_wizard \<Rightarrow> flash_parts_wizard" where
  "flash_parts_next \<equiv> wizard_next fp_step (\<lambda>n w. w\<lparr>fp_step := n\<rparr>) flash_parts_step_count"

abbreviation flash_parts_back :: "flash_parts_wizard \<Rightarrow> flash_parts_wizard" where
  "flash_parts_back \<equiv> wizard_back fp_step (\<lambda>n w. w\<lparr>fp_step := n\<rparr>)"

section \<open>Reading partitions\<close>

record dump_parts_wizard =
  dp_step :: nat
  dp_loader_path :: "string option"
  dp_loader_error :: "string option"
  dp_rows :: "dump_part_row list"
  dp_output_dir :: "string option"
  dp_scanning :: bool
  dp_scan_error :: "string option"
  dp_entry_connection :: "connection_status option"
  dp_sort_col :: parts_sort_column
  dp_sort_desc :: bool

definition dump_parts_default :: dump_parts_wizard where
  "dump_parts_default = \<lparr>dp_step = 0, dp_loader_path = None, dp_loader_error = None, dp_rows = [],
     dp_output_dir = None, dp_scanning = False, dp_scan_error = None, dp_entry_connection = None,
     dp_sort_col = ByLun, dp_sort_desc = False\<rparr>"

definition DUMP_PARTS_STEPS :: "string list" where
  "DUMP_PARTS_STEPS = [''edl_loader_label'', ''dump_parts_step_select'', ''dump_parts_step_dump'']"

definition dump_parts_back :: "dump_parts_wizard \<Rightarrow> dump_parts_wizard" where
  "dump_parts_back w = (if 0 < dp_step w then w\<lparr>dp_step := dp_step w - 1\<rparr> else w)"

definition dump_parts_can_next :: "dump_parts_wizard \<Rightarrow> bool" where
  "dump_parts_can_next w =
     (let s = dp_step w in
      if s = 0 then dp_loader_path w \<noteq> None \<and> dp_loader_error w = None \<and> \<not> dp_scanning w
      else if s = 1 then list_ex dr_selected (dp_rows w)
      else False)"

definition selected_rows :: "dump_parts_wizard \<Rightarrow> dump_part_row list" where
  "selected_rows w = filter dr_selected (dp_rows w)"

definition dump_apply_sort :: "dump_parts_wizard \<Rightarrow> dump_parts_wizard" where
  "dump_apply_sort w = w\<lparr>dp_rows := sort_by (dump_row_cmp (dp_sort_col w) (dp_sort_desc w)) (dp_rows w)\<rparr>"

definition dump_toggle_sort :: "parts_sort_column \<Rightarrow> dump_parts_wizard \<Rightarrow> dump_parts_wizard" where
  "dump_toggle_sort col w =
     dump_apply_sort
       (if dp_sort_col w = col then w\<lparr>dp_sort_desc := \<not> dp_sort_desc w\<rparr>
        else w\<lparr>dp_sort_col := col, dp_sort_desc := False\<rparr>)"

section \<open>Handlers\<close>

datatype leading_action = LeadNone | LeadBack | LeadCancel

definition partition_table_leading_action :: "connection_status option \<Rightarrow> leading_action" where
  "partition_table_leading_action entry_connection =
     (case entry_connection of
        None \<Rightarrow> LeadBack
      | Some Edl \<Rightarrow> LeadBack
      | Some _ \<Rightarrow> LeadCancel)"

definition parts_scan_outcome :: "string option \<Rightarrow> bool \<Rightarrow> string option" where
  "parts_scan_outcome error rows_empty =
     (case error of
        Some e \<Rightarrow> Some e
      | None \<Rightarrow> if rows_empty then Some ''err_parts_scan_empty'' else None)"

text \<open>
  What the handlers look up. A handler returns the wizard and the job it starts; \<open>RebootDevice\<close> comes
  with the closing of the wizard, and a picker is a job whose answer is a message.
\<close>

record parts_env =
  pv_validate_loader :: "string option \<Rightarrow> string option"
  pv_resolve_loader :: "string \<Rightarrow> string + string"
  pv_connection :: connection_status

datatype parts_job = ScanParts string | WriteParts string "flash_part_row list"
  | ReadParts string string "dump_part_row list" | RebootDevice string | PickImage nat | PickOutputFolder

datatype flash_parts_msg = FlashPartsLoaderChosen "string option" | FlashPartsToggleRow nat
  | FlashPartsPickRowFile nat | FlashPartsRowFileChosen nat "string option" | FlashPartsNext
  | FlashPartsBack | FlashPartsClose | FlashPartsScanStart
  | FlashPartsScanDone "flash_part_row list" "string option" | FlashPartsExecStart | FlashPartsExecDone
  | FlashPartsSortBy parts_sort_column

definition update_row :: "nat \<Rightarrow> ('a \<Rightarrow> 'a) \<Rightarrow> 'a list \<Rightarrow> 'a list" where
  "update_row idx f rows = (if idx < length rows then rows[idx := f (rows ! idx)] else rows)"

definition flash_parts_scan_start ::
    "parts_env \<Rightarrow> flash_parts_wizard \<Rightarrow> flash_parts_wizard \<times> parts_job option" where
  "flash_parts_scan_start env w =
     (case pv_validate_loader env (fp_loader_path w) of
        None \<Rightarrow> (w, None)
      | Some loader \<Rightarrow>
          (w\<lparr>fp_entry_connection := Some (pv_connection env), fp_scanning := True, fp_scan_error := None,
             fp_rows := []\<rparr>, Some (ScanParts loader)))"

definition flash_parts_scan_done ::
    "flash_part_row list \<Rightarrow> string option \<Rightarrow> flash_parts_wizard \<Rightarrow> flash_parts_wizard" where
  "flash_parts_scan_done rows error w =
     (let w1 = flash_apply_sort (w\<lparr>fp_scanning := False, fp_rows := rows\<rparr>);
          w2 = w1\<lparr>fp_scan_error := parts_scan_outcome error (fp_rows w1 = [])\<rparr>
      in if fp_scan_error w2 = None then flash_parts_next w2 else w2)"

definition flash_parts_exec_start :: "flash_parts_wizard \<Rightarrow> flash_parts_wizard \<times> parts_job option" where
  "flash_parts_exec_start w =
     (let w1 = flash_parts_next w in
      (w1, Some (WriteParts (case fp_loader_path w1 of None \<Rightarrow> [] | Some l \<Rightarrow> l) (active_rows w1))))"

definition flash_parts_on_next ::
    "parts_env \<Rightarrow> flash_parts_wizard \<Rightarrow> flash_parts_wizard \<times> parts_job option" where
  "flash_parts_on_next env w =
     (if fp_step w = 0 then flash_parts_scan_start env w
      else if fp_step w = 1 then (flash_parts_next w, None)
      else if fp_step w = 2 then flash_parts_exec_start w
      else (w, None))"

definition flash_parts_on_back ::
    "parts_env \<Rightarrow> flash_parts_wizard \<Rightarrow> flash_parts_wizard \<times> parts_job option" where
  "flash_parts_on_back env w =
     (if fp_step w = 1 \<and> partition_table_leading_action (fp_entry_connection w) = LeadCancel
      then (case pv_validate_loader env (fp_loader_path w) of
              None \<Rightarrow> (w, None)
            | Some loader \<Rightarrow> (flash_parts_default, Some (RebootDevice loader)))
      else (flash_parts_back w, None))"

definition update_flash_parts ::
    "parts_env \<Rightarrow> flash_parts_msg \<Rightarrow> flash_parts_wizard \<Rightarrow> flash_parts_wizard \<times> parts_job option" where
  "update_flash_parts env msg w =
     (case msg of
        FlashPartsLoaderChosen picked \<Rightarrow>
          (case picked of
             None \<Rightarrow> w
           | Some p \<Rightarrow> (case pv_resolve_loader env p of
               Inl e \<Rightarrow> w\<lparr>fp_loader_path := None, fp_loader_error := Some e\<rparr>
             | Inr l \<Rightarrow> w\<lparr>fp_loader_path := Some l, fp_loader_error := None\<rparr>), None)
      | FlashPartsToggleRow idx \<Rightarrow>
          (w\<lparr>fp_rows := update_row idx (\<lambda>r. r\<lparr>fr_state := cycle (fr_state r)\<rparr>) (fp_rows w)\<rparr>, None)
      | FlashPartsPickRowFile idx \<Rightarrow> (w, Some (PickImage idx))
      | FlashPartsRowFileChosen idx picked \<Rightarrow>
          (case picked of
             None \<Rightarrow> w
           | Some p \<Rightarrow> w\<lparr>fp_rows := update_row idx
               (\<lambda>r. r\<lparr>fr_file_path := Some p, fr_state := FlashRow\<rparr>) (fp_rows w)\<rparr>, None)
      | FlashPartsNext \<Rightarrow> flash_parts_on_next env w
      | FlashPartsBack \<Rightarrow> flash_parts_on_back env w
      | FlashPartsClose \<Rightarrow> (flash_parts_default, None)
      | FlashPartsScanStart \<Rightarrow> flash_parts_scan_start env w
      | FlashPartsScanDone rows error \<Rightarrow> (flash_parts_scan_done rows error w, None)
      | FlashPartsExecStart \<Rightarrow> flash_parts_exec_start w
      | FlashPartsExecDone \<Rightarrow> (w, None)
      | FlashPartsSortBy col \<Rightarrow> (flash_toggle_sort col w, None))"

datatype dump_parts_msg = DumpPartsLoaderChosen "string option" | DumpPartsToggleRow nat | DumpPartsNext
  | DumpPartsBack | DumpPartsClose | DumpPartsScanStart
  | DumpPartsScanDone "dump_part_row list" "string option" | DumpPartsSelectFolder
  | DumpPartsFolderChosen "string option" | DumpPartsExecDone | DumpPartsSortBy parts_sort_column
  | DumpPartsToggleAll

definition dump_parts_scan_start ::
    "parts_env \<Rightarrow> dump_parts_wizard \<Rightarrow> dump_parts_wizard \<times> parts_job option" where
  "dump_parts_scan_start env w =
     (case pv_validate_loader env (dp_loader_path w) of
        None \<Rightarrow> (w, None)
      | Some loader \<Rightarrow>
          (w\<lparr>dp_entry_connection := Some (pv_connection env), dp_scanning := True, dp_scan_error := None,
             dp_rows := []\<rparr>, Some (ScanParts loader)))"

definition dump_parts_scan_done ::
    "dump_part_row list \<Rightarrow> string option \<Rightarrow> dump_parts_wizard \<Rightarrow> dump_parts_wizard" where
  "dump_parts_scan_done rows error w =
     (let w1 = dump_apply_sort (w\<lparr>dp_scanning := False, dp_rows := rows\<rparr>);
          w2 = w1\<lparr>dp_scan_error := parts_scan_outcome error (dp_rows w1 = [])\<rparr>
      in if dp_scan_error w2 = None then w2\<lparr>dp_step := 1\<rparr> else w2)"

definition dump_toggle_all :: "dump_parts_wizard \<Rightarrow> dump_parts_wizard" where
  "dump_toggle_all w =
     (let all_selected = (dp_rows w \<noteq> [] \<and> list_all dr_selected (dp_rows w)) in
      w\<lparr>dp_rows := map (\<lambda>r. r\<lparr>dr_selected := \<not> all_selected\<rparr>) (dp_rows w)\<rparr>)"

definition dump_folder_chosen ::
    "string option \<Rightarrow> dump_parts_wizard \<Rightarrow> dump_parts_wizard \<times> parts_job option" where
  "dump_folder_chosen picked w =
     (case picked of
        None \<Rightarrow> (w, None)
      | Some folder \<Rightarrow>
          (w\<lparr>dp_output_dir := Some folder, dp_step := 2\<rparr>,
           Some (ReadParts (case dp_loader_path w of None \<Rightarrow> [] | Some l \<Rightarrow> l) folder (selected_rows w))))"

definition dump_parts_on_back ::
    "parts_env \<Rightarrow> dump_parts_wizard \<Rightarrow> dump_parts_wizard \<times> parts_job option" where
  "dump_parts_on_back env w =
     (if dp_step w = 1 \<and> partition_table_leading_action (dp_entry_connection w) = LeadCancel
      then (case pv_validate_loader env (dp_loader_path w) of
              None \<Rightarrow> (w, None)
            | Some loader \<Rightarrow> (dump_parts_default, Some (RebootDevice loader)))
      else (dump_parts_back w, None))"

definition update_dump_parts ::
    "parts_env \<Rightarrow> dump_parts_msg \<Rightarrow> dump_parts_wizard \<Rightarrow> dump_parts_wizard \<times> parts_job option" where
  "update_dump_parts env msg w =
     (case msg of
        DumpPartsLoaderChosen picked \<Rightarrow>
          (case picked of
             None \<Rightarrow> w
           | Some p \<Rightarrow> (case pv_resolve_loader env p of
               Inl e \<Rightarrow> w\<lparr>dp_loader_path := None, dp_loader_error := Some e\<rparr>
             | Inr l \<Rightarrow> w\<lparr>dp_loader_path := Some l, dp_loader_error := None\<rparr>), None)
      | DumpPartsToggleRow idx \<Rightarrow>
          (w\<lparr>dp_rows := update_row idx (\<lambda>r. r\<lparr>dr_selected := \<not> dr_selected r\<rparr>) (dp_rows w)\<rparr>, None)
      | DumpPartsNext \<Rightarrow>
          (if dp_step w = 0 then dump_parts_scan_start env w
           else if dp_step w = 1 then (w, Some PickOutputFolder)
           else (w, None))
      | DumpPartsBack \<Rightarrow> dump_parts_on_back env w
      | DumpPartsClose \<Rightarrow> (dump_parts_default, None)
      | DumpPartsScanStart \<Rightarrow> dump_parts_scan_start env w
      | DumpPartsScanDone rows error \<Rightarrow> (dump_parts_scan_done rows error w, None)
      | DumpPartsSelectFolder \<Rightarrow> (w, Some PickOutputFolder)
      | DumpPartsFolderChosen picked \<Rightarrow> dump_folder_chosen picked w
      | DumpPartsExecDone \<Rightarrow> (w, None)
      | DumpPartsSortBy col \<Rightarrow> (dump_toggle_sort col w, None)
      | DumpPartsToggleAll \<Rightarrow> (dump_toggle_all w, None))"

end
