(* ===== verification/Parts_Props.thy ===== *)
theory Parts_Props
  imports Parts_Wizard
begin

text \<open>
  What the partition wizards promise: sorting only reorders the table and is undone by two clicks;
  a run writes only to places that the last scan of the device reported, and only rows with an image
  or marked for erasure. And what they do not promise: the answer of a file dialog names a row by
  its position, and the position may belong to another partition by then.
\<close>

section \<open>Sorting\<close>

definition flash_sorted :: "flash_parts_wizard \<Rightarrow> bool" where
  "flash_sorted w \<longleftrightarrow> sorted_wrt (cmp_le (flash_row_cmp (fp_sort_col w) (fp_sort_desc w))) (fp_rows w)"

lemma flash_toggle_sorted: "flash_sorted (flash_toggle_sort col w)"
  by (simp add: flash_sorted_def flash_toggle_sort_def flash_apply_sort_def flash_rows.sorted_sort_by)

lemma flash_toggle_rows: "mset (fp_rows (flash_toggle_sort col w)) = mset (fp_rows w)"
  by (simp add: flash_toggle_sort_def flash_apply_sort_def flash_rows.mset_sort_by)

lemma flash_cmp_equal: "flash_row_cmp col (\<not> desc) a b = CmpEqual \<longleftrightarrow> flash_row_cmp col desc a b = CmpEqual"
  unfolding flash_row_cmp_reverse by (cases "flash_row_cmp col desc a b") simp_all

text \<open>Sorting down and up again gives back a table that was sorted.\<close>

lemma flash_sort_back:
  assumes "sorted_wrt (cmp_le (flash_row_cmp col desc)) rows"
  shows "sort_by (flash_row_cmp col desc) (sort_by (flash_row_cmp col (\<not> desc)) rows) = rows"
proof (rule flash_rows.sort_by_sorted [OF assms])
  fix z
  have "filter (\<lambda>y. flash_row_cmp col (\<not> desc) z y = CmpEqual) (sort_by (flash_row_cmp col (\<not> desc)) rows) =
      filter (\<lambda>y. flash_row_cmp col (\<not> desc) z y = CmpEqual) rows"
    by (rule flash_rows.filter_sort_by)
  then show "filter (\<lambda>y. flash_row_cmp col desc z y = CmpEqual) rows =
      filter (\<lambda>y. flash_row_cmp col desc z y = CmpEqual) (sort_by (flash_row_cmp col (\<not> desc)) rows)"
    by (simp only: flash_cmp_equal)
qed

lemma flash_toggle_twice:
  assumes "flash_sorted w" and "fp_sort_col w = col"
  shows "flash_toggle_sort col (flash_toggle_sort col w) = w"
  using assms flash_sort_back [of col "fp_sort_desc w" "fp_rows w"]
  by (cases w) (simp add: flash_sorted_def flash_toggle_sort_def flash_apply_sort_def)

lemma mset_filter_cong: "mset xs = mset ys \<Longrightarrow> mset (filter P xs) = mset (filter P ys)"
  by simp

text \<open>
  (C22) A click on a column header of the partition table only reorders it: the table holds the same
  rows, sorted by the shown column and direction, and the rows that a run would write are the same.
  Two more clicks on the same header give back exactly the same table, rows with equal keys included.
\<close>

theorem parts_sort_clicks:
  "let w' = flash_toggle_sort col w in
     mset (fp_rows w') = mset (fp_rows w) \<and> flash_sorted w' \<and>
     mset (active_rows w') = mset (active_rows w) \<and>
     flash_toggle_sort col (flash_toggle_sort col w') = w'"
proof -
  have "fp_sort_col (flash_toggle_sort col w) = col"
    by (simp add: flash_toggle_sort_def flash_apply_sort_def)
  then show ?thesis
    using flash_toggle_twice [OF flash_toggle_sorted [of col w], of col]
      mset_filter_cong [OF flash_toggle_rows, of row_is_active]
    by (simp add: Let_def flash_toggle_rows flash_toggle_sorted active_rows_def)
qed

section \<open>What a run writes\<close>

text \<open>
  The reachable states, with the rows of the last scan that was reported.
\<close>

inductive parts_reach :: "flash_part_row list \<Rightarrow> flash_parts_wizard \<Rightarrow> bool" where
  init: "parts_reach [] flash_parts_default"
| scanned: "parts_reach s w \<Longrightarrow>
    parts_reach rows (fst (update_flash_parts env (FlashPartsScanDone rows error) w))"
| message: "parts_reach s w \<Longrightarrow> \<forall>rows error. msg \<noteq> FlashPartsScanDone rows error \<Longrightarrow>
    parts_reach s (fst (update_flash_parts env msg w))"

text \<open>Where a row is: everything but the image and the action chosen for it.\<close>

abbreviation place :: "flash_part_row \<Rightarrow> part_entry" where
  "place \<equiv> part_entry.truncate"

definition from_scan :: "flash_part_row list \<Rightarrow> flash_part_row list \<Rightarrow> bool" where
  "from_scan s rows \<longleftrightarrow> mset (map place rows) \<subseteq># mset (map place s)"

lemma map_update_row:
  assumes "\<And>r. g (f r) = g r"
  shows "map g (update_row idx f rows) = map g rows"
  using assms by (simp add: update_row_def map_update list_update_same_conv)

lemma from_scan_update_row:
  assumes "\<And>r. place (f r) = place r"
  shows "from_scan s (update_row idx f rows) \<longleftrightarrow> from_scan s rows"
  by (simp only: from_scan_def map_update_row [where g = place and f = f, OF assms])

lemma place_updates [simp]:
  "place (r\<lparr>fr_state := st\<rparr>) = place r" "place (r\<lparr>fr_file_path := p\<rparr>) = place r"
  by (simp_all add: part_entry.truncate_def)

lemma from_scan_sort: "from_scan s (sort_by (flash_row_cmp col desc) rows) \<longleftrightarrow> from_scan s rows"
  by (simp add: from_scan_def flash_rows.mset_sort_by)

lemma from_scan_Nil [simp]: "from_scan s []"
  by (simp add: from_scan_def)

lemma step_fields [simp]: "fp_rows (flash_parts_next w) = fp_rows w" "fp_rows (flash_parts_back w) = fp_rows w"
  by (simp_all add: wizard_next_def wizard_back_def)

lemma flash_parts_default_rows [simp]: "fp_rows flash_parts_default = []"
  by (simp add: flash_parts_default_def)

lemma scan_done_rows:
  "from_scan rows (fp_rows (fst (update_flash_parts env (FlashPartsScanDone rows error) w)))"
  by (simp add: update_flash_parts_def flash_parts_scan_done_def Let_def flash_apply_sort_def
      from_scan_sort from_scan_def flash_rows.mset_sort_by)

lemma message_rows:
  assumes "from_scan s (fp_rows w)" and "\<forall>rows error. msg \<noteq> FlashPartsScanDone rows error"
  shows "from_scan s (fp_rows (fst (update_flash_parts env msg w)))"
proof (cases msg)
  case (FlashPartsToggleRow idx)
  with assms(1) show ?thesis by (simp add: update_flash_parts_def from_scan_update_row)
next
  case (FlashPartsRowFileChosen idx p)
  with assms(1) show ?thesis
    by (simp add: update_flash_parts_def from_scan_update_row split: option.split)
next
  case (FlashPartsSortBy col)
  with assms(1) show ?thesis
    by (simp add: update_flash_parts_def flash_toggle_sort_def flash_apply_sort_def from_scan_sort)
qed (use assms in \<open>auto simp: update_flash_parts_def flash_parts_on_next_def flash_parts_on_back_def
      flash_parts_scan_start_def flash_parts_exec_start_def Let_def split: option.splits sum.splits\<close>)

lemma parts_reach_rows: "parts_reach s w \<Longrightarrow> from_scan s (fp_rows w)"
proof (induction rule: parts_reach.induct)
  case (scanned s w rows env error)
  show ?case by (rule scan_done_rows)
next
  case (message s w msg env)
  show ?case by (rule message_rows [OF message.IH message.hyps(2)])
qed simp

lemma write_job:
  assumes "update_flash_parts env msg w = (w', Some (WriteParts loader rows))"
  shows "rows = active_rows w"
  using assms
  by (cases msg)
    (auto simp: update_flash_parts_def flash_parts_on_next_def flash_parts_on_back_def
      flash_parts_scan_start_def flash_parts_exec_start_def active_rows_def Let_def
      split: if_splits option.splits)

text \<open>
  (C18) A run of the partition wizard writes only where the last scan of the device said a partition
  is. Whatever was clicked, sorted, rescanned or closed in between, the rows handed to the worker
  have the LUN, label, start and size of different rows of that scan, in the displayed order, and
  each of them either carries an image or is marked for erasure.
\<close>

theorem parts_run_writes_scanned_rows:
  assumes "parts_reach s w" and "update_flash_parts env msg w = (w', Some (WriteParts loader rows))"
  shows "mset (map place rows) \<subseteq># mset (map place s) \<and> rows = filter row_is_active (fp_rows w) \<and>
    (\<forall>r \<in> set rows. fr_state r = FlashRow \<and> fr_file_path r \<noteq> None \<or> fr_state r = EraseRow)"
proof -
  have rows: "rows = filter row_is_active (fp_rows w)"
    using write_job [OF assms(2)] by (simp add: active_rows_def)
  have "mset (map place rows) \<subseteq># mset (map place (fp_rows w))"
    unfolding rows mset_map by (intro image_mset_subseteq_mono) (simp add: multiset_filter_subset)
  also have "\<dots> \<subseteq># mset (map place s)" using parts_reach_rows [OF assms(1)] by (simp add: from_scan_def)
  finally show ?thesis
    unfolding rows by (auto simp: row_is_active_def split: flash_row_state.splits)
qed

section \<open>A table of two partitions\<close>

definition part_row :: "byte \<Rightarrow> string \<Rightarrow> flash_part_row" where
  "part_row lun label = \<lparr>pe_lun = lun, pe_label = label, pe_start_sector = 6, pe_num_sectors = 8,
     pe_size_bytes = 32768, fr_file_path = None, fr_state = Unchecked\<rparr>"

definition sample_parts_env :: parts_env where
  "sample_parts_env = \<lparr>pv_validate_loader = id, pv_resolve_loader = Inr, pv_connection = Edl\<rparr>"

definition two_rows :: flash_parts_wizard where
  "two_rows = flash_parts_default\<lparr>fp_step := 1, fp_rows := [part_row 0 ''xbl'', part_row 4 ''abl'']\<rparr>"

lemma two_rows_cmp:
  "cmp_le (flash_row_cmp ByLun False) (part_row 0 ''xbl'') (part_row 4 ''abl'')"
  "\<not> cmp_le (flash_row_cmp ByLabel False) (part_row 0 ''xbl'') (part_row 4 ''abl'')"
  by (simp_all add: cmp_le_def flash_row_cmp_def entry_cmp_def cmp_by_def cmp_str_def part_row_def
      as_bytes_def Let_def)

lemma two_rows_scanned:
  "fst (update_flash_parts env (FlashPartsScanDone [part_row 0 ''xbl'', part_row 4 ''abl''] None)
     flash_parts_default) = two_rows"
  by (simp add: update_flash_parts_def flash_parts_scan_done_def flash_apply_sort_def Let_def
      parts_scan_outcome_def sort_by_def two_rows_cmp two_rows_def flash_parts_default_def
      flash_parts.next_unfold flash_parts_step_count_def FLASH_PARTS_STEPS_def)

lemma two_rows_reach: "parts_reach [part_row 0 ''xbl'', part_row 4 ''abl''] two_rows"
  using parts_reach.scanned [OF parts_reach.init, of "[part_row 0 ''xbl'', part_row 4 ''abl'']" _ None]
  unfolding two_rows_scanned .

theorem parts_run_writes_scanned_rows_witness:
  "\<exists>w w' rows. update_flash_parts sample_parts_env FlashPartsExecStart w = (w', Some (WriteParts [] rows)) \<and>
    mset (map place rows) \<subseteq># {#place (part_row 0 ''xbl''), place (part_row 4 ''abl'')#} \<and> length rows = 1"
proof -
  let ?w = "fst (update_flash_parts sample_parts_env (FlashPartsRowFileChosen 1 (Some ''abl.elf'')) two_rows)"
  have reach: "parts_reach [part_row 0 ''xbl'', part_row 4 ''abl''] ?w"
    by (rule parts_reach.message [OF two_rows_reach]) simp
  have w: "?w = two_rows\<lparr>fp_rows := [part_row 0 ''xbl'',
      (part_row 4 ''abl'')\<lparr>fr_file_path := Some ''abl.elf'', fr_state := FlashRow\<rparr>]\<rparr>"
    by (simp add: update_flash_parts_def update_row_def two_rows_def)
  obtain w' rows where job:
    "update_flash_parts sample_parts_env FlashPartsExecStart ?w = (w', Some (WriteParts [] rows))"
    by (simp add: update_flash_parts_def flash_parts_exec_start_def Let_def w flash_parts.next_unfold
        two_rows_def flash_parts_default_def flash_parts_step_count_def FLASH_PARTS_STEPS_def)
  from parts_run_writes_scanned_rows [OF reach job]
  have "mset (map place rows) \<subseteq># mset (map place [part_row 0 ''xbl'', part_row 4 ''abl''])"
    and rows: "rows = filter row_is_active (fp_rows ?w)" by blast+
  from this(1) have "mset (map place rows) \<subseteq># {#place (part_row 0 ''xbl''), place (part_row 4 ''abl'')#}"
    by simp
  moreover have "length rows = 1" unfolding rows w by (simp add: row_is_active_def part_row_def)
  ultimately show ?thesis using job by blast
qed

text \<open>
  (C39) The answer of the image dialog of a row names the row by its position in the table, but the
  table may be sorted while the dialog is open. Then the image lands on another partition: here the
  dialog is opened for \<open>xbl\<close>, a click sorts by label, and the image is set for \<open>abl\<close>, which is what
  the run writes.
\<close>

theorem picked_image_lands_on_other_row:
  "let send = (\<lambda>msg w. fst (update_flash_parts sample_parts_env msg w));
       w = send (FlashPartsRowFileChosen 0 (Some ''xbl.elf''))
             (send (FlashPartsSortBy ByLabel) (send (FlashPartsPickRowFile 0) two_rows))
   in pe_label (fp_rows two_rows ! 0) = ''xbl'' \<and>
      map (\<lambda>r. (pe_label r, fr_file_path r)) (active_rows w) = [(''abl'', Some ''xbl.elf'')]"
proof -
  have "fp_rows (flash_toggle_sort ByLabel two_rows) = [part_row 4 ''abl'', part_row 0 ''xbl'']"
    by (simp add: flash_toggle_sort_def flash_apply_sort_def two_rows_def flash_parts_default_def
        sort_by_def two_rows_cmp)
  then show ?thesis
    by (simp add: update_flash_parts_def update_row_def active_rows_def row_is_active_def Let_def)
      (simp add: part_row_def two_rows_def)
qed

end
