(* ===== verification/Abl_Key.thy ===== *)
theory Abl_Key
  imports Prelude "HOL-Library.Monad_Syntax"
begin

text \<open>
  The AVB public key inside an Android boot loader (\<open>abl_key.rs\<close>): the PE images of the loader, the
  RSA key blobs in an image and the instructions that refer to a blob. LZMA decompression and SHA-1
  are arguments. Offsets are file offsets of buffers or sums of a few \<open>u32\<close> values, so that the
  checked additions on \<open>usize\<close> and the \<open>i64\<close> arithmetic do not overflow.
\<close>

section \<open>Constants and images\<close>

definition LZMA_OFFSET :: nat where "LZMA_OFFSET = 0x1078"
definition MAX_DECOMPRESSED_SIZE :: nat where "MAX_DECOMPRESSED_SIZE = 64 * 1024 * 1024"
definition MAX_INPUT_SIZE :: nat where "MAX_INPUT_SIZE = MAX_DECOMPRESSED_SIZE * 4"
definition RSA_KEY_BITS :: "nat list" where "RSA_KEY_BITS = [2048, 4096, 8192]"

text \<open>The lossily decoded name of a section is compared with \<open>.text\<close> only, so its bytes stand for it.\<close>

record pe_section =
  sec_name :: "byte list"
  sec_virtual_address :: u32
  sec_raw_offset :: nat
  sec_raw_size :: nat
  sec_executable :: bool

record pe_image =
  img_data :: "byte list"
  img_sections :: "pe_section list"

record key_blob =
  kb_raw_offset :: nat
  kb_blob :: "byte list"
  kb_references :: nat

definition TEXT_NAME :: "byte list" where "TEXT_NAME = [0x2e, 0x74, 0x65, 0x78, 0x74]"

definition raw_to_rva :: "pe_image \<Rightarrow> nat \<Rightarrow> int option" where
  "raw_to_rva pe raw_offset =
     map_option (\<lambda>s. uint (sec_virtual_address s) + int (raw_offset - sec_raw_offset s))
       (List.find (\<lambda>s. sec_raw_offset s \<le> raw_offset \<and> raw_offset < sec_raw_offset s + sec_raw_size s)
         (img_sections pe))"

definition text_ranges :: "pe_image \<Rightarrow> (nat \<times> nat \<times> int) list" where
  "text_ranges pe =
     (let named = filter (\<lambda>s. sec_name s = TEXT_NAME) (img_sections pe);
          executable = filter sec_executable (img_sections pe);
          selected = (if named \<noteq> [] then named
            else if executable \<noteq> [] then executable else img_sections pe)
      in map (\<lambda>s. (sec_raw_offset s,
             min (sec_raw_offset s + sec_raw_size s) (length (img_data pe)),
             uint (sec_virtual_address s)))
           (filter (\<lambda>s. sec_raw_size s \<noteq> 0 \<and> sec_raw_offset s < length (img_data pe)) selected))"

section \<open>Reading integers\<close>

definition read_u16_le :: "byte list \<Rightarrow> nat \<Rightarrow> u16 option" where
  "read_u16_le data p = map_option (\<lambda>bs. u16_of_le (bs ! 0) (bs ! 1)) (slice data p (p + 2))"

definition read_u32_le :: "byte list \<Rightarrow> nat \<Rightarrow> u32 option" where
  "read_u32_le data p = map_option (\<lambda>bs. rd32_le bs 0) (slice data p (p + 4))"

definition read_u64_le :: "byte list \<Rightarrow> nat \<Rightarrow> u64 option" where
  "read_u64_le data p = map_option u64_of_le (slice data p (p + 8))"

definition read_u32_be :: "byte list \<Rightarrow> nat \<Rightarrow> u32 option" where
  "read_u32_be data p = map_option (\<lambda>bs. rd32_be bs 0) (slice data p (p + 4))"

text \<open>The positions of \<open>windows(n)\<close> at which the window is \<open>m\<close>, with \<open>n\<close> the length of \<open>m\<close>.\<close>

definition window_at :: "byte list \<Rightarrow> byte list \<Rightarrow> nat \<Rightarrow> bool" where
  "window_at data m p \<longleftrightarrow> p + length m \<le> length data \<and> window data p (p + length m) = m"

definition window_positions :: "byte list \<Rightarrow> byte list \<Rightarrow> nat list" where
  "window_positions data m = filter (window_at data m) [0..<length data + 1 - length m]"

section \<open>PE images\<close>

text \<open>One pass over the section table: the size of the image so far and the sections.\<close>

definition section_name :: "byte list \<Rightarrow> byte list" where
  "section_name = takeWhile (\<lambda>b. b \<noteq> 0)"

fun read_sections :: "byte list \<Rightarrow> nat \<Rightarrow> nat \<Rightarrow> nat list \<Rightarrow> nat \<Rightarrow> (nat \<times> pe_section list) option" where
  "read_sections data mz section_table [] real_size = Some (real_size, [])"
| "read_sections data mz section_table (index # rest) real_size =
     (let p = section_table + index * 40 in do {
        raw_size \<leftarrow> map_option unat (read_u32_le data (p + 16));
        raw_offset \<leftarrow> map_option unat (read_u32_le data (p + 20));
        virtual_address \<leftarrow> read_u32_le data (p + 12);
        characteristics \<leftarrow> read_u32_le data (p + 36);
        let raw_end = raw_offset + raw_size;
        if raw_size \<noteq> 0 \<and> raw_end > length data - mz then None
        else do {
          name_bytes \<leftarrow> slice data p (p + 8);
          (size, sections) \<leftarrow> read_sections data mz section_table rest (max real_size raw_end);
          Some (size,
            \<lparr> sec_name = section_name name_bytes, sec_virtual_address = virtual_address,
              sec_raw_offset = raw_offset, sec_raw_size = raw_size,
              sec_executable = (characteristics AND 0x20000000 \<noteq> 0) \<rparr> # sections)
        }
      })"

definition PE_SIGNATURE :: "byte list" where "PE_SIGNATURE = [0x50, 0x45, 0, 0]"
definition MZ_SIGNATURE :: "byte list" where "MZ_SIGNATURE = [0x4d, 0x5a]"

text \<open>The body of the loop over the positions of \<open>MZ\<close>; every \<open>continue\<close> is \<open>None\<close>.\<close>

definition pe_image_at :: "byte list \<Rightarrow> nat \<Rightarrow> pe_image option" where
  "pe_image_at data mz =
     (if mz + 0x40 > length data then None else do {
        e_lfanew \<leftarrow> map_option unat (read_u32_le data (mz + 0x3c));
        let pe_header = mz + e_lfanew;
        if pe_header + 24 > length data \<or> slice data pe_header (pe_header + 4) \<noteq> Some PE_SIGNATURE
        then None else do {
          number_of_sections \<leftarrow> map_option unat (read_u16_le data (pe_header + 6));
          optional_size \<leftarrow> map_option unat (read_u16_le data (pe_header + 20));
          let optional = pe_header + 24;
          let optional_end = optional + optional_size;
          let table_end = optional_end + number_of_sections * 40;
          if \<not> (1 \<le> number_of_sections \<and> number_of_sections \<le> 96) \<or> optional_size < 0x60 \<or>
             optional_end > length data \<or>
             read_u16_le data optional \<notin> {Some 0x10b, Some 0x20b} \<or> table_end > length data
          then None else do {
            size_of_headers \<leftarrow> map_option unat (read_u32_le data (optional + 60));
            (real_size, sections) \<leftarrow> read_sections data mz optional_end [0..<number_of_sections]
              (max size_of_headers (table_end - mz));
            if real_size = 0 \<or> mz + real_size > length data then None
            else Some \<lparr> img_data = window data mz (mz + real_size), img_sections = sections \<rparr>
          }
        }
      })"

definition next_mz :: "byte list \<Rightarrow> nat \<Rightarrow> nat option" where
  "next_mz data cursor = List.find (window_at data MZ_SIGNATURE) [cursor..<length data]"

lemma next_mz_bounds: "next_mz data cursor = Some mz \<Longrightarrow> cursor \<le> mz \<and> mz < length data"
  by (auto simp: next_mz_def find_Some_iff)

function find_pe_images_from :: "byte list \<Rightarrow> nat \<Rightarrow> pe_image list" where
  "find_pe_images_from data cursor =
     (case next_mz data cursor of
        None \<Rightarrow> []
      | Some mz \<Rightarrow>
          (case pe_image_at data mz of None \<Rightarrow> [] | Some im \<Rightarrow> [im]) @
          find_pe_images_from data (mz + 2))"
  by pat_completeness auto
termination
  by (relation "measure (\<lambda>(data, cursor). length data - cursor)") (auto dest!: next_mz_bounds)

declare find_pe_images_from.simps [simp del]

definition find_pe_images :: "byte list \<Rightarrow> pe_image list" where
  "find_pe_images data = find_pe_images_from data 0"

section \<open>The LinuxLoader image\<close>

text \<open>
  \<open>lzma\<close> is the library's decoder on a stream, cut after \<open>MAX_DECOMPRESSED_SIZE + 1\<close> bytes.
\<close>

type_synonym lzma_decoder = "byte list \<Rightarrow> byte list option"

definition lzma_attempts :: "byte list \<Rightarrow> byte list list" where
  "lzma_attempts stream = stream #
     (if length stream \<ge> 5 \<and> take 1 stream = [0x5d]
      then [take 5 stream @ replicate 8 0xff @ drop 5 stream] else [])"

fun lzma_try :: "lzma_decoder \<Rightarrow> byte list list \<Rightarrow> byte list option" where
  "lzma_try lzma [] = None"
| "lzma_try lzma (candidate # rest) =
     (if length candidate < 13 then lzma_try lzma rest
      else do {
        declared_size \<leftarrow> read_u64_le candidate 5;
        if declared_size \<noteq> - 1 \<and> unat declared_size > MAX_DECOMPRESSED_SIZE
        then lzma_try lzma rest
        else (case lzma candidate of
            Some decoded \<Rightarrow>
              if 64 \<le> length decoded \<and> length decoded \<le> MAX_DECOMPRESSED_SIZE
              then Some decoded else lzma_try lzma rest
          | None \<Rightarrow> lzma_try lzma rest)
      })"

definition lzma_decode :: "lzma_decoder \<Rightarrow> byte list \<Rightarrow> byte list option" where
  "lzma_decode lzma stream =
     (if stream = [] \<or> length stream > MAX_INPUT_SIZE then None
      else lzma_try lzma (lzma_attempts stream))"

definition layer_starts :: "byte list \<Rightarrow> nat list" where
  "layer_starts raw = (if length raw > LZMA_OFFSET then [LZMA_OFFSET] else []) @
     window_positions raw [0x5d, 0, 0]"

text \<open>The set \<open>seen\<close> keeps the first of equal starts.\<close>

definition decompressed_layers :: "lzma_decoder \<Rightarrow> byte list \<Rightarrow> byte list list" where
  "decompressed_layers lzma raw =
     filter (\<lambda>layer. find_pe_images layer \<noteq> [])
       (List.map_filter (\<lambda>start. lzma_decode lzma (drop start raw))
         (rev (remdups (rev (layer_starts raw)))))"

text \<open>\<open>max_by_key\<close> returns the last of equal maxima.\<close>

fun last_largest :: "pe_image list \<Rightarrow> pe_image option" where
  "last_largest [] = None"
| "last_largest (im # rest) =
     (case last_largest rest of
        None \<Rightarrow> Some im
      | Some best \<Rightarrow> if length (img_data im) > length (img_data best) then Some im else Some best)"

definition load_linuxloader :: "lzma_decoder \<Rightarrow> byte list \<Rightarrow> pe_image option" where
  "load_linuxloader lzma raw =
     last_largest
       (if take 2 raw = MZ_SIGNATURE then find_pe_images raw
        else concat (map find_pe_images (decompressed_layers lzma raw)))"

section \<open>Numbers in limbs\<close>

definition leading_zeros8 :: "byte \<Rightarrow> nat" where
  "leading_zeros8 b = length (takeWhile (\<lambda>i. \<not> bit b i) (rev [0..<8]))"

fun bit_length_be :: "byte list \<Rightarrow> nat" where
  "bit_length_be [] = 0"
| "bit_length_be (b # bs) = (if b \<noteq> 0 then length bs * 8 + (8 - leading_zeros8 b) else bit_length_be bs)"

text \<open>\<open>rchunks(4)\<close>: chunks from the end, the last one possibly shorter.\<close>

function rchunks4 :: "'a list \<Rightarrow> 'a list list" where
  "rchunks4 xs =
     (if xs = [] then []
      else drop (length xs - 4) xs # rchunks4 (take (length xs - 4) xs))"
  by pat_completeness auto
termination
  by (relation "measure length") auto

declare rchunks4.simps [simp del]

definition limb_of_chunk :: "byte list \<Rightarrow> u32" where
  "limb_of_chunk chunk = rd32_be (replicate (4 - length chunk) 0 @ chunk) 0"

definition be_bytes_to_limbs :: "byte list \<Rightarrow> nat \<Rightarrow> u32 list" where
  "be_bytes_to_limbs bytes limb_count =
     (let limbs = map limb_of_chunk (take limb_count (rchunks4 bytes))
      in limbs @ replicate (limb_count - length limbs) 0)"

text \<open>\<open>limbs_cmp(..).is_ge()\<close>, the lexicographic order from the last limb.\<close>

fun lex_ge :: "u32 list \<Rightarrow> u32 list \<Rightarrow> bool" where
  "lex_ge xs [] = True"
| "lex_ge [] (y # ys) = False"
| "lex_ge (x # xs) (y # ys) = (x > y \<or> (x = y \<and> lex_ge xs ys))"

definition limbs_ge :: "u32 list \<Rightarrow> u32 list \<Rightarrow> bool" where
  "limbs_ge left right = lex_ge (rev left) (rev right)"

fun limbs_sub :: "u64 \<Rightarrow> u32 list \<Rightarrow> u32 list \<Rightarrow> u32 list" where
  "limbs_sub borrow (l # left) (r # right) =
     (let subtrahend = ucast r + borrow; minuend = (ucast l :: u64)
      in ucast (minuend - subtrahend) #
         limbs_sub (if minuend < subtrahend then 1 else 0) left right)"
| "limbs_sub borrow left _ = left"

definition limbs_sub_assign :: "u32 list \<Rightarrow> u32 list \<Rightarrow> u32 list" where
  "limbs_sub_assign = limbs_sub 0"

text \<open>One doubling: the new limbs and the carry out of the last one.\<close>

fun limbs_double :: "u32 \<Rightarrow> u32 list \<Rightarrow> u32 list \<times> u32" where
  "limbs_double carry [] = ([], carry)"
| "limbs_double carry (limb # limbs) =
     (let (rest, out) = limbs_double (drop_bit 31 limb) limbs
      in ((push_bit 1 limb OR carry) # rest, out))"

definition double_mod :: "u32 list \<Rightarrow> u32 list \<Rightarrow> u32 list" where
  "double_mod modulus v =
     (let (v', carry) = limbs_double 0 v
      in if carry \<noteq> 0 \<or> limbs_ge v' modulus then limbs_sub_assign v' modulus else v')"

definition montgomery_rr_matches :: "byte list \<Rightarrow> byte list \<Rightarrow> nat \<Rightarrow> bool" where
  "montgomery_rr_matches modulus_be rr_be modulus_bits =
     (let limb_count = (length modulus_be + 3) div 4;
          modulus = be_bytes_to_limbs modulus_be limb_count;
          expected = be_bytes_to_limbs rr_be limb_count;
          one = (replicate limb_count 0)[0 := 1]
      in (double_mod modulus ^^ (modulus_bits * 2)) one = expected)"

section \<open>Key blobs\<close>

definition newton_step :: "u32 \<Rightarrow> u32 \<Rightarrow> u32" where
  "newton_step low_word x = x * (2 - low_word * x)"

definition decode_key_candidate :: "byte list \<Rightarrow> nat \<Rightarrow> nat \<Rightarrow> byte list option" where
  "decode_key_candidate data p bits =
     (let modulus_size = bits div 8; size = 8 + modulus_size * 2 in do {
        blob \<leftarrow> slice data p (p + size);
        tag \<leftarrow> read_u32_be blob 0;
        if tag \<noteq> of_nat bits then None else do {
          n0inv \<leftarrow> read_u32_be blob 4;
          modulus \<leftarrow> slice blob 8 (8 + modulus_size);
          rr \<leftarrow> slice blob (8 + modulus_size) size;
          let modulus_bits = bit_length_be modulus;
          if \<not> (bits div 2 < modulus_bits \<and> modulus_bits \<le> bits) \<or>
             modulus = [] \<or> last modulus AND 1 = 0
          then None else do {
            low_word \<leftarrow> read_u32_be modulus (modulus_size - 4);
            let low_inverse = (newton_step low_word ^^ 5) low_word;
            if n0inv \<noteq> - low_inverse \<or> \<not> montgomery_rr_matches modulus rr modulus_bits then None
            else Some blob
          }
        }
      })"

section \<open>References to a key\<close>

definition sign_extend :: "u32 \<Rightarrow> nat \<Rightarrow> int" where
  "sign_extend v bits = sint (signed_drop_bit (64 - bits) (push_bit (64 - bits) (ucast v :: u64)))"

definition adr_immediate :: "u32 \<Rightarrow> int" where
  "adr_immediate w =
     sign_extend (push_bit 2 (drop_bit 5 w AND 0x7ffff) OR (drop_bit 29 w AND 3)) 21"

text \<open>The target of the first \<open>add\<close> of the page register behind an \<open>adrp\<close>.\<close>

function add_target :: "byte list \<Rightarrow> int \<Rightarrow> u32 \<Rightarrow> nat \<Rightarrow> nat \<Rightarrow> int option" where
  "add_target data page register add_limit add_offset =
     (if add_offset < add_limit then
        (case read_u32_le data add_offset of
           None \<Rightarrow> None
         | Some add \<Rightarrow>
             if add AND 0x7f000000 = 0x11000000 \<and> add AND 0x80000000 \<noteq> 0 \<and>
                drop_bit 5 add AND 0x1f = register
             then (let immediate = uint (drop_bit 10 add AND 0xfff)
                   in Some (page + (if drop_bit 22 add AND 1 \<noteq> 0 then push_bit 12 immediate else immediate)))
             else add_target data page register add_limit (add_offset + 4))
      else None)"
  by pat_completeness auto
termination
  by (relation "measure (\<lambda>(data, page, register, add_limit, add_offset). add_limit - add_offset)") auto

declare add_target.simps [simp del]

text \<open>The address that the instruction at a place computes, if it is an \<open>adr\<close> or an \<open>adrp\<close> with its \<open>add\<close>.\<close>

definition instruction_target :: "byte list \<Rightarrow> nat \<Rightarrow> int \<Rightarrow> nat \<Rightarrow> u32 \<Rightarrow> int option" where
  "instruction_target data raw_end pc instruction w =
     (if w AND 0x9f000000 = 0x10000000 then Some (pc + adr_immediate w)
      else if w AND 0x9f000000 = 0x90000000
      then add_target data ((pc AND NOT 0xfff) + push_bit 12 (adr_immediate w)) (w AND 0x1f)
             (min (instruction + 20) raw_end) (instruction + 4)
      else None)"

function range_references ::
    "byte list \<Rightarrow> (int \<Rightarrow> bool) \<Rightarrow> (nat \<Rightarrow> bool) \<Rightarrow> nat \<times> nat \<times> int \<Rightarrow> nat \<Rightarrow> nat" where
  "range_references data in_key skipped (raw_start, raw_end, section_rva) instruction =
     (if instruction + 4 \<le> raw_end then
        if skipped instruction
        then range_references data in_key skipped (raw_start, raw_end, section_rva) (instruction + 4)
        else
          (case read_u32_le data instruction of
             None \<Rightarrow> 0
           | Some w \<Rightarrow>
               (case instruction_target data raw_end
                   (section_rva + (int instruction - int raw_start)) instruction w of
                  Some target \<Rightarrow> if in_key target then 1 else 0 | None \<Rightarrow> 0) +
               range_references data in_key skipped (raw_start, raw_end, section_rva) (instruction + 4))
      else 0)"
  by pat_completeness auto
termination
  by (relation "measure (\<lambda>(data, k, s, (_, raw_end, _), instruction). raw_end - instruction)") auto

declare range_references.simps [simp del]

definition instruction_references :: "pe_image \<Rightarrow> nat \<Rightarrow> nat \<Rightarrow> nat" where
  "instruction_references pe key_start key_size =
     (case raw_to_rva pe key_start of
        None \<Rightarrow> 0
      | Some key_rva \<Rightarrow>
          sum_list (map (\<lambda>(raw_start, raw_end, section_rva).
              range_references (img_data pe) (\<lambda>target. key_rva \<le> target \<and> target < key_rva + int key_size)
                (\<lambda>instruction. key_start \<le> instruction \<and> instruction < key_start + key_size)
                (raw_start, raw_end, section_rva) (raw_start + (4 - raw_start mod 4) mod 4))
            (text_ranges pe)))"

section \<open>The search\<close>

text \<open>One candidate: a blob is kept when its place is mapped and no equal blob was kept before.\<close>

definition add_candidate :: "pe_image \<Rightarrow> key_blob list \<Rightarrow> nat \<times> nat \<Rightarrow> key_blob list" where
  "add_candidate pe found = (\<lambda>(bits, p).
     case decode_key_candidate (img_data pe) p bits of
       None \<Rightarrow> found
     | Some blob \<Rightarrow>
         if raw_to_rva pe p = None \<or> blob \<in> kb_blob ` set found then found
         else found @ [\<lparr> kb_raw_offset = p, kb_blob = blob,
                kb_references = instruction_references pe p (length blob) \<rparr>])"

definition key_candidates :: "byte list \<Rightarrow> (nat \<times> nat) list" where
  "key_candidates data =
     concat (map (\<lambda>bits. map (Pair bits) (window_positions data (u32_be (of_nat bits)))) RSA_KEY_BITS)"

definition find_key_blobs :: "pe_image \<Rightarrow> key_blob list" where
  "find_key_blobs pe = foldl (add_candidate pe) [] (key_candidates (img_data pe))"

datatype abl_error = LoaderNotFound | KeyNotFound | AblTooLarge nat

definition HEX :: string where "HEX = ''0123456789abcdef''"

definition hex_digest :: "byte list \<Rightarrow> string" where
  "hex_digest digest =
     concat (map (\<lambda>b. [HEX ! unat (drop_bit 4 b), HEX ! unat (b AND 0x0f)]) digest)"

definition extract_from_bytes ::
    "lzma_decoder \<Rightarrow> (byte list \<Rightarrow> byte list) \<Rightarrow> byte list \<Rightarrow> abl_error + string" where
  "extract_from_bytes lzma sha1 raw =
     bind_r (ok_or (load_linuxloader lzma raw) LoaderNotFound) (\<lambda>pe.
       let keys = find_key_blobs pe in
       if keys = [] then Inl KeyNotFound
       else
         let highest = Max (kb_references ` set keys);
             kept = sort_key kb_raw_offset (filter (\<lambda>k. kb_references k = highest) keys)
         in case kept of
              [] \<Rightarrow> Inl KeyNotFound
            | k # _ \<Rightarrow> Inr (hex_digest (sha1 (kb_blob k))))"

text \<open>A file that reports a size of at most the limit is read and searched.\<close>

definition extract_abl_avb_pubkey_sha1 ::
    "lzma_decoder \<Rightarrow> (byte list \<Rightarrow> byte list) \<Rightarrow> nat \<Rightarrow> byte list \<Rightarrow> abl_error + string" where
  "extract_abl_avb_pubkey_sha1 lzma sha1 file_size raw =
     (if file_size > MAX_INPUT_SIZE then Inl (AblTooLarge file_size) else extract_from_bytes lzma sha1 raw)"

end
