(* ===== verification/Abl_Limbs.thy ===== *)
theory Abl_Limbs
  imports Abl_Key
begin

text \<open>
  The numbers behind the limbs and the bytes of \<open>abl_key.rs\<close>: the value of a list of limbs, and what
  the limb routines compute on it.
\<close>

section \<open>Values\<close>

fun limbs_val :: "u32 list \<Rightarrow> nat" where
  "limbs_val [] = 0"
| "limbs_val (x # xs) = unat x + 2 ^ 32 * limbs_val xs"

fun be_val :: "byte list \<Rightarrow> nat" where
  "be_val [] = 0"
| "be_val (b # bs) = unat b * 256 ^ length bs + be_val bs"

lemma unat_u32_less [simp]: "unat (x :: u32) < 4294967296"
  using unsigned_less [of x] by simp

lemma unat_byte_less [simp]: "unat (b :: byte) < 256"
  using unsigned_less [of b] by simp

lemma limbs_val_less: "limbs_val xs < (2 ^ 32) ^ length xs"
proof (induction xs)
  case (Cons x xs)
  have "limbs_val (x # xs) < 2 ^ 32 * (limbs_val xs + 1)" by simp
  also have "\<dots> \<le> 2 ^ 32 * (2 ^ 32) ^ length xs"
    using Cons by (intro mult_le_mono2) simp
  finally show ?case by simp
qed simp

lemma limbs_val_append: "limbs_val (xs @ ys) = limbs_val xs + (2 ^ 32) ^ length xs * limbs_val ys"
  by (induction xs) (simp_all add: algebra_simps)

lemma limbs_val_inj: "length xs = length ys \<Longrightarrow> limbs_val xs = limbs_val ys \<longleftrightarrow> xs = ys"
proof (induction xs ys rule: list_induct2)
  case (Cons x xs y ys)
  have "limbs_val (x # xs) mod 2 ^ 32 = unat x" "limbs_val (x # xs) div 2 ^ 32 = limbs_val xs"
       "limbs_val (y # ys) mod 2 ^ 32 = unat y" "limbs_val (y # ys) div 2 ^ 32 = limbs_val ys"
    by simp_all
  then show ?case using Cons.IH by (metis list.inject word_unat_eq_iff)
qed simp

lemma be_val_append: "be_val (xs @ ys) = be_val xs * 256 ^ length ys + be_val ys"
  by (induction xs) (simp_all add: algebra_simps power_add)

lemma be_val_replicate0 [simp]: "be_val (replicate n 0) = 0"
  by (induction n) simp_all

lemma be_val_less: "be_val bs < 256 ^ length bs"
proof (induction bs)
  case (Cons b bs)
  then have "be_val (b # bs) < (unat b + 1) * 256 ^ length bs" by simp
  also have "\<dots> \<le> 256 * 256 ^ length bs"
    using unat_byte_less [of b] by (intro mult_le_mono1) linarith
  finally show ?case by simp
qed simp

section \<open>Comparison\<close>

lemma lex_ge_iff:
  "length xs = length ys \<Longrightarrow> lex_ge xs ys \<longleftrightarrow> limbs_val (rev xs) \<ge> limbs_val (rev ys)"
proof (induction xs ys rule: list_induct2)
  case (Cons x xs y ys)
  let ?b = "(2 ^ 32) ^ length xs :: nat"
  have l: "limbs_val (rev xs) < ?b" "limbs_val (rev ys) < ?b"
    using limbs_val_less [of "rev xs"] limbs_val_less [of "rev ys"] Cons.hyps by simp_all
  have v: "limbs_val (rev (x # xs)) = limbs_val (rev xs) + ?b * unat x"
          "limbs_val (rev (y # ys)) = limbs_val (rev ys) + ?b * unat y"
    using Cons.hyps by (simp_all add: limbs_val_append)
  have lt: "limbs_val (rev us) + ?b * unat a < limbs_val (rev ws) + ?b * unat b"
    if "limbs_val (rev us) < ?b" "unat a < unat b" for us ws and a b :: u32
  proof -
    have "?b * (unat a + 1) \<le> ?b * unat b" using that by (intro mult_le_mono2) simp
    then show ?thesis using that by simp
  qed
  consider "unat x < unat y" | "unat y < unat x" | "x = y"
    by (metis linorder_neqE_nat word_unat_eq_iff)
  then show ?case
  proof cases
    case 1
    then show ?thesis using lt [OF l(1) 1, of ys] v by (auto simp: word_less_nat_alt)
  next
    case 2
    then show ?thesis using lt [OF l(2) 2, of xs] v by (auto simp: word_less_nat_alt)
  next
    case 3
    then show ?thesis using Cons.IH v by simp
  qed
qed simp

lemma limbs_ge_iff: "length xs = length ys \<Longrightarrow> limbs_ge xs ys \<longleftrightarrow> limbs_val xs \<ge> limbs_val ys"
  by (simp add: limbs_ge_def lex_ge_iff)

section \<open>Doubling and subtraction\<close>

section \<open>Doubling and subtraction\<close>

lemma unat_le_1_cases: "unat c \<le> 1 \<Longrightarrow> c = 0 \<or> c = 1"
  by (metis le_less_Suc_eq less_Suc0 not_less_eq One_nat_def unat_eq_zero unat_1 word_unat_eq_iff le_zero_eq le_SucE)

lemma unat_drop_31: "unat (drop_bit 31 (l :: u32)) = unat l div 2147483648"
proof -
  have "unat (drop_bit 31 l) = drop_bit 31 (unat l)" by (rule unat_drop_bit_eq)
  also have "\<dots> = unat l div 2147483648" by (simp add: drop_bit_eq_div)
  finally show ?thesis .
qed

lemma unat_double_limb:
  fixes l c :: u32
  assumes "unat c \<le> 1"
  shows "unat (push_bit 1 l OR c) + 2 ^ 32 * unat (drop_bit 31 l) = 2 * unat l + unat c"
proof -
  have p: "push_bit 1 l = 2 * l" by (simp add: push_bit_eq_mult)
  have "unat (2 * l) = (2 * unat l) mod (2 * 2147483648)" by (simp add: unat_word_ariths)
  then have d: "unat (2 * l) = 2 * (unat l mod 2147483648)" by (simp only: mult_mod_right)
  have "2 * (u mod m) + (2 * m) * (u div m) = 2 * u" for u m :: nat
    using mult_div_mod_eq [of m u] by (metis add.commute distrib_left mult.assoc)
  from this [of "unat l" 2147483648]
  have q: "2 * (unat l mod 2147483648) + 4294967296 * (unat l div 2147483648) = 2 * unat l" by simp
  from unat_le_1_cases [OF assms] show ?thesis
  proof
    assume "c = 0"
    then have "push_bit 1 l OR c = 2 * l" by (simp only: p or.right_neutral)
    then show ?thesis using \<open>c = 0\<close> q by (simp only: d unat_drop_31) simp
  next
    assume c: "c = 1"
    have "unat l mod 2147483648 < 2147483648" by simp
    then have "2 * (unat l mod 2147483648) + 1 < 4294967296" by linarith
    then have "unat (2 * l + 1) = unat (2 * l) + 1"
      unfolding d by (simp add: unat_word_ariths(1) d)
    moreover have "push_bit 1 l OR c = 2 * l + 1" unfolding p c by (simp add: or_one_eq)
    ultimately show ?thesis using c q by (simp only: d unat_drop_31) simp
  qed
qed

lemma unat_drop_bit_31: "unat (drop_bit 31 (l :: u32)) \<le> 1"
  using less_mult_imp_div_less [of "unat l" 2 2147483648] unat_u32_less [of l] unfolding unat_drop_31 by linarith

lemma double_step:
  fixes h :: nat
  assumes "h + k * d = 2 * l + c" and "z + p * q = 2 * x + d"
  shows "(h + k * z) + k * p * q = 2 * (l + k * x) + c"
proof -
  have "k * (z + p * q) = k * (2 * x + d)" using assms(2) by simp
  with assms(1) show ?thesis by (simp add: algebra_simps)
qed

lemma sub_step:
  fixes h :: nat
  assumes "h + r + b = l + k * c" and "s + v + c = x + p * q"
  shows "(h + k * s) + (r + k * v) + b = (l + k * x) + k * p * q"
proof -
  have "k * (s + v + c) = k * (x + p * q)" using assms(2) by simp
  with assms(1) show ?thesis by (simp add: algebra_simps)
qed

lemma limbs_double_val:
  "limbs_double c xs = (ys, out) \<Longrightarrow> unat c \<le> 1 \<Longrightarrow>
   length ys = length xs \<and> unat out \<le> 1 \<and>
   limbs_val ys + (2 ^ 32) ^ length xs * unat out = 2 * limbs_val xs + unat c"
proof (induction xs arbitrary: c ys out)
  case (Cons l xs)
  obtain zs o2 where d: "limbs_double (drop_bit 31 l) xs = (zs, o2)" by fastforce
  with Cons.prems(1) have zs: "limbs_double (drop_bit 31 l) xs = (zs, out)"
    and ys: "ys = (push_bit 1 l OR c) # zs" by simp_all
  from Cons.IH [OF zs unat_drop_bit_31]
  have ih: "length zs = length xs" "unat out \<le> 1"
    "limbs_val zs + (2 ^ 32) ^ length xs * unat out = 2 * limbs_val xs + unat (drop_bit 31 l)" by blast+
  from double_step [OF unat_double_limb [OF Cons.prems(2), of l] ih(3)] ih(1,2)
  show ?case unfolding ys limbs_val.simps length_Cons power_Suc by simp
qed auto

lemma unat_ucast_wide:
  "LENGTH('a) \<le> LENGTH('b) \<Longrightarrow> unat (ucast (x :: 'a :: len word) :: 'b :: len word) = unat x"
  by (simp add: unsigned_ucast_eq) (metis order_less_le_trans power_increasing one_le_numeral unsigned_less take_bit_nat_eq_self)

lemma ucast_minus_u32: "(ucast (x - y :: u64) :: u32) = ucast x - ucast y"
proof -
  have t: "take_bit 32 (take_bit 64 i) = take_bit 32 i" for i :: int by simp
  have "take_bit 32 (take_bit 64 i - take_bit 64 j) = take_bit 32 (i - j)" for i j :: int
    using take_bit_diff [of 32 "take_bit 64 i" "take_bit 64 j"] take_bit_diff [of 32 i j] unfolding t by metis
  then show ?thesis by transfer simp
qed

lemma ucast_plus_u32: "(ucast (x + y :: u64) :: u32) = ucast x + ucast y"
proof -
  have t: "take_bit 32 (take_bit 64 i) = take_bit 32 i" for i :: int by simp
  have "take_bit 32 (take_bit 64 i + take_bit 64 j) = take_bit 32 (i + j)" for i j :: int
    using take_bit_add [of 32 "take_bit 64 i" "take_bit 64 j"] take_bit_add [of 32 i j] unfolding t by metis
  then show ?thesis by transfer simp
qed

lemma sub_limb:
  fixes l r :: u32 and b :: u64
  assumes "unat b \<le> 1"
  shows "unat (ucast ((ucast l :: u64) - (ucast r + b)) :: u32) + unat r + unat b
     = unat l + (if (ucast l :: u64) < ucast r + b then 2 ^ 32 else 0)"
proof -
  have w: "(ucast (ucast x :: u64) :: u32) = x" for x :: u32
    by (rule bit_word_eqI) (auto simp: byte_bits dest: bit_imp_le_length)
  have u: "unat (ucast x :: u64) = unat x" for x :: u32
    by (rule unat_ucast_wide) simp
  have s: "unat (ucast r + b) = unat r + unat b"
    using assms unat_u32_less [of r] by (simp add: unat_word_ariths u del: unat_u32_less)
  have lt: "(ucast l :: u64) < ucast r + b \<longleftrightarrow> unat l < unat r + unat b"
    by (simp add: word_less_nat_alt s u)
  have "b = 0 \<or> b = 1" using assms by (rule unat_le_1_cases)
  then have "unat (ucast b :: u32) = unat b" by auto
  moreover have "(ucast ((ucast l :: u64) - (ucast r + b)) :: u32) = l - (r + ucast b)"
    by (simp add: ucast_minus_u32 ucast_plus_u32 w)
  moreover have "unat l < 4294967296" "unat r < 4294967296" by simp_all
  ultimately show ?thesis unfolding lt using assms
    by (auto simp: unat_sub_if' unat_plus_if' simp del: unat_u32_less)
qed

lemma limbs_sub_val:
  "length left = length right \<Longrightarrow> unat b \<le> 1 \<Longrightarrow>
   length (limbs_sub b left right) = length left \<and>
   (\<exists>out \<le> 1. limbs_val (limbs_sub b left right) + limbs_val right + unat b
      = limbs_val left + (2 ^ 32) ^ length left * out)"
proof (induction left right arbitrary: b rule: list_induct2)
  case (Cons l left r right)
  let ?c = "if (ucast l :: u64) < ucast r + b then 1 else (0 :: u64)"
  have "unat ?c \<le> 1" by simp
  from Cons.IH [OF this] obtain out where out: "out \<le> 1"
    "length (limbs_sub ?c left right) = length left"
    "limbs_val (limbs_sub ?c left right) + limbs_val right + unat ?c
      = limbs_val left + (2 ^ 32) ^ length left * out" by blast
  let ?x = "ucast ((ucast l :: u64) - (ucast r + b)) :: u32"
  have s: "limbs_sub b (l # left) (r # right) = ?x # limbs_sub ?c left right"
    by (simp add: Let_def)
  have x: "unat ?x + unat r + unat b = unat l + 2 ^ 32 * unat ?c"
    using sub_limb [OF Cons.prems, of l r] by simp
  from sub_step [OF x out(3)] have "limbs_val (?x # limbs_sub ?c left right) + limbs_val (r # right) + unat b
      = limbs_val (l # left) + (2 ^ 32) ^ length (l # left) * out"
    by (simp only: limbs_val.simps length_Cons power_Suc)
  then show ?case unfolding s using out(1,2) by auto
qed auto

section \<open>Repeated doubling\<close>

lemma double_mod_val:
  assumes len: "length m = length v" and v: "limbs_val v < limbs_val m"
  shows "length (double_mod m v) = length v \<and> limbs_val (double_mod m v) = 2 * limbs_val v mod limbs_val m"
proof -
  obtain ys out where d: "limbs_double 0 v = (ys, out)" by fastforce
  define B :: nat where "B = (2 ^ 32) ^ length v"
  from limbs_double_val [OF d]
  have ys: "length ys = length v" "unat out \<le> 1" "limbs_val ys + B * unat out = 2 * limbs_val v"
    by (simp_all add: B_def)
  have mB: "limbs_val m < B" using limbs_val_less [of m] len by (simp add: B_def)
  have yB: "limbs_val ys < B" using limbs_val_less [of ys] ys(1) by (simp add: B_def)
  have ge: "limbs_ge ys m \<longleftrightarrow> limbs_val ys \<ge> limbs_val m"
    using limbs_ge_iff [of ys m] ys(1) len by simp
  have o: "out = 0 \<or> out = 1" using ys(2) by (rule unat_le_1_cases)
  show ?thesis
  proof (cases "out \<noteq> 0 \<or> limbs_ge ys m")
    case True
    then have dm: "double_mod m v = limbs_sub 0 ys m"
      by (simp add: double_mod_def d limbs_sub_assign_def)
    from limbs_sub_val [of ys m 0] ys(1) len obtain q where q: "q \<le> 1"
      "length (limbs_sub 0 ys m) = length v"
      "limbs_val (limbs_sub 0 ys m) + limbs_val m = limbs_val ys + B * q"
      by (auto simp: B_def)
    have sB: "limbs_val (limbs_sub 0 ys m) < B"
      using limbs_val_less [of "limbs_sub 0 ys m"] q(2) by (simp add: B_def)
    have ge2: "2 * limbs_val v \<ge> limbs_val m" using True o ys(3) mB ge by auto
    have "q = 0 \<or> q = 1" using q(1) by auto
    then have "limbs_val (limbs_sub 0 ys m) = 2 * limbs_val v - limbs_val m"
      using o q(3) ys(3) mB yB sB v True ge by auto
    moreover have "2 * limbs_val v mod limbs_val m = 2 * limbs_val v - limbs_val m"
      using ge2 v by (simp add: le_mod_geq)
    ultimately show ?thesis using q(2) dm by simp
  next
    case False
    then have "double_mod m v = ys" by (simp add: double_mod_def d)
    then show ?thesis using False o ys ge by auto
  qed
qed

lemma double_mod_power:
  assumes len: "length m = length v" and v: "limbs_val v = 1" and m: "1 < limbs_val m"
  shows "length ((double_mod m ^^ i) v) = length v \<and> limbs_val ((double_mod m ^^ i) v) = 2 ^ i mod limbs_val m"
proof (induction i)
  case (Suc i)
  let ?w = "(double_mod m ^^ i) v"
  have "length (double_mod m ?w) = length ?w \<and> limbs_val (double_mod m ?w) = 2 * limbs_val ?w mod limbs_val m"
    using Suc m len by (intro double_mod_val) simp_all
  then show ?case using Suc by (simp add: mod_mult_right_eq)
qed (use v m in simp)

section \<open>Bytes to limbs\<close>

lemma unat_u32_of_be:
  "unat (u32_of_be a b c d) = be_val [a, b, c, d]"
proof -
  have n: "u32_of_be a b c d = ucast d + 2 ^ 8 * ucast c + 2 ^ 16 * ucast b + 2 ^ 24 * ucast a"
  proof -
    have s: "u32_of_be a b c d = ucast d OR (push_bit 8 (ucast c) OR (push_bit 16 (ucast b) OR push_bit 24 (ucast a)))"
      by (simp add: u32_of_be_def u32_of_le_def or.assoc)
    have z: "ucast d AND (push_bit 8 (ucast c) OR (push_bit 16 (ucast b) OR push_bit 24 (ucast a))) = (0 :: u32)"
      "push_bit 8 (ucast c) AND (push_bit 16 (ucast b) OR push_bit 24 (ucast a)) = (0 :: u32)"
      "push_bit 16 (ucast b) AND push_bit 24 (ucast a) = (0 :: u32)"
      by (rule bit_word_eqI; auto simp: byte_bits dest!: bit_imp_le_length)+
    show ?thesis unfolding s
      unfolding disjunctive_add_eq_or [OF z(1), symmetric]
      unfolding disjunctive_add_eq_or [OF z(2), symmetric]
      unfolding disjunctive_add_eq_or [OF z(3), symmetric] by (simp add: push_bit_eq_mult)
  qed
  have u: "unat (ucast x :: u32) = unat x" for x :: byte by (rule unat_ucast_wide) simp
  have l: "unat a < 256" "unat b < 256" "unat c < 256" "unat d < 256"
    by simp_all
  then have e: "256 * unat c < 4294967296" "65536 * unat b < 4294967296"
    "unat d + 256 * unat c < 4294967296" "unat d + 256 * unat c + 65536 * unat b < 4294967296"
    "unat d + 256 * unat c + 65536 * unat b + 16777216 * unat a < 4294967296" by linarith+
  show ?thesis unfolding n by (simp add: unat_word_ariths u e)
qed

lemma unat_limb_of_chunk:
  assumes "length cs = 4" shows "unat (limb_of_chunk cs) = be_val cs"
proof -
  from assms obtain a b c d where "cs = [a, b, c, d]" by (auto simp: length_Suc_conv numeral_eq_Suc)
  then show ?thesis by (simp add: limb_of_chunk_def rd32_be_def unat_u32_of_be del: be_val.simps)
qed

lemma limbs_of_chunks:
  "length bs = 4 * k \<Longrightarrow>
   length (rchunks4 bs) = k \<and> limbs_val (map limb_of_chunk (rchunks4 bs)) = be_val bs"
proof (induction k arbitrary: bs)
  case (Suc k)
  let ?hi = "take (4 * k) bs" and ?lo = "drop (4 * k) bs"
  have r: "rchunks4 bs = ?lo # rchunks4 ?hi"
    using Suc.prems by (subst rchunks4.simps) auto
  have ih: "length (rchunks4 ?hi) = k" "limbs_val (map limb_of_chunk (rchunks4 ?hi)) = be_val ?hi"
    using Suc.IH [of ?hi] Suc.prems by simp_all
  have "be_val bs = be_val ?hi * 256 ^ 4 + be_val ?lo"
    using be_val_append [of ?hi ?lo] Suc.prems by simp
  moreover have "unat (limb_of_chunk ?lo) = be_val ?lo"
    using Suc.prems by (intro unat_limb_of_chunk) simp
  ultimately show ?case using ih by (simp add: r)
qed (simp add: rchunks4.simps)

lemma be_bytes_to_limbs_val:
  assumes "length bs = 4 * k"
  shows "length (be_bytes_to_limbs bs k) = k" "limbs_val (be_bytes_to_limbs bs k) = be_val bs"
  using limbs_of_chunks [OF assms] by (simp_all add: be_bytes_to_limbs_def)

lemma limbs_val_zeros [simp]: "limbs_val (replicate n 0) = 0"
  by (induction n) simp_all

theorem montgomery_rr_matches_iff:
  assumes m: "length modulus = 4 * k" and r: "length rr = 4 * k" and n: "1 < be_val modulus"
  shows "montgomery_rr_matches modulus rr bits \<longleftrightarrow> be_val rr = 2 ^ (2 * bits) mod be_val modulus"
proof -
  have k: "0 < k" using m n by (cases k) auto
  let ?one = "(replicate k 0)[0 := 1] :: u32 list"
  have one: "length ?one = k" "limbs_val ?one = 1" using k by (cases k; simp)+
  have lc: "(length modulus + 3) div 4 = k" using m by simp
  have p: "length ((double_mod (be_bytes_to_limbs modulus k) ^^ (bits * 2)) ?one) = k \<and>
      limbs_val ((double_mod (be_bytes_to_limbs modulus k) ^^ (bits * 2)) ?one) = 2 ^ (bits * 2) mod be_val modulus"
    using double_mod_power [of "be_bytes_to_limbs modulus k" ?one "bits * 2"] one n
    by (simp add: be_bytes_to_limbs_val [OF m])
  have "(double_mod (be_bytes_to_limbs modulus k) ^^ (bits * 2)) ?one = be_bytes_to_limbs rr k \<longleftrightarrow>
      2 ^ (bits * 2) mod be_val modulus = be_val rr"
    using limbs_val_inj [of _ "be_bytes_to_limbs rr k"] p be_bytes_to_limbs_val [OF r] by metis
  then show ?thesis by (auto simp: montgomery_rr_matches_def lc mult.commute)
qed

section \<open>Bit length\<close>

lemma leading_zeros8_bounds:
  fixes b :: byte
  assumes "b \<noteq> 0"
  shows "leading_zeros8 b < 8 \<and> 2 ^ (7 - leading_zeros8 b) \<le> unat b \<and> unat b < 2 ^ (8 - leading_zeros8 b)"
proof -
  have "list_all (\<lambda>n. n = 0 \<or> leading_zeros8 (of_nat n) < 8 \<and> 2 ^ (7 - leading_zeros8 (of_nat n)) \<le> n \<and>
      n < 2 ^ (8 - leading_zeros8 (of_nat n))) [0..<256]" by code_simp
  then have "\<forall>n \<in> set [0..<256]. n = 0 \<or> leading_zeros8 (of_nat n) < 8 \<and> 2 ^ (7 - leading_zeros8 (of_nat n)) \<le> n \<and>
      n < 2 ^ (8 - leading_zeros8 (of_nat n))" by (simp only: list_all_iff)
  moreover have "unat b \<in> set [0..<256]" by simp
  ultimately have "unat b = 0 \<or> leading_zeros8 (of_nat (unat b)) < 8 \<and>
      2 ^ (7 - leading_zeros8 (of_nat (unat b))) \<le> unat b \<and>
      unat b < 2 ^ (8 - leading_zeros8 (of_nat (unat b)))" by (rule bspec)
  then show ?thesis using assms by (simp add: unat_eq_zero)
qed

lemma bit_length_be_bounds:
  "be_val bs \<noteq> 0 \<Longrightarrow> bit_length_be bs \<noteq> 0 \<and> 2 ^ (bit_length_be bs - 1) \<le> be_val bs \<and> be_val bs < 2 ^ bit_length_be bs"
proof (induction bs)
  case (Cons b bs)
  show ?case
  proof (cases "b = 0")
    case False
    let ?z = "8 - leading_zeros8 b" and ?n = "length bs"
    have z: "1 \<le> ?z" "2 ^ (?z - 1) \<le> unat b" "unat b < 2 ^ ?z"
      using leading_zeros8_bounds [OF False] by auto
    have p: "(256 :: nat) ^ ?n = 2 ^ (?n * 8)" by (simp add: power_mult [of 2 8 ?n, simplified] mult.commute [of ?n])
    have "2 ^ (?n * 8 + ?z - 1) = 2 ^ (?z - 1) * (256 :: nat) ^ ?n"
      using z(1) by (simp add: p flip: power_add)
    also have "\<dots> \<le> unat b * 256 ^ ?n" using z(2) by (rule mult_le_mono1)
    also have "\<dots> \<le> be_val (b # bs)" by simp
    finally have lo: "2 ^ (?n * 8 + ?z - 1) \<le> be_val (b # bs)" .
    have "be_val (b # bs) < (unat b + 1) * 256 ^ ?n" using be_val_less [of bs] by simp
    also have "\<dots> \<le> 2 ^ ?z * 256 ^ ?n" using z(3) by (intro mult_le_mono1) simp
    also have "\<dots> = 2 ^ (?n * 8 + ?z)" by (simp add: p flip: power_add)
    finally show ?thesis using lo z(1) False by simp
  qed (use Cons in simp)
qed simp

section \<open>Inverse of the low word\<close>

lemma newton_step_error: "1 - w * newton_step w x = (1 - w * x) ^ 2"
  by (simp add: newton_step_def algebra_simps power2_eq_square)

lemma newton_inverse:
  fixes w :: u32
  assumes "odd w"
  shows "w * (newton_step w ^^ 5) w = 1"
proof -
  have e: "1 - w * (newton_step w ^^ i) w = (1 - w * w) ^ (2 ^ i)" for i
    by (induction i) (simp_all add: newton_step_error power_mult [symmetric] mult.commute)
  from assms obtain q where "w = 2 * q + 1" by (rule oddE)
  then have "1 - w * w = 2 * (- (2 * q * q + 2 * q))" by (simp add: algebra_simps)
  then obtain f where f: "1 - w * w = 2 * f" by blast
  have "1 - w * (newton_step w ^^ 5) w = (2 * f) ^ (2 ^ 5)" unfolding e f ..
  also have "\<dots> = 2 ^ 32 * f ^ 32" by (simp add: power_mult_distrib)
  also have "(2 :: u32) ^ 32 = 0" by (simp only: exp_eq_zero_iff) simp
  finally have "1 - w * (newton_step w ^^ 5) w = 0" by simp
  then show ?thesis by simp
qed

lemma negated_inverse_iff:
  fixes w x y :: u32
  assumes "w * x = 1"
  shows "y = - x \<longleftrightarrow> y * w + 1 = 0"
proof
  assume "y = - x"
  then show "y * w + 1 = 0" using assms by (simp add: mult.commute)
next
  assume a: "y * w + 1 = 0"
  have "y = y * (w * x)" using assms by simp
  also have "\<dots> = (y * w + 1) * x - x" by (simp add: algebra_simps)
  finally show "y = - x" using a by simp
qed

end
