(* ===== verification/Abl_Props.thy ===== *)
theory Abl_Props
  imports Abl_Limbs
begin

text \<open>
  What the search of \<open>abl_key.rs\<close> accepts and what it reports: the blobs are exactly the consistent
  AVB public keys, and the fingerprint is that of a most referenced one.
\<close>

section \<open>The number of bits\<close>

fun number_bits :: "nat \<Rightarrow> nat" where
  "number_bits n = (if n = 0 then 0 else number_bits (n div 2) + 1)"

declare number_bits.simps [simp del]

lemma less_number_bits: "j < number_bits n \<longleftrightarrow> 2 ^ j \<le> n"
proof (induction n arbitrary: j rule: number_bits.induct)
  case (1 n)
  show ?case
  proof (cases "n = 0")
    case False
    then have s: "number_bits n = number_bits (n div 2) + 1" by (subst number_bits.simps) simp
    show ?thesis
    proof (cases j)
      case 0
      then show ?thesis using s False by simp
    next
      case (Suc i)
      have "2 ^ i \<le> n div 2 \<longleftrightarrow> 2 * 2 ^ i \<le> n" by linarith
      then show ?thesis using 1 [OF False, of i] s Suc by simp
    qed
  qed (simp add: number_bits.simps)
qed

lemma bit_length_be_zero: "be_val bs = 0 \<Longrightarrow> bit_length_be bs = 0"
  by (induction bs) (auto simp: unat_eq_zero)

lemma bit_length_be_number: "bit_length_be bs = number_bits (be_val bs)"
proof (cases "be_val bs = 0")
  case True
  then show ?thesis by (simp add: bit_length_be_zero number_bits.simps)
next
  case False
  from bit_length_be_bounds [OF this] have b: "bit_length_be bs \<noteq> 0"
    "bit_length_be bs - 1 < number_bits (be_val bs)" "\<not> bit_length_be bs < number_bits (be_val bs)"
    by (simp_all add: less_number_bits)
  then show ?thesis by linarith
qed

section \<open>Consistent keys\<close>

text \<open>
  The header of an AVB public key: the size of the modulus in bits, the negated inverse of the
  modulus modulo \<open>2 ^ 32\<close>, the odd modulus, and the square of the least power of two above the
  modulus, reduced by the modulus.
\<close>

definition avb_key :: "nat \<Rightarrow> byte list \<Rightarrow> bool" where
  "avb_key bits blob =
     (let k = bits div 8; n = be_val (window blob 8 (8 + k)) in
        length blob = 8 + 2 * k \<and> be_val (window blob 0 4) = bits \<and> 2 ^ (bits div 2) \<le> n \<and> odd n \<and>
        (be_val (window blob 4 8) * n + 1) mod 2 ^ 32 = 0 \<and>
        be_val (window blob (8 + k) (8 + 2 * k)) = (2 ^ number_bits n) ^ 2 mod n)"

lemma read_u32_be_Some:
  assumes "p + 4 \<le> length xs"
  obtains w where "read_u32_be xs p = Some w" "unat w = be_val (window xs p (p + 4))"
proof -
  have l: "length (window xs p (p + 4)) = 4" using assms by simp
  then obtain a b c d where w: "window xs p (p + 4) = [a, b, c, d]"
    by (auto simp: length_Suc_conv numeral_eq_Suc)
  have "read_u32_be xs p = Some (rd32_be (window xs p (p + 4)) 0)"
    using assms by (simp add: read_u32_be_def slice_def window_def)
  moreover have "unat (rd32_be (window xs p (p + 4)) 0) = be_val (window xs p (p + 4))"
    unfolding w by (simp add: rd32_be_def unat_u32_of_be del: be_val.simps)
  ultimately show ?thesis using that by blast
qed

lemma even_unat: "even (unat (w :: 'a :: len word)) \<longleftrightarrow> even w"
  by transfer (simp add: even_nat_iff)

lemma and_one_odd: "w AND 1 = 0 \<longleftrightarrow> even w" for w :: byte
  by (simp add: and_one_eq even_iff_mod_2_eq_zero)

lemma even_last:
  assumes "xs \<noteq> []"
  shows "last xs AND 1 = 0 \<longleftrightarrow> even (be_val xs)"
proof -
  have "be_val xs = be_val (butlast xs) * 256 + unat (last xs)"
    using be_val_append [of "butlast xs" "[last xs]"] assms by simp
  then show ?thesis by (simp add: and_one_odd even_unat)
qed

lemma low_word_val:
  assumes "4 \<le> length xs"
  obtains w where "read_u32_be xs (length xs - 4) = Some w" "unat w = be_val xs mod 2 ^ 32"
proof -
  let ?hi = "take (length xs - 4) xs" and ?lo = "drop (length xs - 4) xs"
  obtain w where w: "read_u32_be xs (length xs - 4) = Some w"
    "unat w = be_val (window xs (length xs - 4) (length xs - 4 + 4))"
    by (rule read_u32_be_Some [of "length xs - 4" xs]) (use assms in simp_all)
  have lo: "window xs (length xs - 4) (length xs - 4 + 4) = ?lo" using assms by (simp add: window_def)
  have "be_val xs = be_val ?hi * 2 ^ 32 + be_val ?lo"
    using be_val_append [of ?hi ?lo] assms by simp
  moreover have "be_val ?lo < 2 ^ 32" using be_val_less [of ?lo] assms by simp
  ultimately have "be_val xs mod 2 ^ 32 = be_val ?lo" by simp
  then show ?thesis using that w lo by metis
qed

lemma inverse_word_iff: "y * w + 1 = (0 :: u32) \<longleftrightarrow> (unat y * unat w + 1) mod 2 ^ 32 = 0"
  by (simp add: word_unat_eq_iff unat_word_ariths mod_simps)

lemma rsa_key_bits_cases: "bits \<in> set RSA_KEY_BITS \<Longrightarrow> bits = 2048 \<or> bits = 4096 \<or> bits = 8192"
  by (auto simp: RSA_KEY_BITS_def)

text \<open>A blob of the right size passes the checks exactly when it is a consistent key.\<close>

lemma decode_blob:
  assumes bits: "bits \<in> set RSA_KEY_BITS"
  shows "decode_key_candidate data p bits =
     (case slice data p (p + (8 + bits div 8 * 2)) of
        None \<Rightarrow> None | Some blob \<Rightarrow> if avb_key bits blob then Some blob else None)"
proof (cases "slice data p (p + (8 + bits div 8 * 2))")
  case None
  then show ?thesis by (simp add: decode_key_candidate_def Let_def)
next
  case (Some blob)
  define k where "k = bits div 8"
  define modulus where "modulus = window blob 8 (8 + k)"
  define rr where "rr = window blob (8 + k) (8 + k * 2)"
  define n where "n = be_val modulus"
  have k: "k = 4 * (bits div 32)" "256 \<le> k" "k * 8 = bits" and b32: "unat (of_nat bits :: u32) = bits"
    using rsa_key_bits_cases [OF bits] by (auto simp: k_def)
  have len: "length blob = 8 + k * 2" using Some by (auto simp: slice_Some_iff k_def)
  have lm: "length modulus = k" "length rr = k" and mne: "modulus \<noteq> []"
    using len k by (auto simp: modulus_def rr_def window_def)
  have sm: "slice blob 8 (8 + k) = Some modulus" "slice blob (8 + k) (8 + k * 2) = Some rr"
    using len by (simp_all add: slice_Some_iff modulus_def rr_def)
  obtain tag where tag: "read_u32_be blob 0 = Some tag" "unat tag = be_val (window blob 0 4)"
    by (rule read_u32_be_Some [of 0 blob]) (use len in auto)
  obtain n0 where n0: "read_u32_be blob 4 = Some n0" "unat n0 = be_val (window blob 4 8)"
    by (rule read_u32_be_Some [of 4 blob]) (use len k in auto)
  obtain low where low: "read_u32_be modulus (k - 4) = Some low" "unat low = n mod 2 ^ 32"
    by (rule low_word_val [of modulus]) (use lm k in \<open>auto simp: n_def\<close>)
  have sk: "slice data p (p + (8 + k * 2)) = Some blob" using Some by (simp add: k_def)
  have tag_eq: "tag = of_nat bits \<longleftrightarrow> be_val (window blob 0 4) = bits"
    using tag(2) b32 by (metis word_unat_eq_iff)
  have bl: "bit_length_be modulus = number_bits n" by (simp add: bit_length_be_number n_def)
  have size: "\<not> bits < number_bits n"
  proof -
    have "(256 :: nat) ^ k = 2 ^ bits" using power_mult [of "2 :: nat" 8 k] k(3) by (simp add: mult.commute)
    then show ?thesis using be_val_less [of modulus] lm by (simp add: less_number_bits n_def)
  qed
  have ev: "last modulus AND 1 = 0 \<longleftrightarrow> even n" using even_last [OF mne] by (simp add: n_def)
  have inv: "n0 = - ((newton_step low ^^ 5) low) \<longleftrightarrow> (be_val (window blob 4 8) * n + 1) mod 2 ^ 32 = 0"
    if "odd n"
  proof -
    have "odd (unat low)" using that low(2) by (simp add: dvd_mod_iff)
    then have "odd low" by (simp add: even_unat)
    from negated_inverse_iff [OF newton_inverse [OF this], of n0]
    have "n0 = - ((newton_step low ^^ 5) low) \<longleftrightarrow> (unat n0 * (n mod 2 ^ 32) + 1) mod 2 ^ 32 = 0"
      by (simp add: inverse_word_iff low(2))
    also have "(unat n0 * (n mod 2 ^ 32) + 1) mod 2 ^ 32 = (unat n0 * n + 1) mod 2 ^ 32"
      by (metis mod_add_left_eq mod_mult_right_eq)
    finally show ?thesis by (simp add: n0(2))
  qed
  have mont: "montgomery_rr_matches modulus rr (number_bits n) \<longleftrightarrow> be_val rr = (2 ^ number_bits n) ^ 2 mod n"
    if "2 ^ (bits div 2) \<le> n"
  proof -
    have "(2 :: nat) ^ 1 \<le> 2 ^ (bits div 2)" using k by (intro power_increasing) auto
    then have "1 < n" using that by simp
    then show ?thesis
      using montgomery_rr_matches_iff [of modulus "bits div 32" rr] lm k(1)
      by (simp add: n_def mult.commute flip: power_mult)
  qed
  have spec: "avb_key bits blob \<longleftrightarrow> be_val (window blob 0 4) = bits \<and> 2 ^ (bits div 2) \<le> n \<and> odd n \<and>
      (be_val (window blob 4 8) * n + 1) mod 2 ^ 32 = 0 \<and> be_val rr = (2 ^ number_bits n) ^ 2 mod n"
    by (simp add: avb_key_def Let_def len n_def modulus_def rr_def mult.commute flip: k_def)
  have "decode_key_candidate data p bits =
      (if tag \<noteq> of_nat bits \<or> \<not> (bits div 2 < number_bits n \<and> number_bits n \<le> bits) \<or> even n \<or>
          n0 \<noteq> - ((newton_step low ^^ 5) low) \<or> \<not> montgomery_rr_matches modulus rr (number_bits n)
       then None else Some blob)"
    unfolding decode_key_candidate_def
    by (simp add: sk tag(1) n0(1) sm low(1) bl ev mne Let_def flip: k_def del: funpow.simps)
  also have "\<dots> = (if avb_key bits blob then Some blob else None)"
  proof -
    have "number_bits n \<le> bits" using size by simp
    then show ?thesis unfolding spec tag_eq less_number_bits
      by (cases "2 ^ (bits div 2) \<le> n \<and> odd n") (auto simp: inv mont)
  qed
  finally show ?thesis using Some by simp
qed

lemma decode_key_Some:
  assumes "bits \<in> set RSA_KEY_BITS"
  shows "decode_key_candidate data p bits = Some blob \<longleftrightarrow>
     p + length blob \<le> length data \<and> window data p (p + length blob) = blob \<and> avb_key bits blob"
proof -
  have "avb_key bits blob \<Longrightarrow> length blob = 8 + bits div 8 * 2"
    by (simp add: avb_key_def Let_def)
  then show ?thesis unfolding decode_blob [OF assms]
    by (auto simp: slice_Some_iff split: option.splits if_splits) (metis slice_def option.discI le_add1)+
qed

text \<open>
  (C15) \<open>decode_key_candidate\<close> accepts a place exactly when a consistent AVB public key of that size
  stands there: the limb arithmetic, the doubling loop for the square of the Montgomery radix and the
  Newton iteration for the inverse compute what the key format asks for.
\<close>

theorem decode_key_candidate_iff:
  assumes "bits \<in> set RSA_KEY_BITS"
  shows "decode_key_candidate data p bits = Some blob \<longleftrightarrow>
     p + length blob \<le> length data \<and> window data p (p + length blob) = blob \<and> avb_key bits blob"
  by (rule decode_key_Some [OF assms])

text \<open>The key with the modulus \<open>2 ^ 2048 - 1\<close>.\<close>

definition sample_key :: "byte list" where
  "sample_key = [0, 0, 8, 0] @ [0, 0, 0, 1] @ replicate 256 255 @ replicate 255 0 @ [1]"

lemma be_val_ones: "be_val (replicate k 255) + 1 = 256 ^ k"
proof (induction k)
  case (Suc k)
  have "unat (255 :: byte) = 255" by code_simp
  then have "be_val (replicate (Suc k) 255) = 255 * 256 ^ k + be_val (replicate k 255)"
    by (simp only: replicate_Suc be_val.simps length_replicate)
  then show ?case using Suc by simp
qed simp

lemma number_bits_ones: "n + 1 = 2 ^ k \<Longrightarrow> number_bits n = k"
proof -
  assume n: "n + 1 = 2 ^ k"
  then have "\<not> k < number_bits n" by (simp add: less_number_bits)
  moreover have "k - 1 < number_bits n \<or> k = 0"
  proof (cases k)
    case (Suc j)
    then have "n + 1 = 2 * 2 ^ j" "(1 :: nat) \<le> 2 ^ j" using n by simp_all
    then have "2 ^ j \<le> n" by linarith
    then show ?thesis using Suc by (simp add: less_number_bits)
  qed simp
  ultimately show ?thesis by linarith
qed

lemma avb_sample_key: "avb_key 2048 sample_key"
proof -
  let ?n = "be_val (replicate 256 255)"
  have w: "window sample_key 8 264 = replicate 256 255" "window sample_key 0 4 = [0, 0, 8, 0]"
    "window sample_key 4 8 = [0, 0, 0, 1]" "window sample_key 264 520 = replicate 255 0 @ [1]"
    and l: "length sample_key = 520"
    by (simp_all add: window_def sample_key_def)
  have n: "?n + 1 = 2 ^ 2048"
    using be_val_ones [of 256] power_mult [of "2 :: nat" 8 256] by simp
  have b: "number_bits ?n = 2048" by (rule number_bits_ones [OF n])
  have big: "2 ^ 1024 < ?n"
  proof -
    have "(2 :: nat) ^ 1024 + 1 < 2 ^ 2048" by simp
    then show ?thesis using n by linarith
  qed
  then have one: "1 < ?n" by (rule le_less_trans [rotated]) simp
  have "(2 ^ number_bits ?n) ^ 2 mod ?n = (?n + 1) ^ 2 mod ?n" unfolding b n ..
  also have "\<dots> = ((?n + 1) mod ?n) ^ 2 mod ?n" by (rule power_mod [symmetric])
  also have "(?n + 1) mod ?n = 1" using one by (simp only: mod_Suc Suc_eq_plus1 [symmetric]) simp
  also have "1 ^ 2 mod ?n = 1" using one by simp
  finally have rr: "(2 ^ number_bits ?n) ^ 2 mod ?n = 1" .
  have m: "(1 * ?n + 1) mod 2 ^ 32 = 0"
  proof -
    have "(2 :: nat) ^ 32 dvd 2 ^ 2048" by (rule le_imp_power_dvd) simp
    then show ?thesis using n by simp
  qed
  have odd: "odd ?n"
  proof -
    have "even (?n + 1)" unfolding n by simp
    then show ?thesis by simp
  qed
  have v: "be_val [0, 0, 8, 0] = 2048" "be_val [0, 0, 0, 1] = 1" "be_val (replicate 255 0 @ [1]) = 1"
    by (simp_all add: be_val_append)
  show ?thesis unfolding avb_key_def Let_def using big odd m rr
    by (simp add: w l v)
qed

theorem decode_key_candidate_iff_witness:
  "decode_key_candidate sample_key 0 2048 = Some sample_key"
  using decode_key_candidate_iff [of 2048 sample_key 0 sample_key] avb_sample_key
  by (simp add: RSA_KEY_BITS_def window_def)

section \<open>The keys of an image\<close>

text \<open>A blob found at a place: a key stands there and the place is mapped.\<close>

definition key_site :: "pe_image \<Rightarrow> nat \<Rightarrow> byte list \<Rightarrow> bool" where
  "key_site pe p blob \<longleftrightarrow> (\<exists>bits \<in> set RSA_KEY_BITS. avb_key bits blob) \<and>
     p + length blob \<le> length (img_data pe) \<and> window (img_data pe) p (p + length blob) = blob \<and>
     raw_to_rva pe p \<noteq> None"

definition first_site :: "pe_image \<Rightarrow> nat \<Rightarrow> byte list \<Rightarrow> bool" where
  "first_site pe p blob \<longleftrightarrow> key_site pe p blob \<and> (\<forall>q < p. \<not> key_site pe q blob)"

text \<open>The key that is reported: none has more references, and it is the first of those with as many.\<close>

definition signing_key :: "pe_image \<Rightarrow> nat \<Rightarrow> byte list \<Rightarrow> bool" where
  "signing_key pe p blob \<longleftrightarrow> first_site pe p blob \<and>
     (\<forall>q other. first_site pe q other \<longrightarrow>
        instruction_references pe q (length other) < instruction_references pe p (length blob) \<or>
        (instruction_references pe q (length other) = instruction_references pe p (length blob) \<and> p \<le> q))"

definition mk_blob :: "pe_image \<Rightarrow> nat \<Rightarrow> byte list \<Rightarrow> key_blob" where
  "mk_blob pe p blob = \<lparr> kb_raw_offset = p, kb_blob = blob,
     kb_references = instruction_references pe p (length blob) \<rparr>"

lemma mk_blob_sel [simp]:
  "kb_raw_offset (mk_blob pe p blob) = p" "kb_blob (mk_blob pe p blob) = blob"
  "kb_references (mk_blob pe p blob) = instruction_references pe p (length blob)"
  by (simp_all add: mk_blob_def)

definition hit :: "pe_image \<Rightarrow> nat \<times> nat \<Rightarrow> byte list \<Rightarrow> bool" where
  "hit pe c blob \<longleftrightarrow> decode_key_candidate (img_data pe) (snd c) (fst c) = Some blob \<and>
     raw_to_rva pe (snd c) \<noteq> None"

lemma add_candidate_hit:
  "hit pe (bits, p) blob \<Longrightarrow> add_candidate pe found (bits, p) =
     (if blob \<in> kb_blob ` set found then found else found @ [mk_blob pe p blob])"
  by (auto simp: add_candidate_def hit_def mk_blob_def)

lemma add_candidate_miss:
  "\<forall>blob. \<not> hit pe (bits, p) blob \<Longrightarrow> add_candidate pe found (bits, p) = found"
  by (auto simp: add_candidate_def hit_def split: option.splits)

lemma hit_unique: "hit pe c b1 \<Longrightarrow> hit pe c b2 \<Longrightarrow> b1 = b2"
  by (simp add: hit_def)

text \<open>Equal blobs are met in the order of their places.\<close>

definition in_order :: "pe_image \<Rightarrow> (nat \<times> nat) list \<Rightarrow> bool" where
  "in_order pe = sorted_wrt (\<lambda>c d. \<forall>blob. hit pe c blob \<longrightarrow> hit pe d blob \<longrightarrow> snd c < snd d)"

definition minimal :: "pe_image \<Rightarrow> (nat \<times> nat) list \<Rightarrow> nat \<times> nat \<Rightarrow> byte list \<Rightarrow> bool" where
  "minimal pe cs c blob \<longleftrightarrow> c \<in> set cs \<and> hit pe c blob \<and>
     (\<forall>d \<in> set cs. hit pe d blob \<longrightarrow> snd c \<le> snd d)"

lemma minimal_miss: "\<forall>blob. \<not> hit pe c blob \<Longrightarrow> minimal pe (cs @ [c]) d b \<longleftrightarrow> minimal pe cs d b"
  by (auto simp: minimal_def)

lemma minimal_old:
  assumes "\<And>e b. e \<in> set cs \<Longrightarrow> hit pe e b \<Longrightarrow> hit pe c b \<Longrightarrow> snd e < snd c"
    and "e \<in> set cs" and "hit pe e blob" and "hit pe c blob"
  shows "minimal pe (cs @ [c]) d b \<longleftrightarrow> minimal pe cs d b"
proof
  assume m: "minimal pe (cs @ [c]) d b"
  have "d \<noteq> c"
  proof
    assume "d = c"
    then have "hit pe c b" using m by (simp add: minimal_def)
    then have "b = blob" using assms(4) by (rule hit_unique)
    then have "snd c \<le> snd e" using m assms(2,3) \<open>d = c\<close> by (auto simp: minimal_def)
    then show False using assms(1) [OF assms(2-4)] by simp
  qed
  then show "minimal pe cs d b" using m by (auto simp: minimal_def)
next
  assume m: "minimal pe cs d b"
  then have "hit pe c b \<longrightarrow> snd d \<le> snd c" using assms(1) [of d b] by (auto simp: minimal_def)
  then show "minimal pe (cs @ [c]) d b" using m by (auto simp: minimal_def)
qed

lemma minimal_new:
  assumes "\<forall>e \<in> set cs. \<not> hit pe e blob" and "hit pe c blob"
  shows "minimal pe (cs @ [c]) d b \<longleftrightarrow> minimal pe cs d b \<or> (d = c \<and> b = blob)"
proof -
  have u: "hit pe c b \<longleftrightarrow> b = blob" using assms(2) hit_unique by blast
  show ?thesis using assms u by (cases "b = blob") (auto simp: minimal_def)
qed

lemma candidates_fold:
  "in_order pe cs \<Longrightarrow>
   set (foldl (add_candidate pe) [] cs) = {mk_blob pe (snd c) blob | c blob. minimal pe cs c blob} \<and>
   kb_blob ` set (foldl (add_candidate pe) [] cs) = {blob. \<exists>c \<in> set cs. hit pe c blob}"
proof (induction cs rule: rev_induct)
  case (snoc c cs)
  let ?f = "foldl (add_candidate pe) [] cs"
  have ord: "in_order pe cs" and before: "\<And>d blob. d \<in> set cs \<Longrightarrow> hit pe d blob \<Longrightarrow> hit pe c blob \<Longrightarrow> snd d < snd c"
    using snoc.prems by (auto simp: in_order_def sorted_wrt_append)
  note ih = snoc.IH [OF ord]
  obtain bits p where c: "c = (bits, p)" by fastforce
  show ?case
  proof (cases "\<exists>blob. hit pe c blob")
    case False
    then have f: "foldl (add_candidate pe) [] (cs @ [c]) = ?f"
      using add_candidate_miss [of pe bits p] c by simp
    have m: "minimal pe (cs @ [c]) d b = minimal pe cs d b" for d b using False by (simp add: minimal_miss)
    have k: "{b. \<exists>e \<in> set (cs @ [c]). hit pe e b} = {b. \<exists>e \<in> set cs. hit pe e b}" using False by auto
    show ?thesis unfolding f m k by (rule ih)
  next
    case True
    then obtain blob where h: "hit pe c blob" by blast
    have seen: "blob \<in> kb_blob ` set ?f \<longleftrightarrow> (\<exists>d \<in> set cs. hit pe d blob)" using conjunct2 [OF ih] by auto
    have step: "foldl (add_candidate pe) [] (cs @ [c]) =
        (if \<exists>d \<in> set cs. hit pe d blob then ?f else ?f @ [mk_blob pe (snd c) blob])"
      using add_candidate_hit [of pe bits p blob ?f] h c unfolding seen by simp
    have u: "\<And>b. hit pe c b \<longleftrightarrow> b = blob" using h hit_unique by blast
    show ?thesis
    proof (cases "\<exists>d \<in> set cs. hit pe d blob")
      case old: True
      then obtain d where d: "d \<in> set cs" "hit pe d blob" by blast
      have "{b. \<exists>e \<in> set (cs @ [c]). hit pe e b} = {b. \<exists>e \<in> set cs. hit pe e b}" using old u by auto
      then have k: "{b. \<exists>e \<in> set (cs @ [c]). hit pe e b} = {b. \<exists>e \<in> set cs. hit pe e b}" .
      have m: "minimal pe (cs @ [c]) e b = minimal pe cs e b" for e b by (rule minimal_old [OF before d h])
      have f: "foldl (add_candidate pe) [] (cs @ [c]) = ?f" using step old by simp
      show ?thesis unfolding f m k by (rule ih)
    next
      case new: False
      have m: "{mk_blob pe (snd d) b | d b. minimal pe (cs @ [c]) d b} =
          insert (mk_blob pe (snd c) blob) {mk_blob pe (snd d) b | d b. minimal pe cs d b}"
        using new h by (auto simp: minimal_new; metis prod.collapse)
      have k: "{b. \<exists>e \<in> set (cs @ [c]). hit pe e b} = insert blob {b. \<exists>e \<in> set cs. hit pe e b}"
        using u by auto
      show ?thesis using new conjunct1 [OF ih] conjunct2 [OF ih] unfolding step m k by simp
    qed
  qed
qed (simp add: minimal_def)

lemma site_marker:
  assumes "bits \<in> set RSA_KEY_BITS" and "avb_key bits blob" and "p + length blob \<le> length data"
    and "window data p (p + length blob) = blob"
  shows "p \<in> set (window_positions data (u32_be (of_nat bits)))"
proof -
  have l: "8 \<le> length blob" and v: "be_val (window blob 0 4) = bits"
    using assms(2) by (simp_all add: avb_key_def Let_def)
  have w: "window data p (p + 4) = window blob 0 4"
  proof -
    have "window blob 0 4 = take 4 (window data p (p + length blob))" unfolding assms(4) by (simp add: window_def)
    then show ?thesis using l by (simp add: window_def min_def)
  qed
  have l4: "length (window blob 0 4) = 4" using l by simp
  then obtain a b c d where abcd: "window blob 0 4 = [a, b, c, d]" by (auto simp: length_Suc_conv numeral_eq_Suc)
  then have e: "bits = unat (u32_of_be a b c d)" using v by (simp only: unat_u32_of_be)
  have "u32_be (of_nat bits) = window blob 0 4" unfolding e abcd by (simp add: u32_be_u32_of_be)
  moreover have "window_at data (window blob 0 4) p"
    unfolding window_at_def l4 using w l assms(3) by simp
  moreover have "p < length data + 1 - length (window blob 0 4)" unfolding l4 using l assms(3) by linarith
  ultimately show ?thesis by (simp add: window_positions_def)
qed

lemma key_site_iff:
  "key_site pe p blob \<longleftrightarrow> (\<exists>bits. (bits, p) \<in> set (key_candidates (img_data pe)) \<and> hit pe (bits, p) blob)"
proof
  assume k: "key_site pe p blob"
  then obtain bits where b: "bits \<in> set RSA_KEY_BITS" "avb_key bits blob" by (auto simp: key_site_def)
  have "(bits, p) \<in> set (key_candidates (img_data pe))"
    using site_marker [OF b, of p "img_data pe"] k b by (auto simp: key_site_def key_candidates_def)
  moreover have "hit pe (bits, p) blob"
    using k b decode_key_Some [OF b(1)] by (auto simp: hit_def key_site_def)
  ultimately show "\<exists>bits. (bits, p) \<in> set (key_candidates (img_data pe)) \<and> hit pe (bits, p) blob" by blast
next
  assume "\<exists>bits. (bits, p) \<in> set (key_candidates (img_data pe)) \<and> hit pe (bits, p) blob"
  then obtain bits where b: "bits \<in> set RSA_KEY_BITS" "hit pe (bits, p) blob"
    by (auto simp: key_candidates_def)
  then show "key_site pe p blob"
    using decode_key_Some [OF b(1)] by (auto simp: hit_def key_site_def)
qed

lemma candidates_bits: "c \<in> set (key_candidates data) \<Longrightarrow> fst c \<in> set RSA_KEY_BITS"
  by (auto simp: key_candidates_def)

lemma hit_bits:
  assumes "hit pe c blob" and "fst c \<in> set RSA_KEY_BITS"
  shows "fst c = be_val (window blob 0 4)"
  using assms decode_key_Some [OF assms(2)] by (auto simp: hit_def avb_key_def Let_def)

lemma candidates_in_order: "in_order pe (key_candidates (img_data pe))"
proof -
  have s: "sorted_wrt (\<lambda>c d. fst c = fst d \<longrightarrow> snd c < snd d) (key_candidates (img_data pe))"
    by (auto simp: key_candidates_def RSA_KEY_BITS_def sorted_wrt_append sorted_wrt_map window_positions_def
        intro!: sorted_wrt_filter)
  show ?thesis unfolding in_order_def
  proof (rule sorted_wrt_mono_rel [OF _ s], intro allI impI)
    fix c d blob
    assume a: "c \<in> set (key_candidates (img_data pe))" "d \<in> set (key_candidates (img_data pe))"
      "fst c = fst d \<longrightarrow> snd c < snd d" "hit pe c blob" "hit pe d blob"
    have "fst c = fst d" using hit_bits [OF a(4)] hit_bits [OF a(5)] candidates_bits a(1,2) by auto
    then show "snd c < snd d" using a(3) by blast
  qed
qed

lemma find_key_blobs_set:
  "set (find_key_blobs pe) = {mk_blob pe p blob | p blob. first_site pe p blob}"
proof -
  let ?C = "key_candidates (img_data pe)"
  have min_first: "minimal pe ?C c blob \<Longrightarrow> first_site pe (snd c) blob" for c blob
    unfolding minimal_def first_site_def key_site_iff
    by (cases c) (fastforce dest: leD)
  have first_min: "\<exists>bits. minimal pe ?C (bits, p) blob" if f: "first_site pe p blob" for p blob
  proof -
    obtain bits where b: "(bits, p) \<in> set ?C" "hit pe (bits, p) blob"
      using f by (auto simp: first_site_def key_site_iff)
    have "p \<le> snd d" if "d \<in> set ?C" "hit pe d blob" for d
    proof (rule ccontr)
      assume "\<not> p \<le> snd d"
      moreover have "key_site pe (snd d) blob" using that unfolding key_site_iff by (metis prod.collapse)
      ultimately show False using f by (auto simp: first_site_def)
    qed
    then show ?thesis using b by (auto simp: minimal_def)
  qed
  show ?thesis unfolding find_key_blobs_def conjunct1 [OF candidates_fold [OF candidates_in_order]]
    using min_first first_min by (auto; metis snd_conv)
qed

section \<open>The fingerprint\<close>

lemma key_site_unique:
  assumes "key_site pe p b1" and "key_site pe p b2"
  shows "b1 = b2"
proof -
  obtain n1 n2 where n: "avb_key n1 b1" "avb_key n2 b2" using assms by (auto simp: key_site_def)
  have l: "length b1 = 8 + 2 * (n1 div 8)" "length b2 = 8 + 2 * (n2 div 8)"
    "be_val (window b1 0 4) = n1" "be_val (window b2 0 4) = n2"
    using n by (simp_all add: avb_key_def Let_def)
  have w: "window b 0 4 = take 4 (drop p (img_data pe))"
    if "window (img_data pe) p (p + length b) = b" "8 \<le> length b" for b
    by (subst that(1) [symmetric]) (use that(2) in \<open>simp add: window_def min_def\<close>)
  have "n1 = n2" using w [of b1] w [of b2] l assms by (simp add: key_site_def)
  then have "length b1 = length b2" using l by simp
  then show ?thesis using assms by (metis key_site_def)
qed

lemma sort_key_head:
  assumes "sort_key f xs = k # ys"
  shows "k \<in> set xs" and "x \<in> set xs \<Longrightarrow> f k \<le> f x"
proof -
  have s: "set (k # ys) = set xs" using set_sort [of f xs] assms by simp
  then show "k \<in> set xs" by auto
  have "sorted (map f (k # ys))" using sorted_sort_key [of f xs] assms by simp
  then show "x \<in> set xs \<Longrightarrow> f k \<le> f x" using s by auto
qed

lemma signing_key_first: "signing_key pe p blob \<Longrightarrow> mk_blob pe p blob \<in> set (find_key_blobs pe)"
  by (auto simp: find_key_blobs_set signing_key_def)

lemma signing_key_unique:
  assumes "signing_key pe p b1" and "signing_key pe q b2"
  shows "b1 = b2"
proof -
  have f: "first_site pe p b1" "first_site pe q b2" using assms by (simp_all add: signing_key_def)
  have "p = q" using assms f unfolding signing_key_def by (metis less_asym less_irrefl order_antisym)
  then show ?thesis using f key_site_unique by (metis first_site_def)
qed

lemma chosen_key:
  assumes "find_key_blobs pe \<noteq> []"
    and "sort_key kb_raw_offset (filter (\<lambda>k. kb_references k = Max (kb_references ` set (find_key_blobs pe)))
           (find_key_blobs pe)) = k # rest"
  shows "signing_key pe (kb_raw_offset k) (kb_blob k)"
proof -
  let ?keys = "find_key_blobs pe"
  note h = sort_key_head [OF assms(2)]
  from h(1) have k: "k \<in> set ?keys" "kb_references k = Max (kb_references ` set ?keys)" by auto
  then obtain p blob where pb: "first_site pe p blob" "k = mk_blob pe p blob"
    by (auto simp: find_key_blobs_set)
  have "instruction_references pe q (length other) < instruction_references pe p (length blob) \<or>
      (instruction_references pe q (length other) = instruction_references pe p (length blob) \<and> p \<le> q)"
    if "first_site pe q other" for q other
  proof -
    have m: "mk_blob pe q other \<in> set ?keys" using that by (auto simp: find_key_blobs_set)
    then have "kb_references (mk_blob pe q other) \<in> kb_references ` set ?keys" by (rule imageI)
    then have "kb_references (mk_blob pe q other) \<le> kb_references k" unfolding k(2) by (intro Max_ge) auto
    moreover have "p \<le> q" if "kb_references (mk_blob pe q other) = kb_references k"
      using h(2) [of "mk_blob pe q other"] m that k(2) pb(2) by simp
    ultimately show ?thesis using pb(2) by fastforce
  qed
  then show ?thesis using pb by (auto simp: signing_key_def)
qed

text \<open>
  (C16) The fingerprint of a loader is the digest of its signing key: of the consistent keys at mapped
  places of the chosen image, each counted at its first place, the first one that no other key
  exceeds in references. Without such a key nothing is reported.
\<close>

theorem extract_from_bytes_iff:
  "extract_from_bytes lzma sha1 raw = Inr fingerprint \<longleftrightarrow>
   (\<exists>pe p blob. load_linuxloader lzma raw = Some pe \<and> signing_key pe p blob \<and>
      fingerprint = hex_digest (sha1 blob))"
proof (cases "load_linuxloader lzma raw")
  case None
  then show ?thesis by (simp add: extract_from_bytes_def)
next
  case (Some pe)
  let ?keys = "find_key_blobs pe"
  let ?kept = "sort_key kb_raw_offset (filter (\<lambda>k. kb_references k = Max (kb_references ` set ?keys)) ?keys)"
  show ?thesis
  proof (cases "?keys = []")
    case True
    then have "\<not> signing_key pe p blob" for p blob using signing_key_first [of pe p blob] by auto
    then show ?thesis using True Some by (simp add: extract_from_bytes_def Let_def)
  next
    case False
    then have "Max (kb_references ` set ?keys) \<in> kb_references ` set ?keys" by (intro Max_in) auto
    then obtain k0 where "k0 \<in> set ?keys" "kb_references k0 = Max (kb_references ` set ?keys)" by auto
    then have "k0 \<in> set ?kept" by simp
    then obtain k rest where kept: "?kept = k # rest" by (cases ?kept) auto
    note c = chosen_key [OF False kept]
    have e: "extract_from_bytes lzma sha1 raw = Inr (hex_digest (sha1 (kb_blob k)))"
      unfolding extract_from_bytes_def Some Let_def
      by (simp only: ok_or_simps bind_r_simps False if_False kept list.case)
    show ?thesis
    proof
      assume "extract_from_bytes lzma sha1 raw = Inr fingerprint"
      then have "fingerprint = hex_digest (sha1 (kb_blob k))" unfolding e by simp
      then show "\<exists>pe p blob. load_linuxloader lzma raw = Some pe \<and> signing_key pe p blob \<and>
          fingerprint = hex_digest (sha1 blob)" using c Some by blast
    next
      assume "\<exists>pe p blob. load_linuxloader lzma raw = Some pe \<and> signing_key pe p blob \<and>
          fingerprint = hex_digest (sha1 blob)"
      then obtain p blob where s: "signing_key pe p blob" "fingerprint = hex_digest (sha1 blob)"
        using Some by auto
      show "extract_from_bytes lzma sha1 raw = Inr fingerprint"
        unfolding e s(2) signing_key_unique [OF c s(1)] by (rule refl)
    qed
  qed
qed

end
