(* ===== verification/Spec2Isabelle.thy ===== *)
theory Spec2Isabelle
  imports Asm_Mov Asm_Branch Export_Props Export_Table Fdt_Sample Vendor_Sample
    Hook_Sample Country_Props Root_Dispatch Flash_Wizard Kona_Freq Parts_Props Abl_Props
begin

text \<open>
  LTBox patches Android boot images and flashes them. This library models the parts of
  \<open>crates/ltbox-patch\<close> that decide what is written to a device: the SKRoot kernel patcher (\<open>src/skroot\<close>),
  the KonaBess GPU table editor (\<open>src/konabess\<close>), the region and country conversion (\<open>region.rs\<close>) and the
  rollback policy (\<open>rollback.rs\<close>, \<open>key_map.rs\<close>, \<open>abl_key.rs\<close>); and the parts of \<open>crates/ltbox-gui\<close> and
  \<open>crates/ltbox-core\<close> that decide when it is written: the wizards (\<open>model/wizard.rs\<close>), their message
  handlers (\<open>update/root.rs\<close>, \<open>update/konabess.rs\<close>, \<open>update/advanced.rs\<close>), the ownership of the device
  (\<open>operation_execution.rs\<close>, \<open>operation_phase.rs\<close>) and the capabilities of the device models (\<open>model.rs\<close>).
  It proves what the written images guarantee, and that no run starts without what it needs.

  \<^bold>\<open>The program.\<close> The kernel patcher reads a raw kernel image. It finds the version banner
  (\<open>version.rs\<close>), decodes the symbol table hidden in the image (\<open>kallsyms.rs\<close>), resolves the functions it
  needs and bounds their code (\<open>symbol_analyze.rs\<close>, \<open>func_end.rs\<close>, both on the instruction predicates of
  \<open>insn.rs\<close>), recovers structure offsets from their instructions (\<open>offsets.rs\<close>) and the initial
  credentials (\<open>init_cred.rs\<close>), then assembles hooks with its own encoder (\<open>asm.rs\<close>, \<open>patch_base.rs\<close>, the
  \<open>patch_*.rs\<close> files) into spare regions and returns a list of writes (\<open>patch_plan.rs\<close>). The GPU editor reads
  an exported table (\<open>export.rs\<close>: base64, gzip framing, a text table), validates and normalises it, splices it
  into a flattened device tree (\<open>fdt.rs\<close>), and puts that tree back into a vendor-boot image
  (\<open>vendor_boot.rs\<close>).

  \<^bold>\<open>Conventions\<close> (\<open>Prelude\<close>, \<open>Rust_Str\<close>). Machine integers are words; \<open>usize\<close> is \<open>nat\<close>, with the bound
  \<open>2 ^ 64\<close> where the code checks it and wrap-around where a file offset is a \<open>u64\<close>; \<open>Result\<close> is a sum whose left
  side also carries a panic constructor wherever an index, a slice, an \<open>expect\<close> or a copy of the code can
  panic, and a hook or resolver that has no error of its own returns \<open>None\<close> for a panic. Where the code adds
  to an offset before it compares (\<open>i + 4 > len\<close>), the sum is \<open>usize_add\<close>, which wraps at \<open>2 ^ 64\<close>; \<open>?\<close> is \<open>bind_r\<close>; \<open>String\<close> is a character list, its bytes \<open>as_bytes\<close>.

  \<^bold>\<open>Theories and code.\<close>
  \<^item> \<open>Insn\<close>: \<open>insn.rs\<close>, one definition per predicate and field. \<open>Asm\<close>: \<open>asm.rs\<close>, the builder as a
    record with its labels and pending branches. \<open>Asm_Branch\<close>: the builder invariant \<open>asm_wf\<close>, the locale
    \<open>appender\<close> interpreted on the emitters, and the correctness of the resolved branches. \<open>Asm_Mov\<close>: a reference
    semantics of the move and logical instructions and the correctness of the immediate moves and of the
    logical immediate encoder for every 64-bit value.
  \<^item> \<open>Kernel_Version\<close>, \<open>Func_End\<close>, \<open>Offsets\<close>, \<open>Init_Cred\<close>, \<open>Patch_Bytes\<close>: the files of those names, each
    with its properties. The worklist of \<open>func_end.rs\<close> terminates because every push moves a branch target
    into the history; \<open>handle_candidate_iff\<close> says it computes the reachable function ends.
  \<^item> \<open>Kallsyms\<close>, \<open>Kallsyms_Props\<close>: the whole decoder of \<open>kallsyms.rs\<close>; the symbol table it builds, the round
    trip of the name compression, and the images on which a scan indexes out of range.
  \<^item> \<open>Symbol_Analyze\<close>: \<open>symbol_analyze.rs\<close>; the locale \<open>symbol_sizes\<close> is what a resolver may assume of a
    symbol table, interpreted on the decoded table.
  \<^item> \<open>Patch_Base\<close>, \<open>Selinux_Hooks\<close>, \<open>Filldir_Hook\<close>, \<open>Execve_Hook\<close>, \<open>Patch_Plan\<close>: \<open>patch_base.rs\<close>,
    \<open>patch_current_avc_check.rs\<close>, \<open>patch_avc_denied.rs\<close>, \<open>patch_audit_log_start.rs\<close>, \<open>patch_filldir64.rs\<close>,
    \<open>patch_do_execve.rs\<close> and \<open>patch_plan.rs\<close>. \<open>Root_Key\<close>: the writes of a plan and the root key of
    \<open>root_pipeline/skroot.rs\<close>. \<open>Hook_Code\<close>, \<open>Hook_Props\<close>, \<open>Hook_Sample\<close>: no hook panics when the resolved
    addresses are below \<open>2 ^ 64 - 4\<close>, and those above do panic (\<open>constructors_panic\<close>); a hook fits its region, keeps the displaced instruction and branches behind it; every return of
    \<open>avc_denied\<close> is redirected; a second pass over an image with its generated key is refused; and the kernels on which this is witnessed.
  \<^item> \<open>Gpu_Table\<close>, \<open>Gpu_Normalize\<close>: the table model, its validation and normalisation (\<open>export.rs\<close>, \<open>fdt.rs\<close>).
    \<open>Export_Parse\<close>, \<open>Export_Props\<close>, \<open>Export_Table\<close>: the export parser and its round trips.
  \<^item> \<open>Fdt\<close> and \<open>Fdt_Encode\<close>, \<open>Fdt_Run\<close>, \<open>Fdt_Read\<close>, \<open>Fdt_Locality\<close>, \<open>Fdt_Splice\<close>, \<open>Fdt_Safe\<close>,
    \<open>Fdt_Replace\<close>, \<open>Fdt_Sample\<close>: \<open>fdt.rs\<close>. Its slices panic as values, and \<open>Fdt_Safe\<close> shows that they never do. The token loop is also a step relation; runs are local to the bytes they read
    and can be shifted, so that a spliced table is read back by the parser. The locale \<open>name_pool\<close> is the
    contract of the string table.
  \<^item> \<open>Alignment\<close>, \<open>Vendor_Boot\<close>, \<open>Vendor_Layout\<close>, \<open>Vendor_Rebuild\<close>, \<open>Vendor_Dtb\<close>, \<open>Vendor_Sample\<close>:
    \<open>vendor_boot.rs\<close>. The locale \<open>alignment\<close> is interpreted on the two \<open>align_up\<close> functions; the rebuilt image
    refines an abstract update of one section; replacing a tree and reading the image again gives the old
    trees with the new table.

  \<^item> \<open>Region\<close>, \<open>Region_Props\<close>, \<open>Country_Props\<close>: \<open>region.rs\<close>, on a disk of readable and writable files: a
    conversion that replaces anything leaves markers of the target only, and a country patch rewrites
    exactly the stored fields. \<open>Rollback\<close>: \<open>rollback.rs\<close> and \<open>key_map.rs\<close>. \<open>Model_Profiles\<close>:
    \<open>model.rs\<close> and \<open>model/capabilities.rs\<close> of the core crate.
  \<^item> \<open>Abl_Key\<close>: \<open>abl_key.rs\<close>, the public key inside a boot loader. \<open>Abl_Limbs\<close>: the numbers its limb
    arithmetic computes. \<open>Abl_Props\<close>: exactly the consistent AVB keys are accepted (\<open>avb_key\<close>), and the reported
    fingerprint is that of \<open>signing_key\<close>.
  \<^item> \<open>Operation\<close>: the foreground operation. Its progress cells are shared with the worker, so they live in a
    store; \<open>op_step\<close> is everything that can happen to it, and a finished run is isolated from later ones.
  \<^item> \<open>Root_Wizard\<close>, \<open>Root_Update\<close>: the root wizard and its handlers. \<open>Root_Props\<close>: every route is walked
    by Next and Back. \<open>Root_Safety\<close>: the reachable states \<open>root_reach\<close>, and that an offered message starts
    only complete runs. \<open>Root_Dispatch\<close>: the dispatcher (\<open>update/mod.rs\<close>), which drops input while an
    operation runs and queues it during a device poll (\<open>device_poll_gate.rs\<close>); the states \<open>sys_reach\<close> of the
    whole record whether a replayed message had become stale, because the replay does not ask again.
  \<^item> \<open>Wizards\<close>: the trait \<open>Wizard\<close> as the locale \<open>linear_wizard\<close>, interpreted on every wizard that implements
    it. \<open>Flash_Wizard\<close>: the firmware wizard with the firmware identity. \<open>Kona_Wizard\<close>: the KonaBess wizard,
    which edits the tables of \<open>Gpu_Table\<close>; \<open>Kona_Props\<close>: its reachable states and the table it flashes;
    \<open>Kona_Freq\<close>: its frequency fields.
  \<^item> \<open>Stable_Sort\<close>: sorting by a comparison; the locale \<open>total_cmp\<close> is what makes it a stable sort, interpreted
    on the comparisons of the partition rows. \<open>Parts_Wizard\<close>: the partition wizards and their handlers.
    \<open>Parts_Props\<close>: the reachable states \<open>parts_reach\<close>, the rows that a run writes, and the image that lands on
    another row when the table is sorted under an open dialog.

  \<^bold>\<open>Bounds.\<close> Loops are recursive functions with a measure, so that no fuel is needed. Branch distances are
  proved for places in the first 128 MiB of an image, the reach of a \<open>b\<close> instruction; offset differences
  that the code casts to \<open>i32\<close> are exact there.

  \<^bold>\<open>Not modelled.\<close> The ZIP, DEFLATE and JSON libraries are parameters of the export parser, LZMA and SHA-1 of the key search. Reading and
  writing files, the Magisk, KernelSU and APatch pipelines (downloads and external tools), AVB signing
  (cryptography of a library, and with it the builder of the converted AVB pair in \<open>region.rs\<close>), the device
  protocols of \<open>crates/ltbox-device\<close> (USB and serial I/O) and the views and workers of \<open>crates/ltbox-gui\<close>
  (of the root worker all but its first decision) are not modelled: what a handler starts on the device is a value, a task or a job, and what it looks up
  (files, loaders, localised texts) is an argument. The floating point tests of \<open>kallsyms.rs\<close> and \<open>patch_base.rs\<close> are written on integers, which
  agree with them for images below the sizes stated in their theories.
\<close>

end
